(* ===== verification/C_Prelude.thy ===== *)
theory C_Prelude
  imports Complex_Main "HOL-Library.Word"
begin

text \<open>
  The prelude of the development: the C integer types of the target the simulator is built for
  (LP64 with the GNU C library, where \<^verbatim>\<open>uint_fast16_t\<close> and \<^verbatim>\<open>uint_fast32_t\<close> are 64 bits wide
  and \<^verbatim>\<open>uint_fast8_t\<close> is 8 bits wide), and the generic lemmas on words, powers of two and floors
  that the component theories share.

  Unsigned C integers are words of their width, so that every wrap-around is part of the model.
  Signed C integers (exponents, shift distances) are mathematical integers: their overflow is
  undefined behaviour in C, and all of them stay within a few thousand; a conversion of one of them
  to an unsigned type is written out as \<^term>\<open>word_of_int\<close>.  The full-range signed arguments and results
  of the integer conversions are words too, read with \<^term>\<open>sint\<close>.
\<close>

unbundle bit_operations_syntax

section \<open>C types\<close>

type_synonym uint8_t = "8 word"
type_synonym uint16_t = "16 word"
type_synonym uint32_t = "32 word"
type_synonym uint64_t = "64 word"
type_synonym int32_t = "32 word"
type_synonym int64_t = "64 word"
type_synonym int_fast32_t = "64 word"
type_synonym int_fast64_t = "64 word"
type_synonym uint_fast8_t = "8 word"
type_synonym uint_fast16_t = "64 word"
type_synonym uint_fast32_t = "64 word"
type_synonym uint_fast64_t = "64 word"

section \<open>Collections\<close>

text \<open>\<open>unat_simps\<close>: what each word operation does to the unsigned value.\<close>

named_theorems unat_simps

section \<open>Unsigned values of word operations\<close>

lemma unat_lt_2p: "unat (w :: 'a::len word) < 2 ^ LENGTH('a)"
  by (rule unsigned_less)

lemma unat_drop_bit [unat_simps]: "unat (drop_bit n (w :: 'a::len word)) = unat w div 2 ^ n"
  by (simp only: unat_drop_bit_eq) (simp add: drop_bit_eq_div)

lemma unat_take_bit [unat_simps]: "unat (take_bit n (w :: 'a::len word)) = unat w mod 2 ^ n"
  by (simp only: unsigned_take_bit_eq) (simp add: take_bit_eq_mod)

lemma unat_push_bit:
  "unat (push_bit n (w :: 'a::len word)) = (unat w * 2 ^ n) mod 2 ^ LENGTH('a)"
  by (simp only: unsigned_push_bit_eq) (simp add: take_bit_eq_mod push_bit_eq_mult)

lemma unat_push_bit_less:
  "unat w * 2 ^ n < 2 ^ LENGTH('a) \<Longrightarrow> unat (push_bit n (w :: 'a::len word)) = unat w * 2 ^ n"
  by (simp add: unat_push_bit)

lemma unat_ucast [unat_simps]:
  "unat (ucast (w :: 'a::len word) :: 'b::len word) = unat w mod 2 ^ LENGTH('b)"
  by (simp add: unsigned_ucast_eq take_bit_eq_mod)

lemma unat_ucast_up [simp]:
  assumes "LENGTH('a) \<le> LENGTH('b)"
  shows "unat (ucast (w :: 'a::len word) :: 'b::len word) = unat w"
proof -
  have "unat w < 2 ^ LENGTH('b)"
    by (rule less_le_trans [OF unat_lt_2p power_increasing [OF assms]]) simp
  then show ?thesis by (simp add: unat_ucast)
qed

lemma unat_ucast_less:
  "unat w < 2 ^ LENGTH('b) \<Longrightarrow> unat (ucast (w :: 'a::len word) :: 'b::len word) = unat w"
  by (simp add: unat_ucast)

lemma unat_add_less:
  "unat a + unat b < 2 ^ LENGTH('a) \<Longrightarrow> unat (a + b :: 'a::len word) = unat a + unat b"
  by (simp add: unat_word_ariths)

lemma unat_sub_le:
  "unat b \<le> unat a \<Longrightarrow> unat (a - b :: 'a::len word) = unat a - unat b"
  by (rule unat_sub) (simp add: word_le_nat_alt)

lemma unat_mult_less:
  "unat a * unat b < 2 ^ LENGTH('a) \<Longrightarrow> unat (a * b :: 'a::len word) = unat a * unat b"
  by (simp add: unat_word_ariths)

lemma unat_or [unat_simps]: "unat (a OR b :: 'a::len word) = unat a OR unat b"
  by (simp add: unsigned_or_eq)

lemma unat_and [unat_simps]: "unat (a AND b :: 'a::len word) = unat a AND unat b"
  by (simp add: unsigned_and_eq)

lemma unat_of_bool [simp]: "unat (of_bool P :: 'a::len word) = of_bool P"
  by simp

lemma unat_and_mask: "unat (a AND mask n :: 'a::len word) = unat a mod 2 ^ n"
  by (simp add: unat_take_bit flip: take_bit_eq_mask)

lemma unat_mask: "n \<le> LENGTH('a) \<Longrightarrow> unat (mask n :: 'a::len word) = 2 ^ n - 1"
  unfolding unat_eq_nat_uint uint_mask_eq
  by (simp add: mask_eq_exp_minus_1 nat_diff_distrib nat_power_eq min_def)

lemma word_eq_unat: "a = b \<longleftrightarrow> unat a = unat (b :: 'a::len word)"
  by (simp add: word_unat_eq_iff)

lemma word_neq_0_unat: "a \<noteq> 0 \<longleftrightarrow> unat (a :: 'a::len word) \<noteq> 0"
  by (simp add: unat_eq_0)

lemma unat_word_of_int:
  "0 \<le> e \<Longrightarrow> e < 2 ^ LENGTH('a) \<Longrightarrow> unat (word_of_int e :: 'a::len word) = nat e"
  by (simp add: unsigned_of_int take_bit_int_eq_self flip: unsigned_of_nat)

lemma unat_word_of_int_neg:
  assumes "- (2 ^ LENGTH('a)) \<le> e" and "e < 0"
  shows "unat (word_of_int e :: 'a::len word) = nat (e + 2 ^ LENGTH('a))"
proof -
  have "(word_of_int e :: 'a word) = word_of_int (e + 2 ^ LENGTH('a))"
    by (rule word_of_int_eq_iff [THEN iffD2]) (simp add: take_bit_eq_mod)
  then show ?thesis using assms by (simp only: unat_word_of_int)
qed

lemma xor_eq_0_iff: "a XOR b = 0 \<longleftrightarrow> a = (b :: 'a::len word)"
  by (metis xor.assoc xor.left_neutral xor_self_eq)

text \<open>A bitwise or of numbers whose bits do not overlap is their sum.\<close>

lemma or_disjoint_nat:
  fixes a b :: nat
  assumes "b < 2 ^ n"
  shows "a * 2 ^ n OR b = a * 2 ^ n + b"
proof -
  have "(a * 2 ^ n) AND b = 0"
  proof (rule bit_eqI)
    fix i
    have "\<not> bit b i" if "n \<le> i"
      using assms that by (metis bit_take_bit_iff leD take_bit_nat_eq_self)
    then show "bit ((a * 2 ^ n) AND b) i = bit (0::nat) i"
      by (auto simp: bit_and_iff bit_push_bit_iff simp flip: push_bit_eq_mult)
  qed
  then show ?thesis by (rule disjunctive_add_eq_or [symmetric])
qed

lemma or_of_bool_nat: "(a::nat) OR of_bool P = (if P \<and> even a then a + 1 else a)"
  by (cases P) (simp_all add: or_one_eq flip: One_nat_def)

lemma unat_or_of_bool:
  "unat (a OR of_bool P :: 'a::len word) = (if P \<and> even (unat a) then unat a + 1 else unat a)"
  by (simp add: unat_or or_of_bool_nat)

text \<open>Clearing the last bit under a condition.\<close>

lemma unat_and_not_of_bool:
  "unat (a AND NOT (of_bool P) :: 'a::len word) =
     (if P \<and> odd (unat a) then unat a - 1 else unat a)"
proof (cases P)
  case True
  have "(a AND NOT 1) + (a AND 1) = (a AND NOT 1) OR (a AND 1)"
    by (rule disjunctive_add_eq_or) (rule bit_word_eqI, auto simp: bit_simps)
  also have "\<dots> = a" by (rule bit_word_eqI) (auto simp: bit_simps)
  finally have "a AND NOT 1 = a - (a AND 1)" by (simp add: algebra_simps)
  moreover have "unat (a AND 1) = unat a AND 1" by (simp only: unat_and unsigned_1)
  then have "unat (a AND 1) = unat a mod 2" by (simp only: and_one_eq)
  moreover have "unat a mod 2 \<le> unat a" by simp
  ultimately have "unat (a AND NOT 1) = unat a - unat a mod 2" by (simp add: unat_sub_le)
  with True show ?thesis by (auto simp: odd_iff_mod_2_eq_one)
qed simp

text \<open>Masking a field out of a word.\<close>

lemma unat_and_field:
  fixes a :: "'a::len word"
  assumes "k + n \<le> LENGTH('a)"
  shows "unat (a AND push_bit k (mask n)) = unat a div 2 ^ k mod 2 ^ n * 2 ^ k"
proof -
  have eq: "a AND push_bit k (mask n) = push_bit k (drop_bit k a AND mask n)"
    by (rule bit_word_eqI) (auto simp: bit_simps)
  have "unat a div 2 ^ k mod 2 ^ n * 2 ^ k < 2 ^ n * 2 ^ k" by simp
  also have "(2::nat) ^ n * 2 ^ k \<le> 2 ^ LENGTH('a)"
    unfolding power_add [symmetric] using assms by (intro power_increasing) auto
  finally show ?thesis
    unfolding eq unat_push_bit unat_and_mask unat_drop_bit by (rule mod_less)
qed

text \<open>The carry out of an addition, read off the wrapped sum.\<close>

lemma unat_carry:
  fixes x y :: "'a::len word"
  shows "unat x + unat y = unat (x + y) + of_bool (x + y < x) * 2 ^ LENGTH('a)"
    and "unat x + unat y = unat (x + y) + of_bool (x + y < y) * 2 ^ LENGTH('a)"
proof -
  have lt: "unat x < 2 ^ LENGTH('a)" "unat y < 2 ^ LENGTH('a)" by (rule unat_lt_2p)+
  have sum: "unat (x + y) = (unat x + unat y) mod 2 ^ LENGTH('a)" by (simp only: unat_word_ariths)
  have "unat (x + y) = unat x + unat y \<and> \<not> x + y < x \<and> \<not> x + y < y \<or>
      unat (x + y) + 2 ^ LENGTH('a) = unat x + unat y \<and> x + y < x \<and> x + y < y"
  proof (cases "2 ^ LENGTH('a) \<le> unat x + unat y")
    case True
    then have "(unat x + unat y) mod 2 ^ LENGTH('a) = unat x + unat y - 2 ^ LENGTH('a)"
      using lt by (simp only: le_mod_geq) (intro mod_less, linarith)
    then show ?thesis using True lt unfolding word_less_nat_alt sum by linarith
  next
    case False
    then show ?thesis unfolding word_less_nat_alt sum by simp
  qed
  then show "unat x + unat y = unat (x + y) + of_bool (x + y < x) * 2 ^ LENGTH('a)"
    and "unat x + unat y = unat (x + y) + of_bool (x + y < y) * 2 ^ LENGTH('a)" by auto
qed

section \<open>Negated shift distances\<close>

text \<open>
  The C expression \<^verbatim>\<open>-dist & 63\<close> (or \<^verbatim>\<open>& 31\<close>) is the complementary shift distance.
\<close>

lemma unat_uminus: "unat (- w :: 'a::len word) = (if w = 0 then 0 else 2 ^ LENGTH('a) - unat w)"
proof (cases "w = 0")
  case False
  have "(unat w + unat (- w)) mod 2 ^ LENGTH('a) = unat (w + - w)"
    by (simp only: unat_word_ariths)
  then have "2 ^ LENGTH('a) dvd unat w + unat (- w)" by (simp add: dvd_eq_mod_eq_0)
  then obtain k where k: "unat w + unat (- w) = 2 ^ LENGTH('a) * k" ..
  have "0 < unat w" using False by (simp add: unat_gt_0)
  then have "0 < k" using k by (cases k) auto
  moreover have "2 ^ LENGTH('a) * k < 2 ^ LENGTH('a) * 2"
    using k unat_lt_2p [of w] unat_lt_2p [of "- w"] by linarith
  then have "k < 2" by simp
  ultimately have "k = 1" by simp
  with k False show ?thesis by simp
qed simp

lemma unat_neg_and_mask:
  assumes "k \<le> LENGTH('a)" and "0 < unat w" and "unat w < 2 ^ k"
  shows "unat (- w AND mask k :: 'a::len word) = 2 ^ k - unat w"
proof -
  have "w \<noteq> 0" using assms(2) by auto
  then have "unat (- w) = 2 ^ LENGTH('a) - unat w" by (simp add: unat_uminus)
  also have "\<dots> = (2 ^ LENGTH('a) - 2 ^ k) + (2 ^ k - unat w)"
    using assms by (simp add: power_increasing)
  finally have eq: "unat (- w) = (2 ^ LENGTH('a) - 2 ^ k) + (2 ^ k - unat w)" .
  have "(2::nat) ^ LENGTH('a) - 2 ^ k = 2 ^ k * (2 ^ (LENGTH('a) - k) - 1)"
    using assms(1) by (simp add: diff_mult_distrib2 flip: power_add)
  then have "unat (- w) mod 2 ^ k = (2 ^ k - unat w) mod 2 ^ k"
    by (simp add: eq)
  also have "\<dots> = 2 ^ k - unat w" using assms by simp
  finally show ?thesis by (simp only: unat_and_mask)
qed

lemma nat_neg_and_mask:
  assumes "0 < k" "k < 2 ^ m"
  shows "nat (- int k AND mask m) = 2 ^ m - k"
proof -
  have k: "int k < 2 ^ m" using assms(2) by (simp flip: of_nat_less_iff)
  have "- int k AND mask m = - int k mod 2 ^ m" by (simp only: take_bit_eq_mask [symmetric] take_bit_eq_mod)
  also have "\<dots> = (2 ^ m - int k) mod 2 ^ m" using mod_add_self1 [of "2 ^ m" "- int k"] by simp
  also have "\<dots> = 2 ^ m - int k" using assms(1) k by (intro mod_pos_pos_trivial) auto
  finally show ?thesis using assms(2) by (simp add: nat_diff_distrib nat_power_eq)
qed

lemma complement_dist:
  "k \<in> {1..31} \<Longrightarrow> nat (- int k AND 31) = 32 - k"
  "k \<in> {1..63} \<Longrightarrow> nat (- int k AND 63) = 64 - k"
  using nat_neg_and_mask [of k 5] nat_neg_and_mask [of k 6] by (simp_all add: mask_eq_exp_minus_1)

lemma ucast_push_bit: "(ucast (push_bit n (w :: 'a::len word)) :: 'b::len word) = push_bit n (ucast w)"
  if "LENGTH('b) \<le> LENGTH('a)"
  using that by (intro bit_word_eqI) (auto simp: bit_simps)

end
