(* ===== verification/SF_Primitives.thy ===== *)
theory SF_Primitives
  imports C_Prelude
begin

text \<open>
  The integer primitives of the SoftFloat library (\<^verbatim>\<open>softfloat/primitives.h\<close> and the
  \<^verbatim>\<open>softfloat/s_*.c\<close> files it declares): right shifts that jam the lost bits into the last one,
  and leading-zero counts by table.  Each primitive is refined to a function on natural numbers.
\<close>

section \<open>Shifts with jamming\<close>

text \<open>
  The specification: \<open>jam d n\<close> is \<open>n\<close> divided by \<open>2 ^ d\<close>, with the last bit of the
  quotient set when the division is not exact.
\<close>

definition jam :: "nat \<Rightarrow> nat \<Rightarrow> nat" where
  "jam d n = (if 2 ^ d dvd n then n div 2 ^ d
              else if even (n div 2 ^ d) then n div 2 ^ d + 1 else n div 2 ^ d)"

definition softfloat_shortShiftRightJam64 :: "uint64_t \<Rightarrow> uint_fast8_t \<Rightarrow> uint64_t" where
  "softfloat_shortShiftRightJam64 a dst =
     drop_bit (unat dst) a
       OR of_bool (a AND (push_bit (unat dst) (1 :: uint_fast64_t) - 1) \<noteq> 0)"

definition softfloat_shiftRightJam32 :: "uint32_t \<Rightarrow> uint_fast16_t \<Rightarrow> uint32_t" where
  "softfloat_shiftRightJam32 a dst =
     (if dst < 31
      then drop_bit (unat dst) a OR of_bool (push_bit (unat (- dst AND 31)) a \<noteq> 0)
      else of_bool (a \<noteq> 0))"

definition softfloat_shiftRightJam64 :: "uint64_t \<Rightarrow> uint_fast32_t \<Rightarrow> uint64_t" where
  "softfloat_shiftRightJam64 a dst =
     (if dst < 63
      then drop_bit (unat dst) a OR of_bool (push_bit (unat (- dst AND 63)) a \<noteq> 0)
      else of_bool (a \<noteq> 0))"

section \<open>Counting leading zeros\<close>

definition softfloat_countLeadingZeros8 :: "nat list" where
  "softfloat_countLeadingZeros8 =
    [8, 7, 6, 6, 5, 5, 5, 5, 4, 4, 4, 4, 4, 4, 4, 4,
     3, 3, 3, 3, 3, 3, 3, 3, 3, 3, 3, 3, 3, 3, 3, 3,
     2, 2, 2, 2, 2, 2, 2, 2, 2, 2, 2, 2, 2, 2, 2, 2,
     2, 2, 2, 2, 2, 2, 2, 2, 2, 2, 2, 2, 2, 2, 2, 2,
     1, 1, 1, 1, 1, 1, 1, 1, 1, 1, 1, 1, 1, 1, 1, 1,
     1, 1, 1, 1, 1, 1, 1, 1, 1, 1, 1, 1, 1, 1, 1, 1,
     1, 1, 1, 1, 1, 1, 1, 1, 1, 1, 1, 1, 1, 1, 1, 1,
     1, 1, 1, 1, 1, 1, 1, 1, 1, 1, 1, 1, 1, 1, 1, 1,
     0, 0, 0, 0, 0, 0, 0, 0, 0, 0, 0, 0, 0, 0, 0, 0,
     0, 0, 0, 0, 0, 0, 0, 0, 0, 0, 0, 0, 0, 0, 0, 0,
     0, 0, 0, 0, 0, 0, 0, 0, 0, 0, 0, 0, 0, 0, 0, 0,
     0, 0, 0, 0, 0, 0, 0, 0, 0, 0, 0, 0, 0, 0, 0, 0,
     0, 0, 0, 0, 0, 0, 0, 0, 0, 0, 0, 0, 0, 0, 0, 0,
     0, 0, 0, 0, 0, 0, 0, 0, 0, 0, 0, 0, 0, 0, 0, 0,
     0, 0, 0, 0, 0, 0, 0, 0, 0, 0, 0, 0, 0, 0, 0, 0,
     0, 0, 0, 0, 0, 0, 0, 0, 0, 0, 0, 0, 0, 0, 0, 0]"

text \<open>
  The counts are \<^verbatim>\<open>uint_fast8_t\<close> in C and never exceed 64; they are natural numbers here.
\<close>

definition softfloat_countLeadingZeros16 :: "uint16_t \<Rightarrow> nat" where
  "softfloat_countLeadingZeros16 a =
     (let count = 8;
          (count, a) = (if 0x100 \<le> a then (0, drop_bit 8 a) else (count, a))
      in count + softfloat_countLeadingZeros8 ! unat a)"

definition softfloat_countLeadingZeros32 :: "uint32_t \<Rightarrow> nat" where
  "softfloat_countLeadingZeros32 a =
     (let count = 0;
          (count, a) = (if a < 0x10000 then (16, push_bit 16 a) else (count, a));
          (count, a) = (if a < 0x1000000 then (count + 8, push_bit 8 a) else (count, a))
      in count + softfloat_countLeadingZeros8 ! unat (drop_bit 24 a))"

definition softfloat_countLeadingZeros64 :: "uint64_t \<Rightarrow> nat" where
  "softfloat_countLeadingZeros64 a =
     (let count = 0;
          a32 = ucast (drop_bit 32 a) :: uint32_t;
          (count, a32) = (if a32 = 0 then (32, ucast a) else (count, a32));
          (count, a32) = (if a32 < 0x10000 then (count + 16, push_bit 16 a32) else (count, a32));
          (count, a32) = (if a32 < 0x1000000 then (count + 8, push_bit 8 a32) else (count, a32))
      in count + softfloat_countLeadingZeros8 ! unat (drop_bit 24 a32))"

section \<open>The jamming shifts refine \<open>jam\<close>\<close>

lemma jam_0 [simp]: "jam 0 n = n"
  by (simp add: jam_def)

lemma jam_zero [simp]: "jam d 0 = 0"
  by (simp add: jam_def)

lemma jam_add_multiple: "jam d (2 * k * 2 ^ d + n) = 2 * k + jam d n"
  by (simp add: jam_def dvd_add_right_iff)

lemma jam_eq_or: "jam d n = n div 2 ^ d OR of_bool (n mod 2 ^ d \<noteq> 0)"
  by (auto simp: jam_def or_of_bool_nat dvd_eq_mod_eq_0)

lemma jam_le: "jam d n \<le> n div 2 ^ d + 1"
  by (simp add: jam_def)

lemma jam_ge: "n div 2 ^ d \<le> jam d n"
  by (simp add: jam_def)

lemma jam_less:
  assumes "n < 2 ^ k * 2 ^ d" and "0 < k"
  shows "jam d n < 2 ^ k"
proof -
  have *: "n div 2 ^ d < 2 ^ k" using assms(1) by (simp add: less_mult_imp_div_less)
  moreover have "n div 2 ^ d + 1 \<noteq> 2 ^ k" if "even (n div 2 ^ d)"
    using that assms(2) by (metis dvd_power even_plus_one_iff)
  ultimately show ?thesis by (auto simp: jam_def)
qed

lemma jam_eq_0_iff [simp]: "jam d n = 0 \<longleftrightarrow> n = 0"
proof -
  have "n div 2 ^ d \<noteq> 0" if "n \<noteq> 0" and "2 ^ d dvd n"
    using that by (auto simp: div_eq_0_iff dest: dvd_imp_le)
  then show ?thesis by (cases "n = 0") (auto simp: jam_def odd_pos)
qed

lemma jam_pos_iff [simp]: "0 < jam d n \<longleftrightarrow> 0 < n"
  using jam_eq_0_iff [of d n] by linarith

lemma jam_small:
  assumes "n < 2 * 2 ^ d"
  shows "jam d n = of_bool (n \<noteq> 0)"
proof (cases "n = 0")
  case False
  then have "0 < jam d n" by simp
  moreover have "jam d n < 2" using jam_less [of n 1 d] assms by simp
  ultimately have "jam d n = 1" by linarith
  with False show ?thesis by simp
qed simp

lemma mask_31: "(31 :: 'a::len word) = mask 5"
  by (simp add: mask_eq_exp_minus_1)

lemma mask_63: "(63 :: 'a::len word) = mask 6"
  by (simp add: mask_eq_exp_minus_1)

text \<open>A left shift by the complementary distance keeps exactly the bits a right shift loses.\<close>

lemma push_bit_complement_eq_0:
  fixes a :: "'a::len word"
  assumes "d \<le> LENGTH('a)"
  shows "push_bit (LENGTH('a) - d) a = 0 \<longleftrightarrow> unat a mod 2 ^ d = 0"
proof -
  have L: "(2::nat) ^ LENGTH('a) = 2 ^ d * 2 ^ (LENGTH('a) - d)"
    using assms by (simp flip: power_add)
  have "push_bit (LENGTH('a) - d) a = 0 \<longleftrightarrow> unat a * 2 ^ (LENGTH('a) - d) mod 2 ^ LENGTH('a) = 0"
    by (simp only: word_eq_unat unat_push_bit unat_0)
  also have "\<dots> \<longleftrightarrow> unat a mod 2 ^ d = 0"
    by (simp add: L mod_mult_mult2)
  finally show ?thesis .
qed

lemma shiftRightJam_refines:
  fixes a :: "'a::len word"
  assumes "d \<le> LENGTH('a)"
  shows "unat (drop_bit d a OR of_bool (push_bit (LENGTH('a) - d) a \<noteq> 0)) = jam d (unat a)"
  unfolding push_bit_complement_eq_0 [OF assms]
  by (simp add: unat_or unat_drop_bit jam_eq_or)

lemma unat_shortShiftRightJam64:
  assumes "unat dst < 64"
  shows "unat (softfloat_shortShiftRightJam64 a dst) = jam (unat dst) (unat a)"
proof -
  have "push_bit (unat dst) (1 :: uint_fast64_t) - 1 = mask (unat dst)"
    by (simp add: mask_eq_exp_minus_1 push_bit_eq_mult)
  then have "a AND (push_bit (unat dst) (1 :: uint_fast64_t) - 1) = 0
      \<longleftrightarrow> unat a mod 2 ^ unat dst = 0"
    by (metis unat_and_mask unat_eq_0)
  then show ?thesis
    by (simp add: softfloat_shortShiftRightJam64_def unat_or unat_drop_bit jam_eq_or)
qed

lemma unat_shiftRightJam32:
  assumes "dst \<noteq> 0"
  shows "unat (softfloat_shiftRightJam32 a dst) = jam (unat dst) (unat a)"
proof (cases "unat dst < 31")
  case True
  have "unat (- dst AND 31) = 32 - unat dst"
    unfolding mask_31 using unat_neg_and_mask [of 5 dst] True assms by (simp add: unat_gt_0)
  with True show ?thesis
    using shiftRightJam_refines [of "unat dst" a]
    by (simp add: softfloat_shiftRightJam32_def word_less_nat_alt)
next
  case False
  then have "(2::nat) ^ 31 \<le> 2 ^ unat dst" by (intro power_increasing) auto
  then have "jam (unat dst) (unat a) = of_bool (unat a \<noteq> 0)"
    using unat_lt_2p [of a] by (intro jam_small) simp
  with False show ?thesis
    by (simp add: softfloat_shiftRightJam32_def word_less_nat_alt unat_eq_0)
qed

lemma unat_shiftRightJam64:
  assumes "dst \<noteq> 0"
  shows "unat (softfloat_shiftRightJam64 a dst) = jam (unat dst) (unat a)"
proof (cases "unat dst < 63")
  case True
  have "unat (- dst AND 63) = 64 - unat dst"
    unfolding mask_63 using unat_neg_and_mask [of 6 dst] True assms by (simp add: unat_gt_0)
  with True show ?thesis
    using shiftRightJam_refines [of "unat dst" a]
    by (simp add: softfloat_shiftRightJam64_def word_less_nat_alt)
next
  case False
  then have "(2::nat) ^ 63 \<le> 2 ^ unat dst" by (intro power_increasing) auto
  then have "jam (unat dst) (unat a) = of_bool (unat a \<noteq> 0)"
    using unat_lt_2p [of a] by (intro jam_small) simp
  with False show ?thesis
    by (simp add: softfloat_shiftRightJam64_def word_less_nat_alt unat_eq_0)
qed

section \<open>The leading-zero counts\<close>

text \<open>
  The specification: a nonzero \<open>w\<close>-bit number shifted left by its count has its most
  significant bit set and loses no bit; the count of zero is the width.
\<close>

definition is_clz :: "nat \<Rightarrow> nat \<Rightarrow> nat \<Rightarrow> bool" where
  "is_clz w n c \<longleftrightarrow>
     (if n = 0 then c = w else 2 ^ (w - 1) \<le> n * 2 ^ c \<and> n * 2 ^ c < 2 ^ w)"

lemma clz8_table:
  "list_all (\<lambda>i. let c = softfloat_countLeadingZeros8 ! i in
       0 < i \<longrightarrow> 128 \<le> i * 2 ^ c \<and> (i + 1) * 2 ^ c \<le> 256) [0..<256]"
  by code_simp

lemma clz8:
  assumes "0 < i" and "i < 256"
  shows "128 \<le> i * 2 ^ (softfloat_countLeadingZeros8 ! i)"
    and "(i + 1) * 2 ^ (softfloat_countLeadingZeros8 ! i) \<le> 256"
  using clz8_table assms by (auto simp: list_all_iff Let_def)

lemma clz8_0: "softfloat_countLeadingZeros8 ! 0 = 8"
  by (simp add: softfloat_countLeadingZeros8_def)

text \<open>One table look-up on the top byte finishes a count.\<close>

lemma clz_top_byte:
  assumes "n < 256 * 2 ^ k" and "2 ^ k \<le> n"
  defines "c \<equiv> softfloat_countLeadingZeros8 ! (n div 2 ^ k)"
  shows "128 * 2 ^ k \<le> n * 2 ^ c" and "n * 2 ^ c < 256 * 2 ^ k"
proof -
  define h where "h = n div 2 ^ k"
  have h: "0 < h" "h < 256"
    using assms(1,2) by (auto simp: h_def less_mult_imp_div_less div_greater_zero_iff)
  note t = clz8 [OF h, folded c_def [folded h_def]]
  have lo: "h * 2 ^ k \<le> n" and hi: "n < (h + 1) * 2 ^ k"
    by (simp_all add: h_def dividend_less_div_times)
  have "128 * 2 ^ k \<le> h * 2 ^ c * 2 ^ k" using t(1) by simp
  also have "\<dots> \<le> n * 2 ^ c" using lo by (metis mult.assoc mult.commute mult_le_mono1)
  finally show "128 * 2 ^ k \<le> n * 2 ^ c" .
  have "n * 2 ^ c < (h + 1) * 2 ^ k * 2 ^ c" using hi by simp
  also have "\<dots> = ((h + 1) * 2 ^ c) * 2 ^ k" by (simp only: ac_simps)
  also have "\<dots> \<le> 256 * 2 ^ k" using t(2) by (rule mult_le_mono1)
  finally show "n * 2 ^ c < 256 * 2 ^ k" .
qed

lemma is_clz_top_byte:
  assumes "n * 2 ^ d < 256 * 2 ^ k" and "2 ^ k \<le> n * 2 ^ d" and "w = k + 8"
  shows "is_clz w n (d + softfloat_countLeadingZeros8 ! (n * 2 ^ d div 2 ^ k))"
proof -
  have "n \<noteq> 0" using assms(2) by (cases n) auto
  moreover have "2 ^ (w - 1) = 128 * (2::nat) ^ k" and "2 ^ w = 256 * (2::nat) ^ k"
    using assms(3) by (simp_all add: power_add)
  ultimately show ?thesis
    using clz_top_byte [OF assms(1,2)]
    by (simp add: is_clz_def power_add mult.assoc)
qed

lemma countLeadingZeros16_correct: "is_clz 16 (unat a) (softfloat_countLeadingZeros16 a)"
proof (cases "unat a < 2 ^ 8")
  case True
  then have eq: "softfloat_countLeadingZeros16 a = 8 + softfloat_countLeadingZeros8 ! unat a"
    by (simp add: softfloat_countLeadingZeros16_def word_le_nat_alt)
  show ?thesis
  proof (cases "unat a = 0")
    case True
    then show ?thesis using eq by (simp add: is_clz_def clz8_0)
  next
    case False
    with True show ?thesis
      using is_clz_top_byte [of "unat a" 8 8 16] by (simp add: eq)
  qed
next
  case False
  then have "softfloat_countLeadingZeros16 a = softfloat_countLeadingZeros8 ! (unat a div 2 ^ 8)"
    by (simp add: softfloat_countLeadingZeros16_def word_le_nat_alt unat_drop_bit)
  then show ?thesis
    using is_clz_top_byte [of "unat a" 0 8 16] False unat_lt_2p [of a] by simp
qed

lemma countLeadingZeros32_shift:
  assumes "d = (if unat a < 2 ^ 8 then 24 else if unat a < 2 ^ 16 then 16
                else if unat a < 2 ^ 24 then 8 else 0)"
  shows "softfloat_countLeadingZeros32 a
      = d + softfloat_countLeadingZeros8 ! (unat a * 2 ^ d div 2 ^ 24)"
  using assms unat_lt_2p [of a]
  by (auto simp: softfloat_countLeadingZeros32_def word_less_nat_alt unat_push_bit unat_drop_bit
      split: if_splits)

lemma countLeadingZeros32_correct: "is_clz 32 (unat a) (softfloat_countLeadingZeros32 a)"
proof (cases "a = 0")
  case True
  then show ?thesis
    by (simp add: is_clz_def softfloat_countLeadingZeros32_def clz8_0)
next
  case False
  then have pos: "0 < unat a" by (simp add: unat_gt_0)
  define d :: nat where "d = (if unat a < 2 ^ 8 then 24 else if unat a < 2 ^ 16 then 16
                else if unat a < 2 ^ 24 then 8 else 0)"
  have "unat a * 2 ^ d < 256 * 2 ^ 24" and "2 ^ 24 \<le> unat a * 2 ^ d"
    using unat_lt_2p [of a] pos by (simp_all add: d_def)
  then show ?thesis
    by (simp only: countLeadingZeros32_shift [OF d_def] is_clz_top_byte)
qed

lemma countLeadingZeros64_split:
  "softfloat_countLeadingZeros64 a =
     (if unat a < 2 ^ 32 then 32 + softfloat_countLeadingZeros32 (ucast a)
      else softfloat_countLeadingZeros32 (ucast (drop_bit 32 a)))"
proof -
  have hi: "unat (ucast (drop_bit 32 a) :: uint32_t) = unat a div 2 ^ 32"
    using unat_lt_2p [of a] by (simp add: unat_ucast unat_drop_bit less_mult_imp_div_less)
  have "(ucast (drop_bit 32 a) :: uint32_t) = 0 \<longleftrightarrow> unat a < 2 ^ 32"
    by (simp add: word_eq_unat hi div_eq_0_iff del: unat_eq_0)
  then show ?thesis
    by (simp add: softfloat_countLeadingZeros64_def softfloat_countLeadingZeros32_def Let_def)
qed

lemma is_clz_shift: "is_clz w n c \<Longrightarrow> 0 < w \<Longrightarrow> is_clz (w + k) n (k + c)"
  by (cases w) (auto simp: is_clz_def power_add ac_simps)

lemma is_clz_high:
  assumes "is_clz w (n div 2 ^ k) c" and "0 < n div 2 ^ k" and "0 < w"
  shows "is_clz (w + k) n c"
proof -
  define h where "h = n div 2 ^ k"
  have h: "2 ^ (w - 1) \<le> h * 2 ^ c" "h * 2 ^ c < 2 ^ w" "0 < h"
    using assms by (simp_all add: is_clz_def h_def)
  have lo: "h * 2 ^ k \<le> n" and hi: "n < (h + 1) * 2 ^ k"
    by (simp_all add: h_def dividend_less_div_times)
  have "1 * 2 ^ c \<le> h * 2 ^ c" using h(3) by (intro mult_le_mono1) simp
  then have "2 ^ c < (2::nat) ^ w" using h(2) by linarith
  then have cw: "c \<le> w" by simp
  then have "h * 2 ^ c < 2 ^ (w - c) * 2 ^ c" using h(2) by (simp flip: power_add)
  then have "(h + 1) * 2 ^ c \<le> 2 ^ (w - c) * 2 ^ c" by (intro mult_le_mono1) simp
  then have top: "(h + 1) * 2 ^ c \<le> 2 ^ w" using cw by (simp flip: power_add)
  have "n * 2 ^ c < (h + 1) * 2 ^ k * 2 ^ c" using hi by simp
  also have "\<dots> = ((h + 1) * 2 ^ c) * 2 ^ k" by (simp only: ac_simps)
  also have "\<dots> \<le> 2 ^ (w + k)" using top unfolding power_add by (rule mult_le_mono1)
  finally have "n * 2 ^ c < 2 ^ (w + k)" .
  moreover have "2 ^ (w + k - 1) = 2 ^ (w - 1) * (2::nat) ^ k"
    using assms(3) by (simp flip: power_add)
  moreover have "2 ^ (w - 1) * 2 ^ k \<le> (h * 2 ^ c) * 2 ^ k" using h(1) by (rule mult_le_mono1)
  moreover have "h * 2 ^ c * 2 ^ k \<le> n * 2 ^ c"
    using lo by (metis mult.assoc mult.commute mult_le_mono1)
  ultimately have "2 ^ (w + k - 1) \<le> n * 2 ^ c" and "n * 2 ^ c < 2 ^ (w + k)" by linarith+
  moreover have "n \<noteq> 0" using assms(2) by (intro notI) simp
  ultimately show ?thesis by (simp add: is_clz_def)
qed

lemma countLeadingZeros64_correct: "is_clz 64 (unat a) (softfloat_countLeadingZeros64 a)"
proof (cases "unat a < 2 ^ 32")
  case True
  then have "unat (ucast a :: uint32_t) = unat a" by (simp add: unat_ucast)
  then have "is_clz 32 (unat a) (softfloat_countLeadingZeros32 (ucast a))"
    using countLeadingZeros32_correct [of "ucast a"] by simp
  from is_clz_shift [OF this, of 32] True show ?thesis by (simp add: countLeadingZeros64_split)
next
  case False
  have hi: "unat (ucast (drop_bit 32 a) :: uint32_t) = unat a div 2 ^ 32"
    using unat_lt_2p [of a] by (simp add: unat_ucast unat_drop_bit less_mult_imp_div_less)
  then have "is_clz 32 (unat a div 2 ^ 32) (softfloat_countLeadingZeros32 (ucast (drop_bit 32 a)))"
    using countLeadingZeros32_correct [of "ucast (drop_bit 32 a)"] by (simp only: hi)
  moreover have "0 < unat a div 2 ^ 32" using False by (simp add: div_greater_zero_iff)
  ultimately show ?thesis
    using is_clz_high [of 32 "unat a" 32] False by (simp add: countLeadingZeros64_split)
qed

section \<open>Properties\<close>

text \<open>
  A right shift with jamming is the floor of the quotient by the power of two, with its last
  bit set when the division is not exact; at any distance from 1 up, also beyond the word's width.
\<close>

lemma shift_right_jam:
  assumes "dst \<noteq> 0"
  shows "unat (softfloat_shiftRightJam32 a dst) = unat a div 2 ^ unat dst OR of_bool (\<not> 2 ^ unat dst dvd unat a) \<and>
    unat (softfloat_shiftRightJam64 b dst) = unat b div 2 ^ unat dst OR of_bool (\<not> 2 ^ unat dst dvd unat b)"
  using assms by (simp add: unat_shiftRightJam32 unat_shiftRightJam64 jam_eq_or dvd_eq_mod_eq_0)

text \<open>
  The table-driven leading-zero counts: shifting the argument left by the count puts its highest
  set bit at the top of the word, and the count of zero is the width.
\<close>

lemma count_leading_zeros:
  "is_clz 16 (unat a) (softfloat_countLeadingZeros16 a) \<and>
   is_clz 32 (unat b) (softfloat_countLeadingZeros32 b) \<and>
   is_clz 64 (unat c) (softfloat_countLeadingZeros64 c)"
  by (simp add: countLeadingZeros16_correct countLeadingZeros32_correct countLeadingZeros64_correct)

end
