(* ===== verification/IEEE_Round.thy ===== *)
theory IEEE_Round
  imports C_Prelude
begin

text \<open>
  The abstract specification of IEEE-754 rounding that the SoftFloat routines are measured
  against: rounding a real to an integer in each of the six modes the library knows, the value of a
  bit pattern, and rounding a real to a pattern of a binary interchange format given by its fraction
  width \<open>fb\<close> and its exponent width \<open>eb\<close>.  Nothing here mentions the code; the locale
  \<open>float_format\<close> holds the theory of one format.
\<close>

section \<open>Rounding to an integer\<close>

datatype rmode = NearEven | NearMaxMag | TowardZero | Down | Up | ToOdd

text \<open>\<open>rnd_int m neg x\<close> rounds the magnitude \<open>x\<close> of a number whose sign is \<open>neg\<close>.\<close>

definition rnd_int :: "rmode \<Rightarrow> bool \<Rightarrow> real \<Rightarrow> int" where
  "rnd_int m neg x =
     (let f = \<lfloor>x\<rfloor>; d = x - of_int f in
      if d = 0 then f
      else case m of
        NearEven \<Rightarrow> if d < 1/2 then f else if 1/2 < d then f + 1 else if even f then f else f + 1
      | NearMaxMag \<Rightarrow> if d < 1/2 then f else f + 1
      | TowardZero \<Rightarrow> f
      | Down \<Rightarrow> if neg then f + 1 else f
      | Up \<Rightarrow> if neg then f else f + 1
      | ToOdd \<Rightarrow> if even f then f + 1 else f)"

lemma rnd_int_of_int [simp]: "rnd_int m neg (of_int k) = k"
  by (simp add: rnd_int_def)

lemma rnd_int_of_nat [simp]: "rnd_int m neg (of_nat k) = int k"
  using rnd_int_of_int [of m neg "int k"] by simp

lemma rnd_int_bounds: "\<lfloor>x\<rfloor> \<le> rnd_int m neg x \<and> rnd_int m neg x \<le> \<lceil>x\<rceil>"
proof (cases "x = of_int \<lfloor>x\<rfloor>")
  case True
  then show ?thesis by (metis ceiling_of_int floor_of_int order_refl rnd_int_of_int)
next
  case False
  then have "\<lceil>x\<rceil> = \<lfloor>x\<rfloor> + 1" by (simp add: ceiling_altdef)
  then show ?thesis by (cases m) (auto simp: rnd_int_def Let_def)
qed

lemma rnd_int_nearest:
  assumes "m = NearEven \<or> m = NearMaxMag"
  shows "\<bar>x - of_int (rnd_int m neg x)\<bar> \<le> 1 / 2"
  using assms by (auto simp: rnd_int_def Let_def abs_le_iff; linarith)

lemma rnd_int_ge: "of_int k \<le> x \<Longrightarrow> k \<le> rnd_int m neg x"
  using rnd_int_bounds [of x m neg] by (meson le_floor_iff order_trans)

lemma rnd_int_le: "x \<le> of_int k \<Longrightarrow> rnd_int m neg x \<le> k"
  using rnd_int_bounds [of x m neg] by (meson ceiling_le_iff order_trans)

section \<open>Numbers that round alike\<close>

text \<open>
  Two numbers are in the same cell when they are equal or lie strictly between the same two
  consecutive integers.  Measured in half units in the last place, numbers in one cell round alike
  in every mode; this is what a sticky bit preserves.
\<close>

definition same_cell :: "real \<Rightarrow> real \<Rightarrow> bool" where
  "same_cell x y \<longleftrightarrow> x = y \<or> (\<lfloor>x\<rfloor> = \<lfloor>y\<rfloor> \<and> x \<notin> \<int> \<and> y \<notin> \<int>)"

lemma same_cell_refl [simp]: "same_cell x x"
  by (simp add: same_cell_def)

lemma same_cell_sym: "same_cell x y \<Longrightarrow> same_cell y x"
  by (auto simp: same_cell_def)

lemma same_cell_trans [trans]: "same_cell x y \<Longrightarrow> same_cell y z \<Longrightarrow> same_cell x z"
  by (auto simp: same_cell_def)

lemma same_cellI:
  assumes "of_int j < x" "x < of_int j + 1" "of_int j < y" "y < of_int j + 1"
  shows "same_cell x y"
proof -
  have "\<lfloor>x\<rfloor> = j" "\<lfloor>y\<rfloor> = j" using assms by (simp_all add: floor_eq_iff)
  moreover have "x \<notin> \<int>" "y \<notin> \<int>" using assms by (auto elim!: Ints_cases)
  ultimately show ?thesis by (simp add: same_cell_def)
qed

lemma same_cellE:
  assumes "same_cell x y"
  obtains "x = y"
  | j where "of_int j < x" "x < of_int j + 1" "of_int j < y" "y < of_int j + 1"
proof (cases "x = y")
  case False
  with assms have eq: "\<lfloor>x\<rfloor> = \<lfloor>y\<rfloor>" and ni: "x \<notin> \<int>" "y \<notin> \<int>" by (auto simp: same_cell_def)
  have "of_int \<lfloor>x\<rfloor> \<noteq> x" "of_int \<lfloor>y\<rfloor> \<noteq> y" using ni by (metis Ints_of_int)+
  then show ?thesis
    using that(2) [of "\<lfloor>x\<rfloor>"] eq by (metis floor_less_iff less_floor_iff
        linorder_not_le of_int_floor_le order_le_less real_of_int_floor_add_one_gt)
qed (rule that)

lemma same_cell_le: "same_cell x y \<Longrightarrow> of_int k \<le> x \<longleftrightarrow> of_int k \<le> y"
  by (auto simp: same_cell_def simp flip: le_floor_iff)

lemma same_cell_less: "same_cell x y \<Longrightarrow> x < of_int k \<longleftrightarrow> y < of_int k"
  by (auto simp: same_cell_def simp flip: floor_less_iff)

lemma same_cell_Ints: "same_cell x y \<Longrightarrow> x \<in> \<int> \<longleftrightarrow> y \<in> \<int>"
  by (auto simp: same_cell_def)

text \<open>Coarser cells: dividing by a positive integer keeps two numbers in one cell.\<close>

lemma same_cell_divide:
  assumes "same_cell x y" and "0 < n"
  shows "same_cell (x / real n) (y / real n)"
  using assms(1)
proof (cases rule: same_cellE)
  case (2 j)
  define q where "q = j div int n"
  have "q * int n = j - j mod int n" by (simp add: q_def minus_mod_eq_div_mult)
  moreover have "0 \<le> j mod int n" "j mod int n < int n" using assms(2) by simp_all
  ultimately have lo: "q * int n \<le> j" and hi: "j + 1 \<le> (q + 1) * int n"
    by (simp_all add: algebra_simps)
  have "real_of_int (q * int n) \<le> real_of_int j"
    and "real_of_int (j + 1) \<le> real_of_int ((q + 1) * int n)"
    using lo hi by (simp_all only: of_int_le_iff)
  then have "real_of_int q * real n \<le> of_int j"
    and "of_int j + 1 \<le> (real_of_int q + 1) * real n" by simp_all
  with 2 assms(2) show ?thesis
    by (intro same_cellI [of q]) (simp_all add: field_simps)
qed simp

lemma rnd_int_same_cell:
  assumes "same_cell (2 * x) (2 * y)"
  shows "rnd_int m neg x = rnd_int m neg y"
  using assms
proof (cases rule: same_cellE)
  case (2 j)
  define q where "q = j div 2"
  have j: "j = 2 * q \<or> j = 2 * q + 1" by (auto simp: q_def)
  then have "\<lfloor>x\<rfloor> = q" and "\<lfloor>y\<rfloor> = q" using 2 by (auto simp: floor_eq_iff)
  moreover have "x \<noteq> of_int q" "y \<noteq> of_int q" using 2 j by auto
  moreover have "x - of_int q \<noteq> 1/2" "y - of_int q \<noteq> 1/2" using 2 j by auto
  moreover have "x - of_int q < 1/2 \<longleftrightarrow> j = 2 * q" "y - of_int q < 1/2 \<longleftrightarrow> j = 2 * q"
    using 2 j by auto
  ultimately show ?thesis by (cases m) (auto simp: rnd_int_def Let_def)
qed simp

section \<open>Powers of two\<close>

abbreviation pw2 :: "int \<Rightarrow> real" where
  "pw2 k \<equiv> 2 powi k"

lemma pw2_pos [simp]: "0 < pw2 k"
  by (simp add: zero_less_power_int)

lemma pw2_not_neg [simp]: "\<not> pw2 k < 0"
  using pw2_pos [of k] by (simp add: not_less)

lemma pw2_add: "pw2 (i + j) = pw2 i * pw2 j"
  by (simp add: power_int_add)

lemma pw2_diff: "pw2 (i - j) = pw2 i / pw2 j"
  by (simp add: power_int_diff)

lemma pw2_nat [simp]: "pw2 (int n) = 2 ^ n"
  by simp

lemma pw2_mono: "i \<le> j \<Longrightarrow> pw2 i \<le> pw2 j"
  by (rule power_int_increasing) auto

lemma pw2_less_iff [simp]: "pw2 i < pw2 j \<longleftrightarrow> i < j"
proof
  assume "pw2 i < pw2 j"
  then show "i < j" by (metis linorder_not_le pw2_mono)
qed (rule power_int_strict_increasing, auto)

lemma pw2_le_iff [simp]: "pw2 i \<le> pw2 j \<longleftrightarrow> i \<le> j"
  by (metis linorder_not_le pw2_less_iff)

lemma powr_pw2: "2 powr real_of_int k = pw2 k"
  by (simp add: powr_real_of_int')

lemma powr_pw2_add_1: "2 powr (real_of_int k + 1) = pw2 (k + 1)"
  using powr_pw2 [of "k + 1"] by simp

lemma floor_log2_eqI:
  assumes "pw2 k \<le> x" and "x < pw2 (k + 1)"
  shows "\<lfloor>log 2 x\<rfloor> = k"
proof -
  have "0 < x" using assms(1) pw2_pos [of k] by linarith
  then show ?thesis
    using assms floor_log_eq_powr_iff [of x 2 k] by (simp only: powr_pw2)
qed

lemma floor_log2_bounds:
  assumes "0 < x"
  shows "pw2 \<lfloor>log 2 x\<rfloor> \<le> x" and "x < pw2 (\<lfloor>log 2 x\<rfloor> + 1)"
  using floor_log_eq_powr_iff [of x 2 "\<lfloor>log 2 x\<rfloor>"] assms
  by (simp_all only: powr_pw2 powr_pw2_add_1) simp_all

section \<open>Binary interchange formats\<close>

text \<open>
  A format has \<open>fb\<close> fraction bits and \<open>eb\<close> exponent bits.  \<open>fp_qmin\<close> is the exponent of
  the smallest positive value, \<open>fp_inf\<close> the magnitude pattern of infinity, \<open>fp_mag\<close> the value of
  a magnitude pattern (the bits below the sign).
\<close>

definition fp_qmin :: "nat \<Rightarrow> nat \<Rightarrow> int" where
  "fp_qmin fb eb = 2 - 2 ^ (eb - 1) - int fb"

definition fp_inf :: "nat \<Rightarrow> nat \<Rightarrow> nat" where
  "fp_inf fb eb = (2 ^ eb - 1) * 2 ^ fb"

definition fp_mag :: "nat \<Rightarrow> nat \<Rightarrow> nat \<Rightarrow> real" where
  "fp_mag fb eb u =
     (let E = u div 2 ^ fb; F = u mod 2 ^ fb in
      if E = 0 then real F * pw2 (fp_qmin fb eb)
      else (2 ^ fb + real F) * pw2 (fp_qmin fb eb + int E - 1))"

text \<open>
  Rounding: the quantum of \<open>x\<close> is the weight of the last fraction bit in its binade, never below
  that of the subnormals; the significand is rounded to an integer multiple of it.
  \<open>fp_round_unb\<close> is the pattern with the exponent range unbounded above, \<open>fp_round\<close> replaces an
  overflow by infinity or by the largest finite number, as the mode says.
\<close>

definition fp_quantum :: "nat \<Rightarrow> nat \<Rightarrow> real \<Rightarrow> int" where
  "fp_quantum fb eb x = max (fp_qmin fb eb) (\<lfloor>log 2 x\<rfloor> - int fb)"

definition fp_round_unb :: "nat \<Rightarrow> nat \<Rightarrow> rmode \<Rightarrow> bool \<Rightarrow> real \<Rightarrow> nat" where
  "fp_round_unb fb eb m neg x =
     (if x = 0 then 0
      else let k = fp_quantum fb eb x in
        nat ((k - fp_qmin fb eb) * 2 ^ fb + rnd_int m neg (x / pw2 k)))"

definition overflow_to_inf :: "rmode \<Rightarrow> bool \<Rightarrow> bool" where
  "overflow_to_inf m neg \<longleftrightarrow>
     m = NearEven \<or> m = NearMaxMag \<or> m = (if neg then Down else Up)"

definition fp_round :: "nat \<Rightarrow> nat \<Rightarrow> rmode \<Rightarrow> bool \<Rightarrow> real \<Rightarrow> nat" where
  "fp_round fb eb m neg x =
     (let u = fp_round_unb fb eb m neg x in
      if u < fp_inf fb eb then u
      else if overflow_to_inf m neg then fp_inf fb eb else fp_inf fb eb - 1)"

text \<open>
  The exceptions of a rounding.  A result is tiny when its magnitude is below the smallest normal
  number: before rounding, or after rounding with the exponent range unbounded.
\<close>

definition fp_inexact :: "nat \<Rightarrow> nat \<Rightarrow> real \<Rightarrow> bool" where
  "fp_inexact fb eb x \<longleftrightarrow> x / pw2 (fp_quantum fb eb x) \<notin> \<int>"

definition fp_tiny :: "nat \<Rightarrow> nat \<Rightarrow> bool \<Rightarrow> rmode \<Rightarrow> bool \<Rightarrow> real \<Rightarrow> bool" where
  "fp_tiny fb eb before m neg x \<longleftrightarrow>
     (let emin = fp_qmin fb eb + int fb; k = \<lfloor>log 2 x\<rfloor> - int fb in
      if before then x < pw2 emin
      else of_int (rnd_int m neg (x / pw2 k)) * pw2 k < pw2 emin)"

definition fp_overflow :: "nat \<Rightarrow> nat \<Rightarrow> rmode \<Rightarrow> bool \<Rightarrow> real \<Rightarrow> bool" where
  "fp_overflow fb eb m neg x \<longleftrightarrow> fp_inf fb eb \<le> fp_round_unb fb eb m neg x"

locale float_format =
  fixes fb eb :: nat
  assumes fb_pos: "0 < fb" and eb_ge: "2 \<le> eb"
begin

lemma quantum_eqI:
  assumes "fp_qmin fb eb \<le> k" and "2 ^ fb * pw2 k \<le> x" and "x < 2 ^ (fb + 1) * pw2 k"
  shows "fp_quantum fb eb x = k"
proof -
  have "\<lfloor>log 2 x\<rfloor> = k + int fb"
    using assms(2,3) by (intro floor_log2_eqI) (simp_all add: power_int_add algebra_simps)
  with assms(1) show ?thesis by (simp add: fp_quantum_def)
qed

lemma quantum_small:
  assumes "0 < x" and "x < 2 ^ (fb + 1) * pw2 (fp_qmin fb eb)"
  shows "fp_quantum fb eb x = fp_qmin fb eb"
proof -
  have "pw2 \<lfloor>log 2 x\<rfloor> < pw2 (fp_qmin fb eb + int fb + 1)"
    using floor_log2_bounds(1) [OF assms(1)] assms(2) by (simp add: power_int_add algebra_simps)
  then have "\<lfloor>log 2 x\<rfloor> - int fb \<le> fp_qmin fb eb" by simp
  then show ?thesis by (simp add: fp_quantum_def)
qed

lemma quantum_ge: "fp_qmin fb eb \<le> fp_quantum fb eb x"
  by (simp add: fp_quantum_def)

lemma scaled_less:
  assumes "0 < x"
  shows "x / pw2 (fp_quantum fb eb x) < 2 ^ (fb + 1)"
proof -
  have "x < pw2 (\<lfloor>log 2 x\<rfloor> + 1)" by (rule floor_log2_bounds(2) [OF assms])
  also have "\<dots> \<le> pw2 (fp_quantum fb eb x + int (fb + 1))"
    by (rule pw2_mono) (simp add: fp_quantum_def)
  finally show ?thesis by (simp only: pw2_add pw2_nat) (simp add: field_simps)
qed

lemma scaled_ge:
  assumes "0 < x" and "fp_qmin fb eb < fp_quantum fb eb x"
  shows "2 ^ fb \<le> x / pw2 (fp_quantum fb eb x)"
proof -
  have "fp_quantum fb eb x + int fb = \<lfloor>log 2 x\<rfloor>" using assms(2) by (auto simp: fp_quantum_def max_def split: if_splits)
  then have "pw2 (fp_quantum fb eb x + int fb) \<le> x" using floor_log2_bounds(1) [OF assms(1)] by simp
  then show ?thesis by (simp only: pw2_add pw2_nat) (simp add: field_simps)
qed

end

end
