(* ===== verification/SF_State.thy ===== *)
theory SF_State
  imports C_Prelude IEEE_Round
begin

text \<open>
  The global state of SoftFloat (\<^verbatim>\<open>softfloat/softfloat_state.c\<close>) and the enumerations of
  \<^verbatim>\<open>softfloat/softfloat.h\<close>.  The three thread-local variables are one record, passed explicitly;
  every operation of the library is a function from it to a result and the new state.
\<close>

section \<open>Rounding modes, tininess and exception flags\<close>

definition softfloat_tininess_beforeRounding :: uint_fast8_t where
  "softfloat_tininess_beforeRounding = 0"

definition softfloat_tininess_afterRounding :: uint_fast8_t where
  "softfloat_tininess_afterRounding = 1"

definition softfloat_round_near_even :: uint_fast8_t where
  "softfloat_round_near_even = 0"

definition softfloat_round_minMag :: uint_fast8_t where
  "softfloat_round_minMag = 1"

definition softfloat_round_min :: uint_fast8_t where
  "softfloat_round_min = 2"

definition softfloat_round_max :: uint_fast8_t where
  "softfloat_round_max = 3"

definition softfloat_round_near_maxMag :: uint_fast8_t where
  "softfloat_round_near_maxMag = 4"

definition softfloat_round_odd :: uint_fast8_t where
  "softfloat_round_odd = 5"

definition softfloat_flag_inexact :: uint_fast8_t where
  "softfloat_flag_inexact = 1"

definition softfloat_flag_underflow :: uint_fast8_t where
  "softfloat_flag_underflow = 2"

definition softfloat_flag_overflow :: uint_fast8_t where
  "softfloat_flag_overflow = 4"

definition softfloat_flag_infinite :: uint_fast8_t where
  "softfloat_flag_infinite = 8"

definition softfloat_flag_invalid :: uint_fast8_t where
  "softfloat_flag_invalid = 16"

lemmas rounding_mode_defs = softfloat_round_near_even_def softfloat_round_minMag_def
  softfloat_round_min_def softfloat_round_max_def softfloat_round_near_maxMag_def
  softfloat_round_odd_def

lemmas flag_defs = softfloat_flag_inexact_def softfloat_flag_underflow_def
  softfloat_flag_overflow_def softfloat_flag_infinite_def softfloat_flag_invalid_def

section \<open>The state\<close>

record sf_state =
  softfloat_roundingMode :: uint_fast8_t
  softfloat_detectTininess :: uint_fast8_t
  softfloat_exceptionFlags :: uint_fast8_t

definition softfloat_init :: sf_state where
  "softfloat_init =
     \<lparr>softfloat_roundingMode = softfloat_round_near_even,
      softfloat_detectTininess = softfloat_tininess_afterRounding,
      softfloat_exceptionFlags = 0\<rparr>"

definition softfloat_raiseFlags :: "uint_fast8_t \<Rightarrow> sf_state \<Rightarrow> sf_state" where
  "softfloat_raiseFlags flags st =
     st\<lparr>softfloat_exceptionFlags := softfloat_exceptionFlags st OR flags\<rparr>"

lemma raiseFlags_0 [simp]: "softfloat_raiseFlags 0 st = st"
  by (simp add: softfloat_raiseFlags_def)

lemma raiseFlags_raiseFlags [simp]:
  "softfloat_raiseFlags f (softfloat_raiseFlags f' st) = softfloat_raiseFlags (f' OR f) st"
  by (simp add: softfloat_raiseFlags_def or.assoc)

lemma raiseFlags_sel [simp]:
  "softfloat_roundingMode (softfloat_raiseFlags f st) = softfloat_roundingMode st"
  "softfloat_detectTininess (softfloat_raiseFlags f st) = softfloat_detectTininess st"
  "softfloat_exceptionFlags (softfloat_raiseFlags f st) = softfloat_exceptionFlags st OR f"
  by (simp_all add: softfloat_raiseFlags_def)

text \<open>
  The mode the specification uses for each value of \<^verbatim>\<open>softfloat_roundingMode\<close>; the code treats
  every value it does not name as truncation.
\<close>

definition rmode_of :: "uint_fast8_t \<Rightarrow> rmode" where
  "rmode_of r =
     (if r = softfloat_round_near_even then NearEven
      else if r = softfloat_round_near_maxMag then NearMaxMag
      else if r = softfloat_round_min then Down
      else if r = softfloat_round_max then Up
      else if r = softfloat_round_odd then ToOdd
      else TowardZero)"

abbreviation sf_mode :: "sf_state \<Rightarrow> rmode" where
  "sf_mode st \<equiv> rmode_of (softfloat_roundingMode st)"

abbreviation sf_before :: "sf_state \<Rightarrow> bool" where
  "sf_before st \<equiv> softfloat_detectTininess st = softfloat_tininess_beforeRounding"

lemma rmode_of_iff:
  "r = softfloat_round_near_even \<longleftrightarrow> rmode_of r = NearEven"
  "r = softfloat_round_near_maxMag \<longleftrightarrow> rmode_of r = NearMaxMag"
  "r = softfloat_round_min \<longleftrightarrow> rmode_of r = Down"
  "r = softfloat_round_max \<longleftrightarrow> rmode_of r = Up"
  "r = softfloat_round_odd \<longleftrightarrow> rmode_of r = ToOdd"
  by (auto simp: rmode_of_def rounding_mode_defs)

section \<open>The flags of a rounding\<close>

definition fp_flags :: "nat \<Rightarrow> nat \<Rightarrow> bool \<Rightarrow> rmode \<Rightarrow> bool \<Rightarrow> real \<Rightarrow> uint_fast8_t" where
  "fp_flags fb eb before m neg x =
     (if x = 0 then 0
      else if fp_overflow fb eb m neg x then softfloat_flag_overflow OR softfloat_flag_inexact
      else if fp_inexact fb eb x
      then (if fp_tiny fb eb before m neg x then softfloat_flag_underflow else 0)
             OR softfloat_flag_inexact
      else 0)"

end
