(* ===== verification/Round_Generic.thy ===== *)
theory Round_Generic
  imports SF_Primitives SF_State
begin

text \<open>
  The width-independent core of SoftFloat's rounding: adding a rounding increment and shifting,
  on natural numbers, computes \<open>rnd_int\<close>; jamming keeps a significand in the same rounding cell;
  and a round-and-pack routine over a format with \<open>g\<close> guard bits implements \<open>fp_round\<close> with the
  flags of the specification.  The locale \<open>round_pack\<close> is the contract that the three C routines
  \<^verbatim>\<open>softfloat_roundPackToF16/F32/F64\<close> satisfy and that the arithmetic operations rely on.
\<close>

section \<open>Rounding a significand with guard bits\<close>

definition rp_inc :: "nat \<Rightarrow> rmode \<Rightarrow> bool \<Rightarrow> nat" where
  "rp_inc g m neg =
     (if m = NearEven \<or> m = NearMaxMag then 2 ^ (g - 1)
      else if m = (if neg then Down else Up) then 2 ^ g - 1 else 0)"

definition rp_shift :: "nat \<Rightarrow> rmode \<Rightarrow> bool \<Rightarrow> nat \<Rightarrow> nat" where
  "rp_shift g m neg sig =
     (let r = sig mod 2 ^ g; s = (sig + rp_inc g m neg) div 2 ^ g in
      if r \<noteq> 0 \<and> m = ToOdd then (if even s then s + 1 else s)
      else if r = 2 ^ (g - 1) \<and> m = NearEven then (if odd s then s - 1 else s)
      else s)"

lemma rp_shift_parts:
  assumes "0 < g" and r: "r < 2 ^ g"
  shows "rp_shift g m neg (q * 2 ^ g + r) =
    (if r = 0 then q
     else case m of
       NearEven \<Rightarrow> if r < 2 ^ (g - 1) then q else if 2 ^ (g - 1) < r then q + 1
                    else if even q then q else q + 1
     | NearMaxMag \<Rightarrow> if r < 2 ^ (g - 1) then q else q + 1
     | TowardZero \<Rightarrow> q
     | Down \<Rightarrow> if neg then q + 1 else q
     | Up \<Rightarrow> if neg then q else q + 1
     | ToOdd \<Rightarrow> if even q then q + 1 else q)"
proof -
  define h :: nat where "h = 2 ^ (g - 1)"
  have G: "2 ^ g = 2 * h" and "0 < h" using assms by (cases g; simp add: h_def)+
  have one: "t div (2 * h) = 1" if "2 * h \<le> t" and "t < 4 * h" for t
    using that by (intro div_nat_eqI) auto
  show ?thesis
    using r \<open>0 < h\<close> unfolding rp_shift_def rp_inc_def G h_def [symmetric] Let_def
    by (cases m) (auto simp: add.assoc one)
qed

lemma rnd_int_parts:
  fixes q :: int and d :: real
  assumes "0 \<le> d" and "d < 1"
  shows "rnd_int m neg (of_int q + d) =
    (if d = 0 then q
     else case m of
       NearEven \<Rightarrow> if d < 1/2 then q else if 1/2 < d then q + 1 else if even q then q else q + 1
     | NearMaxMag \<Rightarrow> if d < 1/2 then q else q + 1
     | TowardZero \<Rightarrow> q
     | Down \<Rightarrow> if neg then q + 1 else q
     | Up \<Rightarrow> if neg then q else q + 1
     | ToOdd \<Rightarrow> if even q then q + 1 else q)"
proof -
  have "\<lfloor>of_int q + d\<rfloor> = q" using assms by (simp add: floor_eq_iff)
  then show ?thesis by (simp add: rnd_int_def Let_def)
qed

text \<open>Adding the increment, shifting and fixing the last bit is rounding to an integer.\<close>

lemma rp_shift_rnd_int:
  assumes "0 < g"
  shows "int (rp_shift g m neg sig) = rnd_int m neg (real sig / 2 ^ g)"
proof -
  define q r where "q = sig div 2 ^ g" and "r = sig mod 2 ^ g"
  have sig: "sig = q * 2 ^ g + r" by (simp only: q_def r_def div_mult_mod_eq)
  have r: "r < 2 ^ g" by (simp add: r_def)
  define d where "d = real r / 2 ^ g"
  have G: "(2::real) ^ g = 2 * 2 ^ (g - 1)" using assms by (cases g) auto
  have "real r < 2 ^ g" using r by (metis of_nat_less_iff of_nat_numeral of_nat_power)
  then have d: "0 \<le> d" "d < 1" by (simp_all add: d_def)
  have x: "real sig / 2 ^ g = of_int (int q) + d" by (simp add: sig d_def add_divide_distrib)
  have "d = 0 \<longleftrightarrow> r = 0" by (simp add: d_def)
  moreover have "d < 1/2 \<longleftrightarrow> r < 2 ^ (g - 1)"
  proof -
    have "d < 1/2 \<longleftrightarrow> real r < real (2 ^ (g - 1))" by (simp add: d_def G field_simps)
    then show ?thesis by (simp only: of_nat_less_iff)
  qed
  moreover have "1/2 < d \<longleftrightarrow> 2 ^ (g - 1) < r"
  proof -
    have "1/2 < d \<longleftrightarrow> real (2 ^ (g - 1)) < real r" by (simp add: d_def G field_simps)
    then show ?thesis by (simp only: of_nat_less_iff)
  qed
  ultimately show ?thesis
    unfolding x rnd_int_parts [OF d] rp_shift_parts [OF assms r, of m neg q, folded sig]
    by (cases m) auto
qed

lemma of_nat_Ints_divide: "real n / 2 ^ g \<in> \<int> \<longleftrightarrow> n mod 2 ^ g = 0"
proof
  assume "real n / 2 ^ g \<in> \<int>"
  then obtain k where "real n / 2 ^ g = of_int k" by (auto elim: Ints_cases)
  then have "real n = of_int (k * 2 ^ g)" by (simp add: field_simps)
  then have "int n = k * 2 ^ g" by linarith
  then have "int (2 ^ g) dvd int n" by simp
  then have "2 ^ g dvd n" by (simp only: int_dvd_int_iff)
  then show "n mod 2 ^ g = 0" by (simp only: dvd_eq_mod_eq_0)
next
  assume "n mod 2 ^ g = 0"
  then obtain k where "n = 2 ^ g * k" by (auto simp: dvd_eq_mod_eq_0 [symmetric] elim: dvdE)
  then show "real n / 2 ^ g \<in> \<int>" by simp
qed

text \<open>Jamming keeps a number in its cell of size two, hence in every coarser power-of-two cell.\<close>

lemma same_cell_jam: "same_cell (real n / 2 ^ d / 2) (real (jam d n) / 2)"
proof (cases "2 ^ d dvd n")
  case True
  then obtain k where "n = 2 ^ d * k" ..
  then show ?thesis by (simp add: jam_def)
next
  case False
  define q r where "q = n div 2 ^ d" and "r = n mod 2 ^ d"
  define t where "t = real r / 2 ^ d"
  have "n = q * 2 ^ d + r" by (simp only: q_def r_def div_mult_mod_eq)
  then have x: "real n / 2 ^ d = real q + t" by (simp add: t_def add_divide_distrib)
  have "r < 2 ^ d" by (simp add: r_def)
  then have "real r < 2 ^ d" by (metis of_nat_less_iff of_nat_numeral of_nat_power)
  moreover have "0 < r" using False by (auto simp: r_def dvd_eq_mod_eq_0)
  ultimately have b: "0 < t" "t < 1" by (simp_all add: t_def)
  have j: "jam d n = (if even q then q + 1 else q)" using False by (simp add: jam_def q_def)
  show ?thesis
  proof (cases "even q")
    case True
    then obtain k where "q = 2 * k" ..
    with b x j show ?thesis by (intro same_cellI [of "int k"]) auto
  next
    case False
    then obtain k where "q = 2 * k + 1" by (auto elim: oddE)
    with b x j show ?thesis by (intro same_cellI [of "int k"]) auto
  qed
qed

lemma same_cell_jam_coarse:
  assumes "0 < c"
  shows "same_cell (real n / 2 ^ d / 2 ^ c) (real (jam d n) / 2 ^ c)"
proof -
  have "(2::real) ^ c = 2 * real (2 ^ (c - 1))" using assms by (cases c) auto
  then show ?thesis
    using same_cell_divide [OF same_cell_jam, of "2 ^ (c - 1)" n d] by (simp add: field_simps)
qed

lemma rp_shift_ge_iff:
  assumes "0 < k"
  shows "2 ^ k \<le> rp_shift g m neg sig \<longleftrightarrow> 2 ^ (k + g) \<le> sig + rp_inc g m neg"
proof -
  define s where "s = (sig + rp_inc g m neg) div 2 ^ g"
  define K :: nat where "K = 2 ^ k"
  have "even K" using assms by (simp add: K_def)
  have s: "K \<le> s \<longleftrightarrow> 2 ^ (k + g) \<le> sig + rp_inc g m neg"
    by (simp add: K_def s_def less_eq_div_iff_mult_less_eq power_add)
  have "K \<le> s + 1 \<longleftrightarrow> K \<le> s" if "even s"
    using that \<open>even K\<close> by (metis Suc_eq_plus1 even_Suc le_Suc_eq)
  moreover have "K \<le> s - 1 \<longleftrightarrow> K \<le> s" if "odd s"
    using that \<open>even K\<close> by (metis One_nat_def Suc_pred diff_le_self dvd_def even_Suc le_Suc_eq
        odd_pos order_trans)
  ultimately show ?thesis
    unfolding s [symmetric] K_def [symmetric] rp_shift_def s_def [symmetric] Let_def by auto
qed

lemma rp_shift_bound:
  assumes "n < 2 ^ k * 2 ^ g" and "0 < g"
  shows "rp_shift g m neg n \<le> 2 ^ k"
proof -
  have "real n < real (2 ^ k * 2 ^ g)" using assms(1) by (simp only: of_nat_less_iff)
  then have "real n / 2 ^ g \<le> of_int (2 ^ k)" by (simp add: field_simps)
  then have "int (rp_shift g m neg n) \<le> int (2 ^ k)"
    using rnd_int_le [of "real n / 2 ^ g" "2 ^ k" m neg] rp_shift_rnd_int [OF assms(2)] by simp
  then show ?thesis by (simp only: of_nat_le_iff)
qed

section \<open>Round and pack\<close>

text \<open>
  The routine over natural numbers: the exponent \<open>e\<close> is one less than the biased exponent of the
  result, since the leading bit of the significand is added into the exponent field.
\<close>

definition gen_roundPack ::
  "nat \<Rightarrow> nat \<Rightarrow> nat \<Rightarrow> rmode \<Rightarrow> bool \<Rightarrow> bool \<Rightarrow> int \<Rightarrow> nat \<Rightarrow> nat \<times> uint_fast8_t" where
  "gen_roundPack fb eb g m before neg e sig =
     (if e < 0 then
        let tiny = before \<or> e < -1 \<or> sig + rp_inc g m neg < 2 ^ (fb + 1 + g);
            sig' = jam (nat (- e)) sig
        in (rp_shift g m neg sig',
            if sig' mod 2 ^ g = 0 then 0
            else (if tiny then softfloat_flag_underflow else 0) OR softfloat_flag_inexact)
      else if 2 ^ eb - 3 < e \<or> e = 2 ^ eb - 3 \<and> 2 ^ (fb + 1 + g) \<le> sig + rp_inc g m neg then
        (fp_inf fb eb - of_bool (rp_inc g m neg = 0),
         softfloat_flag_overflow OR softfloat_flag_inexact)
      else (nat e * 2 ^ fb + rp_shift g m neg sig,
            if sig mod 2 ^ g = 0 then 0 else softfloat_flag_inexact))"

lemma rp_inc_eq_0: "1 < g \<Longrightarrow> rp_inc g m neg = 0 \<longleftrightarrow> \<not> overflow_to_inf m neg"
  using one_less_power [of "2::nat" g] by (auto simp: rp_inc_def overflow_to_inf_def)

locale guarded_format = float_format +
  fixes g :: nat
  assumes g_ge: "2 \<le> g"
begin

lemma half_cell:
  assumes "same_cell (y / 2 ^ (g - 1)) (z / 2 ^ (g - 1))"
  shows "rnd_int m neg (y / 2 ^ g) = rnd_int m neg (z / 2 ^ g)"
    and "y / 2 ^ g \<in> \<int> \<longleftrightarrow> z / 2 ^ g \<in> \<int>"
    and "of_int k \<le> y / 2 ^ g \<longleftrightarrow> of_int k \<le> z / 2 ^ g"
    and "y / 2 ^ g < of_int k \<longleftrightarrow> z / 2 ^ g < of_int k"
proof -
  have G: "(2::real) ^ g = 2 ^ (g - 1) * 2" using g_ge by (cases g) auto
  have cell: "same_cell (2 * (y / 2 ^ g)) (2 * (z / 2 ^ g))" using assms by (simp add: G)
  then show "rnd_int m neg (y / 2 ^ g) = rnd_int m neg (z / 2 ^ g)" by (rule rnd_int_same_cell)
  have "same_cell (y / 2 ^ g) (z / 2 ^ g)"
    using same_cell_divide [OF cell, of 2] by simp
  then show "y / 2 ^ g \<in> \<int> \<longleftrightarrow> z / 2 ^ g \<in> \<int>"
    and "of_int k \<le> y / 2 ^ g \<longleftrightarrow> of_int k \<le> z / 2 ^ g"
    and "y / 2 ^ g < of_int k \<longleftrightarrow> z / 2 ^ g < of_int k"
    by (rule same_cell_Ints, rule same_cell_le, rule same_cell_less)
qed

lemma scaled_bounds:
  assumes "2 ^ (fb + g) \<le> sig" and "sig < 2 ^ (fb + g + 1)"
    and "same_cell (y / 2 ^ (g - 1)) (real sig / 2 ^ (g - 1))"
  shows "2 ^ fb \<le> y / 2 ^ g" and "y / 2 ^ g < 2 ^ (fb + 1)"
proof -
  have "real (2 ^ (fb + g)) \<le> real sig" and "real sig < real (2 ^ (fb + g + 1))"
    using assms(1,2) by (simp_all only: of_nat_le_iff of_nat_less_iff)
  then have "of_int (2 ^ fb) \<le> real sig / 2 ^ g" and "real sig / 2 ^ g < of_int (2 ^ (fb + 1))"
    by (simp_all add: field_simps power_add)
  then show "2 ^ fb \<le> y / 2 ^ g" and "y / 2 ^ g < 2 ^ (fb + 1)"
    using half_cell(3) [OF assms(3), of "2 ^ fb"] half_cell(4) [OF assms(3), of "2 ^ (fb + 1)"]
    by simp_all
qed

text \<open>The binade of the number that a normalised significand stands for.\<close>

lemma binade:
  assumes "2 ^ fb \<le> y / 2 ^ g" and "y / 2 ^ g < 2 ^ (fb + 1)"
    and x: "x = y * pw2 (e + fp_qmin fb eb - int g)"
  shows "0 < x" and "x / pw2 (e + fp_qmin fb eb) = y / 2 ^ g"
    and "\<lfloor>log 2 x\<rfloor> - int fb = e + fp_qmin fb eb"
proof -
  define q where "q = e + fp_qmin fb eb"
  have x': "x = y / 2 ^ g * pw2 q"
    by (simp add: x q_def pw2_diff)
  show "x / pw2 (e + fp_qmin fb eb) = y / 2 ^ g" by (simp add: x' q_def [symmetric])
  have "0 < y / 2 ^ g" using assms(1) by (rule less_le_trans [rotated]) simp
  then show "0 < x" unfolding x' by (rule mult_pos_pos) (rule pw2_pos)
  have "pw2 (q + int fb) = 2 ^ fb * pw2 q" and "pw2 (q + int fb + 1) = 2 ^ (fb + 1) * pw2 q"
    by (simp_all add: pw2_add)
  then have "pw2 (q + int fb) \<le> x" "x < pw2 (q + int fb + 1)"
    using assms(1,2) unfolding x' by (simp_all only: mult_le_cancel_right_pos
        mult_less_cancel_right_pos pw2_pos)
  then have "\<lfloor>log 2 x\<rfloor> = q + int fb" by (rule floor_log2_eqI)
  then show "\<lfloor>log 2 x\<rfloor> - int fb = e + fp_qmin fb eb" by (simp add: q_def)
qed

lemma tiny_iff:
  assumes norm: "2 ^ (fb + g) \<le> sig" "sig < 2 ^ (fb + g + 1)"
    and cell: "same_cell (y / 2 ^ (g - 1)) (real sig / 2 ^ (g - 1))"
    and x: "x = y * pw2 (e + fp_qmin fb eb - int g)"
  shows "fp_tiny fb eb before m neg x \<longleftrightarrow>
    (if before then e < 0 else real (rp_shift g m neg sig) * pw2 e < 2 ^ fb)"
proof -
  let ?q = "fp_qmin fb eb"
  note bin = binade [OF scaled_bounds [OF norm cell] x]
  have lg: "\<lfloor>log 2 x\<rfloor> = ?q + int fb + e" using bin(3) by simp
  have "x < pw2 (?q + int fb) \<longleftrightarrow> e < 0"
  proof
    assume "x < pw2 (?q + int fb)"
    then have "pw2 (?q + int fb + e) < pw2 (?q + int fb)"
      using floor_log2_bounds(1) [OF bin(1)] by (simp only: lg)
    then show "e < 0" by simp
  next
    assume "e < 0"
    then have "pw2 (?q + int fb + e + 1) \<le> pw2 (?q + int fb)" by (intro pw2_mono) simp
    then show "x < pw2 (?q + int fb)" using floor_log2_bounds(2) [OF bin(1)] by (simp only: lg)
  qed
  moreover have "rnd_int m neg (x / pw2 (e + ?q)) = int (rp_shift g m neg sig)"
    using half_cell(1) [OF cell] rp_shift_rnd_int [of g m neg sig] g_ge by (simp add: bin(2))
  moreover have "real r * pw2 (e + ?q) < pw2 (?q + int fb) \<longleftrightarrow> real r * pw2 e < 2 ^ fb" for r
  proof -
    have "real r * pw2 (e + ?q) = (real r * pw2 e) * pw2 ?q"
      and "pw2 (?q + int fb) = 2 ^ fb * pw2 ?q" by (simp_all add: pw2_add)
    then show ?thesis by (simp only: mult_less_cancel_right_pos pw2_pos)
  qed
  ultimately show ?thesis by (simp add: fp_tiny_def bin(3) Let_def)
qed

lemma inf_bound: "2 ^ fb < fp_inf fb eb" "2 ^ (fb + 1) \<le> fp_inf fb eb"
proof -
  have "(2::nat) ^ 2 \<le> 2 ^ eb" using eb_ge by (intro power_increasing) auto
  then have "2 * 2 ^ fb \<le> (2 ^ eb - 1) * (2::nat) ^ fb" by (intro mult_le_mono1) simp
  then show "2 ^ (fb + 1) \<le> fp_inf fb eb" by (simp add: fp_inf_def)
  moreover have "(2::nat) ^ fb < 2 ^ (fb + 1)" by simp
  ultimately show "2 ^ fb < fp_inf fb eb" by linarith
qed

lemma overflow_iff:
  assumes "0 \<le> e" and "2 ^ fb \<le> r" and "r \<le> 2 ^ (fb + 1)"
  shows "fp_inf fb eb \<le> nat e * 2 ^ fb + r \<longleftrightarrow>
    2 ^ eb - 3 < e \<or> e = 2 ^ eb - 3 \<and> 2 ^ (fb + 1) \<le> r"
proof -
  define F :: nat where "F = 2 ^ fb"
  define n where "n = nat e"
  have "(2::nat) ^ 2 \<le> 2 ^ eb" using eb_ge by (intro power_increasing) auto
  then have "(2::nat) ^ eb = (2 ^ eb - 3) + 3" by simp
  then obtain d where d: "(2::nat) ^ eb = d + 3" by blast
  then have "int (2 ^ eb) = int (d + 3)" by simp
  then have d': "(2::int) ^ eb - 3 = int d" by simp
  have inf: "fp_inf fb eb = d * F + 2 * F" by (simp add: fp_inf_def d F_def algebra_simps)
  have r: "F \<le> r" "r \<le> 2 * F" "0 < F" using assms(2,3) by (simp_all add: F_def)
  consider "n < d" | "n = d" | "d < n" by linarith
  then have "fp_inf fb eb \<le> n * F + r \<longleftrightarrow> d < n \<or> n = d \<and> 2 * F \<le> r"
  proof cases
    case 1
    then have "(n + 1) * F \<le> d * F" by (intro mult_le_mono1) simp
    with r 1 show ?thesis by (simp add: inf)
  next
    case 3
    then have "(d + 1) * F \<le> n * F" by (intro mult_le_mono1) simp
    with r 3 show ?thesis by (simp add: inf)
  qed (simp add: inf)
  moreover have "e = int n" using assms(1) by (simp add: n_def)
  ultimately show ?thesis by (simp add: d' F_def)
qed

theorem gen_roundPack_correct_nonneg:
  assumes e: "0 \<le> e"
    and norm: "2 ^ (fb + g) \<le> sig" "sig < 2 ^ (fb + g + 1)"
    and cell: "same_cell (y / 2 ^ (g - 1)) (real sig / 2 ^ (g - 1))"
    and x: "x = y * pw2 (e + fp_qmin fb eb - int g)"
  shows "gen_roundPack fb eb g m before neg e sig =
    (fp_round fb eb m neg x, fp_flags fb eb before m neg x)"
proof -
  let ?q = "fp_qmin fb eb" and ?r = "rp_shift g m neg sig"
  note sb = scaled_bounds [OF norm cell]
  note bin = binade [OF sb x]
  have quantum: "fp_quantum fb eb x = e + ?q" using bin(3) e by (simp add: fp_quantum_def)
  have g0: "0 < g" using g_ge by simp
  have rnd: "rnd_int m neg (y / 2 ^ g) = int ?r"
    using half_cell(1) [OF cell] rp_shift_rnd_int [OF g0] by simp
  have unb: "fp_round_unb fb eb m neg x = nat e * 2 ^ fb + ?r"
    using bin(1) e by (simp add: fp_round_unb_def quantum bin(2) rnd nat_add_distrib nat_mult_distrib
        nat_power_eq)
  have inexact: "fp_inexact fb eb x \<longleftrightarrow> sig mod 2 ^ g \<noteq> 0"
    by (simp add: fp_inexact_def quantum bin(2) half_cell(2) [OF cell] of_nat_Ints_divide)
  have "2 ^ fb \<le> rnd_int m neg (y / 2 ^ g)" using sb(1) by (intro rnd_int_ge) simp
  then have "int (2 ^ fb) \<le> int ?r" by (simp add: rnd)
  then have r_lo: "2 ^ fb \<le> ?r" by (simp only: of_nat_le_iff)
  have "rnd_int m neg (y / 2 ^ g) \<le> 2 ^ (fb + 1)" using sb(2) by (intro rnd_int_le) simp
  then have "int ?r \<le> int (2 ^ (fb + 1))" by (simp add: rnd)
  then have r_hi: "?r \<le> 2 ^ (fb + 1)" by (simp only: of_nat_le_iff)
  have "real (2 ^ fb) * 1 \<le> real ?r * pw2 e"
    using r_lo e by (intro mult_mono) (simp_all only: of_nat_le_iff, auto simp: one_le_power_int)
  then have not_tiny: "\<not> fp_tiny fb eb before m neg x"
    using e by (simp add: tiny_iff [OF norm cell x])
  have ovf: "fp_inf fb eb \<le> nat e * 2 ^ fb + ?r \<longleftrightarrow>
      2 ^ eb - 3 < e \<or> e = 2 ^ eb - 3 \<and> 2 ^ (fb + 1 + g) \<le> sig + rp_inc g m neg"
    using overflow_iff [OF e r_lo r_hi] rp_shift_ge_iff [of "fb + 1" g m neg sig] by simp
  show ?thesis
    unfolding gen_roundPack_def fp_round_def fp_flags_def fp_overflow_def unb ovf [symmetric] inexact
    using bin(1) e not_tiny rp_inc_eq_0 [of g m neg] g_ge by (simp add: Let_def)
qed

theorem gen_roundPack_correct_neg:
  assumes e: "e < 0"
    and norm: "2 ^ (fb + g) \<le> sig" "sig < 2 ^ (fb + g + 1)"
    and cell: "same_cell (y / 2 ^ (g - 1)) (real sig / 2 ^ (g - 1))"
    and x: "x = y * pw2 (e + fp_qmin fb eb - int g)"
  shows "gen_roundPack fb eb g m before neg e sig =
    (fp_round fb eb m neg x, fp_flags fb eb before m neg x)"
proof -
  let ?q = "fp_qmin fb eb" and ?s = "nat (- e)"
  let ?sig' = "jam ?s sig" and ?r = "rp_shift g m neg sig"
  note sb = scaled_bounds [OF norm cell]
  note bin = binade [OF sb x]
  have quantum: "fp_quantum fb eb x = ?q" using bin(3) e by (simp add: fp_quantum_def)
  have g0: "0 < g" using g_ge by simp
  have "x / pw2 ?q = x / pw2 (e + ?q) * pw2 e" by (simp add: pw2_add)
  also have "pw2 e = 1 / 2 ^ ?s" using e by (simp add: power_int_def power_one_over inverse_eq_divide)
  finally have scaled: "x / pw2 ?q = y / 2 ^ ?s / 2 ^ g" by (simp add: bin(2))
  have cell': "same_cell (y / 2 ^ ?s / 2 ^ (g - 1)) (real ?sig' / 2 ^ (g - 1))"
  proof -
    have "same_cell (y / 2 ^ (g - 1) / 2 ^ ?s) (real sig / 2 ^ (g - 1) / 2 ^ ?s)"
      using same_cell_divide [OF cell, of "2 ^ ?s"] by simp
    moreover have "same_cell (real sig / 2 ^ ?s / 2 ^ (g - 1)) (real ?sig' / 2 ^ (g - 1))"
      using g_ge by (intro same_cell_jam_coarse) simp
    ultimately show ?thesis by (auto intro: same_cell_trans simp: mult.commute)
  qed
  have unb: "fp_round_unb fb eb m neg x = rp_shift g m neg ?sig'"
    using bin(1) half_cell(1) [OF cell'] rp_shift_rnd_int [OF g0, of m neg ?sig']
    by (simp add: fp_round_unb_def quantum scaled flip: of_nat_eq_iff)
  have inexact: "fp_inexact fb eb x \<longleftrightarrow> ?sig' mod 2 ^ g \<noteq> 0"
    unfolding fp_inexact_def quantum scaled half_cell(2) [OF cell'] of_nat_Ints_divide ..
  have r_hi: "real ?r \<le> 2 ^ (fb + 1)"
  proof -
    have "rnd_int m neg (y / 2 ^ g) \<le> 2 ^ (fb + 1)" using sb(2) by (intro rnd_int_le) simp
    then have "int ?r \<le> 2 ^ (fb + 1)"
      using half_cell(1) [OF cell, of m neg] rp_shift_rnd_int [OF g0, of m neg sig] by simp
    then have "real_of_int (int ?r) \<le> real_of_int (2 ^ (fb + 1))" by (simp only: of_int_le_iff)
    then show ?thesis by simp
  qed
  have no_ovf: "rp_shift g m neg ?sig' < fp_inf fb eb"
  proof -
    have "1 \<le> ?s" using e by simp
    then have "(2::real) ^ 1 \<le> 2 ^ ?s" by (intro power_increasing) auto
    then have "y / 2 ^ g / 2 ^ ?s \<le> (2 ^ (fb + 1)) / 2"
      using sb(2) by (intro frac_le) auto
    then have "rnd_int m neg (y / 2 ^ ?s / 2 ^ g) \<le> 2 ^ fb"
      by (intro rnd_int_le) (simp add: mult.commute)
    then have "int (rp_shift g m neg ?sig') \<le> int (2 ^ fb)"
      using half_cell(1) [OF cell', of m neg] rp_shift_rnd_int [OF g0, of m neg ?sig'] by simp
    then show ?thesis using inf_bound(1) by (simp only: of_nat_le_iff)
  qed
  have tiny: "fp_tiny fb eb before m neg x \<longleftrightarrow>
      before \<or> e < -1 \<or> sig + rp_inc g m neg < 2 ^ (fb + 1 + g)"
  proof (cases "e < -1")
    case True
    then have "pw2 e \<le> pw2 (-2)" by (intro pw2_mono) simp
    also have "pw2 (-2) = 1 / 4" by (simp add: power_int_def power2_eq_square)
    finally have "real ?r * pw2 e \<le> 2 ^ (fb + 1) * (1 / 4)"
      using r_hi by (intro mult_mono) auto
    also have "\<dots> < 2 ^ fb" by simp
    finally have "real ?r * pw2 e < 2 ^ fb" .
    with True show ?thesis by (simp add: tiny_iff [OF norm cell x])
  next
    case False
    then have e1: "e = -1" using e by simp
    have "real ?r * pw2 e < 2 ^ fb \<longleftrightarrow> real ?r < real (2 ^ (fb + 1))"
      by (simp add: e1 mult.commute)
    then show ?thesis
      using rp_shift_ge_iff [of "fb + 1" g m neg sig]
      by (simp only: tiny_iff [OF norm cell x] of_nat_less_iff) (auto simp: e1)
  qed
  show ?thesis
    using bin(1) e no_ovf
    by (auto simp: gen_roundPack_def fp_round_def fp_flags_def fp_overflow_def unb tiny inexact Let_def)
qed

theorem gen_roundPack_correct:
  assumes "2 ^ (fb + g) \<le> sig" "sig < 2 ^ (fb + g + 1)"
    and "same_cell (y / 2 ^ (g - 1)) (real sig / 2 ^ (g - 1))"
    and "x = y * pw2 (e + fp_qmin fb eb - int g)"
  shows "gen_roundPack fb eb g m before neg e sig =
    (fp_round fb eb m neg x, fp_flags fb eb before m neg x)"
  using gen_roundPack_correct_nonneg [OF _ assms] gen_roundPack_correct_neg [OF _ assms]
  by (cases "0 \<le> e") simp_all

end

section \<open>The contract of the round-and-pack routines\<close>

text \<open>
  \<open>fp_word\<close> puts a sign in front of a magnitude pattern; \<open>fp_result neg x\<close> is the correctly
  rounded result for the number of sign \<open>neg\<close> and magnitude \<open>x\<close>: its pattern, and the state
  with the exceptions of the rounding raised.
\<close>

definition fp_word :: "nat \<Rightarrow> nat \<Rightarrow> bool \<Rightarrow> nat \<Rightarrow> 'w::len word" where
  "fp_word fb eb neg u = word_of_nat (of_bool neg * 2 ^ (fb + eb) + u)"

definition fp_result :: "nat \<Rightarrow> nat \<Rightarrow> bool \<Rightarrow> real \<Rightarrow> sf_state \<Rightarrow> 'w::len word \<times> sf_state" where
  "fp_result fb eb neg x st =
     (fp_word fb eb neg (fp_round fb eb (sf_mode st) neg x),
      softfloat_raiseFlags (fp_flags fb eb (sf_before st) (sf_mode st) neg x) st)"

locale round_pack = guarded_format +
  fixes roundPack :: "bool \<Rightarrow> int \<Rightarrow> uint64_t \<Rightarrow> sf_state \<Rightarrow> 'w::len word \<times> sf_state"
  assumes refines:
    "\<lbrakk>2 ^ (fb + g) \<le> unat sig; unat sig < 2 ^ (fb + g + 1); - (2 ^ 14) \<le> e; e < 2 ^ 14;
      gen_roundPack fb eb g (sf_mode st) (sf_before st) neg e (unat sig) = (u, f)\<rbrakk>
     \<Longrightarrow> roundPack neg e sig st = (fp_word fb eb neg u, softfloat_raiseFlags f st)"
begin

theorem correct:
  assumes "2 ^ (fb + g) \<le> unat sig" "unat sig < 2 ^ (fb + g + 1)"
    and "- (2 ^ 14) \<le> e" "e < 2 ^ 14"
    and "same_cell (y / 2 ^ (g - 1)) (real (unat sig) / 2 ^ (g - 1))"
    and "x = y * pw2 (e + fp_qmin fb eb - int g)"
  shows "roundPack neg e sig st = fp_result fb eb neg x st"
  unfolding fp_result_def
  by (rule refines [OF assms(1-4) gen_roundPack_correct [OF assms(1,2,5,6)]])

end

end
