(* ===== verification/SF_Format.thy ===== *)
theory SF_Format
  imports Round_Generic
begin

text \<open>
  The bit fields of the three formats (\<^verbatim>\<open>softfloat/internals.h\<close>) and the RISC-V NaN rules
  (\<^verbatim>\<open>softfloat/specialize.h\<close>, \<^verbatim>\<open>s_propagateNaNF*UI.c\<close>).  A \<^verbatim>\<open>float32_t\<close> is a structure of one
  \<^verbatim>\<open>uint32_t\<close>, here the word itself; the code reads it into a wider \<^verbatim>\<open>uint_fast32_t\<close>.
\<close>

type_synonym float16_t = uint16_t
type_synonym float32_t = uint32_t
type_synonym float64_t = uint64_t

section \<open>Binary16\<close>

definition signF16UI :: "uint_fast16_t \<Rightarrow> bool" where
  "signF16UI a \<longleftrightarrow> drop_bit 15 (ucast a :: uint16_t) \<noteq> 0"

definition expF16UI :: "uint_fast16_t \<Rightarrow> int" where
  "expF16UI a = uint ((ucast (drop_bit 10 a) :: uint8_t) AND 0x1F)"

definition fracF16UI :: "uint_fast16_t \<Rightarrow> uint_fast16_t" where
  "fracF16UI a = a AND 0x03FF"

definition packToF16UI :: "bool \<Rightarrow> int \<Rightarrow> uint_fast16_t \<Rightarrow> uint_fast16_t" where
  "packToF16UI sign e sig =
     push_bit 15 (of_bool sign) + push_bit 10 (ucast (word_of_int e :: uint16_t)) + sig"

definition isNaNF16UI :: "uint_fast16_t \<Rightarrow> bool" where
  "isNaNF16UI a \<longleftrightarrow> NOT a AND 0x7C00 = 0 \<and> a AND 0x03FF \<noteq> 0"

definition defaultNaNF16UI :: uint_fast16_t where
  "defaultNaNF16UI = 0x7E00"

definition softfloat_isSigNaNF16UI :: "uint_fast16_t \<Rightarrow> bool" where
  "softfloat_isSigNaNF16UI uiA \<longleftrightarrow> uiA AND 0x7E00 = 0x7C00 \<and> uiA AND 0x01FF \<noteq> 0"

definition softfloat_propagateNaNF16UI ::
  "uint_fast16_t \<Rightarrow> uint_fast16_t \<Rightarrow> sf_state \<Rightarrow> uint_fast16_t \<times> sf_state" where
  "softfloat_propagateNaNF16UI uiA uiB st =
     (defaultNaNF16UI,
      if softfloat_isSigNaNF16UI uiA \<or> softfloat_isSigNaNF16UI uiB
      then softfloat_raiseFlags softfloat_flag_invalid st else st)"

section \<open>Binary32\<close>

definition signF32UI :: "uint_fast32_t \<Rightarrow> bool" where
  "signF32UI a \<longleftrightarrow> drop_bit 31 (ucast a :: uint32_t) \<noteq> 0"

definition expF32UI :: "uint_fast32_t \<Rightarrow> int" where
  "expF32UI a = uint (drop_bit 23 a AND 0xFF)"

definition fracF32UI :: "uint_fast32_t \<Rightarrow> uint_fast32_t" where
  "fracF32UI a = a AND 0x007FFFFF"

definition packToF32UI :: "bool \<Rightarrow> int \<Rightarrow> uint_fast32_t \<Rightarrow> uint_fast32_t" where
  "packToF32UI sign e sig =
     ucast (push_bit 31 (of_bool sign) + push_bit 23 (word_of_int e) :: uint32_t) + sig"

definition isNaNF32UI :: "uint_fast32_t \<Rightarrow> bool" where
  "isNaNF32UI a \<longleftrightarrow> NOT a AND 0x7F800000 = 0 \<and> a AND 0x007FFFFF \<noteq> 0"

definition defaultNaNF32UI :: uint_fast32_t where
  "defaultNaNF32UI = 0x7FC00000"

definition softfloat_isSigNaNF32UI :: "uint_fast32_t \<Rightarrow> bool" where
  "softfloat_isSigNaNF32UI uiA \<longleftrightarrow> uiA AND 0x7FC00000 = 0x7F800000 \<and> uiA AND 0x003FFFFF \<noteq> 0"

definition softfloat_propagateNaNF32UI ::
  "uint_fast32_t \<Rightarrow> uint_fast32_t \<Rightarrow> sf_state \<Rightarrow> uint_fast32_t \<times> sf_state" where
  "softfloat_propagateNaNF32UI uiA uiB st =
     (defaultNaNF32UI,
      if softfloat_isSigNaNF32UI uiA \<or> softfloat_isSigNaNF32UI uiB
      then softfloat_raiseFlags softfloat_flag_invalid st else st)"

section \<open>Binary64\<close>

definition signF64UI :: "uint_fast64_t \<Rightarrow> bool" where
  "signF64UI a \<longleftrightarrow> drop_bit 63 a \<noteq> 0"

definition expF64UI :: "uint_fast64_t \<Rightarrow> int" where
  "expF64UI a = uint (drop_bit 52 a AND 0x7FF)"

definition fracF64UI :: "uint_fast64_t \<Rightarrow> uint_fast64_t" where
  "fracF64UI a = a AND 0x000FFFFFFFFFFFFF"

definition packToF64UI :: "bool \<Rightarrow> int \<Rightarrow> uint_fast64_t \<Rightarrow> uint_fast64_t" where
  "packToF64UI sign e sig = push_bit 63 (of_bool sign) + push_bit 52 (word_of_int e) + sig"

definition isNaNF64UI :: "uint_fast64_t \<Rightarrow> bool" where
  "isNaNF64UI a \<longleftrightarrow> NOT a AND 0x7FF0000000000000 = 0 \<and> a AND 0x000FFFFFFFFFFFFF \<noteq> 0"

definition defaultNaNF64UI :: uint_fast64_t where
  "defaultNaNF64UI = 0x7FF8000000000000"

definition softfloat_isSigNaNF64UI :: "uint_fast64_t \<Rightarrow> bool" where
  "softfloat_isSigNaNF64UI uiA \<longleftrightarrow>
     uiA AND 0x7FF8000000000000 = 0x7FF0000000000000 \<and> uiA AND 0x0007FFFFFFFFFFFF \<noteq> 0"

definition softfloat_propagateNaNF64UI ::
  "uint_fast64_t \<Rightarrow> uint_fast64_t \<Rightarrow> sf_state \<Rightarrow> uint_fast64_t \<times> sf_state" where
  "softfloat_propagateNaNF64UI uiA uiB st =
     (defaultNaNF64UI,
      if softfloat_isSigNaNF64UI uiA \<or> softfloat_isSigNaNF64UI uiB
      then softfloat_raiseFlags softfloat_flag_invalid st else st)"

section \<open>Fields as numbers\<close>

named_theorems mask_numerals

lemma mask_numeral [mask_numerals]:
  "(0x7F :: 'a::len word) = mask 7" "(0xF :: 'a word) = mask 4" "(0x1F :: 'a word) = mask 5"
  "(0xFF :: 'a word) = mask 8" "(0x3FF :: 'a word) = mask 10" "(0x7FF :: 'a word) = mask 11"
  "(0x7FFFFF :: 'a word) = mask 23" "(0x1FF :: 'a word) = mask 9"
  "(0x3FFFFF :: 'a word) = mask 22" "(0x3F :: 'a word) = mask 6"
  "(0xFFFFFFFFFFFFF :: 'a word) = mask 52" "(0x7FFFFFFFFFFFF :: 'a word) = mask 51"
  by (simp_all add: mask_eq_exp_minus_1)

lemma drop_bit_eq_0_iff: "drop_bit n (w :: 'a::len word) = 0 \<longleftrightarrow> unat w < 2 ^ n"
  by (simp add: word_eq_unat unat_drop_bit div_eq_0_iff del: unat_eq_0)

lemma uint_unat: "uint w = int (unat (w :: 'a::len word))"
  by simp

lemma signF16UI_ucast: "signF16UI (ucast (a :: float16_t)) \<longleftrightarrow> 2 ^ 15 \<le> unat a"
  using unat_lt_2p [of a] by (simp add: signF16UI_def drop_bit_eq_0_iff not_less unat_ucast)

lemma signF32UI_ucast: "signF32UI (ucast (a :: float32_t)) \<longleftrightarrow> 2 ^ 31 \<le> unat a"
  using unat_lt_2p [of a] by (simp add: signF32UI_def drop_bit_eq_0_iff not_less unat_ucast)

lemma signF64UI_unat: "signF64UI a \<longleftrightarrow> 2 ^ 63 \<le> unat a"
  by (simp add: signF64UI_def drop_bit_eq_0_iff not_less)

lemma expF16UI_unat: "expF16UI a = int (unat a div 2 ^ 10 mod 2 ^ 5)"
proof -
  have "unat a div 2 ^ 10 mod 2 ^ 8 mod 2 ^ 5 = unat a div 2 ^ 10 mod 2 ^ 5"
    by (rule mod_mod_cancel) simp
  then show ?thesis
    by (simp only: expF16UI_def mask_numerals uint_unat unat_and_mask unat_ucast unat_drop_bit) simp
qed

lemma expF32UI_unat: "expF32UI a = int (unat a div 2 ^ 23 mod 2 ^ 8)"
  by (simp only: expF32UI_def mask_numerals uint_unat unat_and_mask unat_drop_bit)

lemma expF64UI_unat: "expF64UI a = int (unat a div 2 ^ 52 mod 2 ^ 11)"
  by (simp only: expF64UI_def mask_numerals uint_unat unat_and_mask unat_drop_bit)

lemma fracF16UI_unat: "unat (fracF16UI a) = unat a mod 2 ^ 10"
  by (simp only: fracF16UI_def mask_numerals unat_and_mask)

lemma fracF32UI_unat: "unat (fracF32UI a) = unat a mod 2 ^ 23"
  by (simp only: fracF32UI_def mask_numerals unat_and_mask)

lemma fracF64UI_unat: "unat (fracF64UI a) = unat a mod 2 ^ 52"
  by (simp only: fracF64UI_def mask_numerals unat_and_mask)

section \<open>What a pattern stands for\<close>

text \<open>
  \<open>fp_magbits\<close> are the bits below the sign; a pattern is finite, infinite or a NaN as they are
  below, equal to or above those of infinity.  \<open>fp_real\<close> is the value of a finite pattern.
\<close>

definition fp_magbits :: "nat \<Rightarrow> nat \<Rightarrow> 'w::len word \<Rightarrow> nat" where
  "fp_magbits fb eb w = unat w mod 2 ^ (fb + eb)"

definition fp_neg :: "nat \<Rightarrow> nat \<Rightarrow> 'w::len word \<Rightarrow> bool" where
  "fp_neg fb eb w \<longleftrightarrow> 2 ^ (fb + eb) \<le> unat w"

definition fp_finite :: "nat \<Rightarrow> nat \<Rightarrow> 'w::len word \<Rightarrow> bool" where
  "fp_finite fb eb w \<longleftrightarrow> fp_magbits fb eb w < fp_inf fb eb"

definition fp_is_inf :: "nat \<Rightarrow> nat \<Rightarrow> 'w::len word \<Rightarrow> bool" where
  "fp_is_inf fb eb w \<longleftrightarrow> fp_magbits fb eb w = fp_inf fb eb"

definition fp_is_nan :: "nat \<Rightarrow> nat \<Rightarrow> 'w::len word \<Rightarrow> bool" where
  "fp_is_nan fb eb w \<longleftrightarrow> fp_inf fb eb < fp_magbits fb eb w"

definition fp_real :: "nat \<Rightarrow> nat \<Rightarrow> 'w::len word \<Rightarrow> real" where
  "fp_real fb eb w = (if fp_neg fb eb w then -1 else 1) * fp_mag fb eb (fp_magbits fb eb w)"

text \<open>A NaN is signaling when the top fraction bit is clear.\<close>

definition fp_is_snan :: "nat \<Rightarrow> nat \<Rightarrow> 'w::len word \<Rightarrow> bool" where
  "fp_is_snan fb eb w \<longleftrightarrow> fp_is_nan fb eb w \<and> fp_magbits fb eb w < fp_inf fb eb + 2 ^ (fb - 1)"

lemma fields_split: "n mod 2 ^ (fb + eb) div 2 ^ fb = n div 2 ^ fb mod (2 ^ eb :: nat)"
  "n mod 2 ^ (fb + eb) mod 2 ^ fb = n mod (2 ^ fb :: nat)"
  by (simp_all add: power_add mod_mult2_eq mod_mod_cancel)

lemma magbits_div_less: "fp_magbits fb eb w div 2 ^ fb < 2 ^ eb"
  by (simp add: fp_magbits_def fields_split)

lemma not_and_mask_eq_0_iff:
  assumes "k + n \<le> LENGTH('a)"
  shows "NOT a AND push_bit k (mask n) = 0 \<longleftrightarrow> drop_bit k a AND mask n = (mask n :: 'a::len word)"
proof -
  have "NOT a AND push_bit k (mask n) = 0 \<longleftrightarrow> (\<forall>i. k \<le> i \<and> i - k < n \<longrightarrow> bit a i)"
  proof
    assume *: "NOT a AND push_bit k (mask n) = 0"
    show "\<forall>i. k \<le> i \<and> i - k < n \<longrightarrow> bit a i"
    proof (intro allI impI, elim conjE)
      fix i assume i: "k \<le> i" "i - k < n"
      then have "i < LENGTH('a)" using assms by linarith
      moreover have "\<not> bit (NOT a AND push_bit k (mask n)) i" using * by simp
      ultimately show "bit a i" using i by (auto simp: bit_simps)
    qed
  qed (auto simp: bit_eq_iff bit_simps)
  also have "\<dots> \<longleftrightarrow> (\<forall>j < n. bit a (j + k))"
    by (metis add_diff_cancel_right' le_add2 le_add_diff_inverse2)
  also have "\<dots> \<longleftrightarrow> drop_bit k a AND mask n = mask n"
  proof -
    have "j < LENGTH('a)" if "j < n" for j using that assms by linarith
    then show ?thesis by (auto simp: bit_eq_iff bit_simps add.commute)
  qed
  finally show ?thesis .
qed

lemma inf_le_iff:
  assumes "u < 2 ^ (fb + eb)"
  shows "fp_inf fb eb \<le> u \<longleftrightarrow> u div 2 ^ fb = 2 ^ eb - 1"
    and "fp_inf fb eb < u \<longleftrightarrow> u div 2 ^ fb = 2 ^ eb - 1 \<and> u mod 2 ^ fb \<noteq> 0"
proof -
  define q r where "q = u div 2 ^ fb" and "r = u mod 2 ^ fb"
  have u: "u = q * 2 ^ fb + r" by (simp only: q_def r_def div_mult_mod_eq)
  have r: "r < 2 ^ fb" by (simp add: r_def)
  have "q < 2 ^ eb" using assms by (simp add: q_def less_mult_imp_div_less power_add mult.commute)
  then consider "q = 2 ^ eb - 1" | "q + 1 \<le> 2 ^ eb - 1" by linarith
  then have "(fp_inf fb eb \<le> u \<longleftrightarrow> q = 2 ^ eb - 1) \<and> (fp_inf fb eb < u \<longleftrightarrow> q = 2 ^ eb - 1 \<and> r \<noteq> 0)"
  proof cases
    case 1
    then have "fp_inf fb eb = q * 2 ^ fb" by (simp add: fp_inf_def)
    with 1 u show ?thesis by auto
  next
    case 2
    then have "(q + 1) * 2 ^ fb \<le> fp_inf fb eb" unfolding fp_inf_def by (rule mult_le_mono1)
    with 2 u r show ?thesis by auto
  qed
  then show "fp_inf fb eb \<le> u \<longleftrightarrow> u div 2 ^ fb = 2 ^ eb - 1"
    and "fp_inf fb eb < u \<longleftrightarrow> u div 2 ^ fb = 2 ^ eb - 1 \<and> u mod 2 ^ fb \<noteq> 0"
    by (simp_all only: q_def r_def)
qed

section \<open>The fields of an operand\<close>

lemma mask_fields:
  "(0x7C00 :: uint64_t) = push_bit 10 (mask 5)" "(0x7F800000 :: uint64_t) = push_bit 23 (mask 8)"
  "(0x7FF0000000000000 :: uint64_t) = push_bit 52 (mask 11)"
  by (simp_all add: mask_eq_exp_minus_1)

lemma mask_snan_fields:
  "(0x7E00 :: uint64_t) = push_bit 9 (mask 6)" "(0x7FC00000 :: uint64_t) = push_bit 22 (mask 9)"
  "(0x7FF8000000000000 :: uint64_t) = push_bit 51 (mask 12)"
  by (simp_all add: mask_eq_exp_minus_1)

lemma and_mask_eq_mask_iff:
  "n \<le> LENGTH('a) \<Longrightarrow> w AND mask n = (mask n :: 'a::len word) \<longleftrightarrow> unat w mod 2 ^ n = 2 ^ n - 1"
  by (simp only: word_eq_unat unat_and_mask unat_mask)

lemma and_mask_eq_0_iff: "w AND mask n = (0 :: 'a::len word) \<longleftrightarrow> unat w mod 2 ^ n = 0"
  by (simp only: word_eq_unat unat_and_mask unat_0)

lemma magbits_less: "fp_magbits fb eb w < 2 ^ (fb + eb)"
  by (simp add: fp_magbits_def)

lemma exp_field_ones:
  assumes "fb + eb \<le> LENGTH('a)"
  shows "NOT a AND push_bit fb (mask eb) = 0 \<and> a AND mask fb \<noteq> (0 :: 'a::len word) \<longleftrightarrow>
    fp_inf fb eb < unat a mod 2 ^ (fb + eb)"
proof -
  have "unat a mod 2 ^ (fb + eb) < 2 ^ (fb + eb)" by simp
  from inf_le_iff(2) [OF this] assms show ?thesis
    unfolding not_and_mask_eq_0_iff [OF assms] and_mask_eq_0_iff fields_split
    by (simp add: and_mask_eq_mask_iff unat_drop_bit)
qed

lemma sig_nan_field:
  fixes a :: "'a::len word"
  assumes "1 + k + n \<le> LENGTH('a)" and "0 < n"
  shows "unat (a AND push_bit k (mask (n + 1))) = (2 ^ (n + 1) - 2) * 2 ^ k \<and> a AND mask k \<noteq> 0 \<longleftrightarrow>
    fp_inf (k + 1) n < unat a mod 2 ^ (k + 1 + n) \<and> unat a mod 2 ^ (k + 1 + n) < fp_inf (k + 1) n + 2 ^ k"
proof -
  define u where "u = unat a mod 2 ^ (k + 1 + n)"
  define q r where "q = u div 2 ^ k" and "r = u mod 2 ^ k"
  have u: "u = q * 2 ^ k + r" and r: "r < 2 ^ k"
    by (simp_all only: q_def r_def div_mult_mod_eq) simp
  have q: "q = unat a div 2 ^ k mod 2 ^ (n + 1)" and r': "r = unat a mod 2 ^ k"
    using fields_split [of "unat a" k "n + 1"] by (simp_all add: q_def r_def u_def ac_simps)
  have inf: "fp_inf (k + 1) n = (2 ^ (n + 1) - 2) * 2 ^ k"
    by (simp add: fp_inf_def diff_mult_distrib)
  define K where "K = (2::nat) ^ (n + 1) - 2"
  have "K * 2 ^ k < u \<and> u < K * 2 ^ k + 2 ^ k \<longleftrightarrow> q = K \<and> r \<noteq> 0"
  proof -
    consider "q + 1 \<le> K" | "q = K" | "K + 1 \<le> q" by linarith
    then show ?thesis
    proof cases
      case 1
      then have "(q + 1) * 2 ^ k \<le> K * 2 ^ k" by (rule mult_le_mono1)
      with 1 u r show ?thesis by simp
    next
      case 3
      then have "(K + 1) * 2 ^ k \<le> q * 2 ^ k" by (rule mult_le_mono1)
      with 3 u r show ?thesis by simp
    qed (use u r in auto)
  qed
  moreover have "unat (a AND push_bit k (mask (n + 1))) = q * 2 ^ k"
    using assms unat_and_field [of k "n + 1" a] by (simp add: q)
  ultimately show ?thesis
    unfolding and_mask_eq_0_iff r' [symmetric] inf K_def [symmetric] u_def [symmetric] by simp
qed

text \<open>The fields the code extracts, for an operand of each format.\<close>

lemma f16_fields:
  fixes a :: float16_t
  shows "signF16UI (ucast a) \<longleftrightarrow> fp_neg 10 5 a"
    and "expF16UI (ucast a) = int (fp_magbits 10 5 a div 2 ^ 10)"
    and "unat (fracF16UI (ucast a)) = fp_magbits 10 5 a mod 2 ^ 10"
    and "isNaNF16UI (ucast a) \<longleftrightarrow> fp_is_nan 10 5 a"
    and "softfloat_isSigNaNF16UI (ucast a) \<longleftrightarrow> fp_is_snan 10 5 a"
proof -
  show "signF16UI (ucast a) \<longleftrightarrow> fp_neg 10 5 a"
    by (simp add: signF16UI_ucast fp_neg_def)
  show "expF16UI (ucast a) = int (fp_magbits 10 5 a div 2 ^ 10)"
    and "unat (fracF16UI (ucast a)) = fp_magbits 10 5 a mod 2 ^ 10"
    using fields_split [of "unat a" 10 5]
    by (simp_all add: expF16UI_unat fracF16UI_unat fp_magbits_def)
  show "isNaNF16UI (ucast a) \<longleftrightarrow> fp_is_nan 10 5 a"
    using exp_field_ones [of 10 5 "ucast a :: uint64_t"]
    by (simp only: isNaNF16UI_def mask_fields mask_numeral) (simp add: fp_is_nan_def fp_magbits_def)
  show "softfloat_isSigNaNF16UI (ucast a) \<longleftrightarrow> fp_is_snan 10 5 a"
    using sig_nan_field [of 9 5 "ucast a :: uint64_t"]
    by (simp only: softfloat_isSigNaNF16UI_def mask_snan_fields mask_numeral word_eq_unat [of _ 31744])
      (simp add: fp_is_snan_def fp_is_nan_def fp_magbits_def)
qed

lemma f32_fields:
  fixes a :: float32_t
  shows "signF32UI (ucast a) \<longleftrightarrow> fp_neg 23 8 a"
    and "expF32UI (ucast a) = int (fp_magbits 23 8 a div 2 ^ 23)"
    and "unat (fracF32UI (ucast a)) = fp_magbits 23 8 a mod 2 ^ 23"
    and "isNaNF32UI (ucast a) \<longleftrightarrow> fp_is_nan 23 8 a"
    and "softfloat_isSigNaNF32UI (ucast a) \<longleftrightarrow> fp_is_snan 23 8 a"
proof -
  show "signF32UI (ucast a) \<longleftrightarrow> fp_neg 23 8 a"
    by (simp add: signF32UI_ucast fp_neg_def)
  show "expF32UI (ucast a) = int (fp_magbits 23 8 a div 2 ^ 23)"
    and "unat (fracF32UI (ucast a)) = fp_magbits 23 8 a mod 2 ^ 23"
    using fields_split [of "unat a" 23 8]
    by (simp_all add: expF32UI_unat fracF32UI_unat fp_magbits_def)
  show "isNaNF32UI (ucast a) \<longleftrightarrow> fp_is_nan 23 8 a"
    using exp_field_ones [of 23 8 "ucast a :: uint64_t"]
    by (simp only: isNaNF32UI_def mask_fields mask_numeral) (simp add: fp_is_nan_def fp_magbits_def)
  show "softfloat_isSigNaNF32UI (ucast a) \<longleftrightarrow> fp_is_snan 23 8 a"
    using sig_nan_field [of 22 8 "ucast a :: uint64_t"]
    by (simp only: softfloat_isSigNaNF32UI_def mask_snan_fields mask_numeral word_eq_unat [of _ 2139095040])
      (simp add: fp_is_snan_def fp_is_nan_def fp_magbits_def)
qed

lemma f64_fields:
  fixes a :: float64_t
  shows "signF64UI (a) \<longleftrightarrow> fp_neg 52 11 a"
    and "expF64UI (a) = int (fp_magbits 52 11 a div 2 ^ 52)"
    and "unat (fracF64UI (a)) = fp_magbits 52 11 a mod 2 ^ 52"
    and "isNaNF64UI (a) \<longleftrightarrow> fp_is_nan 52 11 a"
    and "softfloat_isSigNaNF64UI (a) \<longleftrightarrow> fp_is_snan 52 11 a"
proof -
  show "signF64UI (a) \<longleftrightarrow> fp_neg 52 11 a"
    by (simp add: signF64UI_unat fp_neg_def)
  show "expF64UI (a) = int (fp_magbits 52 11 a div 2 ^ 52)"
    and "unat (fracF64UI (a)) = fp_magbits 52 11 a mod 2 ^ 52"
    using fields_split [of "unat a" 52 11]
    by (simp_all add: expF64UI_unat fracF64UI_unat fp_magbits_def)
  show "isNaNF64UI (a) \<longleftrightarrow> fp_is_nan 52 11 a"
    using exp_field_ones [of 52 11 "a :: uint64_t"]
    by (simp only: isNaNF64UI_def mask_fields mask_numeral) (simp add: fp_is_nan_def fp_magbits_def)
  show "softfloat_isSigNaNF64UI (a) \<longleftrightarrow> fp_is_snan 52 11 a"
    using sig_nan_field [of 51 11 "a :: uint64_t"]
    by (simp only: softfloat_isSigNaNF64UI_def mask_snan_fields mask_numeral word_eq_unat [of _ 9218868437227405312])
      (simp add: fp_is_snan_def fp_is_nan_def fp_magbits_def)
qed

section \<open>Packing\<close>

lemma unat_fp_word:
  assumes "LENGTH('w) = 1 + fb + eb" and "u < 2 ^ (fb + eb)"
  shows "unat (fp_word fb eb neg u :: 'w::len word) = of_bool neg * 2 ^ (fb + eb) + u"
proof -
  have "of_bool neg * 2 ^ (fb + eb) + u < 2 ^ LENGTH('w)" using assms by (cases neg) simp_all
  then show ?thesis unfolding fp_word_def by (simp only: unat_of_nat mod_less)
qed

lemma packToF16UI_fp_word:
  assumes "0 \<le> e" "e < 2 ^ 5" "nat e * 2 ^ 10 + unat sig < 2 ^ 15"
  shows "(ucast (packToF16UI sign e sig) :: float16_t) = fp_word 10 5 sign (nat e * 2 ^ 10 + unat sig)"
proof -
  have "unat (push_bit 10 (ucast (word_of_int e :: uint16_t)) :: uint64_t) = nat e * 2 ^ 10"
    using assms(1,2) by (simp add: unat_push_bit unat_word_of_int)
  moreover have "unat (push_bit 15 (of_bool sign) :: uint64_t) = of_bool sign * 2 ^ 15"
    by (simp add: unat_push_bit)
  ultimately show ?thesis
    using assms(3) by (cases sign; simp add: packToF16UI_def word_eq_unat unat_ucast unat_word_ariths(1)
        unat_fp_word)
qed

lemma packToF32UI_fp_word:
  assumes "0 \<le> e" "e < 2 ^ 8" "nat e * 2 ^ 23 + unat sig < 2 ^ 31"
  shows "(ucast (packToF32UI sign e sig) :: float32_t) = fp_word 23 8 sign (nat e * 2 ^ 23 + unat sig)"
proof -
  have "unat (push_bit 23 (word_of_int e) :: uint32_t) = nat e * 2 ^ 23"
    using assms(1,2) by (simp add: unat_push_bit unat_word_of_int)
  moreover have "unat (push_bit 31 (of_bool sign) :: uint32_t) = of_bool sign * 2 ^ 31"
    by (simp add: unat_push_bit)
  ultimately show ?thesis
    using assms(3) by (cases sign; simp add: packToF32UI_def word_eq_unat unat_ucast unat_word_ariths(1)
        unat_fp_word)
qed

lemma packToF64UI_fp_word:
  assumes "0 \<le> e" "e < 2 ^ 11" "nat e * 2 ^ 52 + unat sig < 2 ^ 63"
  shows "packToF64UI sign e sig = fp_word 52 11 sign (nat e * 2 ^ 52 + unat sig)"
proof -
  have "unat (push_bit 52 (word_of_int e) :: uint64_t) = nat e * 2 ^ 52"
    using assms(1,2) by (simp add: unat_push_bit unat_word_of_int)
  moreover have "unat (push_bit 63 (of_bool sign) :: uint64_t) = of_bool sign * 2 ^ 63"
    by (simp add: unat_push_bit)
  ultimately show ?thesis
    using assms(3) by (cases sign; simp add: packToF64UI_def word_eq_unat unat_word_ariths(1)
        unat_fp_word)
qed

end
