(* ===== verification/SF_RoundPack.thy ===== *)
theory SF_RoundPack
  imports SF_Format
begin

text \<open>
  The routines that round a significand with guard bits, pack the result and raise the exceptions
  (\<^verbatim>\<open>s_roundPackToF16.c\<close>, \<^verbatim>\<open>s_roundPackToF32.c\<close>, \<^verbatim>\<open>s_roundPackToF64.c\<close>), and the ones that
  normalise first (\<^verbatim>\<open>s_normRoundPackToF*.c\<close>, \<^verbatim>\<open>s_normSubnormalF*Sig.c\<close>).  Each round-and-pack routine
  is split where its two paths join again (the C statement \<^verbatim>\<open>sig = (sig + roundIncrement)>>g\<close>): the
  function named \<open>\<dots>_round\<close> is the code from there on.  Each refines \<open>gen_roundPack\<close>, and the
  interpretations of the locale \<open>round_pack\<close> make it a correct rounding.
\<close>

section \<open>The routines\<close>

definition softfloat_roundPackToF16_round ::
  "bool \<Rightarrow> int \<Rightarrow> uint_fast16_t \<Rightarrow> uint_fast8_t \<Rightarrow> uint_fast8_t \<Rightarrow> sf_state
   \<Rightarrow> float16_t \<times> sf_state" where
  "softfloat_roundPackToF16_round sign e sig roundIncrement roundBits st =
     (let roundingMode = softfloat_roundingMode st;
          roundNearEven = (roundingMode = softfloat_round_near_even);
          sig = drop_bit 4 (sig + ucast roundIncrement);
          st = (if roundBits \<noteq> 0 then softfloat_raiseFlags softfloat_flag_inexact st else st)
      in if roundBits \<noteq> 0 \<and> roundingMode = softfloat_round_odd
         then (ucast (packToF16UI sign e (sig OR 1)), st)
         else let sig = sig AND NOT (of_bool (roundBits XOR 0x8 = 0 \<and> roundNearEven));
                  e = (if sig = 0 then 0 else e)
              in (ucast (packToF16UI sign e sig), st))"

definition softfloat_roundPackToF16 ::
  "bool \<Rightarrow> int \<Rightarrow> uint_fast16_t \<Rightarrow> sf_state \<Rightarrow> float16_t \<times> sf_state" where
  "softfloat_roundPackToF16 sign e sig st =
     (let roundingMode = softfloat_roundingMode st;
          roundNearEven = (roundingMode = softfloat_round_near_even);
          roundIncrement =
            (if \<not> roundNearEven \<and> roundingMode \<noteq> softfloat_round_near_maxMag
             then if roundingMode = (if sign then softfloat_round_min else softfloat_round_max)
                  then 0xF else 0
             else 0x8) :: uint_fast8_t;
          roundBits = ucast (sig AND 0xF) :: uint_fast8_t
      in if 0x1D \<le> (word_of_int e :: 32 word) then
           if e < 0 then
             let isTiny = (softfloat_detectTininess st = softfloat_tininess_beforeRounding
                           \<or> e < -1 \<or> sig + ucast roundIncrement < 0x8000);
                 sig = ucast (softfloat_shiftRightJam32 (ucast sig) (word_of_int (- e)));
                 roundBits = ucast (sig AND 0xF) :: uint_fast8_t;
                 st = (if isTiny \<and> roundBits \<noteq> 0
                       then softfloat_raiseFlags softfloat_flag_underflow st else st)
             in softfloat_roundPackToF16_round sign 0 sig roundIncrement roundBits st
           else if 0x1D < e \<or> 0x8000 \<le> sig + ucast roundIncrement then
             (ucast (packToF16UI sign 0x1F 0 - of_bool (roundIncrement = 0)),
              softfloat_raiseFlags (softfloat_flag_overflow OR softfloat_flag_inexact) st)
           else softfloat_roundPackToF16_round sign e sig roundIncrement roundBits st
         else softfloat_roundPackToF16_round sign e sig roundIncrement roundBits st)"

definition softfloat_roundPackToF32_round ::
  "bool \<Rightarrow> int \<Rightarrow> uint_fast32_t \<Rightarrow> uint_fast8_t \<Rightarrow> uint_fast8_t \<Rightarrow> sf_state
   \<Rightarrow> float32_t \<times> sf_state" where
  "softfloat_roundPackToF32_round sign e sig roundIncrement roundBits st =
     (let roundingMode = softfloat_roundingMode st;
          roundNearEven = (roundingMode = softfloat_round_near_even);
          sig = drop_bit 7 (sig + ucast roundIncrement);
          st = (if roundBits \<noteq> 0 then softfloat_raiseFlags softfloat_flag_inexact st else st)
      in if roundBits \<noteq> 0 \<and> roundingMode = softfloat_round_odd
         then (ucast (packToF32UI sign e (sig OR 1)), st)
         else let sig = sig AND NOT (of_bool (roundBits XOR 0x40 = 0 \<and> roundNearEven));
                  e = (if sig = 0 then 0 else e)
              in (ucast (packToF32UI sign e sig), st))"

definition softfloat_roundPackToF32 ::
  "bool \<Rightarrow> int \<Rightarrow> uint_fast32_t \<Rightarrow> sf_state \<Rightarrow> float32_t \<times> sf_state" where
  "softfloat_roundPackToF32 sign e sig st =
     (let roundingMode = softfloat_roundingMode st;
          roundNearEven = (roundingMode = softfloat_round_near_even);
          roundIncrement =
            (if \<not> roundNearEven \<and> roundingMode \<noteq> softfloat_round_near_maxMag
             then if roundingMode = (if sign then softfloat_round_min else softfloat_round_max)
                  then 0x7F else 0
             else 0x40) :: uint_fast8_t;
          roundBits = ucast (sig AND 0x7F) :: uint_fast8_t
      in if 0xFD \<le> (word_of_int e :: 32 word) then
           if e < 0 then
             let isTiny = (softfloat_detectTininess st = softfloat_tininess_beforeRounding
                           \<or> e < -1 \<or> sig + ucast roundIncrement < 0x80000000);
                 sig = ucast (softfloat_shiftRightJam32 (ucast sig) (word_of_int (- e)));
                 roundBits = ucast (sig AND 0x7F) :: uint_fast8_t;
                 st = (if isTiny \<and> roundBits \<noteq> 0
                       then softfloat_raiseFlags softfloat_flag_underflow st else st)
             in softfloat_roundPackToF32_round sign 0 sig roundIncrement roundBits st
           else if 0xFD < e \<or> 0x80000000 \<le> sig + ucast roundIncrement then
             (ucast (packToF32UI sign 0xFF 0 - of_bool (roundIncrement = 0)),
              softfloat_raiseFlags (softfloat_flag_overflow OR softfloat_flag_inexact) st)
           else softfloat_roundPackToF32_round sign e sig roundIncrement roundBits st
         else softfloat_roundPackToF32_round sign e sig roundIncrement roundBits st)"

definition softfloat_roundPackToF64_round ::
  "bool \<Rightarrow> int \<Rightarrow> uint_fast64_t \<Rightarrow> uint_fast16_t \<Rightarrow> uint_fast16_t \<Rightarrow> sf_state
   \<Rightarrow> float64_t \<times> sf_state" where
  "softfloat_roundPackToF64_round sign e sig roundIncrement roundBits st =
     (let roundingMode = softfloat_roundingMode st;
          roundNearEven = (roundingMode = softfloat_round_near_even);
          sig = drop_bit 10 (sig + roundIncrement);
          st = (if roundBits \<noteq> 0 then softfloat_raiseFlags softfloat_flag_inexact st else st)
      in if roundBits \<noteq> 0 \<and> roundingMode = softfloat_round_odd
         then (packToF64UI sign e (sig OR 1), st)
         else let sig = sig AND NOT (of_bool (roundBits XOR 0x200 = 0 \<and> roundNearEven));
                  e = (if sig = 0 then 0 else e)
              in (packToF64UI sign e sig, st))"

definition softfloat_roundPackToF64 ::
  "bool \<Rightarrow> int \<Rightarrow> uint_fast64_t \<Rightarrow> sf_state \<Rightarrow> float64_t \<times> sf_state" where
  "softfloat_roundPackToF64 sign e sig st =
     (let roundingMode = softfloat_roundingMode st;
          roundNearEven = (roundingMode = softfloat_round_near_even);
          roundIncrement =
            (if \<not> roundNearEven \<and> roundingMode \<noteq> softfloat_round_near_maxMag
             then if roundingMode = (if sign then softfloat_round_min else softfloat_round_max)
                  then 0x3FF else 0
             else 0x200) :: uint_fast16_t;
          roundBits = (sig AND 0x3FF) :: uint_fast16_t
      in if 0x7FD \<le> (word_of_int e :: uint16_t) then
           if e < 0 then
             let isTiny = (softfloat_detectTininess st = softfloat_tininess_beforeRounding
                           \<or> e < -1 \<or> sig + roundIncrement < 0x8000000000000000);
                 sig = softfloat_shiftRightJam64 sig (word_of_int (- e));
                 roundBits = (sig AND 0x3FF) :: uint_fast16_t;
                 st = (if isTiny \<and> roundBits \<noteq> 0
                       then softfloat_raiseFlags softfloat_flag_underflow st else st)
             in softfloat_roundPackToF64_round sign 0 sig roundIncrement roundBits st
           else if 0x7FD < e \<or> 0x8000000000000000 \<le> sig + roundIncrement then
             (packToF64UI sign 0x7FF 0 - of_bool (roundIncrement = 0),
              softfloat_raiseFlags (softfloat_flag_overflow OR softfloat_flag_inexact) st)
           else softfloat_roundPackToF64_round sign e sig roundIncrement roundBits st
         else softfloat_roundPackToF64_round sign e sig roundIncrement roundBits st)"

section \<open>The common shape of the routines\<close>

text \<open>
  The three routines are one program over the format, the guard bits and the operations that differ
  (the test of the exponent through an unsigned cast, the jamming shift, the packing).  The locale
  states what those operations must do; its interpretations below discharge it for each routine.
\<close>

definition rp_code_inc :: "nat \<Rightarrow> uint_fast8_t \<Rightarrow> bool \<Rightarrow> uint64_t" where
  "rp_code_inc g roundingMode sign =
     (if roundingMode \<noteq> softfloat_round_near_even \<and> roundingMode \<noteq> softfloat_round_near_maxMag
      then if roundingMode = (if sign then softfloat_round_min else softfloat_round_max)
           then mask g else 0
      else 2 ^ (g - 1))"

definition rp_code_round ::
  "nat \<Rightarrow> (bool \<Rightarrow> int \<Rightarrow> uint64_t \<Rightarrow> 'w::len word) \<Rightarrow> bool \<Rightarrow> int \<Rightarrow> uint64_t \<Rightarrow> uint64_t \<Rightarrow> uint64_t
   \<Rightarrow> sf_state \<Rightarrow> 'w word \<times> sf_state" where
  "rp_code_round g pack sign e sig inc rb st =
     (let s = drop_bit g (sig + inc);
          st' = (if rb \<noteq> 0 then softfloat_raiseFlags softfloat_flag_inexact st else st)
      in if rb \<noteq> 0 \<and> softfloat_roundingMode st = softfloat_round_odd then (pack sign e (s OR 1), st')
         else let t = s AND NOT (of_bool (rb = 2 ^ (g - 1)
                         \<and> softfloat_roundingMode st = softfloat_round_near_even))
              in (pack sign (if t = 0 then 0 else e) t, st'))"

definition rp_code ::
  "nat \<Rightarrow> nat \<Rightarrow> nat \<Rightarrow> (int \<Rightarrow> bool) \<Rightarrow> (uint64_t \<Rightarrow> uint64_t \<Rightarrow> uint64_t)
   \<Rightarrow> (bool \<Rightarrow> int \<Rightarrow> uint64_t \<Rightarrow> 'w::len word) \<Rightarrow> (bool \<Rightarrow> bool \<Rightarrow> 'w word)
   \<Rightarrow> bool \<Rightarrow> int \<Rightarrow> uint64_t \<Rightarrow> sf_state \<Rightarrow> 'w word \<times> sf_state" where
  "rp_code fb eb g big shiftJam pack packInf sign e sig st =
     (let inc = rp_code_inc g (softfloat_roundingMode st) sign in
      if big e then
        if e < 0 then
          let sig' = shiftJam sig (word_of_int (- e));
              st' = (if (sf_before st \<or> e < -1 \<or> sig + inc < 2 ^ (fb + g + 1))
                        \<and> sig' AND mask g \<noteq> 0
                     then softfloat_raiseFlags softfloat_flag_underflow st else st)
          in rp_code_round g pack sign 0 sig' inc (sig' AND mask g) st'
        else if 2 ^ eb - 3 < e \<or> 2 ^ (fb + g + 1) \<le> sig + inc then
          (packInf sign (inc = 0),
           softfloat_raiseFlags (softfloat_flag_overflow OR softfloat_flag_inexact) st)
        else rp_code_round g pack sign e sig inc (sig AND mask g) st
      else rp_code_round g pack sign e sig inc (sig AND mask g) st)"

lemma unat_power2_word: "n < 64 \<Longrightarrow> unat (2 ^ n :: uint64_t) = 2 ^ n"
  using unat_push_bit [of n "1 :: uint64_t"] power_strict_increasing [of n 64 "2::nat"] by simp

lemma unat_rp_code_inc: "g < 64 \<Longrightarrow> unat (rp_code_inc g r sign) = rp_inc g (rmode_of r) sign"
  by (auto simp: rp_code_inc_def rp_inc_def rmode_of_iff unat_power2_word unat_mask)

locale roundpack_code = guarded_format +
  fixes big :: "int \<Rightarrow> bool" and shiftJam :: "uint64_t \<Rightarrow> uint64_t \<Rightarrow> uint64_t"
    and pack :: "bool \<Rightarrow> int \<Rightarrow> uint64_t \<Rightarrow> 'w::len word" and packInf :: "bool \<Rightarrow> bool \<Rightarrow> 'w word"
    and roundPack :: "bool \<Rightarrow> int \<Rightarrow> uint64_t \<Rightarrow> sf_state \<Rightarrow> 'w word \<times> sf_state"
  assumes width: "fb + g + 1 < 64"
    and code: "roundPack sign e sig st = rp_code fb eb g big shiftJam pack packInf sign e sig st"
    and big: "\<lbrakk>- (2 ^ 14) \<le> e; e < 2 ^ 14\<rbrakk> \<Longrightarrow> big e \<longleftrightarrow> e < 0 \<or> 2 ^ eb - 3 \<le> e"
    and shiftJam: "\<lbrakk>unat sig < 2 ^ (fb + g + 1); dst \<noteq> 0\<rbrakk>
      \<Longrightarrow> unat (shiftJam sig dst) = jam (unat dst) (unat sig)"
    and pack: "\<lbrakk>0 \<le> e; nat e * 2 ^ fb + unat sig < 2 ^ (fb + eb)\<rbrakk>
      \<Longrightarrow> pack sign e sig = fp_word fb eb sign (nat e * 2 ^ fb + unat sig)"
    and packInf: "packInf sign P = fp_word fb eb sign (fp_inf fb eb - of_bool P)"
begin

lemma unat_sum:
  assumes "unat sig < 2 ^ (fb + g + 1)"
  shows "unat (sig + rp_code_inc g r sign) = unat sig + rp_inc g (rmode_of r) sign"
proof -
  have "rp_inc g (rmode_of r) sign \<le> 2 ^ g" by (simp add: rp_inc_def)
  also have "\<dots> \<le> 2 ^ (fb + g + 1)" by (rule power_increasing) auto
  finally have "unat sig + rp_inc g (rmode_of r) sign < 2 * 2 ^ (fb + g + 1)" using assms by simp
  also have "\<dots> \<le> 2 ^ 64" using width power_increasing [of "fb + g + 2" 64 "2::nat"] by simp
  finally show ?thesis using width by (subst unat_add_less) (simp_all add: unat_rp_code_inc)
qed

lemma round_refines:
  assumes sig: "unat sig < 2 ^ (fb + g + 1)" and e: "0 \<le> e"
    and m: "m = sf_mode st"
    and lt: "nat e * 2 ^ fb + rp_shift g m sign (unat sig) < 2 ^ (fb + eb)"
    and z: "rp_shift g m sign (unat sig) = 0 \<Longrightarrow> e = 0"
  shows "rp_code_round g pack sign e sig (rp_code_inc g (softfloat_roundingMode st) sign)
      (sig AND mask g) st =
    (fp_word fb eb sign (nat e * 2 ^ fb + rp_shift g m sign (unat sig)),
     softfloat_raiseFlags (if unat sig mod 2 ^ g = 0 then 0 else softfloat_flag_inexact) st)"
proof -
  define s where "s = drop_bit g (sig + rp_code_inc g (softfloat_roundingMode st) sign)"
  define rb where "rb = sig AND mask g"
  have s: "unat s = (unat sig + rp_inc g m sign) div 2 ^ g"
    by (simp add: s_def unat_drop_bit unat_sum [OF sig] m)
  have rb: "unat rb = unat sig mod 2 ^ g" unfolding rb_def by (rule unat_and_mask)
  then have rb0: "rb = 0 \<longleftrightarrow> unat sig mod 2 ^ g = 0" by (metis unat_eq_0)
  have rbh: "rb = 2 ^ (g - 1) \<longleftrightarrow> unat sig mod 2 ^ g = 2 ^ (g - 1)"
    using width by (simp only: word_eq_unat rb) (simp add: unat_power2_word)
  show ?thesis
  proof (cases "unat sig mod 2 ^ g \<noteq> 0 \<and> m = ToOdd")
    case True
    then have "unat (s OR 1) = rp_shift g m sign (unat sig)"
      using unat_or_of_bool [of s True] by (simp add: rp_shift_def s Let_def)
    with True lt pack [OF e, of "s OR 1" sign] show ?thesis
      by (simp add: rp_code_round_def rb0 rmode_of_iff m Let_def flip: s_def rb_def)
  next
    case False
    define t where "t = s AND NOT (of_bool (rb = 2 ^ (g - 1) \<and> m = NearEven))"
    have t: "unat t = rp_shift g m sign (unat sig)"
      unfolding t_def unat_and_not_of_bool rbh s using False by (auto simp: rp_shift_def Let_def)
    moreover have "(if t = 0 then 0 else e) = e" using z t by (auto simp: word_eq_unat)
    ultimately show ?thesis
      unfolding rp_code_round_def Let_def s_def [symmetric] rb_def [symmetric] rb0 rmode_of_iff
        m [symmetric] t_def [symmetric]
      using False lt pack [OF e, of t sign] by auto
  qed
qed

lemma top_word: "unat (2 ^ (fb + g + 1) :: uint64_t) = 2 ^ (fb + g + 1)"
  using width by (intro unat_power2_word) simp

lemma refines_neg:
  assumes "e < 0" and e: "- (2 ^ 14) \<le> e" and sig: "unat sig < 2 ^ (fb + g + 1)"
    and gen: "gen_roundPack fb eb g (sf_mode st) (sf_before st) sign e (unat sig) = (u, f)"
  shows "roundPack sign e sig st = (fp_word fb eb sign u, softfloat_raiseFlags f st)"
proof -
  let ?m = "sf_mode st" and ?inc = "rp_code_inc g (softfloat_roundingMode st) sign"
  define dst :: uint64_t where "dst = word_of_int (- e)"
  define sig' where "sig' = shiftJam sig dst"
  define rb where "rb = sig' AND mask g"
  define tiny where "tiny \<longleftrightarrow> sf_before st \<or> e < -1 \<or> sig + ?inc < 2 ^ (fb + g + 1)"
  define st' where "st' = (if tiny \<and> rb \<noteq> 0
      then softfloat_raiseFlags softfloat_flag_underflow st else st)"
  have d: "unat dst = nat (- e)" unfolding dst_def using assms(1,2) by (intro unat_word_of_int) simp_all
  then have "dst \<noteq> 0" using assms(1) by (auto simp: word_eq_unat)
  then have s': "unat sig' = jam (nat (- e)) (unat sig)" by (simp add: sig'_def shiftJam [OF sig] d)
  have "unat sig < 2 ^ (fb + g + 1) * 2 ^ nat (- e)"
    using sig by (rule less_le_trans) simp
  then have lt': "unat sig' < 2 ^ (fb + g + 1)" unfolding s' by (rule jam_less) simp
  then have "rp_shift g ?m sign (unat sig') \<le> 2 ^ (fb + 1)"
    using g_ge by (intro rp_shift_bound) (simp_all add: power_add ac_simps)
  also have "\<dots> < 2 ^ (fb + eb)" using eb_ge by (intro power_strict_increasing) auto
  finally have small: "rp_shift g ?m sign (unat sig') < 2 ^ (fb + eb)" .
  have rb0: "rb = 0 \<longleftrightarrow> unat sig' mod 2 ^ g = 0" unfolding rb_def by (metis unat_and_mask unat_eq_0)
  have mode: "softfloat_roundingMode st' = softfloat_roundingMode st" by (simp add: st'_def)
  have "roundPack sign e sig st = rp_code_round g pack sign 0 sig' ?inc rb st'"
    using assms(1) big [of e] e
    unfolding code rp_code_def Let_def dst_def [symmetric] sig'_def [symmetric] rb_def [symmetric]
      tiny_def [symmetric] st'_def [symmetric] by simp
  also have "\<dots> = (fp_word fb eb sign (rp_shift g ?m sign (unat sig')),
      softfloat_raiseFlags (if unat sig' mod 2 ^ g = 0 then 0 else softfloat_flag_inexact) st')"
    using round_refines [of sig' 0 ?m st' sign] lt' small by (simp add: mode rb_def)
  finally have "roundPack sign e sig st = (fp_word fb eb sign (rp_shift g ?m sign (unat sig')),
      softfloat_raiseFlags (if unat sig' mod 2 ^ g = 0 then 0 else softfloat_flag_inexact) st')" .
  moreover have "tiny \<longleftrightarrow>
      sf_before st \<or> e < -1 \<or> unat sig + rp_inc g ?m sign < 2 ^ (fb + 1 + g)"
    unfolding tiny_def word_less_nat_alt top_word unat_sum [OF sig] by (simp add: ac_simps)
  ultimately show ?thesis
    using gen assms(1) by (auto simp: gen_roundPack_def st'_def rb0 Let_def ac_simps simp flip: s')
qed

lemma refines_nonneg:
  assumes e0: "0 \<le> e" and e: "e < 2 ^ 14"
    and norm: "2 ^ (fb + g) \<le> unat sig" "unat sig < 2 ^ (fb + g + 1)"
    and gen: "gen_roundPack fb eb g (sf_mode st) (sf_before st) sign e (unat sig) = (u, f)"
  shows "roundPack sign e sig st = (fp_word fb eb sign u, softfloat_raiseFlags f st)"
proof -
  let ?m = "sf_mode st" and ?inc = "rp_code_inc g (softfloat_roundingMode st) sign"
  let ?r = "rp_shift g ?m sign (unat sig)"
  let ?ovf = "2 ^ eb - 3 < e \<or> e = 2 ^ eb - 3 \<and> 2 ^ (fb + 1 + g) \<le> unat sig + rp_inc g ?m sign"
  have big': "big e \<longleftrightarrow> 2 ^ eb - 3 \<le> e" using big [of e] e0 e by simp
  have top: "2 ^ (fb + g + 1) \<le> sig + ?inc \<longleftrightarrow> 2 ^ (fb + g + 1) \<le> unat sig + rp_inc g ?m sign"
    by (simp only: word_le_nat_alt top_word unat_sum [OF norm(2)])
  show ?thesis
  proof (cases ?ovf)
    case True
    have "?inc = 0 \<longleftrightarrow> rp_inc g ?m sign = 0"
      using width by (metis unat_rp_code_inc unat_eq_0 add_lessD1 add.commute less_trans
          less_add_same_cancel1 zero_less_one add.assoc)
    with True gen e0 show ?thesis
      unfolding code rp_code_def Let_def big' top packInf by (auto simp: gen_roundPack_def ac_simps)
  next
    case False
    have r: "2 ^ fb \<le> ?r" "?r \<le> 2 ^ (fb + 1)"
      using norm rp_shift_ge_iff [of fb g ?m sign "unat sig"] fb_pos g_ge
      by (simp, intro rp_shift_bound) (simp_all add: power_add ac_simps)
    have "nat e * 2 ^ fb + ?r < fp_inf fb eb"
      using overflow_iff [OF e0 r] False rp_shift_ge_iff [of "fb + 1" g ?m sign "unat sig"] by auto
    also have "fp_inf fb eb < 2 ^ (fb + eb)" by (simp add: fp_inf_def power_add)
    finally have lt: "nat e * 2 ^ fb + ?r < 2 ^ (fb + eb)" .
    have "?r \<noteq> 0" using r(1) by (metis le_zero_eq power_not_zero zero_neq_numeral)
    then show ?thesis
      using False gen e0 round_refines [OF norm(2) e0 refl lt]
      unfolding code rp_code_def Let_def big' top by (auto simp: gen_roundPack_def ac_simps)
  qed
qed

end

sublocale roundpack_code \<subseteq> round_pack fb eb g roundPack
proof
  fix sig :: uint64_t and e st neg u f
  assume "2 ^ (fb + g) \<le> unat sig" "unat sig < 2 ^ (fb + g + 1)" "- (2 ^ 14) \<le> e" "e < 2 ^ 14"
    "gen_roundPack fb eb g (sf_mode st) (sf_before st) neg e (unat sig) = (u, f)"
  then show "roundPack neg e sig st = (fp_word fb eb neg u, softfloat_raiseFlags f st)"
    using refines_neg refines_nonneg by (cases "e < 0") auto
qed

section \<open>The three routines are correct roundings\<close>

lemma exp_cast:
  fixes k :: nat
  assumes "- (2 ^ 14) \<le> e" "e < 2 ^ 14" and "16 \<le> LENGTH('a)" and "k < 2 ^ 14"
  shows "of_nat k \<le> (word_of_int e :: 'a::len word) \<longleftrightarrow> e < 0 \<or> int k \<le> e"
proof -
  have L: "(2::int) ^ 16 \<le> 2 ^ LENGTH('a)" "(2::nat) ^ 16 \<le> 2 ^ LENGTH('a)"
    using power_increasing [OF assms(3), of "2::int"] power_increasing [OF assms(3), of "2::nat"]
    by simp_all
  have k: "unat (of_nat k :: 'a word) = k" using assms(4) L by (simp add: unat_of_nat)
  show ?thesis
  proof (cases "e < 0")
    case True
    then have "unat (word_of_int e :: 'a word) = nat (e + 2 ^ LENGTH('a))"
      using assms(1) L by (intro unat_word_of_int_neg) auto
    with True assms L show ?thesis by (auto simp: word_le_nat_alt k)
  next
    case False
    then have "unat (word_of_int e :: 'a word) = nat e"
      using assms(2) L by (intro unat_word_of_int) auto
    with False show ?thesis by (auto simp: word_le_nat_alt k)
  qed
qed

text \<open>The 8-bit increments and round bits of the narrow formats, seen at 64 bits.\<close>

lemma ucast_u8_eq_iff: "(ucast (v :: uint_fast8_t) :: uint64_t) = ucast w \<longleftrightarrow> v = w"
  by (simp add: word_eq_unat)

lemma ucast_u8_eq_0 [simp]: "(ucast (w :: uint_fast8_t) :: uint64_t) = 0 \<longleftrightarrow> w = 0"
  using ucast_u8_eq_iff [of w 0] by simp

lemma ucast_ucast_and_mask:
  "k \<le> 8 \<Longrightarrow> (ucast (ucast (sig AND mask k) :: uint_fast8_t) :: uint64_t) = sig AND mask k"
  for sig :: uint64_t
  by (rule bit_word_eqI) (auto simp: bit_simps)

lemma F16_round_code:
  "softfloat_roundPackToF16_round sign e sig inc rb st =
   rp_code_round 4 (\<lambda>sign e sig. ucast (packToF16UI sign e sig)) sign e sig (ucast inc) (ucast rb) st"
  using ucast_u8_eq_iff [of rb 8]
  by (simp add: softfloat_roundPackToF16_round_def rp_code_round_def xor_eq_0_iff Let_def)

lemma F32_round_code:
  "softfloat_roundPackToF32_round sign e sig inc rb st =
   rp_code_round 7 (\<lambda>sign e sig. ucast (packToF32UI sign e sig)) sign e sig (ucast inc) (ucast rb) st"
  using ucast_u8_eq_iff [of rb 64]
  by (simp add: softfloat_roundPackToF32_round_def rp_code_round_def xor_eq_0_iff Let_def)

lemma F64_round_code:
  "softfloat_roundPackToF64_round sign e sig inc rb st =
   rp_code_round 10 packToF64UI sign e sig inc rb st"
  by (simp add: softfloat_roundPackToF64_round_def rp_code_round_def xor_eq_0_iff Let_def)

lemma F16_code:
  "softfloat_roundPackToF16 sign e sig st =
   rp_code 10 5 4 (\<lambda>e. 0x1D \<le> (word_of_int e :: 32 word))
     (\<lambda>s d. ucast (softfloat_shiftRightJam32 (ucast s) d))
     (\<lambda>sign e sig. ucast (packToF16UI sign e sig))
     (\<lambda>sign P. ucast (packToF16UI sign 0x1F 0 - of_bool P)) sign e sig st"
proof -
  have m: "mask 4 = (0xF :: uint64_t)" by (simp add: mask_eq_exp_minus_1)
  note rb = ucast_ucast_and_mask [of 4, simplified, unfolded m]
  have rb0: "(ucast (w AND 0xF) :: uint_fast8_t) = 0 \<longleftrightarrow> w AND 0xF = 0" for w :: uint64_t
    using ucast_u8_eq_0 [of "ucast (w AND 0xF)"] by (simp only: rb)
  define inc :: uint_fast8_t where "inc =
    (if softfloat_roundingMode st \<noteq> softfloat_round_near_even
        \<and> softfloat_roundingMode st \<noteq> softfloat_round_near_maxMag
     then if softfloat_roundingMode st = (if sign then softfloat_round_min else softfloat_round_max)
          then 0xF else 0 else 0x8)"
  have "rp_code_inc 4 (softfloat_roundingMode st) sign = ucast inc"
    by (simp add: rp_code_inc_def inc_def m)
  then show ?thesis
    unfolding softfloat_roundPackToF16_def rp_code_def Let_def F16_round_code rb rb0 m
      inc_def [symmetric] by simp
qed

lemma F32_code:
  "softfloat_roundPackToF32 sign e sig st =
   rp_code 23 8 7 (\<lambda>e. 0xFD \<le> (word_of_int e :: 32 word))
     (\<lambda>s d. ucast (softfloat_shiftRightJam32 (ucast s) d))
     (\<lambda>sign e sig. ucast (packToF32UI sign e sig))
     (\<lambda>sign P. ucast (packToF32UI sign 0xFF 0 - of_bool P)) sign e sig st"
proof -
  have m: "mask 7 = (0x7F :: uint64_t)" by (simp add: mask_eq_exp_minus_1)
  note rb = ucast_ucast_and_mask [of 7, simplified, unfolded m]
  have rb0: "(ucast (w AND 0x7F) :: uint_fast8_t) = 0 \<longleftrightarrow> w AND 0x7F = 0" for w :: uint64_t
    using ucast_u8_eq_0 [of "ucast (w AND 0x7F)"] by (simp only: rb)
  define inc :: uint_fast8_t where "inc =
    (if softfloat_roundingMode st \<noteq> softfloat_round_near_even
        \<and> softfloat_roundingMode st \<noteq> softfloat_round_near_maxMag
     then if softfloat_roundingMode st = (if sign then softfloat_round_min else softfloat_round_max)
          then 0x7F else 0 else 0x40)"
  have "rp_code_inc 7 (softfloat_roundingMode st) sign = ucast inc"
    by (simp add: rp_code_inc_def inc_def m)
  then show ?thesis
    unfolding softfloat_roundPackToF32_def rp_code_def Let_def F32_round_code rb rb0 m
      inc_def [symmetric] by simp
qed

lemma F64_code:
  "softfloat_roundPackToF64 sign e sig st =
   rp_code 52 11 10 (\<lambda>e. 0x7FD \<le> (word_of_int e :: uint16_t)) softfloat_shiftRightJam64 packToF64UI
     (\<lambda>sign P. packToF64UI sign 0x7FF 0 - of_bool P) sign e sig st"
proof -
  have m: "mask 10 = (0x3FF :: uint64_t)" by (simp add: mask_eq_exp_minus_1)
  show ?thesis
    unfolding softfloat_roundPackToF64_def rp_code_def Let_def F64_round_code m rp_code_inc_def by simp
qed

interpretation rp16: roundpack_code 10 5 4 "\<lambda>e. 0x1D \<le> (word_of_int e :: 32 word)"
  "\<lambda>s d. ucast (softfloat_shiftRightJam32 (ucast s) d)" "\<lambda>sign e sig. ucast (packToF16UI sign e sig)"
  "\<lambda>sign P. ucast (packToF16UI sign 0x1F 0 - of_bool P)" softfloat_roundPackToF16
proof (unfold_locales, goal_cases)
  case (5 sign e sig st)
  show ?case by (rule F16_code)
next
  case (6 e)
  then show ?case using exp_cast [where 'a=32, of e 29] by simp
next
  case (7 sig dst)
  then show ?case by (simp add: unat_shiftRightJam32 unat_ucast_less)
next
  case (8 e sig sign)
  then show ?case by (intro packToF16UI_fp_word) auto
next
  case (9 sign P)
  show ?case by (cases sign; cases P) (simp_all add: packToF16UI_def fp_word_def fp_inf_def)
qed simp_all

interpretation rp32: roundpack_code 23 8 7 "\<lambda>e. 0xFD \<le> (word_of_int e :: 32 word)"
  "\<lambda>s d. ucast (softfloat_shiftRightJam32 (ucast s) d)" "\<lambda>sign e sig. ucast (packToF32UI sign e sig)"
  "\<lambda>sign P. ucast (packToF32UI sign 0xFF 0 - of_bool P)" softfloat_roundPackToF32
proof (unfold_locales, goal_cases)
  case (5 sign e sig st)
  show ?case by (rule F32_code)
next
  case (6 e)
  then show ?case using exp_cast [where 'a=32, of e 253] by simp
next
  case (7 sig dst)
  then show ?case by (simp add: unat_shiftRightJam32 unat_ucast_less)
next
  case (8 e sig sign)
  then show ?case by (intro packToF32UI_fp_word) auto
next
  case (9 sign P)
  show ?case by (cases sign; cases P) (simp_all add: packToF32UI_def fp_word_def fp_inf_def)
qed simp_all

interpretation rp64: roundpack_code 52 11 10 "\<lambda>e. 0x7FD \<le> (word_of_int e :: uint16_t)"
  softfloat_shiftRightJam64 packToF64UI "\<lambda>sign P. packToF64UI sign 0x7FF 0 - of_bool P"
  softfloat_roundPackToF64
proof (unfold_locales, goal_cases)
  case (5 sign e sig st)
  show ?case by (rule F64_code)
next
  case (6 e)
  then show ?case using exp_cast [where 'a=16, of e 2045] by simp
next
  case (7 sig dst)
  then show ?case by (simp add: unat_shiftRightJam64)
next
  case (8 e sig sign)
  then show ?case by (intro packToF64UI_fp_word) auto
next
  case (9 sign P)
  show ?case by (cases sign; cases P) (simp_all add: packToF64UI_def fp_word_def fp_inf_def)
qed simp_all

section \<open>Properties\<close>

text \<open>
  C4. \<^verbatim>\<open>softfloat_roundPackToF64\<close> rounds correctly.  The significand is normalised and carries 10
  guard bits; it may differ from the exact significand \<open>y\<close> in a sticky bit, as long as both lie in
  the same open interval between half units of the last place.  The result is the pattern and the
  exceptions that IEEE 754 prescribes for the number \<open>x\<close>, subnormal and overflowing results included.
\<close>

theorem roundPackToF64_correctly_rounded:
  assumes "2 ^ 62 \<le> unat sig" "unat sig < 2 ^ 63" and "- (2 ^ 14) \<le> e" "e < 2 ^ 14"
    and "same_cell (y / 2 ^ 9) (real (unat sig) / 2 ^ 9)"
    and "x = y * pw2 (e + fp_qmin 52 11 - 10)"
  shows "softfloat_roundPackToF64 sign e sig st = fp_result 52 11 sign x st"
  using assms by (intro rp64.correct [of sig e y x]) simp_all

theorem roundPackToF64_correctly_rounded_witness:
  "softfloat_roundPackToF64 True (-3) (2 ^ 62 + 1) softfloat_init =
     fp_result 52 11 True ((2 ^ 62 + 1) * pw2 (- 3 + fp_qmin 52 11 - 10)) softfloat_init"
  by (rule roundPackToF64_correctly_rounded [where y = "2 ^ 62 + 1"]) simp_all

text \<open>
  \<^verbatim>\<open>softfloat_roundPackToF32\<close> rounds correctly.  The significand is normalised and carries 7
  guard bits; it may differ from the exact significand \<open>y\<close> in a sticky bit, as long as both lie in
  the same open interval between half units of the last place.  The result is the pattern and the
  exceptions that IEEE 754 prescribes for the number \<open>x\<close>, subnormal and overflowing results included.
\<close>

lemma roundPackToF32_correctly_rounded:
  assumes "2 ^ 30 \<le> unat sig" "unat sig < 2 ^ 31" and "- (2 ^ 14) \<le> e" "e < 2 ^ 14"
    and "same_cell (y / 2 ^ 6) (real (unat sig) / 2 ^ 6)"
    and "x = y * pw2 (e + fp_qmin 23 8 - 7)"
  shows "softfloat_roundPackToF32 sign e sig st = fp_result 23 8 sign x st"
  using assms by (intro rp32.correct [of sig e y x]) simp_all

text \<open>
  \<^verbatim>\<open>softfloat_roundPackToF16\<close> rounds correctly.  The significand is normalised and carries 4
  guard bits; it may differ from the exact significand \<open>y\<close> in a sticky bit, as long as both lie in
  the same open interval between half units of the last place.  The result is the pattern and the
  exceptions that IEEE 754 prescribes for the number \<open>x\<close>, subnormal and overflowing results included.
\<close>

lemma roundPackToF16_correctly_rounded:
  assumes "2 ^ 14 \<le> unat sig" "unat sig < 2 ^ 15" and "- (2 ^ 14) \<le> e" "e < 2 ^ 14"
    and "same_cell (y / 2 ^ 3) (real (unat sig) / 2 ^ 3)"
    and "x = y * pw2 (e + fp_qmin 10 5 - 4)"
  shows "softfloat_roundPackToF16 sign e sig st = fp_result 10 5 sign x st"
  using assms by (intro rp16.correct [of sig e y x]) simp_all

end
