(* ===== verification/SF_Norm.thy ===== *)
theory SF_Norm
  imports SF_RoundPack
begin

text \<open>
  Normalisation: \<^verbatim>\<open>s_normSubnormalF*Sig.c\<close> shifts a subnormal fraction up to the position of the
  hidden bit, \<^verbatim>\<open>s_normRoundPackToF*.c\<close> shifts a significand up before rounding it.  The block
  that most operations start with (\<^verbatim>\<open>if ( ! expA ) { if ( ! sigA ) goto zero; \<dots> }\<close>) is
  \<open>normArgF*\<close>; it yields \<open>None\<close> for the jump.
\<close>

section \<open>The routines\<close>

definition softfloat_normSubnormalF16Sig :: "uint_fast16_t \<Rightarrow> int \<times> uint_fast16_t" where
  "softfloat_normSubnormalF16Sig sig =
     (let shiftDist = int (softfloat_countLeadingZeros16 (ucast sig)) - 5
      in (1 - shiftDist, push_bit (nat shiftDist) sig))"

definition softfloat_normSubnormalF32Sig :: "uint_fast32_t \<Rightarrow> int \<times> uint_fast32_t" where
  "softfloat_normSubnormalF32Sig sig =
     (let shiftDist = int (softfloat_countLeadingZeros32 (ucast sig)) - 8
      in (1 - shiftDist, push_bit (nat shiftDist) sig))"

definition softfloat_normSubnormalF64Sig :: "uint_fast64_t \<Rightarrow> int \<times> uint_fast64_t" where
  "softfloat_normSubnormalF64Sig sig =
     (let shiftDist = int (softfloat_countLeadingZeros64 sig) - 11
      in (1 - shiftDist, push_bit (nat shiftDist) sig))"

definition normArgF16 :: "int \<Rightarrow> uint_fast16_t \<Rightarrow> (int \<times> uint_fast16_t) option" where
  "normArgF16 expA sigA =
     (if expA = 0 then if sigA = 0 then None else Some (softfloat_normSubnormalF16Sig sigA)
      else Some (expA, sigA))"

definition normArgF32 :: "int \<Rightarrow> uint_fast32_t \<Rightarrow> (int \<times> uint_fast32_t) option" where
  "normArgF32 expA sigA =
     (if expA = 0 then if sigA = 0 then None else Some (softfloat_normSubnormalF32Sig sigA)
      else Some (expA, sigA))"

definition normArgF64 :: "int \<Rightarrow> uint_fast64_t \<Rightarrow> (int \<times> uint_fast64_t) option" where
  "normArgF64 expA sigA =
     (if expA = 0 then if sigA = 0 then None else Some (softfloat_normSubnormalF64Sig sigA)
      else Some (expA, sigA))"

definition softfloat_normRoundPackToF16 ::
  "bool \<Rightarrow> int \<Rightarrow> uint_fast16_t \<Rightarrow> sf_state \<Rightarrow> float16_t \<times> sf_state" where
  "softfloat_normRoundPackToF16 sign e sig st =
     (let shiftDist = int (softfloat_countLeadingZeros16 (ucast sig)) - 1;
          e = e - shiftDist
      in if 4 \<le> shiftDist \<and> (word_of_int e :: 32 word) < 0x1D
         then (ucast (packToF16UI sign (if sig \<noteq> 0 then e else 0) (push_bit (nat (shiftDist - 4)) sig)), st)
         else softfloat_roundPackToF16 sign e (push_bit (nat shiftDist) sig) st)"

definition softfloat_normRoundPackToF32 ::
  "bool \<Rightarrow> int \<Rightarrow> uint_fast32_t \<Rightarrow> sf_state \<Rightarrow> float32_t \<times> sf_state" where
  "softfloat_normRoundPackToF32 sign e sig st =
     (let shiftDist = int (softfloat_countLeadingZeros32 (ucast sig)) - 1;
          e = e - shiftDist
      in if 7 \<le> shiftDist \<and> (word_of_int e :: 32 word) < 0xFD
         then (ucast (packToF32UI sign (if sig \<noteq> 0 then e else 0) (push_bit (nat (shiftDist - 7)) sig)), st)
         else softfloat_roundPackToF32 sign e (push_bit (nat shiftDist) sig) st)"

definition softfloat_normRoundPackToF64 ::
  "bool \<Rightarrow> int \<Rightarrow> uint_fast64_t \<Rightarrow> sf_state \<Rightarrow> float64_t \<times> sf_state" where
  "softfloat_normRoundPackToF64 sign e sig st =
     (let shiftDist = int (softfloat_countLeadingZeros64 sig) - 1;
          e = e - shiftDist
      in if 10 \<le> shiftDist \<and> (word_of_int e :: 32 word) < 0x7FD
         then (packToF64UI sign (if sig \<noteq> 0 then e else 0) (push_bit (nat (shiftDist - 10)) sig), st)
         else softfloat_roundPackToF64 sign e (push_bit (nat shiftDist) sig) st)"

section \<open>Unpacked operands\<close>

text \<open>
  \<open>unpacked fb eb e s u\<close>: the magnitude pattern \<open>u\<close> has the value of the significand \<open>s\<close>, hidden
  bit included, with the biased exponent \<open>e\<close>, which may be zero or negative for a subnormal.
\<close>

definition unpacked :: "nat \<Rightarrow> nat \<Rightarrow> int \<Rightarrow> nat \<Rightarrow> nat \<Rightarrow> bool" where
  "unpacked fb eb e s u \<longleftrightarrow>
     2 ^ fb \<le> s \<and> s < 2 ^ (fb + 1) \<and> 1 - int fb \<le> e \<and> e < 2 ^ eb - 1 \<and>
     fp_mag fb eb u = real s * pw2 (fp_qmin fb eb + e - 1)"

lemma nat_or_hidden: "n < 2 ^ (k + 1) \<Longrightarrow> n OR 2 ^ k = n mod 2 ^ k + (2 ^ k :: nat)"
proof -
  assume n: "n < 2 ^ (k + 1)"
  define r where "r = n mod 2 ^ k"
  have r: "r < 2 ^ k" by (simp add: r_def)
  have h: "r + 2 ^ k = 2 ^ k OR r" using or_disjoint_nat [OF r, of 1] by simp
  have "n div 2 ^ k < 2" using n by (simp add: less_mult_imp_div_less)
  then consider "n div 2 ^ k = 0" | "n div 2 ^ k = 1" by linarith
  then show ?thesis
  proof cases
    case 1
    then have "n = r" by (simp add: r_def div_eq_0_iff)
    then show ?thesis unfolding r_def [symmetric] using h by (simp add: or.commute)
  next
    case 2
    then have "n = r + 2 ^ k" using div_mult_mod_eq [of n "2 ^ k"] by (simp add: r_def)
    then show ?thesis unfolding r_def [symmetric] using h by (metis or.assoc or.commute or.idem)
  qed
qed

lemma unpacked_normal:
  assumes "0 < E" and "E < 2 ^ eb - 1" and "F < 2 ^ fb"
  shows "unpacked fb eb (int E) (F + 2 ^ fb) (E * 2 ^ fb + F)"
proof -
  have "int E < int (2 ^ eb - 1)" using assms(2) by (simp only: of_nat_less_iff)
  then show ?thesis
    using assms by (simp add: unpacked_def fp_mag_def Let_def of_nat_diff algebra_simps)
qed

lemma unpacked_subnormal:
  assumes "0 < F" and "F < 2 ^ fb" and "2 ^ fb \<le> F * 2 ^ k" and "F * 2 ^ k < 2 ^ (fb + 1)"
    and "2 \<le> eb"
  shows "unpacked fb eb (1 - int k) (F * 2 ^ k) F"
proof -
  have "2 ^ k \<le> F * 2 ^ k" using assms(1) by simp
  then have "(2::nat) ^ k < 2 ^ (fb + 1)" using assms(4) by linarith
  then have "k \<le> fb" using power_less_imp_less_exp [of "2::nat" k "fb + 1"] by simp
  moreover have "real (F * 2 ^ k) * pw2 (fp_qmin fb eb + (1 - int k) - 1) = real F * pw2 (fp_qmin fb eb)"
    by (simp add: pw2_diff)
  moreover have "(2::int) ^ 2 \<le> 2 ^ eb" using assms(5) by (intro power_increasing) auto
  ultimately show ?thesis using assms by (auto simp: unpacked_def fp_mag_def Let_def)
qed

text \<open>The shift distance of a subnormal fraction, from its leading-zero count.\<close>

lemma clz_subnormal:
  assumes "is_clz w F c" and "0 < F" and "F < 2 ^ fb" and "w = fb + 1 + off"
  shows "off < c" and "2 ^ fb \<le> F * 2 ^ (c - off)" and "F * 2 ^ (c - off) < 2 ^ (fb + 1)"
proof -
  have b: "2 ^ (fb + off) \<le> F * 2 ^ c" "F * 2 ^ c < 2 ^ (fb + 1 + off)"
    using assms by (simp_all add: is_clz_def)
  show "off < c"
  proof (rule ccontr)
    assume "\<not> off < c"
    then have "F * 2 ^ c \<le> F * 2 ^ off" by simp
    also have "\<dots> < 2 ^ fb * 2 ^ off" using assms(3) by simp
    finally show False using b(1) by (simp add: power_add)
  qed
  then have "(2::nat) ^ c = 2 ^ (c - off) * 2 ^ off" by (simp flip: power_add)
  with b show "2 ^ fb \<le> F * 2 ^ (c - off)" and "F * 2 ^ (c - off) < 2 ^ (fb + 1)"
    by (simp_all add: power_add)
qed

lemma unpacked_hidden:
  assumes "unpacked fb eb e s u"
  shows "s OR 2 ^ fb = s"
proof -
  have "s < 2 ^ (fb + 1)" "2 ^ fb \<le> s" using assms by (simp_all add: unpacked_def)
  moreover have "s div 2 ^ fb = 1" using calculation by (intro div_nat_eqI) auto
  ultimately show ?thesis
    using nat_or_hidden [of s fb] div_mult_mod_eq [of s "2 ^ fb"] by simp
qed

text \<open>\<open>normArg\<close> yields an unpacked operand.\<close>

lemma normArgF16_unpacked:
  fixes sig :: uint64_t
  assumes "u = E * 2 ^ 10 + unat sig" and "unat sig < 2 ^ 10" and "E < 2 ^ 5 - 1" and "u \<noteq> 0"
  shows "\<exists>e s. normArgF16 (int E) sig = Some (e, s) \<and> unpacked 10 5 e (unat (s OR 0x0400)) u"
proof (cases "E = 0")
  case False
  have "unat (sig OR 0x0400) = unat sig + 2 ^ 10"
    using assms(2) nat_or_hidden [of "unat sig" 10] by (simp add: unat_or)
  moreover have "unpacked 10 5 (int E) (unat sig + 2 ^ 10) u"
    unfolding assms(1) using False assms(2,3) by (intro unpacked_normal) auto
  ultimately show ?thesis using False by (simp add: normArgF16_def)
next
  case True
  then have u: "u = unat sig" "0 < unat sig" using assms by auto
  define c where "c = softfloat_countLeadingZeros16 (ucast sig)"
  have "is_clz 16 (unat sig) c"
    using countLeadingZeros16_correct [of "ucast sig"] assms(2) by (simp add: c_def unat_ucast_less)
  note c = clz_subnormal [OF this u(2) assms(2), of 5, simplified]
  have sh: "unat (push_bit (c - 5) sig) = unat sig * 2 ^ (c - 5)"
    using c(3) by (intro unat_push_bit_less) simp
  have "unpacked 10 5 (1 - int (c - 5)) (unat sig * 2 ^ (c - 5)) u"
    unfolding u(1) using c(2,3) u(2) assms(2) by (intro unpacked_subnormal) simp_all
  moreover from unpacked_hidden [OF this]
  have "unat (push_bit (c - 5) sig OR 0x0400) = unat sig * 2 ^ (c - 5)"
    by (simp add: unat_or sh)
  moreover have "normArgF16 (int E) sig = Some (1 - int (c - 5), push_bit (c - 5) sig)"
    using True u(2) c(1)
    by (simp add: normArgF16_def softfloat_normSubnormalF16Sig_def Let_def c_def [symmetric]
        unat_gt_0 nat_diff_distrib of_nat_diff)
  ultimately show ?thesis by simp
qed

lemma normArgF32_unpacked:
  fixes sig :: uint64_t
  assumes "u = E * 2 ^ 23 + unat sig" and "unat sig < 2 ^ 23" and "E < 2 ^ 8 - 1" and "u \<noteq> 0"
  shows "\<exists>e s. normArgF32 (int E) sig = Some (e, s) \<and> unpacked 23 8 e (unat (s OR 0x00800000)) u"
proof (cases "E = 0")
  case False
  have "unat (sig OR 0x00800000) = unat sig + 2 ^ 23"
    using assms(2) nat_or_hidden [of "unat sig" 23] by (simp add: unat_or)
  moreover have "unpacked 23 8 (int E) (unat sig + 2 ^ 23) u"
    unfolding assms(1) using False assms(2,3) by (intro unpacked_normal) auto
  ultimately show ?thesis using False by (simp add: normArgF32_def)
next
  case True
  then have u: "u = unat sig" "0 < unat sig" using assms by auto
  define c where "c = softfloat_countLeadingZeros32 (ucast sig)"
  have "is_clz 32 (unat sig) c"
    using countLeadingZeros32_correct [of "ucast sig"] assms(2) by (simp add: c_def unat_ucast_less)
  note c = clz_subnormal [OF this u(2) assms(2), of 8, simplified]
  have sh: "unat (push_bit (c - 8) sig) = unat sig * 2 ^ (c - 8)"
    using c(3) by (intro unat_push_bit_less) simp
  have "unpacked 23 8 (1 - int (c - 8)) (unat sig * 2 ^ (c - 8)) u"
    unfolding u(1) using c(2,3) u(2) assms(2) by (intro unpacked_subnormal) simp_all
  moreover from unpacked_hidden [OF this]
  have "unat (push_bit (c - 8) sig OR 0x00800000) = unat sig * 2 ^ (c - 8)"
    by (simp add: unat_or sh)
  moreover have "normArgF32 (int E) sig = Some (1 - int (c - 8), push_bit (c - 8) sig)"
    using True u(2) c(1)
    by (simp add: normArgF32_def softfloat_normSubnormalF32Sig_def Let_def c_def [symmetric]
        unat_gt_0 nat_diff_distrib of_nat_diff)
  ultimately show ?thesis by simp
qed

lemma normArgF64_unpacked:
  fixes sig :: uint64_t
  assumes "u = E * 2 ^ 52 + unat sig" and "unat sig < 2 ^ 52" and "E < 2 ^ 11 - 1" and "u \<noteq> 0"
  shows "\<exists>e s. normArgF64 (int E) sig = Some (e, s) \<and> unpacked 52 11 e (unat (s OR 0x0010000000000000)) u"
proof (cases "E = 0")
  case False
  have "unat (sig OR 0x0010000000000000) = unat sig + 2 ^ 52"
    using assms(2) nat_or_hidden [of "unat sig" 52] by (simp add: unat_or)
  moreover have "unpacked 52 11 (int E) (unat sig + 2 ^ 52) u"
    unfolding assms(1) using False assms(2,3) by (intro unpacked_normal) auto
  ultimately show ?thesis using False by (simp add: normArgF64_def)
next
  case True
  then have u: "u = unat sig" "0 < unat sig" using assms by auto
  define c where "c = softfloat_countLeadingZeros64 (sig)"
  have "is_clz 64 (unat sig) c"
    using countLeadingZeros64_correct [of "sig"] assms(2) by (simp add: c_def unat_ucast_less)
  note c = clz_subnormal [OF this u(2) assms(2), of 11, simplified]
  have sh: "unat (push_bit (c - 11) sig) = unat sig * 2 ^ (c - 11)"
    using c(3) by (intro unat_push_bit_less) simp
  have "unpacked 52 11 (1 - int (c - 11)) (unat sig * 2 ^ (c - 11)) u"
    unfolding u(1) using c(2,3) u(2) assms(2) by (intro unpacked_subnormal) simp_all
  moreover from unpacked_hidden [OF this]
  have "unat (push_bit (c - 11) sig OR 0x0010000000000000) = unat sig * 2 ^ (c - 11)"
    by (simp add: unat_or sh)
  moreover have "normArgF64 (int E) sig = Some (1 - int (c - 11), push_bit (c - 11) sig)"
    using True u(2) c(1)
    by (simp add: normArgF64_def softfloat_normSubnormalF64Sig_def Let_def c_def [symmetric]
        unat_gt_0 nat_diff_distrib of_nat_diff)
  ultimately show ?thesis by simp
qed

end
