(* ===== verification/SF_Interface.thy ===== *)
theory SF_Interface
  imports SF_Norm
begin

text \<open>
  The interface between the routines on the fields of a format and the operations built on them.
  The operations of the three formats are the same program over these routines, so the record
  \<open>sf_ops\<close> collects them, the locale \<open>sf_format\<close> states what each of them promises, and the
  interpretations at the end discharge the promises for binary16, binary32 and binary64.  The
  clients (multiplication, addition, comparison, conversion) are proved once, inside the locale.
\<close>

section \<open>Exact results\<close>

text \<open>The value of a pattern, from the exponent one lower and the significand with its hidden bit.\<close>

lemma mag_packed:
  assumes "s < 2 ^ (fb + 1)" and "e = 0 \<or> 2 ^ fb \<le> s"
  shows "fp_mag fb eb (e * 2 ^ fb + s) = real s * pw2 (fp_qmin fb eb + int e)"
proof (cases "s < 2 ^ fb")
  case True
  then show ?thesis using assms(2) by (simp add: fp_mag_def)
next
  case False
  define F where "F = s - 2 ^ fb"
  have F: "s = F + 2 ^ fb" "F < 2 ^ fb" using False assms(1) by (simp_all add: F_def)
  have "(e * 2 ^ fb + s) div 2 ^ fb = Suc e" "(e * 2 ^ fb + s) mod 2 ^ fb = F"
    using F(2) by (simp_all add: F(1) flip: add.assoc)
  then show ?thesis by (simp add: fp_mag_def F(1))
qed

text \<open>A number of the format rounds to itself, in every mode and without an exception.\<close>

context float_format
begin

lemma mag_quantum:
  assumes "u \<noteq> 0"
  shows "0 < fp_mag fb eb u"
    and "\<exists>n. fp_mag fb eb u / pw2 (fp_quantum fb eb (fp_mag fb eb u)) = real n \<and>
      (fp_quantum fb eb (fp_mag fb eb u) - fp_qmin fb eb) * 2 ^ fb + int n = int u"
proof -
  let ?q = "fp_qmin fb eb"
  define E F where "E = u div 2 ^ fb" and "F = u mod 2 ^ fb"
  have u: "u = E * 2 ^ fb + F" by (simp only: E_def F_def div_mult_mod_eq)
  have "F < 2 ^ fb" by (simp add: F_def)
  then have "real F < real (2 ^ fb)" by (simp only: of_nat_less_iff)
  then have F: "real F < 2 ^ fb" by simp
  have "0 < fp_mag fb eb u \<and> (\<exists>n. fp_mag fb eb u / pw2 (fp_quantum fb eb (fp_mag fb eb u)) = real n \<and>
      (fp_quantum fb eb (fp_mag fb eb u) - ?q) * 2 ^ fb + int n = int u)"
  proof (cases "E = 0")
    case True
    have m: "fp_mag fb eb u = real F * pw2 ?q" using True by (simp add: fp_mag_def E_def F_def)
    have "0 < F" using True u assms by simp
    then have pos: "0 < fp_mag fb eb u" by (simp add: m)
    have "real F < 2 ^ fb * 2" using F by (rule less_le_trans) simp
    then have "real F < 2 ^ (fb + 1)" by simp
    then have "fp_mag fb eb u < 2 ^ (fb + 1) * pw2 ?q" unfolding m by (intro mult_strict_right_mono) auto
    with pos have "fp_quantum fb eb (fp_mag fb eb u) = ?q" by (rule quantum_small)
    then have "fp_mag fb eb u / pw2 (fp_quantum fb eb (fp_mag fb eb u)) = real F" by (simp add: m)
    with pos True u \<open>fp_quantum fb eb (fp_mag fb eb u) = ?q\<close> show ?thesis by auto
  next
    case False
    let ?k = "?q + int E - 1"
    have m: "fp_mag fb eb u = (2 ^ fb + real F) * pw2 ?k"
      using False by (simp add: fp_mag_def E_def F_def Let_def)
    have "0 < (2::real) ^ fb + real F" by (simp add: add_pos_nonneg)
    then have pos: "0 < fp_mag fb eb u" by (simp add: m)
    have quantum: "fp_quantum fb eb (fp_mag fb eb u) = ?k"
    proof (rule quantum_eqI)
      show "?q \<le> ?k" using False by simp
      show "2 ^ fb * pw2 ?k \<le> fp_mag fb eb u" unfolding m by (intro mult_right_mono) auto
      show "fp_mag fb eb u < 2 ^ (fb + 1) * pw2 ?k" unfolding m
        using F by (intro mult_strict_right_mono) auto
    qed
    have "fp_mag fb eb u / pw2 ?k = real (2 ^ fb + F)" by (simp add: m)
    moreover have "(?k - ?q) * 2 ^ fb + int (2 ^ fb + F) = int u" by (simp add: u algebra_simps)
    ultimately show ?thesis unfolding quantum using pos by blast
  qed
  then show "0 < fp_mag fb eb u"
    and "\<exists>n. fp_mag fb eb u / pw2 (fp_quantum fb eb (fp_mag fb eb u)) = real n \<and>
      (fp_quantum fb eb (fp_mag fb eb u) - ?q) * 2 ^ fb + int n = int u" by blast+
qed

lemma round_unb_mag: "fp_round_unb fb eb m neg (fp_mag fb eb u) = u"
proof (cases "u = 0")
  case False
  from mag_quantum [OF False] show ?thesis
    by (auto simp: fp_round_unb_def Let_def simp flip: of_nat_eq_iff)
qed (simp add: fp_mag_def fp_round_unb_def)

lemma exact_result:
  assumes "u < fp_inf fb eb"
  shows "fp_result fb eb neg (fp_mag fb eb u) st = (fp_word fb eb neg u, st)"
proof (cases "u = 0")
  case False
  then have "\<not> fp_inexact fb eb (fp_mag fb eb u)"
    using mag_quantum(2) [OF False] by (auto simp: fp_inexact_def)
  then show ?thesis
    using assms by (simp add: fp_result_def fp_round_def fp_flags_def fp_overflow_def round_unb_mag)
qed (use assms in \<open>simp add: fp_mag_def fp_result_def fp_round_def fp_flags_def fp_round_unb_def\<close>)

end

section \<open>The specification's results\<close>

text \<open>The canonical NaN of RISC-V, the result of every invalid operation.\<close>

definition fp_qnan :: "nat \<Rightarrow> nat \<Rightarrow> 'w::len word" where
  "fp_qnan fb eb = fp_word fb eb False (fp_inf fb eb + 2 ^ (fb - 1))"

definition fp_invalid :: "nat \<Rightarrow> nat \<Rightarrow> sf_state \<Rightarrow> 'w::len word \<times> sf_state" where
  "fp_invalid fb eb st = (fp_qnan fb eb, softfloat_raiseFlags softfloat_flag_invalid st)"

text \<open>The result of an operation on operands one of which is a NaN: invalid if one is signaling.\<close>

definition fp_nan_result ::
  "nat \<Rightarrow> nat \<Rightarrow> bool \<Rightarrow> sf_state \<Rightarrow> 'w::len word \<times> sf_state" where
  "fp_nan_result fb eb snan st = (if snan then fp_invalid fb eb st else (fp_qnan fb eb, st))"

section \<open>The interface\<close>

record 'w sf_ops =
  o_sign :: "uint64_t \<Rightarrow> bool"
  o_exp :: "uint64_t \<Rightarrow> int"
  o_frac :: "uint64_t \<Rightarrow> uint64_t"
  o_isNaN :: "uint64_t \<Rightarrow> bool"
  o_isSigNaN :: "uint64_t \<Rightarrow> bool"
  o_pack :: "bool \<Rightarrow> int \<Rightarrow> uint64_t \<Rightarrow> 'w"
  o_defaultNaN :: 'w
  o_propagateNaN :: "uint64_t \<Rightarrow> uint64_t \<Rightarrow> sf_state \<Rightarrow> 'w \<times> sf_state"
  o_normArg :: "int \<Rightarrow> uint64_t \<Rightarrow> (int \<times> uint64_t) option"
  o_roundPack :: "bool \<Rightarrow> int \<Rightarrow> uint64_t \<Rightarrow> sf_state \<Rightarrow> 'w \<times> sf_state"
  o_normRoundPack :: "bool \<Rightarrow> int \<Rightarrow> uint64_t \<Rightarrow> sf_state \<Rightarrow> 'w \<times> sf_state"

locale sf_format = round_pack fb eb g "o_roundPack ops" for fb eb g :: nat and ops :: "'w::len word sf_ops" +
  assumes width: "LENGTH('w) = 1 + fb + eb" "LENGTH('w) \<le> 64" "fb + g + 1 < 64"
    and exp_range: "fb < 2 ^ 12" "eb \<le> 12"
    and sign: "o_sign ops (ucast (a :: 'w word)) \<longleftrightarrow> fp_neg fb eb a"
    and exp: "o_exp ops (ucast a) = int (fp_magbits fb eb a div 2 ^ fb)"
    and frac: "unat (o_frac ops (ucast a)) = fp_magbits fb eb a mod 2 ^ fb"
    and isNaN: "o_isNaN ops (ucast a) \<longleftrightarrow> fp_is_nan fb eb a"
    and isSigNaN: "o_isSigNaN ops (ucast a) \<longleftrightarrow> fp_is_snan fb eb a"
    and pack: "\<lbrakk>0 \<le> e; e < 2 ^ eb; nat e * 2 ^ fb + unat sig < 2 ^ (fb + eb)\<rbrakk>
      \<Longrightarrow> o_pack ops neg e sig = fp_word fb eb neg (nat e * 2 ^ fb + unat sig)"
    and defaultNaN: "o_defaultNaN ops = fp_qnan fb eb"
    and propagateNaN: "o_propagateNaN ops (ucast a) (ucast (b :: 'w word)) st =
      fp_nan_result fb eb (fp_is_snan fb eb a \<or> fp_is_snan fb eb b) st"
    and normArg_None: "o_normArg ops e sig = None \<longleftrightarrow> e = 0 \<and> sig = 0"
    and normArg: "\<lbrakk>u = E * 2 ^ fb + unat sig; unat sig < 2 ^ fb; E < 2 ^ eb - 1; u \<noteq> 0\<rbrakk>
      \<Longrightarrow> \<exists>e s. o_normArg ops (int E) sig = Some (e, s) \<and> unpacked fb eb e (unat (s OR 2 ^ fb)) u"
    and normRoundPack: "\<lbrakk>0 < unat sig; unat sig < 2 ^ (fb + g + 1); - (2 ^ 13) \<le> e; e < 2 ^ 13\<rbrakk>
      \<Longrightarrow> o_normRoundPack ops neg e sig st =
        fp_result fb eb neg (real (unat sig) * pw2 (e + fp_qmin fb eb - int g)) st"
    and normRoundPack_high: "\<lbrakk>2 ^ (fb + g) \<le> 2 * unat sig; unat sig < 2 ^ (fb + g + 1)\<rbrakk>
      \<Longrightarrow> o_normRoundPack ops neg e sig st =
        (if sig < 2 ^ (fb + g) then o_roundPack ops neg (e - 1) (push_bit 1 sig) st
         else o_roundPack ops neg e sig st)"
begin

lemma exp_max_iff: "o_exp ops (ucast (a :: 'w word)) = 2 ^ eb - 1 \<longleftrightarrow> \<not> fp_finite fb eb a"
proof -
  have "int (fp_magbits fb eb a div 2 ^ fb) = 2 ^ eb - 1 \<longleftrightarrow> fp_magbits fb eb a div 2 ^ fb = 2 ^ eb - 1"
    by (metis (mono_tags, lifting) of_nat_1 of_nat_diff of_nat_eq_iff of_nat_numeral of_nat_power
        one_le_numeral one_le_power)
  also have "\<dots> \<longleftrightarrow> \<not> fp_finite fb eb a"
    using inf_le_iff(1) [OF magbits_less [of fb eb a]] by (simp add: fp_finite_def not_less)
  finally show ?thesis by (simp add: exp)
qed

lemma frac_0_iff: "o_frac ops (ucast (a :: 'w word)) = 0 \<longleftrightarrow> fp_magbits fb eb a mod 2 ^ fb = 0"
  by (simp add: word_eq_unat frac)

lemma not_finite_frac:
  assumes "\<not> fp_finite fb eb (a :: 'w word)"
  shows "o_frac ops (ucast a) = 0 \<longleftrightarrow> fp_is_inf fb eb a" and "fp_is_inf fb eb a \<longleftrightarrow> \<not> fp_is_nan fb eb a"
  using assms inf_le_iff [OF magbits_less [of fb eb a]]
  by (auto simp: frac_0_iff fp_finite_def fp_is_inf_def fp_is_nan_def)

lemma zero_iff: "o_exp ops (ucast (a :: 'w word)) = 0 \<and> o_frac ops (ucast a) = 0 \<longleftrightarrow> fp_magbits fb eb a = 0"
proof -
  have "fp_magbits fb eb a = 0 \<longleftrightarrow> fp_magbits fb eb a div 2 ^ fb = 0 \<and> fp_magbits fb eb a mod 2 ^ fb = 0"
    by (metis div_mult_mod_eq div_0 mod_0 mult_0 add_0)
  then show ?thesis by (simp only: exp frac_0_iff of_nat_eq_0_iff)
qed

text \<open>The operand a finite pattern is unpacked to.\<close>

lemma normArg_finite:
  assumes "fp_finite fb eb (a :: 'w word)" and "fp_magbits fb eb a \<noteq> 0"
  obtains e s where "o_normArg ops (o_exp ops (ucast a)) (o_frac ops (ucast a)) = Some (e, s)"
    and "unpacked fb eb e (unat (s OR 2 ^ fb)) (fp_magbits fb eb a)"
proof -
  let ?u = "fp_magbits fb eb a"
  have "?u div 2 ^ fb \<noteq> 2 ^ eb - 1"
    using assms(1) inf_le_iff(1) [OF magbits_less [of fb eb a]] by (auto simp: fp_finite_def)
  then have "?u div 2 ^ fb < 2 ^ eb - 1" using magbits_div_less [of fb eb a] by linarith
  moreover have "?u = ?u div 2 ^ fb * 2 ^ fb + unat (o_frac ops (ucast a))" by (simp only: frac div_mult_mod_eq)
  ultimately have "\<exists>e s. o_normArg ops (int (?u div 2 ^ fb)) (o_frac ops (ucast a)) = Some (e, s) \<and>
      unpacked fb eb e (unat (s OR 2 ^ fb)) ?u"
    using assms(2) by (intro normArg) (simp_all add: frac)
  then show ?thesis using that by (auto simp: exp)
qed

lemma normArg_zero:
  "fp_magbits fb eb (a :: 'w word) = 0 \<Longrightarrow> o_normArg ops (o_exp ops (ucast a)) (o_frac ops (ucast a)) = None"
  by (simp add: normArg_None zero_iff)

lemma pack_special:
  "o_pack ops neg 0 0 = fp_word fb eb neg 0"
  "o_pack ops neg (2 ^ eb - 1) 0 = fp_word fb eb neg (fp_inf fb eb)"
proof -
  show "o_pack ops neg 0 0 = fp_word fb eb neg 0" by (subst pack) simp_all
  have e: "nat (2 ^ eb - 1) = 2 ^ eb - 1" by (simp add: nat_diff_distrib nat_power_eq)
  have "(2 ^ eb - 1) * 2 ^ fb < 2 ^ (eb :: nat) * (2::nat) ^ fb" by (rule mult_strict_right_mono) simp_all
  then show "o_pack ops neg (2 ^ eb - 1) 0 = fp_word fb eb neg (fp_inf fb eb)"
    by (subst pack) (simp_all add: e fp_inf_def power_add mult.commute)
qed

lemma bias: "1 - (2 ^ (eb - 1) - 1) = fp_qmin fb eb + int fb"
  by (simp add: fp_qmin_def)

lemma exp_small: "(2::int) ^ eb \<le> 2 ^ 12"
  using exp_range(2) by (intro power_increasing) auto

lemma magBits_0_iff:
  "(word_of_int (o_exp ops (ucast (a :: 'w word))) :: uint64_t) OR o_frac ops (ucast a) = 0 \<longleftrightarrow>
     fp_magbits fb eb a = 0"
proof -
  have "fp_magbits fb eb a div 2 ^ fb < 2 ^ eb" by (rule magbits_div_less)
  also have "(2::nat) ^ eb \<le> 2 ^ LENGTH(64)" using exp_range(2) by (intro power_increasing) auto
  finally have "(word_of_nat (fp_magbits fb eb a div 2 ^ fb) :: uint64_t) = 0 \<longleftrightarrow> fp_magbits fb eb a div 2 ^ fb = 0"
    by (simp add: word_eq_unat unat_of_nat)
  then show ?thesis by (simp add: or_eq_0_iff exp flip: zero_iff)
qed

lemma abs_real: "\<bar>fp_real fb eb a\<bar> = fp_mag fb eb (fp_magbits fb eb a)"
  by (simp add: fp_real_def fp_mag_def Let_def abs_mult)

lemma inf_pos: "0 < fp_inf fb eb"
  using inf_bound(1) by linarith

lemma result_0 [simp]: "fp_result fb eb neg 0 st = (fp_word fb eb neg 0, st)"
  by (simp add: fp_result_def fp_round_def fp_round_unb_def fp_flags_def inf_pos)

text \<open>A word is its sign in front of its magnitude.\<close>

lemma word_split: "(a :: 'w word) = fp_word fb eb (fp_neg fb eb a) (fp_magbits fb eb a)"
proof -
  have "unat a div 2 ^ (fb + eb) < 2"
    using unat_lt_2p [of a] by (intro less_mult_imp_div_less) (simp add: width(1) power_add)
  then have "unat a div 2 ^ (fb + eb) = of_bool (fp_neg fb eb a)"
    by (auto simp: fp_neg_def div_eq_0_iff less_2_cases_iff)
  then have "unat a = of_bool (fp_neg fb eb a) * 2 ^ (fb + eb) + fp_magbits fb eb a"
    using div_mult_mod_eq [of "unat a" "2 ^ (fb + eb)"] by (simp add: fp_magbits_def)
  then show ?thesis unfolding word_eq_unat by (simp only: unat_fp_word [OF width(1) magbits_less])
qed

lemma unat_split: "unat (a :: 'w word) = of_bool (fp_neg fb eb a) * 2 ^ (fb + eb) + fp_magbits fb eb a"
  by (subst word_split) (rule unat_fp_word [OF width(1) magbits_less])

lemma exp_field_less: "E < 2 ^ eb \<Longrightarrow> int E < 4096"
proof -
  assume "E < 2 ^ eb"
  then have "int E < int (2 ^ eb)" by (simp only: of_nat_less_iff)
  then have "int E < 2 ^ eb" by simp
  then show ?thesis using exp_small [simplified] by (rule less_le_trans)
qed

text \<open>Packing an exact result.\<close>

lemma pack_exact:
  assumes "s < 2 ^ (fb + 1)" and "e = 0 \<or> 2 ^ fb \<le> s" and "e + 1 < 2 ^ eb - 1" and s: "unat sig = s"
  shows "(o_pack ops neg (int e) sig, st) = fp_result fb eb neg (real s * pw2 (fp_qmin fb eb + int e)) st"
proof -
  have "e * 2 ^ fb + s < (e + 2) * 2 ^ fb" using assms(1) by (simp add: power_add)
  also have "\<dots> \<le> fp_inf fb eb" unfolding fp_inf_def using assms(3) by (intro mult_le_mono1) simp
  finally have u: "e * 2 ^ fb + s < fp_inf fb eb" .
  moreover have "fp_inf fb eb \<le> 2 ^ (fb + eb)" by (simp add: fp_inf_def power_add mult.commute diff_mult_distrib2)
  moreover have "int e < 2 ^ eb"
  proof -
    have "int e < int (2 ^ eb)" using assms(3) by simp
    then show ?thesis by simp
  qed
  ultimately have "o_pack ops neg (int e) sig = fp_word fb eb neg (e * 2 ^ fb + s)"
    by (subst pack) (simp_all add: s)
  then show ?thesis unfolding mag_packed [OF assms(1,2), symmetric] by (simp only: exact_result [OF u])
qed

text \<open>The fields of an operand.\<close>

lemma fields:
  fixes a :: "'w word"
  obtains e s where "o_exp ops (ucast a) = int e" "o_frac ops (ucast a) = s" "unat s < 2 ^ fb"
    "fp_magbits fb eb a = e * 2 ^ fb + unat s" "e < 2 ^ eb" "fp_finite fb eb a \<longleftrightarrow> e < 2 ^ eb - 1"
proof
  let ?e = "fp_magbits fb eb a div 2 ^ fb"
  show "o_exp ops (ucast a) = int ?e" by (rule exp)
  show "o_frac ops (ucast a) = o_frac ops (ucast a)" ..
  show "unat (o_frac ops (ucast a)) < 2 ^ fb" by (simp add: frac)
  show "fp_magbits fb eb a = ?e * 2 ^ fb + unat (o_frac ops (ucast a))" by (simp only: frac div_mult_mod_eq)
  show lt: "?e < 2 ^ eb" by (rule magbits_div_less)
  show "fp_finite fb eb a \<longleftrightarrow> ?e < 2 ^ eb - 1"
    using inf_le_iff(1) [OF magbits_less [of fb eb a]] lt by (auto simp: fp_finite_def)
qed

lemma ucast_ucast: "(ucast (ucast (a :: 'w word) :: uint64_t) :: 'w word) = a"
proof -
  have "unat (ucast a :: uint64_t) = unat a" using width(2) by simp
  then show ?thesis using unat_lt_2p [of a] by (simp only: word_eq_unat unat_ucast [where 'b = 'w] mod_less)
qed

lemma inf_word: "fp_is_inf fb eb (a :: 'w word) \<Longrightarrow> a = fp_word fb eb (fp_neg fb eb a) (fp_inf fb eb)"
  by (subst word_split) (simp add: fp_is_inf_def)

lemma magnitude_cases:
  obtains (nan) "fp_is_nan fb eb a" "\<not> fp_is_inf fb eb a" "\<not> fp_finite fb eb a" "fp_magbits fb eb a \<noteq> 0"
  | (inf) "fp_is_inf fb eb a" "\<not> fp_is_nan fb eb a" "\<not> fp_is_snan fb eb a" "\<not> fp_finite fb eb a"
      "fp_magbits fb eb a \<noteq> 0"
  | (zero) "fp_magbits fb eb a = 0" "fp_finite fb eb a" "\<not> fp_is_nan fb eb a" "\<not> fp_is_snan fb eb a"
      "\<not> fp_is_inf fb eb a"
  | (fin) "fp_magbits fb eb a \<noteq> 0" "fp_finite fb eb a" "\<not> fp_is_nan fb eb a" "\<not> fp_is_snan fb eb a"
      "\<not> fp_is_inf fb eb a"
  using inf_bound(1) by (fastforce simp: fp_is_nan_def fp_is_inf_def fp_finite_def fp_is_snan_def)

end


section \<open>Normalise, round and pack\<close>

text \<open>The two ways out of \<open>softfloat_normRoundPackTo\<dots>\<close>: rounding, and packing an exact result.\<close>

context round_pack
begin

lemma norm_shift:
  assumes "is_clz (fb + g + 2) (unat sig) c" and "0 < unat sig" and "unat sig < 2 ^ (fb + g + 1)"
  shows "0 < c" and "2 ^ (fb + g) \<le> unat sig * 2 ^ (c - 1)" and "unat sig * 2 ^ (c - 1) < 2 ^ (fb + g + 1)"
    and "c \<le> fb + g + 1"
proof -
  note c = clz_subnormal [OF assms, of 0, simplified]
  show "0 < c" by (rule c(1))
  then obtain d where d: "c = Suc d" by (cases c) auto
  then show lo: "2 ^ (fb + g) \<le> unat sig * 2 ^ (c - 1)" and hi: "unat sig * 2 ^ (c - 1) < 2 ^ (fb + g + 1)"
    using c(2,3) by simp_all
  have "2 ^ d \<le> unat sig * 2 ^ d" using assms(2) by simp
  also have "\<dots> < 2 ^ (fb + g + 1)" using hi d by simp
  finally have "(2::nat) ^ d < 2 ^ (fb + g + 1)" .
  then have "d < fb + g + 1" by (rule power_less_imp_less_exp [rotated]) simp
  then show "c \<le> fb + g + 1" by (simp add: d)
qed

lemma norm_round:
  assumes "is_clz (fb + g + 2) (unat sig) c" and "0 < unat sig" and "unat sig < 2 ^ (fb + g + 1)"
    and "- (2 ^ 13) \<le> e" "e < 2 ^ 13" and "fb + g + 1 < 64"
  shows "roundPack neg (e - (int c - 1)) (push_bit (nat (int c - 1)) sig) st =
    fp_result fb eb neg (real (unat sig) * pw2 (e + fp_qmin fb eb - int g)) st"
proof -
  note n = norm_shift [OF assms(1-3)]
  have "(2::nat) ^ (fb + g + 1) \<le> 2 ^ LENGTH(64)" using assms(6) by (intro power_increasing) auto
  then have "unat sig * 2 ^ (c - 1) < 2 ^ LENGTH(64)" using n(3) by (rule less_le_trans [rotated])
  then have s: "unat (push_bit (c - 1) sig) = unat sig * 2 ^ (c - 1)" by (rule unat_push_bit_less)
  have c: "int c - 1 = int (c - 1)" using n(1) by simp
  have x: "real (unat sig) * pw2 (e + fp_qmin fb eb - int g) =
      real (unat sig * 2 ^ (c - 1)) * pw2 (e - int (c - 1) + fp_qmin fb eb - int g)"
    by (simp add: pw2_diff pw2_add)
  show ?thesis
    unfolding c nat_int
  proof (rule correct [OF _ _ _ _ _ x])
    show "- (2 ^ 14) \<le> e - int (c - 1)" and "e - int (c - 1) < 2 ^ 14"
      using n(4) assms(4-6) by simp_all
  qed (use n in \<open>simp_all only: s same_cell_refl\<close>)
qed

lemma norm_exact:
  assumes "is_clz (fb + g + 2) (unat sig) c" and "0 < unat sig" and "unat sig < 2 ^ (fb + g + 1)"
    and "int g \<le> int c - 1" and "0 \<le> e - (int c - 1)" "e - (int c - 1) < 2 ^ eb - 3"
  shows "fp_result fb eb neg (real (unat sig) * pw2 (e + fp_qmin fb eb - int g)) st =
    (fp_word fb eb neg (nat (e - (int c - 1)) * 2 ^ fb + unat sig * 2 ^ nat (int c - 1 - int g)), st)"
    and "nat (e - (int c - 1)) * 2 ^ fb + unat sig * 2 ^ nat (int c - 1 - int g) < 2 ^ (fb + eb)"
proof -
  note n = norm_shift [OF assms(1-3)]
  define k E s where "k = c - 1 - g" and "E = nat (e - (int c - 1)) + 1" and "s = unat sig * 2 ^ k"
  have k: "c - 1 = k + g" "nat (int c - 1 - int g) = k" using assms(4) by (simp_all add: k_def)
  have E: "e - (int c - 1) = int E - 1" using assms(5) by (simp add: E_def)
  have s: "2 ^ fb \<le> s" "s < 2 ^ (fb + 1)" using n(2,3) unfolding k(1) s_def power_add by simp_all
  have "int E < 2 ^ eb - 1" using assms(6) E by linarith
  then have "int E < int (2 ^ eb - 1)" by (simp add: of_nat_diff)
  then have E_lt: "E < 2 ^ eb - 1" by (simp only: of_nat_less_iff)
  define u where "u = E * 2 ^ fb + (s - 2 ^ fb)"
  have u: "nat (e - (int c - 1)) * 2 ^ fb + s = u"
    using s(1) by (simp add: u_def E_def add_mult_distrib)
  have "unpacked fb eb (int E) (s - 2 ^ fb + 2 ^ fb) u"
    unfolding u_def using s E_lt by (intro unpacked_normal) (auto simp: E_def)
  then have m: "fp_mag fb eb u = real s * pw2 (fp_qmin fb eb + int E - 1)"
    using s(1) by (simp add: unpacked_def)
  have x: "real (unat sig) * pw2 (e + fp_qmin fb eb - int g) = fp_mag fb eb u"
  proof -
    have e: "e = int E - 1 + (int k + int g)" using E k(1) n(1) by simp
    show ?thesis unfolding m e s_def by (simp add: pw2_diff pw2_add)
  qed
  have "u < (E + 1) * 2 ^ fb" using s by (simp add: u_def)
  also have "\<dots> \<le> (2 ^ eb - 1) * 2 ^ fb" using E_lt by (intro mult_le_mono1) simp
  finally have lt: "u < fp_inf fb eb" by (simp add: fp_inf_def)
  show "fp_result fb eb neg (real (unat sig) * pw2 (e + fp_qmin fb eb - int g)) st =
    (fp_word fb eb neg (nat (e - (int c - 1)) * 2 ^ fb + unat sig * 2 ^ nat (int c - 1 - int g)), st)"
    unfolding x exact_result [OF lt] k(2) s_def [symmetric] u ..
  have "fp_inf fb eb \<le> 2 ^ (fb + eb)" by (simp add: fp_inf_def power_add mult.commute diff_mult_distrib2)
  with lt show "nat (e - (int c - 1)) * 2 ^ fb + unat sig * 2 ^ nat (int c - 1 - int g) < 2 ^ (fb + eb)"
    unfolding k(2) s_def [symmetric] u by linarith
qed

text \<open>
  Rounding a significand that was shifted right with jamming: \<open>sig\<close> has the value of \<open>Y\<close> shifted
  by \<open>d\<close> places, and may be short of the normalised range by one place.
\<close>

lemma round_jam:
  assumes "unat sig = jam d Y" and "2 ^ (fb + g) \<le> unat sig" "unat sig < 2 ^ (fb + g + 1)"
    and "- (2 ^ 14) \<le> e" "e < 2 ^ 14"
    and "x = real Y * pw2 (e + fp_qmin fb eb - int g - int d)"
  shows "roundPack neg e sig st = fp_result fb eb neg x st"
proof (rule correct)
  show "same_cell (real Y / 2 ^ d / 2 ^ (g - 1)) (real (unat sig) / 2 ^ (g - 1))"
    unfolding assms(1) using g_ge by (intro same_cell_jam_coarse) simp
  show "x = real Y / 2 ^ d * pw2 (e + fp_qmin fb eb - int g)"
    unfolding assms(6) by (simp add: pw2_diff)
qed (use assms in auto)

lemma round_jam_1:
  assumes "unat sig = jam d Y" and "2 ^ (fb + g) \<le> 2 * unat sig" "unat sig < 2 ^ (fb + g)"
    and "- (2 ^ 13) \<le> e" "e < 2 ^ 13" and "3 \<le> g" "fb + g + 1 < 64"
    and "x = real Y * pw2 (e + fp_qmin fb eb - int g - int d)"
  shows "roundPack neg (e - 1) (push_bit 1 sig) st = fp_result fb eb neg x st"
proof -
  have "(2::nat) ^ (fb + g + 1) \<le> 2 ^ LENGTH(64)" using assms(7) by (intro power_increasing) auto
  then have s: "unat (push_bit 1 sig) = 2 * unat sig"
    using assms(3) by (subst unat_push_bit_less) auto
  have G: "(2::real) ^ (g - 1) = 2 * 2 ^ (g - 2)"
    using assms(6) by (simp flip: power_Suc add: Suc_diff_le)
  show ?thesis
  proof (rule correct)
    have "same_cell (real Y / 2 ^ d / 2 ^ (g - 2)) (real (unat sig) / 2 ^ (g - 2))"
      unfolding assms(1) using assms(6) by (intro same_cell_jam_coarse) simp
    then show "same_cell (2 * real Y / 2 ^ d / 2 ^ (g - 1)) (real (unat (push_bit 1 sig)) / 2 ^ (g - 1))"
      unfolding s G by simp
    show "x = 2 * real Y / 2 ^ d * pw2 (e - 1 + fp_qmin fb eb - int g)"
      unfolding assms(8) by (simp add: pw2_diff pw2_add)
  qed (use assms(2-5) s in auto)
qed

lemma round_jam_norm:
  assumes "unat sig = jam d Y" and "2 ^ (fb + g) \<le> 2 * unat sig" "unat sig < 2 ^ (fb + g + 1)"
    and "- (2 ^ 13) \<le> e" "e < 2 ^ 13" and "3 \<le> g" "fb + g + 1 < 64"
    and "x = real Y * pw2 (e + fp_qmin fb eb - int g - int d)"
  shows "(if sig < 2 ^ (fb + g) then roundPack neg (e - 1) (push_bit 1 sig) st
          else roundPack neg e sig st) = fp_result fb eb neg x st"
proof -
  have "sig < 2 ^ (fb + g) \<longleftrightarrow> unat sig < 2 ^ (fb + g)"
    using assms(7) unat_power2_word [of "fb + g"] by (simp add: word_less_nat_alt)
  then show ?thesis
    using round_jam [OF assms(1) _ assms(3) _ _ assms(8)] round_jam_1 [OF assms(1,2) _ assms(4-8)]
      assms(4,5) by auto
qed

end

section \<open>The three formats\<close>

definition f16_ops :: "float16_t sf_ops" where
  "f16_ops = \<lparr>o_sign = signF16UI, o_exp = expF16UI, o_frac = fracF16UI,
     o_isNaN = isNaNF16UI, o_isSigNaN = softfloat_isSigNaNF16UI,
     o_pack = \<lambda>sign e sig. ucast (packToF16UI sign e sig), o_defaultNaN = ucast defaultNaNF16UI,
     o_propagateNaN = \<lambda>a b st. map_prod ucast id (softfloat_propagateNaNF16UI a b st),
     o_normArg = normArgF16, o_roundPack = softfloat_roundPackToF16,
     o_normRoundPack = softfloat_normRoundPackToF16\<rparr>"

definition f32_ops :: "float32_t sf_ops" where
  "f32_ops = \<lparr>o_sign = signF32UI, o_exp = expF32UI, o_frac = fracF32UI,
     o_isNaN = isNaNF32UI, o_isSigNaN = softfloat_isSigNaNF32UI,
     o_pack = \<lambda>sign e sig. ucast (packToF32UI sign e sig), o_defaultNaN = ucast defaultNaNF32UI,
     o_propagateNaN = \<lambda>a b st. map_prod ucast id (softfloat_propagateNaNF32UI a b st),
     o_normArg = normArgF32, o_roundPack = softfloat_roundPackToF32,
     o_normRoundPack = softfloat_normRoundPackToF32\<rparr>"

definition f64_ops :: "float64_t sf_ops" where
  "f64_ops = \<lparr>o_sign = signF64UI, o_exp = expF64UI, o_frac = fracF64UI,
     o_isNaN = isNaNF64UI, o_isSigNaN = softfloat_isSigNaNF64UI,
     o_pack = packToF64UI, o_defaultNaN = defaultNaNF64UI,
     o_propagateNaN = softfloat_propagateNaNF64UI,
     o_normArg = normArgF64, o_roundPack = softfloat_roundPackToF64,
     o_normRoundPack = softfloat_normRoundPackToF64\<rparr>"

text \<open>The routines of each format, selected from its record.\<close>

lemma f16_ops_sel [simp]:
  "o_sign f16_ops = signF16UI"
  "o_exp f16_ops = expF16UI"
  "o_frac f16_ops = fracF16UI"
  "o_isNaN f16_ops = isNaNF16UI"
  "o_isSigNaN f16_ops = softfloat_isSigNaNF16UI"
  "o_normArg f16_ops = normArgF16"
  "o_roundPack f16_ops = softfloat_roundPackToF16"
  "o_normRoundPack f16_ops = softfloat_normRoundPackToF16"
  "o_pack f16_ops sign e sig = ucast (packToF16UI sign e sig)"
  "o_defaultNaN f16_ops = ucast defaultNaNF16UI"
  "o_propagateNaN f16_ops a b st = map_prod ucast id (softfloat_propagateNaNF16UI a b st)"
  by (simp_all add: f16_ops_def)

lemma f32_ops_sel [simp]:
  "o_sign f32_ops = signF32UI"
  "o_exp f32_ops = expF32UI"
  "o_frac f32_ops = fracF32UI"
  "o_isNaN f32_ops = isNaNF32UI"
  "o_isSigNaN f32_ops = softfloat_isSigNaNF32UI"
  "o_normArg f32_ops = normArgF32"
  "o_roundPack f32_ops = softfloat_roundPackToF32"
  "o_normRoundPack f32_ops = softfloat_normRoundPackToF32"
  "o_pack f32_ops sign e sig = ucast (packToF32UI sign e sig)"
  "o_defaultNaN f32_ops = ucast defaultNaNF32UI"
  "o_propagateNaN f32_ops a b st = map_prod ucast id (softfloat_propagateNaNF32UI a b st)"
  by (simp_all add: f32_ops_def)

lemma f64_ops_sel [simp]:
  "o_sign f64_ops = signF64UI"
  "o_exp f64_ops = expF64UI"
  "o_frac f64_ops = fracF64UI"
  "o_isNaN f64_ops = isNaNF64UI"
  "o_isSigNaN f64_ops = softfloat_isSigNaNF64UI"
  "o_normArg f64_ops = normArgF64"
  "o_roundPack f64_ops = softfloat_roundPackToF64"
  "o_normRoundPack f64_ops = softfloat_normRoundPackToF64"
  "o_pack f64_ops = packToF64UI"
  "o_defaultNaN f64_ops = defaultNaNF64UI"
  "o_propagateNaN f64_ops = softfloat_propagateNaNF64UI"
  by (simp_all add: f64_ops_def)

text \<open>The test of an exponent through a conversion to an unsigned 32-bit integer.\<close>

lemma exp_cast_less:
  assumes "- (2 ^ 14) \<le> e" "e < 2 ^ 14" and "n < 2 ^ 14"
  shows "(word_of_int e :: 32 word) < word_of_nat n \<longleftrightarrow> 0 \<le> e \<and> e < int n"
proof -
  have n: "unat (word_of_nat n :: 32 word) = n" using assms(3) by (simp add: unat_of_nat)
  show ?thesis
  proof (cases "0 \<le> e")
    case True
    then show ?thesis using assms(2) by (auto simp: word_less_nat_alt n unat_word_of_int)
  next
    case False
    then show ?thesis using assms(1,3) by (auto simp: word_less_nat_alt n unat_word_of_int_neg)
  qed
qed

lemma normRoundPackToF16_correct:
  assumes "0 < unat sig" "unat sig < 2 ^ 15" "- (2 ^ 13) \<le> e" "e < 2 ^ 13"
  shows "softfloat_normRoundPackToF16 neg e sig st =
    fp_result 10 5 neg (real (unat sig) * pw2 (e + fp_qmin 10 5 - int 4)) st"
proof -
  define c where "c = softfloat_countLeadingZeros16 (ucast sig)"
  have c: "is_clz (10 + 4 + 2) (unat sig) c"
    using countLeadingZeros16_correct [of "ucast sig"] assms(2) by (simp add: c_def unat_ucast_less)
  have b: "unat sig < 2 ^ (10 + 4 + 1)" using assms(2) by simp
  note n = rp16.norm_shift [OF c assms(1) b]
  define d e' where "d = int c - 1" and "e' = e - d"
  have cast: "(word_of_int e' :: 32 word) < 29 \<longleftrightarrow> 0 \<le> e' \<and> e' < 29"
    using exp_cast_less [of e' 29] n(1,4) assms(3,4) by (simp add: d_def e'_def)
  note code = softfloat_normRoundPackToF16_def [of neg e sig st, unfolded Let_def, folded c_def,
    folded d_def, folded e'_def]
  show ?thesis
  proof (cases "int 4 \<le> d \<and> 0 \<le> e' \<and> e' < 29")
    case True
    note ex = rp16.norm_exact [OF c assms(1) b, of e, folded d_def, folded e'_def]
    have "unat (push_bit (nat (d - 4)) sig) = unat sig * 2 ^ nat (d - 4)"
      using ex(2) True by (intro unat_push_bit_less) simp
    with ex(2) True assms(1) show ?thesis
      unfolding code cast by (subst ex(1)) (simp_all add: packToF16UI_fp_word unat_gt_0)
  next
    case False
    then have "softfloat_normRoundPackToF16 neg e sig st = softfloat_roundPackToF16 neg e' (push_bit (nat d) sig) st"
      unfolding code cast by auto
    then show ?thesis
      using rp16.norm_round [OF c assms(1) b assms(3,4), of neg st] by (simp add: d_def e'_def)
  qed
qed

lemma normRoundPackToF32_correct:
  assumes "0 < unat sig" "unat sig < 2 ^ 31" "- (2 ^ 13) \<le> e" "e < 2 ^ 13"
  shows "softfloat_normRoundPackToF32 neg e sig st =
    fp_result 23 8 neg (real (unat sig) * pw2 (e + fp_qmin 23 8 - int 7)) st"
proof -
  define c where "c = softfloat_countLeadingZeros32 (ucast sig)"
  have c: "is_clz (23 + 7 + 2) (unat sig) c"
    using countLeadingZeros32_correct [of "ucast sig"] assms(2) by (simp add: c_def unat_ucast_less)
  have b: "unat sig < 2 ^ (23 + 7 + 1)" using assms(2) by simp
  note n = rp32.norm_shift [OF c assms(1) b]
  define d e' where "d = int c - 1" and "e' = e - d"
  have cast: "(word_of_int e' :: 32 word) < 253 \<longleftrightarrow> 0 \<le> e' \<and> e' < 253"
    using exp_cast_less [of e' 253] n(1,4) assms(3,4) by (simp add: d_def e'_def)
  note code = softfloat_normRoundPackToF32_def [of neg e sig st, unfolded Let_def, folded c_def,
    folded d_def, folded e'_def]
  show ?thesis
  proof (cases "int 7 \<le> d \<and> 0 \<le> e' \<and> e' < 253")
    case True
    note ex = rp32.norm_exact [OF c assms(1) b, of e, folded d_def, folded e'_def]
    have "unat (push_bit (nat (d - 7)) sig) = unat sig * 2 ^ nat (d - 7)"
      using ex(2) True by (intro unat_push_bit_less) simp
    with ex(2) True assms(1) show ?thesis
      unfolding code cast by (subst ex(1)) (simp_all add: packToF32UI_fp_word unat_gt_0)
  next
    case False
    then have "softfloat_normRoundPackToF32 neg e sig st = softfloat_roundPackToF32 neg e' (push_bit (nat d) sig) st"
      unfolding code cast by auto
    then show ?thesis
      using rp32.norm_round [OF c assms(1) b assms(3,4), of neg st] by (simp add: d_def e'_def)
  qed
qed

lemma normRoundPackToF64_correct:
  assumes "0 < unat sig" "unat sig < 2 ^ 63" "- (2 ^ 13) \<le> e" "e < 2 ^ 13"
  shows "softfloat_normRoundPackToF64 neg e sig st =
    fp_result 52 11 neg (real (unat sig) * pw2 (e + fp_qmin 52 11 - int 10)) st"
proof -
  define c where "c = softfloat_countLeadingZeros64 sig"
  have c: "is_clz (52 + 10 + 2) (unat sig) c"
    using countLeadingZeros64_correct [of "sig"] assms(2) by (simp add: c_def unat_ucast_less)
  have b: "unat sig < 2 ^ (52 + 10 + 1)" using assms(2) by simp
  note n = rp64.norm_shift [OF c assms(1) b]
  define d e' where "d = int c - 1" and "e' = e - d"
  have cast: "(word_of_int e' :: 32 word) < 2045 \<longleftrightarrow> 0 \<le> e' \<and> e' < 2045"
    using exp_cast_less [of e' 2045] n(1,4) assms(3,4) by (simp add: d_def e'_def)
  note code = softfloat_normRoundPackToF64_def [of neg e sig st, unfolded Let_def, folded c_def,
    folded d_def, folded e'_def]
  show ?thesis
  proof (cases "int 10 \<le> d \<and> 0 \<le> e' \<and> e' < 2045")
    case True
    note ex = rp64.norm_exact [OF c assms(1) b, of e, folded d_def, folded e'_def]
    have "unat (push_bit (nat (d - 10)) sig) = unat sig * 2 ^ nat (d - 10)"
      using ex(2) True by (intro unat_push_bit_less) simp
    with ex(2) True assms(1) show ?thesis
      unfolding code cast by (subst ex(1)) (simp_all add: packToF64UI_fp_word unat_gt_0)
  next
    case False
    then have "softfloat_normRoundPackToF64 neg e sig st = softfloat_roundPackToF64 neg e' (push_bit (nat d) sig) st"
      unfolding code cast by auto
    then show ?thesis
      using rp64.norm_round [OF c assms(1) b assms(3,4), of neg st] by (simp add: d_def e'_def)
  qed
qed

text \<open>A significand that is short of the normalised range by at most one place.\<close>

lemma is_clz_high_bits:
  assumes "is_clz (k + 2) n c" and "2 ^ k \<le> 2 * n" and "n < 2 ^ (k + 1)"
  shows "int c - 1 = (if n < 2 ^ k then 1 else 0)"
proof -
  have "0 < n" using assms(2) by (cases n) simp_all
  then have b: "2 ^ (k + 1) \<le> n * 2 ^ c" "n * 2 ^ c < 2 ^ (k + 2)" using assms(1) by (simp_all add: is_clz_def)
  have "c \<noteq> 0" using b(1) assms(3) by (cases c) simp_all
  moreover have "c \<le> 2"
  proof (rule ccontr)
    assume "\<not> c \<le> 2"
    then have "n * 2 ^ 3 \<le> n * 2 ^ c" by (intro mult_le_mono2 power_increasing) simp_all
    also have "\<dots> < 2 ^ (k + 2)" by (rule b(2))
    finally show False using assms(2) by simp
  qed
  ultimately consider "c = 1" | "c = 2" by linarith
  then show ?thesis using b by cases simp_all
qed

lemma normRoundPackToF16_high:
  assumes "2 ^ (10 + 4) \<le> 2 * unat sig" "unat sig < 2 ^ (10 + 4 + 1)"
  shows "softfloat_normRoundPackToF16 neg e sig st =
    (if sig < 2 ^ (10 + 4) then softfloat_roundPackToF16 neg (e - 1) (push_bit 1 sig) st
     else softfloat_roundPackToF16 neg e sig st)"
proof -
  define c where "c = softfloat_countLeadingZeros16 (ucast sig)"
  have "is_clz (10 + 4 + 2) (unat sig) c"
    using countLeadingZeros16_correct [of "ucast sig"] assms(2) by (simp add: c_def unat_ucast_less)
  then have "int c - 1 = (if sig < 2 ^ (10 + 4) then 1 else 0)"
    using is_clz_high_bits [of "10 + 4" "unat sig" c] assms by (simp add: word_less_nat_alt)
  then show ?thesis
    unfolding softfloat_normRoundPackToF16_def Let_def c_def [symmetric] by (auto simp: One_nat_def [symmetric] simp del: One_nat_def)
qed

lemma normRoundPackToF32_high:
  assumes "2 ^ (23 + 7) \<le> 2 * unat sig" "unat sig < 2 ^ (23 + 7 + 1)"
  shows "softfloat_normRoundPackToF32 neg e sig st =
    (if sig < 2 ^ (23 + 7) then softfloat_roundPackToF32 neg (e - 1) (push_bit 1 sig) st
     else softfloat_roundPackToF32 neg e sig st)"
proof -
  define c where "c = softfloat_countLeadingZeros32 (ucast sig)"
  have "is_clz (23 + 7 + 2) (unat sig) c"
    using countLeadingZeros32_correct [of "ucast sig"] assms(2) by (simp add: c_def unat_ucast_less)
  then have "int c - 1 = (if sig < 2 ^ (23 + 7) then 1 else 0)"
    using is_clz_high_bits [of "23 + 7" "unat sig" c] assms by (simp add: word_less_nat_alt)
  then show ?thesis
    unfolding softfloat_normRoundPackToF32_def Let_def c_def [symmetric] by (auto simp: One_nat_def [symmetric] simp del: One_nat_def)
qed

lemma normRoundPackToF64_high:
  assumes "2 ^ (52 + 10) \<le> 2 * unat sig" "unat sig < 2 ^ (52 + 10 + 1)"
  shows "softfloat_normRoundPackToF64 neg e sig st =
    (if sig < 2 ^ (52 + 10) then softfloat_roundPackToF64 neg (e - 1) (push_bit 1 sig) st
     else softfloat_roundPackToF64 neg e sig st)"
proof -
  define c where "c = softfloat_countLeadingZeros64 sig"
  have "is_clz (52 + 10 + 2) (unat sig) c"
    using countLeadingZeros64_correct [of "sig"] assms(2) by (simp add: c_def unat_ucast_less)
  then have "int c - 1 = (if sig < 2 ^ (52 + 10) then 1 else 0)"
    using is_clz_high_bits [of "52 + 10" "unat sig" c] assms by (simp add: word_less_nat_alt)
  then show ?thesis
    unfolding softfloat_normRoundPackToF64_def Let_def c_def [symmetric] by (auto simp: One_nat_def [symmetric] simp del: One_nat_def)
qed

section \<open>The interpretations\<close>

lemma propagateNaN_prod:
  "map_prod ucast id (softfloat_propagateNaNF16UI (ucast a) (ucast b) st) =
     fp_nan_result 10 5 (fp_is_snan 10 5 (a :: float16_t) \<or> fp_is_snan 10 5 (b :: float16_t)) st"
  "map_prod ucast id (softfloat_propagateNaNF32UI (ucast c) (ucast d) st) =
     fp_nan_result 23 8 (fp_is_snan 23 8 (c :: float32_t) \<or> fp_is_snan 23 8 (d :: float32_t)) st"
  "softfloat_propagateNaNF64UI x y st = fp_nan_result 52 11 (fp_is_snan 52 11 x \<or> fp_is_snan 52 11 y) st"
  by (auto simp: softfloat_propagateNaNF16UI_def softfloat_propagateNaNF32UI_def
      softfloat_propagateNaNF64UI_def fp_nan_result_def fp_invalid_def fp_qnan_def fp_word_def fp_inf_def
      f16_fields f32_fields f64_fields defaultNaNF16UI_def defaultNaNF32UI_def defaultNaNF64UI_def)

lemma defaultNaN_fp_word:
  "(ucast defaultNaNF16UI :: float16_t) = fp_qnan 10 5"
  "(ucast defaultNaNF32UI :: float32_t) = fp_qnan 23 8"
  "defaultNaNF64UI = fp_qnan 52 11"
  by (simp_all add: fp_qnan_def fp_word_def fp_inf_def defaultNaNF16UI_def defaultNaNF32UI_def
      defaultNaNF64UI_def)

lemma normArg_None_iff:
  "normArgF16 e sig = None \<longleftrightarrow> e = 0 \<and> sig = 0"
  "normArgF32 e sig = None \<longleftrightarrow> e = 0 \<and> sig = 0"
  "normArgF64 e sig = None \<longleftrightarrow> e = 0 \<and> sig = 0"
  by (simp_all add: normArgF16_def normArgF32_def normArgF64_def)

interpretation f16: sf_format 10 5 4 f16_ops
proof (unfold_locales, goal_cases)
  case (1 sig e st neg u f)
  then show ?case using rp16.refines by simp
next
  case (16 u E sig)
  then show ?case using normArgF16_unpacked [of u E sig] by simp
next
  case (17 sig e neg st)
  then show ?case using normRoundPackToF16_correct [of sig e neg st] by simp
next
  case (18 sig neg e st)
  then show ?case using normRoundPackToF16_high [of sig neg e st] by simp
qed (simp_all add: f16_fields packToF16UI_fp_word defaultNaN_fp_word propagateNaN_prod
    normArg_None_iff)

interpretation f32: sf_format 23 8 7 f32_ops
proof (unfold_locales, goal_cases)
  case (1 sig e st neg u f)
  then show ?case using rp32.refines by simp
next
  case (16 u E sig)
  then show ?case using normArgF32_unpacked [of u E sig] by simp
next
  case (17 sig e neg st)
  then show ?case using normRoundPackToF32_correct [of sig e neg st] by simp
next
  case (18 sig neg e st)
  then show ?case using normRoundPackToF32_high [of sig neg e st] by simp
qed (simp_all add: f32_fields packToF32UI_fp_word defaultNaN_fp_word propagateNaN_prod
    normArg_None_iff)

interpretation f64: sf_format 52 11 10 f64_ops
proof (unfold_locales, goal_cases)
  case (1 sig e st neg u f)
  then show ?case using rp64.refines by simp
next
  case (16 u E sig)
  then show ?case using normArgF64_unpacked [of u E sig] by simp
next
  case (17 sig e neg st)
  then show ?case using normRoundPackToF64_correct [of sig e neg st] by simp
next
  case (18 sig neg e st)
  then show ?case using normRoundPackToF64_high [of sig neg e st] by simp
qed (simp_all add: f64_fields packToF64UI_fp_word defaultNaN_fp_word propagateNaN_prod
    normArg_None_iff)

end
