(* ===== verification/SF_FromInt.thy ===== *)
theory SF_FromInt
  imports SF_Interface
begin

text \<open>
  Conversions from integers: \<^verbatim>\<open>ui32_to_f*.c\<close>, \<^verbatim>\<open>i32_to_f*.c\<close>, \<^verbatim>\<open>ui64_to_f*.c\<close>, \<^verbatim>\<open>i64_to_f*.c\<close>.
  A signed argument is the machine word itself, read with \<^term>\<open>sint\<close>; its conversion to a wider
  unsigned type is a sign extension.
\<close>

section \<open>The conversions\<close>

definition ui32_to_f16 :: "uint32_t \<Rightarrow> sf_state \<Rightarrow> float16_t \<times> sf_state" where
  "ui32_to_f16 a st =
     (let shiftDist = int (softfloat_countLeadingZeros32 a) - 21
      in if 0 \<le> shiftDist then
           (if a \<noteq> 0 then ucast (packToF16UI False (0x18 - shiftDist) (push_bit (nat shiftDist) (ucast a))) else 0, st)
         else
           let shiftDist = shiftDist + 4;
               sig = (if shiftDist < 0
                      then ucast (drop_bit (nat (- shiftDist)) a OR of_bool (push_bit (nat (shiftDist AND 31)) a \<noteq> 0))
                      else push_bit (nat shiftDist) (ucast a)) :: uint_fast16_t
           in softfloat_roundPackToF16 False (0x1C - shiftDist) sig st)"

definition i32_to_f16 :: "int32_t \<Rightarrow> sf_state \<Rightarrow> float16_t \<times> sf_state" where
  "i32_to_f16 a st =
     (let sign = (sint a < 0);
          absA = (if sign then - scast a else scast a) :: uint_fast32_t;
          shiftDist = int (softfloat_countLeadingZeros32 (ucast absA)) - 21
      in if 0 \<le> shiftDist then
           (if a \<noteq> 0 then ucast (packToF16UI sign (0x18 - shiftDist) (push_bit (nat shiftDist) absA)) else 0, st)
         else
           let shiftDist = shiftDist + 4;
               sig = (if shiftDist < 0
                      then drop_bit (nat (- shiftDist)) absA OR of_bool ((ucast (push_bit (nat (shiftDist AND 31)) absA) :: uint32_t) \<noteq> 0)
                      else push_bit (nat shiftDist) absA) :: uint_fast16_t
           in softfloat_roundPackToF16 sign (0x1C - shiftDist) sig st)"

definition ui64_to_f16 :: "uint64_t \<Rightarrow> sf_state \<Rightarrow> float16_t \<times> sf_state" where
  "ui64_to_f16 a st =
     (let shiftDist = int (softfloat_countLeadingZeros64 a) - 53
      in if 0 \<le> shiftDist then
           (if a \<noteq> 0 then ucast (packToF16UI False (0x18 - shiftDist) (push_bit (nat shiftDist) a)) else 0, st)
         else
           let shiftDist = shiftDist + 4;
               sig = (if shiftDist < 0
                      then softfloat_shortShiftRightJam64 a (word_of_int (- shiftDist))
                      else push_bit (nat shiftDist) a) :: uint_fast16_t
           in softfloat_roundPackToF16 False (0x1C - shiftDist) sig st)"

definition i64_to_f16 :: "int64_t \<Rightarrow> sf_state \<Rightarrow> float16_t \<times> sf_state" where
  "i64_to_f16 a st =
     (let sign = (sint a < 0);
          absA = (if sign then - scast a else scast a) :: uint_fast64_t;
          shiftDist = int (softfloat_countLeadingZeros64 absA) - 53
      in if 0 \<le> shiftDist then
           (if a \<noteq> 0 then ucast (packToF16UI sign (0x18 - shiftDist) (push_bit (nat shiftDist) absA)) else 0, st)
         else
           let shiftDist = shiftDist + 4;
               sig = (if shiftDist < 0
                      then softfloat_shortShiftRightJam64 absA (word_of_int (- shiftDist))
                      else push_bit (nat shiftDist) absA) :: uint_fast16_t
           in softfloat_roundPackToF16 sign (0x1C - shiftDist) sig st)"

definition ui64_to_f32 :: "uint64_t \<Rightarrow> sf_state \<Rightarrow> float32_t \<times> sf_state" where
  "ui64_to_f32 a st =
     (let shiftDist = int (softfloat_countLeadingZeros64 a) - 40
      in if 0 \<le> shiftDist then
           (if a \<noteq> 0 then ucast (packToF32UI False (0x95 - shiftDist) (push_bit (nat shiftDist) a)) else 0, st)
         else
           let shiftDist = shiftDist + 7;
               sig = (if shiftDist < 0
                      then softfloat_shortShiftRightJam64 a (word_of_int (- shiftDist))
                      else push_bit (nat shiftDist) a) :: uint_fast32_t
           in softfloat_roundPackToF32 False (0x9C - shiftDist) sig st)"

definition i64_to_f32 :: "int64_t \<Rightarrow> sf_state \<Rightarrow> float32_t \<times> sf_state" where
  "i64_to_f32 a st =
     (let sign = (sint a < 0);
          absA = (if sign then - scast a else scast a) :: uint_fast64_t;
          shiftDist = int (softfloat_countLeadingZeros64 absA) - 40
      in if 0 \<le> shiftDist then
           (if a \<noteq> 0 then ucast (packToF32UI sign (0x95 - shiftDist) (push_bit (nat shiftDist) absA)) else 0, st)
         else
           let shiftDist = shiftDist + 7;
               sig = (if shiftDist < 0
                      then softfloat_shortShiftRightJam64 absA (word_of_int (- shiftDist))
                      else push_bit (nat shiftDist) absA) :: uint_fast32_t
           in softfloat_roundPackToF32 sign (0x9C - shiftDist) sig st)"

definition ui32_to_f32 :: "uint32_t \<Rightarrow> sf_state \<Rightarrow> float32_t \<times> sf_state" where
  "ui32_to_f32 a st =
     (if a = 0 then (0, st)
      else if a AND 0x80000000 \<noteq> 0
      then softfloat_roundPackToF32 False 0x9D (ucast (drop_bit 1 a OR (a AND 1))) st
      else softfloat_normRoundPackToF32 False 0x9C (ucast a) st)"

definition i32_to_f32 :: "int32_t \<Rightarrow> sf_state \<Rightarrow> float32_t \<times> sf_state" where
  "i32_to_f32 a st =
     (let sign = (sint a < 0)
      in if a AND 0x7FFFFFFF = 0 then (if sign then ucast (packToF32UI True 0x9E 0) else 0, st)
         else
           let absA = (if sign then - scast a else scast a) :: uint_fast32_t
           in softfloat_normRoundPackToF32 sign 0x9C absA st)"

definition ui32_to_f64 :: "uint32_t \<Rightarrow> sf_state \<Rightarrow> float64_t \<times> sf_state" where
  "ui32_to_f64 a st =
     (if a = 0 then (0, st)
      else
        let shiftDist = int (softfloat_countLeadingZeros32 a) + 21
        in (packToF64UI False (0x432 - shiftDist) (push_bit (nat shiftDist) (ucast a)), st))"

definition i32_to_f64 :: "int32_t \<Rightarrow> sf_state \<Rightarrow> float64_t \<times> sf_state" where
  "i32_to_f64 a st =
     (if a = 0 then (0, st)
      else
        let sign = (sint a < 0);
            absA = (if sign then - scast a else scast a) :: uint_fast32_t;
            shiftDist = int (softfloat_countLeadingZeros32 (ucast absA)) + 21
        in (packToF64UI sign (0x432 - shiftDist) (push_bit (nat shiftDist) absA), st))"

definition ui64_to_f64 :: "uint64_t \<Rightarrow> sf_state \<Rightarrow> float64_t \<times> sf_state" where
  "ui64_to_f64 a st =
     (if a = 0 then (0, st)
      else if a AND 0x8000000000000000 \<noteq> 0
      then softfloat_roundPackToF64 False 0x43D (softfloat_shortShiftRightJam64 a 1) st
      else softfloat_normRoundPackToF64 False 0x43C a st)"

definition i64_to_f64 :: "int64_t \<Rightarrow> sf_state \<Rightarrow> float64_t \<times> sf_state" where
  "i64_to_f64 a st =
     (let sign = (sint a < 0)
      in if a AND 0x7FFFFFFFFFFFFFFF = 0 then (if sign then packToF64UI True 0x43E 0 else 0, st)
         else
           let absA = (if sign then - scast a else scast a) :: uint_fast64_t
           in softfloat_normRoundPackToF64 sign 0x43C absA st)"

section \<open>Specification\<close>

text \<open>The conversion of an integer rounds it once; zero becomes positive zero.\<close>

definition ieee_of_int :: "nat \<Rightarrow> nat \<Rightarrow> int \<Rightarrow> sf_state \<Rightarrow> 'w::len word \<times> sf_state" where
  "ieee_of_int fb eb i st = fp_result fb eb (i < 0) \<bar>real_of_int i\<bar> st"

section \<open>Rounding an integer\<close>

text \<open>
  \<open>c\<close> is the leading-zero count of the magnitude in a word of \<open>fb + 1 + off\<close> bits: the magnitude
  fits the significand when \<open>c\<close> is at least \<open>off\<close>, else it is shifted right, short of the guard bits.
\<close>

context sf_format
begin

definition int_exp :: int where
  "int_exp = 2 ^ (eb - 1) + int fb - 2"

lemma int_exp_qmin: "int_exp + fp_qmin fb eb = 0"
  by (simp add: int_exp_def fp_qmin_def)

lemma of_int_exact:
  assumes c: "is_clz (fb + 1 + off) n c" and n: "0 < n" and off: "off \<le> c"
    and small: "int fb < 2 ^ (eb - 1)"
    and sig: "unat sig = n * 2 ^ (c - off)"
  shows "(o_pack ops neg (int_exp - int (c - off)) sig, st) = fp_result fb eb neg (real n) st"
proof -
  have b: "2 ^ (fb + off) \<le> n * 2 ^ c" "n * 2 ^ c < 2 ^ (fb + 1 + off)" using c n by (simp_all add: is_clz_def)
  have "(2::nat) ^ c = 2 ^ (c - off) * 2 ^ off" using off by (simp flip: power_add)
  with b have s: "2 ^ fb \<le> n * 2 ^ (c - off)" "n * 2 ^ (c - off) < 2 ^ (fb + 1)"
    by (simp_all add: power_add)
  have "2 ^ (c - off) \<le> n * 2 ^ (c - off)" using n by simp
  also have "\<dots> < 2 ^ (fb + 1)" by (rule s(2))
  finally have "(2::nat) ^ (c - off) < 2 ^ (fb + 1)" .
  then have "c - off < fb + 1" by (rule power_less_imp_less_exp [rotated]) simp
  then have k: "c - off \<le> fb" by simp
  have two: "(2::int) ^ eb = 2 * 2 ^ (eb - 1)" using eb_ge by (simp flip: power_Suc)
  have two': "(2::int) ^ 1 \<le> 2 ^ (eb - 1)" using eb_ge by (intro power_increasing) auto
  define e where "e = nat (int_exp - int (c - off))"
  have e: "int_exp - int (c - off) = int e" using two' k by (simp add: int_exp_def e_def)
  have "int e + 1 < 2 ^ eb - 1" using e small two unfolding int_exp_def by linarith
  then have "int (e + 1) < int (2 ^ eb - 1)" by (simp add: of_nat_diff)
  then have e_less: "e + 1 < 2 ^ eb - 1" by (simp only: of_nat_less_iff)
  have "(o_pack ops neg (int e) sig, st) = fp_result fb eb neg (real (n * 2 ^ (c - off)) * pw2 (fp_qmin fb eb + int e)) st"
    using s e_less by (intro pack_exact [OF _ _ _ sig]) auto
  also have "real (n * 2 ^ (c - off)) * pw2 (fp_qmin fb eb + int e) = real n"
    using int_exp_qmin e [symmetric] by (simp add: pw2_diff pw2_add add.commute flip: power_int_add)
  finally show ?thesis unfolding e .
qed

lemma of_int_round:
  assumes c: "is_clz (fb + 1 + off) n c" and n: "0 < n" and "int c < int off"
    and small: "2 ^ (eb - 1) + fb + off < 2 ^ 13"
    and sig: "sd = int c - int off + int g"
      "unat sig = (if sd < 0 then jam (nat (- sd)) n else n * 2 ^ nat sd)"
  shows "o_roundPack ops neg (int_exp + int g - sd) sig st = fp_result fb eb neg (real n) st"
proof -
  define Y d where "Y = (if sd < 0 then n else n * 2 ^ nat sd)" and "d = nat (- sd)"
  have jam: "unat sig = jam d Y" by (simp add: sig(2) Y_def d_def)
  have b: "2 ^ (fb + off) \<le> n * 2 ^ c" "n * 2 ^ c < 2 ^ (fb + 1 + off)" using c n by (simp_all add: is_clz_def)
  have range: "2 ^ (fb + g + d) \<le> Y \<and> Y < 2 ^ (fb + g + 1 + d)"
  proof (cases "sd < 0")
    case True
    then have "fb + off = fb + g + d + c" "fb + 1 + off = fb + g + 1 + d + c" using sig(1) by (simp_all add: d_def)
    then have "2 ^ (fb + g + d) * 2 ^ c \<le> n * 2 ^ c" "n * 2 ^ c < 2 ^ (fb + g + 1 + d) * 2 ^ c"
      using b by (simp_all only: power_add)
    then show ?thesis using True by (simp add: Y_def)
  next
    case False
    define k where "k = nat sd"
    have "off + k = c + g" using False sig(1) by (simp add: k_def)
    then have "fb + g + c = fb + off + k" "fb + g + 1 + c = fb + 1 + off + k" by simp_all
    then have "(2::nat) ^ (fb + g) * 2 ^ c = 2 ^ (fb + off) * 2 ^ k" "(2::nat) ^ (fb + g + 1) * 2 ^ c = 2 ^ (fb + 1 + off) * 2 ^ k"
      by (simp_all only: flip: power_add)
    moreover have "2 ^ (fb + off) * 2 ^ k \<le> n * 2 ^ c * 2 ^ k" "n * 2 ^ c * 2 ^ k < 2 ^ (fb + 1 + off) * 2 ^ k"
      using b by simp_all
    ultimately have "2 ^ (fb + g) * 2 ^ c \<le> n * 2 ^ k * 2 ^ c" "n * 2 ^ k * 2 ^ c < 2 ^ (fb + g + 1) * 2 ^ c"
      by (simp_all only: mult.assoc mult.commute [of "2 ^ c"])
    then show ?thesis using False by (simp add: Y_def d_def k_def)
  qed
  show ?thesis
  proof (rule round_jam [OF jam])
    have "2 ^ (fb + g) \<le> Y div 2 ^ d" using range by (simp add: less_eq_div_iff_mult_less_eq power_add)
    also have "\<dots> \<le> unat sig" unfolding jam by (rule jam_ge)
    finally show "2 ^ (fb + g) \<le> unat sig" .
    show "unat sig < 2 ^ (fb + g + 1)" unfolding jam using range by (intro jam_less) (simp_all add: power_add)
    have k: "int_exp + int g - sd + fp_qmin fb eb - int g - int d = - sd - int d" using int_exp_qmin by simp
    show "real n = real Y * pw2 (int_exp + int g - sd + fp_qmin fb eb - int g - int d)"
    proof (cases "sd < 0")
      case False
      then have "- sd - int d = - int (nat sd)" by (simp add: d_def)
      then show ?thesis unfolding k using False by (simp only: Y_def power_int_minus pw2_nat) simp
    qed (simp add: k Y_def d_def int_exp_qmin)
    have "int (2 ^ (eb - 1) + fb + off) < int (2 ^ 13)" using small by (simp only: of_nat_less_iff)
    then have "2 ^ (eb - 1) + int fb + int off < 8192" by simp
    then show "- (2 ^ 14) \<le> int_exp + int g - sd" "int_exp + int g - sd < 2 ^ 14"
      using assms(3) sig(1) unfolding int_exp_def by simp_all
  qed
qed

text \<open>Both ways out of a conversion, and zero.\<close>

lemma of_int_shift:
  assumes c: "is_clz (fb + 1 + off) n c" and neg: "n = 0 \<Longrightarrow> \<not> neg"
    and small: "int fb < 2 ^ (eb - 1)" "2 ^ (eb - 1) + fb + off < 2 ^ 13"
    and exact: "off \<le> c \<Longrightarrow> 0 < n \<Longrightarrow> n * 2 ^ (c - off) < 2 ^ (fb + 1) \<Longrightarrow> unat sigE = n * 2 ^ (c - off)"
    and round: "c < off \<Longrightarrow> 0 < n \<Longrightarrow> (off \<le> c + g \<Longrightarrow> n * 2 ^ (c + g - off) < 2 ^ (fb + g + 1)) \<Longrightarrow>
      unat sigR = (if c + g < off then jam (off - (c + g)) n else n * 2 ^ (c + g - off))"
    and code: "off' = int off" "g' = int g" "e1 = int_exp" "e2 = int_exp + int g" "P \<longleftrightarrow> n \<noteq> 0"
  shows "(if 0 \<le> int c - off' then (if P then o_pack ops neg (e1 - (int c - off')) sigE else 0, st)
          else o_roundPack ops neg (e2 - (int c - off' + g')) sigR st) =
    fp_result fb eb neg (real n) st"
proof (cases "n = 0")
  case True
  then have "c = fb + 1 + off" using c by (simp add: is_clz_def)
  then show ?thesis using True neg by (simp add: fp_word_def code)
next
  case n: False
  have b: "n * 2 ^ c < 2 ^ (fb + 1 + off)" using c n by (simp add: is_clz_def)
  show ?thesis
  proof (cases "off \<le> c")
    case True
    have "(2::nat) ^ c = 2 ^ (c - off) * 2 ^ off" using True by (simp flip: power_add)
    with b have "n * 2 ^ (c - off) < 2 ^ (fb + 1)" by (simp add: power_add)
    with True n show ?thesis
      using of_int_exact [OF c _ True small(1), of sigE neg st] exact by (simp add: of_nat_diff code)
  next
    case False
    have "n * 2 ^ (c + g - off) < 2 ^ (fb + g + 1)" if "off \<le> c + g"
    proof -
      have "n * 2 ^ (c + g - off) * 2 ^ off = n * 2 ^ c * 2 ^ g"
        using that by (simp add: mult.assoc flip: power_add)
      also have "\<dots> < 2 ^ (fb + 1 + off) * 2 ^ g" using b by simp
      finally show ?thesis by (simp add: power_add)
    qed
    with False n round have sig: "unat sigR = (if c + g < off then jam (off - (c + g)) n else n * 2 ^ (c + g - off))"
      by simp
    have "nat (- (int c - int off + int g)) = off - (c + g)" "nat (int c - int off + int g) = c + g - off"
      "int c - int off + int g < 0 \<longleftrightarrow> c + g < off" by linarith+
    then have "o_roundPack ops neg (int_exp + int g - (int c - int off + int g)) sigR st = fp_result fb eb neg (real n) st"
      using False n sig by (intro of_int_round [OF c _ _ small(2) refl]) simp_all
    then show ?thesis using False by (simp add: code)
  qed
qed

end

section \<open>Absolute values\<close>

lemma unat_absA:
  fixes a :: "'a::len word"
  assumes "LENGTH('a) \<le> LENGTH('b)"
  shows "unat ((if sint a < 0 then - scast a else scast a) :: 'b::len word) = nat \<bar>sint a\<bar>"
proof -
  have "(if sint a < 0 then - scast a else scast a :: 'b word) = word_of_int \<bar>sint a\<bar>"
    by (cases "sint a < 0") (simp_all only: abs_if scast_eq if_True if_False of_int_minus)
  moreover have "\<bar>sint a\<bar> < 2 ^ LENGTH('b)"
  proof -
    have "\<bar>sint a\<bar> \<le> 2 ^ (LENGTH('a) - 1)" using sint_lt [of a] sint_ge [of a] by (simp add: abs_le_iff)
    also have "(2::int) ^ (LENGTH('a) - 1) < 2 ^ LENGTH('b)"
      using assms len_gt_0 [where 'a = 'a] by (intro power_strict_increasing) (auto simp del: len_gt_0)
    finally show ?thesis .
  qed
  ultimately show ?thesis by (simp only: unat_word_of_int abs_ge_zero)
qed

lemma sint_0_iff: "nat \<bar>sint a\<bar> = 0 \<longleftrightarrow> a = 0"
  by (simp add: signed_eq_0_iff)

lemma nat_abs_sint_le: "nat \<bar>sint (a :: 'a::len word)\<bar> \<le> 2 ^ (LENGTH('a) - 1)"
proof -
  have "\<bar>sint a\<bar> \<le> 2 ^ (LENGTH('a) - 1)" using sint_lt [of a] sint_ge [of a] by (simp add: abs_le_iff)
  then have "nat \<bar>sint a\<bar> \<le> nat (2 ^ (LENGTH('a) - 1))" by (rule nat_mono)
  then show ?thesis by (simp add: nat_power_eq)
qed

section \<open>Conversions through a significand\<close>

lemma unat_shift_jam32:
  fixes a :: uint32_t
  assumes "k \<in> {1..31}"
  shows "unat (drop_bit k a OR of_bool (push_bit (nat (- int k AND 31)) a \<noteq> 0)) = jam k (unat a)"
  using assms shiftRightJam_refines [of k a] by (simp add: complement_dist)

lemma drop_bit_or_jam32:
  fixes x :: uint64_t
  assumes "k \<in> {1..31}" and "unat x < 2 ^ 32"
  shows "unat (drop_bit k x OR of_bool ((ucast (push_bit (nat (- int k AND 31)) x) :: uint32_t) \<noteq> 0)) = jam k (unat x)"
proof -
  have "unat (ucast x :: uint32_t) = unat x" using assms(2) by (intro unat_ucast_less) simp
  then show ?thesis
    using assms(1) shiftRightJam_refines [of k "ucast x :: uint32_t"]
    by (simp add: complement_dist ucast_push_bit unat_or unat_drop_bit)
qed

lemma int_exp_eq: "f16.int_exp = 0x18" "f32.int_exp = 0x95" "f64.int_exp = 0x432"
  by (simp_all add: f16.int_exp_def f32.int_exp_def f64.int_exp_def)

lemmas f16_of_int_shift = f16.of_int_shift [unfolded f16_ops_sel int_exp_eq]
lemmas f32_of_int_shift = f32.of_int_shift [unfolded f32_ops_sel int_exp_eq]

text \<open>The shifted significands of the code.\<close>

lemma unat_push_bit_sig:
  "\<lbrakk>unat (x :: uint64_t) = n; n * 2 ^ m < 2 ^ k; k \<le> 64\<rbrakk> \<Longrightarrow> unat (push_bit m x) = n * 2 ^ m"
proof -
  assume a: "unat x = n" "n * 2 ^ m < 2 ^ k" "k \<le> 64"
  have "(2::nat) ^ k \<le> 2 ^ LENGTH(64)" using a(3) by (intro power_increasing) auto
  then show ?thesis using a(1,2) by (simp only: unat_push_bit_less less_le_trans)
qed

lemma unat_exact_sig:
  assumes "n * 2 ^ (c - off) < 2 ^ k" "off \<le> c" "unat (x :: uint64_t) = n" "off' = int off" "k \<le> 64"
  shows "unat (push_bit (nat (int c - off')) x) = n * 2 ^ (c - off)"
proof -
  have "nat (int c - off') = c - off" using assms(2,4) by simp
  then show ?thesis using unat_push_bit_sig [OF assms(3,1,5)] by simp
qed

lemma unat_round_sig:
  assumes "off \<le> c + g \<Longrightarrow> n * 2 ^ (c + g - off) < 2 ^ k" "c < off" "off' = int off" "g' = int g" "k \<le> 64"
    and "unat (x :: uint64_t) = n"
    and "\<And>k. k \<in> {1..off} \<Longrightarrow> unat (J (- int k)) = jam k n"
  shows "unat (if int c - off' + g' < 0 then J (int c - off' + g') else push_bit (nat (int c - off' + g')) x) =
    (if c + g < off then jam (off - (c + g)) n else n * 2 ^ (c + g - off))"
proof (cases "c + g < off")
  case True
  define k where "k = off - (c + g)"
  have "int c - off' + g' = - int k" "k \<in> {1..off}" using True assms(3,4) by (simp_all add: k_def)
  then show ?thesis using True assms(7) by (simp add: k_def [symmetric])
next
  case False
  then have d: "int c - off' + g' = int (c + g - off)" using assms(3,4) by simp
  show ?thesis unfolding d nat_int using False unat_push_bit_sig [OF assms(6) _ assms(5)] assms(1) by simp
qed

lemma unat_shift_jam64:
  assumes "k \<in> {1..63}"
  shows "unat (softfloat_shortShiftRightJam64 a (word_of_nat k)) = jam k (unat a)"
proof -
  have k: "unat (word_of_nat k :: 8 word) = k" using assms by (simp add: unat_of_nat)
  then show ?thesis using unat_shortShiftRightJam64 [of "word_of_nat k" a] assms by (simp only: k) simp
qed

lemma ui32_to_f16_spec: "ui32_to_f16 a st = fp_result 10 5 False (real (unat a)) st"
proof -
  define c where "c = softfloat_countLeadingZeros32 a"
  have c: "is_clz (10 + 1 + 21) (unat a) c" using countLeadingZeros32_correct [of a] by (simp add: c_def)
  show ?thesis
    unfolding ui32_to_f16_def Let_def c_def [symmetric]
  proof (rule f16_of_int_shift [OF c], goal_cases)
    case 4
    then show ?case by (intro unat_exact_sig [where k = "10 + 1"]) simp_all
  next
    case 5
    then show ?case by (intro unat_round_sig [where k = "10 + 4 + 1"]) (simp_all add: unat_shift_jam32 split del: split_of_bool)
  qed (simp_all add: word_neq_0_unat)
qed

lemma i32_to_f16_spec: "i32_to_f16 a st = fp_result 10 5 (sint a < 0) (real (nat \<bar>sint a\<bar>)) st"
proof -
  define x where "x = ((if sint a < 0 then - scast a else scast a) :: uint64_t)"
  have x: "unat x = nat \<bar>sint a\<bar>" unfolding x_def by (rule unat_absA) simp
  define c where "c = softfloat_countLeadingZeros32 (ucast x)"
  have lt: "unat x < 2 ^ 32" using nat_abs_sint_le [of a] by (simp add: x)
  have c: "is_clz (10 + 1 + 21) (nat \<bar>sint a\<bar>) c"
    using countLeadingZeros32_correct [of "ucast x"] lt by (simp add: c_def unat_ucast_less x)
  show ?thesis
    unfolding i32_to_f16_def Let_def x_def [symmetric] c_def [symmetric]
  proof (rule f16_of_int_shift [OF c], goal_cases)
    case 4
    then show ?case by (intro unat_exact_sig [where k = "10 + 1"]) (simp_all add: x)
  next
    case 5
    then show ?case by (intro unat_round_sig [where k = "10 + 4 + 1"]) (simp_all add: drop_bit_or_jam32 [OF _ lt] flip: x split del: split_of_bool)
  qed (auto simp: signed_eq_0_iff)
qed

lemma ui64_to_f16_spec: "ui64_to_f16 a st = fp_result 10 5 False (real (unat a)) st"
proof -
  define c where "c = softfloat_countLeadingZeros64 a"
  have c: "is_clz (10 + 1 + 53) (unat a) c" using countLeadingZeros64_correct [of a] by (simp add: c_def)
  show ?thesis
    unfolding ui64_to_f16_def Let_def c_def [symmetric]
  proof (rule f16_of_int_shift [OF c], goal_cases)
    case 4
    then show ?case by (intro unat_exact_sig [where k = "10 + 1"]) simp_all
  next
    case 5
    then show ?case by (intro unat_round_sig [where k = "10 + 4 + 1"]) (simp_all add: unat_shift_jam64)
  qed (simp_all add: word_neq_0_unat)
qed

lemma i64_to_f16_spec: "i64_to_f16 a st = fp_result 10 5 (sint a < 0) (real (nat \<bar>sint a\<bar>)) st"
proof -
  define x where "x = ((if sint a < 0 then - scast a else scast a) :: uint64_t)"
  have x: "unat x = nat \<bar>sint a\<bar>" unfolding x_def by (rule unat_absA) simp
  define c where "c = softfloat_countLeadingZeros64 x"
  have c: "is_clz (10 + 1 + 53) (nat \<bar>sint a\<bar>) c" using countLeadingZeros64_correct [of x] by (simp add: c_def x)
  show ?thesis
    unfolding i64_to_f16_def Let_def x_def [symmetric] c_def [symmetric]
  proof (rule f16_of_int_shift [OF c], goal_cases)
    case 4
    then show ?case by (intro unat_exact_sig [where k = "10 + 1"]) (simp_all add: x)
  next
    case 5
    then show ?case by (intro unat_round_sig [where k = "10 + 4 + 1"]) (simp_all add: unat_shift_jam64 x)
  qed (auto simp: signed_eq_0_iff)
qed

lemma ui64_to_f32_spec: "ui64_to_f32 a st = fp_result 23 8 False (real (unat a)) st"
proof -
  define c where "c = softfloat_countLeadingZeros64 a"
  have c: "is_clz (23 + 1 + 40) (unat a) c" using countLeadingZeros64_correct [of a] by (simp add: c_def)
  show ?thesis
    unfolding ui64_to_f32_def Let_def c_def [symmetric]
  proof (rule f32_of_int_shift [OF c], goal_cases)
    case 4
    then show ?case by (intro unat_exact_sig [where k = "23 + 1"]) simp_all
  next
    case 5
    then show ?case by (intro unat_round_sig [where k = "23 + 7 + 1"]) (simp_all add: unat_shift_jam64)
  qed (simp_all add: word_neq_0_unat)
qed

lemma i64_to_f32_spec: "i64_to_f32 a st = fp_result 23 8 (sint a < 0) (real (nat \<bar>sint a\<bar>)) st"
proof -
  define x where "x = ((if sint a < 0 then - scast a else scast a) :: uint64_t)"
  have x: "unat x = nat \<bar>sint a\<bar>" unfolding x_def by (rule unat_absA) simp
  define c where "c = softfloat_countLeadingZeros64 x"
  have c: "is_clz (23 + 1 + 40) (nat \<bar>sint a\<bar>) c" using countLeadingZeros64_correct [of x] by (simp add: c_def x)
  show ?thesis
    unfolding i64_to_f32_def Let_def x_def [symmetric] c_def [symmetric]
  proof (rule f32_of_int_shift [OF c], goal_cases)
    case 4
    then show ?case by (intro unat_exact_sig [where k = "23 + 1"]) (simp_all add: x)
  next
    case 5
    then show ?case by (intro unat_round_sig [where k = "23 + 7 + 1"]) (simp_all add: unat_shift_jam64 x)
  qed (auto simp: signed_eq_0_iff)
qed

section \<open>Conversions that normalise\<close>

text \<open>The test of the top bit, and the absolute value of the least integer.\<close>

lemma top_bit_iff:
  fixes a :: "'a::len word"
  shows "a AND push_bit (LENGTH('a) - 1) 1 \<noteq> 0 \<longleftrightarrow> 2 ^ (LENGTH('a) - 1) \<le> unat a"
proof -
  have "unat (a AND push_bit (LENGTH('a) - 1) (mask 1)) = unat a div 2 ^ (LENGTH('a) - 1) mod 2 ^ 1 * 2 ^ (LENGTH('a) - 1)"
    by (rule unat_and_field) simp
  moreover have "unat a div 2 ^ (LENGTH('a) - 1) < 2"
    using unat_lt_2p [of a] by (intro less_mult_imp_div_less) (simp flip: power_Suc)
  ultimately show ?thesis by (simp add: word_neq_0_unat div_greater_zero_iff mask_eq_exp_minus_1)
qed

lemma abs_sint:
  "nat \<bar>sint (a :: 'a::len word)\<bar> = (if sint a < 0 then 2 ^ LENGTH('a) - unat a else unat a)"
  using unat_absA [of a, where 'b = 'a] by (auto simp: unat_uminus split: if_splits)

lemma low_bits_zero:
  fixes a :: "'a::len word"
  assumes "a AND mask (LENGTH('a) - 1) = 0"
  shows "nat \<bar>sint a\<bar> = (if sint a < 0 then 2 ^ (LENGTH('a) - 1) else 0)"
proof -
  note abs = abs_sint [of a]
  have L: "(2::nat) ^ LENGTH('a) = 2 * 2 ^ (LENGTH('a) - 1)" by (simp flip: power_Suc)
  have "unat a mod 2 ^ (LENGTH('a) - 1) = 0" using assms unat_and_mask [of a "LENGTH('a) - 1"] by simp
  then obtain k where k: "unat a = 2 ^ (LENGTH('a) - 1) * k" by auto
  moreover have "unat a < 2 ^ LENGTH('a)" by (rule unat_lt_2p)
  ultimately have "k < 2" using L by (simp add: mult.commute)
  then consider "k = 0" | "k = 1" by linarith
  then show ?thesis
  proof cases
    case 1
    then have "a = 0" using k by (simp add: word_eq_unat)
    then show ?thesis by simp
  next
    case 2
    then have u: "unat a = 2 ^ (LENGTH('a) - 1)" using k by simp
    have "sint a < 0"
    proof (rule ccontr)
      assume "\<not> sint a < 0"
      then have "sint a = int (2 ^ (LENGTH('a) - 1))" using abs u by simp
      then show False using sint_lt [of a] by simp
    qed
    then show ?thesis using abs u L by simp
  qed
qed

lemma low_bits_nonzero:
  fixes a :: "'a::len word"
  assumes "a AND mask (LENGTH('a) - 1) \<noteq> 0"
  shows "0 < nat \<bar>sint a\<bar>" and "nat \<bar>sint a\<bar> < 2 ^ (LENGTH('a) - 1)"
proof -
  have L: "(2::nat) ^ LENGTH('a) = 2 * 2 ^ (LENGTH('a) - 1)" by (simp flip: power_Suc)
  have "a \<noteq> 0" using assms by auto
  then show "0 < nat \<bar>sint a\<bar>" by (simp add: signed_eq_0_iff)
  have "nat \<bar>sint a\<bar> \<noteq> 2 ^ (LENGTH('a) - 1)"
  proof
    assume h: "nat \<bar>sint a\<bar> = 2 ^ (LENGTH('a) - 1)"
    then have i: "\<bar>sint a\<bar> = 2 ^ (LENGTH('a) - 1)" by (simp add: nat_eq_iff)
    then have "sint a < 0" using sint_lt [of a] by linarith
    then have "2 ^ LENGTH('a) - unat a = 2 ^ (LENGTH('a) - 1)" using abs_sint [of a] h by simp
    then have "unat a = 2 ^ (LENGTH('a) - 1)" using L unat_lt_2p [of a] by linarith
    then show False using assms unat_and_mask [of a "LENGTH('a) - 1"] by (simp add: word_neq_0_unat)
  qed
  then show "nat \<bar>sint a\<bar> < 2 ^ (LENGTH('a) - 1)" using nat_abs_sint_le [of a] by linarith
qed

lemma ui32_to_f32_spec: "ui32_to_f32 a st = fp_result 23 8 False (real (unat a)) st"
proof -
  consider (zero) "a = 0" | (top) "a \<noteq> 0" "2 ^ 31 \<le> unat a" | (low) "a \<noteq> 0" "unat a < 2 ^ 31" by linarith
  then show ?thesis
  proof cases
    case zero
    then show ?thesis by (simp add: ui32_to_f32_def fp_word_def)
  next
    case top
    have v: "real (unat a) = real (unat a) * pw2 (0x9D + fp_qmin 23 8 - int 7 - int 1)" by (simp add: fp_qmin_def)
    have "unat (a AND mask 1) = unat a mod 2" using unat_and_mask [of a 1] by simp
    then have "unat (ucast (drop_bit 1 a OR (a AND 1)) :: uint64_t) = jam 1 (unat a)"
      by (simp add: unat_or unat_drop_bit unat_and jam_eq_or and_one_eq odd_iff_mod_2_eq_one)
    then have "softfloat_roundPackToF32 False 0x9D (ucast (drop_bit 1 a OR (a AND 1))) st = fp_result 23 8 False (real (unat a)) st"
      using top unat_lt_2p [of a] jam_ge [of "unat a" 1] jam_less [of "unat a" 31 1]
      by (intro rp32.round_jam [OF _ _ _ _ _ v]) simp_all
    then show ?thesis using top top_bit_iff [of a] by (simp add: ui32_to_f32_def)
  next
    case low
    then show ?thesis using top_bit_iff [of a] normRoundPackToF32_correct [of "ucast a" "0x9C" False st]
      by (simp add: ui32_to_f32_def unat_gt_0 fp_qmin_def)
  qed
qed

lemma ui64_to_f64_spec: "ui64_to_f64 a st = fp_result 52 11 False (real (unat a)) st"
proof -
  consider (zero) "a = 0" | (top) "a \<noteq> 0" "2 ^ 63 \<le> unat a" | (low) "a \<noteq> 0" "unat a < 2 ^ 63" by linarith
  then show ?thesis
  proof cases
    case zero
    then show ?thesis by (simp add: ui64_to_f64_def fp_word_def)
  next
    case top
    have v: "real (unat a) = real (unat a) * pw2 (0x43D + fp_qmin 52 11 - int 10 - int 1)" by (simp add: fp_qmin_def)
    have "unat (softfloat_shortShiftRightJam64 a 1) = jam 1 (unat a)" by (simp add: unat_shortShiftRightJam64)
    then have "softfloat_roundPackToF64 False 0x43D (softfloat_shortShiftRightJam64 a 1) st =
        fp_result 52 11 False (real (unat a)) st"
      using top unat_lt_2p [of a] jam_ge [of "unat a" 1] jam_less [of "unat a" 63 1]
      by (intro rp64.round_jam [OF _ _ _ _ _ v]) simp_all
    then show ?thesis using top top_bit_iff [of a] by (simp add: ui64_to_f64_def)
  next
    case low
    then show ?thesis using top_bit_iff [of a] normRoundPackToF64_correct [of a "0x43C" False st]
      by (simp add: ui64_to_f64_def unat_gt_0 fp_qmin_def)
  qed
qed

lemma i32_to_f32_spec: "i32_to_f32 a st = fp_result 23 8 (sint a < 0) (real (nat \<bar>sint a\<bar>)) st"
proof -
  define x where "x = ((if sint a < 0 then - scast a else scast a) :: uint64_t)"
  have x: "unat x = nat \<bar>sint a\<bar>" unfolding x_def by (rule unat_absA) simp
  have m: "(0x7FFFFFFF :: int32_t) = mask (LENGTH(32) - 1)" by (simp add: mask_eq_exp_minus_1)
  note code = i32_to_f32_def [of a st, unfolded Let_def m, folded x_def]
  show ?thesis
  proof (cases "a AND mask (LENGTH(32) - 1) = 0")
    case True
    have "fp_result 23 8 True (fp_mag 23 8 (0x9E * 2 ^ 23)) st = (ucast (packToF32UI True 0x9E 0) :: float32_t, st)"
      by (subst rp32.exact_result) (simp_all add: fp_inf_def packToF32UI_fp_word)
    then show ?thesis unfolding code if_P [OF True] low_bits_zero [OF True]
      by (simp add: fp_mag_def fp_qmin_def fp_word_def)
  next
    case False
    note r = low_bits_nonzero [OF False]
    then show ?thesis unfolding code if_not_P [OF False]
      using normRoundPackToF32_correct [of x "0x9C" "sint a < 0" st] by (simp add: x fp_qmin_def)
  qed
qed

lemma i64_to_f64_spec: "i64_to_f64 a st = fp_result 52 11 (sint a < 0) (real (nat \<bar>sint a\<bar>)) st"
proof -
  define x where "x = ((if sint a < 0 then - scast a else scast a) :: uint64_t)"
  have x: "unat x = nat \<bar>sint a\<bar>" unfolding x_def by (rule unat_absA) simp
  have m: "(0x7FFFFFFFFFFFFFFF :: int64_t) = mask (LENGTH(64) - 1)" by (simp add: mask_eq_exp_minus_1)
  note code = i64_to_f64_def [of a st, unfolded Let_def m, folded x_def]
  show ?thesis
  proof (cases "a AND mask (LENGTH(64) - 1) = 0")
    case True
    have "fp_result 52 11 True (fp_mag 52 11 (0x43E * 2 ^ 52)) st = (packToF64UI True 0x43E 0, st)"
      by (subst rp64.exact_result) (simp_all add: fp_inf_def packToF64UI_fp_word)
    then show ?thesis unfolding code if_P [OF True] low_bits_zero [OF True]
      by (simp add: fp_mag_def fp_qmin_def fp_word_def)
  next
    case False
    note r = low_bits_nonzero [OF False]
    then show ?thesis unfolding code if_not_P [OF False]
      using normRoundPackToF64_correct [of x "0x43C" "sint a < 0" st] by (simp add: x fp_qmin_def)
  qed
qed

text \<open>A 32-bit integer always fits the significand of binary64.\<close>

lemma pack_f64_exact:
  assumes "is_clz 32 n c" and "0 < n" and "unat x = n"
  shows "(packToF64UI neg (0x432 - (int c + 21)) (push_bit (nat (int c + 21)) x), st) = fp_result 52 11 neg (real n) st"
proof -
  have c: "is_clz (52 + 1 + 0) n (c + 21)" using is_clz_shift [OF assms(1), of 21] by (simp add: add.commute)
  have "n * 2 ^ (c + 21) < 2 ^ 53" using c assms(2) by (simp add: is_clz_def)
  then have "unat (push_bit (c + 21) x) = n * 2 ^ (c + 21)" using assms(3) by (simp add: unat_push_bit_less)
  moreover have "nat (int c + 21) = c + 21" by simp
  ultimately show ?thesis
    using f64.of_int_exact [OF c assms(2), of "push_bit (c + 21) x" neg st] by (simp add: int_exp_eq)
qed

lemma ui32_to_f64_spec: "ui32_to_f64 a st = fp_result 52 11 False (real (unat a)) st"
proof (cases "a = 0")
  case False
  then show ?thesis
    using pack_f64_exact [OF countLeadingZeros32_correct, of a "ucast a" False st]
    by (simp add: ui32_to_f64_def unat_gt_0)
qed (simp add: ui32_to_f64_def fp_word_def)

lemma i32_to_f64_spec: "i32_to_f64 a st = fp_result 52 11 (sint a < 0) (real (nat \<bar>sint a\<bar>)) st"
proof (cases "a = 0")
  case False
  define x where "x = ((if sint a < 0 then - scast a else scast a) :: uint64_t)"
  have x: "unat x = nat \<bar>sint a\<bar>" unfolding x_def by (rule unat_absA) simp
  have "unat x < 2 ^ 32" using nat_abs_sint_le [of a] by (simp add: x)
  then have c: "is_clz 32 (nat \<bar>sint a\<bar>) (softfloat_countLeadingZeros32 (ucast x))"
    using countLeadingZeros32_correct [of "ucast x"] by (simp add: unat_ucast_less x)
  have "0 < nat \<bar>sint a\<bar>" using False by (simp add: signed_eq_0_iff)
  from pack_f64_exact [OF c this x] show ?thesis
    using False unfolding i32_to_f64_def Let_def x_def [symmetric] by simp
qed (simp add: i32_to_f64_def fp_word_def)

section \<open>Correctness\<close>

lemma ieee_of_int_unsigned: "fp_result fb eb False (real (unat a)) st = ieee_of_int fb eb (uint a) st"
proof -
  have "real_of_int (uint a) = real (unat a)" by simp
  then have "\<bar>real_of_int (uint a)\<bar> = real (unat a)" by (simp only: abs_of_nat)
  then show ?thesis unfolding ieee_of_int_def by simp
qed

lemma ieee_of_int_signed: "fp_result fb eb (i < 0) (real (nat \<bar>i\<bar>)) st = ieee_of_int fb eb i st"
  by (simp add: ieee_of_int_def)

text \<open>
  C2. Every conversion of an integer returns the floating-point number nearest to it in the current
  rounding mode, rounded once, with exactly the exceptions of that rounding: for 32-bit and 64-bit
  arguments, unsigned and signed, the least signed integer included, and all three formats.
\<close>

theorem int_to_float_correctly_rounded:
  fixes u32 i32 :: "32 word" and u64 i64 :: "64 word"
  shows "(ui32_to_f16 u32 st = ieee_of_int 10 5 (uint u32) st) \<and>
    (ui32_to_f32 u32 st = ieee_of_int 23 8 (uint u32) st) \<and>
    (ui32_to_f64 u32 st = ieee_of_int 52 11 (uint u32) st) \<and>
    (i32_to_f16 i32 st = ieee_of_int 10 5 (sint i32) st) \<and>
    (i32_to_f32 i32 st = ieee_of_int 23 8 (sint i32) st) \<and>
    (i32_to_f64 i32 st = ieee_of_int 52 11 (sint i32) st) \<and>
    (ui64_to_f16 u64 st = ieee_of_int 10 5 (uint u64) st) \<and>
    (ui64_to_f32 u64 st = ieee_of_int 23 8 (uint u64) st) \<and>
    (ui64_to_f64 u64 st = ieee_of_int 52 11 (uint u64) st) \<and>
    (i64_to_f16 i64 st = ieee_of_int 10 5 (sint i64) st) \<and>
    (i64_to_f32 i64 st = ieee_of_int 23 8 (sint i64) st) \<and>
    (i64_to_f64 i64 st = ieee_of_int 52 11 (sint i64) st)"
  by (simp_all only: ieee_of_int_signed ieee_of_int_unsigned ui32_to_f16_spec ui32_to_f32_spec ui32_to_f64_spec
      i32_to_f16_spec i32_to_f32_spec i32_to_f64_spec ui64_to_f16_spec ui64_to_f32_spec ui64_to_f64_spec
      i64_to_f16_spec i64_to_f32_spec i64_to_f64_spec)

end
