(* ===== verification/SF_RoundInt.thy ===== *)
theory SF_RoundInt
  imports SF_Interface
begin

text \<open>
  Rounding to an integer: \<^verbatim>\<open>s_roundToI32.c\<close>, \<^verbatim>\<open>s_roundToUI32.c\<close>, \<^verbatim>\<open>s_roundToI64.c\<close> and
  \<^verbatim>\<open>s_roundToUI64.c\<close>, the shift that feeds the last two, and the results of
  \<^verbatim>\<open>specialize.h\<close> for arguments out of range.  The locale \<open>int_range\<close> describes an integer type by
  its bounds, \<open>int_rounder\<close> and \<open>int_rounder_extra\<close> state what the two kinds of rounding routines
  promise the conversions.
\<close>

section \<open>Results out of range\<close>

definition ui32_fromPosOverflow :: uint_fast32_t where "ui32_fromPosOverflow = 0xFFFFFFFF"

definition ui32_fromNegOverflow :: uint_fast32_t where "ui32_fromNegOverflow = 0"

definition ui32_fromNaN :: uint_fast32_t where "ui32_fromNaN = 0xFFFFFFFF"

definition i32_fromPosOverflow :: int_fast32_t where "i32_fromPosOverflow = 0x7FFFFFFF"

definition i32_fromNegOverflow :: int_fast32_t where "i32_fromNegOverflow = - 0x7FFFFFFF - 1"

definition i32_fromNaN :: int_fast32_t where "i32_fromNaN = 0x7FFFFFFF"

definition ui64_fromPosOverflow :: uint_fast64_t where "ui64_fromPosOverflow = 0xFFFFFFFFFFFFFFFF"

definition ui64_fromNegOverflow :: uint_fast64_t where "ui64_fromNegOverflow = 0"

definition ui64_fromNaN :: uint_fast64_t where "ui64_fromNaN = 0xFFFFFFFFFFFFFFFF"

definition i64_fromPosOverflow :: int_fast64_t where "i64_fromPosOverflow = 0x7FFFFFFFFFFFFFFF"

definition i64_fromNegOverflow :: int_fast64_t where "i64_fromNegOverflow = - 0x7FFFFFFFFFFFFFFF - 1"

definition i64_fromNaN :: int_fast64_t where "i64_fromNaN = 0x7FFFFFFFFFFFFFFF"

lemmas overflow_defs = ui32_fromPosOverflow_def ui32_fromNegOverflow_def ui32_fromNaN_def
  i32_fromPosOverflow_def i32_fromNegOverflow_def i32_fromNaN_def
  ui64_fromPosOverflow_def ui64_fromNegOverflow_def ui64_fromNaN_def
  i64_fromPosOverflow_def i64_fromNegOverflow_def i64_fromNaN_def

section \<open>The code\<close>

definition softfloat_roundToI32 ::
  "bool \<Rightarrow> uint_fast64_t \<Rightarrow> uint_fast8_t \<Rightarrow> bool \<Rightarrow> sf_state \<Rightarrow> int_fast32_t \<times> sf_state" where
  "softfloat_roundToI32 sign sig roundingMode exact st =
     (let invalid = (if sign then i32_fromNegOverflow else i32_fromPosOverflow,
                     softfloat_raiseFlags softfloat_flag_invalid st);
          roundNearEven = (roundingMode = softfloat_round_near_even);
          roundIncrement = (0x800 :: uint_fast16_t);
          roundIncrement =
            (if \<not> roundNearEven \<and> roundingMode \<noteq> softfloat_round_near_maxMag
             then if roundingMode = (if sign then softfloat_round_min else softfloat_round_max) then 0xFFF else 0
             else roundIncrement);
          roundBits = sig AND 0xFFF;
          sig = sig + roundIncrement
      in if sig AND 0xFFFFF00000000000 \<noteq> 0 then invalid
         else
           let sig32 = drop_bit 12 sig :: uint_fast32_t;
               sig32 = sig32 AND NOT (of_bool (roundBits XOR 0x800 = 0 \<and> roundNearEven));
               z = scast (ucast (if sign then - sig32 else sig32) :: int32_t) :: int_fast32_t
           in if z \<noteq> 0 \<and> ((sint z < 0) \<noteq> sign) then invalid
              else (z, if exact \<and> roundBits \<noteq> 0 then softfloat_raiseFlags softfloat_flag_inexact st else st))"

definition softfloat_roundToUI32 ::
  "bool \<Rightarrow> uint_fast64_t \<Rightarrow> uint_fast8_t \<Rightarrow> bool \<Rightarrow> sf_state \<Rightarrow> uint_fast32_t \<times> sf_state" where
  "softfloat_roundToUI32 sign sig roundingMode exact st =
     (let invalid = (if sign then ui32_fromNegOverflow else ui32_fromPosOverflow,
                     softfloat_raiseFlags softfloat_flag_invalid st);
          roundNearEven = (roundingMode = softfloat_round_near_even);
          roundIncrement = (0x800 :: uint_fast16_t);
          roundIncrement =
            (if \<not> roundNearEven \<and> roundingMode \<noteq> softfloat_round_near_maxMag
             then if roundingMode = (if sign then softfloat_round_min else softfloat_round_max) then 0xFFF else 0
             else roundIncrement);
          roundBits = sig AND 0xFFF;
          sig = sig + roundIncrement
      in if sig AND 0xFFFFF00000000000 \<noteq> 0 then invalid
         else
           let z = drop_bit 12 sig :: uint_fast32_t;
               z = z AND NOT (of_bool (roundBits XOR 0x800 = 0 \<and> roundNearEven))
           in if sign \<and> z \<noteq> 0 then invalid
              else (z, if exact \<and> roundBits \<noteq> 0 then softfloat_raiseFlags softfloat_flag_inexact st else st))"

definition softfloat_roundToI64 ::
  "bool \<Rightarrow> uint_fast64_t \<Rightarrow> uint_fast64_t \<Rightarrow> uint_fast8_t \<Rightarrow> bool \<Rightarrow> sf_state \<Rightarrow> int_fast64_t \<times> sf_state" where
  "softfloat_roundToI64 sign sig sigExtra roundingMode exact st =
     (let invalid = (if sign then i64_fromNegOverflow else i64_fromPosOverflow,
                     softfloat_raiseFlags softfloat_flag_invalid st);
          roundNearEven = (roundingMode = softfloat_round_near_even);
          doIncrement = (0x8000000000000000 \<le> sigExtra);
          doIncrement =
            (if \<not> roundNearEven \<and> roundingMode \<noteq> softfloat_round_near_maxMag
             then roundingMode = (if sign then softfloat_round_min else softfloat_round_max) \<and> sigExtra \<noteq> 0
             else doIncrement);
          sig' = sig + 1
      in if doIncrement \<and> sig' = 0 then invalid
         else
           let sig = (if doIncrement
                      then sig' AND NOT (of_bool (sigExtra AND 0x7FFFFFFFFFFFFFFF = 0 \<and> roundNearEven))
                      else sig);
               z = (if sign then - sig else sig) :: int64_t
           in if z \<noteq> 0 \<and> ((sint z < 0) \<noteq> sign) then invalid
              else (z, if exact \<and> sigExtra \<noteq> 0 then softfloat_raiseFlags softfloat_flag_inexact st else st))"

definition softfloat_roundToUI64 ::
  "bool \<Rightarrow> uint_fast64_t \<Rightarrow> uint_fast64_t \<Rightarrow> uint_fast8_t \<Rightarrow> bool \<Rightarrow> sf_state \<Rightarrow> uint_fast64_t \<times> sf_state" where
  "softfloat_roundToUI64 sign sig sigExtra roundingMode exact st =
     (let invalid = (if sign then ui64_fromNegOverflow else ui64_fromPosOverflow,
                     softfloat_raiseFlags softfloat_flag_invalid st);
          roundNearEven = (roundingMode = softfloat_round_near_even);
          doIncrement = (0x8000000000000000 \<le> sigExtra);
          doIncrement =
            (if \<not> roundNearEven \<and> roundingMode \<noteq> softfloat_round_near_maxMag
             then roundingMode = (if sign then softfloat_round_min else softfloat_round_max) \<and> sigExtra \<noteq> 0
             else doIncrement);
          sig' = sig + 1
      in if doIncrement \<and> sig' = 0 then invalid
         else
           let sig = (if doIncrement
                      then sig' AND NOT (of_bool (sigExtra AND 0x7FFFFFFFFFFFFFFF = 0 \<and> roundNearEven))
                      else sig)
           in if sign \<and> sig \<noteq> 0 then invalid
              else (sig, if exact \<and> sigExtra \<noteq> 0 then softfloat_raiseFlags softfloat_flag_inexact st else st))"

text \<open>The right shift that keeps the bits it loses in a second word.\<close>

record uint64_extra =
  extra_v :: uint64_t
  extra_extra :: uint64_t

definition softfloat_shiftRightJam64Extra ::
  "uint64_t \<Rightarrow> uint64_t \<Rightarrow> uint_fast32_t \<Rightarrow> uint64_extra" where
  "softfloat_shiftRightJam64Extra a extra dst =
     (let (z_v, z_extra) =
            (if dst < 64 then (drop_bit (unat dst) a, push_bit (unat (- dst AND 63)) a)
             else (0, if dst = 64 then a else of_bool (a \<noteq> 0)))
      in \<lparr>extra_v = z_v, extra_extra = z_extra OR of_bool (extra \<noteq> 0)\<rparr>)"

section \<open>Specification\<close>

text \<open>
  The conversion of a magnitude to an integer type with bounds \<open>lo\<close> and \<open>hi\<close>: rounded, given its
  sign, and replaced by a bound with the invalid exception when it does not fit.  Rounding to odd is
  not a mode of these conversions; the code truncates then, as it does for every mode it does not name.
\<close>

definition int_rmode :: "uint_fast8_t \<Rightarrow> rmode" where
  "int_rmode r = (if rmode_of r = ToOdd then TowardZero else rmode_of r)"

definition int_overflow :: "int \<Rightarrow> int \<Rightarrow> bool \<Rightarrow> sf_state \<Rightarrow> int \<times> sf_state" where
  "int_overflow lo hi neg st = (if neg then lo else hi, softfloat_raiseFlags softfloat_flag_invalid st)"

definition int_deliver :: "int \<Rightarrow> int \<Rightarrow> bool \<Rightarrow> int \<Rightarrow> bool \<Rightarrow> sf_state \<Rightarrow> int \<times> sf_state" where
  "int_deliver lo hi neg n inexact st =
     (let r = (if neg then - n else n)
      in if r < lo \<or> hi < r then int_overflow lo hi neg st
         else (r, if inexact then softfloat_raiseFlags softfloat_flag_inexact st else st))"

definition int_result :: "int \<Rightarrow> int \<Rightarrow> bool \<Rightarrow> rmode \<Rightarrow> bool \<Rightarrow> real \<Rightarrow> sf_state \<Rightarrow> int \<times> sf_state" where
  "int_result lo hi neg m exact x st = int_deliver lo hi neg (rnd_int m neg x) (exact \<and> x \<notin> \<int>) st"

section \<open>Rounding a 64-bit significand with 12 fraction bits\<close>

lemma int_rmode_not_odd [simp]: "int_rmode r \<noteq> ToOdd"
  by (simp add: int_rmode_def)

lemma int_rmode_iff:
  "r = softfloat_round_near_even \<longleftrightarrow> int_rmode r = NearEven"
  "r = softfloat_round_near_maxMag \<longleftrightarrow> int_rmode r = NearMaxMag"
  "r = softfloat_round_min \<longleftrightarrow> int_rmode r = Down"
  "r = softfloat_round_max \<longleftrightarrow> int_rmode r = Up"
  by (auto simp: int_rmode_def rmode_of_iff)

lemma round_increment:
  "(if r \<noteq> softfloat_round_near_even \<and> r \<noteq> softfloat_round_near_maxMag
    then if r = (if neg then softfloat_round_min else softfloat_round_max) then 0xFFF else 0
    else 0x800 :: uint64_t) = word_of_nat (rp_inc 12 (int_rmode r) neg)"
  by (cases neg) (simp_all add: rp_inc_def int_rmode_iff [of r])

lemma rp_inc_12: "rp_inc 12 m neg < 2 ^ 12"
  by (simp add: rp_inc_def)

lemma round_bits: "unat (sig AND 0xFFF :: uint64_t) = unat sig mod 2 ^ 12"
  using unat_and_mask [of sig 12] by (simp add: mask_eq_exp_minus_1)

lemma round_core:
  fixes sig :: uint64_t and r :: uint_fast8_t and neg :: bool
  assumes "unat sig < 2 ^ 63"
  defines "m \<equiv> int_rmode r"
  defines "sig' \<equiv> sig + word_of_nat (rp_inc 12 m neg)"
  shows "sig' AND 0xFFFFF00000000000 \<noteq> 0 \<longleftrightarrow> 2 ^ 32 \<le> rp_shift 12 m neg (unat sig)"
    and "unat (drop_bit 12 sig' AND NOT (of_bool ((sig AND 0xFFF) XOR 0x800 = 0 \<and> r = softfloat_round_near_even))) =
      rp_shift 12 m neg (unat sig)"
proof -
  have "unat (word_of_nat (rp_inc 12 m neg) :: uint64_t) = rp_inc 12 m neg"
    using rp_inc_12 [of m neg] by (simp add: unat_of_nat)
  then have s: "unat sig' = unat sig + rp_inc 12 m neg"
    unfolding sig'_def using assms(1) rp_inc_12 [of m neg] by (subst unat_add_less) simp_all
  have "(0xFFFFF00000000000 :: uint64_t) = push_bit 44 (mask 20)" by (simp add: mask_eq_exp_minus_1)
  then have "unat (sig' AND 0xFFFFF00000000000) = unat sig' div 2 ^ 44 mod 2 ^ 20 * 2 ^ 44"
    using unat_and_field [of 44 20 sig'] by simp
  moreover have "unat sig' div 2 ^ 44 mod 2 ^ 20 = unat sig' div 2 ^ 44"
    using unat_lt_2p [of sig'] by (intro mod_less less_mult_imp_div_less) simp
  ultimately show "sig' AND 0xFFFFF00000000000 \<noteq> 0 \<longleftrightarrow> 2 ^ 32 \<le> rp_shift 12 m neg (unat sig)"
    using rp_shift_ge_iff [of 32 12 m neg "unat sig"] by (simp add: word_neq_0_unat s div_greater_zero_iff)
  have "(sig AND 0xFFF) XOR 0x800 = 0 \<longleftrightarrow> unat sig mod 2 ^ 12 = 2 ^ (12 - 1)"
    unfolding xor_eq_0_iff unfolding word_eq_unat round_bits by simp
  then show "unat (drop_bit 12 sig' AND NOT (of_bool ((sig AND 0xFFF) XOR 0x800 = 0 \<and> r = softfloat_round_near_even))) =
      rp_shift 12 m neg (unat sig)"
    unfolding unat_and_not_of_bool rp_shift_def Let_def s unat_drop_bit
    by (simp add: int_rmode_iff [of r] m_def)
qed

section \<open>Signed results\<close>

text \<open>
  The code negates the magnitude, reads it as a signed number and compares the sign: this detects
  exactly the magnitudes that do not fit.
\<close>

lemma sint_wrap:
  fixes z :: int
  assumes "- (2 ^ LENGTH('a)) < z" and "z < 2 ^ LENGTH('a)"
  shows "sint (word_of_int z :: 'a::len word) =
    (if z < - (2 ^ (LENGTH('a) - 1)) then z + 2 ^ LENGTH('a)
     else if 2 ^ (LENGTH('a) - 1) \<le> z then z - 2 ^ LENGTH('a) else z)"
proof -
  have L: "(2::int) ^ LENGTH('a) = 2 * 2 ^ (LENGTH('a) - 1)" by (simp flip: power_Suc)
  define k :: int where "k = (if z < - (2 ^ (LENGTH('a) - 1)) then 1 else if 2 ^ (LENGTH('a) - 1) \<le> z then - 1 else 0)"
  have "(word_of_int z :: 'a word) = word_of_int (z + k * 2 ^ LENGTH('a))"
    by (rule word_of_int_eq_iff [THEN iffD2]) (simp add: take_bit_eq_mod)
  moreover have "sint (word_of_int (z + k * 2 ^ LENGTH('a)) :: 'a word) = z + k * 2 ^ LENGTH('a)"
    using assms L by (subst sint_sbintrunc', intro signed_take_bit_int_eq_self) (auto simp: k_def)
  ultimately show ?thesis by (simp add: k_def)
qed

lemma signed_check:
  fixes w :: "'a::len word" and neg :: bool
  defines "z \<equiv> sint (if neg then - w else w)"
  defines "n \<equiv> (if neg then - int (unat w) else int (unat w))"
  shows "(z \<noteq> 0 \<and> (z < 0) \<noteq> neg) \<longleftrightarrow> n < - (2 ^ (LENGTH('a) - 1)) \<or> 2 ^ (LENGTH('a) - 1) - 1 < n"
    and "- (2 ^ (LENGTH('a) - 1)) \<le> n \<Longrightarrow> n < 2 ^ (LENGTH('a) - 1) \<Longrightarrow> z = n"
proof -
  define k where "k = int (unat w)"
  have "k < int (2 ^ LENGTH('a))" unfolding k_def using unat_lt_2p [of w] by (simp only: of_nat_less_iff)
  moreover have "0 \<le> k" unfolding k_def by (rule of_nat_0_le_iff)
  ultimately have n: "- (2 ^ LENGTH('a)) < n" "n < 2 ^ LENGTH('a)" "n \<noteq> 0 \<Longrightarrow> n < 0 \<longleftrightarrow> neg"
    unfolding n_def k_def [symmetric] by (auto intro: less_trans [of _ "0::int"])
  have L: "(2::int) ^ LENGTH('a) = 2 * 2 ^ (LENGTH('a) - 1)" by (simp flip: power_Suc)
  have "(if neg then - w else w) = word_of_int n" by (simp add: n_def)
  then have z: "z = sint (word_of_int n :: 'a word)" by (simp only: z_def)
  define H where "H = (2::int) ^ (LENGTH('a) - 1)"
  have p: "0 < H" by (simp add: H_def)
  note w = sint_wrap [OF n(1,2), folded z]
  show "(z \<noteq> 0 \<and> (z < 0) \<noteq> neg) \<longleftrightarrow> n < - (2 ^ (LENGTH('a) - 1)) \<or> 2 ^ (LENGTH('a) - 1) - 1 < n"
    using n [unfolded L] p unfolding w L H_def [symmetric] by (cases "n = 0") auto
  show "z = n" if "- (2 ^ (LENGTH('a) - 1)) \<le> n" "n < 2 ^ (LENGTH('a) - 1)"
    using that unfolding w by auto
qed

section \<open>The rounding routines\<close>

lemma same_cell_2_Ints: "same_cell (2 * x) (2 * y) \<Longrightarrow> x \<in> \<int> \<longleftrightarrow> y \<in> \<int>"
proof (erule same_cellE)
  fix j :: int
  assume j: "of_int j < 2 * x" "2 * x < of_int j + 1" "of_int j < 2 * y" "2 * y < of_int j + 1"
  have no: "z \<notin> \<int>" if z: "of_int j < 2 * z" "2 * z < of_int j + 1" for z :: real
  proof
    assume "z \<in> \<int>"
    then obtain k where k: "z = of_int k" by (elim Ints_cases)
    have "real_of_int j < real_of_int (2 * k)" "real_of_int (2 * k) < real_of_int (j + 1)" using z by (simp_all add: k)
    then have "j < 2 * k" "2 * k < j + 1" by (simp_all only: of_int_less_iff)
    then show False by linarith
  qed
  show "x \<in> \<int> \<longleftrightarrow> y \<in> \<int>" using no [OF j(1,2)] no [OF j(3,4)] by simp
qed simp

lemma int_result_cell:
  assumes "same_cell (2 * x) (2 * y)"
  shows "int_result lo hi neg m exact x st = int_result lo hi neg m exact y st"
  using rnd_int_same_cell [OF assms] same_cell_2_Ints [OF assms] by (simp add: int_result_def)

lemma int_result_shift:
  "0 < g \<Longrightarrow> int_result lo hi neg m exact (real n / 2 ^ g) st =
     int_deliver lo hi neg (int (rp_shift g m neg n)) (exact \<and> n mod 2 ^ g \<noteq> 0) st"
  by (simp add: int_result_def rp_shift_rnd_int of_nat_Ints_divide)

text \<open>The decisions of the code after rounding, for unsigned and signed results.\<close>

lemma deliver_unsigned:
  assumes "Z = unat z" and "hi = 2 ^ n - 1"
  shows "(if 2 ^ n \<le> Z \<or> (neg \<and> z \<noteq> 0) then int_overflow 0 hi neg st
          else (int Z, if inexact then softfloat_raiseFlags softfloat_flag_inexact st else st)) =
    int_deliver 0 hi neg (int Z) inexact st"
proof -
  have "2 ^ n \<le> Z \<longleftrightarrow> hi < int Z"
  proof -
    have "2 ^ n \<le> Z \<longleftrightarrow> int (2 ^ n) \<le> int Z" by (simp only: of_nat_le_iff)
    also have "int (2 ^ n) = 2 ^ n" by simp
    finally show ?thesis using assms(2) by linarith
  qed
  moreover have "z \<noteq> 0 \<longleftrightarrow> Z \<noteq> 0" by (simp only: assms(1) word_neq_0_unat)
  moreover have "0 \<le> hi" by (simp add: assms(2))
  ultimately show ?thesis by (auto simp: int_deliver_def int_overflow_def Let_def)
qed

lemma roundToUI32_spec:
  assumes "unat sig < 2 ^ 63"
  shows "map_prod uint id (softfloat_roundToUI32 neg sig r exact st) =
    int_result 0 (2 ^ 32 - 1) neg (int_rmode r) exact (real (unat sig) / 2 ^ 12) st"
proof -
  define Z where "Z = rp_shift 12 (int_rmode r) neg (unat sig)"
  define s where "s = sig + word_of_nat (rp_inc 12 (int_rmode r) neg)"
  define z where "z = drop_bit 12 s AND NOT (of_bool ((sig AND 0xFFF) XOR 0x800 = 0 \<and> r = softfloat_round_near_even))"
  note core = round_core [OF assms, of r neg, folded Z_def s_def, folded z_def]
  have rb: "sig AND 0xFFF \<noteq> 0 \<longleftrightarrow> unat sig mod 2 ^ 12 \<noteq> 0" by (simp only: word_neq_0_unat round_bits)
  have ov: "map_prod uint id (if neg then ui32_fromNegOverflow else ui32_fromPosOverflow,
      softfloat_raiseFlags softfloat_flag_invalid st) = int_overflow 0 (2 ^ 32 - 1) neg st"
    by (simp add: overflow_defs int_overflow_def)
  have u: "uint z = int Z" by (simp flip: core(2))
  have "map_prod uint id (softfloat_roundToUI32 neg sig r exact st) =
    (if 2 ^ 32 \<le> Z \<or> (neg \<and> z \<noteq> 0) then int_overflow 0 (2 ^ 32 - 1) neg st
     else (int Z, if exact \<and> unat sig mod 2 ^ 12 \<noteq> 0 then softfloat_raiseFlags softfloat_flag_inexact st else st))"
    unfolding softfloat_roundToUI32_def Let_def round_increment s_def [symmetric] z_def [symmetric] core(1) rb
    by (simp only: if_distrib [of "map_prod uint id"] ov) (auto simp: u)
  also have "\<dots> = int_result 0 (2 ^ 32 - 1) neg (int_rmode r) exact (real (unat sig) / 2 ^ 12) st"
    unfolding int_result_shift [OF zero_less_numeral] Z_def [symmetric] by (rule deliver_unsigned) (simp_all add: core(2))
  finally show ?thesis .
qed

lemma deliver_signed:
  fixes w :: "'a::len word"
  assumes "Z = unat w" and "z = sint (if neg then - w else w)"
    and "lo = - (2 ^ (LENGTH('a) - 1))" "hi = 2 ^ (LENGTH('a) - 1) - 1"
  shows "(if z \<noteq> 0 \<and> ((z < 0) \<noteq> neg) then int_overflow lo hi neg st
          else (z, if inexact then softfloat_raiseFlags softfloat_flag_inexact st else st)) =
    int_deliver lo hi neg (int Z) inexact st"
proof -
  note sc = signed_check [of neg w, folded assms(2), folded assms(1)]
  show ?thesis
  proof (cases "(if neg then - int Z else int Z) < lo \<or> hi < (if neg then - int Z else int Z)")
    case True
    with sc(1) show ?thesis unfolding int_deliver_def assms(3,4) Let_def by simp
  next
    case False
    then have "z = (if neg then - int Z else int Z)" using sc(2) by (auto simp: assms(3,4))
    with False sc(1) show ?thesis unfolding int_deliver_def assms(3,4) Let_def by auto
  qed
qed

lemma ucast_minus:
  assumes "LENGTH('b) \<le> LENGTH('a)"
  shows "(ucast (- w :: 'a::len word) :: 'b::len word) = - ucast w"
  using assms by (simp add: word_uint_eq_iff unsigned_ucast_eq uint_word_arith_bintrs(4) take_bit_minus)

lemma sint_scast_up:
  assumes "LENGTH('a) \<le> LENGTH('b)"
  shows "sint (scast (w :: 'a::len word) :: 'b::len word) = sint w"
proof -
  have "(2::int) ^ (LENGTH('a) - 1) \<le> 2 ^ (LENGTH('b) - 1)" using assms by (intro power_increasing) auto
  then show ?thesis unfolding signed_scast_eq One_nat_def
    using sint_lt [of w, unfolded One_nat_def] sint_ge [of w, unfolded One_nat_def] by (intro signed_take_bit_int_eq_self) linarith+
qed

lemma roundToI32_spec:
  assumes "unat sig < 2 ^ 63"
  shows "map_prod sint id (softfloat_roundToI32 neg sig r exact st) =
    int_result (- (2 ^ 31)) (2 ^ 31 - 1) neg (int_rmode r) exact (real (unat sig) / 2 ^ 12) st"
proof -
  define Z where "Z = rp_shift 12 (int_rmode r) neg (unat sig)"
  define s where "s = sig + word_of_nat (rp_inc 12 (int_rmode r) neg)"
  define sig32 where "sig32 = drop_bit 12 s AND NOT (of_bool ((sig AND 0xFFF) XOR 0x800 = 0 \<and> r = softfloat_round_near_even))"
  define w where "w = (ucast sig32 :: int32_t)"
  define z where "z = (scast (ucast (if neg then - sig32 else sig32) :: int32_t) :: int_fast32_t)"
  note core = round_core [OF assms, of r neg, folded Z_def s_def, folded sig32_def]
  have rb: "sig AND 0xFFF \<noteq> 0 \<longleftrightarrow> unat sig mod 2 ^ 12 \<noteq> 0" by (simp only: word_neq_0_unat round_bits)
  have ov: "map_prod sint id (if neg then i32_fromNegOverflow else i32_fromPosOverflow,
      softfloat_raiseFlags softfloat_flag_invalid st) = int_overflow (- (2 ^ 31)) (2 ^ 31 - 1) neg st"
    by (simp add: overflow_defs int_overflow_def)
  have "(ucast (if neg then - sig32 else sig32) :: int32_t) = (if neg then - w else w)"
    by (simp add: w_def ucast_minus)
  then have z: "sint z = sint (if neg then - w else w)" by (simp only: z_def) (rule sint_scast_up, simp)
  have z0: "z \<noteq> 0 \<longleftrightarrow> sint z \<noteq> 0" by (simp add: signed_eq_0_iff)
  have code: "map_prod sint id (softfloat_roundToI32 neg sig r exact st) =
    (if 2 ^ 32 \<le> Z then int_overflow (- (2 ^ 31)) (2 ^ 31 - 1) neg st
     else if sint z \<noteq> 0 \<and> ((sint z < 0) \<noteq> neg) then int_overflow (- (2 ^ 31)) (2 ^ 31 - 1) neg st
     else (sint z, if exact \<and> unat sig mod 2 ^ 12 \<noteq> 0 then softfloat_raiseFlags softfloat_flag_inexact st else st))"
    unfolding softfloat_roundToI32_def Let_def round_increment s_def [symmetric] sig32_def [symmetric] z_def [symmetric]
      core(1) rb z0
    by (simp only: if_distrib [of "map_prod sint id"] ov) auto
  show ?thesis
  proof (cases "2 ^ 32 \<le> Z")
    case True
    then have "int (2 ^ 32) \<le> int Z" by (simp only: of_nat_le_iff)
    with True show ?thesis
      unfolding code int_result_shift [OF zero_less_numeral] Z_def [symmetric] by (auto simp: int_deliver_def)
  next
    case False
    then have "Z = unat w" using core(2) by (simp add: w_def unat_ucast_less)
    then show ?thesis
      unfolding code if_not_P [OF False] int_result_shift [OF zero_less_numeral] Z_def [symmetric]
      by (intro deliver_signed [OF _ z]) simp_all
  qed
qed

section \<open>Rounding with a fraction word\<close>

text \<open>The value of a significand whose fraction is held in a second word.\<close>

abbreviation extra_real :: "uint64_t \<Rightarrow> uint64_t \<Rightarrow> real" where
  "extra_real sig extra \<equiv> real (unat sig * 2 ^ 64 + unat extra) / 2 ^ 64"

definition extra_round :: "uint_fast8_t \<Rightarrow> bool \<Rightarrow> uint64_t \<Rightarrow> bool" where
  "extra_round r neg extra \<longleftrightarrow>
     (if r \<noteq> softfloat_round_near_even \<and> r \<noteq> softfloat_round_near_maxMag
      then r = (if neg then softfloat_round_min else softfloat_round_max) \<and> extra \<noteq> 0
      else 0x8000000000000000 \<le> extra)"

lemma extra_core:
  fixes sig extra :: uint64_t and r :: uint_fast8_t and neg :: bool
  defines "Z \<equiv> rp_shift 64 (int_rmode r) neg (unat sig * 2 ^ 64 + unat extra)"
  defines "sig' \<equiv> (if extra_round r neg extra
    then (sig + 1) AND NOT (of_bool (extra AND 0x7FFFFFFFFFFFFFFF = 0 \<and> r = softfloat_round_near_even)) else sig)"
  shows "extra_round r neg extra \<and> sig + 1 = 0 \<longleftrightarrow> 2 ^ 64 \<le> Z"
    and "Z < 2 ^ 64 \<Longrightarrow> unat sig' = Z"
proof -
  define q f where "q = unat sig" and "f = unat extra"
  have f: "f < 2 ^ 64" "q < 2 ^ 64" using unat_lt_2p [of extra] unat_lt_2p [of sig] by (simp_all add: f_def q_def)
  note Z = rp_shift_parts [OF zero_less_numeral f(1) [unfolded f_def], of "int_rmode r" neg "unat sig",
      folded Z_def, folded f_def q_def]
  have ne: "extra \<noteq> 0 \<longleftrightarrow> f \<noteq> 0" by (simp add: f_def word_neq_0_unat)
  have ge: "0x8000000000000000 \<le> extra \<longleftrightarrow> 2 ^ 63 \<le> f" by (simp add: f_def word_le_nat_alt)
  have "unat (extra AND 0x7FFFFFFFFFFFFFFF) = f mod 2 ^ 63"
    using unat_and_mask [of extra 63] by (simp add: mask_eq_exp_minus_1 f_def)
  then have low: "extra AND 0x7FFFFFFFFFFFFFFF = 0 \<longleftrightarrow> f mod 2 ^ 63 = 0" by (simp only: word_eq_unat unat_0)
  have tie: "2 ^ 63 \<le> f \<and> f mod 2 ^ 63 = 0 \<longleftrightarrow> f = 2 ^ 63" 
  proof
    assume h: "2 ^ 63 \<le> f \<and> f mod 2 ^ 63 = 0"
    then have "(f - 2 ^ 63) mod 2 ^ 63 = 0" using le_mod_geq [of "2 ^ 63" f] by simp
    moreover have "f - 2 ^ 63 < 2 ^ 63" using f(1) by simp
    ultimately show "f = 2 ^ 63" using h by simp
  qed simp
  have one: "sig + 1 = 0 \<longleftrightarrow> q = 2 ^ 64 - 1"
    unfolding word_eq_unat unat_word_ariths using f(2) by (auto simp: q_def mod_Suc)
  define D where "D \<longleftrightarrow> extra_round r neg extra"
  have D: "D \<longleftrightarrow> (if int_rmode r = NearEven \<or> int_rmode r = NearMaxMag then 2 ^ 63 \<le> f
      else int_rmode r = (if neg then Down else Up) \<and> f \<noteq> 0)"
    unfolding D_def extra_round_def ne ge by (cases neg) (simp_all add: int_rmode_iff [of r])
  have Zc: "Z = (if D then if f = 2 ^ 63 \<and> int_rmode r = NearEven \<and> even q then q else q + 1 else q)"
    using int_rmode_not_odd [of r] unfolding Z D by (cases "int_rmode r") (simp_all, linarith?)
  have odd: "odd ((2::nat) ^ 64 - 1)" by simp
  show "extra_round r neg extra \<and> sig + 1 = 0 \<longleftrightarrow> 2 ^ 64 \<le> Z"
    unfolding D_def [symmetric] one Zc using f(2) odd by auto
  assume lt: "Z < 2 ^ 64"
  show "unat sig' = Z"
  proof (cases D)
    case True
    have "q \<noteq> 2 ^ 64 - 1" using lt True odd unfolding Zc by (auto split: if_splits)
    then have "unat (sig + 1) = q + 1" using f(2) unfolding q_def by (subst unat_add_less) simp_all
    then have "unat sig' = (if (f mod 2 ^ 63 = 0 \<and> int_rmode r = NearEven) \<and> even q then q else q + 1)"
      using True unfolding sig'_def D_def [symmetric] low int_rmode_iff [of r] by (simp add: unat_and_not_of_bool)
    moreover have "int_rmode r = NearEven \<Longrightarrow> 2 ^ 63 \<le> f" using True by (simp add: D)
    ultimately show ?thesis using True tie unfolding Zc by auto
  next
    case False
    then show ?thesis unfolding sig'_def D_def [symmetric] Zc by (simp add: q_def)
  qed
qed

lemma extra_Ints: "(unat sig * 2 ^ 64 + unat extra) mod 2 ^ 64 \<noteq> 0 \<longleftrightarrow> extra \<noteq> (0 :: uint64_t)"
proof -
  have "unat extra mod 2 ^ 64 = unat extra" using unat_lt_2p [of extra] by (intro mod_less) simp
  then show ?thesis by (simp add: word_neq_0_unat)
qed

lemma roundToUI64_spec:
  "map_prod uint id (softfloat_roundToUI64 neg sig extra r exact st) =
    int_result 0 (2 ^ 64 - 1) neg (int_rmode r) exact (extra_real sig extra) st"
proof -
  define Z where "Z = rp_shift 64 (int_rmode r) neg (unat sig * 2 ^ 64 + unat extra)"
  define z where "z = (if extra_round r neg extra
    then (sig + 1) AND NOT (of_bool (extra AND 0x7FFFFFFFFFFFFFFF = 0 \<and> r = softfloat_round_near_even)) else sig)"
  note core = extra_core [where r = r and neg = neg and sig = sig and extra = extra, folded Z_def, folded z_def]
  have ov: "map_prod uint id (if neg then ui64_fromNegOverflow else ui64_fromPosOverflow,
      softfloat_raiseFlags softfloat_flag_invalid st) = int_overflow 0 (2 ^ 64 - 1) neg st"
    by (simp add: overflow_defs int_overflow_def)
  have code: "map_prod uint id (softfloat_roundToUI64 neg sig extra r exact st) =
    (if 2 ^ 64 \<le> Z then int_overflow 0 (2 ^ 64 - 1) neg st
     else if neg \<and> z \<noteq> 0 then int_overflow 0 (2 ^ 64 - 1) neg st
     else (uint z, if exact \<and> extra \<noteq> 0 then softfloat_raiseFlags softfloat_flag_inexact st else st))"
    unfolding softfloat_roundToUI64_def Let_def extra_round_def [symmetric] z_def [symmetric] core(1)
    by (simp only: if_distrib [of "map_prod uint id"] ov) auto
  show ?thesis
  proof (cases "2 ^ 64 \<le> Z")
    case True
    then have "int (2 ^ 64) \<le> int Z" by (simp only: of_nat_le_iff)
    then show ?thesis unfolding code if_P [OF True] int_result_shift [OF zero_less_numeral] Z_def [symmetric]
      by (auto simp: int_deliver_def)
  next
    case False
    then have z: "Z = unat z" using core(2) by simp
    then have u: "uint z = int Z" by simp
    show ?thesis
      unfolding code u if_not_P [OF False] int_result_shift [OF zero_less_numeral] Z_def [symmetric] extra_Ints
      using deliver_unsigned [OF z refl, of 64 neg st] by (simp only: False simp_thms)
  qed
qed

lemma roundToI64_spec:
  "map_prod sint id (softfloat_roundToI64 neg sig extra r exact st) =
    int_result (- (2 ^ 63)) (2 ^ 63 - 1) neg (int_rmode r) exact (extra_real sig extra) st"
proof -
  define Z where "Z = rp_shift 64 (int_rmode r) neg (unat sig * 2 ^ 64 + unat extra)"
  define w where "w = (if extra_round r neg extra
    then (sig + 1) AND NOT (of_bool (extra AND 0x7FFFFFFFFFFFFFFF = 0 \<and> r = softfloat_round_near_even)) else sig)"
  define z where "z = sint (if neg then - w else w)"
  note core = extra_core [where r = r and neg = neg and sig = sig and extra = extra, folded Z_def, folded w_def]
  have ov: "map_prod sint id (if neg then i64_fromNegOverflow else i64_fromPosOverflow,
      softfloat_raiseFlags softfloat_flag_invalid st) = int_overflow (- (2 ^ 63)) (2 ^ 63 - 1) neg st"
    by (simp add: overflow_defs int_overflow_def)
  have z0: "(if neg then - w else w) \<noteq> 0 \<longleftrightarrow> z \<noteq> 0" by (simp add: z_def signed_eq_0_iff)
  have code: "map_prod sint id (softfloat_roundToI64 neg sig extra r exact st) =
    (if 2 ^ 64 \<le> Z then int_overflow (- (2 ^ 63)) (2 ^ 63 - 1) neg st
     else if z \<noteq> 0 \<and> ((z < 0) \<noteq> neg) then int_overflow (- (2 ^ 63)) (2 ^ 63 - 1) neg st
     else (z, if exact \<and> extra \<noteq> 0 then softfloat_raiseFlags softfloat_flag_inexact st else st))"
    unfolding softfloat_roundToI64_def Let_def extra_round_def [symmetric] w_def [symmetric] z_def [symmetric] core(1) z0
    by (simp only: if_distrib [of "map_prod sint id"] ov) (auto simp: z_def)
  show ?thesis
  proof (cases "2 ^ 64 \<le> Z")
    case True
    then have "int (2 ^ 64) \<le> int Z" by (simp only: of_nat_le_iff)
    then show ?thesis unfolding code if_P [OF True] int_result_shift [OF zero_less_numeral] Z_def [symmetric]
      by (auto simp: int_deliver_def)
  next
    case False
    then have "Z = unat w" using core(2) by simp
    then show ?thesis
      unfolding code if_not_P [OF False] int_result_shift [OF zero_less_numeral] Z_def [symmetric] extra_Ints
      by (intro deliver_signed [OF _ z_def]) simp_all
  qed
qed

section \<open>The shift\<close>

lemma same_cell_small:
  assumes "0 \<le> x" "x < 1" "0 \<le> y" "y < 1" "x = 0 \<longleftrightarrow> y = 0"
  shows "same_cell x y"
  using assms by (cases "x = 0") (auto intro: same_cellI [of 0])

lemma shiftRightJam64Extra_cell:
  fixes a :: uint64_t
  assumes "dst \<noteq> 0"
  defines "z \<equiv> softfloat_shiftRightJam64Extra a 0 dst"
  shows "same_cell (2 * (real (unat a) / 2 ^ unat dst)) (2 * extra_real (extra_v z) (extra_extra z))"
proof -
  define d where "d = unat dst"
  have d: "0 < d" using assms(1) by (simp add: d_def unat_gt_0)
  consider "d < 64" | "d = 64" | "64 < d" by linarith
  then show ?thesis
    unfolding d_def [symmetric]
  proof cases
    case 1
    have c: "dst < 64" using 1 by (simp add: d_def word_less_nat_alt)
    have "unat (- dst AND 63) = 64 - d"
      unfolding mask_63 using unat_neg_and_mask [of 6 dst] 1 d by (simp add: d_def)
    then have v: "extra_v z = drop_bit d a" "extra_extra z = push_bit (64 - d) a"
      unfolding z_def softfloat_shiftRightJam64Extra_def by (simp_all add: c d_def)
    have p: "(2::nat) ^ 64 = 2 ^ d * 2 ^ (64 - d)" using 1 by (simp flip: power_add)
    have "unat (push_bit (64 - d) a) = unat a * 2 ^ (64 - d) mod (2 ^ d * 2 ^ (64 - d))"
      unfolding p [symmetric] by (simp add: unat_push_bit)
    then have "unat (push_bit (64 - d) a) = (unat a mod 2 ^ d) * 2 ^ (64 - d)" by (simp only: mod_mult_mult2)
    then have "unat (extra_v z) * 2 ^ 64 + unat (extra_extra z) = (unat a div 2 ^ d * 2 ^ d + unat a mod 2 ^ d) * 2 ^ (64 - d)"
      unfolding v unat_drop_bit p by (simp only: add_mult_distrib mult.assoc)
    then have "real (unat (extra_v z) * 2 ^ 64 + unat (extra_extra z)) = real (unat a) * 2 ^ (64 - d)"
      by (simp only: div_mult_mod_eq of_nat_mult of_nat_power of_nat_numeral)
    then have "extra_real (extra_v z) (extra_extra z) = real (unat a) * 2 ^ (64 - d) / 2 ^ 64" by (simp only:)
    moreover have p': "(2::real) ^ 64 = 2 ^ d * 2 ^ (64 - d)" using 1 by (simp flip: power_add)
    have "real (unat a) * 2 ^ (64 - d) / 2 ^ 64 = real (unat a) / 2 ^ d" unfolding p' by simp
    ultimately have "extra_real (extra_v z) (extra_extra z) = real (unat a) / 2 ^ d" by (rule trans)
    then show "same_cell (2 * (real (unat a) / 2 ^ d)) (2 * extra_real (extra_v z) (extra_extra z))"
      by (simp only: same_cell_refl)
  next
    case 2
    then have "dst = 64" by (simp add: d_def word_eq_unat)
    then have "extra_v z = 0" "extra_extra z = a" unfolding z_def softfloat_shiftRightJam64Extra_def by simp_all
    then show "same_cell (2 * (real (unat a) / 2 ^ d)) (2 * extra_real (extra_v z) (extra_extra z))" by (simp add: 2)
  next
    case 3
    have c: "\<not> dst < 64" "dst \<noteq> 64" using 3 by (auto simp: d_def word_less_nat_alt)
    then have v: "extra_v z = 0" "extra_extra z = of_bool (a \<noteq> 0)"
      unfolding z_def softfloat_shiftRightJam64Extra_def by simp_all
    define n where "n = unat a"
    have "n < 2 ^ 64" using unat_lt_2p [of a] by (simp add: n_def)
    then have "real n < real (2 ^ 64)" by (simp only: of_nat_less_iff)
    moreover have "(2::real) ^ 65 \<le> 2 ^ d" using 3 by (intro power_increasing) auto
    ultimately have "2 * (real n / 2 ^ d) < 1" by (simp add: field_simps)
    then show "same_cell (2 * (real (unat a) / 2 ^ d)) (2 * extra_real (extra_v z) (extra_extra z))"
      unfolding v word_neq_0_unat n_def [symmetric] by (intro same_cell_small) auto
  qed
qed

section \<open>The interface of the rounding routines\<close>

text \<open>An integer type whose values are below \<open>2 ^ w\<close> in magnitude.\<close>

locale int_range =
  fixes lo hi :: int and w :: nat
  assumes lo: "- (2 ^ w) < lo" "lo \<le> 0" and hi: "0 \<le> hi" "hi < 2 ^ w"
begin

lemma big: "2 ^ w \<le> x \<Longrightarrow> int_result lo hi neg m exact x st = int_overflow lo hi neg st"
  using rnd_int_ge [of "2 ^ w" x m neg] lo hi by (auto simp: int_result_def int_deliver_def Let_def)

end

locale int_rounder = int_range lo hi 32 for lo hi :: int +
  fixes R :: "bool \<Rightarrow> uint64_t \<Rightarrow> uint_fast8_t \<Rightarrow> bool \<Rightarrow> sf_state \<Rightarrow> int \<times> sf_state"
  assumes rounds: "unat sig < 2 ^ 63 \<Longrightarrow>
    R neg sig r exact st = int_result lo hi neg (int_rmode r) exact (real (unat sig) / 2 ^ 12) st"
begin

lemma rounds_cell:
  "\<lbrakk>unat sig < 2 ^ 63; same_cell (2 * x) (2 * (real (unat sig) / 2 ^ 12))\<rbrakk>
     \<Longrightarrow> R neg sig r exact st = int_result lo hi neg (int_rmode r) exact x st"
  by (simp only: rounds int_result_cell)

lemma rounds_big:
  assumes "2 ^ 44 \<le> unat sig" "unat sig < 2 ^ 63"
  shows "R neg sig r exact st = int_overflow lo hi neg st"
proof -
  have "real (2 ^ 44) \<le> real (unat sig)" using assms(1) by (simp only: of_nat_le_iff)
  then have "2 ^ 32 \<le> real (unat sig) / 2 ^ 12" by simp
  from big [OF this] show ?thesis by (simp only: rounds [OF assms(2)])
qed

end

locale int_rounder_extra = int_range lo hi 64 for lo hi :: int +
  fixes R :: "bool \<Rightarrow> uint64_t \<Rightarrow> uint64_t \<Rightarrow> uint_fast8_t \<Rightarrow> bool \<Rightarrow> sf_state \<Rightarrow> int \<times> sf_state"
  assumes rounds: "R neg sig extra r exact st =
    int_result lo hi neg (int_rmode r) exact (extra_real sig extra) st"
begin

lemma rounds_cell:
  "same_cell (2 * x) (2 * extra_real sig extra)
     \<Longrightarrow> R neg sig extra r exact st = int_result lo hi neg (int_rmode r) exact x st"
  by (simp only: rounds int_result_cell)

end

interpretation toI32: int_rounder "- (2 ^ 31)" "2 ^ 31 - 1"
  "\<lambda>neg sig r exact st. map_prod sint id (softfloat_roundToI32 neg sig r exact st)"
  by unfold_locales (simp_all only: roundToI32_spec, simp_all)

interpretation toUI32: int_rounder 0 "2 ^ 32 - 1"
  "\<lambda>neg sig r exact st. map_prod uint id (softfloat_roundToUI32 neg sig r exact st)"
  by unfold_locales (simp_all only: roundToUI32_spec, simp_all)

interpretation toI64: int_rounder_extra "- (2 ^ 63)" "2 ^ 63 - 1"
  "\<lambda>neg sig extra r exact st. map_prod sint id (softfloat_roundToI64 neg sig extra r exact st)"
  by unfold_locales (simp_all only: roundToI64_spec, simp_all)

interpretation toUI64: int_rounder_extra 0 "2 ^ 64 - 1"
  "\<lambda>neg sig extra r exact st. map_prod uint id (softfloat_roundToUI64 neg sig extra r exact st)"
  by unfold_locales (simp_all only: roundToUI64_spec, simp_all)

end
