(* ===== verification/SF_ToInt.thy ===== *)
theory SF_ToInt
  imports SF_RoundInt
begin

text \<open>
  Conversions to integers in a given rounding mode: \<^verbatim>\<open>f16/f32/f64_to_i32.c\<close>, \<^verbatim>\<open>_to_ui32.c\<close>,
  \<^verbatim>\<open>_to_i64.c\<close> and \<^verbatim>\<open>_to_ui64.c\<close>.  The conditional compilation on the results for NaN selects the
  branch that clears the sign, since \<^verbatim>\<open>specialize.h\<close> gives a NaN the result of a positive overflow.
\<close>

section \<open>The conversions\<close>

definition f16_to_i32 :: "float16_t \<Rightarrow> uint_fast8_t \<Rightarrow> bool \<Rightarrow> sf_state \<Rightarrow> int_fast32_t \<times> sf_state" where
  "f16_to_i32 a roundingMode exact st =
     (let sign = signF16UI (ucast a);
          exp_a = expF16UI (ucast a);
          frac = fracF16UI (ucast a)
      in if exp_a = 0x1F then
           (if frac \<noteq> 0 then i32_fromNaN else if sign then i32_fromNegOverflow else i32_fromPosOverflow,
            softfloat_raiseFlags softfloat_flag_invalid st)
         else
           let sig32 = frac
           in if exp_a \<noteq> 0 then
             let sig32 = sig32 OR 0x0400;
                 shiftDist = exp_a - 0x19
             in if 0 \<le> shiftDist then
                  let sig32 = push_bit (nat shiftDist) sig32
                  in (if sign then - sig32 else sig32, st)
                else
                  let shiftDist = exp_a - 0x0D;
                      sig32 = (if 0 < shiftDist then push_bit (nat shiftDist) sig32 else sig32)
                  in softfloat_roundToI32 sign sig32 roundingMode exact st
           else softfloat_roundToI32 sign sig32 roundingMode exact st)"

definition f16_to_ui32 :: "float16_t \<Rightarrow> uint_fast8_t \<Rightarrow> bool \<Rightarrow> sf_state \<Rightarrow> uint_fast32_t \<times> sf_state" where
  "f16_to_ui32 a roundingMode exact st =
     (let sign = signF16UI (ucast a);
          exp_a = expF16UI (ucast a);
          frac = fracF16UI (ucast a)
      in if exp_a = 0x1F then
           (if frac \<noteq> 0 then ui32_fromNaN else if sign then ui32_fromNegOverflow else ui32_fromPosOverflow,
            softfloat_raiseFlags softfloat_flag_invalid st)
         else
           let sig32 = frac
           in if exp_a \<noteq> 0 then
             let sig32 = sig32 OR 0x0400;
                 shiftDist = exp_a - 0x19
             in if 0 \<le> shiftDist \<and> \<not> sign then (push_bit (nat shiftDist) sig32, st)
                else
                  let shiftDist = exp_a - 0x0D;
                      sig32 = (if 0 < shiftDist then push_bit (nat shiftDist) sig32 else sig32)
                  in softfloat_roundToUI32 sign sig32 roundingMode exact st
           else softfloat_roundToUI32 sign sig32 roundingMode exact st)"

definition f16_to_i64 :: "float16_t \<Rightarrow> uint_fast8_t \<Rightarrow> bool \<Rightarrow> sf_state \<Rightarrow> int_fast64_t \<times> sf_state" where
  "f16_to_i64 a roundingMode exact st =
     (let sign = signF16UI (ucast a);
          exp_a = expF16UI (ucast a);
          frac = fracF16UI (ucast a)
      in if exp_a = 0x1F then
           (if frac \<noteq> 0 then i64_fromNaN else if sign then i64_fromNegOverflow else i64_fromPosOverflow,
            softfloat_raiseFlags softfloat_flag_invalid st)
         else
           let sig32 = frac
           in if exp_a \<noteq> 0 then
             let sig32 = sig32 OR 0x0400;
                 shiftDist = exp_a - 0x19
             in if 0 \<le> shiftDist then
                  let sig32 = push_bit (nat shiftDist) sig32
                  in (if sign then - sig32 else sig32, st)
                else
                  let shiftDist = exp_a - 0x0D;
                      sig32 = (if 0 < shiftDist then push_bit (nat shiftDist) sig32 else sig32)
                  in softfloat_roundToI32 sign sig32 roundingMode exact st
           else softfloat_roundToI32 sign sig32 roundingMode exact st)"

definition f16_to_ui64 :: "float16_t \<Rightarrow> uint_fast8_t \<Rightarrow> bool \<Rightarrow> sf_state \<Rightarrow> uint_fast64_t \<times> sf_state" where
  "f16_to_ui64 a roundingMode exact st =
     (let sign = signF16UI (ucast a);
          exp_a = expF16UI (ucast a);
          frac = fracF16UI (ucast a)
      in if exp_a = 0x1F then
           (if frac \<noteq> 0 then ui64_fromNaN else if sign then ui64_fromNegOverflow else ui64_fromPosOverflow,
            softfloat_raiseFlags softfloat_flag_invalid st)
         else
           let sig32 = frac
           in if exp_a \<noteq> 0 then
             let sig32 = sig32 OR 0x0400;
                 shiftDist = exp_a - 0x19
             in if 0 \<le> shiftDist \<and> \<not> sign then (push_bit (nat shiftDist) sig32, st)
                else
                  let shiftDist = exp_a - 0x0D;
                      sig32 = (if 0 < shiftDist then push_bit (nat shiftDist) sig32 else sig32)
                  in softfloat_roundToUI32 sign sig32 roundingMode exact st
           else softfloat_roundToUI32 sign sig32 roundingMode exact st)"

definition f32_to_i32 :: "float32_t \<Rightarrow> uint_fast8_t \<Rightarrow> bool \<Rightarrow> sf_state \<Rightarrow> int_fast32_t \<times> sf_state" where
  "f32_to_i32 a roundingMode exact st =
     (let sign = signF32UI (ucast a);
          exp_a = expF32UI (ucast a);
          sig = fracF32UI (ucast a);
          sign = (if exp_a = 0xFF \<and> sig \<noteq> 0 then False else sign);
          sig = (if exp_a \<noteq> 0 then sig OR 0x00800000 else sig);
          sig64 = push_bit 32 sig;
          shiftDist = 0xAA - exp_a;
          sig64 = (if 0 < shiftDist then softfloat_shiftRightJam64 sig64 (word_of_int shiftDist) else sig64)
      in softfloat_roundToI32 sign sig64 roundingMode exact st)"

definition f32_to_ui32 :: "float32_t \<Rightarrow> uint_fast8_t \<Rightarrow> bool \<Rightarrow> sf_state \<Rightarrow> uint_fast32_t \<times> sf_state" where
  "f32_to_ui32 a roundingMode exact st =
     (let sign = signF32UI (ucast a);
          exp_a = expF32UI (ucast a);
          sig = fracF32UI (ucast a);
          sign = (if exp_a = 0xFF \<and> sig \<noteq> 0 then False else sign);
          sig = (if exp_a \<noteq> 0 then sig OR 0x00800000 else sig);
          sig64 = push_bit 32 sig;
          shiftDist = 0xAA - exp_a;
          sig64 = (if 0 < shiftDist then softfloat_shiftRightJam64 sig64 (word_of_int shiftDist) else sig64)
      in softfloat_roundToUI32 sign sig64 roundingMode exact st)"

definition f32_to_i64 :: "float32_t \<Rightarrow> uint_fast8_t \<Rightarrow> bool \<Rightarrow> sf_state \<Rightarrow> int_fast64_t \<times> sf_state" where
  "f32_to_i64 a roundingMode exact st =
     (let sign = signF32UI (ucast a);
          exp_a = expF32UI (ucast a);
          sig = fracF32UI (ucast a);
          shiftDist = 0xBE - exp_a
      in if shiftDist < 0 then
           (if exp_a = 0xFF \<and> sig \<noteq> 0 then i64_fromNaN else if sign then i64_fromNegOverflow else i64_fromPosOverflow,
            softfloat_raiseFlags softfloat_flag_invalid st)
         else
           let sig = (if exp_a \<noteq> 0 then sig OR 0x00800000 else sig);
               sig64 = push_bit 40 sig;
               sig64Extra = (if shiftDist \<noteq> 0 then softfloat_shiftRightJam64Extra sig64 0 (word_of_int shiftDist)
                             else \<lparr>extra_v = sig64, extra_extra = 0\<rparr>)
           in softfloat_roundToI64 sign (extra_v sig64Extra) (extra_extra sig64Extra) roundingMode exact st)"

definition f32_to_ui64 :: "float32_t \<Rightarrow> uint_fast8_t \<Rightarrow> bool \<Rightarrow> sf_state \<Rightarrow> uint_fast64_t \<times> sf_state" where
  "f32_to_ui64 a roundingMode exact st =
     (let sign = signF32UI (ucast a);
          exp_a = expF32UI (ucast a);
          sig = fracF32UI (ucast a);
          shiftDist = 0xBE - exp_a
      in if shiftDist < 0 then
           (if exp_a = 0xFF \<and> sig \<noteq> 0 then ui64_fromNaN else if sign then ui64_fromNegOverflow else ui64_fromPosOverflow,
            softfloat_raiseFlags softfloat_flag_invalid st)
         else
           let sig = (if exp_a \<noteq> 0 then sig OR 0x00800000 else sig);
               sig64 = push_bit 40 sig;
               sig64Extra = (if shiftDist \<noteq> 0 then softfloat_shiftRightJam64Extra sig64 0 (word_of_int shiftDist)
                             else \<lparr>extra_v = sig64, extra_extra = 0\<rparr>)
           in softfloat_roundToUI64 sign (extra_v sig64Extra) (extra_extra sig64Extra) roundingMode exact st)"

definition f64_to_i32 :: "float64_t \<Rightarrow> uint_fast8_t \<Rightarrow> bool \<Rightarrow> sf_state \<Rightarrow> int_fast32_t \<times> sf_state" where
  "f64_to_i32 a roundingMode exact st =
     (let sign = signF64UI a;
          exp_a = expF64UI a;
          sig = fracF64UI a;
          sign = (if exp_a = 0x7FF \<and> sig \<noteq> 0 then False else sign);
          sig = (if exp_a \<noteq> 0 then sig OR 0x0010000000000000 else sig);
          shiftDist = 0x427 - exp_a;
          sig = (if 0 < shiftDist then softfloat_shiftRightJam64 sig (word_of_int shiftDist) else sig)
      in softfloat_roundToI32 sign sig roundingMode exact st)"

definition f64_to_ui32 :: "float64_t \<Rightarrow> uint_fast8_t \<Rightarrow> bool \<Rightarrow> sf_state \<Rightarrow> uint_fast32_t \<times> sf_state" where
  "f64_to_ui32 a roundingMode exact st =
     (let sign = signF64UI a;
          exp_a = expF64UI a;
          sig = fracF64UI a;
          sign = (if exp_a = 0x7FF \<and> sig \<noteq> 0 then False else sign);
          sig = (if exp_a \<noteq> 0 then sig OR 0x0010000000000000 else sig);
          shiftDist = 0x427 - exp_a;
          sig = (if 0 < shiftDist then softfloat_shiftRightJam64 sig (word_of_int shiftDist) else sig)
      in softfloat_roundToUI32 sign sig roundingMode exact st)"

definition f64_to_i64 :: "float64_t \<Rightarrow> uint_fast8_t \<Rightarrow> bool \<Rightarrow> sf_state \<Rightarrow> int_fast64_t \<times> sf_state" where
  "f64_to_i64 a roundingMode exact st =
     (let sign = signF64UI a;
          exp_a = expF64UI a;
          sig = fracF64UI a;
          sig = (if exp_a \<noteq> 0 then sig OR 0x0010000000000000 else sig);
          shiftDist = 0x433 - exp_a
      in if shiftDist \<le> 0 \<and> shiftDist < -11 then
           (if exp_a = 0x7FF \<and> fracF64UI a \<noteq> 0 then i64_fromNaN else if sign then i64_fromNegOverflow else i64_fromPosOverflow,
            softfloat_raiseFlags softfloat_flag_invalid st)
         else
           let sigExtra = (if shiftDist \<le> 0 then \<lparr>extra_v = push_bit (nat (- shiftDist)) sig, extra_extra = 0\<rparr>
                           else softfloat_shiftRightJam64Extra sig 0 (word_of_int shiftDist))
           in softfloat_roundToI64 sign (extra_v sigExtra) (extra_extra sigExtra) roundingMode exact st)"

definition f64_to_ui64 :: "float64_t \<Rightarrow> uint_fast8_t \<Rightarrow> bool \<Rightarrow> sf_state \<Rightarrow> uint_fast64_t \<times> sf_state" where
  "f64_to_ui64 a roundingMode exact st =
     (let sign = signF64UI a;
          exp_a = expF64UI a;
          sig = fracF64UI a;
          sig = (if exp_a \<noteq> 0 then sig OR 0x0010000000000000 else sig);
          shiftDist = 0x433 - exp_a
      in if shiftDist \<le> 0 \<and> shiftDist < -11 then
           (if exp_a = 0x7FF \<and> fracF64UI a \<noteq> 0 then ui64_fromNaN else if sign then ui64_fromNegOverflow else ui64_fromPosOverflow,
            softfloat_raiseFlags softfloat_flag_invalid st)
         else
           let sigExtra = (if shiftDist \<le> 0 then \<lparr>extra_v = push_bit (nat (- shiftDist)) sig, extra_extra = 0\<rparr>
                           else softfloat_shiftRightJam64Extra sig 0 (word_of_int shiftDist))
           in softfloat_roundToUI64 sign (extra_v sigExtra) (extra_extra sigExtra) roundingMode exact st)"

section \<open>Specification\<close>

text \<open>
  The IEEE conversion to an integer type with bounds \<open>lo\<close> and \<open>hi\<close>: the value rounded to an integer
  in the given mode.  Out of range, infinite and NaN operands are invalid and give the nearest bound,
  a NaN the upper one, as RISC-V prescribes; \<open>exact\<close> says whether an inexact result is signalled.
\<close>

definition ieee_to_int ::
  "nat \<Rightarrow> nat \<Rightarrow> int \<Rightarrow> int \<Rightarrow> rmode \<Rightarrow> bool \<Rightarrow> 'w::len word \<Rightarrow> sf_state \<Rightarrow> int \<times> sf_state" where
  "ieee_to_int fb eb lo hi m exact a st =
     (if fp_is_nan fb eb a then int_overflow lo hi False st
      else if fp_is_inf fb eb a then int_overflow lo hi (fp_neg fb eb a) st
      else int_result lo hi (fp_neg fb eb a) m exact \<bar>fp_real fb eb a\<bar> st)"

section \<open>The operand\<close>

context sf_format
begin

text \<open>The significand with its hidden bit, and the value of the operand in terms of it.\<close>

lemma operand:
  fixes a :: "'w word"
  obtains e S where "o_exp ops (ucast a) = int e" "e < 2 ^ eb" "fp_finite fb eb a \<longleftrightarrow> e < 2 ^ eb - 1"
    "unat (if int e \<noteq> 0 then o_frac ops (ucast a) OR 2 ^ fb else o_frac ops (ucast a)) = S" "S < 2 ^ (fb + 1)"
    "e \<noteq> 0 \<longrightarrow> 2 ^ fb \<le> S" "e = 0 \<longrightarrow> S < 2 ^ fb"
    "e = 0 \<longrightarrow> \<bar>fp_real fb eb a\<bar> = real S * pw2 (fp_qmin fb eb)"
    "e \<noteq> 0 \<longrightarrow> \<bar>fp_real fb eb a\<bar> = real S * pw2 (int e + fp_qmin fb eb - 1)"
proof -
  obtain e s where f: "o_exp ops (ucast a) = int e" "o_frac ops (ucast a) = s" "unat s < 2 ^ fb"
    "fp_magbits fb eb a = e * 2 ^ fb + unat s" "e < 2 ^ eb" "fp_finite fb eb a \<longleftrightarrow> e < 2 ^ eb - 1"
    by (rule fields)
  define S where "S = (if e = 0 then unat s else unat s + 2 ^ fb)"
  have "unat (2 ^ fb :: uint64_t) = 2 ^ fb" using width(3) by (intro unat_power2_word) simp
  then have "unat (s OR 2 ^ fb) = unat s + 2 ^ fb" using nat_or_hidden [of "unat s" fb] f(3) by (simp add: unat_or)
  then have "unat (if int e \<noteq> 0 then o_frac ops (ucast a) OR 2 ^ fb else o_frac ops (ucast a)) = S"
    by (simp add: S_def f(2))
  moreover have "\<bar>fp_real fb eb a\<bar> = (if e = 0 then real S * pw2 (fp_qmin fb eb) else real S * pw2 (int e + fp_qmin fb eb - 1))"
    unfolding abs_real f(4) fp_mag_def using f(3) by (simp add: S_def add.commute)
  ultimately show ?thesis using that [of e S] f by (auto simp: S_def)
qed

lemma to_int_special:
  assumes "\<not> fp_finite fb eb (a :: 'w word)"
  shows "ieee_to_int fb eb lo hi m exact a st =
    int_overflow lo hi (if o_frac ops (ucast a) \<noteq> 0 then False else o_sign ops (ucast a)) st"
  using not_finite_frac [OF assms] by (simp add: ieee_to_int_def sign)

lemma to_int_finite:
  assumes "fp_finite fb eb (a :: 'w word)"
  shows "ieee_to_int fb eb lo hi m exact a st = int_result lo hi (o_sign ops (ucast a)) m exact \<bar>fp_real fb eb a\<bar> st"
  using assms by (simp add: ieee_to_int_def sign fp_finite_def fp_is_nan_def fp_is_inf_def)

lemma max_field: "e < 2 ^ eb \<Longrightarrow> int e = 2 ^ eb - 1 \<longleftrightarrow> \<not> e < 2 ^ eb - 1"
proof -
  assume "e < 2 ^ eb"
  then have "\<not> e < 2 ^ eb - 1 \<longleftrightarrow> e = 2 ^ eb - 1" by linarith
  also have "\<dots> \<longleftrightarrow> int e = int (2 ^ eb - 1)" by (simp only: of_nat_eq_iff)
  also have "int (2 ^ eb - 1) = 2 ^ eb - 1" by (simp add: of_nat_diff)
  finally show ?thesis by simp
qed

text \<open>A value below one half, and another one that vanishes with it, are in one cell.\<close>

lemma tiny_cell:
  assumes "S < 2 ^ k" "0 \<le> y" "y < 1" "y = 0 \<longleftrightarrow> S = 0" and "int k + q < 0"
  shows "same_cell (2 * (real S * pw2 q)) y"
proof (rule same_cell_small)
  have "real S < real (2 ^ k)" using assms(1) by (simp only: of_nat_less_iff)
  then have "real S * pw2 q < pw2 (int k) * pw2 q" by (intro mult_strict_right_mono) simp_all
  also have "\<dots> = pw2 (int k + q)" by (simp only: pw2_add)
  also have "\<dots> \<le> pw2 (- 1)" using assms(5) by (intro pw2_mono) simp
  finally show "2 * (real S * pw2 q) < 1" by (simp add: power_int_minus)
qed (use assms in auto)

end

section \<open>Conversions to 32-bit integers\<close>

locale sf_to_int = sf_format fb eb g ops + int_rounder lo hi R
  for fb eb g :: nat and ops :: "'w::len word sf_ops" and lo hi :: int and R +
  fixes L :: nat and K :: int
  assumes dist: "K = 2 ^ (eb - 1) - 1 + int fb + int L - 12" "K < 2 ^ eb - 1"
    and shift: "44 \<le> fb + L" "fb + L + 1 \<le> 63" "L \<le> 55" and eb4: "4 \<le> eb"
begin

definition jammed :: "'w word \<Rightarrow> uint64_t" where
  "jammed a =
     (let e = o_exp ops (ucast a); s = o_frac ops (ucast a);
          sig = push_bit L (if e \<noteq> 0 then s OR 2 ^ fb else s)
      in if 0 < K - e then softfloat_shiftRightJam64 sig (word_of_int (K - e)) else sig)"

lemma to_int_correct:
  "R (if o_exp ops (ucast a) = 2 ^ eb - 1 \<and> o_frac ops (ucast a) \<noteq> 0 then False else o_sign ops (ucast a))
     (jammed a) r exact st = ieee_to_int fb eb lo hi (int_rmode r) exact a st"
proof -
  obtain e S where f: "o_exp ops (ucast a) = int e" "e < 2 ^ eb" "fp_finite fb eb a \<longleftrightarrow> e < 2 ^ eb - 1"
    "unat (if int e \<noteq> 0 then o_frac ops (ucast a) OR 2 ^ fb else o_frac ops (ucast a)) = S" "S < 2 ^ (fb + 1)"
    "e \<noteq> 0 \<longrightarrow> 2 ^ fb \<le> S" "e = 0 \<longrightarrow> S < 2 ^ fb"
    "e = 0 \<longrightarrow> \<bar>fp_real fb eb a\<bar> = real S * pw2 (fp_qmin fb eb)"
    "e \<noteq> 0 \<longrightarrow> \<bar>fp_real fb eb a\<bar> = real S * pw2 (int e + fp_qmin fb eb - 1)"
    by (rule operand [of a])
  define sig where "sig = push_bit L (if int e \<noteq> 0 then o_frac ops (ucast a) OR 2 ^ fb else o_frac ops (ucast a))"
  have "S * 2 ^ L < 2 ^ (fb + 1) * 2 ^ L" using f(5) by simp
  also have "\<dots> = 2 ^ (fb + L + 1)" by (simp add: power_add)
  also have "\<dots> \<le> 2 ^ 63" using shift by (intro power_increasing) auto
  finally have lt: "S * 2 ^ L < 2 ^ 63" .
  have sig: "unat sig = S * 2 ^ L" unfolding sig_def by (subst unat_push_bit_less) (use lt f(4) in simp_all)
  have jam: "jammed a = (if 0 < K - int e then softfloat_shiftRightJam64 sig (word_of_int (K - int e)) else sig)"
    by (simp only: jammed_def f(1) Let_def sig_def)
  have e4: "(2::int) ^ 3 \<le> 2 ^ (eb - 1)" using eb4 by (intro power_increasing) auto
  show ?thesis
  proof (cases "0 < K - int e")
    case True
    then have "int e < 2 ^ eb - 1" using dist(2) by linarith
    then have fin: "fp_finite fb eb a" using max_field [OF f(2)] f(3) by auto
    define d where "d = nat (K - int e)"
    have u: "unat (word_of_int (K - int e) :: uint64_t) = d"
      unfolding d_def using True dist(2) exp_small by (intro unat_word_of_int) auto
    have "unat (word_of_int (K - int e) :: uint64_t) \<noteq> 0" unfolding u using True by (simp add: d_def)
    then have "(word_of_int (K - int e) :: uint64_t) \<noteq> 0" by (subst word_neq_0_unat)
    from unat_shiftRightJam64 [OF this] have jd: "unat (jammed a) = jam d (S * 2 ^ L)"
      unfolding jam if_P [OF True] by (simp only: u sig)
    have "same_cell (2 * \<bar>fp_real fb eb a\<bar>) (2 * (real (unat (jammed a)) / 2 ^ 12))"
    proof (cases "e = 0")
      case z: True
      have d: "int d = 2 ^ (eb - 1) - 1 + int fb + int L - 12" using True z dist(1) by (simp add: d_def)
      have "S * 2 ^ L < 2 ^ fb * 2 ^ L" using f(7) [rule_format, OF z] by simp
      also have "\<dots> = 2 ^ (fb + L)" by (simp add: power_add)
      also have "\<dots> \<le> 2 ^ (11 + d)" using d e4 by (intro power_increasing) auto
      finally have "jam d (S * 2 ^ L) < 2 ^ 11" by (intro jam_less) (simp_all add: power_add)
      then have "real (jam d (S * 2 ^ L)) < real (2 ^ 11)" by (simp only: of_nat_less_iff)
      then show ?thesis unfolding f(8) [rule_format, OF z] jd
        using e4 by (intro tiny_cell [OF f(7) [rule_format, OF z]]) (simp_all add: fp_qmin_def)
    next
      case nz: False
      have "int e + fp_qmin fb eb - 1 = int L - int d - int 12" using True dist(1) by (simp add: d_def fp_qmin_def)
      then have x: "2 * \<bar>fp_real fb eb a\<bar> = real (S * 2 ^ L) / 2 ^ d / 2 ^ 11"
        unfolding f(9) [rule_format, OF nz] by (simp only: pw2_diff pw2_nat) simp
      have "2 * (real (unat (jammed a)) / 2 ^ 12) = real (jam d (S * 2 ^ L)) / 2 ^ 11" unfolding jd by simp
      with x show ?thesis using same_cell_jam_coarse [of 11 "S * 2 ^ L" d] by simp
    qed
    moreover have "unat (jammed a) < 2 ^ 63" unfolding jd
      using less_le_trans [OF lt, of "2 ^ 63 * 2 ^ d"] by (intro jam_less) auto
    ultimately show ?thesis
      using fin f(2,3) max_field [OF f(2)] by (simp add: rounds_cell to_int_finite f(1))
  next
    case False
    then have j: "jammed a = sig" by (simp only: jam if_False)
    have nz: "e \<noteq> 0" using False dist(1) shift(1) e4 by auto
    have "(2::nat) ^ 44 \<le> 2 ^ (fb + L)" using shift(1) by (intro power_increasing) auto
    also have "\<dots> \<le> S * 2 ^ L" using f(6) [rule_format, OF nz] by (simp add: power_add)
    finally have ov: "R neg (jammed a) r exact st = int_overflow lo hi neg st" for neg
      using lt unfolding j by (intro rounds_big) (simp_all only: sig)
    show ?thesis
    proof (cases "fp_finite fb eb a")
      case True
      have "(2::real) ^ 32 = pw2 (int 32)" by (simp only: pw2_nat)
      also have "\<dots> \<le> pw2 (int fb + (int e + fp_qmin fb eb - 1))"
        using False dist(1) shift(1) by (intro pw2_mono) (simp add: fp_qmin_def)
      also have "\<dots> = real (2 ^ fb) * pw2 (int e + fp_qmin fb eb - 1)" by (simp only: pw2_add pw2_nat of_nat_power of_nat_numeral)
      also have "\<dots> \<le> \<bar>fp_real fb eb a\<bar>"
        unfolding f(9) [rule_format, OF nz] using f(6) [rule_format, OF nz] by (intro mult_right_mono) (simp_all only: of_nat_le_iff, simp)
      finally show ?thesis
        unfolding ov to_int_finite [OF True] using True f(3) max_field [OF f(2)] by (simp add: big f(1))
    next
      case False
      then show ?thesis unfolding ov to_int_special [OF False] using f(3) max_field [OF f(2)] by (simp add: f(1))
    qed
  qed
qed

end

interpretation f32_i32: sf_to_int 23 8 7 f32_ops "- (2 ^ 31)" "2 ^ 31 - 1"
  "\<lambda>neg sig r exact st. map_prod sint id (softfloat_roundToI32 neg sig r exact st)" 32 "0xAA"
  by unfold_locales simp_all

interpretation f32_ui32: sf_to_int 23 8 7 f32_ops 0 "2 ^ 32 - 1"
  "\<lambda>neg sig r exact st. map_prod uint id (softfloat_roundToUI32 neg sig r exact st)" 32 "0xAA"
  by unfold_locales simp_all

interpretation f64_i32: sf_to_int 52 11 10 f64_ops "- (2 ^ 31)" "2 ^ 31 - 1"
  "\<lambda>neg sig r exact st. map_prod sint id (softfloat_roundToI32 neg sig r exact st)" 0 "0x427"
  by unfold_locales simp_all

interpretation f64_ui32: sf_to_int 52 11 10 f64_ops 0 "2 ^ 32 - 1"
  "\<lambda>neg sig r exact st. map_prod uint id (softfloat_roundToUI32 neg sig r exact st)" 0 "0x427"
  by unfold_locales simp_all

text \<open>The hidden bit and the largest exponent field, as the code writes them.\<close>

lemma f32_consts: "(0x00800000 :: uint64_t) = 2 ^ 23" "(0xFF :: int) = 2 ^ 8 - 1"
  by simp_all

lemma f64_consts: "(0x0010000000000000 :: uint64_t) = 2 ^ 52" "(0x7FF :: int) = 2 ^ 11 - 1"
  by simp_all

lemma push_bit_0: "push_bit 0 (w :: 'a::len word) = w"
  by simp

lemma f32_to_32_spec:
  "map_prod sint id (f32_to_i32 a r exact st) = ieee_to_int 23 8 (- (2 ^ 31)) (2 ^ 31 - 1) (int_rmode r) exact a st"
  "map_prod uint id (f32_to_ui32 a r exact st) = ieee_to_int 23 8 0 (2 ^ 32 - 1) (int_rmode r) exact a st"
  unfolding f32_to_i32_def f32_to_ui32_def Let_def f32_consts
  by (rule f32_i32.to_int_correct [unfolded f32_i32.jammed_def Let_def f32_ops_sel]
      f32_ui32.to_int_correct [unfolded f32_ui32.jammed_def Let_def f32_ops_sel])+

lemma f64_to_32_spec:
  "map_prod sint id (f64_to_i32 a r exact st) = ieee_to_int 52 11 (- (2 ^ 31)) (2 ^ 31 - 1) (int_rmode r) exact a st"
  "map_prod uint id (f64_to_ui32 a r exact st) = ieee_to_int 52 11 0 (2 ^ 32 - 1) (int_rmode r) exact a st"
  unfolding f64_to_i32_def f64_to_ui32_def Let_def f64_consts
  by (rule f64_i32.to_int_correct [unfolded f64_i32.jammed_def Let_def f64_ops_sel push_bit_0 ucast_id]
      f64_ui32.to_int_correct [unfolded f64_ui32.jammed_def Let_def f64_ops_sel push_bit_0 ucast_id])+

section \<open>Conversions to 64-bit integers\<close>

locale sf_to_int_extra = sf_format fb eb g ops + int_rounder_extra lo hi R
  for fb eb g :: nat and ops :: "'w::len word sf_ops" and lo hi :: int and R +
  fixes L :: nat and K M :: int
  assumes dist: "K = 2 ^ (eb - 1) - 1 + int fb + int L" "K + M < 2 ^ eb - 1"
    and shift: "int fb + 1 + int L + M = 64" "0 \<le> M" and eb4: "4 \<le> eb"
begin

definition significand :: "'w word \<Rightarrow> uint64_t" where
  "significand a =
     push_bit L (if o_exp ops (ucast a) \<noteq> 0 then o_frac ops (ucast a) OR 2 ^ fb else o_frac ops (ucast a))"

definition shifted :: "'w word \<Rightarrow> uint64_extra" where
  "shifted a =
     (if K - o_exp ops (ucast a) \<le> 0
      then \<lparr>extra_v = push_bit (nat (- (K - o_exp ops (ucast a)))) (significand a), extra_extra = 0\<rparr>
      else softfloat_shiftRightJam64Extra (significand a) 0 (word_of_int (K - o_exp ops (ucast a))))"

lemma too_large:
  fixes a :: "'w word"
  assumes "K - o_exp ops (ucast a) < - M"
  shows "int_overflow lo hi (if o_exp ops (ucast a) = 2 ^ eb - 1 \<and> o_frac ops (ucast a) \<noteq> 0 then False
      else o_sign ops (ucast a)) st = ieee_to_int fb eb lo hi m exact a st"
proof -
  obtain e S where f: "o_exp ops (ucast a) = int e" "e < 2 ^ eb" "fp_finite fb eb a \<longleftrightarrow> e < 2 ^ eb - 1"
    "unat (if int e \<noteq> 0 then o_frac ops (ucast a) OR 2 ^ fb else o_frac ops (ucast a)) = S" "S < 2 ^ (fb + 1)"
    "e \<noteq> 0 \<longrightarrow> 2 ^ fb \<le> S" "e = 0 \<longrightarrow> S < 2 ^ fb"
    "e = 0 \<longrightarrow> \<bar>fp_real fb eb a\<bar> = real S * pw2 (fp_qmin fb eb)"
    "e \<noteq> 0 \<longrightarrow> \<bar>fp_real fb eb a\<bar> = real S * pw2 (int e + fp_qmin fb eb - 1)"
    by (rule operand [of a])
  show ?thesis
  proof (cases "fp_finite fb eb a")
    case True
    have "0 < (2::int) ^ (eb - 1)" by simp
    then have nz: "e \<noteq> 0" using assms dist(1) shift(2) by (auto simp: f(1) simp del: zero_less_power)
    have "(2::real) ^ 64 = pw2 (int 64)" by (simp only: pw2_nat)
    also have "\<dots> \<le> pw2 (int fb + (int e + fp_qmin fb eb - 1))"
      using assms dist(1) shift(1) by (intro pw2_mono) (simp add: fp_qmin_def f(1))
    also have "\<dots> = real (2 ^ fb) * pw2 (int e + fp_qmin fb eb - 1)" by (simp only: pw2_add pw2_nat of_nat_power of_nat_numeral)
    also have "\<dots> \<le> \<bar>fp_real fb eb a\<bar>"
      unfolding f(9) [rule_format, OF nz] using f(6) [rule_format, OF nz]
      by (intro mult_right_mono) (simp_all only: of_nat_le_iff, simp)
    finally show ?thesis
      unfolding to_int_finite [OF True] using True f(3) max_field [OF f(2)] by (simp add: big f(1))
  next
    case False
    then show ?thesis unfolding to_int_special [OF False] using f(3) max_field [OF f(2)] by (simp add: f(1))
  qed
qed

lemma to_int_correct:
  fixes a :: "'w word"
  assumes "- M \<le> K - o_exp ops (ucast a)"
  shows "R (o_sign ops (ucast a)) (extra_v (shifted a)) (extra_extra (shifted a)) r exact st =
    ieee_to_int fb eb lo hi (int_rmode r) exact a st"
proof -
  obtain e S where f: "o_exp ops (ucast a) = int e" "e < 2 ^ eb" "fp_finite fb eb a \<longleftrightarrow> e < 2 ^ eb - 1"
    "unat (if int e \<noteq> 0 then o_frac ops (ucast a) OR 2 ^ fb else o_frac ops (ucast a)) = S" "S < 2 ^ (fb + 1)"
    "e \<noteq> 0 \<longrightarrow> 2 ^ fb \<le> S" "e = 0 \<longrightarrow> S < 2 ^ fb"
    "e = 0 \<longrightarrow> \<bar>fp_real fb eb a\<bar> = real S * pw2 (fp_qmin fb eb)"
    "e \<noteq> 0 \<longrightarrow> \<bar>fp_real fb eb a\<bar> = real S * pw2 (int e + fp_qmin fb eb - 1)"
    by (rule operand [of a])
  have "int e < 2 ^ eb - 1" using assms dist(2) by (simp add: f(1))
  then have fin: "fp_finite fb eb a" using max_field [OF f(2)] f(3) by auto
  have bound: "S * 2 ^ k < 2 ^ 64" if "int k \<le> int L + M" for k
  proof -
    have "S * 2 ^ k < 2 ^ (fb + 1) * 2 ^ k" using f(5) by simp
    also have "\<dots> = 2 ^ (fb + 1 + k)" by (simp add: power_add)
    also have "\<dots> \<le> 2 ^ 64" using that shift by (intro power_increasing) auto
    finally show ?thesis .
  qed
  have sig: "unat (significand a) = S * 2 ^ L"
    unfolding significand_def f(1) using bound [of L] shift(2) f(4) by (subst unat_push_bit_less) simp_all
  have e4: "(2::int) ^ 3 \<le> 2 ^ (eb - 1)" using eb4 by (intro power_increasing) auto
  have "same_cell (2 * \<bar>fp_real fb eb a\<bar>) (2 * extra_real (extra_v (shifted a)) (extra_extra (shifted a)))"
  proof (cases "K - int e \<le> 0")
    case True
    then have nz: "e \<noteq> 0" using dist(1) e4 by auto
    define k where "k = nat (- (K - int e))"
    have "S * 2 ^ L * 2 ^ k < 2 ^ 64" using bound [of "L + k"] assms True by (simp add: k_def f(1) power_add mult.assoc)
    then have v: "unat (push_bit k (significand a)) = S * 2 ^ L * 2 ^ k"
      by (subst unat_push_bit_less) (simp_all add: sig)
    have "int e + fp_qmin fb eb - 1 = int L + int k" using True dist(1) by (simp add: k_def fp_qmin_def)
    then have "\<bar>fp_real fb eb a\<bar> = real (S * 2 ^ L * 2 ^ k)"
      unfolding f(9) [rule_format, OF nz] by (simp only: pw2_add pw2_nat) simp
    then show ?thesis using True unfolding shifted_def f(1) k_def [symmetric] by (simp add: v)
  next
    case False
    define d where "d = nat (K - int e)"
    have u: "unat (word_of_int (K - int e) :: uint64_t) = d"
      unfolding d_def using False dist(2) shift(2) exp_small by (intro unat_word_of_int) auto
    have "unat (word_of_int (K - int e) :: uint64_t) \<noteq> 0" unfolding u using False by (simp add: d_def)
    then have "(word_of_int (K - int e) :: uint64_t) \<noteq> 0" by (subst word_neq_0_unat)
    from shiftRightJam64Extra_cell [OF this, of "significand a"] False
    have cell: "same_cell (2 * (real (S * 2 ^ L) / 2 ^ d)) (2 * extra_real (extra_v (shifted a)) (extra_extra (shifted a)))"
      unfolding shifted_def f(1) if_not_P [OF False] by (simp only: u sig)
    show ?thesis
    proof (cases "e = 0")
      case z: True
      have d: "int d = 2 ^ (eb - 1) - 1 + int fb + int L" using False z dist(1) by (simp add: d_def)
      have "S * 2 ^ L * 2 < 2 ^ fb * 2 ^ L * 2" using f(7) [rule_format, OF z] by simp
      also have "\<dots> = 2 ^ (fb + L + 1)" by (simp add: power_add)
      also have "\<dots> \<le> 2 ^ d" using d e4 by (intro power_increasing) auto
      finally have "real (S * 2 ^ L * 2) < real (2 ^ d)" by (simp only: of_nat_less_iff)
      then have "same_cell (2 * (real S * pw2 (fp_qmin fb eb))) (2 * (real (S * 2 ^ L) / 2 ^ d))"
        using e4 by (intro tiny_cell [OF f(7) [rule_format, OF z]]) (simp_all add: fp_qmin_def)
      then show ?thesis unfolding f(8) [rule_format, OF z] using cell by (rule same_cell_trans)
    next
      case nz: False
      have "int e + fp_qmin fb eb - 1 = int L - int d" using False dist(1) by (simp add: d_def fp_qmin_def)
      then have "\<bar>fp_real fb eb a\<bar> = real (S * 2 ^ L) / 2 ^ d"
        unfolding f(9) [rule_format, OF nz] by (simp only: pw2_diff pw2_nat) simp
      then show ?thesis using cell by simp
    qed
  qed
  then show ?thesis unfolding to_int_finite [OF fin] by (rule rounds_cell)
qed

end

interpretation f32_i64: sf_to_int_extra 23 8 7 f32_ops "- (2 ^ 63)" "2 ^ 63 - 1"
  "\<lambda>neg sig extra r exact st. map_prod sint id (softfloat_roundToI64 neg sig extra r exact st)" 40 "0xBE" 0
  by unfold_locales simp_all

interpretation f32_ui64: sf_to_int_extra 23 8 7 f32_ops 0 "2 ^ 64 - 1"
  "\<lambda>neg sig extra r exact st. map_prod uint id (softfloat_roundToUI64 neg sig extra r exact st)" 40 "0xBE" 0
  by unfold_locales simp_all

interpretation f64_i64: sf_to_int_extra 52 11 10 f64_ops "- (2 ^ 63)" "2 ^ 63 - 1"
  "\<lambda>neg sig extra r exact st. map_prod sint id (softfloat_roundToI64 neg sig extra r exact st)" 0 "0x433" 11
  by unfold_locales simp_all

interpretation f64_ui64: sf_to_int_extra 52 11 10 f64_ops 0 "2 ^ 64 - 1"
  "\<lambda>neg sig extra r exact st. map_prod uint id (softfloat_roundToUI64 neg sig extra r exact st)" 0 "0x433" 11
  by unfold_locales simp_all

text \<open>The results of the code for operands out of range.\<close>

lemma overflow_result:
  "map_prod sint id (if P then i32_fromNaN else if neg then i32_fromNegOverflow else i32_fromPosOverflow,
     softfloat_raiseFlags softfloat_flag_invalid st) = int_overflow (- (2 ^ 31)) (2 ^ 31 - 1) (if P then False else neg) st"
  "map_prod uint id (if P then ui32_fromNaN else if neg then ui32_fromNegOverflow else ui32_fromPosOverflow,
     softfloat_raiseFlags softfloat_flag_invalid st) = int_overflow 0 (2 ^ 32 - 1) (if P then False else neg) st"
  "map_prod sint id (if P then i64_fromNaN else if neg then i64_fromNegOverflow else i64_fromPosOverflow,
     softfloat_raiseFlags softfloat_flag_invalid st) = int_overflow (- (2 ^ 63)) (2 ^ 63 - 1) (if P then False else neg) st"
  "map_prod uint id (if P then ui64_fromNaN else if neg then ui64_fromNegOverflow else ui64_fromPosOverflow,
     softfloat_raiseFlags softfloat_flag_invalid st) = int_overflow 0 (2 ^ 64 - 1) (if P then False else neg) st"
  by (simp_all add: overflow_defs int_overflow_def)

lemma f32_to_64_spec:
  "map_prod sint id (f32_to_i64 a r exact st) = ieee_to_int 23 8 (- (2 ^ 63)) (2 ^ 63 - 1) (int_rmode r) exact a st"
  "map_prod uint id (f32_to_ui64 a r exact st) = ieee_to_int 23 8 0 (2 ^ 64 - 1) (int_rmode r) exact a st"
proof -
  let ?d = "0xBE - expF32UI (ucast a)"
  have s: "(if ?d \<noteq> 0 then softfloat_shiftRightJam64Extra
        (push_bit 40 (if expF32UI (ucast a) \<noteq> 0 then fracF32UI (ucast a) OR 2 ^ 23 else fracF32UI (ucast a))) 0 (word_of_int ?d)
      else \<lparr>extra_v = push_bit 40 (if expF32UI (ucast a) \<noteq> 0 then fracF32UI (ucast a) OR 2 ^ 23 else fracF32UI (ucast a)),
        extra_extra = 0\<rparr>) = f32_i64.shifted a" if "\<not> ?d < 0"
    using that unfolding f32_i64.shifted_def f32_i64.significand_def f32_ops_sel
    by (cases "?d = 0") (simp_all only: nat_0 push_bit_0 minus_zero order_refl if_True if_False not_False_eq_True order.order_iff_strict simp_thms)
  show "map_prod sint id (f32_to_i64 a r exact st) = ieee_to_int 23 8 (- (2 ^ 63)) (2 ^ 63 - 1) (int_rmode r) exact a st"
  proof (cases "?d < 0")
    case True
    show ?thesis
      unfolding f32_to_i64_def Let_def f32_consts if_P [OF True] overflow_result
      by (rule f32_i64.too_large [unfolded f32_ops_sel]) (use True in simp)
  next
    case False
    show ?thesis
      unfolding f32_to_i64_def Let_def f32_consts if_not_P [OF False] s [OF False]
      by (rule f32_i64.to_int_correct [unfolded f32_ops_sel]) (use False in auto)
  qed
  show "map_prod uint id (f32_to_ui64 a r exact st) = ieee_to_int 23 8 0 (2 ^ 64 - 1) (int_rmode r) exact a st"
  proof (cases "?d < 0")
    case True
    show ?thesis
      unfolding f32_to_ui64_def Let_def f32_consts if_P [OF True] overflow_result
      by (rule f32_ui64.too_large [unfolded f32_ops_sel]) (use True in simp)
  next
    case False
    show ?thesis
      unfolding f32_to_ui64_def Let_def f32_consts if_not_P [OF False] s [OF False]
      by (rule f32_ui64.to_int_correct [unfolded f32_ops_sel]) (use False in auto)
  qed
qed

lemma f64_to_64_spec:
  "map_prod sint id (f64_to_i64 a r exact st) = ieee_to_int 52 11 (- (2 ^ 63)) (2 ^ 63 - 1) (int_rmode r) exact a st"
  "map_prod uint id (f64_to_ui64 a r exact st) = ieee_to_int 52 11 0 (2 ^ 64 - 1) (int_rmode r) exact a st"
proof -
  let ?d = "0x433 - expF64UI a"
  have s: "(if ?d \<le> 0
      then \<lparr>extra_v = push_bit (nat (- ?d)) (if expF64UI a \<noteq> 0 then fracF64UI a OR 2 ^ 52 else fracF64UI a), extra_extra = 0\<rparr>
      else softfloat_shiftRightJam64Extra (if expF64UI a \<noteq> 0 then fracF64UI a OR 2 ^ 52 else fracF64UI a) 0 (word_of_int ?d)) =
      f64_i64.shifted a" if "\<not> (?d \<le> 0 \<and> ?d < - 11)"
    unfolding f64_i64.shifted_def f64_i64.significand_def f64_ops_sel ucast_id push_bit_0 ..
  show "map_prod sint id (f64_to_i64 a r exact st) = ieee_to_int 52 11 (- (2 ^ 63)) (2 ^ 63 - 1) (int_rmode r) exact a st"
  proof (cases "?d \<le> 0 \<and> ?d < - 11")
    case True
    show ?thesis
      unfolding f64_to_i64_def Let_def f64_consts if_P [OF True] overflow_result
      by (rule f64_i64.too_large [unfolded f64_ops_sel ucast_id]) (use True in simp)
  next
    case False
    show ?thesis
      unfolding f64_to_i64_def Let_def f64_consts if_not_P [OF False] s [OF False]
      by (rule f64_i64.to_int_correct [unfolded f64_ops_sel ucast_id]) (use False in auto)
  qed
  show "map_prod uint id (f64_to_ui64 a r exact st) = ieee_to_int 52 11 0 (2 ^ 64 - 1) (int_rmode r) exact a st"
  proof (cases "?d \<le> 0 \<and> ?d < - 11")
    case True
    show ?thesis
      unfolding f64_to_ui64_def Let_def f64_consts if_P [OF True] overflow_result
      by (rule f64_ui64.too_large [unfolded f64_ops_sel ucast_id]) (use True in simp)
  next
    case False
    show ?thesis
      unfolding f64_to_ui64_def Let_def f64_consts if_not_P [OF False] s [OF False]
      by (rule f64_ui64.to_int_correct [unfolded f64_ops_sel ucast_id]) (use False in auto)
  qed
qed

section \<open>Conversions of binary16\<close>

text \<open>
  The magnitudes of binary16 fit every integer type but for their sign, so its conversions go through the
  rounding routines for 32 bits whatever the result type is.
\<close>

lemma f16_consts: "(0x0400 :: uint64_t) = 2 ^ 10" "(0x1F :: int) = 2 ^ 5 - 1"
  by simp_all

definition f16_sig :: "float16_t \<Rightarrow> uint64_t" where
  "f16_sig a = (if expF16UI (ucast a) \<noteq> 0 then fracF16UI (ucast a) OR 2 ^ 10 else fracF16UI (ucast a))"

definition f16_shifted :: "float16_t \<Rightarrow> uint64_t" where
  "f16_shifted a =
     (if 0 < expF16UI (ucast a) - 0x0D then push_bit (nat (expF16UI (ucast a) - 0x0D)) (f16_sig a) else f16_sig a)"

lemma f16_shifted_cell:
  assumes "fp_finite 10 5 a"
  shows "same_cell (2 * \<bar>fp_real 10 5 a\<bar>) (2 * (real (unat (f16_shifted a)) / 2 ^ 12))"
    and "unat (f16_shifted a) < 2 ^ 63" and "\<bar>fp_real 10 5 a\<bar> < 2 ^ 16"
    and "0x19 \<le> expF16UI (ucast a) \<Longrightarrow> \<bar>fp_real 10 5 a\<bar> = real (unat (push_bit (nat (expF16UI (ucast a) - 0x19)) (f16_sig a)))"
    and "0x19 \<le> expF16UI (ucast a) \<Longrightarrow> unat (push_bit (nat (expF16UI (ucast a) - 0x19)) (f16_sig a)) < 2 ^ 16"
    and "expF16UI (ucast a) = 0 \<Longrightarrow> f16_shifted a = fracF16UI (ucast a)"
proof -
  obtain e S where f: "expF16UI (ucast a) = int e" "e < 2 ^ 5" "fp_finite 10 5 a \<longleftrightarrow> e < 2 ^ 5 - 1"
    "unat (if int e \<noteq> 0 then fracF16UI (ucast a) OR 2 ^ 10 else fracF16UI (ucast a)) = S" "S < 2 ^ (10 + 1)"
    "e \<noteq> 0 \<longrightarrow> 2 ^ 10 \<le> S" "e = 0 \<longrightarrow> S < 2 ^ 10"
    "e = 0 \<longrightarrow> \<bar>fp_real 10 5 a\<bar> = real S * pw2 (fp_qmin 10 5)"
    "e \<noteq> 0 \<longrightarrow> \<bar>fp_real 10 5 a\<bar> = real S * pw2 (int e + fp_qmin 10 5 - 1)"
    by (rule f16.operand [of a, unfolded f16_ops_sel])
  have e: "e < 31" using f(3) assms by simp
  have sig: "unat (f16_sig a) = S" using f(4) by (simp only: f16_sig_def f(1))
  have less: "S * 2 ^ k < 2 ^ (11 + k)" for k using f(5) by (simp add: power_add)
  have small: "S * 2 ^ k < 2 ^ 40" if "k \<le> 20" for k
    using less [of k] power_increasing [of "11 + k" 40 "2::nat"] that by linarith
  have push: "unat (push_bit k (f16_sig a)) = S * 2 ^ k" if "k \<le> 20" for k
    using small [OF that] by (subst unat_push_bit_less) (simp_all add: sig)
  have tiny: "same_cell (2 * (real S * pw2 q)) (2 * (real S / 2 ^ 12))" if "q < - 11" for q
    using that f(5) by (intro f16.tiny_cell [OF f(5)]) auto
  show "same_cell (2 * \<bar>fp_real 10 5 a\<bar>) (2 * (real (unat (f16_shifted a)) / 2 ^ 12))"
  proof (cases "e < 13")
    case True
    then have s: "unat (f16_shifted a) = S" by (simp add: f16_shifted_def f(1) sig)
    show ?thesis
    proof (cases "e = 0")
      case z: True
      show ?thesis unfolding f(8) [rule_format, OF z] s by (rule tiny) (simp add: fp_qmin_def)
    next
      case nz: False
      show ?thesis unfolding f(9) [rule_format, OF nz] s by (rule tiny) (use True in \<open>simp add: fp_qmin_def\<close>)
    qed
  next
    case False
    define k where "k = e - 13"
    have k: "int e = int k + 13" "k \<le> 20" "nat (int e - 13) = k" using False e by (simp_all add: k_def)
    have s: "unat (f16_shifted a) = S * 2 ^ k"
      unfolding f16_shifted_def f(1) k(3) using push [OF k(2)] by (cases "k = 0") (auto simp: k(1) sig)
    have "\<bar>fp_real 10 5 a\<bar> = real S * pw2 (int k - int 12)" using False f(9) by (simp add: k(1) fp_qmin_def)
    then have "\<bar>fp_real 10 5 a\<bar> = real (unat (f16_shifted a)) / 2 ^ 12" unfolding s by (simp only: pw2_diff pw2_nat) simp
    then show ?thesis by (simp only: same_cell_refl)
  qed
  show "unat (f16_shifted a) < 2 ^ 63"
  proof (cases "e < 14")
    case True
    then show ?thesis using f(5) by (simp add: f16_shifted_def f(1) sig)
  next
    case False
    moreover have "nat (int e - 13) = e - 13" by linarith
    ultimately have "unat (f16_shifted a) = S * 2 ^ (e - 13)" "e - 13 \<le> 20" using push [of "e - 13"] e
      by (simp_all add: f16_shifted_def f(1))
    then show ?thesis using small [of "e - 13"] by simp
  qed
  show "f16_shifted a = fracF16UI (ucast a)" if "expF16UI (ucast a) = 0" using that by (simp add: f16_shifted_def f16_sig_def)
  have lt16: "real S * pw2 q < 2 ^ 16" if "q \<le> 5" for q
  proof -
    have "real S < real (2 ^ 11)" using f(5) by (simp only: of_nat_less_iff) simp
    then have "real S * pw2 q < 2 ^ 11 * pw2 q" by (intro mult_strict_right_mono) simp_all
    also have "\<dots> \<le> 2 ^ 11 * pw2 5" using that by (intro mult_left_mono pw2_mono) simp_all
    finally show ?thesis by simp
  qed
  show "\<bar>fp_real 10 5 a\<bar> < 2 ^ 16"
  proof (cases "e = 0")
    case z: True
    show ?thesis unfolding f(8) [rule_format, OF z] by (rule lt16) (simp add: fp_qmin_def)
  next
    case nz: False
    show ?thesis unfolding f(9) [rule_format, OF nz] by (rule lt16) (use e in \<open>simp add: fp_qmin_def\<close>)
  qed
  assume "0x19 \<le> expF16UI (ucast a)"
  define k where "k = e - 25"
  have k: "e = k + 25" "k \<le> 5" using e \<open>0x19 \<le> expF16UI (ucast a)\<close> f(1) by (simp_all add: k_def)
  then have p: "nat (expF16UI (ucast a) - 0x19) = k" "unat (push_bit k (f16_sig a)) = S * 2 ^ k"
    by (simp_all add: f(1) push)
  show "\<bar>fp_real 10 5 a\<bar> = real (unat (push_bit (nat (expF16UI (ucast a) - 0x19)) (f16_sig a)))"
    unfolding p using f(9) by (simp add: k(1) fp_qmin_def)
  have "S * 2 ^ k < 2 ^ 16"
    using less [of k] power_increasing [of "11 + k" 16 "2::nat"] k(2) by linarith
  then show "unat (push_bit (nat (expF16UI (ucast a) - 0x19)) (f16_sig a)) < 2 ^ 16" unfolding p .
qed

locale f16_to_int = int_rounder lo' hi' R for lo' hi' :: int and R +
  fixes lo hi :: int
  assumes lo_cases: "lo' = 0 \<and> lo = 0 \<or> lo' \<le> - (2 ^ 16) \<and> lo \<le> - (2 ^ 16)"
    and hi_ge: "2 ^ 16 \<le> hi'" "2 ^ 16 \<le> hi"
begin

lemma widen:
  assumes "0 \<le> x" "x < 2 ^ 16"
  shows "int_result lo' hi' neg m exact x st = int_result lo hi neg m exact x st"
proof -
  have "0 \<le> rnd_int m neg x" "rnd_int m neg x \<le> 2 ^ 16"
    using assms rnd_int_ge [of 0 x m neg] rnd_int_le [of x "2 ^ 16" m neg] by simp_all
  then show ?thesis
    using lo_cases hi_ge unfolding int_result_def int_deliver_def int_overflow_def Let_def by auto
qed

lemma f16_rounds:
  assumes "fp_finite 10 5 a"
  shows "R (fp_neg 10 5 a) (f16_shifted a) r exact st = ieee_to_int 10 5 lo hi (int_rmode r) exact a st"
  unfolding f16.to_int_finite [OF assms] f16.sign
  using rounds_cell [OF f16_shifted_cell(2) [OF assms] f16_shifted_cell(1) [OF assms]] widen [OF _ f16_shifted_cell(3) [OF assms]] by simp

lemma f16_exact:
  assumes "fp_finite 10 5 a" "0x19 \<le> expF16UI (ucast a)" and "fp_neg 10 5 a \<Longrightarrow> lo \<noteq> 0"
  defines "n \<equiv> unat (push_bit (nat (expF16UI (ucast a) - 0x19)) (f16_sig a))"
  shows "(if fp_neg 10 5 a then - int n else int n, st) = ieee_to_int 10 5 lo hi m exact a st" and "n < 2 ^ 16"
proof -
  show n: "n < 2 ^ 16" unfolding n_def by (rule f16_shifted_cell(5) [OF assms(1,2)])
  have x: "\<bar>fp_real 10 5 a\<bar> = real n" unfolding n_def by (rule f16_shifted_cell(4) [OF assms(1,2)])
  have "int n < 2 ^ 16" using n by simp
  then show "(if fp_neg 10 5 a then - int n else int n, st) = ieee_to_int 10 5 lo hi m exact a st"
    unfolding f16.to_int_finite [OF assms(1)] f16.sign x using lo_cases hi_ge assms(3)
    by (auto simp: int_result_def int_deliver_def Let_def)
qed

end

interpretation f16_i32: f16_to_int "- (2 ^ 31)" "2 ^ 31 - 1"
  "\<lambda>neg sig r exact st. map_prod sint id (softfloat_roundToI32 neg sig r exact st)" "- (2 ^ 31)" "2 ^ 31 - 1"
  by unfold_locales simp_all

interpretation f16_i64: f16_to_int "- (2 ^ 31)" "2 ^ 31 - 1"
  "\<lambda>neg sig r exact st. map_prod sint id (softfloat_roundToI32 neg sig r exact st)" "- (2 ^ 63)" "2 ^ 63 - 1"
  by unfold_locales simp_all

interpretation f16_ui32: f16_to_int 0 "2 ^ 32 - 1"
  "\<lambda>neg sig r exact st. map_prod uint id (softfloat_roundToUI32 neg sig r exact st)" 0 "2 ^ 32 - 1"
  by unfold_locales simp_all

interpretation f16_ui64: f16_to_int 0 "2 ^ 32 - 1"
  "\<lambda>neg sig r exact st. map_prod uint id (softfloat_roundToUI32 neg sig r exact st)" 0 "2 ^ 64 - 1"
  by unfold_locales simp_all

lemma sint_small:
  fixes w :: uint64_t
  assumes "unat w < 2 ^ 16"
  shows "sint (if neg then - w else w) = (if neg then - int (unat w) else int (unat w))"
proof -
  define k where "k = int (unat w)"
  have "k < int (2 ^ 16)" unfolding k_def using assms by (simp only: of_nat_less_iff)
  moreover have "0 \<le> k" unfolding k_def by (rule of_nat_0_le_iff)
  ultimately show ?thesis using signed_check(2) [of neg w] unfolding k_def [symmetric] by auto
qed

text \<open>The four conversions differ in their results for infinities and NaNs and in the exact case.\<close>

lemma f16_finite_exp:
  fixes a :: float16_t
  shows "fp_finite 10 5 a \<Longrightarrow> expF16UI (ucast a) \<noteq> 2 ^ 5 - 1" "\<not> fp_finite 10 5 a \<Longrightarrow> expF16UI (ucast a) = 2 ^ 5 - 1"
  using f16.exp_max_iff [of a] by simp_all

lemma f16_to_signed_spec:
  "map_prod sint id (f16_to_i32 a r exact st) = ieee_to_int 10 5 (- (2 ^ 31)) (2 ^ 31 - 1) (int_rmode r) exact a st"
  "map_prod sint id (f16_to_i64 a r exact st) = ieee_to_int 10 5 (- (2 ^ 63)) (2 ^ 63 - 1) (int_rmode r) exact a st"
proof -
  let ?e = "expF16UI (ucast a)"
  have code: "(if ?e \<noteq> 0 then if 0 \<le> ?e - 0x19
        then (if signF16UI (ucast a) then - push_bit (nat (?e - 0x19)) (fracF16UI (ucast a) OR 2 ^ 10)
          else push_bit (nat (?e - 0x19)) (fracF16UI (ucast a) OR 2 ^ 10), st)
        else softfloat_roundToI32 (signF16UI (ucast a)) (if 0 < ?e - 0x0D
          then push_bit (nat (?e - 0x0D)) (fracF16UI (ucast a) OR 2 ^ 10) else fracF16UI (ucast a) OR 2 ^ 10) r exact st
      else softfloat_roundToI32 (signF16UI (ucast a)) (fracF16UI (ucast a)) r exact st) =
    (if 0x19 \<le> ?e then (if fp_neg 10 5 a then - push_bit (nat (?e - 0x19)) (f16_sig a)
        else push_bit (nat (?e - 0x19)) (f16_sig a), st)
     else softfloat_roundToI32 (fp_neg 10 5 a) (f16_shifted a) r exact st)"
    unfolding f16_shifted_def f16_sig_def f16_fields(1) by auto
  have exact: "map_prod sint id (if fp_neg 10 5 a then - w else w, st) = (if fp_neg 10 5 a then - int (unat w) else int (unat w), st)"
    if "unat w < 2 ^ 16" for w :: uint64_t using sint_small [OF that, of "fp_neg 10 5 a"] by simp
  note fin = f16_finite_exp [of a]
  show "map_prod sint id (f16_to_i32 a r exact st) = ieee_to_int 10 5 (- (2 ^ 31)) (2 ^ 31 - 1) (int_rmode r) exact a st"
  proof (cases "fp_finite 10 5 a")
    case True
    show ?thesis
      unfolding f16_to_i32_def Let_def f16_consts if_not_P [OF fin(1) [OF True]] code
      using f16_i32.f16_rounds [OF True] f16_i32.f16_exact [OF True] exact by (cases "0x19 \<le> ?e") simp_all
  next
    case False
    show ?thesis unfolding f16_to_i32_def Let_def f16_consts if_P [OF fin(2) [OF False]] overflow_result
      using f16.to_int_special [OF False] by simp
  qed
  show "map_prod sint id (f16_to_i64 a r exact st) = ieee_to_int 10 5 (- (2 ^ 63)) (2 ^ 63 - 1) (int_rmode r) exact a st"
  proof (cases "fp_finite 10 5 a")
    case True
    show ?thesis
      unfolding f16_to_i64_def Let_def f16_consts if_not_P [OF fin(1) [OF True]] code
      using f16_i64.f16_rounds [OF True] f16_i64.f16_exact [OF True] exact by (cases "0x19 \<le> ?e") simp_all
  next
    case False
    show ?thesis unfolding f16_to_i64_def Let_def f16_consts if_P [OF fin(2) [OF False]] overflow_result
      using f16.to_int_special [OF False] by simp
  qed
qed

lemma f16_to_unsigned_spec:
  "map_prod uint id (f16_to_ui32 a r exact st) = ieee_to_int 10 5 0 (2 ^ 32 - 1) (int_rmode r) exact a st"
  "map_prod uint id (f16_to_ui64 a r exact st) = ieee_to_int 10 5 0 (2 ^ 64 - 1) (int_rmode r) exact a st"
proof -
  let ?e = "expF16UI (ucast a)"
  have code: "(if ?e \<noteq> 0 then if 0 \<le> ?e - 0x19 \<and> \<not> signF16UI (ucast a)
        then (push_bit (nat (?e - 0x19)) (fracF16UI (ucast a) OR 2 ^ 10), st)
        else softfloat_roundToUI32 (signF16UI (ucast a)) (if 0 < ?e - 0x0D
          then push_bit (nat (?e - 0x0D)) (fracF16UI (ucast a) OR 2 ^ 10) else fracF16UI (ucast a) OR 2 ^ 10) r exact st
      else softfloat_roundToUI32 (signF16UI (ucast a)) (fracF16UI (ucast a)) r exact st) =
    (if 0x19 \<le> ?e \<and> \<not> fp_neg 10 5 a then (push_bit (nat (?e - 0x19)) (f16_sig a), st)
     else softfloat_roundToUI32 (fp_neg 10 5 a) (f16_shifted a) r exact st)"
    unfolding f16_shifted_def f16_sig_def f16_fields(1) by auto
  note fin = f16_finite_exp [of a]
  show "map_prod uint id (f16_to_ui32 a r exact st) = ieee_to_int 10 5 0 (2 ^ 32 - 1) (int_rmode r) exact a st"
  proof (cases "fp_finite 10 5 a")
    case True
    show ?thesis
      unfolding f16_to_ui32_def Let_def f16_consts if_not_P [OF fin(1) [OF True]] code
      using f16_ui32.f16_rounds [OF True] f16_ui32.f16_exact [OF True] by (cases "0x19 \<le> ?e \<and> \<not> fp_neg 10 5 a") auto
  next
    case False
    show ?thesis unfolding f16_to_ui32_def Let_def f16_consts if_P [OF fin(2) [OF False]] overflow_result
      using f16.to_int_special [OF False] by simp
  qed
  show "map_prod uint id (f16_to_ui64 a r exact st) = ieee_to_int 10 5 0 (2 ^ 64 - 1) (int_rmode r) exact a st"
  proof (cases "fp_finite 10 5 a")
    case True
    show ?thesis
      unfolding f16_to_ui64_def Let_def f16_consts if_not_P [OF fin(1) [OF True]] code
      using f16_ui64.f16_rounds [OF True] f16_ui64.f16_exact [OF True] by (cases "0x19 \<le> ?e \<and> \<not> fp_neg 10 5 a") auto
  next
    case False
    show ?thesis unfolding f16_to_ui64_def Let_def f16_consts if_P [OF fin(2) [OF False]] overflow_result
      using f16.to_int_special [OF False] by simp
  qed
qed

section \<open>Correctness\<close>


end
