(* ===== verification/SF_ToIntTrunc.thy ===== *)
theory SF_ToIntTrunc
  imports SF_ToInt
begin

text \<open>
  Conversions to integers that truncate, whatever the rounding mode is:
  \<^verbatim>\<open>f16/f32/f64_to_i32_r_minMag.c\<close>, \<^verbatim>\<open>_to_ui32_r_minMag.c\<close>, \<^verbatim>\<open>_to_i64_r_minMag.c\<close> and
  \<^verbatim>\<open>_to_ui64_r_minMag.c\<close>.
\<close>

section \<open>The conversions\<close>

text \<open>The statement \<^verbatim>\<open>if ( exact && c ) softfloat_exceptionFlags |= softfloat_flag_inexact\<close>.\<close>

abbreviation raise_inexact :: "bool \<Rightarrow> sf_state \<Rightarrow> sf_state" where
  "raise_inexact c st \<equiv> (if c then softfloat_raiseFlags softfloat_flag_inexact st else st)"

definition f16_to_i32_r_minMag :: "float16_t \<Rightarrow> bool \<Rightarrow> sf_state \<Rightarrow> int_fast32_t \<times> sf_state" where
  "f16_to_i32_r_minMag a exact st =
     (let exp_a = expF16UI (ucast a);
          frac = fracF16UI (ucast a);
          shiftDist = exp_a - 0x0F
      in if shiftDist < 0 then (0, raise_inexact (exact \<and> word_of_int exp_a OR frac \<noteq> 0) st)
         else
           let sign = signF16UI (ucast a)
           in if exp_a = 0x1F then
                (if exp_a = 0x1F \<and> frac \<noteq> 0 then i32_fromNaN else if sign then i32_fromNegOverflow else i32_fromPosOverflow,
                 softfloat_raiseFlags softfloat_flag_invalid st)
              else
                let alignedSig = push_bit (nat shiftDist) (frac OR 0x0400);
                    st = raise_inexact (exact \<and> alignedSig AND 0x3FF \<noteq> 0) st;
                    alignedSig = drop_bit 10 alignedSig
                in (if sign then - alignedSig else alignedSig, st))"

definition f16_to_ui32_r_minMag :: "float16_t \<Rightarrow> bool \<Rightarrow> sf_state \<Rightarrow> uint_fast32_t \<times> sf_state" where
  "f16_to_ui32_r_minMag a exact st =
     (let exp_a = expF16UI (ucast a);
          frac = fracF16UI (ucast a);
          shiftDist = exp_a - 0x0F
      in if shiftDist < 0 then (0, raise_inexact (exact \<and> word_of_int exp_a OR frac \<noteq> 0) st)
         else
           let sign = signF16UI (ucast a)
           in if sign \<or> exp_a = 0x1F then
                (if exp_a = 0x1F \<and> frac \<noteq> 0 then ui32_fromNaN else if sign then ui32_fromNegOverflow else ui32_fromPosOverflow,
                 softfloat_raiseFlags softfloat_flag_invalid st)
              else
                let alignedSig = push_bit (nat shiftDist) (frac OR 0x0400);
                    st = raise_inexact (exact \<and> alignedSig AND 0x3FF \<noteq> 0) st
                in (drop_bit 10 alignedSig, st))"

definition f16_to_i64_r_minMag :: "float16_t \<Rightarrow> bool \<Rightarrow> sf_state \<Rightarrow> int_fast64_t \<times> sf_state" where
  "f16_to_i64_r_minMag a exact st =
     (let exp_a = expF16UI (ucast a);
          frac = fracF16UI (ucast a);
          shiftDist = exp_a - 0x0F
      in if shiftDist < 0 then (0, raise_inexact (exact \<and> word_of_int exp_a OR frac \<noteq> 0) st)
         else
           let sign = signF16UI (ucast a)
           in if exp_a = 0x1F then
                (if exp_a = 0x1F \<and> frac \<noteq> 0 then i64_fromNaN else if sign then i64_fromNegOverflow else i64_fromPosOverflow,
                 softfloat_raiseFlags softfloat_flag_invalid st)
              else
                let alignedSig = push_bit (nat shiftDist) (frac OR 0x0400);
                    st = raise_inexact (exact \<and> alignedSig AND 0x3FF \<noteq> 0) st;
                    alignedSig = drop_bit 10 alignedSig
                in (if sign then - alignedSig else alignedSig, st))"

definition f16_to_ui64_r_minMag :: "float16_t \<Rightarrow> bool \<Rightarrow> sf_state \<Rightarrow> uint_fast64_t \<times> sf_state" where
  "f16_to_ui64_r_minMag a exact st =
     (let exp_a = expF16UI (ucast a);
          frac = fracF16UI (ucast a);
          shiftDist = exp_a - 0x0F
      in if shiftDist < 0 then (0, raise_inexact (exact \<and> word_of_int exp_a OR frac \<noteq> 0) st)
         else
           let sign = signF16UI (ucast a)
           in if sign \<or> exp_a = 0x1F then
                (if exp_a = 0x1F \<and> frac \<noteq> 0 then ui64_fromNaN else if sign then ui64_fromNegOverflow else ui64_fromPosOverflow,
                 softfloat_raiseFlags softfloat_flag_invalid st)
              else
                let alignedSig = push_bit (nat shiftDist) (frac OR 0x0400);
                    st = raise_inexact (exact \<and> alignedSig AND 0x3FF \<noteq> 0) st
                in (drop_bit 10 alignedSig, st))"

definition f32_to_i32_r_minMag :: "float32_t \<Rightarrow> bool \<Rightarrow> sf_state \<Rightarrow> int_fast32_t \<times> sf_state" where
  "f32_to_i32_r_minMag a exact st =
     (let exp_a = expF32UI (ucast a);
          sig = fracF32UI (ucast a);
          shiftDist = 0x9E - exp_a
      in if 32 \<le> shiftDist then (0, raise_inexact (exact \<and> word_of_int exp_a OR sig \<noteq> 0) st)
         else
           let sign = signF32UI (ucast a)
           in if shiftDist \<le> 0 then
                if ucast a = packToF32UI True 0x9E 0 then (- 0x7FFFFFFF - 1, st)
                else (if exp_a = 0xFF \<and> sig \<noteq> 0 then i32_fromNaN else if sign then i32_fromNegOverflow else i32_fromPosOverflow,
                      softfloat_raiseFlags softfloat_flag_invalid st)
              else
                let sig = push_bit 8 (sig OR 0x00800000);
                    absZ = drop_bit (nat shiftDist) sig;
                    st = raise_inexact (exact \<and> push_bit (nat shiftDist) absZ \<noteq> sig) st
                in (if sign then - absZ else absZ, st))"

definition f32_to_ui32_r_minMag :: "float32_t \<Rightarrow> bool \<Rightarrow> sf_state \<Rightarrow> uint_fast32_t \<times> sf_state" where
  "f32_to_ui32_r_minMag a exact st =
     (let exp_a = expF32UI (ucast a);
          sig = fracF32UI (ucast a);
          shiftDist = 0x9E - exp_a
      in if 32 \<le> shiftDist then (0, raise_inexact (exact \<and> word_of_int exp_a OR sig \<noteq> 0) st)
         else
           let sign = signF32UI (ucast a)
           in if sign \<or> shiftDist < 0 then
                (if exp_a = 0xFF \<and> sig \<noteq> 0 then ui32_fromNaN else if sign then ui32_fromNegOverflow else ui32_fromPosOverflow,
                 softfloat_raiseFlags softfloat_flag_invalid st)
              else
                let sig = push_bit 8 (sig OR 0x00800000);
                    z = drop_bit (nat shiftDist) sig;
                    st = raise_inexact (exact \<and> push_bit (nat shiftDist) z \<noteq> sig) st
                in (z, st))"

definition f32_to_i64_r_minMag :: "float32_t \<Rightarrow> bool \<Rightarrow> sf_state \<Rightarrow> int_fast64_t \<times> sf_state" where
  "f32_to_i64_r_minMag a exact st =
     (let exp_a = expF32UI (ucast a);
          sig = fracF32UI (ucast a);
          shiftDist = 0xBE - exp_a
      in if 64 \<le> shiftDist then (0, raise_inexact (exact \<and> word_of_int exp_a OR sig \<noteq> 0) st)
         else
           let sign = signF32UI (ucast a)
           in if shiftDist \<le> 0 then
                if ucast a = packToF32UI True 0xBE 0 then (- 0x7FFFFFFFFFFFFFFF - 1, st)
                else (if exp_a = 0xFF \<and> sig \<noteq> 0 then i64_fromNaN else if sign then i64_fromNegOverflow else i64_fromPosOverflow,
                      softfloat_raiseFlags softfloat_flag_invalid st)
              else
                let sig = sig OR 0x00800000;
                    sig64 = push_bit 40 sig;
                    absZ = drop_bit (nat shiftDist) sig64;
                    shiftDist = 40 - shiftDist;
                    st = raise_inexact (exact \<and> shiftDist < 0 \<and> (ucast (push_bit (nat (shiftDist AND 31)) sig) :: uint32_t) \<noteq> 0) st
                in (if sign then - absZ else absZ, st))"

definition f32_to_ui64_r_minMag :: "float32_t \<Rightarrow> bool \<Rightarrow> sf_state \<Rightarrow> uint_fast64_t \<times> sf_state" where
  "f32_to_ui64_r_minMag a exact st =
     (let exp_a = expF32UI (ucast a);
          sig = fracF32UI (ucast a);
          shiftDist = 0xBE - exp_a
      in if 64 \<le> shiftDist then (0, raise_inexact (exact \<and> word_of_int exp_a OR sig \<noteq> 0) st)
         else
           let sign = signF32UI (ucast a)
           in if sign \<or> shiftDist < 0 then
                (if exp_a = 0xFF \<and> sig \<noteq> 0 then ui64_fromNaN else if sign then ui64_fromNegOverflow else ui64_fromPosOverflow,
                 softfloat_raiseFlags softfloat_flag_invalid st)
              else
                let sig = sig OR 0x00800000;
                    sig64 = push_bit 40 sig;
                    z = drop_bit (nat shiftDist) sig64;
                    shiftDist = 40 - shiftDist;
                    st = raise_inexact (exact \<and> shiftDist < 0 \<and> (ucast (push_bit (nat (shiftDist AND 31)) sig) :: uint32_t) \<noteq> 0) st
                in (z, st))"

definition f64_to_i32_r_minMag :: "float64_t \<Rightarrow> bool \<Rightarrow> sf_state \<Rightarrow> int_fast32_t \<times> sf_state" where
  "f64_to_i32_r_minMag a exact st =
     (let exp_a = expF64UI a;
          sig = fracF64UI a;
          shiftDist = 0x433 - exp_a
      in if 53 \<le> shiftDist then (0, raise_inexact (exact \<and> word_of_int exp_a OR sig \<noteq> 0) st)
         else
           let sign = signF64UI a
           in if shiftDist < 22 then
                if sign \<and> exp_a = 0x41E \<and> sig < 0x0000000000200000
                then (- 0x7FFFFFFF - 1, raise_inexact (exact \<and> sig \<noteq> 0) st)
                else (if exp_a = 0x7FF \<and> sig \<noteq> 0 then i32_fromNaN else if sign then i32_fromNegOverflow else i32_fromPosOverflow,
                      softfloat_raiseFlags softfloat_flag_invalid st)
              else
                let sig = sig OR 0x0010000000000000;
                    absZ = drop_bit (nat shiftDist) sig;
                    st = raise_inexact (exact \<and> push_bit (nat shiftDist) absZ \<noteq> sig) st
                in (if sign then - absZ else absZ, st))"

definition f64_to_ui32_r_minMag :: "float64_t \<Rightarrow> bool \<Rightarrow> sf_state \<Rightarrow> uint_fast32_t \<times> sf_state" where
  "f64_to_ui32_r_minMag a exact st =
     (let exp_a = expF64UI a;
          sig = fracF64UI a;
          shiftDist = 0x433 - exp_a
      in if 53 \<le> shiftDist then (0, raise_inexact (exact \<and> word_of_int exp_a OR sig \<noteq> 0) st)
         else
           let sign = signF64UI a
           in if sign \<or> shiftDist < 21 then
                (if exp_a = 0x7FF \<and> sig \<noteq> 0 then ui32_fromNaN else if sign then ui32_fromNegOverflow else ui32_fromPosOverflow,
                 softfloat_raiseFlags softfloat_flag_invalid st)
              else
                let sig = sig OR 0x0010000000000000;
                    z = drop_bit (nat shiftDist) sig;
                    st = raise_inexact (exact \<and> push_bit (nat shiftDist) z \<noteq> sig) st
                in (z, st))"

definition f64_to_i64_r_minMag :: "float64_t \<Rightarrow> bool \<Rightarrow> sf_state \<Rightarrow> int_fast64_t \<times> sf_state" where
  "f64_to_i64_r_minMag a exact st =
     (let sign = signF64UI a;
          exp_a = expF64UI a;
          sig = fracF64UI a;
          shiftDist = 0x433 - exp_a
      in if shiftDist \<le> 0 then
           if shiftDist < - 10 then
             if a = packToF64UI True 0x43E 0 then (- 0x7FFFFFFFFFFFFFFF - 1, st)
             else (if exp_a = 0x7FF \<and> sig \<noteq> 0 then i64_fromNaN else if sign then i64_fromNegOverflow else i64_fromPosOverflow,
                   softfloat_raiseFlags softfloat_flag_invalid st)
           else
             let sig = sig OR 0x0010000000000000;
                 absZ = push_bit (nat (- shiftDist)) sig
             in (if sign then - absZ else absZ, st)
         else if 53 \<le> shiftDist then (0, raise_inexact (exact \<and> word_of_int exp_a OR sig \<noteq> 0) st)
         else
           let sig = sig OR 0x0010000000000000;
               absZ = drop_bit (nat shiftDist) sig;
               st = raise_inexact (exact \<and> push_bit (nat shiftDist) absZ \<noteq> sig) st
           in (if sign then - absZ else absZ, st))"

definition f64_to_ui64_r_minMag :: "float64_t \<Rightarrow> bool \<Rightarrow> sf_state \<Rightarrow> uint_fast64_t \<times> sf_state" where
  "f64_to_ui64_r_minMag a exact st =
     (let exp_a = expF64UI a;
          sig = fracF64UI a;
          shiftDist = 0x433 - exp_a;
          sign = signF64UI a;
          invalid =
           (if exp_a = 0x7FF \<and> sig \<noteq> 0 then ui64_fromNaN else if sign then ui64_fromNegOverflow else ui64_fromPosOverflow,
            softfloat_raiseFlags softfloat_flag_invalid st)
      in if 53 \<le> shiftDist then (0, raise_inexact (exact \<and> word_of_int exp_a OR sig \<noteq> 0) st)
         else if sign then invalid
         else if shiftDist \<le> 0 then
           if shiftDist < - 11 then invalid
           else (push_bit (nat (- shiftDist)) (sig OR 0x0010000000000000), st)
         else
           let sig = sig OR 0x0010000000000000;
               z = drop_bit (nat shiftDist) sig;
               st = raise_inexact (exact \<and> push_bit (nat (- shiftDist AND 63)) sig \<noteq> 0) st
           in (z, st))"

section \<open>Truncating an operand\<close>

lemma rnd_int_TowardZero: "rnd_int TowardZero neg x = \<lfloor>x\<rfloor>"
  by (simp add: rnd_int_def Let_def)

lemma int_result_trunc:
  "int_result lo hi neg TowardZero exact (real n / 2 ^ d) st =
     int_deliver lo hi neg (int (n div 2 ^ d)) (exact \<and> n mod 2 ^ d \<noteq> 0) st"
proof -
  have "\<lfloor>real n / 2 ^ d\<rfloor> = int (n div 2 ^ d)" using floor_divide_of_nat_eq [of n "2 ^ d"] by simp
  then show ?thesis by (simp only: int_result_def rnd_int_TowardZero of_nat_Ints_divide)
qed

lemma int_deliver_fits:
  "\<lbrakk>neg \<Longrightarrow> n \<le> - lo; \<not> neg \<Longrightarrow> n \<le> hi; 0 \<le> n; lo \<le> 0; 0 \<le> hi\<rbrakk> \<Longrightarrow>
     int_deliver lo hi neg n c st = (if neg then - n else n, raise_inexact c st)"
  by (auto simp: int_deliver_def Let_def)

lemma int_deliver_overflows:
  "\<lbrakk>neg \<Longrightarrow> - lo < n; \<not> neg \<Longrightarrow> hi < n\<rbrakk> \<Longrightarrow> int_deliver lo hi neg n c st = int_overflow lo hi neg st"
  by (auto simp: int_deliver_def Let_def)

lemma push_drop_neq:
  fixes w :: "'a::len word"
  shows "push_bit d (drop_bit d w) \<noteq> w \<longleftrightarrow> unat w mod 2 ^ d \<noteq> 0"
proof -
  have "unat w div 2 ^ d * 2 ^ d \<le> unat w" by (simp add: div_times_less_eq_dividend)
  then have "unat w div 2 ^ d * 2 ^ d < 2 ^ LENGTH('a)" using unat_lt_2p [of w] by (rule le_less_trans)
  then have "unat (push_bit d (drop_bit d w)) = unat w div 2 ^ d * 2 ^ d"
    by (subst unat_push_bit_less) (simp_all only: unat_drop_bit)
  then show ?thesis unfolding word_eq_unat using div_mult_mod_eq [of "unat w" "2 ^ d"] by linarith
qed

context sf_format
begin

definition binary_point :: int where
  "binary_point = 2 ^ (eb - 1) - 1 + int fb"

lemma trunc_cases:
  fixes a :: "'w word"
  obtains (small) "o_exp ops (ucast a) < 2 ^ (eb - 1) - 1" "0 \<le> o_exp ops (ucast a)" "fp_finite fb eb a" "\<bar>fp_real fb eb a\<bar> < 1"
  | (special) "o_exp ops (ucast a) = 2 ^ eb - 1" "\<not> fp_finite fb eb a"
  | (normal) e S where "o_exp ops (ucast a) = int e" "2 ^ (eb - 1) - 1 \<le> int e" "int e < 2 ^ eb - 1" "fp_finite fb eb a"
    "unat (o_frac ops (ucast a) OR 2 ^ fb) = S" "2 ^ fb \<le> S" "S < 2 ^ (fb + 1)"
    "\<bar>fp_real fb eb a\<bar> = real S * pw2 (int e - binary_point)"
proof -
  obtain e S where f: "o_exp ops (ucast a) = int e" "e < 2 ^ eb" "fp_finite fb eb a \<longleftrightarrow> e < 2 ^ eb - 1"
    "unat (if int e \<noteq> 0 then o_frac ops (ucast a) OR 2 ^ fb else o_frac ops (ucast a)) = S" "S < 2 ^ (fb + 1)"
    "e \<noteq> 0 \<longrightarrow> 2 ^ fb \<le> S" "e = 0 \<longrightarrow> S < 2 ^ fb"
    "e = 0 \<longrightarrow> \<bar>fp_real fb eb a\<bar> = real S * pw2 (fp_qmin fb eb)"
    "e \<noteq> 0 \<longrightarrow> \<bar>fp_real fb eb a\<bar> = real S * pw2 (int e + fp_qmin fb eb - 1)"
    by (rule operand [of a])
  have two: "(2::int) ^ eb = 2 * 2 ^ (eb - 1)" using eb_ge by (simp flip: power_Suc)
  have two': "(2::int) ^ 1 \<le> 2 ^ (eb - 1)" using eb_ge by (intro power_increasing) auto
  consider "\<not> fp_finite fb eb a" | "int e < 2 ^ (eb - 1) - 1" | "fp_finite fb eb a" "2 ^ (eb - 1) - 1 \<le> int e" by linarith
  then show ?thesis
  proof cases
    case 1
    then show ?thesis using special max_field [OF f(2)] f(1,3) by simp
  next
    case 2
    then have "int e < 2 ^ eb - 1" using two two' by linarith
    then have fin: "fp_finite fb eb a" using f(3) max_field [OF f(2)] by auto
    have "real S < real (2 ^ (fb + 1))" using f(5) by (simp only: of_nat_less_iff)
    then have "real S < 2 ^ (fb + 1)" by simp
    then have S: "real S * pw2 q < pw2 (int (fb + 1)) * pw2 q" for q
      by (intro mult_strict_right_mono) (simp_all only: pw2_nat pw2_pos)
    have lt: "real S * pw2 q < 1" if "int fb + 1 + q \<le> 0" for q
    proof -
      have "pw2 (int (fb + 1)) * pw2 q = pw2 (int fb + 1 + q)" by (simp add: pw2_add)
      also have "\<dots> \<le> pw2 0" using that by (intro pw2_mono)
      finally show ?thesis using S [of q] by (simp only: power_int_0_right less_le_trans)
    qed
    have "\<bar>fp_real fb eb a\<bar> < 1"
    proof (cases "e = 0")
      case True
      have "real S < real (2 ^ fb)" using f(7) True by (simp only: of_nat_less_iff)
      then have "real S * pw2 (fp_qmin fb eb) < pw2 (int fb) * pw2 (fp_qmin fb eb)" by (intro mult_strict_right_mono) simp_all
      also have "\<dots> = pw2 (int fb + fp_qmin fb eb)" by (simp only: pw2_add)
      also have "\<dots> \<le> pw2 0" using two' by (intro pw2_mono) (simp add: fp_qmin_def)
      finally show ?thesis using f(8) True by simp
    next
      case False
      then show ?thesis using f(9) 2 by (simp add: lt fp_qmin_def)
    qed
    then show ?thesis using small 2 fin f(1) by simp
  next
    case 3
    then have "e \<noteq> 0" using two' by auto
    then have "\<bar>fp_real fb eb a\<bar> = real S * pw2 (int e - binary_point)" using f(9) by (simp add: binary_point_def fp_qmin_def algebra_simps)
    moreover have "int e < int (2 ^ eb - 1)" using 3(1) f(3) by (simp only: of_nat_less_iff)
    then have "int e < 2 ^ eb - 1" by (simp add: of_nat_diff)
    ultimately show ?thesis using normal [of e S] 3 f \<open>e \<noteq> 0\<close> by simp
  qed
qed

text \<open>The result in each of the cases.\<close>

lemma trunc_small:
  assumes "fp_finite fb eb a" "\<bar>fp_real fb eb a\<bar> < 1" "lo \<le> 0" "0 \<le> hi"
  shows "(0, raise_inexact (exact \<and> (word_of_int (o_exp ops (ucast (a :: 'w word))) :: uint64_t) OR o_frac ops (ucast a) \<noteq> 0) st) =
    ieee_to_int fb eb lo hi TowardZero exact a st"
proof -
  have n: "\<lfloor>\<bar>fp_real fb eb a\<bar>\<rfloor> = 0" using assms(2) by (simp add: floor_eq_iff)
  have "fp_mag fb eb (fp_magbits fb eb a) = 0 \<longleftrightarrow> fp_magbits fb eb a = 0"
  proof
    assume "fp_mag fb eb (fp_magbits fb eb a) = 0"
    then show "fp_magbits fb eb a = 0" using mag_quantum(1) [of "fp_magbits fb eb a"] by fastforce
  qed (simp add: fp_mag_def)
  then have z: "\<bar>fp_real fb eb a\<bar> = 0 \<longleftrightarrow> fp_magbits fb eb a = 0" by (simp only: abs_real)
  have "\<bar>fp_real fb eb a\<bar> \<in> \<int> \<longleftrightarrow> \<bar>fp_real fb eb a\<bar> = 0"
  proof
    assume "\<bar>fp_real fb eb a\<bar> \<in> \<int>"
    then obtain k where "\<bar>fp_real fb eb a\<bar> = of_int k" by (elim Ints_cases)
    then show "\<bar>fp_real fb eb a\<bar> = 0" using n by simp
  qed simp
  then have "\<bar>fp_real fb eb a\<bar> \<notin> \<int> \<longleftrightarrow> (word_of_int (o_exp ops (ucast a)) :: uint64_t) OR o_frac ops (ucast a) \<noteq> 0"
    by (simp only: z magBits_0_iff)
  then show ?thesis
    unfolding to_int_finite [OF assms(1)] int_result_def rnd_int_TowardZero n
    using assms(3,4) by (subst int_deliver_fits) simp_all
qed

lemma trunc_special:
  assumes "o_exp ops (ucast (a :: 'w word)) = 2 ^ eb - 1" "\<not> fp_finite fb eb a"
  shows "int_overflow lo hi (if o_exp ops (ucast a) = 2 ^ eb - 1 \<and> o_frac ops (ucast a) \<noteq> 0 then False
      else o_sign ops (ucast a)) st = ieee_to_int fb eb lo hi m exact a st"
  using assms(1) to_int_special [OF assms(2)] by simp

lemma trunc_right:
  assumes "fp_finite fb eb (a :: 'w word)" "\<bar>fp_real fb eb a\<bar> = real S * pw2 (int e - binary_point)"
    and "int d = binary_point + int L - int e"
  shows "ieee_to_int fb eb lo hi TowardZero exact a st =
    int_deliver lo hi (o_sign ops (ucast a)) (int (S * 2 ^ L div 2 ^ d)) (exact \<and> S * 2 ^ L mod 2 ^ d \<noteq> 0) st"
proof -
  have "int e - binary_point = int L - int d" using assms(3) by simp
  then have "\<bar>fp_real fb eb a\<bar> = real (S * 2 ^ L) / 2 ^ d" unfolding assms(2) by (simp only: pw2_diff pw2_nat) simp
  then show ?thesis by (simp only: to_int_finite [OF assms(1)] int_result_trunc)
qed

lemma trunc_overflow:
  assumes "fp_finite fb eb (a :: 'w word)" "\<bar>fp_real fb eb a\<bar> = real S * pw2 (int e - binary_point)" "2 ^ fb \<le> S"
    and "o_exp ops (ucast a) = int e" "int e < 2 ^ eb - 1" "2 ^ (eb - 1) - 1 + int k \<le> int e"
    and "o_sign ops (ucast a) \<Longrightarrow> - lo < 2 ^ k" "\<not> o_sign ops (ucast a) \<Longrightarrow> hi < 2 ^ k"
  shows "int_overflow lo hi (if o_exp ops (ucast a) = 2 ^ eb - 1 \<and> o_frac ops (ucast a) \<noteq> 0 then False
      else o_sign ops (ucast a)) st = ieee_to_int fb eb lo hi TowardZero exact a st"
proof -
  have "(2::real) ^ k = pw2 (int k)" by (simp only: pw2_nat)
  also have "\<dots> \<le> pw2 (int fb + (int e - binary_point))" using assms(6) by (intro pw2_mono) (simp add: binary_point_def)
  also have "\<dots> = real (2 ^ fb) * pw2 (int e - binary_point)" by (simp only: pw2_add pw2_nat of_nat_power of_nat_numeral)
  also have "\<dots> \<le> \<bar>fp_real fb eb a\<bar>"
    unfolding assms(2) using assms(3) by (intro mult_right_mono) (simp_all only: of_nat_le_iff, simp)
  finally have "2 ^ k \<le> \<lfloor>\<bar>fp_real fb eb a\<bar>\<rfloor>" by (simp add: le_floor_iff)
  then show ?thesis
    unfolding to_int_finite [OF assms(1)] int_result_def rnd_int_TowardZero
    using assms(4,5,7,8) by (subst int_deliver_overflows) (auto intro: less_le_trans)
qed

text \<open>Results that fit, as the code builds them.\<close>

lemma trunc_bound:
  fixes S :: nat
  assumes "S < 2 ^ (fb + 1)" "int d = binary_point + int L - int e" "int e < 2 ^ (eb - 1) - 1 + int k"
  shows "S * 2 ^ L div 2 ^ d < 2 ^ k"
proof -
  have "S * 2 ^ L < 2 ^ (fb + 1) * 2 ^ L" using assms(1) by simp
  also have "\<dots> = 2 ^ (fb + 1 + L)" by (simp add: power_add)
  also have "\<dots> \<le> 2 ^ (k + d)" using assms(2,3) by (intro power_increasing) (simp_all add: binary_point_def)
  finally show ?thesis by (intro less_mult_imp_div_less) (simp add: power_add)
qed

lemma trunc_signed:
  assumes "fp_finite fb eb (a :: 'w word)" "\<bar>fp_real fb eb a\<bar> = real S * pw2 (int e - binary_point)" "S < 2 ^ (fb + 1)"
    and d: "int d = binary_point + int L - int e" "int e < 2 ^ (eb - 1) - 1 + int k" and "k \<le> 63"
    and w: "unat (w :: uint64_t) = S * 2 ^ L" "c \<longleftrightarrow> exact \<and> unat w mod 2 ^ d \<noteq> 0" "neg = o_sign ops (ucast a)"
  shows "map_prod sint id (if neg then - drop_bit d w else drop_bit d w, raise_inexact c st) =
    ieee_to_int fb eb (- (2 ^ k)) (2 ^ k - 1) TowardZero exact a st"
proof -
  define n where "n = int (S * 2 ^ L div 2 ^ d)"
  have "S * 2 ^ L div 2 ^ d < 2 ^ k" by (rule trunc_bound [OF assms(3) d])
  then have "n < int (2 ^ k)" unfolding n_def by (simp only: of_nat_less_iff)
  then have n: "0 \<le> n" "n < 2 ^ k" by (simp_all add: n_def)
  have "(2::int) ^ k \<le> 2 ^ (LENGTH(64) - 1)" using \<open>k \<le> 63\<close> by (intro power_increasing) auto
  with n(2) have lt: "n < 2 ^ (LENGTH(64) - 1)" by (rule less_le_trans)
  have z: "int (unat (drop_bit d w)) = n" by (simp only: unat_drop_bit w(1) n_def)
  have "sint (if neg then - drop_bit d w else drop_bit d w) = (if neg then - n else n)"
    using signed_check(2) [of neg "drop_bit d w", unfolded z] n(1) lt by auto
  then show ?thesis
    unfolding trunc_right [OF assms(1,2) d(1)] n_def [symmetric] w(2) w(1) w(3) [symmetric]
    using n by (subst int_deliver_fits) simp_all
qed

lemma trunc_unsigned:
  assumes "fp_finite fb eb (a :: 'w word)" "\<bar>fp_real fb eb a\<bar> = real S * pw2 (int e - binary_point)" "S < 2 ^ (fb + 1)"
    and d: "int d = binary_point + int L - int e" "int e < 2 ^ (eb - 1) - 1 + int k"
    and w: "unat (w :: uint64_t) = S * 2 ^ L" "c \<longleftrightarrow> exact \<and> unat w mod 2 ^ d \<noteq> 0" "\<not> o_sign ops (ucast a)"
  shows "map_prod uint id (drop_bit d w, raise_inexact c st) =
    ieee_to_int fb eb 0 (2 ^ k - 1) TowardZero exact a st"
proof -
  define n where "n = int (S * 2 ^ L div 2 ^ d)"
  have "S * 2 ^ L div 2 ^ d < 2 ^ k" by (rule trunc_bound [OF assms(3) d])
  then have "n < int (2 ^ k)" unfolding n_def by (simp only: of_nat_less_iff)
  then have n: "0 \<le> n" "n < 2 ^ k" by (simp_all add: n_def)
  have "int (unat (drop_bit d w)) = n" by (simp only: unat_drop_bit w(1) n_def)
  then have z: "uint (drop_bit d w) = n" by simp
  show ?thesis
    unfolding trunc_right [OF assms(1,2) d(1)] n_def [symmetric] w(2) w(1)
    using n w(3) z by (subst int_deliver_fits) simp_all
qed

text \<open>The same for a significand that is not shifted right.\<close>

lemma trunc_left:
  assumes "fp_finite fb eb (a :: 'w word)" "\<bar>fp_real fb eb a\<bar> = real S * pw2 (int e - binary_point)" "S < 2 ^ (fb + 1)"
    and "int L = int e - binary_point" "int e < 2 ^ (eb - 1) - 1 + int k" and w: "unat (w :: uint64_t) = S * 2 ^ L"
  shows "\<lbrakk>k \<le> 63; neg = o_sign ops (ucast a)\<rbrakk> \<Longrightarrow> map_prod sint id (if neg then - w else w, st) =
      ieee_to_int fb eb (- (2 ^ k)) (2 ^ k - 1) TowardZero exact a st"
    and "\<not> o_sign ops (ucast a) \<Longrightarrow> map_prod uint id (w, st) = ieee_to_int fb eb 0 (2 ^ k - 1) TowardZero exact a st"
  using trunc_signed [OF assms(1-3), of 0 L k w False exact neg st]
    trunc_unsigned [OF assms(1-3), of 0 L k w False exact st] assms(4-6) by (simp_all split: if_splits)

text \<open>The least signed integer, and the operands beyond it.\<close>

lemma trunc_edge:
  fixes a :: "'w word"
  assumes "2 ^ (eb - 1) - 1 + int k \<le> o_exp ops (ucast a)" "2 ^ (eb - 1) - 1 + int k < 2 ^ eb - 1"
  shows "(if o_sign ops (ucast a) \<and> o_exp ops (ucast a) = 2 ^ (eb - 1) - 1 + int k \<and> unat (o_frac ops (ucast a)) * 2 ^ k < 2 ^ fb
     then (- (2 ^ k), raise_inexact (exact \<and> o_frac ops (ucast a) \<noteq> 0) st)
     else int_overflow (- (2 ^ k)) (2 ^ k - 1) (if o_exp ops (ucast a) = 2 ^ eb - 1 \<and> o_frac ops (ucast a) \<noteq> 0 then False
       else o_sign ops (ucast a)) st) =
    ieee_to_int fb eb (- (2 ^ k)) (2 ^ k - 1) TowardZero exact a st"
proof (cases rule: trunc_cases [of a])
  case small
  then show ?thesis using assms(1) by simp
next
  case special
  then show ?thesis using trunc_special [OF special] assms(2) by simp
next
  case (normal e S)
  note ov = trunc_overflow [OF normal(4,8,6,1,3)]
  show ?thesis
  proof (cases "o_sign ops (ucast a) \<and> int e = 2 ^ (eb - 1) - 1 + int k")
    case False
    show ?thesis
    proof (cases "o_sign ops (ucast a)")
      case True
      then have "2 ^ (eb - 1) - 1 + int (k + 1) \<le> int e" using False assms(1) normal(1) by simp
      from ov [OF this] True False show ?thesis by (simp add: normal(1))
    next
      case s: False
      show ?thesis using ov [of k] s assms(1) by (simp add: normal(1))
    qed
  next
    case True
    define F where "F = unat (o_frac ops (ucast a))"
    have "F < 2 ^ fb" unfolding F_def frac by simp
    moreover have "unat (2 ^ fb :: uint64_t) = 2 ^ fb" using width(3) by (intro unat_power2_word) simp
    ultimately have S: "S = F + 2 ^ fb" using normal(5) nat_or_hidden [of F fb] by (simp add: unat_or F_def)
    have div: "S * 2 ^ k div 2 ^ fb = 2 ^ k + F * 2 ^ k div 2 ^ fb" "S * 2 ^ k mod 2 ^ fb = F * 2 ^ k mod 2 ^ fb"
      unfolding S by (simp_all add: add_mult_distrib)
    note r = trunc_right [OF normal(4,8), of fb k, unfolded div]
    have e: "int fb = binary_point + int k - int e" using True by (simp add: binary_point_def)
    have frac0: "o_frac ops (ucast a) \<noteq> 0 \<longleftrightarrow> F \<noteq> 0" by (simp only: word_neq_0_unat F_def)
    have max: "int e \<noteq> 2 ^ eb - 1" using normal(3) by simp
    show ?thesis
    proof (cases "F * 2 ^ k < 2 ^ fb")
      case l: True
      then have m: "F * 2 ^ k div 2 ^ fb = 0" "F * 2 ^ k mod 2 ^ fb = F * 2 ^ k" by simp_all
      show ?thesis
        unfolding r [OF e] m F_def [symmetric] frac0 normal(1) using l True by (subst int_deliver_fits) simp_all
    next
      case False
      then have "0 < F * 2 ^ k div 2 ^ fb" by (simp add: div_greater_zero_iff)
      then have "int (2 ^ k) < int (2 ^ k + F * 2 ^ k div 2 ^ fb)" by simp
      then show ?thesis
        unfolding r [OF e] F_def [symmetric] normal(1) using False True max by (subst int_deliver_overflows) simp_all
    qed
  qed
qed

lemma trunc_zero:
  assumes "o_exp ops (ucast (a :: 'w word)) < 2 ^ (eb - 1) - 1" "lo \<le> 0" "0 \<le> hi"
  shows "(0, raise_inexact (exact \<and> (word_of_int (o_exp ops (ucast a)) :: uint64_t) OR o_frac ops (ucast a) \<noteq> 0) st) =
    ieee_to_int fb eb lo hi TowardZero exact a st"
proof (cases rule: trunc_cases [of a])
  case small
  then show ?thesis using assms(2,3) by (intro trunc_small)
next
  case special
  have "(2::int) ^ (eb - 1) \<le> 2 ^ eb" by (intro power_increasing) auto
  then show ?thesis using special(1) assms(1) by simp
next
  case (normal e S)
  then show ?thesis using assms(1) by simp
qed

text \<open>An unsigned result cannot be negative: every operand of magnitude one or more is out of range.\<close>

lemma trunc_invalid:
  fixes a :: "'w word"
  assumes "2 ^ (eb - 1) - 1 \<le> o_exp ops (ucast a)"
    and "o_sign ops (ucast a) \<or> 2 ^ (eb - 1) - 1 + int k \<le> o_exp ops (ucast a)"
  shows "int_overflow 0 (2 ^ k - 1) (if o_exp ops (ucast a) = 2 ^ eb - 1 \<and> o_frac ops (ucast a) \<noteq> 0 then False
      else o_sign ops (ucast a)) st = ieee_to_int fb eb 0 (2 ^ k - 1) TowardZero exact a st"
proof (cases rule: trunc_cases [of a])
  case small
  then show ?thesis using assms(1) by simp
next
  case special
  then show ?thesis by (rule trunc_special)
next
  case (normal e S)
  show ?thesis
    by (rule trunc_overflow [OF normal(4,8,6,1,3), of "if o_sign ops (ucast a) then 0 else k"])
      (use assms in \<open>auto simp: normal(1)\<close>)
qed

lemma trunc_normal:
  fixes a :: "'w word"
  assumes "2 ^ (eb - 1) - 1 \<le> o_exp ops (ucast a)" "o_exp ops (ucast a) < 2 ^ eb - 1"
  obtains e S where "o_exp ops (ucast a) = int e" "fp_finite fb eb a" "\<bar>fp_real fb eb a\<bar> = real S * pw2 (int e - binary_point)"
    "S < 2 ^ (fb + 1)" "unat (o_frac ops (ucast a) OR 2 ^ fb) = S"
  by (cases rule: trunc_cases [of a]) (use assms that in auto)

lemma pack_power_iff:
  fixes a :: "'w word"
  assumes "E < 2 ^ eb"
  shows "a = fp_word fb eb True (E * 2 ^ fb) \<longleftrightarrow>
    o_sign ops (ucast a) \<and> o_exp ops (ucast a) = int E \<and> o_frac ops (ucast a) = 0"
proof -
  have E: "E * 2 ^ fb < 2 ^ (fb + eb)" using assms by (simp add: power_add)
  have "unat (fp_word fb eb True (E * 2 ^ fb) :: 'w word) = of_bool True * 2 ^ (fb + eb) + E * 2 ^ fb"
    by (rule unat_fp_word [OF width(1) E])
  then have "a = fp_word fb eb True (E * 2 ^ fb) \<longleftrightarrow>
      of_bool (fp_neg fb eb a) * 2 ^ (fb + eb) + fp_magbits fb eb a = 2 ^ (fb + eb) + E * 2 ^ fb"
    by (simp add: word_eq_unat unat_split)
  also have "\<dots> \<longleftrightarrow> fp_neg fb eb a \<and> fp_magbits fb eb a = E * 2 ^ fb"
    using magbits_less [of fb eb a] by (cases "fp_neg fb eb a") auto
  also have "fp_magbits fb eb a = E * 2 ^ fb \<longleftrightarrow> o_exp ops (ucast a) = int E \<and> o_frac ops (ucast a) = 0"
    unfolding exp frac_0_iff of_nat_eq_iff using div_mult_mod_eq [of "fp_magbits fb eb a" "2 ^ fb"] by auto
  finally show ?thesis by (simp only: sign)
qed

end

lemma f32_least_iff:
  fixes a :: float32_t
  assumes "E < 2 ^ 8"
  shows "ucast a = packToF32UI True (int E) 0 \<longleftrightarrow> signF32UI (ucast a) \<and> expF32UI (ucast a) = int E \<and> fracF32UI (ucast a) = 0"
proof -
  define x :: uint32_t where "x = push_bit 31 (of_bool True) + push_bit 23 (word_of_int (int E))"
  have p: "packToF32UI True (int E) 0 = ucast x" by (simp add: packToF32UI_def x_def)
  have "(ucast a :: uint64_t) = ucast x \<longleftrightarrow> a = x" unfolding word_eq_unat by simp
  moreover have "x = fp_word 23 8 True (E * 2 ^ 23)"
    using packToF32UI_fp_word [of "int E" 0 True] assms unfolding p f32.ucast_ucast by simp
  ultimately show ?thesis using f32.pack_power_iff [OF assms, of a] by (simp add: p)
qed

lemma f64_least_iff:
  fixes a :: float64_t
  assumes "E < 2 ^ 11"
  shows "a = packToF64UI True (int E) 0 \<longleftrightarrow> signF64UI a \<and> expF64UI a = int E \<and> fracF64UI a = 0"
  using f64.pack_power_iff [OF assms, of a] packToF64UI_fp_word [of "int E" 0 True] assms by simp

section \<open>Conversions of binary32\<close>

lemma f32_point [simp]: "f32.binary_point = 150"
  by (simp add: f32.binary_point_def)

lemma f64_point [simp]: "f64.binary_point = 1075"
  by (simp add: f64.binary_point_def)

lemma f16_point [simp]: "f16.binary_point = 25"
  by (simp add: f16.binary_point_def)

lemmas f32_trunc_zero = f32.trunc_zero [unfolded f32_ops_sel]
lemmas f32_trunc_edge = f32.trunc_edge [unfolded f32_ops_sel]
lemmas f32_trunc_invalid = f32.trunc_invalid [unfolded f32_ops_sel]
lemmas f64_trunc_zero = f64.trunc_zero [unfolded f64_ops_sel ucast_id]
lemmas f64_trunc_edge = f64.trunc_edge [unfolded f64_ops_sel ucast_id]
lemmas f64_trunc_invalid = f64.trunc_invalid [unfolded f64_ops_sel ucast_id]

text \<open>The significand, shifted into place.\<close>

lemma f32_sig_shift:
  assumes "unat (fracF32UI (ucast a) OR 2 ^ 23) = S" "S < 2 ^ (23 + 1)" "L \<le> 40"
  shows "unat (push_bit L (fracF32UI (ucast a) OR 2 ^ 23)) = S * 2 ^ L"
proof -
  have "S * 2 ^ L < 2 ^ 24 * 2 ^ L" using assms(2) by simp
  also have "\<dots> = 2 ^ (24 + L)" by (simp only: power_add)
  also have "\<dots> \<le> 2 ^ LENGTH(64)" using assms(3) by (intro power_increasing) auto
  finally show ?thesis by (subst unat_push_bit_less) (simp_all only: assms(1))
qed

lemma f32_to_i32_r_minMag_spec:
  "map_prod sint id (f32_to_i32_r_minMag a exact st) = ieee_to_int 23 8 (- (2 ^ 31)) (2 ^ 31 - 1) TowardZero exact a st"
proof -
  let ?e = "expF32UI (ucast a)"
  consider (zero) "32 \<le> 0x9E - ?e" | (edge) "\<not> 32 \<le> 0x9E - ?e" "0x9E - ?e \<le> 0" | (normal) "\<not> 32 \<le> 0x9E - ?e" "\<not> 0x9E - ?e \<le> 0"
    by blast
  then show ?thesis
  proof cases
    case zero
    show ?thesis
      unfolding f32_to_i32_r_minMag_def Let_def if_P [OF zero] using f32_trunc_zero [of a "- (2 ^ 31)" "2 ^ 31 - 1" exact st] zero by simp
  next
    case edge
    show ?thesis
      unfolding f32_to_i32_r_minMag_def Let_def if_not_P [OF edge(1)] if_P [OF edge(2)] f32_consts if_distrib [of "map_prod sint id"] overflow_result
      using f32_trunc_edge [of 31 a exact st] edge f32_least_iff [of 158 a] by (auto simp: word_eq_unat)
  next
    case normal
    obtain e S where n: "?e = int e" "fp_finite 23 8 a" "\<bar>fp_real 23 8 a\<bar> = real S * pw2 (int e - f32.binary_point)"
      "S < 2 ^ (23 + 1)" "unat (fracF32UI (ucast a) OR 2 ^ 23) = S"
      by (rule f32.trunc_normal [of a, unfolded f32_ops_sel]) (use normal in auto)
    show ?thesis
      unfolding f32_to_i32_r_minMag_def Let_def if_not_P [OF normal(1)] if_not_P [OF normal(2)] f32_consts push_drop_neq
      by (rule f32.trunc_signed [OF n(2-4), where L = 8]) (use normal n f32_sig_shift [OF n(5,4), of 8] in simp_all)
  qed
qed

lemma f32_to_ui32_r_minMag_spec:
  "map_prod uint id (f32_to_ui32_r_minMag a exact st) = ieee_to_int 23 8 0 (2 ^ 32 - 1) TowardZero exact a st"
proof -
  let ?e = "expF32UI (ucast a)"
  consider (zero) "32 \<le> 0x9E - ?e" | (invalid) "\<not> 32 \<le> 0x9E - ?e" "signF32UI (ucast a) \<or> 0x9E - ?e < 0"
    | (normal) "\<not> 32 \<le> 0x9E - ?e" "\<not> (signF32UI (ucast a) \<or> 0x9E - ?e < 0)"
    by blast
  then show ?thesis
  proof cases
    case zero
    show ?thesis
      unfolding f32_to_ui32_r_minMag_def Let_def if_P [OF zero] using f32_trunc_zero [of a 0 "2 ^ 32 - 1" exact st] zero by simp
  next
    case invalid
    show ?thesis
      unfolding f32_to_ui32_r_minMag_def Let_def if_not_P [OF invalid(1)] if_P [OF invalid(2)] f32_consts overflow_result
      by (rule f32_trunc_invalid) (use invalid in auto)
  next
    case normal
    obtain e S where n: "?e = int e" "fp_finite 23 8 a" "\<bar>fp_real 23 8 a\<bar> = real S * pw2 (int e - f32.binary_point)"
      "S < 2 ^ (23 + 1)" "unat (fracF32UI (ucast a) OR 2 ^ 23) = S"
      by (rule f32.trunc_normal [of a, unfolded f32_ops_sel]) (use normal in auto)
    show ?thesis
      unfolding f32_to_ui32_r_minMag_def Let_def if_not_P [OF normal(1)] if_not_P [OF normal(2)] f32_consts push_drop_neq
      by (rule f32.trunc_unsigned [OF n(2-4), where L = 8]) (use normal n f32_sig_shift [OF n(5,4), of 8] in simp_all)
  qed
qed

text \<open>The bits a 64-bit conversion loses: none when the distance is at most 40, else those of the significand.\<close>

lemma f32_lost_bits:
  fixes sig :: uint64_t
  assumes "unat sig = S" "S < 2 ^ (23 + 1)" "d \<le> 63"
  shows "40 - int d < 0 \<and> (ucast (push_bit (nat ((40 - int d) AND 31)) sig) :: uint32_t) \<noteq> 0 \<longleftrightarrow>
    S * 2 ^ 40 mod 2 ^ d \<noteq> 0"
proof (cases "d \<le> 40")
  case True
  then have p: "(2::nat) ^ 40 = 2 ^ d * 2 ^ (40 - d)" by (simp flip: power_add)
  have "S * 2 ^ 40 mod 2 ^ d = 0" unfolding p by simp
  then show ?thesis using True by simp
next
  case False
  define k where "k = d - 40"
  have k: "k \<in> {1..31}" "40 - int d = - int k" "d = k + 40" using False assms(3) by (auto simp: k_def)
  have "unat (ucast sig :: uint32_t) = S" using assms(1,2) by (simp add: unat_ucast_less)
  then have "push_bit (LENGTH(32) - k) (ucast sig :: uint32_t) = 0 \<longleftrightarrow> S mod 2 ^ k = 0"
    using push_bit_complement_eq_0 [of k "ucast sig :: uint32_t"] k(1) by simp
  moreover have "S * 2 ^ 40 mod 2 ^ d = S mod 2 ^ k * 2 ^ 40" unfolding k(3) power_add by (rule mod_mult_mult2)
  ultimately show ?thesis
    unfolding k(2) complement_dist(1) [OF k(1)] using k(1) by (simp add: ucast_push_bit)
qed

lemma f32_to_i64_r_minMag_spec:
  "map_prod sint id (f32_to_i64_r_minMag a exact st) = ieee_to_int 23 8 (- (2 ^ 63)) (2 ^ 63 - 1) TowardZero exact a st"
proof -
  let ?e = "expF32UI (ucast a)"
  consider (zero) "64 \<le> 0xBE - ?e" | (edge) "\<not> 64 \<le> 0xBE - ?e" "0xBE - ?e \<le> 0" | (normal) "\<not> 64 \<le> 0xBE - ?e" "\<not> 0xBE - ?e \<le> 0"
    by blast
  then show ?thesis
  proof cases
    case zero
    show ?thesis
      unfolding f32_to_i64_r_minMag_def Let_def if_P [OF zero] using f32_trunc_zero [of a "- (2 ^ 63)" "2 ^ 63 - 1" exact st] zero by simp
  next
    case edge
    show ?thesis
      unfolding f32_to_i64_r_minMag_def Let_def if_not_P [OF edge(1)] if_P [OF edge(2)] f32_consts if_distrib [of "map_prod sint id"] overflow_result
      using f32_trunc_edge [of 63 a exact st] edge f32_least_iff [of 190 a] by (auto simp: word_eq_unat)
  next
    case normal
    obtain e S where n: "?e = int e" "fp_finite 23 8 a" "\<bar>fp_real 23 8 a\<bar> = real S * pw2 (int e - f32.binary_point)"
      "S < 2 ^ (23 + 1)" "unat (fracF32UI (ucast a) OR 2 ^ 23) = S"
      by (rule f32.trunc_normal [of a, unfolded f32_ops_sel]) (use normal in auto)
    define d where "d = nat (0xBE - ?e)"
    have d: "0xBE - ?e = int d" "d \<le> 63" using normal by (simp_all add: d_def)
    note w = f32_sig_shift [OF n(5,4), of 40]
    show ?thesis
      unfolding f32_to_i64_r_minMag_def Let_def if_not_P [OF normal(1)] if_not_P [OF normal(2)] f32_consts
      unfolding d(1) nat_int f32_lost_bits [OF n(5,4) d(2)]
      by (rule f32.trunc_signed [OF n(2-4), where L = 40]) (use d normal n w in \<open>simp_all\<close>)
  qed
qed

lemma f32_to_ui64_r_minMag_spec:
  "map_prod uint id (f32_to_ui64_r_minMag a exact st) = ieee_to_int 23 8 0 (2 ^ 64 - 1) TowardZero exact a st"
proof -
  let ?e = "expF32UI (ucast a)"
  consider (zero) "64 \<le> 0xBE - ?e" | (invalid) "\<not> 64 \<le> 0xBE - ?e" "signF32UI (ucast a) \<or> 0xBE - ?e < 0"
    | (normal) "\<not> 64 \<le> 0xBE - ?e" "\<not> (signF32UI (ucast a) \<or> 0xBE - ?e < 0)"
    by blast
  then show ?thesis
  proof cases
    case zero
    show ?thesis
      unfolding f32_to_ui64_r_minMag_def Let_def if_P [OF zero] using f32_trunc_zero [of a 0 "2 ^ 64 - 1" exact st] zero by simp
  next
    case invalid
    show ?thesis
      unfolding f32_to_ui64_r_minMag_def Let_def if_not_P [OF invalid(1)] if_P [OF invalid(2)] f32_consts overflow_result
      by (rule f32_trunc_invalid) (use invalid in auto)
  next
    case normal
    obtain e S where n: "?e = int e" "fp_finite 23 8 a" "\<bar>fp_real 23 8 a\<bar> = real S * pw2 (int e - f32.binary_point)"
      "S < 2 ^ (23 + 1)" "unat (fracF32UI (ucast a) OR 2 ^ 23) = S"
      by (rule f32.trunc_normal [of a, unfolded f32_ops_sel]) (use normal in auto)
    define d where "d = nat (0xBE - ?e)"
    have d: "0xBE - ?e = int d" "d \<le> 63" using normal by (simp_all add: d_def)
    note w = f32_sig_shift [OF n(5,4), of 40]
    show ?thesis
      unfolding f32_to_ui64_r_minMag_def Let_def if_not_P [OF normal(1)] if_not_P [OF normal(2)] f32_consts
      unfolding d(1) nat_int f32_lost_bits [OF n(5,4) d(2)]
      by (rule f32.trunc_unsigned [OF n(2-4), where L = 40]) (use d normal n w in \<open>simp_all\<close>)
  qed
qed

section \<open>Conversions of binary64\<close>

lemma f64_to_i32_r_minMag_spec:
  "map_prod sint id (f64_to_i32_r_minMag a exact st) = ieee_to_int 52 11 (- (2 ^ 31)) (2 ^ 31 - 1) TowardZero exact a st"
proof -
  let ?e = "expF64UI a"
  consider (zero) "53 \<le> 0x433 - ?e" | (edge) "\<not> 53 \<le> 0x433 - ?e" "0x433 - ?e < 22" | (normal) "\<not> 53 \<le> 0x433 - ?e" "\<not> 0x433 - ?e < 22"
    by blast
  then show ?thesis
  proof cases
    case zero
    show ?thesis
      unfolding f64_to_i32_r_minMag_def Let_def if_P [OF zero] using f64_trunc_zero [of a "- (2 ^ 31)" "2 ^ 31 - 1" exact st] zero by simp
  next
    case edge
    have "fracF64UI a < 0x0000000000200000 \<longleftrightarrow> unat (fracF64UI a) * 2 ^ 31 < 2 ^ 52" by (simp add: word_less_nat_alt)
    then show ?thesis
      unfolding f64_to_i32_r_minMag_def Let_def if_not_P [OF edge(1)] if_P [OF edge(2)] f64_consts if_distrib [of "map_prod sint id"] overflow_result
      using f64_trunc_edge [of 31 a exact st] edge by auto
  next
    case normal
    obtain e S where n: "?e = int e" "fp_finite 52 11 a" "\<bar>fp_real 52 11 a\<bar> = real S * pw2 (int e - f64.binary_point)"
      "S < 2 ^ (52 + 1)" "unat (fracF64UI a OR 2 ^ 52) = S"
      by (rule f64.trunc_normal [of a, unfolded f64_ops_sel ucast_id]) (use normal in auto)
    show ?thesis
      unfolding f64_to_i32_r_minMag_def Let_def if_not_P [OF normal(1)] if_not_P [OF normal(2)] f64_consts push_drop_neq
      by (rule f64.trunc_signed [OF n(2-4), where L = 0]) (use normal n in simp_all)
  qed
qed

lemma f64_to_ui32_r_minMag_spec:
  "map_prod uint id (f64_to_ui32_r_minMag a exact st) = ieee_to_int 52 11 0 (2 ^ 32 - 1) TowardZero exact a st"
proof -
  let ?e = "expF64UI a"
  consider (zero) "53 \<le> 0x433 - ?e" | (invalid) "\<not> 53 \<le> 0x433 - ?e" "signF64UI a \<or> 0x433 - ?e < 21"
    | (normal) "\<not> 53 \<le> 0x433 - ?e" "\<not> (signF64UI a \<or> 0x433 - ?e < 21)"
    by blast
  then show ?thesis
  proof cases
    case zero
    show ?thesis
      unfolding f64_to_ui32_r_minMag_def Let_def if_P [OF zero] using f64_trunc_zero [of a 0 "2 ^ 32 - 1" exact st] zero by simp
  next
    case invalid
    show ?thesis
      unfolding f64_to_ui32_r_minMag_def Let_def if_not_P [OF invalid(1)] if_P [OF invalid(2)] f64_consts overflow_result
      by (rule f64_trunc_invalid) (use invalid in auto)
  next
    case normal
    obtain e S where n: "?e = int e" "fp_finite 52 11 a" "\<bar>fp_real 52 11 a\<bar> = real S * pw2 (int e - f64.binary_point)"
      "S < 2 ^ (52 + 1)" "unat (fracF64UI a OR 2 ^ 52) = S"
      by (rule f64.trunc_normal [of a, unfolded f64_ops_sel ucast_id]) (use normal in auto)
    show ?thesis
      unfolding f64_to_ui32_r_minMag_def Let_def if_not_P [OF normal(1)] if_not_P [OF normal(2)] f64_consts push_drop_neq
      by (rule f64.trunc_unsigned [OF n(2-4), where L = 0]) (use normal n in simp_all)
  qed
qed

lemma f64_sig_shift:
  fixes sig :: uint64_t
  assumes "unat sig = S" "S < 2 ^ (52 + 1)" "k \<le> 11"
  shows "unat (push_bit k sig) = S * 2 ^ k"
proof -
  have "S * 2 ^ k < 2 ^ 53 * 2 ^ k" using assms(2) by simp
  also have "\<dots> = 2 ^ (53 + k)" by (simp only: power_add)
  also have "\<dots> \<le> 2 ^ LENGTH(64)" using assms(3) by (intro power_increasing) auto
  finally show ?thesis by (subst unat_push_bit_less) (simp_all only: assms(1))
qed

lemma f64_to_i64_r_minMag_spec:
  "map_prod sint id (f64_to_i64_r_minMag a exact st) = ieee_to_int 52 11 (- (2 ^ 63)) (2 ^ 63 - 1) TowardZero exact a st"
proof -
  let ?e = "expF64UI a"
  consider (edge) "0x433 - ?e \<le> 0" "0x433 - ?e < - 10" | (left) "0x433 - ?e \<le> 0" "\<not> 0x433 - ?e < - 10"
    | (zero) "\<not> 0x433 - ?e \<le> 0" "53 \<le> 0x433 - ?e" | (right) "\<not> 0x433 - ?e \<le> 0" "\<not> 53 \<le> 0x433 - ?e"
    by blast
  then show ?thesis
  proof cases
    case zero
    show ?thesis
      unfolding f64_to_i64_r_minMag_def Let_def if_not_P [OF zero(1)] if_P [OF zero(2)]
      using f64_trunc_zero [of a "- (2 ^ 63)" "2 ^ 63 - 1" exact st] zero by simp
  next
    case edge
    show ?thesis
      unfolding f64_to_i64_r_minMag_def Let_def if_P [OF edge(1)] if_P [OF edge(2)] f64_consts if_distrib [of "map_prod sint id"] overflow_result
      using f64_trunc_edge [of 63 a exact st] edge f64_least_iff [of 1086 a] by (auto simp: word_eq_unat)
  next
    case normal: left
    obtain e S where n: "?e = int e" "fp_finite 52 11 a" "\<bar>fp_real 52 11 a\<bar> = real S * pw2 (int e - f64.binary_point)"
      "S < 2 ^ (52 + 1)" "unat (fracF64UI a OR 2 ^ 52) = S"
      by (rule f64.trunc_normal [of a, unfolded f64_ops_sel ucast_id]) (use normal in auto)
    define k where "k = nat (- (0x433 - ?e))"
    have k: "k \<le> 10" using normal by (simp add: k_def)
    show ?thesis
      unfolding f64_to_i64_r_minMag_def Let_def if_P [OF normal(1)] if_not_P [OF normal(2)] f64_consts k_def [symmetric]
      by (rule f64.trunc_left(1) [OF n(2-4), where L = k])
        (use f64_sig_shift [OF n(5,4), of k] k normal n(1) in \<open>simp_all add: k_def\<close>)
  next
    case normal: right
    obtain e S where n: "?e = int e" "fp_finite 52 11 a" "\<bar>fp_real 52 11 a\<bar> = real S * pw2 (int e - f64.binary_point)"
      "S < 2 ^ (52 + 1)" "unat (fracF64UI a OR 2 ^ 52) = S"
      by (rule f64.trunc_normal [of a, unfolded f64_ops_sel ucast_id]) (use normal in auto)
    show ?thesis
      unfolding f64_to_i64_r_minMag_def Let_def if_not_P [OF normal(1)] if_not_P [OF normal(2)] f64_consts push_drop_neq
      by (rule f64.trunc_signed [OF n(2-4), where L = 0]) (use normal n in simp_all)
  qed
qed

lemma f64_to_ui64_r_minMag_spec:
  "map_prod uint id (f64_to_ui64_r_minMag a exact st) = ieee_to_int 52 11 0 (2 ^ 64 - 1) TowardZero exact a st"
proof -
  let ?e = "expF64UI a"
  consider (zero) "53 \<le> 0x433 - ?e" | (negative) "\<not> 53 \<le> 0x433 - ?e" "signF64UI a"
    | (large) "\<not> 53 \<le> 0x433 - ?e" "\<not> signF64UI a" "0x433 - ?e \<le> 0" "0x433 - ?e < - 11"
    | (left) "\<not> 53 \<le> 0x433 - ?e" "\<not> signF64UI a" "0x433 - ?e \<le> 0" "\<not> 0x433 - ?e < - 11"
    | (right) "\<not> 53 \<le> 0x433 - ?e" "\<not> signF64UI a" "\<not> 0x433 - ?e \<le> 0"
    by blast
  then show ?thesis
  proof cases
    case zero
    show ?thesis
      unfolding f64_to_ui64_r_minMag_def Let_def if_P [OF zero] using f64_trunc_zero [of a 0 "2 ^ 64 - 1" exact st] zero by simp
  next
    case negative
    show ?thesis
      unfolding f64_to_ui64_r_minMag_def Let_def if_not_P [OF negative(1)] if_P [OF negative(2), of "(_, _)"] f64_consts overflow_result
      by (rule f64_trunc_invalid) (use negative in auto)
  next
    case large
    show ?thesis
      unfolding f64_to_ui64_r_minMag_def Let_def if_not_P [OF large(1)] if_not_P [OF large(2), of "(_, _)"] if_P [OF large(3)] if_P [OF large(4)]
        f64_consts overflow_result
      by (rule f64_trunc_invalid) (use large in auto)
  next
    case normal: left
    obtain e S where n: "?e = int e" "fp_finite 52 11 a" "\<bar>fp_real 52 11 a\<bar> = real S * pw2 (int e - f64.binary_point)"
      "S < 2 ^ (52 + 1)" "unat (fracF64UI a OR 2 ^ 52) = S"
      by (rule f64.trunc_normal [of a, unfolded f64_ops_sel ucast_id]) (use normal in auto)
    define k where "k = nat (- (0x433 - ?e))"
    have k: "k \<le> 11" using normal by (simp add: k_def)
    show ?thesis
      unfolding f64_to_ui64_r_minMag_def Let_def if_not_P [OF normal(1)] if_not_P [OF normal(2)] if_P [OF normal(3)] if_not_P [OF normal(4)]
        f64_consts k_def [symmetric]
      by (rule f64.trunc_left(2) [OF n(2-4), where L = k])
        (use f64_sig_shift [OF n(5,4), of k] k normal n(1) in \<open>simp_all add: k_def\<close>)
  next
    case normal: right
    obtain e S where n: "?e = int e" "fp_finite 52 11 a" "\<bar>fp_real 52 11 a\<bar> = real S * pw2 (int e - f64.binary_point)"
      "S < 2 ^ (52 + 1)" "unat (fracF64UI a OR 2 ^ 52) = S"
      by (rule f64.trunc_normal [of a, unfolded f64_ops_sel ucast_id]) (use normal in auto)
    define d where "d = nat (0x433 - ?e)"
    have d: "0x433 - ?e = int d" "0 < d" "d < 53" using normal by (simp_all add: d_def)
    have "nat (- int d AND 63) = 64 - d" using d by (intro complement_dist) auto
    then have lost: "push_bit (nat (- int d AND 63)) (fracF64UI a OR 2 ^ 52) \<noteq> 0 \<longleftrightarrow> unat (fracF64UI a OR 2 ^ 52) mod 2 ^ d \<noteq> 0"
      using push_bit_complement_eq_0 [of d "fracF64UI a OR 2 ^ 52"] d by simp
    show ?thesis
      unfolding f64_to_ui64_r_minMag_def Let_def if_not_P [OF normal(1)] if_not_P [OF normal(2)] if_not_P [OF normal(3)] f64_consts
      unfolding d(1) nat_int lost
      by (rule f64.trunc_unsigned [OF n(2-4), where L = 0]) (use d normal n in simp_all)
  qed
qed

section \<open>Conversions of binary16\<close>

lemmas f16_trunc_zero = f16.trunc_zero [unfolded f16_ops_sel]

lemma f16_trunc_special:
  fixes a :: float16_t
  assumes "expF16UI (ucast a) = 0x1F"
  shows "int_overflow lo hi (if expF16UI (ucast a) = 0x1F \<and> fracF16UI (ucast a) \<noteq> 0 then False else signF16UI (ucast a)) st =
    ieee_to_int 10 5 lo hi m exact a st"
  using f16.trunc_special [unfolded f16_ops_sel, of a lo hi st m exact] f16.exp_max_iff [of a] assms by simp

lemma f16_trunc_invalid:
  fixes a :: float16_t
  assumes "\<not> expF16UI (ucast a) - 0x0F < 0" "signF16UI (ucast a) \<or> expF16UI (ucast a) = 0x1F"
  shows "int_overflow 0 (2 ^ k - 1) (if expF16UI (ucast a) = 0x1F \<and> fracF16UI (ucast a) \<noteq> 0 then False
      else signF16UI (ucast a)) st = ieee_to_int 10 5 0 (2 ^ k - 1) TowardZero exact a st"
proof (cases "expF16UI (ucast a) = 0x1F")
  case True
  then show ?thesis by (rule f16_trunc_special)
next
  case False
  then show ?thesis using f16.trunc_invalid [unfolded f16_ops_sel, of a k st exact] assms by simp
qed

lemma f16_trunc_fits:
  fixes a :: float16_t
  assumes "\<not> expF16UI (ucast a) - 0x0F < 0" "expF16UI (ucast a) \<noteq> 0x1F" and k: "31 \<le> k"
  defines "w \<equiv> push_bit (nat (expF16UI (ucast a) - 0x0F)) (fracF16UI (ucast a) OR 0x0400)"
  shows "k \<le> 63 \<Longrightarrow> map_prod sint id (if signF16UI (ucast a) then - drop_bit 10 w else drop_bit 10 w,
      raise_inexact (exact \<and> w AND 0x3FF \<noteq> 0) st) = ieee_to_int 10 5 (- (2 ^ k)) (2 ^ k - 1) TowardZero exact a st"
    and "\<not> signF16UI (ucast a) \<Longrightarrow> map_prod uint id (drop_bit 10 w, raise_inexact (exact \<and> w AND 0x3FF \<noteq> 0) st) =
      ieee_to_int 10 5 0 (2 ^ k - 1) TowardZero exact a st"
proof -
  have "expF16UI (ucast a) < 32" using f16.exp [of a] magbits_div_less [of 10 5 a] by simp
  then obtain e S where n: "expF16UI (ucast a) = int e" "fp_finite 10 5 a" "\<bar>fp_real 10 5 a\<bar> = real S * pw2 (int e - f16.binary_point)"
      "S < 2 ^ (10 + 1)" "unat (fracF16UI (ucast a) OR 2 ^ 10) = S"
    by - (rule f16.trunc_normal [of a, unfolded f16_ops_sel], use assms(1,2) in auto)
  have e: "15 \<le> e" "e < 31" using assms(1,2) \<open>expF16UI (ucast a) < 32\<close> by (simp_all add: n(1))
  have "S * 2 ^ (e - 15) < 2 ^ 11 * 2 ^ (e - 15)" using n(4) by simp
  also have "\<dots> = 2 ^ (11 + (e - 15))" by (simp only: power_add)
  also have "\<dots> \<le> 2 ^ LENGTH(64)" using e by (intro power_increasing) auto
  finally have "S * 2 ^ (e - 15) < 2 ^ LENGTH(64)" .
  moreover have "nat (int e - 0x0F) = e - 15" by linarith
  ultimately have w: "unat w = S * 2 ^ (e - 15)"
    unfolding w_def n(1) f16_consts by (simp only:) (subst unat_push_bit_less, simp_all only: n(5))
  have "unat (w AND 0x3FF) = unat w mod 2 ^ 10" using unat_and_mask [of w 10] by (simp add: mask_eq_exp_minus_1)
  then have c: "w AND 0x3FF \<noteq> 0 \<longleftrightarrow> unat w mod 2 ^ 10 \<noteq> 0" by (simp only: word_neq_0_unat)
  have d: "int 10 = f16.binary_point + int (e - 15) - int e" "int e < 2 ^ (5 - 1) - 1 + int k" using e k by simp_all
  show "map_prod sint id (if signF16UI (ucast a) then - drop_bit 10 w else drop_bit 10 w,
      raise_inexact (exact \<and> w AND 0x3FF \<noteq> 0) st) = ieee_to_int 10 5 (- (2 ^ k)) (2 ^ k - 1) TowardZero exact a st" if "k \<le> 63"
    by (rule f16.trunc_signed [OF n(2-4) d that w]) (simp_all only: c f16_ops_sel)
  show "map_prod uint id (drop_bit 10 w, raise_inexact (exact \<and> w AND 0x3FF \<noteq> 0) st) =
      ieee_to_int 10 5 0 (2 ^ k - 1) TowardZero exact a st" if "\<not> signF16UI (ucast a)"
    by (rule f16.trunc_unsigned [OF n(2-4) d w]) (simp_all only: c f16_ops_sel that not_False_eq_True)
qed

lemma f16_to_i32_r_minMag_spec:
  "map_prod sint id (f16_to_i32_r_minMag a exact st) = ieee_to_int 10 5 (- (2 ^ 31)) (2 ^ 31 - 1) TowardZero exact a st"
proof -
  let ?e = "expF16UI (ucast a)"
  consider (zero) "?e - 0x0F < 0" | (invalid) "\<not> ?e - 0x0F < 0" "?e = 0x1F" | (normal) "\<not> ?e - 0x0F < 0" "?e \<noteq> 0x1F"
    by blast
  then show ?thesis
  proof cases
    case zero
    show ?thesis
      unfolding f16_to_i32_r_minMag_def Let_def if_P [OF zero] using f16_trunc_zero [of a "- (2 ^ 31)" "2 ^ 31 - 1" exact st] zero by simp
  next
    case invalid
    show ?thesis
      unfolding f16_to_i32_r_minMag_def Let_def if_not_P [OF invalid(1)] if_P [OF invalid(2)] overflow_result
      using f16_trunc_special [of a "- (2 ^ 31)" "2 ^ 31 - 1" st TowardZero exact] invalid by simp
  next
    case normal
    show ?thesis
      unfolding f16_to_i32_r_minMag_def Let_def if_not_P [OF normal(1)] if_not_P [OF normal(2)]
      by (rule f16_trunc_fits(1)) (use normal in auto)
  qed
qed

lemma f16_to_ui32_r_minMag_spec:
  "map_prod uint id (f16_to_ui32_r_minMag a exact st) = ieee_to_int 10 5 0 (2 ^ 32 - 1) TowardZero exact a st"
proof -
  let ?e = "expF16UI (ucast a)"
  consider (zero) "?e - 0x0F < 0" | (invalid) "\<not> ?e - 0x0F < 0" "signF16UI (ucast a) \<or> ?e = 0x1F"
    | (normal) "\<not> ?e - 0x0F < 0" "\<not> (signF16UI (ucast a) \<or> ?e = 0x1F)"
    by blast
  then show ?thesis
  proof cases
    case zero
    show ?thesis
      unfolding f16_to_ui32_r_minMag_def Let_def if_P [OF zero] using f16_trunc_zero [of a "0" "2 ^ 32 - 1" exact st] zero by simp
  next
    case invalid
    show ?thesis
      unfolding f16_to_ui32_r_minMag_def Let_def if_not_P [OF invalid(1)] if_P [OF invalid(2)] overflow_result
      by (rule f16_trunc_invalid [OF invalid])
  next
    case normal
    show ?thesis
      unfolding f16_to_ui32_r_minMag_def Let_def if_not_P [OF normal(1)] if_not_P [OF normal(2)]
      by (rule f16_trunc_fits(2)) (use normal in auto)
  qed
qed

lemma f16_to_i64_r_minMag_spec:
  "map_prod sint id (f16_to_i64_r_minMag a exact st) = ieee_to_int 10 5 (- (2 ^ 63)) (2 ^ 63 - 1) TowardZero exact a st"
proof -
  let ?e = "expF16UI (ucast a)"
  consider (zero) "?e - 0x0F < 0" | (invalid) "\<not> ?e - 0x0F < 0" "?e = 0x1F" | (normal) "\<not> ?e - 0x0F < 0" "?e \<noteq> 0x1F"
    by blast
  then show ?thesis
  proof cases
    case zero
    show ?thesis
      unfolding f16_to_i64_r_minMag_def Let_def if_P [OF zero] using f16_trunc_zero [of a "- (2 ^ 63)" "2 ^ 63 - 1" exact st] zero by simp
  next
    case invalid
    show ?thesis
      unfolding f16_to_i64_r_minMag_def Let_def if_not_P [OF invalid(1)] if_P [OF invalid(2)] overflow_result
      using f16_trunc_special [of a "- (2 ^ 63)" "2 ^ 63 - 1" st TowardZero exact] invalid by simp
  next
    case normal
    show ?thesis
      unfolding f16_to_i64_r_minMag_def Let_def if_not_P [OF normal(1)] if_not_P [OF normal(2)]
      by (rule f16_trunc_fits(1)) (use normal in auto)
  qed
qed

lemma f16_to_ui64_r_minMag_spec:
  "map_prod uint id (f16_to_ui64_r_minMag a exact st) = ieee_to_int 10 5 0 (2 ^ 64 - 1) TowardZero exact a st"
proof -
  let ?e = "expF16UI (ucast a)"
  consider (zero) "?e - 0x0F < 0" | (invalid) "\<not> ?e - 0x0F < 0" "signF16UI (ucast a) \<or> ?e = 0x1F"
    | (normal) "\<not> ?e - 0x0F < 0" "\<not> (signF16UI (ucast a) \<or> ?e = 0x1F)"
    by blast
  then show ?thesis
  proof cases
    case zero
    show ?thesis
      unfolding f16_to_ui64_r_minMag_def Let_def if_P [OF zero] using f16_trunc_zero [of a "0" "2 ^ 64 - 1" exact st] zero by simp
  next
    case invalid
    show ?thesis
      unfolding f16_to_ui64_r_minMag_def Let_def if_not_P [OF invalid(1)] if_P [OF invalid(2)] overflow_result
      by (rule f16_trunc_invalid [OF invalid])
  next
    case normal
    show ?thesis
      unfolding f16_to_ui64_r_minMag_def Let_def if_not_P [OF normal(1)] if_not_P [OF normal(2)]
      by (rule f16_trunc_fits(2)) (use normal in auto)
  qed
qed

section \<open>Correctness\<close>

text \<open>
  C9. Every truncating conversion returns its operand rounded toward zero, whatever the rounding mode
  of the state is: it agrees with the specification of the general conversion in that mode, the least
  signed integer, the signalling of inexact results and the invalid operands included.
\<close>

theorem float_to_int_truncates:
  "map_prod sint id (f16_to_i32_r_minMag a exact st) = ieee_to_int 10 5 (- (2 ^ 31)) (2 ^ 31 - 1) TowardZero exact a st \<and>
   map_prod uint id (f16_to_ui32_r_minMag a exact st) = ieee_to_int 10 5 0 (2 ^ 32 - 1) TowardZero exact a st \<and>
   map_prod sint id (f16_to_i64_r_minMag a exact st) = ieee_to_int 10 5 (- (2 ^ 63)) (2 ^ 63 - 1) TowardZero exact a st \<and>
   map_prod uint id (f16_to_ui64_r_minMag a exact st) = ieee_to_int 10 5 0 (2 ^ 64 - 1) TowardZero exact a st \<and>
   map_prod sint id (f32_to_i32_r_minMag b exact st) = ieee_to_int 23 8 (- (2 ^ 31)) (2 ^ 31 - 1) TowardZero exact b st \<and>
   map_prod uint id (f32_to_ui32_r_minMag b exact st) = ieee_to_int 23 8 0 (2 ^ 32 - 1) TowardZero exact b st \<and>
   map_prod sint id (f32_to_i64_r_minMag b exact st) = ieee_to_int 23 8 (- (2 ^ 63)) (2 ^ 63 - 1) TowardZero exact b st \<and>
   map_prod uint id (f32_to_ui64_r_minMag b exact st) = ieee_to_int 23 8 0 (2 ^ 64 - 1) TowardZero exact b st \<and>
   map_prod sint id (f64_to_i32_r_minMag c exact st) = ieee_to_int 52 11 (- (2 ^ 31)) (2 ^ 31 - 1) TowardZero exact c st \<and>
   map_prod uint id (f64_to_ui32_r_minMag c exact st) = ieee_to_int 52 11 0 (2 ^ 32 - 1) TowardZero exact c st \<and>
   map_prod sint id (f64_to_i64_r_minMag c exact st) = ieee_to_int 52 11 (- (2 ^ 63)) (2 ^ 63 - 1) TowardZero exact c st \<and>
   map_prod uint id (f64_to_ui64_r_minMag c exact st) = ieee_to_int 52 11 0 (2 ^ 64 - 1) TowardZero exact c st"
  by (intro conjI f16_to_i32_r_minMag_spec f16_to_ui32_r_minMag_spec f16_to_i64_r_minMag_spec f16_to_ui64_r_minMag_spec
      f32_to_i32_r_minMag_spec f32_to_ui32_r_minMag_spec f32_to_i64_r_minMag_spec f32_to_ui64_r_minMag_spec
      f64_to_i32_r_minMag_spec f64_to_ui32_r_minMag_spec f64_to_i64_r_minMag_spec f64_to_ui64_r_minMag_spec)

end
