(* ===== verification/SF_RoundTrip.thy ===== *)
theory SF_RoundTrip
  imports SF_FromInt SF_ToIntTrunc
begin

text \<open>
  The conversions composed: an integer that fits the significand of the format is converted to a
  float and back without change and without an exception, and whatever a conversion to an integer
  returns lies in the range of its type.
\<close>

section \<open>Integers of the format\<close>

text \<open>A magnitude below \<open>2 ^ (fb + 1)\<close> is the value of a pattern.\<close>

lemma scale_to_significand:
  assumes "0 < n" "n < 2 ^ (fb + 1)"
  obtains j where "j \<le> fb" "2 ^ fb \<le> n * 2 ^ j" "n * 2 ^ j < (2::nat) ^ (fb + 1)"
proof -
  define j where "j = fb - (LEAST k. n < 2 ^ (k + 1))"
  let ?k = "LEAST k. n < 2 ^ (k + 1)"
  have lt: "n < 2 ^ (?k + 1)" and le: "?k \<le> fb" using assms(2) by (rule LeastI, rule Least_le)
  have ge: "2 ^ ?k \<le> n"
  proof (cases ?k)
    case (Suc l)
    then have "\<not> n < 2 ^ (l + 1)" using not_less_Least [of l "\<lambda>k. n < 2 ^ (k + 1)"] by simp
    then show ?thesis unfolding Suc by simp
  qed (use assms in simp)
  have split: "?k + j = fb" using le by (simp add: j_def)
  then have "2 ^ fb = 2 ^ ?k * (2::nat) ^ j" "2 ^ (fb + 1) = 2 ^ (?k + 1) * (2::nat) ^ j"
    by (simp_all flip: split power_add)
  then show ?thesis using that [of j] lt ge by (simp add: j_def)
qed

lemma int_representable:
  assumes n: "n < 2 ^ (fb + 1)" and fmt: "fb + 2 < 2 ^ (eb - 1)" "2 \<le> eb"
  obtains u where "u < fp_inf fb eb" "fp_mag fb eb u = real n"
proof (cases "n = 0")
  case True
  show ?thesis
  proof (rule that [of 0])
    show "0 < fp_inf fb eb" using fmt one_less_power [of "2::nat" eb] by (simp add: fp_inf_def)
    show "fp_mag fb eb 0 = real n" using True by (simp add: fp_mag_def)
  qed
next
  case False
  then obtain j where j: "j \<le> fb" "2 ^ fb \<le> n * 2 ^ j" "n * 2 ^ j < 2 ^ (fb + 1)"
    using scale_to_significand n by (metis neq0_conv)
  define e where "e = nat (- fp_qmin fb eb - int j)"
  define B :: nat where "B = 2 ^ (eb - 1)"
  have B: "(2::int) ^ (eb - 1) = int B" by (simp add: B_def)
  have "fb + 2 < B" using fmt(1) by (simp add: B_def)
  then have e: "int e = 2 ^ (eb - 1) + int fb - 2 - int j"
    using j(1) unfolding e_def fp_qmin_def B by simp
  have two: "2 ^ eb = 2 * (2::nat) ^ (eb - 1)" using fmt(2) by (metis Suc_diff_1 less_le_trans pos2 power_Suc)
  have "e + 2 \<le> 2 ^ eb - 1"
    using e \<open>fb + 2 < B\<close> unfolding two B B_def [symmetric] by linarith
  then have "(e + 2) * 2 ^ fb \<le> fp_inf fb eb" unfolding fp_inf_def by (rule mult_le_mono1)
  then have lt: "e * 2 ^ fb + n * 2 ^ j < fp_inf fb eb" using j(3) by (simp add: algebra_simps)
  have "fp_mag fb eb (e * 2 ^ fb + n * 2 ^ j) = real (n * 2 ^ j) * pw2 (fp_qmin fb eb + int e)"
    by (rule mag_packed) (use j in simp_all)
  also have "fp_qmin fb eb + int e = - int j" unfolding e by (simp add: fp_qmin_def)
  also have "real (n * 2 ^ j) * pw2 (- int j) = real n" by (simp add: power_int_minus)
  finally show ?thesis using that lt by blast
qed

section \<open>To a float and back\<close>

lemma fp_word_sel:
  assumes "u < fp_inf fb eb" "LENGTH('w) = 1 + fb + eb"
  shows "fp_magbits fb eb (fp_word fb eb neg u :: 'w::len word) = u"
    and "fp_neg fb eb (fp_word fb eb neg u :: 'w word) = neg"
proof -
  have "u < 2 ^ (fb + eb)" using assms(1) unfolding fp_inf_def
    by (rule less_le_trans) (simp add: power_add mult.commute)
  then show "fp_magbits fb eb (fp_word fb eb neg u :: 'w word) = u"
    "fp_neg fb eb (fp_word fb eb neg u :: 'w word) = neg"
    using unat_fp_word [OF assms(2)] by (simp_all add: fp_magbits_def fp_neg_def)
qed

context float_format
begin

lemma of_int_to_int:
  assumes fmt: "fb + 2 < 2 ^ (eb - 1)" "LENGTH('w) = 1 + fb + eb"
    and i: "\<bar>i\<bar> < 2 ^ (fb + 1)" "lo \<le> i" "i \<le> hi"
  obtains w :: "'w::len word" where "ieee_of_int fb eb i st = (w, st)"
    and "\<And>m exact st. ieee_to_int fb eb lo hi m exact w st = (i, st)"
proof -
  have "nat \<bar>i\<bar> < 2 ^ (fb + 1)" using i(1) by (simp add: nat_less_iff)
  then obtain u where u: "u < fp_inf fb eb" "fp_mag fb eb u = real (nat \<bar>i\<bar>)"
    using int_representable fmt(1) eb_ge by metis
  define w :: "'w word" where "w = fp_word fb eb (i < 0) u"
  have w: "fp_magbits fb eb w = u" "fp_neg fb eb w \<longleftrightarrow> i < 0"
    unfolding w_def using fp_word_sel [OF u(1) fmt(2)] by blast+
  have mag: "fp_mag fb eb u = \<bar>real_of_int i\<bar>" using u(2) by simp
  have 1: "ieee_of_int fb eb i st = (w, st)"
    unfolding ieee_of_int_def w_def mag [symmetric] by (rule exact_result [OF u(1)])
  have real: "\<bar>fp_real fb eb w\<bar> = real_of_int \<bar>i\<bar>"
    by (simp add: fp_real_def w mag abs_mult)
  have "ieee_to_int fb eb lo hi m exact w st = (i, st)" for m exact st
    unfolding ieee_to_int_def int_result_def int_deliver_def real rnd_int_of_int
    using u(1) i(2,3) by (simp add: fp_is_nan_def fp_is_inf_def w Let_def)
  with 1 show ?thesis using that by blast
qed

lemma of_int_to_int_exact:
  assumes "fb + 2 < 2 ^ (eb - 1)" "LENGTH('w) = 1 + fb + eb"
    and "\<bar>i\<bar> < 2 ^ (fb + 1)" "lo \<le> i" "i \<le> hi"
    and conv: "F st = (ieee_of_int fb eb i st :: 'w::len word \<times> sf_state)"
    and conv': "\<And>w st. map_prod rd id (G w st) = ieee_to_int fb eb lo hi m exact w st"
    and inj: "\<And>x. rd x = i \<Longrightarrow> x = k"
  shows "(case F st of (w, st') \<Rightarrow> G w st') = (k, st)"
proof -
  obtain w :: "'w word" where w: "ieee_of_int fb eb i st = (w, st)"
    "\<And>m exact st. ieee_to_int fb eb lo hi m exact w st = (i, st)"
    using of_int_to_int [OF assms(1-5)] by blast
  have "map_prod rd id (G w st) = (i, st)" by (simp only: conv' w)
  then show ?thesis using inj by (cases "G w st") (simp add: conv w(1))
qed

end

lemma sint_eqI: "sint a = sint b \<Longrightarrow> a = (b :: 'a::len word)"
  by (rule signed_word_eqI)

lemma sint_scast_32: "sint (scast (j :: 32 word) :: 64 word) = sint j"
  by (rule bit_eqI) (auto simp: bit_simps min_def)

lemma uint_ucast_32: "uint (ucast (j :: 32 word) :: 64 word) = uint j"
  by (rule bit_eqI) (auto simp: bit_simps dest: bit_imp_le_length)

lemma fmt_sizes:
  "(10::nat) + 2 < 2 ^ (5 - 1)" "(23::nat) + 2 < 2 ^ (8 - 1)" "(52::nat) + 2 < 2 ^ (11 - 1)"
  "LENGTH(16) = 1 + 10 + 5" "LENGTH(32) = 1 + 23 + 8" "LENGTH(64) = 1 + 52 + 11"
  by simp_all

text \<open>
  C10.  An integer survives the conversion to binary64 and back unchanged, in every rounding mode and
  without an exception: every 32-bit integer, and a 64-bit one when its magnitude is below 2 to the 53rd.
\<close>

theorem int_float_int_roundtrip:
  assumes "\<bar>sint i\<bar> < 2 ^ 53" "uint u < 2 ^ 53"
  shows "(case i32_to_f64 j st of (w, st') \<Rightarrow> f64_to_i32 w r exact st') = (scast j, st) \<and>
    (case ui32_to_f64 j st of (w, st') \<Rightarrow> f64_to_ui32 w r exact st') = (ucast j, st) \<and>
    (case i64_to_f64 i st of (w, st') \<Rightarrow> f64_to_i64 w r exact st') = (i, st) \<and>
    (case ui64_to_f64 u st of (w, st') \<Rightarrow> f64_to_ui64 w r exact st') = (u, st)"
proof (intro conjI)
  note exact = rp64.of_int_to_int_exact [OF fmt_sizes(3) fmt_sizes(6)]
  have s32: "\<bar>sint j\<bar> < 2 ^ (52 + 1)" "- (2 ^ 31) \<le> sint j" "sint j \<le> 2 ^ 31 - 1"
    using sint_ge [of j] sint_lt [of j] by simp_all
  show "(case i32_to_f64 j st of (w, st') \<Rightarrow> f64_to_i32 w r exact st') = (scast j, st)"
    by (rule exact [OF s32 _ f64_to_32_spec(1)]) (simp only: i32_to_f64_spec ieee_of_int_signed, rule sint_eqI, simp only: sint_scast_32)
  have u32: "\<bar>uint j\<bar> < 2 ^ (52 + 1)" "0 \<le> uint j" "uint j \<le> 2 ^ 32 - 1"
    using uint_lt2p [of j] by simp_all
  show "(case ui32_to_f64 j st of (w, st') \<Rightarrow> f64_to_ui32 w r exact st') = (ucast j, st)"
    by (rule exact [OF u32 _ f64_to_32_spec(2)]) (simp only: ui32_to_f64_spec ieee_of_int_unsigned, rule word_uint_eqI, simp only: uint_ucast_32)
  have s64: "\<bar>sint i\<bar> < 2 ^ (52 + 1)" "- (2 ^ 63) \<le> sint i" "sint i \<le> 2 ^ 63 - 1"
    using assms(1) by simp_all
  show "(case i64_to_f64 i st of (w, st') \<Rightarrow> f64_to_i64 w r exact st') = (i, st)"
    by (rule exact [OF s64 _ f64_to_64_spec(1)]) (simp only: i64_to_f64_spec ieee_of_int_signed, rule sint_eqI, simp)
  have u64: "\<bar>uint u\<bar> < 2 ^ (52 + 1)" "0 \<le> uint u" "uint u \<le> 2 ^ 64 - 1"
    using assms(2) by simp_all
  show "(case ui64_to_f64 u st of (w, st') \<Rightarrow> f64_to_ui64 w r exact st') = (u, st)"
    by (rule exact [OF u64 _ f64_to_64_spec(2)]) (simp only: ui64_to_f64_spec ieee_of_int_unsigned, rule word_uint_eqI, simp)
qed

theorem int_float_int_roundtrip_witness:
  "(case i64_to_f64 (- 9007199254740991) softfloat_init of (w, st') \<Rightarrow> f64_to_i64 w 2 True st') =
   (- 9007199254740991, softfloat_init)"
  using int_float_int_roundtrip [where i = "- 9007199254740991" and u = 0 and st = softfloat_init and r = 2 and exact = True] by simp

section \<open>The range of the results\<close>

text \<open>
  The conversions to 32-bit integers return a value of a 64-bit type (\<^verbatim>\<open>int_fast32_t\<close>,
  \<^verbatim>\<open>uint_fast32_t\<close>); it is one that the 32-bit type has.
\<close>

definition signed_32 :: "64 word \<Rightarrow> bool" where
  "signed_32 w \<longleftrightarrow> - (2 ^ 31) \<le> sint w \<and> sint w \<le> 2 ^ 31 - 1"

definition unsigned_32 :: "64 word \<Rightarrow> bool" where
  "unsigned_32 w \<longleftrightarrow> uint w \<le> 2 ^ 32 - 1"

lemma to_int_range:
  "lo \<le> hi \<Longrightarrow> lo \<le> fst (ieee_to_int fb eb lo hi m e w st) \<and> fst (ieee_to_int fb eb lo hi m e w st) \<le> hi"
  by (auto simp: ieee_to_int_def int_overflow_def int_result_def int_deliver_def Let_def)

lemma signed_32I:
  assumes "map_prod sint id z = ieee_to_int fb eb (- (2 ^ 31)) (2 ^ 31 - 1) m e w st"
  shows "signed_32 (fst z)"
  using to_int_range [of "- (2 ^ 31)" "2 ^ 31 - 1" fb eb m e w st]
  unfolding assms [symmetric] by (simp add: signed_32_def)

lemma unsigned_32I:
  assumes "map_prod uint id z = ieee_to_int fb eb 0 (2 ^ 32 - 1) m e w st"
  shows "unsigned_32 (fst z)"
  using to_int_range [of 0 "2 ^ 32 - 1" fb eb m e w st]
  unfolding assms [symmetric] by (simp add: unsigned_32_def)

text \<open>
  For every operand, NaNs and infinities included, and every rounding mode, a conversion to a
  32-bit integer returns a value in the range of that integer type.
\<close>

lemma to_int_32_bounds:
  "signed_32 (fst (f16_to_i32 a r exact st)) \<and> unsigned_32 (fst (f16_to_ui32 a r exact st)) \<and>
    signed_32 (fst (f32_to_i32 b r exact st)) \<and> unsigned_32 (fst (f32_to_ui32 b r exact st)) \<and>
    signed_32 (fst (f64_to_i32 c r exact st)) \<and> unsigned_32 (fst (f64_to_ui32 c r exact st)) \<and>
    signed_32 (fst (f16_to_i32_r_minMag a exact st)) \<and> unsigned_32 (fst (f16_to_ui32_r_minMag a exact st)) \<and>
    signed_32 (fst (f32_to_i32_r_minMag b exact st)) \<and> unsigned_32 (fst (f32_to_ui32_r_minMag b exact st)) \<and>
    signed_32 (fst (f64_to_i32_r_minMag c exact st)) \<and> unsigned_32 (fst (f64_to_ui32_r_minMag c exact st))"
  by (intro conjI) (rule signed_32I unsigned_32I, rule f16_to_signed_spec f16_to_unsigned_spec f32_to_32_spec f64_to_32_spec f16_to_i32_r_minMag_spec f16_to_ui32_r_minMag_spec f32_to_i32_r_minMag_spec f32_to_ui32_r_minMag_spec f64_to_i32_r_minMag_spec f64_to_ui32_r_minMag_spec)+

end
