(* ===== verification/RV_Arith.thy ===== *)
theory RV_Arith
  imports C_Prelude
begin

text \<open>
  The arithmetic helpers of the simulator (\<^verbatim>\<open>riscv/arith.h\<close>): the high half of a 64-bit product by
  32-bit pieces, unsigned, signed and mixed, saturating addition and subtraction at every width, and
  bit-field masks.  Signed operands are the words themselves; where the code negates or multiplies
  signed integers the model wraps around.
\<close>

section \<open>High halves of products\<close>

definition mulhu :: "uint64_t \<Rightarrow> uint64_t \<Rightarrow> uint64_t" where
  "mulhu a b =
     (let a0 = ucast (ucast a :: uint32_t) :: uint64_t; a1 = drop_bit 32 a;
          b0 = ucast (ucast b :: uint32_t) :: uint64_t; b1 = drop_bit 32 b;
          t = a1 * b0 + drop_bit 32 (a0 * b0);
          y1 = ucast t :: uint32_t;
          y2 = ucast (drop_bit 32 t) :: uint32_t;
          t = a0 * b1 + ucast y1;
          y1 = ucast t :: uint32_t;
          t = a1 * b1 + ucast y2 + drop_bit 32 t;
          y2 = ucast t :: uint32_t;
          y3 = ucast (drop_bit 32 t) :: uint32_t
      in push_bit 32 (ucast y3) OR ucast y2)"

definition mulh :: "64 word \<Rightarrow> 64 word \<Rightarrow> 64 word" where
  "mulh a b =
     (let negate = ((sint a < 0) \<noteq> (sint b < 0));
          res = mulhu (if sint a < 0 then - a else a) (if sint b < 0 then - b else b)
      in if negate then NOT res + of_bool (a * b = 0) else res)"

definition mulhsu :: "64 word \<Rightarrow> uint64_t \<Rightarrow> 64 word" where
  "mulhsu a b =
     (let negate = (sint a < 0);
          res = mulhu (if sint a < 0 then - a else a) b
      in if negate then NOT res + of_bool (a * b = 0) else res)"

section \<open>Saturation\<close>

definition sat_add :: "'a::len word \<Rightarrow> 'a word \<Rightarrow> 'a word \<times> bool" where
  "sat_add x y =
     (let ux = x; uy = y; res = ux + uy;
          sh = LENGTH('a) - 1;
          ux = drop_bit sh ux + (push_bit sh 1 - 1)
      in if 0 \<le> sint ((ux XOR uy) OR NOT (uy XOR res)) then (ux, True) else (res, False))"

definition sat_sub :: "'a::len word \<Rightarrow> 'a word \<Rightarrow> 'a word \<times> bool" where
  "sat_sub x y =
     (let ux = x; uy = y; res = ux - uy;
          sh = LENGTH('a) - 1;
          ux = drop_bit sh ux + (push_bit sh 1 - 1)
      in if sint ((ux XOR uy) AND (ux XOR res)) < 0 then (ux, True) else (res, False))"

definition sat_addu :: "'a::len word \<Rightarrow> 'a word \<Rightarrow> 'a word \<times> bool" where
  "sat_addu x y =
     (let res = x + y; sat = (res < x) in (res OR - of_bool (res < x), sat))"

definition sat_subu :: "'a::len word \<Rightarrow> 'a word \<Rightarrow> 'a word \<times> bool" where
  "sat_subu x y =
     (let res = x - y; sat = (\<not> res \<le> x) in (res AND - of_bool (res \<le> x), sat))"

section \<open>Bit fields\<close>

text \<open>The assertions on the position and the length are the callers' obligation: a violation aborts.\<close>

definition extract64 :: "uint64_t \<Rightarrow> int \<Rightarrow> int \<Rightarrow> uint64_t option" where
  "extract64 val pos len =
     (if 0 \<le> pos \<and> 0 < len \<and> len \<le> 64 - pos
      then Some (drop_bit (nat pos) val AND drop_bit (nat (64 - len)) (NOT 0)) else None)"

definition make_mask64 :: "int \<Rightarrow> int \<Rightarrow> uint64_t option" where
  "make_mask64 pos len =
     (if 0 \<le> pos \<and> 0 < len \<and> pos < 64 \<and> len \<le> 64
      then Some (push_bit (nat pos) (drop_bit (nat (64 - len)) (- 1))) else None)"

section \<open>Products\<close>

lemma high_half:
  fixes B :: nat
  assumes "0 < B" and t_def: "t = a1 * b0 + a0 * b0 div B"
  shows "a1 * b1 + t div B + (a0 * b1 + t mod B) div B = (a1 * B + a0) * (b1 * B + b0) div (B * B)"
proof -
  have "(a1 * B + a0) * (b1 * B + b0) = (a1 * b1 * B + a1 * b0 + a0 * b1) * B + a0 * b0"
    by (simp add: algebra_simps)
  then have "(a1 * B + a0) * (b1 * B + b0) div B = a1 * b1 * B + (a0 * b1 + t)"
    using assms(1) by (simp add: t_def)
  then have "(a1 * B + a0) * (b1 * B + b0) div (B * B) = a1 * b1 + (a0 * b1 + t) div B"
    using assms(1) by (simp add: div_mult2_eq)
  also have "a0 * b1 + t = t div B * B + (a0 * b1 + t mod B)" by (simp add: algebra_simps)
  also have "(t div B * B + (a0 * b1 + t mod B)) div B = t div B + (a0 * b1 + t mod B) div B"
    using assms(1) by (simp only: div_mult_self3)
  finally show ?thesis by simp
qed

lemma split_or: "push_bit 32 (ucast (ucast (drop_bit 32 t) :: uint32_t)) OR ucast (ucast t :: uint32_t) = (t :: uint64_t)"
  by (rule bit_word_eqI) (auto simp: bit_simps)

lemma unat_mulhu: "unat (mulhu a b) = unat a * unat b div 2 ^ 64"
proof -
  define a1 a0 b1 b0 where "a1 = unat a div 2 ^ 32" and "a0 = unat a mod 2 ^ 32"
    and "b1 = unat b div 2 ^ 32" and "b0 = unat b mod 2 ^ 32"
  have a: "unat a = a1 * 2 ^ 32 + a0" and b: "unat b = b1 * 2 ^ 32 + b0"
    by (simp_all only: a1_def a0_def b1_def b0_def div_mult_mod_eq)
  have lt: "a1 < 2 ^ 32" "a0 < 2 ^ 32" "b1 < 2 ^ 32" "b0 < 2 ^ 32"
    using unat_lt_2p [of a] unat_lt_2p [of b] by (simp_all add: a1_def a0_def b1_def b0_def)
  have bound: "x * y \<le> (2 ^ 32 - 1) * (2 ^ 32 - 1)" if "x < 2 ^ 32" "y < 2 ^ 32" for x y :: nat
    using that by (intro mult_le_mono) auto
  define A0 B0 where "A0 = (ucast (ucast a :: uint32_t) :: uint64_t)" and "B0 = (ucast (ucast b :: uint32_t) :: uint64_t)"
  have p: "unat A0 = a0" "unat B0 = b0" "unat (drop_bit 32 a) = a1" "unat (drop_bit 32 b) = b1"
    by (simp_all add: A0_def B0_def unat_ucast unat_drop_bit a0_def a1_def b0_def b1_def)
  have mul: "unat (x * y) = unat x * unat y" if "unat x < 2 ^ 32" "unat y < 2 ^ 32" for x y :: uint64_t
    using bound [OF that] by (intro unat_mult_less) simp
  have prods: "unat (drop_bit 32 a * B0) = a1 * b0" "unat (A0 * B0) = a0 * b0"
    "unat (A0 * drop_bit 32 b) = a0 * b1" "unat (drop_bit 32 a * drop_bit 32 b) = a1 * b1"
    using mul [of "drop_bit 32 a" B0] mul [of A0 B0] mul [of A0 "drop_bit 32 b"] mul [of "drop_bit 32 a" "drop_bit 32 b"]
    unfolding p using lt by blast+
  define t1 where "t1 = drop_bit 32 a * B0 + drop_bit 32 (A0 * B0)"
  have q: "a0 * b0 div 2 ^ 32 < 2 ^ 32" using bound [OF lt(2,4)] by simp
  have t1: "unat t1 = a1 * b0 + a0 * b0 div 2 ^ 32"
    using bound [OF lt(1,4)] q lt unfolding t1_def by (subst unat_add_less) (simp_all add: prods unat_drop_bit)
  define t2 where "t2 = A0 * drop_bit 32 b + ucast (ucast t1 :: uint32_t)"
  have r: "unat t1 mod 2 ^ 32 < 2 ^ 32" by simp
  have t2: "unat t2 = a0 * b1 + unat t1 mod 2 ^ 32"
    using bound [OF lt(2,3)] r lt unfolding t2_def by (subst unat_add_less) (simp_all add: prods unat_ucast)
  define t3 where "t3 = drop_bit 32 a * drop_bit 32 b + ucast (ucast (drop_bit 32 t1) :: uint32_t) + drop_bit 32 t2"
  have code: "mulhu a b = t3"
    by (simp only: mulhu_def Let_def t3_def t2_def t1_def A0_def B0_def split_or)
  have h: "unat t < 2 ^ 64" "unat t div 2 ^ 32 < 2 ^ 32" for t :: uint64_t
    using unat_lt_2p [of t] by (simp_all add: less_mult_imp_div_less)
  have u: "unat (ucast (ucast (drop_bit 32 t1) :: uint32_t) :: uint64_t) = unat t1 div 2 ^ 32"
    using h(2) [of t1] by (simp add: unat_ucast unat_drop_bit)
  have 1: "unat (drop_bit 32 a * drop_bit 32 b + ucast (ucast (drop_bit 32 t1) :: uint32_t)) = a1 * b1 + unat t1 div 2 ^ 32"
    using bound [OF lt(1,3)] h(2) [of t1] lt by (subst unat_add_less) (simp_all add: prods u)
  have "unat t3 = a1 * b1 + unat t1 div 2 ^ 32 + unat t2 div 2 ^ 32"
    using bound [OF lt(1,3)] h(2) [of t1] h(2) [of t2] unfolding t3_def
    by (subst unat_add_less) (simp_all add: 1 unat_drop_bit)
  also have "\<dots> = (a1 * 2 ^ 32 + a0) * (b1 * 2 ^ 32 + b0) div (2 ^ 32 * 2 ^ 32)"
    unfolding t2 by (rule high_half) (simp_all add: t1)
  finally show ?thesis unfolding code a b by simp
qed

text \<open>The magnitude of a signed word, also of the least one.\<close>

lemma unat_abs: "unat (if sint a < 0 then - a else a :: 64 word) = nat \<bar>sint a\<bar>"
proof -
  have "(if sint a < 0 then - a else a) = word_of_int \<bar>sint a\<bar>" by (simp add: abs_if)
  moreover have "\<bar>sint a\<bar> < 2 ^ 64" using sint_lt [of a] sint_ge [of a] by auto
  ultimately show ?thesis using unat_word_of_int [of "\<bar>sint a\<bar>", where 'a = 64] by simp
qed

lemma word_of_int_eq_0: "(word_of_int k :: 64 word) = 0 \<longleftrightarrow> k mod 2 ^ 64 = 0"
  by (simp add: word_of_int_eq_0_iff dvd_eq_mod_eq_0)

text \<open>Negating a product is negating its high half with the borrow of the low one.\<close>

lemma word_of_high_half:
  assumes "unat res = nat P div 2 ^ 64" "0 \<le> P"
  shows "res = (word_of_int (P div 2 ^ 64) :: 64 word)"
proof -
  have "res = word_of_nat (nat P div 2 ^ 64)" unfolding assms(1) [symmetric] by simp
  also have "int (nat P div 2 ^ 64) = P div 2 ^ 64" using assms(2) by (simp add: zdiv_int)
  then have "(word_of_nat (nat P div 2 ^ 64) :: 64 word) = word_of_int (P div 2 ^ 64)" by (metis of_int_of_nat_eq)
  finally show ?thesis .
qed

lemma high_half_neg:
  assumes "unat res = nat P div 2 ^ 64" "0 \<le> P" "k = - P"
  shows "NOT res + of_bool ((word_of_int k :: 64 word) = 0) = (word_of_int (k div 2 ^ 64) :: 64 word)"
proof -
  have res: "res = word_of_int (P div 2 ^ 64)" by (rule word_of_high_half [OF assms(1,2)])
  have "k div 2 ^ 64 = (if P mod 2 ^ 64 = 0 then - (P div 2 ^ 64) else - (P div 2 ^ 64) - 1)"
    unfolding assms(3) by (rule zdiv_zminus1_eq_if) simp
  moreover have "(word_of_int k :: 64 word) = 0 \<longleftrightarrow> P mod 2 ^ 64 = 0"
    unfolding word_of_int_eq_0 assms(3) by (simp add: mod_eq_0_iff_dvd)
  ultimately show ?thesis by (simp add: res not_eq_complement)
qed

lemma mulh_correct: "mulh a b = word_of_int (sint a * sint b div 2 ^ 64)"
proof -
  define res where "res = mulhu (if sint a < 0 then - a else a) (if sint b < 0 then - b else b)"
  define P where "P = \<bar>sint a\<bar> * \<bar>sint b\<bar>"
  have P: "unat res = nat P div 2 ^ 64" "0 \<le> P"
    unfolding res_def unat_mulhu unat_abs by (simp_all add: P_def nat_mult_distrib)
  have ab: "a * b = word_of_int (sint a * sint b)" by simp
  show ?thesis
  proof (cases "(sint a < 0) \<noteq> (sint b < 0)")
    case True
    then have "sint a * sint b = - P" by (auto simp: P_def abs_if)
    from high_half_neg [OF P this] show ?thesis
      using True by (simp only: mulh_def Let_def res_def [symmetric] ab if_True not_False_eq_True)
  next
    case False
    then have k: "sint a * sint b = P" by (auto simp: P_def abs_if)
    have "mulh a b = res" using False by (simp add: mulh_def Let_def res_def)
    then show ?thesis unfolding k using word_of_high_half [OF P] by simp
  qed
qed

lemma mulhsu_correct: "mulhsu a b = word_of_int (sint a * uint b div 2 ^ 64)"
proof -
  define res where "res = mulhu (if sint a < 0 then - a else a) b"
  define P where "P = \<bar>sint a\<bar> * uint b"
  have P: "unat res = nat P div 2 ^ 64" "0 \<le> P"
    unfolding res_def unat_mulhu unat_abs by (simp_all add: P_def nat_mult_distrib)
  have ab: "a * b = word_of_int (sint a * uint b)" by simp
  show ?thesis
  proof (cases "sint a < 0")
    case True
    then have "sint a * uint b = - P" by (simp add: P_def)
    note neg = high_half_neg [OF P this]
    have "mulhsu a b = NOT res + of_bool (a * b = 0)" using True by (simp add: mulhsu_def res_def Let_def)
    then show ?thesis by (simp only: ab neg)
  next
    case False
    then have k: "sint a * uint b = P" by (simp add: P_def)
    have "mulhsu a b = res" using False by (simp add: mulhsu_def Let_def res_def)
    then show ?thesis unfolding k using word_of_high_half [OF P] by simp
  qed
qed

section \<open>Saturation is clamping\<close>

lemma signed_wrap:
  fixes k :: int
  assumes "- 2 * 2 ^ n \<le> k" "k < 2 * 2 ^ n"
  shows "signed_take_bit n k = (if k < - (2 ^ n) then k + 2 * 2 ^ n else if 2 ^ n \<le> k then k - 2 * 2 ^ n else k)"
proof -
  define M :: int where "M = 2 ^ n"
  have "0 < M" by (simp add: M_def)
  have "signed_take_bit n k = (k + M) mod (2 * M) - M"
    by (simp add: signed_take_bit_eq_take_bit_shift take_bit_eq_mod M_def)
  also have "(k + M) mod (2 * M) = (if k < - M then k + 3 * M else if M \<le> k then k - M else k + M)"
  proof -
    consider "k < - M" | "M \<le> k" | "- M \<le> k" "k < M" by linarith
    then show ?thesis
    proof cases
      case 1
      have "(k + M) mod (2 * M) = (k + M + 1 * (2 * M)) mod (2 * M)" by (simp only: mod_mult_self1)
      also have "\<dots> = k + 3 * M" using 1 assms(1) by (subst mod_pos_pos_trivial) (simp_all add: M_def)
      finally show ?thesis using 1 by simp
    next
      case 2
      have "k + M = k - M + 1 * (2 * M)" by simp
      then have "(k + M) mod (2 * M) = (k - M + 1 * (2 * M)) mod (2 * M)" by (simp only:)
      also have "\<dots> = (k - M) mod (2 * M)" by (simp only: mod_mult_self1)
      also have "\<dots> = k - M" using 2 assms(2) by (intro mod_pos_pos_trivial) (simp_all add: M_def)
      finally show ?thesis using 2 \<open>0 < M\<close> by simp
    next
      case 3
      then show ?thesis by (simp add: mod_pos_pos_trivial)
    qed
  qed
  finally show ?thesis using \<open>0 < M\<close> by (simp add: M_def)
qed

lemma sint_sign: "sint (w :: 'a::len word) < 0 \<longleftrightarrow> bit w (LENGTH('a) - 1)"
  by (simp add: bit_last_iff)

lemma sint_bounds: "- (2 ^ (LENGTH('a) - 1)) \<le> sint (w :: 'a::len word)" "sint w < 2 ^ (LENGTH('a) - 1)"
  by (rule sint_ge, rule sint_lt)

text \<open>The saturated value: the least or the greatest signed word, by the sign of the first operand.\<close>

lemma sint_word_of_int_self:
  assumes "- (2 ^ (LENGTH('a) - 1)) \<le> k" "k < 2 ^ (LENGTH('a) - 1)"
  shows "sint (word_of_int k :: 'a::len word) = k"
  using assms by (simp add: signed_of_int signed_take_bit_int_eq_self)

lemma least_word: "(push_bit (LENGTH('a) - 1) 1 :: 'a::len word) = word_of_int (- (2 ^ (LENGTH('a) - 1)))"
proof -
  define M :: int where "M = 2 ^ (LENGTH('a) - 1)"
  have M: "0 < M" "2 ^ LENGTH('a) = 2 * M" by (simp_all add: M_def flip: power_Suc)
  have "take_bit LENGTH('a) M = take_bit LENGTH('a) (- M)"
    using M by (simp add: take_bit_eq_mod zmod_zminus1_eq_if)
  then have "(word_of_int M :: 'a word) = word_of_int (- M)" by (rule word_of_int_eq_iff [THEN iffD2])
  then show ?thesis by (simp add: push_bit_of_1 M_def)
qed

lemma sat_value:
  fixes x :: "'a::len word"
  shows "sint (drop_bit (LENGTH('a) - 1) x + (push_bit (LENGTH('a) - 1) 1 - 1)) =
    (if sint x < 0 then - (2 ^ (LENGTH('a) - 1)) else 2 ^ (LENGTH('a) - 1) - 1)"
proof -
  let ?sh = "LENGTH('a) - 1"
  have b: "bit x (?sh + k) \<longleftrightarrow> k = 0 \<and> sint x < 0" for k
    using bit_imp_le_length [of x "?sh + k"] sint_sign [of x] by (cases k) auto
  have top: "drop_bit ?sh x = of_bool (sint x < 0)"
    by (rule bit_word_eqI) (simp only: bit_drop_bit_eq comp_apply b bit_of_bool_iff)
  have "(push_bit ?sh 1 :: 'a word) = word_of_int (2 ^ ?sh)" by (simp add: push_bit_of_1)
  then have pos: "(push_bit ?sh 1 - 1 :: 'a word) = word_of_int (2 ^ ?sh - 1)" by simp
  show ?thesis
  proof (cases "sint x < 0")
    case True
    then have "drop_bit ?sh x + (push_bit ?sh 1 - 1) = word_of_int (- (2 ^ ?sh))"
      unfolding top least_word by simp
    then show ?thesis using True sint_word_of_int_self [of "- (2 ^ ?sh)", where 'a = 'a] by (simp only:) simp
  next
    case False
    then have "drop_bit ?sh x + (push_bit ?sh 1 - 1) = word_of_int (2 ^ ?sh - 1)"
      unfolding top pos by simp
    then show ?thesis using False sint_word_of_int_self [of "2 ^ ?sh - 1", where 'a = 'a] by (simp only:) simp
  qed
qed

lemma or_xor_sign:
  "0 \<le> sint ((u XOR y) OR NOT (y XOR r)) \<longleftrightarrow> (sint u < 0) = (sint y < 0) \<and> (sint r < 0) \<noteq> (sint (y :: 'a::len word) < 0)"
  unfolding not_less [symmetric] sint_sign by (auto simp: bit_simps)

lemma and_xor_sign:
  "sint ((u XOR y) AND (u XOR r)) < 0 \<longleftrightarrow> (sint u < 0) \<noteq> (sint y < 0) \<and> (sint r < 0) \<noteq> (sint (u :: 'a::len word) < 0)"
  unfolding sint_sign by (auto simp: bit_simps)

text \<open>
  Saturating addition and subtraction, at every width: the result is the exact signed sum or
  difference clamped to the range of the type, and the flag tells whether it was clamped.
\<close>

lemma saturating_signed:
  fixes x y :: "'a::len word"
  defines "lo \<equiv> - (2 ^ (LENGTH('a) - 1)) :: int" and "hi \<equiv> 2 ^ (LENGTH('a) - 1) - 1 :: int"
  shows "map_prod sint id (sat_add x y) =
      (max lo (min hi (sint x + sint y)), sint x + sint y < lo \<or> hi < sint x + sint y) \<and>
    map_prod sint id (sat_sub x y) =
      (max lo (min hi (sint x - sint y)), sint x - sint y < lo \<or> hi < sint x - sint y)"
proof -
  define M :: int where "M = 2 ^ (LENGTH('a) - 1)"
  define u where "u = drop_bit (LENGTH('a) - 1) x + (push_bit (LENGTH('a) - 1) 1 - 1)"
  have u: "sint u = (if sint x < 0 then - M else M - 1)" unfolding u_def M_def by (rule sat_value)
  have M: "0 < M" "lo = - M" "hi = M - 1" by (simp_all add: M_def lo_def hi_def)
  have x: "- M \<le> sint x" "sint x < M" and y: "- M \<le> sint y" "sint y < M"
    unfolding M_def using sint_bounds by blast+
  have wrap: "signed_take_bit (LENGTH('a) - 1) k = (if k < - M then k + 2 * M else if M \<le> k then k - 2 * M else k)"
    if "- 2 * M \<le> k" "k < 2 * M" for k
    using signed_wrap [of "LENGTH('a) - 1" k] that unfolding M_def by blast
  have sum_range: "- 2 * M \<le> sint x + sint y" "sint x + sint y < 2 * M"
    and diff_range: "- 2 * M \<le> sint x - sint y" "sint x - sint y < 2 * M" using x y by linarith+
  have add: "sint (x + y) = signed_take_bit (LENGTH('a) - 1) (sint x + sint y)"
    and sub: "sint (x - y) = signed_take_bit (LENGTH('a) - 1) (sint x - sint y)"
    by (rule sint_word_add, rule sint_word_diff)
  note sums = add [unfolded wrap [OF sum_range]] sub [unfolded wrap [OF diff_range]]
  have "sat_add x y = (if 0 \<le> sint ((u XOR y) OR NOT (y XOR (x + y))) then (u, True) else (x + y, False))"
    "sat_sub x y = (if sint ((u XOR y) AND (u XOR (x - y))) < 0 then (u, True) else (x - y, False))"
    by (simp_all only: sat_add_def sat_sub_def Let_def u_def)
  then show ?thesis
    using x y M(1) unfolding or_xor_sign and_xor_sign u sums M(2,3)
    by (intro conjI) (auto simp: u sums)
qed

text \<open>Unsigned saturation: the sum or difference clamped to the range of the type, and the flag.\<close>

lemma saturating_unsigned:
  fixes x y :: "'a::len word"
  shows "map_prod uint id (sat_addu x y) =
      (min (2 ^ LENGTH('a) - 1) (uint x + uint y), 2 ^ LENGTH('a) \<le> uint x + uint y) \<and>
    map_prod uint id (sat_subu x y) = (max 0 (uint x - uint y), uint x < uint y)"
proof -
  define W :: int where "W = 2 ^ LENGTH('a)"
  have x: "0 \<le> uint x" "uint x < W" and y: "0 \<le> uint y" "uint y < W" by (simp_all add: W_def)
  have max: "uint (- 1 :: 'a word) = W - 1" by (simp only: unsigned_minus_1_eq_mask mask_eq_exp_minus_1 W_def)
  have add: "uint (x + y) = (if uint x + uint y < W then uint x + uint y else uint x + uint y - W)"
    unfolding W_def by (rule uint_plus_if')
  have sub: "uint (x - y) = (if uint y \<le> uint x then uint x - uint y else uint x - uint y + W)"
    unfolding W_def by (rule uint_sub_if')
  have over: "x + y < x \<longleftrightarrow> W \<le> uint x + uint y" using x y unfolding word_less_def add by auto
  have under: "x - y \<le> x \<longleftrightarrow> uint y \<le> uint x" using x y unfolding word_le_def sub by auto
  have "map_prod uint id (sat_addu x y) = (min (W - 1) (uint x + uint y), W \<le> uint x + uint y)"
    unfolding sat_addu_def Let_def over using x y add max by auto
  moreover have "map_prod uint id (sat_subu x y) = (max 0 (uint x - uint y), uint x < uint y)"
    unfolding sat_subu_def Let_def under using x y sub by auto
  ultimately show ?thesis unfolding W_def by blast
qed

text \<open>
  C27.  Saturating addition and subtraction, signed and unsigned, at every width: the result is the exact
  sum or difference clamped to the range of the type, and the flag tells whether it was clamped.
\<close>

theorem saturation_clamps:
  fixes x y :: "'a::len word"
  defines "lo \<equiv> - (2 ^ (LENGTH('a) - 1)) :: int" and "hi \<equiv> 2 ^ (LENGTH('a) - 1) - 1 :: int"
  shows "map_prod sint id (sat_add x y) =
      (max lo (min hi (sint x + sint y)), sint x + sint y < lo \<or> hi < sint x + sint y) \<and>
    map_prod sint id (sat_sub x y) =
      (max lo (min hi (sint x - sint y)), sint x - sint y < lo \<or> hi < sint x - sint y) \<and>
    map_prod uint id (sat_addu x y) =
      (min (2 ^ LENGTH('a) - 1) (uint x + uint y), 2 ^ LENGTH('a) \<le> uint x + uint y) \<and>
    map_prod uint id (sat_subu x y) = (max 0 (uint x - uint y), uint x < uint y)"
  unfolding lo_def hi_def
  using saturating_signed [where x = x and y = y] saturating_unsigned [where x = x and y = y] by simp

section \<open>Products and bit fields\<close>

text \<open>
  The high halves are exact: the upper 64 bits of the 128-bit product of the operands read as
  unsigned, as signed, or the first as signed and the second as unsigned, for all operands.
\<close>

lemma high_products_exact:
  "unat (mulhu a b) = unat a * unat b div 2 ^ 64 \<and>
   mulh a b = word_of_int (sint a * sint b div 2 ^ 64) \<and>
   mulhsu a b = word_of_int (sint a * uint b div 2 ^ 64)"
  by (intro conjI unat_mulhu mulh_correct mulhsu_correct)

lemma drop_ones: "n \<le> 64 \<Longrightarrow> drop_bit (64 - n) (- 1) = (mask n :: uint64_t)"
  by (rule bit_word_eqI) (auto simp: bit_simps)

text \<open>
  A field of a 64-bit word is extracted when it lies inside the word and is not empty, and a mask
  covers exactly the bits of the field; other arguments fail the assertion.
\<close>

lemma bit_field_access:
  "extract64 val pos len =
     (if 0 \<le> pos \<and> 0 < len \<and> pos + len \<le> 64 then Some (take_bit (nat len) (drop_bit (nat pos) val)) else None) \<and>
   make_mask64 pos len =
     (if 0 \<le> pos \<and> pos < 64 \<and> 0 < len \<and> len \<le> 64 then Some (push_bit (nat pos) (mask (nat len))) else None)"
proof -
  have "drop_bit (nat (64 - len)) (- 1) = (mask (nat len) :: uint64_t)" if "0 < len" "len \<le> 64"
    using drop_ones [of "nat len"] that by (simp add: nat_diff_distrib)
  then show ?thesis by (auto simp: extract64_def make_mask64_def take_bit_eq_mask)
qed

end
