(* ===== verification/RV_Decode.thy ===== *)
theory RV_Decode
  imports C_Prelude
begin

text \<open>
  Instruction words of the simulator: the field and immediate accessors of \<^verbatim>\<open>insn_t\<close>
  (\<^verbatim>\<open>riscv/decode.h\<close>), the assembly of an instruction word from half-words
  (\<^verbatim>\<open>riscv/mmu.h\<close>) and the encoders the debug module uses (\<^verbatim>\<open>riscv/opcodes.h\<close>), with the round
  trips between them.
\<close>

section \<open>Decoding\<close>

type_synonym insn_bits_t = "64 word"
type_synonym reg_t = "64 word"

definition insn_length :: "insn_bits_t \<Rightarrow> nat" where
  "insn_length x =
     (if x AND 0x03 < 0x03 then 2
      else if x AND 0x1f < 0x1f then 4
      else if x AND 0x3f < 0x3f then 6
      else 8)"

text \<open>
  The private accessors: a field of the word, the same field sign-extended by a left and an
  arithmetic right shift, and the sign of the immediate.
\<close>

definition insn_x :: "insn_bits_t \<Rightarrow> nat \<Rightarrow> nat \<Rightarrow> uint64_t" where
  "insn_x b lo len = drop_bit lo b AND (push_bit len 1 - 1)"

definition insn_xs :: "insn_bits_t \<Rightarrow> nat \<Rightarrow> nat \<Rightarrow> uint64_t" where
  "insn_xs b lo len = signed_drop_bit (64 - len) (push_bit (64 - lo - len) b)"

definition imm_sign :: "insn_bits_t \<Rightarrow> uint64_t" where
  "imm_sign b = insn_xs b 63 1"

text \<open>
  The bits of the instruction proper.  For an 8-byte instruction the shift count is the width of the
  type, which C++ leaves undefined: there is no value then.
\<close>

definition insn_bits :: "insn_bits_t \<Rightarrow> insn_bits_t option" where
  "insn_bits b =
     (if insn_length b * 8 < 64 then Some (b AND NOT (push_bit (insn_length b * 8) (- 1))) else None)"

definition i_imm :: "insn_bits_t \<Rightarrow> int64_t" where
  "i_imm b = signed_drop_bit 20 b"

definition insn_shamt :: "insn_bits_t \<Rightarrow> int64_t" where
  "insn_shamt b = insn_x b 20 6"

definition s_imm :: "insn_bits_t \<Rightarrow> int64_t" where
  "s_imm b = insn_x b 7 5 + push_bit 5 (insn_xs b 25 7)"

definition sb_imm :: "insn_bits_t \<Rightarrow> int64_t" where
  "sb_imm b = push_bit 1 (insn_x b 8 4) + push_bit 5 (insn_x b 25 6) + push_bit 11 (insn_x b 7 1) + push_bit 12 (imm_sign b)"

definition u_imm :: "insn_bits_t \<Rightarrow> int64_t" where
  "u_imm b = push_bit 12 (signed_drop_bit 12 b)"

definition uj_imm :: "insn_bits_t \<Rightarrow> int64_t" where
  "uj_imm b = push_bit 1 (insn_x b 21 10) + push_bit 11 (insn_x b 20 1) + push_bit 12 (insn_x b 12 8) + push_bit 20 (imm_sign b)"

definition insn_rd :: "insn_bits_t \<Rightarrow> uint64_t" where
  "insn_rd b = insn_x b 7 5"

definition insn_rs1 :: "insn_bits_t \<Rightarrow> uint64_t" where
  "insn_rs1 b = insn_x b 15 5"

definition insn_rs2 :: "insn_bits_t \<Rightarrow> uint64_t" where
  "insn_rs2 b = insn_x b 20 5"

definition insn_rs3 :: "insn_bits_t \<Rightarrow> uint64_t" where
  "insn_rs3 b = insn_x b 27 5"

definition insn_rm :: "insn_bits_t \<Rightarrow> uint64_t" where
  "insn_rm b = insn_x b 12 3"

definition insn_csr :: "insn_bits_t \<Rightarrow> uint64_t" where
  "insn_csr b = insn_x b 20 12"

text \<open>The compressed formats.\<close>

definition rvc_imm :: "insn_bits_t \<Rightarrow> int64_t" where
  "rvc_imm b = insn_x b 2 5 + push_bit 5 (insn_xs b 12 1)"

definition rvc_zimm :: "insn_bits_t \<Rightarrow> int64_t" where
  "rvc_zimm b = insn_x b 2 5 + push_bit 5 (insn_x b 12 1)"

definition rvc_addi4spn_imm :: "insn_bits_t \<Rightarrow> int64_t" where
  "rvc_addi4spn_imm b = push_bit 2 (insn_x b 6 1) + push_bit 3 (insn_x b 5 1) + push_bit 4 (insn_x b 11 2) + push_bit 6 (insn_x b 7 4)"

definition rvc_addi16sp_imm :: "insn_bits_t \<Rightarrow> int64_t" where
  "rvc_addi16sp_imm b = push_bit 4 (insn_x b 6 1) + push_bit 5 (insn_x b 2 1) + push_bit 6 (insn_x b 5 1) + push_bit 7 (insn_x b 3 2) + push_bit 9 (insn_xs b 12 1)"

definition rvc_lwsp_imm :: "insn_bits_t \<Rightarrow> int64_t" where
  "rvc_lwsp_imm b = push_bit 2 (insn_x b 4 3) + push_bit 5 (insn_x b 12 1) + push_bit 6 (insn_x b 2 2)"

definition rvc_ldsp_imm :: "insn_bits_t \<Rightarrow> int64_t" where
  "rvc_ldsp_imm b = push_bit 3 (insn_x b 5 2) + push_bit 5 (insn_x b 12 1) + push_bit 6 (insn_x b 2 3)"

definition rvc_swsp_imm :: "insn_bits_t \<Rightarrow> int64_t" where
  "rvc_swsp_imm b = push_bit 2 (insn_x b 9 4) + push_bit 6 (insn_x b 7 2)"

definition rvc_sdsp_imm :: "insn_bits_t \<Rightarrow> int64_t" where
  "rvc_sdsp_imm b = push_bit 3 (insn_x b 10 3) + push_bit 6 (insn_x b 7 3)"

definition rvc_lw_imm :: "insn_bits_t \<Rightarrow> int64_t" where
  "rvc_lw_imm b = push_bit 2 (insn_x b 6 1) + push_bit 3 (insn_x b 10 3) + push_bit 6 (insn_x b 5 1)"

definition rvc_ld_imm :: "insn_bits_t \<Rightarrow> int64_t" where
  "rvc_ld_imm b = push_bit 3 (insn_x b 10 3) + push_bit 6 (insn_x b 5 2)"

definition rvc_j_imm :: "insn_bits_t \<Rightarrow> int64_t" where
  "rvc_j_imm b = push_bit 1 (insn_x b 3 3) + push_bit 4 (insn_x b 11 1) + push_bit 5 (insn_x b 2 1) + push_bit 6 (insn_x b 7 1) + push_bit 7 (insn_x b 6 1) + push_bit 8 (insn_x b 9 2) + push_bit 10 (insn_x b 8 1) + push_bit 11 (insn_xs b 12 1)"

definition rvc_b_imm :: "insn_bits_t \<Rightarrow> int64_t" where
  "rvc_b_imm b = push_bit 1 (insn_x b 3 2) + push_bit 3 (insn_x b 10 2) + push_bit 5 (insn_x b 2 1) + push_bit 6 (insn_x b 5 2) + push_bit 8 (insn_xs b 12 1)"

definition rvc_rs2 :: "insn_bits_t \<Rightarrow> uint64_t" where
  "rvc_rs2 b = insn_x b 2 5"

definition rvc_rs1s :: "insn_bits_t \<Rightarrow> uint64_t" where
  "rvc_rs1s b = 8 + insn_x b 7 3"

definition rvc_rs2s :: "insn_bits_t \<Rightarrow> uint64_t" where
  "rvc_rs2s b = 8 + insn_x b 2 3"

section \<open>Fetching\<close>

text \<open>
  The instruction word from the half-words at the address and after it: the last one is
  sign-extended, so that the immediates can be read off the top of the word.
\<close>

definition fetch_insn :: "uint16_t \<Rightarrow> uint16_t \<Rightarrow> uint16_t \<Rightarrow> uint16_t \<Rightarrow> insn_bits_t" where
  "fetch_insn h0 h2 h4 h6 =
     (let insn = ucast h0 :: insn_bits_t; len = insn_length insn
      in if len = 4 then insn OR push_bit 16 (scast h2)
         else if len = 2 then scast (ucast insn :: uint16_t)
         else if len = 6 then insn OR push_bit 32 (scast h4) OR push_bit 16 (ucast h2)
         else insn OR push_bit 48 (scast h6) OR push_bit 32 (ucast h4) OR push_bit 16 (ucast h2))"

section \<open>Encoding\<close>

definition op_bits :: "uint32_t \<Rightarrow> nat \<Rightarrow> nat \<Rightarrow> uint32_t" where
  "op_bits value hi lo = drop_bit lo value AND (push_bit (hi + 1 - lo) 1 - 1)"

definition op_bit :: "uint32_t \<Rightarrow> nat \<Rightarrow> uint32_t" where
  "op_bit value b = drop_bit b value AND 1"

definition op_jal :: "uint32_t \<Rightarrow> uint32_t \<Rightarrow> uint32_t" where
  "op_jal rd imm =
     push_bit 31 (op_bit imm 20) OR push_bit 21 (op_bits imm 10 1) OR push_bit 20 (op_bit imm 11) OR
     push_bit 12 (op_bits imm 19 12) OR push_bit 7 rd OR 0x6f"

definition op_csrsi :: "uint32_t \<Rightarrow> uint16_t \<Rightarrow> uint32_t" where
  "op_csrsi csr imm = push_bit 20 csr OR push_bit 15 (op_bits (ucast imm) 4 0) OR 0x6073"

definition op_sw :: "uint32_t \<Rightarrow> uint32_t \<Rightarrow> uint16_t \<Rightarrow> uint32_t" where
  "op_sw src base offset =
     push_bit 25 (op_bits (ucast offset) 11 5) OR push_bit 20 src OR push_bit 15 base OR
     push_bit 7 (op_bits (ucast offset) 4 0) OR 0x2023"

definition op_sd :: "uint32_t \<Rightarrow> uint32_t \<Rightarrow> uint16_t \<Rightarrow> uint32_t" where
  "op_sd src base offset =
     push_bit 25 (op_bits (ucast offset) 11 5) OR push_bit 20 src OR push_bit 15 base OR
     push_bit 7 (op_bits (ucast offset) 4 0) OR 0x3023"

definition op_sh :: "uint32_t \<Rightarrow> uint32_t \<Rightarrow> uint16_t \<Rightarrow> uint32_t" where
  "op_sh src base offset =
     push_bit 25 (op_bits (ucast offset) 11 5) OR push_bit 20 src OR push_bit 15 base OR
     push_bit 7 (op_bits (ucast offset) 4 0) OR 0x1023"

definition op_sb :: "uint32_t \<Rightarrow> uint32_t \<Rightarrow> uint16_t \<Rightarrow> uint32_t" where
  "op_sb src base offset =
     push_bit 25 (op_bits (ucast offset) 11 5) OR push_bit 20 src OR push_bit 15 base OR
     push_bit 7 (op_bits (ucast offset) 4 0) OR 0x23"

definition op_ld :: "uint32_t \<Rightarrow> uint32_t \<Rightarrow> uint16_t \<Rightarrow> uint32_t" where
  "op_ld rd base offset =
     push_bit 20 (op_bits (ucast offset) 11 0) OR push_bit 15 base OR push_bit 7 (op_bits rd 4 0) OR 0x3003"

definition op_lw :: "uint32_t \<Rightarrow> uint32_t \<Rightarrow> uint16_t \<Rightarrow> uint32_t" where
  "op_lw rd base offset =
     push_bit 20 (op_bits (ucast offset) 11 0) OR push_bit 15 base OR push_bit 7 (op_bits rd 4 0) OR 0x2003"

definition op_lh :: "uint32_t \<Rightarrow> uint32_t \<Rightarrow> uint16_t \<Rightarrow> uint32_t" where
  "op_lh rd base offset =
     push_bit 20 (op_bits (ucast offset) 11 0) OR push_bit 15 base OR push_bit 7 (op_bits rd 4 0) OR 0x1003"

definition op_lb :: "uint32_t \<Rightarrow> uint32_t \<Rightarrow> uint16_t \<Rightarrow> uint32_t" where
  "op_lb rd base offset =
     push_bit 20 (op_bits (ucast offset) 11 0) OR push_bit 15 base OR push_bit 7 (op_bits rd 4 0) OR 0x3"

definition op_csrw :: "uint32_t \<Rightarrow> uint32_t \<Rightarrow> uint32_t" where
  "op_csrw source csr = push_bit 20 csr OR push_bit 15 source OR 0x1073"

definition op_addi :: "uint32_t \<Rightarrow> uint32_t \<Rightarrow> uint16_t \<Rightarrow> uint32_t" where
  "op_addi dest src imm = push_bit 20 (op_bits (ucast imm) 11 0) OR push_bit 15 src OR push_bit 7 dest OR 0x13"

definition op_csrr :: "uint32_t \<Rightarrow> uint32_t \<Rightarrow> uint32_t" where
  "op_csrr rd csr = push_bit 20 csr OR push_bit 7 rd OR 0x2073"

definition op_csrrs :: "uint32_t \<Rightarrow> uint32_t \<Rightarrow> uint32_t \<Rightarrow> uint32_t" where
  "op_csrrs rd rs1 csr = push_bit 20 csr OR push_bit 15 rs1 OR push_bit 7 rd OR 0x2073"

definition op_fsw :: "uint32_t \<Rightarrow> uint32_t \<Rightarrow> uint16_t \<Rightarrow> uint32_t" where
  "op_fsw src base offset =
     push_bit 25 (op_bits (ucast offset) 11 5) OR push_bit 20 (op_bits src 4 0) OR push_bit 15 base OR
     push_bit 7 (op_bits (ucast offset) 4 0) OR 0x2027"

definition op_fsd :: "uint32_t \<Rightarrow> uint32_t \<Rightarrow> uint16_t \<Rightarrow> uint32_t" where
  "op_fsd src base offset =
     push_bit 25 (op_bits (ucast offset) 11 5) OR push_bit 20 (op_bits src 4 0) OR push_bit 15 base OR
     push_bit 7 (op_bits (ucast offset) 4 0) OR 0x3027"

definition op_flw :: "uint32_t \<Rightarrow> uint32_t \<Rightarrow> uint16_t \<Rightarrow> uint32_t" where
  "op_flw dest base offset =
     push_bit 20 (op_bits (ucast offset) 11 0) OR push_bit 15 base OR push_bit 7 (op_bits dest 4 0) OR 0x2007"

definition op_fld :: "uint32_t \<Rightarrow> uint32_t \<Rightarrow> uint16_t \<Rightarrow> uint32_t" where
  "op_fld dest base offset =
     push_bit 20 (op_bits (ucast offset) 11 0) OR push_bit 15 base OR push_bit 7 (op_bits dest 4 0) OR 0x3007"

definition op_lui :: "uint32_t \<Rightarrow> uint32_t \<Rightarrow> uint32_t" where
  "op_lui dest imm = push_bit 12 (op_bits imm 19 0) OR push_bit 7 dest OR 0x37"

definition op_xori :: "uint32_t \<Rightarrow> uint32_t \<Rightarrow> uint16_t \<Rightarrow> uint32_t" where
  "op_xori dest src imm = push_bit 20 (op_bits (ucast imm) 11 0) OR push_bit 15 src OR push_bit 7 dest OR 0x4013"

definition op_srli :: "uint32_t \<Rightarrow> uint32_t \<Rightarrow> uint8_t \<Rightarrow> uint32_t" where
  "op_srli dest src shamt = push_bit 20 (op_bits (ucast shamt) 4 0) OR push_bit 15 src OR push_bit 7 dest OR 0x5013"

section \<open>Fields\<close>

lemma mask_minus_1: "push_bit n 1 - 1 = (mask n :: 'a::len word)"
  by (simp add: mask_eq_exp_minus_1 push_bit_eq_mult)

lemma insn_x_eq: "insn_x b lo len = take_bit len (drop_bit lo b)"
  by (simp only: insn_x_def mask_minus_1 take_bit_eq_mask)

lemma op_bits_eq: "op_bits v hi lo = take_bit (hi + 1 - lo) (drop_bit lo v)"
  by (simp only: op_bits_def mask_minus_1 take_bit_eq_mask)

lemma op_bit_eq: "op_bit v b = take_bit 1 (drop_bit b v)"
  by (simp add: op_bit_def take_bit_eq_mask mask_eq_exp_minus_1)

lemma insn_xs_eq:
  assumes "lo + len \<le> 64" "0 < len"
  shows "insn_xs b lo len = signed_take_bit (len - 1) (drop_bit lo b)"
proof (rule bit_word_eqI)
  fix n assume n: "n < LENGTH(64)"
  define m where "m = (if n < len then n else len - 1)"
  have "min (64 - len + n) 63 - (64 - lo - len) = lo + m" and lt: "lo + m < 64"
    and "64 - lo - len \<le> min (64 - len + n) 63"
    using assms by (auto simp: m_def)
  then have "bit (insn_xs b lo len) n = bit b (lo + m)"
    using n assms by (auto simp: insn_xs_def bit_simps add.commute)
  moreover have "min (len - 1) n = m" using assms by (auto simp: m_def)
  then have "bit (signed_take_bit (len - 1) (drop_bit lo b)) n = bit b (lo + m)"
    using n lt by (simp add: bit_signed_take_bit_iff bit_drop_bit_eq)
  ultimately show "bit (insn_xs b lo len) n = bit (signed_take_bit (len - 1) (drop_bit lo b)) n" by simp
qed

text \<open>The field of \<open>len\<close> bits at \<open>lo\<close>, and how it reads a word that is a union of shifted fields.\<close>

definition field :: "nat \<Rightarrow> nat \<Rightarrow> 'a::len word \<Rightarrow> 'a word" where
  "field len lo b = take_bit len (drop_bit lo b)"

lemma field_or: "field len lo (a OR b) = field len lo a OR field len lo b"
  by (simp add: field_def)

lemma field_above: "lo + len \<le> p \<Longrightarrow> field len lo (push_bit p x) = 0"
  by (rule bit_word_eqI) (auto simp: field_def bit_simps)

lemma field_below: "p + w \<le> lo \<Longrightarrow> field len lo (push_bit p (take_bit w x)) = 0"
  by (rule bit_word_eqI) (auto simp: field_def bit_simps)

lemma field_at:
  "lo + len \<le> LENGTH('a) \<Longrightarrow> field len lo (push_bit lo x) = take_bit len (x :: 'a::len word)"
  by (rule bit_word_eqI) (auto simp: field_def bit_simps)

text \<open>A field of a sign-extended 32-bit word is the field of the word.\<close>

lemma field_scast:
  fixes c :: uint32_t
  assumes "lo + len \<le> 32"
  shows "field len lo (scast c :: uint64_t) = ucast (field len lo c)"
  using assms by (intro bit_word_eqI) (auto simp: field_def bit_simps)

lemma sfield_scast:
  fixes c :: uint32_t
  assumes "lo + n < 32"
  shows "signed_take_bit n (drop_bit lo (scast c :: uint64_t)) = signed_take_bit n (ucast (drop_bit lo c))"
  using assms by (intro bit_word_eqI) (auto simp: bit_simps)

lemma top_scast:
  fixes c :: uint32_t
  assumes "n \<le> 31"
  shows "signed_drop_bit (31 - n) (scast c :: uint64_t) = signed_take_bit n (ucast (drop_bit (31 - n) c))"
proof (rule bit_word_eqI)
  fix k assume "k < LENGTH(64)"
  moreover have "min 31 (31 - n + k) = 31 - n + min n k" using assms by simp
  ultimately show "bit (signed_drop_bit (31 - n) (scast c :: uint64_t)) k =
      bit (signed_take_bit n (ucast (drop_bit (31 - n) c)) :: uint64_t) k"
    using assms by (auto simp: bit_simps)
qed

lemma field_low: "w \<le> lo \<Longrightarrow> field len lo (take_bit w x) = 0"
  using field_below [of 0 w lo len x] by simp

lemmas field_reads = field_or field_above field_below field_at field_low take_bit_take_bit

lemma and_low_masks:
  "x AND 0x03 = take_bit 2 x" "x AND 0x1f = take_bit 5 x" "x AND 0x3f = take_bit 6 (x :: 'a::len word)"
  by (simp_all add: take_bit_eq_mask mask_eq_exp_minus_1)

lemma take_bit_lt_top:
  assumes "n < LENGTH('a)"
  shows "take_bit n x < (2 ^ n - 1 :: 'a::len word) \<longleftrightarrow> take_bit n x \<noteq> 2 ^ n - 1"
proof -
  have "unat x mod 2 ^ n \<le> 2 ^ n - 1" by (metis Suc_leI Suc_diff_1 mod_less_divisor pos2 zero_less_power Suc_le_mono)
  then show ?thesis using assms
    by (auto simp: less_le word_le_nat_alt word_eq_unat unat_take_bit unat_mask simp flip: mask_eq_exp_minus_1)
qed

lemma insn_length_4: "insn_length x = 4 \<longleftrightarrow> take_bit 2 x = 3 \<and> take_bit 5 x \<noteq> 0x1f"
  using take_bit_lt_top [of 2 x] take_bit_lt_top [of 5 x] by (simp add: insn_length_def and_low_masks)

lemma fetch_32:
  assumes "take_bit 2 code = 0x3" "take_bit 5 code \<noteq> 0x1f"
  shows "fetch_insn (ucast code) (ucast (drop_bit 16 code)) h4 h6 = scast (code :: uint32_t)"
    and "insn_length (scast code) = 4"
proof -
  have tb: "take_bit n (ucast (ucast code :: uint16_t) :: uint64_t) = ucast (take_bit n code)"
    "take_bit n (scast code :: uint64_t) = ucast (take_bit n code)" if "n \<le> 16" for n
    using that by - (rule bit_word_eqI; auto simp: bit_simps)+
  have inj: "(ucast (take_bit n code) :: uint64_t) = 3 \<longleftrightarrow> take_bit n code = 3"
    "(ucast (take_bit n code) :: uint64_t) = 0x1f \<longleftrightarrow> take_bit n code = 0x1f" for n
    by (simp_all add: word_eq_unat)
  show "insn_length (scast code) = 4" using assms by (simp add: insn_length_4 tb inj)
  have "insn_length (ucast (ucast code :: uint16_t)) = 4" using assms by (simp add: insn_length_4 tb inj)
  then have "fetch_insn (ucast code) (ucast (drop_bit 16 code)) h4 h6 =
      ucast (ucast code :: uint16_t) OR push_bit 16 (scast (ucast (drop_bit 16 code) :: uint16_t))"
    by (simp add: fetch_insn_def Let_def)
  also have "\<dots> = scast code"
    by (rule bit_word_eqI, rule_tac P = "n < 16" in case_split) (auto simp: bit_simps min_def)
  finally show "fetch_insn (ucast code) (ucast (drop_bit 16 code)) h4 h6 = scast code" .
qed

lemma insn_rd_eq: "insn_rd (scast (c :: uint32_t)) = ucast (field 5 7 c)"
  and insn_rs1_eq: "insn_rs1 (scast c) = ucast (field 5 15 c)"
  and insn_rs2_eq: "insn_rs2 (scast c) = ucast (field 5 20 c)"
  and insn_csr_eq: "insn_csr (scast c) = ucast (field 12 20 c)"
  and insn_rm_eq: "insn_rm (scast c) = ucast (field 3 12 c)"
  by (simp_all add: insn_rd_def insn_rs1_def insn_rs2_def insn_csr_def insn_rm_def insn_x_eq
      field_scast flip: field_def)

text \<open>Sums of fields at increasing positions are unions.\<close>

lemma add_field:
  assumes "take_bit k a = a"
  shows "a + push_bit k y = a OR push_bit k (y :: 'a::len word)"
proof (rule disjunctive_add_eq_or, rule bit_word_eqI)
  fix n
  have "bit a n \<Longrightarrow> n < k" by (subst (asm) assms [symmetric]) (simp add: bit_take_bit_iff)
  then show "bit (a AND push_bit k y) n = bit 0 n" by (auto simp: bit_simps)
qed

lemma fits_field: "p + w \<le> k \<Longrightarrow> take_bit k (push_bit p (take_bit w x)) = push_bit p (take_bit w (x :: 'a::len word))"
  by (rule bit_word_eqI) (auto simp: bit_simps)

lemma add_fields:
  fixes a b c d :: "'a::len word"
  assumes "p + wp \<le> q" "q + wq \<le> r" "r + wr \<le> s"
  shows "push_bit p (take_bit wp a) + push_bit q (take_bit wq b) + push_bit r (take_bit wr c) + push_bit s d =
    push_bit p (take_bit wp a) OR push_bit q (take_bit wq b) OR push_bit r (take_bit wr c) OR push_bit s d"
proof -
  note fits = fits_field [of p wp q a] fits_field [of p wp r a] fits_field [of p wp s a]
    fits_field [of q wq r b] fits_field [of q wq s b] fits_field [of r wr s c]
  show ?thesis using assms fits by (simp add: add_field or.assoc)
qed

lemma i_imm_eq: "i_imm (scast (c :: uint32_t)) = signed_take_bit 11 (ucast (field 12 20 c))"
  using top_scast [of 11 c]
  by (simp add: i_imm_def) (rule bit_word_eqI; auto simp: field_def bit_simps min_def)

lemma u_imm_eq: "u_imm (scast (c :: uint32_t)) = push_bit 12 (signed_take_bit 19 (ucast (field 20 12 c)))"
  using top_scast [of 19 c]
  by (simp add: u_imm_def) (rule bit_word_eqI; auto simp: field_def bit_simps min_def)

lemma s_imm_eq:
  "s_imm (scast (c :: uint32_t)) = signed_take_bit 11 (ucast (field 5 7 c OR push_bit 5 (field 7 25 c)))"
proof -
  have "s_imm (scast c) = take_bit 5 (drop_bit 7 (scast c)) OR push_bit 5 (signed_take_bit 6 (drop_bit 25 (scast c)))"
    unfolding s_imm_def by (subst add_field) (simp_all add: insn_x_eq insn_xs_eq)
  also have "\<dots> = signed_take_bit 11 (ucast (field 5 7 c OR push_bit 5 (field 7 25 c)))"
    by (rule bit_word_eqI) (auto simp: field_def bit_simps min_def)
  finally show ?thesis .
qed

lemma bit_imm_sign: "bit (imm_sign b) n \<longleftrightarrow> n < 64 \<and> bit b 63"
  by (cases n) (auto simp: imm_sign_def insn_xs_def bit_simps dest: bit_imp_le_length)

lemmas bit_fields = field_def bit_simps bit_imm_sign

lemma sb_imm_eq:
  "sb_imm (scast (c :: uint32_t)) =
   signed_take_bit 12 (ucast (push_bit 1 (field 4 8 c) OR push_bit 5 (field 6 25 c) OR
     push_bit 11 (field 1 7 c) OR push_bit 12 (field 1 31 c)))"
  unfolding sb_imm_def insn_x_eq
  by (subst add_fields; (rule bit_word_eqI)?; (simp only: bit_fields)?) (auto simp: bit_simps min_def)

lemma uj_imm_eq:
  "uj_imm (scast (c :: uint32_t)) =
   signed_take_bit 20 (ucast (push_bit 1 (field 10 21 c) OR push_bit 11 (field 1 20 c) OR
     push_bit 12 (field 8 12 c) OR push_bit 20 (field 1 31 c)))"
  unfolding uj_imm_def insn_x_eq
  by (subst add_fields; (rule bit_word_eqI)?; (simp only: bit_fields)?) (auto simp: bit_simps min_def)

section \<open>Encoding and decoding again\<close>

text \<open>
  What the fetch and the accessors return for an encoded word: the operands it was built from.
  An encoder puts a register operand unmasked into its field, so the operand is a register number.
\<close>

definition fetched :: "uint32_t \<Rightarrow> insn_bits_t" where
  "fetched code = fetch_insn (ucast code) (ucast (drop_bit 16 code)) 0 0"

lemma reg_field: "r < 32 \<Longrightarrow> take_bit 5 r = (r :: uint32_t)"
  and csr_field: "r < 0x1000 \<Longrightarrow> take_bit 12 r = (r :: uint32_t)"
  by (simp_all add: word_eq_unat unat_take_bit word_less_nat_alt)

text \<open>The word passes the match of \<^verbatim>\<open>processor_t::decode_insn\<close> for the given opcode.\<close>

definition decodes_as :: "uint32_t \<Rightarrow> insn_bits_t \<Rightarrow> insn_bits_t \<Rightarrow> bool" where
  "decodes_as code mat msk \<longleftrightarrow>
     insn_length (fetched code) = 4 \<and> map_option (\<lambda>b. b AND msk) (insn_bits (fetched code)) = Some mat"

definition s_word :: "uint32_t \<Rightarrow> uint32_t \<Rightarrow> uint32_t \<Rightarrow> uint32_t \<Rightarrow> uint32_t" where
  "s_word opc src base off =
     push_bit 25 (take_bit 7 (drop_bit 5 off)) OR push_bit 20 (take_bit 5 src) OR
     push_bit 15 (take_bit 5 base) OR push_bit 7 (take_bit 5 off) OR
     push_bit 12 (take_bit 3 (drop_bit 12 opc)) OR take_bit 7 opc"

lemma s_word_fields:
  "field 7 25 (s_word opc src base off) = take_bit 7 (drop_bit 5 off)"
  "field 5 20 (s_word opc src base off) = take_bit 5 src"
  "field 5 15 (s_word opc src base off) = take_bit 5 base"
  "field 5 7 (s_word opc src base off) = take_bit 5 off"
  "field 3 12 (s_word opc src base off) = take_bit 3 (drop_bit 12 opc)"
  "field 7 0 (s_word opc src base off) = take_bit 7 opc"
  by (simp_all add: s_word_def field_reads) (simp add: field_def)

lemma low_opcode:
  assumes "field 7 0 code = take_bit 7 opc"
    "take_bit 2 opc = 0x3" "take_bit 5 opc \<noteq> 0x1f"
  shows "fetched code = scast (code :: uint32_t)" "insn_length (fetched code) = 4"
proof -
  have "take_bit n code = take_bit n opc" if "n \<le> 7" for n
    using that arg_cong [OF assms(1), of "take_bit n"] by (simp add: field_def min_absorb1)
  then show *: "fetched code = scast code" and "insn_length (fetched code) = 4"
    using fetch_32 [of code] assms(2,3) by (simp_all add: fetched_def)
qed

lemma s_word_decode:
  assumes "take_bit 2 opc = 0x3" "take_bit 5 opc \<noteq> 0x1f"
  shows "insn_length (fetched (s_word opc src base off)) = 4"
    "insn_rs1 (fetched (s_word opc src base off)) = ucast (take_bit 5 base)"
    "insn_rs2 (fetched (s_word opc src base off)) = ucast (take_bit 5 src)"
    "s_imm (fetched (s_word opc src base off)) = signed_take_bit 11 (ucast off)"
proof -
  note l = low_opcode [OF s_word_fields(6) assms]
  show "insn_length (fetched (s_word opc src base off)) = 4" by (rule l)
  show "insn_rs1 (fetched (s_word opc src base off)) = ucast (take_bit 5 base)"
    "insn_rs2 (fetched (s_word opc src base off)) = ucast (take_bit 5 src)"
    by (simp_all only: l(1) insn_rs1_eq insn_rs2_eq s_word_fields)
  show "s_imm (fetched (s_word opc src base off)) = signed_take_bit 11 (ucast off)"
    unfolding l(1) s_imm_eq s_word_fields
    by (rule bit_word_eqI) (auto simp: bit_simps min_def)
qed

lemma decodes_asI:
  assumes "field 7 0 code = take_bit 7 opc" "take_bit 2 opc = 0x3" "take_bit 5 opc \<noteq> 0x1f"
    and "code AND msk = mat"
  shows "decodes_as code (ucast mat) (ucast msk)"
proof -
  have "insn_bits (scast code) = Some (ucast code)" if "insn_length (scast code) = 4"
    unfolding insn_bits_def that
    by simp (rule bit_word_eqI, rule_tac P = "n = 31" in case_split,
      auto simp: bit_simps min_def dest: bit_imp_le_length)
  moreover have "ucast code AND ucast msk = (ucast (code AND msk) :: uint64_t)"
    by (rule bit_word_eqI) (auto simp: bit_simps)
  ultimately show ?thesis using low_opcode [OF assms(1-3)] assms(4) by (simp add: decodes_as_def)
qed

lemma and_opcode_masks:
  "c AND 0x7f = field 7 0 c"
  "c AND 0x707f = push_bit 12 (field 3 12 c) OR field 7 0 (c :: uint32_t)"
  "c AND 0xfc00707f = push_bit 26 (field 6 26 c) OR push_bit 12 (field 3 12 c) OR field 7 0 (c :: uint32_t)"
proof -
  have f: "push_bit lo (field len lo c) = c AND push_bit lo (mask len)" if "lo + len \<le> 32" for lo len
    using that by (intro bit_word_eqI) (auto simp: field_def bit_simps)
  show "c AND 0x7f = field 7 0 c" using f [of 0 7] by (simp add: mask_eq_exp_minus_1)
  show "c AND 0x707f = push_bit 12 (field 3 12 c) OR field 7 0 c"
    "c AND 0xfc00707f = push_bit 26 (field 6 26 c) OR push_bit 12 (field 3 12 c) OR field 7 0 c"
    using f [of 0 7] f [of 12 3] f [of 26 6]
    by (simp_all add: mask_eq_exp_minus_1 flip: bit.conj_disj_distrib)
qed

definition i_word :: "uint32_t \<Rightarrow> uint32_t \<Rightarrow> uint32_t \<Rightarrow> uint32_t \<Rightarrow> uint32_t" where
  "i_word opc dest src imm =
     push_bit 20 (take_bit 12 imm) OR push_bit 15 (take_bit 5 src) OR push_bit 7 (take_bit 5 dest) OR
     push_bit 12 (take_bit 3 (drop_bit 12 opc)) OR take_bit 7 opc"

lemma i_word_fields:
  "field 12 20 (i_word opc dest src imm) = take_bit 12 imm"
  "field 5 15 (i_word opc dest src imm) = take_bit 5 src"
  "field 5 7 (i_word opc dest src imm) = take_bit 5 dest"
  "field 3 12 (i_word opc dest src imm) = take_bit 3 (drop_bit 12 opc)"
  "field 7 0 (i_word opc dest src imm) = take_bit 7 opc"
  by (simp_all add: i_word_def field_reads) (simp add: field_def)

lemma i_word_decode:
  assumes "take_bit 2 opc = 0x3" "take_bit 5 opc \<noteq> 0x1f"
  shows "insn_rd (fetched (i_word opc dest src imm)) = ucast (take_bit 5 dest)"
    "insn_rs1 (fetched (i_word opc dest src imm)) = ucast (take_bit 5 src)"
    "insn_csr (fetched (i_word opc dest src imm)) = ucast (take_bit 12 imm)"
    "i_imm (fetched (i_word opc dest src imm)) = signed_take_bit 11 (ucast imm)"
proof -
  note l = low_opcode [OF i_word_fields(5) assms]
  show "insn_rd (fetched (i_word opc dest src imm)) = ucast (take_bit 5 dest)"
    "insn_rs1 (fetched (i_word opc dest src imm)) = ucast (take_bit 5 src)"
    "insn_csr (fetched (i_word opc dest src imm)) = ucast (take_bit 12 imm)"
    by (simp_all only: l(1) insn_rd_eq insn_rs1_eq insn_csr_eq i_word_fields)
  show "i_imm (fetched (i_word opc dest src imm)) = signed_take_bit 11 (ucast imm)"
    unfolding l(1) i_imm_eq i_word_fields
    by (rule bit_word_eqI) (auto simp: bit_simps min_def)
qed

lemma word_decodes:
  assumes "take_bit 2 opc = 0x3" "take_bit 5 opc \<noteq> 0x1f" "opc AND 0x707f = opc"
  shows "decodes_as (s_word opc src base off) (ucast opc) 0x707f"
    "decodes_as (i_word opc dest src imm) (ucast opc) 0x707f"
  using decodes_asI [OF s_word_fields(6) assms(1,2), of _ _ _ "0x707f" opc]
    decodes_asI [OF i_word_fields(5) assms(1,2), of _ _ _ "0x707f" opc] assms(3)
  by (simp_all add: and_opcode_masks s_word_fields i_word_fields) (simp_all add: field_def)

text \<open>The encoders are words of the two formats.\<close>

lemma stores_as_s_word:
  assumes "base < 32"
  shows "src < 32 \<Longrightarrow> op_sw src base off = s_word 0x2023 src base (ucast off)"
    "src < 32 \<Longrightarrow> op_sd src base off = s_word 0x3023 src base (ucast off)"
    "src < 32 \<Longrightarrow> op_sh src base off = s_word 0x1023 src base (ucast off)"
    "src < 32 \<Longrightarrow> op_sb src base off = s_word 0x23 src base (ucast off)"
    "op_fsw src base off = s_word 0x2027 src base (ucast off)"
    "op_fsd src base off = s_word 0x3027 src base (ucast off)"
  using assms
  by (simp_all add: op_sw_def op_sd_def op_sh_def op_sb_def op_fsw_def op_fsd_def s_word_def op_bits_eq reg_field)

lemma imms_as_i_word:
  assumes "src < 32"
  shows "op_ld dest src off = i_word 0x3003 dest src (ucast off)"
    "op_lw dest src off = i_word 0x2003 dest src (ucast off)"
    "op_lh dest src off = i_word 0x1003 dest src (ucast off)"
    "op_lb dest src off = i_word 0x3 dest src (ucast off)"
    "op_flw dest src off = i_word 0x2007 dest src (ucast off)"
    "op_fld dest src off = i_word 0x3007 dest src (ucast off)"
    "dest < 32 \<Longrightarrow> op_addi dest src off = i_word 0x13 dest src (ucast off)"
    "dest < 32 \<Longrightarrow> op_xori dest src off = i_word 0x4013 dest src (ucast off)"
  using assms
  by (simp_all add: op_ld_def op_lw_def op_lh_def op_lb_def op_flw_def op_fld_def op_addi_def op_xori_def
      i_word_def op_bits_eq reg_field)

lemma csrs_as_i_word:
  assumes "csr < 0x1000"
  shows "source < 32 \<Longrightarrow> op_csrw source csr = i_word 0x1073 0 source csr"
    "rd < 32 \<Longrightarrow> op_csrr rd csr = i_word 0x2073 rd 0 csr"
    "rd < 32 \<Longrightarrow> rs1 < 32 \<Longrightarrow> op_csrrs rd rs1 csr = i_word 0x2073 rd rs1 csr"
    "op_csrsi csr imm = i_word 0x6073 0 (ucast imm) csr"
  using assms
  by (simp_all add: op_csrw_def op_csrr_def op_csrrs_def op_csrsi_def i_word_def op_bits_eq reg_field csr_field
      or.assoc)

definition u_word :: "uint32_t \<Rightarrow> uint32_t \<Rightarrow> uint32_t \<Rightarrow> uint32_t" where
  "u_word opc dest imm = push_bit 12 (take_bit 20 imm) OR push_bit 7 (take_bit 5 dest) OR take_bit 7 opc"

lemma u_word_fields:
  "field 20 12 (u_word opc dest imm) = take_bit 20 imm"
  "field 5 7 (u_word opc dest imm) = take_bit 5 dest"
  "field 7 0 (u_word opc dest imm) = take_bit 7 opc"
  by (simp_all add: u_word_def field_reads) (simp add: field_def)

text \<open>The jump's immediate is the permutation of its bits that \<open>uj_imm\<close> reads back.\<close>

definition j_word :: "uint32_t \<Rightarrow> uint32_t \<Rightarrow> uint32_t \<Rightarrow> uint32_t" where
  "j_word opc rd imm =
     push_bit 31 (take_bit 1 (drop_bit 20 imm)) OR push_bit 21 (take_bit 10 (drop_bit 1 imm)) OR
     push_bit 20 (take_bit 1 (drop_bit 11 imm)) OR push_bit 12 (take_bit 8 (drop_bit 12 imm)) OR
     push_bit 7 (take_bit 5 rd) OR take_bit 7 opc"

lemma j_word_fields:
  "field 10 21 (j_word opc rd imm) = take_bit 10 (drop_bit 1 imm)"
  "field 1 20 (j_word opc rd imm) = take_bit 1 (drop_bit 11 imm)"
  "field 8 12 (j_word opc rd imm) = take_bit 8 (drop_bit 12 imm)"
  "field 1 31 (j_word opc rd imm) = take_bit 1 (drop_bit 20 imm)"
  "field 5 7 (j_word opc rd imm) = take_bit 5 rd"
  "field 7 0 (j_word opc rd imm) = take_bit 7 opc"
  by (simp_all add: j_word_def field_reads del: One_nat_def) (simp add: field_def)

lemma u_word_decode:
  assumes "take_bit 2 opc = 0x3" "take_bit 5 opc \<noteq> 0x1f"
  shows "insn_rd (fetched (u_word opc dest imm)) = ucast (take_bit 5 dest)"
    "u_imm (fetched (u_word opc dest imm)) = push_bit 12 (signed_take_bit 19 (ucast imm))"
    "decodes_as (u_word opc dest imm) (ucast (take_bit 7 opc)) 0x7f"
proof -
  note l = low_opcode [OF u_word_fields(3) assms]
  show "insn_rd (fetched (u_word opc dest imm)) = ucast (take_bit 5 dest)"
    by (simp only: l(1) insn_rd_eq u_word_fields)
  show "u_imm (fetched (u_word opc dest imm)) = push_bit 12 (signed_take_bit 19 (ucast imm))"
    unfolding l(1) u_imm_eq u_word_fields
    by (rule bit_word_eqI) (auto simp: bit_simps min_def)
  show "decodes_as (u_word opc dest imm) (ucast (take_bit 7 opc)) 0x7f"
    using decodes_asI [OF u_word_fields(3) assms, of _ _ "0x7f"] by (simp add: and_opcode_masks u_word_fields)
qed

lemma j_word_decode:
  assumes "take_bit 2 opc = 0x3" "take_bit 5 opc \<noteq> 0x1f"
  shows "insn_rd (fetched (j_word opc dest imm)) = ucast (take_bit 5 dest)"
    "uj_imm (fetched (j_word opc dest imm)) = signed_take_bit 20 (ucast imm AND NOT 1)"
    "decodes_as (j_word opc dest imm) (ucast (take_bit 7 opc)) 0x7f"
proof -
  note l = low_opcode [OF j_word_fields(6) assms]
  show "insn_rd (fetched (j_word opc dest imm)) = ucast (take_bit 5 dest)"
    by (simp only: l(1) insn_rd_eq j_word_fields)
  show "uj_imm (fetched (j_word opc dest imm)) = signed_take_bit 20 (ucast imm AND NOT 1)"
    unfolding l(1) uj_imm_eq j_word_fields
    by (rule bit_word_eqI, simp only: bit_simps, rule_tac P = "n < 12" in case_split;
        rule_tac P = "n = 11" in case_split) (auto simp: bit_simps min_def)
  show "decodes_as (j_word opc dest imm) (ucast (take_bit 7 opc)) 0x7f"
    using decodes_asI [OF j_word_fields(6) assms, of _ _ "0x7f"] by (simp add: and_opcode_masks j_word_fields)
qed

lemma jal_as_j_word: "rd < 32 \<Longrightarrow> op_jal rd imm = j_word 0x6f rd imm"
  and lui_as_u_word: "rd < 32 \<Longrightarrow> op_lui rd imm = u_word 0x37 rd imm"
  by (simp_all add: op_jal_def op_lui_def op_bits_eq op_bit_eq j_word_def u_word_def reg_field)

lemma ucast_ucast_16: "(ucast (ucast (x :: uint16_t) :: uint32_t) :: uint64_t) = ucast x"
  by (rule bit_word_eqI) (auto simp: bit_simps dest: bit_imp_le_length)

lemma s_word_roundtrip:
  assumes "take_bit 2 opc = 0x3" "take_bit 5 opc \<noteq> 0x1f" "opc AND 0x707f = opc" "mat = ucast opc"
    and "src < 32" "base < 32"
  shows "decodes_as (s_word opc src base (ucast off)) mat 0x707f \<and>
    insn_rs1 (fetched (s_word opc src base (ucast off))) = ucast base \<and>
    insn_rs2 (fetched (s_word opc src base (ucast off))) = ucast src \<and>
    s_imm (fetched (s_word opc src base (ucast off))) = signed_take_bit 11 (ucast (off :: uint16_t))"
  using assms by (simp add: s_word_decode word_decodes reg_field ucast_ucast_16)

lemma i_word_roundtrip:
  assumes "take_bit 2 opc = 0x3" "take_bit 5 opc \<noteq> 0x1f" "opc AND 0x707f = opc" "mat = ucast opc"
    and "dest < 32" "src < 32"
  shows "decodes_as (i_word opc dest src (ucast imm)) mat 0x707f \<and>
    insn_rd (fetched (i_word opc dest src (ucast imm))) = ucast dest \<and>
    insn_rs1 (fetched (i_word opc dest src (ucast imm))) = ucast src \<and>
    i_imm (fetched (i_word opc dest src (ucast imm))) = signed_take_bit 11 (ucast (imm :: uint16_t))"
  using assms by (simp add: i_word_decode word_decodes reg_field ucast_ucast_16)

lemma csr_roundtrip:
  assumes "take_bit 2 opc = 0x3" "take_bit 5 opc \<noteq> 0x1f" "opc AND 0x707f = opc" "mat = ucast opc"
    and "dest < 32" "csr < 0x1000"
  shows "decodes_as (i_word opc dest src csr) mat 0x707f \<and>
    insn_rd (fetched (i_word opc dest src csr)) = ucast dest \<and>
    insn_rs1 (fetched (i_word opc dest src csr)) = ucast (take_bit 5 src) \<and>
    insn_csr (fetched (i_word opc dest src csr)) = ucast csr"
  using assms by (simp add: i_word_decode word_decodes reg_field csr_field)

text \<open>
  C11.  The store encoders: fetching the encoded word and decoding it gives an instruction of
  length four that matches the store's opcode, whose registers are the encoder's operands and whose
  immediate is the low twelve bits of the offset, sign-extended.
\<close>

theorem store_encode_decode:
  assumes "src < 32" "base < 32"
  shows "\<forall>(code, mat) \<in> {(op_sw src base off, 0x2023), (op_sd src base off, 0x3023), (op_sh src base off, 0x1023),
      (op_sb src base off, 0x23), (op_fsw src base off, 0x2027), (op_fsd src base off, 0x3027)}.
    decodes_as code mat 0x707f \<and> insn_rs1 (fetched code) = ucast base \<and>
    insn_rs2 (fetched code) = ucast src \<and> s_imm (fetched code) = signed_take_bit 11 (ucast off)"
  using assms by (simp only: stores_as_s_word ball_simps prod.case simp_thms) (intro conjI s_word_roundtrip; simp)

theorem store_encode_decode_witness:
  "s_imm (fetched (op_sw 8 0 0x0ffc)) = - 4 \<and> insn_rs2 (fetched (op_sw 8 0 0x0ffc)) = 8"
  using store_encode_decode [of 8 0 "0x0ffc"] by simp



text \<open>
  C13.  The jump, upper-immediate and CSR encoders: the jump's offset comes back without its lowest bit
  and sign-extended from bit 20, the upper immediate in place and sign-extended from bit 31, the CSR
  number and the registers unchanged.
\<close>

theorem jump_csr_encode_decode:
  assumes "rd < 32" "rs1 < 32" "csr < 0x1000"
  shows "(decodes_as (op_jal rd imm) 0x6f 0x7f \<and> insn_rd (fetched (op_jal rd imm)) = ucast rd \<and>
      uj_imm (fetched (op_jal rd imm)) = signed_take_bit 20 (ucast imm AND NOT 1)) \<and>
    (decodes_as (op_lui rd imm) 0x37 0x7f \<and> insn_rd (fetched (op_lui rd imm)) = ucast rd \<and>
      u_imm (fetched (op_lui rd imm)) = push_bit 12 (signed_take_bit 19 (ucast imm))) \<and>
    (\<forall>(code, mat, dest, src) \<in> {(op_csrw rs1 csr, 0x1073, 0, ucast rs1), (op_csrr rd csr, 0x2073, ucast rd, 0),
        (op_csrrs rd rs1 csr, 0x2073, ucast rd, ucast rs1), (op_csrsi csr z, 0x6073, 0, ucast (take_bit 5 z))}.
      decodes_as code mat 0x707f \<and> insn_rd (fetched code) = dest \<and> insn_rs1 (fetched code) = src \<and>
      insn_csr (fetched code) = ucast csr)"
proof (intro conjI)
  have "take_bit 5 (ucast z :: uint32_t) = ucast (take_bit 5 z)" by (rule bit_word_eqI) (auto simp: bit_simps)
  then show "\<forall>(code, mat, dest, src) \<in> {(op_csrw rs1 csr, 0x1073, 0, ucast rs1), (op_csrr rd csr, 0x2073, ucast rd, 0),
        (op_csrrs rd rs1 csr, 0x2073, ucast rd, ucast rs1), (op_csrsi csr z, 0x6073, 0, ucast (take_bit 5 z))}.
      decodes_as code mat 0x707f \<and> insn_rd (fetched code) = dest \<and> insn_rs1 (fetched code) = src \<and>
      insn_csr (fetched code) = ucast csr"
    using assms csr_roundtrip [of "0x1073" _ 0 csr rs1] csr_roundtrip [of "0x2073" _ rd csr 0]
      csr_roundtrip [of "0x2073" _ rd csr rs1] csr_roundtrip [of "0x6073" _ 0 csr "ucast z"]
    by (simp add: csrs_as_i_word reg_field ucast_ucast_16)
qed (use assms j_word_decode [of "0x6f" rd imm] u_word_decode [of "0x37" rd imm] in
    \<open>simp_all add: jal_as_j_word lui_as_u_word reg_field\<close>)

theorem jump_csr_encode_decode_witness:
  "uj_imm (fetched (op_jal 0 0x1ffff8)) = - 8 \<and> insn_csr (fetched (op_csrr 8 0x7b2)) = 0x7b2"
  using jump_csr_encode_decode [of 0 0 "0x7b2" "0x1ffff8"] jump_csr_encode_decode [of 8 0 "0x7b2"] by simp

end
