(* ===== verification/SF_Mul.thy ===== *)
theory SF_Mul
  imports SF_Interface
begin

text \<open>
  Multiplication: \<^verbatim>\<open>f16_mul.c\<close>, \<^verbatim>\<open>f32_mul.c\<close>, \<^verbatim>\<open>f64_mul.c\<close> and the double-width product
  \<^verbatim>\<open>s_mul64To128.c\<close>.  The labels of the C code (\<^verbatim>\<open>propagateNaN\<close>, \<^verbatim>\<open>infArg\<close>, \<^verbatim>\<open>zero\<close>) are the
  local names of the definitions.  Each routine equals \<open>ieee_mul\<close>: the exact product rounded once.
\<close>

section \<open>The double-width product\<close>

record uint128 =
  v64 :: uint64_t
  v0 :: uint64_t

definition softfloat_mul64To128 :: "uint64_t \<Rightarrow> uint64_t \<Rightarrow> uint128" where
  "softfloat_mul64To128 a b =
     (let a32 = ucast (drop_bit 32 a) :: uint32_t;
          a0 = ucast a :: uint32_t;
          b32 = ucast (drop_bit 32 b) :: uint32_t;
          b0 = ucast b :: uint32_t;
          zv0 = ucast a0 * ucast b0 :: uint64_t;
          mid1 = ucast a32 * ucast b0 :: uint64_t;
          mid = mid1 + ucast a0 * ucast b32;
          zv64 = ucast a32 * ucast b32 :: uint64_t;
          zv64 = zv64 + (push_bit 32 (of_bool (mid < mid1)) OR drop_bit 32 mid);
          mid = push_bit 32 mid;
          zv0 = zv0 + mid;
          zv64 = zv64 + of_bool (zv0 < mid)
      in \<lparr>v64 = zv64, v0 = zv0\<rparr>)"

section \<open>The operations\<close>

definition f16_mul :: "float16_t \<Rightarrow> float16_t \<Rightarrow> sf_state \<Rightarrow> float16_t \<times> sf_state" where
  "f16_mul a b st =
     (let uiA = ucast a :: uint_fast16_t;
          signA = signF16UI uiA; expA = expF16UI uiA; sigA = fracF16UI uiA;
          uiB = ucast b :: uint_fast16_t;
          signB = signF16UI uiB; expB = expF16UI uiB; sigB = fracF16UI uiB;
          signZ = (signA \<noteq> signB);
          propagateNaN = map_prod ucast id (softfloat_propagateNaNF16UI uiA uiB st);
          infArg = (\<lambda>magBits :: uint_fast16_t.
            if magBits = 0 then (ucast defaultNaNF16UI, softfloat_raiseFlags softfloat_flag_invalid st)
            else (ucast (packToF16UI signZ 0x1F 0), st));
          zero = (ucast (packToF16UI signZ 0 0), st)
      in if expA = 0x1F then
           if sigA \<noteq> 0 \<or> expB = 0x1F \<and> sigB \<noteq> 0 then propagateNaN
           else infArg (word_of_int expB OR sigB)
         else if expB = 0x1F then
           if sigB \<noteq> 0 then propagateNaN else infArg (word_of_int expA OR sigA)
         else
           case normArgF16 expA sigA of None \<Rightarrow> zero | Some (expA, sigA) \<Rightarrow>
           case normArgF16 expB sigB of None \<Rightarrow> zero | Some (expB, sigB) \<Rightarrow>
             let expZ = expA + expB - 0xF;
                 sigA = push_bit 4 (sigA OR 0x0400);
                 sigB = push_bit 5 (sigB OR 0x0400);
                 sig32Z = sigA * sigB :: uint_fast32_t;
                 sigZ = drop_bit 16 sig32Z;
                 sigZ = (if sig32Z AND 0xFFFF \<noteq> 0 then sigZ OR 1 else sigZ)
             in if sigZ < 0x4000 then softfloat_roundPackToF16 signZ (expZ - 1) (push_bit 1 sigZ) st
                else softfloat_roundPackToF16 signZ expZ sigZ st)"

definition f32_mul :: "float32_t \<Rightarrow> float32_t \<Rightarrow> sf_state \<Rightarrow> float32_t \<times> sf_state" where
  "f32_mul a b st =
     (let uiA = ucast a :: uint_fast32_t;
          signA = signF32UI uiA; expA = expF32UI uiA; sigA = fracF32UI uiA;
          uiB = ucast b :: uint_fast32_t;
          signB = signF32UI uiB; expB = expF32UI uiB; sigB = fracF32UI uiB;
          signZ = (signA \<noteq> signB);
          propagateNaN = map_prod ucast id (softfloat_propagateNaNF32UI uiA uiB st);
          infArg = (\<lambda>magBits :: uint_fast32_t.
            if magBits = 0 then (ucast defaultNaNF32UI, softfloat_raiseFlags softfloat_flag_invalid st)
            else (ucast (packToF32UI signZ 0xFF 0), st));
          zero = (ucast (packToF32UI signZ 0 0), st)
      in if expA = 0xFF then
           if sigA \<noteq> 0 \<or> expB = 0xFF \<and> sigB \<noteq> 0 then propagateNaN
           else infArg (word_of_int expB OR sigB)
         else if expB = 0xFF then
           if sigB \<noteq> 0 then propagateNaN else infArg (word_of_int expA OR sigA)
         else
           case normArgF32 expA sigA of None \<Rightarrow> zero | Some (expA, sigA) \<Rightarrow>
           case normArgF32 expB sigB of None \<Rightarrow> zero | Some (expB, sigB) \<Rightarrow>
             let expZ = expA + expB - 0x7F;
                 sigA = push_bit 7 (sigA OR 0x00800000);
                 sigB = push_bit 8 (sigB OR 0x00800000);
                 sigZ = softfloat_shortShiftRightJam64 (sigA * sigB) 32
             in if sigZ < 0x40000000 then softfloat_roundPackToF32 signZ (expZ - 1) (push_bit 1 sigZ) st
                else softfloat_roundPackToF32 signZ expZ sigZ st)"

definition f64_mul :: "float64_t \<Rightarrow> float64_t \<Rightarrow> sf_state \<Rightarrow> float64_t \<times> sf_state" where
  "f64_mul a b st =
     (let uiA = a;
          signA = signF64UI uiA; expA = expF64UI uiA; sigA = fracF64UI uiA;
          uiB = b;
          signB = signF64UI uiB; expB = expF64UI uiB; sigB = fracF64UI uiB;
          signZ = (signA \<noteq> signB);
          propagateNaN = softfloat_propagateNaNF64UI uiA uiB st;
          infArg = (\<lambda>magBits :: uint_fast64_t.
            if magBits = 0 then (defaultNaNF64UI, softfloat_raiseFlags softfloat_flag_invalid st)
            else (packToF64UI signZ 0x7FF 0, st));
          zero = (packToF64UI signZ 0 0, st)
      in if expA = 0x7FF then
           if sigA \<noteq> 0 \<or> expB = 0x7FF \<and> sigB \<noteq> 0 then propagateNaN
           else infArg (word_of_int expB OR sigB)
         else if expB = 0x7FF then
           if sigB \<noteq> 0 then propagateNaN else infArg (word_of_int expA OR sigA)
         else
           case normArgF64 expA sigA of None \<Rightarrow> zero | Some (expA, sigA) \<Rightarrow>
           case normArgF64 expB sigB of None \<Rightarrow> zero | Some (expB, sigB) \<Rightarrow>
             let expZ = expA + expB - 0x3FF;
                 sigA = push_bit 10 (sigA OR 0x0010000000000000);
                 sigB = push_bit 11 (sigB OR 0x0010000000000000);
                 sig128Z = softfloat_mul64To128 sigA sigB;
                 sigZ = v64 sig128Z OR of_bool (v0 sig128Z \<noteq> 0)
             in if sigZ < 0x4000000000000000
                then softfloat_roundPackToF64 signZ (expZ - 1) (push_bit 1 sigZ) st
                else softfloat_roundPackToF64 signZ expZ sigZ st)"

section \<open>Specification\<close>

definition ieee_mul ::
  "nat \<Rightarrow> nat \<Rightarrow> 'w::len word \<Rightarrow> 'w word \<Rightarrow> sf_state \<Rightarrow> 'w word \<times> sf_state" where
  "ieee_mul fb eb a b st =
     (let neg = (fp_neg fb eb a \<noteq> fp_neg fb eb b) in
      if fp_is_nan fb eb a \<or> fp_is_nan fb eb b
      then fp_nan_result fb eb (fp_is_snan fb eb a \<or> fp_is_snan fb eb b) st
      else if fp_is_inf fb eb a \<or> fp_is_inf fb eb b
      then if fp_magbits fb eb a = 0 \<or> fp_magbits fb eb b = 0 then fp_invalid fb eb st
           else (fp_word fb eb neg (fp_inf fb eb), st)
      else fp_result fb eb neg \<bar>fp_real fb eb a * fp_real fb eb b\<bar> st)"

section \<open>The common program\<close>

definition gen_mul ::
  "'w word sf_ops \<Rightarrow> nat \<Rightarrow> nat \<Rightarrow> nat \<Rightarrow> (uint64_t \<Rightarrow> uint64_t \<Rightarrow> uint64_t)
   \<Rightarrow> 'w::len word \<Rightarrow> 'w word \<Rightarrow> sf_state \<Rightarrow> 'w word \<times> sf_state" where
  "gen_mul ops fb eb g mulSig a b st =
     (let expA = o_exp ops (ucast a); sigA = o_frac ops (ucast a);
          expB = o_exp ops (ucast b); sigB = o_frac ops (ucast b);
          signZ = (o_sign ops (ucast a) \<noteq> o_sign ops (ucast b));
          infArg = (\<lambda>magBits :: uint64_t.
            if magBits = 0 then (o_defaultNaN ops, softfloat_raiseFlags softfloat_flag_invalid st)
            else (o_pack ops signZ (2 ^ eb - 1) 0, st))
      in if expA = 2 ^ eb - 1 then
           if sigA \<noteq> 0 \<or> expB = 2 ^ eb - 1 \<and> sigB \<noteq> 0 then o_propagateNaN ops (ucast a) (ucast b) st
           else infArg (word_of_int expB OR sigB)
         else if expB = 2 ^ eb - 1 then
           if sigB \<noteq> 0 then o_propagateNaN ops (ucast a) (ucast b) st
           else infArg (word_of_int expA OR sigA)
         else
           case o_normArg ops expA sigA of None \<Rightarrow> (o_pack ops signZ 0 0, st) | Some (expA, sigA) \<Rightarrow>
           case o_normArg ops expB sigB of None \<Rightarrow> (o_pack ops signZ 0 0, st) | Some (expB, sigB) \<Rightarrow>
             let expZ = expA + expB - (2 ^ (eb - 1) - 1);
                 sigZ = mulSig (sigA OR 2 ^ fb) (sigB OR 2 ^ fb)
             in if sigZ < 2 ^ (fb + g) then o_roundPack ops signZ (expZ - 1) (push_bit 1 sigZ) st
                else o_roundPack ops signZ expZ sigZ st)"

lemma f16_mul_code:
  "f16_mul a b st = gen_mul f16_ops 10 5 4
     (\<lambda>sA sB. let sig32Z = push_bit 4 sA * push_bit 5 sB; sigZ = drop_bit 16 sig32Z
             in if sig32Z AND 0xFFFF \<noteq> 0 then sigZ OR 1 else sigZ) a b st"
  unfolding f16_mul_def gen_mul_def Let_def
  by (simp cong del: option.case_cong_weak prod.case_cong_weak if_weak_cong split del: if_split)

lemma f32_mul_code:
  "f32_mul a b st = gen_mul f32_ops 23 8 7
     (\<lambda>sA sB. softfloat_shortShiftRightJam64 (push_bit 7 sA * push_bit 8 sB) 32) a b st"
  unfolding f32_mul_def gen_mul_def Let_def
  by (simp cong del: option.case_cong_weak prod.case_cong_weak if_weak_cong split del: if_split)

lemma f64_mul_code:
  "f64_mul a b st = gen_mul f64_ops 52 11 10
     (\<lambda>sA sB. let sig128Z = softfloat_mul64To128 (push_bit 10 sA) (push_bit 11 sB)
             in v64 sig128Z OR of_bool (v0 sig128Z \<noteq> 0)) a b st"
  unfolding f64_mul_def gen_mul_def Let_def
  by (simp cong del: option.case_cong_weak prod.case_cong_weak if_weak_cong split del: if_split)

section \<open>Correctness\<close>

text \<open>The product of two significands, in the position the rounding expects.\<close>

context sf_format
begin

lemma mul_finite:
  assumes g: "3 \<le> g"
    and prod: "\<And>sA sB. \<lbrakk>unat sA < 2 ^ (fb + 1); unat sB < 2 ^ (fb + 1)\<rbrakk>
      \<Longrightarrow> unat (mulSig sA sB) = jam (fb + g + 2) (unat sA * unat sB * 2 ^ (2 * g + 1))"
    and A: "unpacked fb eb eA (unat sA) uA" and B: "unpacked fb eb eB (unat sB) uB"
  defines "expZ \<equiv> eA + eB - (2 ^ (eb - 1) - 1)" and "sigZ \<equiv> mulSig sA sB"
  shows "(if sigZ < 2 ^ (fb + g) then o_roundPack ops neg (expZ - 1) (push_bit 1 sigZ) st
          else o_roundPack ops neg expZ sigZ st) =
    fp_result fb eb neg (fp_mag fb eb uA * fp_mag fb eb uB) st"
proof (rule round_jam_norm)
  let ?P = "unat sA * unat sB"
  have sA: "2 ^ fb \<le> unat sA" "unat sA < 2 ^ (fb + 1)" and sB: "2 ^ fb \<le> unat sB" "unat sB < 2 ^ (fb + 1)"
    using A B by (simp_all add: unpacked_def)
  show jam: "unat sigZ = jam (fb + g + 2) (?P * 2 ^ (2 * g + 1))"
    unfolding sigZ_def using sA(2) sB(2) by (rule prod)
  have "?P < 2 ^ (fb + 1) * 2 ^ (fb + 1)" using sA(2) sB(2) by (intro mult_strict_mono) auto
  then have "?P * 2 ^ (2 * g + 1) < 2 ^ (fb + 1) * 2 ^ (fb + 1) * 2 ^ (2 * g + 1)" by simp
  also have "\<dots> = 2 ^ (fb + g + 1) * 2 ^ (fb + g + 2)"
    unfolding power_add [symmetric] by (rule arg_cong [where f = "power 2"]) simp
  finally show "unat sigZ < 2 ^ (fb + g + 1)" unfolding jam by (rule jam_less) simp
  have "2 ^ fb * 2 ^ fb \<le> ?P" using sA(1) sB(1) by (rule mult_mono) auto
  then have "2 ^ fb * 2 ^ fb * 2 ^ (2 * g + 1) \<le> ?P * 2 ^ (2 * g + 1)" by (rule mult_le_mono1)
  moreover have "(2::nat) ^ fb * 2 ^ fb * 2 ^ (2 * g + 1) = 2 ^ (fb + g - 1) * 2 ^ (fb + g + 2)"
    unfolding power_add [symmetric] using g by (intro arg_cong [where f = "power 2"]) simp
  ultimately have "2 ^ (fb + g - 1) * 2 ^ (fb + g + 2) \<le> ?P * 2 ^ (2 * g + 1)" by (simp only:)
  then have "2 ^ (fb + g - 1) \<le> ?P * 2 ^ (2 * g + 1) div 2 ^ (fb + g + 2)"
    by (subst less_eq_div_iff_mult_less_eq) simp_all
  also have "\<dots> \<le> unat sigZ" unfolding jam by (rule jam_ge)
  finally have "2 * 2 ^ (fb + g - 1) \<le> 2 * unat sigZ" by simp
  then show "2 ^ (fb + g) \<le> 2 * unat sigZ" using g by (cases g) simp_all
  have "(2::int) ^ (eb - 1) \<le> 2 ^ eb" by (rule power_increasing) auto
  then have "(2::int) ^ (eb - 1) \<le> 4096" using exp_small [simplified] by (rule order_trans)
  moreover have "0 < (2::int) ^ (eb - 1)" by simp
  moreover have "1 - int fb \<le> eA" "eA < 2 ^ eb - 1" "1 - int fb \<le> eB" "eB < 2 ^ eb - 1"
    using A B by (simp_all add: unpacked_def)
  moreover have "int fb < 64" using width(3) by simp
  ultimately have "- 8192 \<le> expZ \<and> expZ < 8192" 
    using exp_small [simplified] unfolding expZ_def by linarith
  then show "- (2 ^ 13) \<le> expZ" "expZ < 2 ^ 13" by simp_all
  show "fp_mag fb eb uA * fp_mag fb eb uB =
      real (?P * 2 ^ (2 * g + 1)) * pw2 (expZ + fp_qmin fb eb - int g - int (fb + g + 2))"
  proof -
    have "expZ + fp_qmin fb eb - int g - int (fb + g + 2) + int (2 * g + 1) =
        (fp_qmin fb eb + eA - 1) + (fp_qmin fb eb + eB - 1)"
      using bias by (simp add: expZ_def)
    then have "2 ^ (2 * g + 1) * pw2 (expZ + fp_qmin fb eb - int g - int (fb + g + 2)) =
        pw2 (fp_qmin fb eb + eA - 1) * pw2 (fp_qmin fb eb + eB - 1)"
      by (metis pw2_add pw2_nat mult.commute)
    then show ?thesis using A B by (simp add: unpacked_def)
  qed
qed (use g width in simp_all)

theorem gen_mul_correct:
  assumes "3 \<le> g"
    and "\<And>sA sB. \<lbrakk>unat sA < 2 ^ (fb + 1); unat sB < 2 ^ (fb + 1)\<rbrakk>
      \<Longrightarrow> unat (mulSig sA sB) = jam (fb + g + 2) (unat sA * unat sB * 2 ^ (2 * g + 1))"
  shows "gen_mul ops fb eb g mulSig a b st = ieee_mul fb eb a b st"
proof (cases "fp_finite fb eb a \<and> fp_finite fb eb b")
  case False
  then show ?thesis
    by (cases rule: magnitude_cases [of a]; cases rule: magnitude_cases [of b])
      (simp_all add: gen_mul_def ieee_mul_def exp_max_iff not_finite_frac magBits_0_iff propagateNaN
        defaultNaN pack_special sign fp_invalid_def Let_def)
next
  case True
  then have fin: "fp_finite fb eb a" "fp_finite fb eb b" by simp_all
  then have spec: "ieee_mul fb eb a b st =
      fp_result fb eb (fp_neg fb eb a \<noteq> fp_neg fb eb b)
        (fp_mag fb eb (fp_magbits fb eb a) * fp_mag fb eb (fp_magbits fb eb b)) st"
    by (auto simp: ieee_mul_def fp_finite_def fp_is_nan_def fp_is_inf_def abs_mult abs_real)
  show ?thesis
  proof (cases "fp_magbits fb eb a = 0 \<or> fp_magbits fb eb b = 0")
    case True
    have "fp_mag fb eb 0 = 0" by (simp add: fp_mag_def)
    with True fin show ?thesis
      by (auto simp: spec gen_mul_def exp_max_iff normArg_zero pack_special sign Let_def split: option.split)
  next
    case False
    then obtain eA sA eB sB
      where A: "o_normArg ops (o_exp ops (ucast a)) (o_frac ops (ucast a)) = Some (eA, sA)"
          "unpacked fb eb eA (unat (sA OR 2 ^ fb)) (fp_magbits fb eb a)"
        and B: "o_normArg ops (o_exp ops (ucast b)) (o_frac ops (ucast b)) = Some (eB, sB)"
          "unpacked fb eb eB (unat (sB OR 2 ^ fb)) (fp_magbits fb eb b)"
      using normArg_finite [OF fin(1)] normArg_finite [OF fin(2)] by metis
    from mul_finite [OF assms A(2) B(2)] fin show ?thesis
      unfolding spec gen_mul_def Let_def by (simp add: exp_max_iff sign A(1) B(1))
  qed
qed

end

section \<open>The products of the three formats\<close>

text \<open>The schoolbook product of two-word numbers, with its carries, is the exact product.\<close>

lemma schoolbook:
  fixes B :: nat
  assumes "a32 * b0 + a0 * b32 = q * B + r + c1 * (B * B)" and "a0 * b0 + r * B = z + c2 * (B * B)"
  shows "(a32 * b32 + (c1 * B + q) + c2) * (B * B) + z = (a32 * B + a0) * (b32 * B + b0)"
proof -
  have "(a32 * B + a0) * (b32 * B + b0) = a32 * b32 * (B * B) + (a32 * b0 + a0 * b32) * B + a0 * b0"
    by (simp add: algebra_simps)
  also have "\<dots> = a32 * b32 * (B * B) + (q * B + c1 * (B * B)) * B + (a0 * b0 + r * B)"
    unfolding assms(1) by (simp add: algebra_simps)
  also have "\<dots> = (a32 * b32 + (c1 * B + q) + c2) * (B * B) + z"
    unfolding assms(2) by (simp add: algebra_simps)
  finally show ?thesis ..
qed

lemma mul64To128_correct:
  "unat (v64 (softfloat_mul64To128 a b)) * 2 ^ 64 + unat (v0 (softfloat_mul64To128 a b)) = unat a * unat b"
proof -
  define a32 a0 b32 b0 where "a32 = unat a div 2 ^ 32" and "a0 = unat a mod 2 ^ 32"
    and "b32 = unat b div 2 ^ 32" and "b0 = unat b mod 2 ^ 32"
  have a: "unat a = a32 * 2 ^ 32 + a0" and b: "unat b = b32 * 2 ^ 32 + b0"
    by (simp_all only: a32_def a0_def b32_def b0_def div_mult_mod_eq)
  have lt: "a32 < 2 ^ 32" "a0 < 2 ^ 32" "b32 < 2 ^ 32" "b0 < 2 ^ 32"
    using unat_lt_2p [of a] unat_lt_2p [of b] by (simp_all add: a32_def a0_def b32_def b0_def)
  let ?h = "\<lambda>x :: uint64_t. ucast (ucast (drop_bit 32 x) :: uint32_t) :: uint64_t"
  let ?l = "\<lambda>x :: uint64_t. ucast (ucast x :: uint32_t) :: uint64_t"
  have halves: "unat (?h a) = a32" "unat (?l a) = a0" "unat (?h b) = b32" "unat (?l b) = b0"
    using lt by (simp_all add: unat_ucast unat_drop_bit a32_def a0_def b32_def b0_def)
  have bound: "x * y \<le> (2 ^ 32 - 1) * (2 ^ 32 - 1)" if "x < 2 ^ 32" "y < 2 ^ 32" for x y :: nat
    using that by (intro mult_le_mono) auto
  have small: "x * y < 2 ^ 64" if "x < 2 ^ 32" "y < 2 ^ 32" for x y :: nat
    using bound [OF that] by simp
  define zv0 mid1 mid2 zv64 where "zv0 = ?l a * ?l b" and "mid1 = ?h a * ?l b"
    and "mid2 = ?l a * ?h b" and "zv64 = ?h a * ?h b"
  have prods: "unat zv0 = a0 * b0" "unat mid1 = a32 * b0" "unat mid2 = a0 * b32" "unat zv64 = a32 * b32"
    unfolding zv0_def mid1_def mid2_def zv64_def
    by (subst unat_mult_less; simp add: halves small [OF lt(2,4), simplified] small [OF lt(1,4), simplified]
        small [OF lt(2,3), simplified] small [OF lt(1,3), simplified])+
  define mid c1 mid' c2 where "mid = mid1 + mid2" and "c1 = (mid < mid1)"
    and "mid' = push_bit 32 mid" and "c2 = (zv0 + mid' < mid')"
  define up where "up = (push_bit 32 (of_bool c1) OR drop_bit 32 mid :: uint64_t)"
  have code: "v64 (softfloat_mul64To128 a b) = zv64 + up + of_bool c2" "v0 (softfloat_mul64To128 a b) = zv0 + mid'"
    by (simp_all only: softfloat_mul64To128_def Let_def zv0_def mid1_def mid2_def zv64_def mid_def c1_def
        mid'_def c2_def up_def uint128.simps)
  have 1: "a32 * b0 + a0 * b32 = unat mid + of_bool c1 * 2 ^ 64"
    using unat_carry(1) [of mid1 mid2] by (simp add: prods mid_def c1_def)
  have 2: "a0 * b0 + unat mid' = unat (zv0 + mid') + of_bool c2 * 2 ^ 64"
    using unat_carry(2) [of zv0 mid'] by (simp add: prods c2_def)
  have up: "unat up = of_bool c1 * 2 ^ 32 + unat mid div 2 ^ 32"
  proof -
    have "unat mid div 2 ^ 32 < 2 ^ 32" using unat_lt_2p [of mid] by simp
    from or_disjoint_nat [OF this, of "of_bool c1"] show ?thesis
      by (simp add: up_def unat_or unat_drop_bit unat_push_bit)
  qed
  have mid': "unat mid' = unat mid mod 2 ^ 32 * 2 ^ 32"
    using mult_mod_left [of "unat mid" "2 ^ 32" "2 ^ 32"] by (simp add: mid'_def unat_push_bit)
  define T where "T = a32 * b32 + unat up + of_bool c2"
  have B: "(2::nat) ^ 64 = 2 ^ 32 * 2 ^ 32" by simp
  have T: "T * 2 ^ 64 + unat (zv0 + mid') = unat a * unat b"
    using 1 2 unfolding T_def up mid' a b B by (intro schoolbook) (simp_all only: div_mult_mod_eq)
  have "unat a * unat b < 2 ^ 64 * 2 ^ 64"
    using unat_lt_2p [of a] unat_lt_2p [of b] by (intro mult_strict_mono) auto
  then have "T < 2 ^ 64" using T by simp
  then have "unat (zv64 + up + of_bool c2) = T"
    using unat_add_less [of zv64 up] unat_add_less [of "zv64 + up" "of_bool c2"]
    by (simp add: T_def prods)
  then show ?thesis unfolding code T [symmetric] by simp
qed

lemma f16_mul_spec: "f16_mul a b st = ieee_mul 10 5 a b st"
  unfolding f16_mul_code
proof (rule f16.gen_mul_correct)
  fix sA sB :: uint64_t
  assume lt: "unat sA < 2 ^ (10 + 1)" "unat sB < 2 ^ (10 + 1)"
  have p: "unat sA * unat sB \<le> (2 ^ 11 - 1) * (2 ^ 11 - 1)" using lt by (intro mult_le_mono) auto
  have s: "unat (push_bit 4 sA) = unat sA * 2 ^ 4" "unat (push_bit 5 sB) = unat sB * 2 ^ 5"
    using lt by (simp_all add: unat_push_bit)
  have "unat (push_bit 4 sA * push_bit 5 sB) = unat (push_bit 4 sA) * unat (push_bit 5 sB)"
    using p by (intro unat_mult_less) (simp add: s)
  then have m: "unat (push_bit 4 sA * push_bit 5 sB) = unat sA * unat sB * 2 ^ (2 * 4 + 1)" by (simp add: s)
  have "(0xFFFF :: uint64_t) = mask 16" by (simp add: mask_eq_exp_minus_1)
  then have "push_bit 4 sA * push_bit 5 sB AND 0xFFFF = 0 \<longleftrightarrow> unat (push_bit 4 sA * push_bit 5 sB) mod 2 ^ 16 = 0"
    by (simp only: and_mask_eq_0_iff)
  then show "unat (let sig32Z = push_bit 4 sA * push_bit 5 sB; sigZ = drop_bit 16 sig32Z
             in if sig32Z AND 0xFFFF \<noteq> 0 then sigZ OR 1 else sigZ) =
      jam (10 + 4 + 2) (unat sA * unat sB * 2 ^ (2 * 4 + 1))"
    unfolding m [symmetric] by (simp add: Let_def jam_eq_or unat_or unat_drop_bit)
qed simp

lemma f32_mul_spec: "f32_mul a b st = ieee_mul 23 8 a b st"
  unfolding f32_mul_code
proof (rule f32.gen_mul_correct)
  fix sA sB :: uint64_t
  assume lt: "unat sA < 2 ^ (23 + 1)" "unat sB < 2 ^ (23 + 1)"
  have p: "unat sA * unat sB \<le> (2 ^ 24 - 1) * (2 ^ 24 - 1)" using lt by (intro mult_le_mono) auto
  have s: "unat (push_bit 7 sA) = unat sA * 2 ^ 7" "unat (push_bit 8 sB) = unat sB * 2 ^ 8"
    using lt by (simp_all add: unat_push_bit)
  have "unat (push_bit 7 sA * push_bit 8 sB) = unat (push_bit 7 sA) * unat (push_bit 8 sB)"
    using p by (intro unat_mult_less) (simp add: s)
  then have "unat (push_bit 7 sA * push_bit 8 sB) = unat sA * unat sB * 2 ^ (2 * 7 + 1)" by (simp add: s)
  then show "unat (softfloat_shortShiftRightJam64 (push_bit 7 sA * push_bit 8 sB) 32) =
      jam (23 + 7 + 2) (unat sA * unat sB * 2 ^ (2 * 7 + 1))"
    by (simp add: unat_shortShiftRightJam64)
qed simp

lemma f64_mul_spec: "f64_mul a b st = ieee_mul 52 11 a b st"
  unfolding f64_mul_code
proof (rule f64.gen_mul_correct)
  fix sA sB :: uint64_t
  assume lt: "unat sA < 2 ^ (52 + 1)" "unat sB < 2 ^ (52 + 1)"
  let ?z = "softfloat_mul64To128 (push_bit 10 sA) (push_bit 11 sB)"
  have s: "unat (push_bit 10 sA) = unat sA * 2 ^ 10" "unat (push_bit 11 sB) = unat sB * 2 ^ 11"
    using lt by (simp_all add: unat_push_bit)
  have m: "unat sA * unat sB * 2 ^ (2 * 10 + 1) = unat (v64 ?z) * 2 ^ 64 + unat (v0 ?z)"
    unfolding mul64To128_correct by (simp add: s)
  have "unat (v0 ?z) < 2 ^ 64" using unat_lt_2p [of "v0 ?z"] by simp
  then show "unat (let sig128Z = ?z in v64 sig128Z OR of_bool (v0 sig128Z \<noteq> 0)) =
      jam (52 + 10 + 2) (unat sA * unat sB * 2 ^ (2 * 10 + 1))"
    unfolding m by (simp add: Let_def jam_eq_or unat_or word_neq_0_unat)
qed simp

section \<open>Properties\<close>

text \<open>
  C3. Multiplication is the IEEE 754 operation in all three formats: for every pair of operands, every
  rounding mode and either tininess rule, the result is the exact product correctly rounded, with the
  exceptions of that rounding; NaN operands give the canonical NaN, infinity times zero is invalid.
\<close>

theorem mul_correctly_rounded:
  "f16_mul a b st = ieee_mul 10 5 a b st \<and>
   f32_mul c d st = ieee_mul 23 8 c d st \<and>
   f64_mul x y st = ieee_mul 52 11 x y st"
  by (simp only: f16_mul_spec f32_mul_spec f64_mul_spec)

text \<open>The double-width product is exact: the two halves of the result hold the 128-bit product.\<close>

lemma mul64To128_exact:
  "unat (v64 (softfloat_mul64To128 a b)) = unat a * unat b div 2 ^ 64 \<and>
   unat (v0 (softfloat_mul64To128 a b)) = unat a * unat b mod 2 ^ 64"
proof -
  have "unat (v0 (softfloat_mul64To128 a b)) < 2 ^ 64" using unat_lt_2p by (rule less_le_trans) simp
  then show ?thesis unfolding mul64To128_correct [symmetric] by simp
qed

end
