(* ===== verification/SF_Compare.thy ===== *)
theory SF_Compare
  imports SF_Interface
begin

text \<open>
  Comparison, classification, maximum and minimum: \<^verbatim>\<open>f*_eq.c\<close>, \<^verbatim>\<open>f*_le.c\<close>, \<^verbatim>\<open>f*_lt.c\<close> with their
  quiet and signaling variants, \<^verbatim>\<open>f*_isSignalingNaN.c\<close>, \<^verbatim>\<open>f*_classify.c\<close>, \<^verbatim>\<open>fall_maxmin.c\<close>.
  The code compares bit patterns; the theorems say that this is the order of the values.
\<close>

section \<open>Binary16\<close>

definition f16_eq :: "float16_t \<Rightarrow> float16_t \<Rightarrow> sf_state \<Rightarrow> bool \<times> sf_state" where
  "f16_eq a b st =
     (let uiA = ucast a :: uint_fast16_t; uiB = ucast b :: uint_fast16_t
      in if isNaNF16UI uiA \<or> isNaNF16UI uiB then
           (False, if softfloat_isSigNaNF16UI uiA \<or> softfloat_isSigNaNF16UI uiB
                  then softfloat_raiseFlags softfloat_flag_invalid st else st)
         else (uiA = uiB \<or> (ucast (push_bit 1 (uiA OR uiB)) :: uint16_t) = 0, st))"

definition f16_eq_signaling :: "float16_t \<Rightarrow> float16_t \<Rightarrow> sf_state \<Rightarrow> bool \<times> sf_state" where
  "f16_eq_signaling a b st =
     (let uiA = ucast a :: uint_fast16_t; uiB = ucast b :: uint_fast16_t
      in if isNaNF16UI uiA \<or> isNaNF16UI uiB then
           (False, softfloat_raiseFlags softfloat_flag_invalid st)
         else (uiA = uiB \<or> (ucast (push_bit 1 (uiA OR uiB)) :: uint16_t) = 0, st))"

definition f16_le :: "float16_t \<Rightarrow> float16_t \<Rightarrow> sf_state \<Rightarrow> bool \<times> sf_state" where
  "f16_le a b st =
     (let uiA = ucast a :: uint_fast16_t; uiB = ucast b :: uint_fast16_t
      in if isNaNF16UI uiA \<or> isNaNF16UI uiB then
           (False, softfloat_raiseFlags softfloat_flag_invalid st)
         else
           let signA = signF16UI uiA; signB = signF16UI uiB
           in (if signA \<noteq> signB then signA \<or> (ucast (push_bit 1 (uiA OR uiB)) :: uint16_t) = 0
               else uiA = uiB \<or> signA \<noteq> (uiA < uiB), st))"

definition f16_le_quiet :: "float16_t \<Rightarrow> float16_t \<Rightarrow> sf_state \<Rightarrow> bool \<times> sf_state" where
  "f16_le_quiet a b st =
     (let uiA = ucast a :: uint_fast16_t; uiB = ucast b :: uint_fast16_t
      in if isNaNF16UI uiA \<or> isNaNF16UI uiB then
           (False, if softfloat_isSigNaNF16UI uiA \<or> softfloat_isSigNaNF16UI uiB
                  then softfloat_raiseFlags softfloat_flag_invalid st else st)
         else
           let signA = signF16UI uiA; signB = signF16UI uiB
           in (if signA \<noteq> signB then signA \<or> (ucast (push_bit 1 (uiA OR uiB)) :: uint16_t) = 0
               else uiA = uiB \<or> signA \<noteq> (uiA < uiB), st))"

definition f16_lt :: "float16_t \<Rightarrow> float16_t \<Rightarrow> sf_state \<Rightarrow> bool \<times> sf_state" where
  "f16_lt a b st =
     (let uiA = ucast a :: uint_fast16_t; uiB = ucast b :: uint_fast16_t
      in if isNaNF16UI uiA \<or> isNaNF16UI uiB then
           (False, softfloat_raiseFlags softfloat_flag_invalid st)
         else
           let signA = signF16UI uiA; signB = signF16UI uiB
           in (if signA \<noteq> signB then signA \<and> (ucast (push_bit 1 (uiA OR uiB)) :: uint16_t) \<noteq> 0
               else uiA \<noteq> uiB \<and> signA \<noteq> (uiA < uiB), st))"

definition f16_lt_quiet :: "float16_t \<Rightarrow> float16_t \<Rightarrow> sf_state \<Rightarrow> bool \<times> sf_state" where
  "f16_lt_quiet a b st =
     (let uiA = ucast a :: uint_fast16_t; uiB = ucast b :: uint_fast16_t
      in if isNaNF16UI uiA \<or> isNaNF16UI uiB then
           (False, if softfloat_isSigNaNF16UI uiA \<or> softfloat_isSigNaNF16UI uiB
                  then softfloat_raiseFlags softfloat_flag_invalid st else st)
         else
           let signA = signF16UI uiA; signB = signF16UI uiB
           in (if signA \<noteq> signB then signA \<and> (ucast (push_bit 1 (uiA OR uiB)) :: uint16_t) \<noteq> 0
               else uiA \<noteq> uiB \<and> signA \<noteq> (uiA < uiB), st))"

definition f16_isSignalingNaN :: "float16_t \<Rightarrow> bool" where
  "f16_isSignalingNaN a = softfloat_isSigNaNF16UI (ucast a)"

definition f16_classify :: "float16_t \<Rightarrow> uint_fast16_t" where
  "f16_classify a =
     (let uiA = ucast a :: uint_fast16_t;
          infOrNaN = (expF16UI uiA = 0x1F);
          subnormalOrZero = (expF16UI uiA = 0);
          sign = signF16UI uiA;
          fracZero = (fracF16UI uiA = 0);
          isNaN = isNaNF16UI uiA;
          isSNaN = softfloat_isSigNaNF16UI uiA
      in push_bit 0 (of_bool (sign \<and> infOrNaN \<and> fracZero)) OR
         push_bit 1 (of_bool (sign \<and> \<not> infOrNaN \<and> \<not> subnormalOrZero)) OR
         push_bit 2 (of_bool (sign \<and> subnormalOrZero \<and> \<not> fracZero)) OR
         push_bit 3 (of_bool (sign \<and> subnormalOrZero \<and> fracZero)) OR
         push_bit 7 (of_bool (\<not> sign \<and> infOrNaN \<and> fracZero)) OR
         push_bit 6 (of_bool (\<not> sign \<and> \<not> infOrNaN \<and> \<not> subnormalOrZero)) OR
         push_bit 5 (of_bool (\<not> sign \<and> subnormalOrZero \<and> \<not> fracZero)) OR
         push_bit 4 (of_bool (\<not> sign \<and> subnormalOrZero \<and> fracZero)) OR
         push_bit 8 (of_bool (isNaN \<and> isSNaN)) OR
         push_bit 9 (of_bool (isNaN \<and> \<not> isSNaN)))"

definition f16_max :: "float16_t \<Rightarrow> float16_t \<Rightarrow> sf_state \<Rightarrow> float16_t \<times> sf_state" where
  "f16_max a b st =
     (let (lt, st) = f16_lt_quiet b a st;
          (greater, st) =
            (if lt then (True, st)
             else let (eq, st) = f16_eq b a st in (eq \<and> signF16UI (ucast b), st))
      in if isNaNF16UI (ucast a) \<and> isNaNF16UI (ucast b) then (ucast defaultNaNF16UI, st)
         else (if greater \<or> isNaNF16UI (ucast b) then a else b, st))"

definition f16_min :: "float16_t \<Rightarrow> float16_t \<Rightarrow> sf_state \<Rightarrow> float16_t \<times> sf_state" where
  "f16_min a b st =
     (let (lt, st) = f16_lt_quiet a b st;
          (less, st) =
            (if lt then (True, st)
             else let (eq, st) = f16_eq a b st in (eq \<and> signF16UI (ucast a), st))
      in if isNaNF16UI (ucast a) \<and> isNaNF16UI (ucast b) then (ucast defaultNaNF16UI, st)
         else (if less \<or> isNaNF16UI (ucast b) then a else b, st))"

section \<open>Binary32\<close>

definition f32_eq :: "float32_t \<Rightarrow> float32_t \<Rightarrow> sf_state \<Rightarrow> bool \<times> sf_state" where
  "f32_eq a b st =
     (let uiA = ucast a :: uint_fast32_t; uiB = ucast b :: uint_fast32_t
      in if isNaNF32UI uiA \<or> isNaNF32UI uiB then
           (False, if softfloat_isSigNaNF32UI uiA \<or> softfloat_isSigNaNF32UI uiB
                  then softfloat_raiseFlags softfloat_flag_invalid st else st)
         else (uiA = uiB \<or> (ucast (push_bit 1 (uiA OR uiB)) :: uint32_t) = 0, st))"

definition f32_eq_signaling :: "float32_t \<Rightarrow> float32_t \<Rightarrow> sf_state \<Rightarrow> bool \<times> sf_state" where
  "f32_eq_signaling a b st =
     (let uiA = ucast a :: uint_fast32_t; uiB = ucast b :: uint_fast32_t
      in if isNaNF32UI uiA \<or> isNaNF32UI uiB then
           (False, softfloat_raiseFlags softfloat_flag_invalid st)
         else (uiA = uiB \<or> (ucast (push_bit 1 (uiA OR uiB)) :: uint32_t) = 0, st))"

definition f32_le :: "float32_t \<Rightarrow> float32_t \<Rightarrow> sf_state \<Rightarrow> bool \<times> sf_state" where
  "f32_le a b st =
     (let uiA = ucast a :: uint_fast32_t; uiB = ucast b :: uint_fast32_t
      in if isNaNF32UI uiA \<or> isNaNF32UI uiB then
           (False, softfloat_raiseFlags softfloat_flag_invalid st)
         else
           let signA = signF32UI uiA; signB = signF32UI uiB
           in (if signA \<noteq> signB then signA \<or> (ucast (push_bit 1 (uiA OR uiB)) :: uint32_t) = 0
               else uiA = uiB \<or> signA \<noteq> (uiA < uiB), st))"

definition f32_le_quiet :: "float32_t \<Rightarrow> float32_t \<Rightarrow> sf_state \<Rightarrow> bool \<times> sf_state" where
  "f32_le_quiet a b st =
     (let uiA = ucast a :: uint_fast32_t; uiB = ucast b :: uint_fast32_t
      in if isNaNF32UI uiA \<or> isNaNF32UI uiB then
           (False, if softfloat_isSigNaNF32UI uiA \<or> softfloat_isSigNaNF32UI uiB
                  then softfloat_raiseFlags softfloat_flag_invalid st else st)
         else
           let signA = signF32UI uiA; signB = signF32UI uiB
           in (if signA \<noteq> signB then signA \<or> (ucast (push_bit 1 (uiA OR uiB)) :: uint32_t) = 0
               else uiA = uiB \<or> signA \<noteq> (uiA < uiB), st))"

definition f32_lt :: "float32_t \<Rightarrow> float32_t \<Rightarrow> sf_state \<Rightarrow> bool \<times> sf_state" where
  "f32_lt a b st =
     (let uiA = ucast a :: uint_fast32_t; uiB = ucast b :: uint_fast32_t
      in if isNaNF32UI uiA \<or> isNaNF32UI uiB then
           (False, softfloat_raiseFlags softfloat_flag_invalid st)
         else
           let signA = signF32UI uiA; signB = signF32UI uiB
           in (if signA \<noteq> signB then signA \<and> (ucast (push_bit 1 (uiA OR uiB)) :: uint32_t) \<noteq> 0
               else uiA \<noteq> uiB \<and> signA \<noteq> (uiA < uiB), st))"

definition f32_lt_quiet :: "float32_t \<Rightarrow> float32_t \<Rightarrow> sf_state \<Rightarrow> bool \<times> sf_state" where
  "f32_lt_quiet a b st =
     (let uiA = ucast a :: uint_fast32_t; uiB = ucast b :: uint_fast32_t
      in if isNaNF32UI uiA \<or> isNaNF32UI uiB then
           (False, if softfloat_isSigNaNF32UI uiA \<or> softfloat_isSigNaNF32UI uiB
                  then softfloat_raiseFlags softfloat_flag_invalid st else st)
         else
           let signA = signF32UI uiA; signB = signF32UI uiB
           in (if signA \<noteq> signB then signA \<and> (ucast (push_bit 1 (uiA OR uiB)) :: uint32_t) \<noteq> 0
               else uiA \<noteq> uiB \<and> signA \<noteq> (uiA < uiB), st))"

definition f32_isSignalingNaN :: "float32_t \<Rightarrow> bool" where
  "f32_isSignalingNaN a = softfloat_isSigNaNF32UI (ucast a)"

definition f32_classify :: "float32_t \<Rightarrow> uint_fast16_t" where
  "f32_classify a =
     (let uiA = ucast a :: uint_fast32_t;
          infOrNaN = (expF32UI uiA = 0xFF);
          subnormalOrZero = (expF32UI uiA = 0);
          sign = signF32UI uiA;
          fracZero = (fracF32UI uiA = 0);
          isNaN = isNaNF32UI uiA;
          isSNaN = softfloat_isSigNaNF32UI uiA
      in push_bit 0 (of_bool (sign \<and> infOrNaN \<and> fracZero)) OR
         push_bit 1 (of_bool (sign \<and> \<not> infOrNaN \<and> \<not> subnormalOrZero)) OR
         push_bit 2 (of_bool (sign \<and> subnormalOrZero \<and> \<not> fracZero)) OR
         push_bit 3 (of_bool (sign \<and> subnormalOrZero \<and> fracZero)) OR
         push_bit 7 (of_bool (\<not> sign \<and> infOrNaN \<and> fracZero)) OR
         push_bit 6 (of_bool (\<not> sign \<and> \<not> infOrNaN \<and> \<not> subnormalOrZero)) OR
         push_bit 5 (of_bool (\<not> sign \<and> subnormalOrZero \<and> \<not> fracZero)) OR
         push_bit 4 (of_bool (\<not> sign \<and> subnormalOrZero \<and> fracZero)) OR
         push_bit 8 (of_bool (isNaN \<and> isSNaN)) OR
         push_bit 9 (of_bool (isNaN \<and> \<not> isSNaN)))"

definition f32_max :: "float32_t \<Rightarrow> float32_t \<Rightarrow> sf_state \<Rightarrow> float32_t \<times> sf_state" where
  "f32_max a b st =
     (let (lt, st) = f32_lt_quiet b a st;
          (greater, st) =
            (if lt then (True, st)
             else let (eq, st) = f32_eq b a st in (eq \<and> signF32UI (ucast b), st))
      in if isNaNF32UI (ucast a) \<and> isNaNF32UI (ucast b) then (ucast defaultNaNF32UI, st)
         else (if greater \<or> isNaNF32UI (ucast b) then a else b, st))"

definition f32_min :: "float32_t \<Rightarrow> float32_t \<Rightarrow> sf_state \<Rightarrow> float32_t \<times> sf_state" where
  "f32_min a b st =
     (let (lt, st) = f32_lt_quiet a b st;
          (less, st) =
            (if lt then (True, st)
             else let (eq, st) = f32_eq a b st in (eq \<and> signF32UI (ucast a), st))
      in if isNaNF32UI (ucast a) \<and> isNaNF32UI (ucast b) then (ucast defaultNaNF32UI, st)
         else (if less \<or> isNaNF32UI (ucast b) then a else b, st))"

section \<open>Binary64\<close>

definition f64_eq :: "float64_t \<Rightarrow> float64_t \<Rightarrow> sf_state \<Rightarrow> bool \<times> sf_state" where
  "f64_eq a b st =
     (let uiA = a; uiB = b
      in if isNaNF64UI uiA \<or> isNaNF64UI uiB then
           (False, if softfloat_isSigNaNF64UI uiA \<or> softfloat_isSigNaNF64UI uiB
                  then softfloat_raiseFlags softfloat_flag_invalid st else st)
         else (uiA = uiB \<or> (uiA OR uiB) AND 0x7FFFFFFFFFFFFFFF = 0, st))"

definition f64_eq_signaling :: "float64_t \<Rightarrow> float64_t \<Rightarrow> sf_state \<Rightarrow> bool \<times> sf_state" where
  "f64_eq_signaling a b st =
     (let uiA = a; uiB = b
      in if isNaNF64UI uiA \<or> isNaNF64UI uiB then
           (False, softfloat_raiseFlags softfloat_flag_invalid st)
         else (uiA = uiB \<or> (uiA OR uiB) AND 0x7FFFFFFFFFFFFFFF = 0, st))"

definition f64_le :: "float64_t \<Rightarrow> float64_t \<Rightarrow> sf_state \<Rightarrow> bool \<times> sf_state" where
  "f64_le a b st =
     (let uiA = a; uiB = b
      in if isNaNF64UI uiA \<or> isNaNF64UI uiB then
           (False, softfloat_raiseFlags softfloat_flag_invalid st)
         else
           let signA = signF64UI uiA; signB = signF64UI uiB
           in (if signA \<noteq> signB then signA \<or> (uiA OR uiB) AND 0x7FFFFFFFFFFFFFFF = 0
               else uiA = uiB \<or> signA \<noteq> (uiA < uiB), st))"

definition f64_le_quiet :: "float64_t \<Rightarrow> float64_t \<Rightarrow> sf_state \<Rightarrow> bool \<times> sf_state" where
  "f64_le_quiet a b st =
     (let uiA = a; uiB = b
      in if isNaNF64UI uiA \<or> isNaNF64UI uiB then
           (False, if softfloat_isSigNaNF64UI uiA \<or> softfloat_isSigNaNF64UI uiB
                  then softfloat_raiseFlags softfloat_flag_invalid st else st)
         else
           let signA = signF64UI uiA; signB = signF64UI uiB
           in (if signA \<noteq> signB then signA \<or> (uiA OR uiB) AND 0x7FFFFFFFFFFFFFFF = 0
               else uiA = uiB \<or> signA \<noteq> (uiA < uiB), st))"

definition f64_lt :: "float64_t \<Rightarrow> float64_t \<Rightarrow> sf_state \<Rightarrow> bool \<times> sf_state" where
  "f64_lt a b st =
     (let uiA = a; uiB = b
      in if isNaNF64UI uiA \<or> isNaNF64UI uiB then
           (False, softfloat_raiseFlags softfloat_flag_invalid st)
         else
           let signA = signF64UI uiA; signB = signF64UI uiB
           in (if signA \<noteq> signB then signA \<and> (uiA OR uiB) AND 0x7FFFFFFFFFFFFFFF \<noteq> 0
               else uiA \<noteq> uiB \<and> signA \<noteq> (uiA < uiB), st))"

definition f64_lt_quiet :: "float64_t \<Rightarrow> float64_t \<Rightarrow> sf_state \<Rightarrow> bool \<times> sf_state" where
  "f64_lt_quiet a b st =
     (let uiA = a; uiB = b
      in if isNaNF64UI uiA \<or> isNaNF64UI uiB then
           (False, if softfloat_isSigNaNF64UI uiA \<or> softfloat_isSigNaNF64UI uiB
                  then softfloat_raiseFlags softfloat_flag_invalid st else st)
         else
           let signA = signF64UI uiA; signB = signF64UI uiB
           in (if signA \<noteq> signB then signA \<and> (uiA OR uiB) AND 0x7FFFFFFFFFFFFFFF \<noteq> 0
               else uiA \<noteq> uiB \<and> signA \<noteq> (uiA < uiB), st))"

definition f64_isSignalingNaN :: "float64_t \<Rightarrow> bool" where
  "f64_isSignalingNaN a = softfloat_isSigNaNF64UI a"

definition f64_classify :: "float64_t \<Rightarrow> uint_fast16_t" where
  "f64_classify a =
     (let uiA = a;
          infOrNaN = (expF64UI uiA = 0x7FF);
          subnormalOrZero = (expF64UI uiA = 0);
          sign = signF64UI uiA;
          fracZero = (fracF64UI uiA = 0);
          isNaN = isNaNF64UI uiA;
          isSNaN = softfloat_isSigNaNF64UI uiA
      in push_bit 0 (of_bool (sign \<and> infOrNaN \<and> fracZero)) OR
         push_bit 1 (of_bool (sign \<and> \<not> infOrNaN \<and> \<not> subnormalOrZero)) OR
         push_bit 2 (of_bool (sign \<and> subnormalOrZero \<and> \<not> fracZero)) OR
         push_bit 3 (of_bool (sign \<and> subnormalOrZero \<and> fracZero)) OR
         push_bit 7 (of_bool (\<not> sign \<and> infOrNaN \<and> fracZero)) OR
         push_bit 6 (of_bool (\<not> sign \<and> \<not> infOrNaN \<and> \<not> subnormalOrZero)) OR
         push_bit 5 (of_bool (\<not> sign \<and> subnormalOrZero \<and> \<not> fracZero)) OR
         push_bit 4 (of_bool (\<not> sign \<and> subnormalOrZero \<and> fracZero)) OR
         push_bit 8 (of_bool (isNaN \<and> isSNaN)) OR
         push_bit 9 (of_bool (isNaN \<and> \<not> isSNaN)))"

definition f64_max :: "float64_t \<Rightarrow> float64_t \<Rightarrow> sf_state \<Rightarrow> float64_t \<times> sf_state" where
  "f64_max a b st =
     (let (lt, st) = f64_lt_quiet b a st;
          (greater, st) =
            (if lt then (True, st)
             else let (eq, st) = f64_eq b a st in (eq \<and> signF64UI b, st))
      in if isNaNF64UI a \<and> isNaNF64UI b then (defaultNaNF64UI, st)
         else (if greater \<or> isNaNF64UI b then a else b, st))"

definition f64_min :: "float64_t \<Rightarrow> float64_t \<Rightarrow> sf_state \<Rightarrow> float64_t \<times> sf_state" where
  "f64_min a b st =
     (let (lt, st) = f64_lt_quiet a b st;
          (less, st) =
            (if lt then (True, st)
             else let (eq, st) = f64_eq a b st in (eq \<and> signF64UI a, st))
      in if isNaNF64UI a \<and> isNaNF64UI b then (defaultNaNF64UI, st)
         else (if less \<or> isNaNF64UI b then a else b, st))"

section \<open>Values and their order\<close>

text \<open>The value of a pattern, with the infinities at the ends of the order and NaNs outside it.\<close>

datatype fp_val = NaN | MInf | Fin real | PInf

definition fp_value :: "nat \<Rightarrow> nat \<Rightarrow> 'w::len word \<Rightarrow> fp_val" where
  "fp_value fb eb w =
     (if fp_is_nan fb eb w then NaN
      else if fp_is_inf fb eb w then if fp_neg fb eb w then MInf else PInf
      else Fin (fp_real fb eb w))"

fun val_le :: "fp_val \<Rightarrow> fp_val \<Rightarrow> bool" where
  "val_le NaN _ \<longleftrightarrow> False"
| "val_le _ NaN \<longleftrightarrow> False"
| "val_le MInf _ \<longleftrightarrow> True"
| "val_le _ PInf \<longleftrightarrow> True"
| "val_le (Fin x) (Fin y) \<longleftrightarrow> x \<le> y"
| "val_le _ _ \<longleftrightarrow> False"

definition val_eq :: "fp_val \<Rightarrow> fp_val \<Rightarrow> bool" where
  "val_eq x y \<longleftrightarrow> val_le x y \<and> val_le y x"

definition val_lt :: "fp_val \<Rightarrow> fp_val \<Rightarrow> bool" where
  "val_lt x y \<longleftrightarrow> val_le x y \<and> \<not> val_le y x"

text \<open>
  What a comparison returns: false for unordered operands, with the invalid exception for a NaN
  (signaling comparisons) or a signaling NaN only (quiet ones).
\<close>

definition fp_cmp ::
  "nat \<Rightarrow> nat \<Rightarrow> bool \<Rightarrow> (fp_val \<Rightarrow> fp_val \<Rightarrow> bool) \<Rightarrow> 'w::len word \<Rightarrow> 'w word \<Rightarrow> sf_state
   \<Rightarrow> bool \<times> sf_state" where
  "fp_cmp fb eb signaling R a b st =
     (R (fp_value fb eb a) (fp_value fb eb b),
      if (fp_is_nan fb eb a \<or> fp_is_nan fb eb b) \<and> signaling \<or> fp_is_snan fb eb a \<or> fp_is_snan fb eb b
      then softfloat_raiseFlags softfloat_flag_invalid st else st)"

text \<open>The position of a pattern in the total order that puts negative zero below positive zero.\<close>

definition fp_rank :: "nat \<Rightarrow> nat \<Rightarrow> 'w::len word \<Rightarrow> int" where
  "fp_rank fb eb w =
     (if fp_neg fb eb w then - int (fp_magbits fb eb w) - 1 else int (fp_magbits fb eb w))"

definition fp_maxmin ::
  "nat \<Rightarrow> nat \<Rightarrow> bool \<Rightarrow> 'w::len word \<Rightarrow> 'w word \<Rightarrow> sf_state \<Rightarrow> 'w word \<times> sf_state" where
  "fp_maxmin fb eb isMax a b st =
     (if fp_is_nan fb eb a \<and> fp_is_nan fb eb b then fp_qnan fb eb
      else if fp_is_nan fb eb a then b
      else if fp_is_nan fb eb b then a
      else if fp_rank fb eb a \<le> fp_rank fb eb b then if isMax then b else a
      else if isMax then a else b,
      if fp_is_snan fb eb a \<or> fp_is_snan fb eb b
      then softfloat_raiseFlags softfloat_flag_invalid st else st)"

text \<open>The ten classes of the RISC-V \<^verbatim>\<open>fclass\<close> instruction, by the bit that names them.\<close>

definition fp_class :: "nat \<Rightarrow> nat \<Rightarrow> 'w::len word \<Rightarrow> nat" where
  "fp_class fb eb w =
     (if fp_is_snan fb eb w then 8
      else if fp_is_nan fb eb w then 9
      else if fp_is_inf fb eb w then if fp_neg fb eb w then 0 else 7
      else if fp_magbits fb eb w = 0 then if fp_neg fb eb w then 3 else 4
      else if fp_magbits fb eb w < 2 ^ fb then if fp_neg fb eb w then 2 else 5
      else if fp_neg fb eb w then 1 else 6)"

section \<open>The order of the patterns is the order of the values\<close>

lemma mag_Suc: "fp_mag fb eb u < fp_mag fb eb (Suc u)"
proof -
  let ?q = "fp_qmin fb eb"
  define E F where "E = u div 2 ^ fb" and "F = u mod 2 ^ fb"
  have u: "u = E * 2 ^ fb + F" by (simp only: E_def F_def div_mult_mod_eq)
  have F: "F < 2 ^ fb" by (simp add: F_def)
  show ?thesis
  proof (cases "Suc F < 2 ^ fb")
    case True
    moreover have "Suc u = Suc F + E * 2 ^ fb" by (simp add: u)
    ultimately have "Suc u div 2 ^ fb = E" "Suc u mod 2 ^ fb = Suc F"
      by (simp_all only: div_mult_self1 mod_mult_self1) simp_all
    then show ?thesis by (simp add: fp_mag_def E_def [symmetric] F_def [symmetric])
  next
    case False
    then have F': "Suc F = 2 ^ fb" using F by simp
    then have "Suc u = Suc E * 2 ^ fb" by (simp add: u)
    then have s: "Suc u div 2 ^ fb = Suc E" "Suc u mod 2 ^ fb = 0"
      by (simp_all only: nonzero_mult_div_cancel_right mod_mult_self2_is_0) simp_all
    have "real (Suc F) = real (2 ^ fb)" by (simp only: F')
    then have rF: "real F = 2 ^ fb - 1" by simp
    have "(2 ^ fb + real F) * pw2 (?q + int E - 1) < 2 ^ fb * pw2 (?q + int E)"
    proof -
      have "(2 ^ fb + real F) * pw2 (?q + int E - 1) < (2 * 2 ^ fb) * pw2 (?q + int E - 1)"
        unfolding rF by (intro mult_strict_right_mono) simp_all
      also have "\<dots> = 2 ^ fb * pw2 (?q + int E)" by (simp add: pw2_diff)
      finally show ?thesis .
    qed
    moreover have "real F * pw2 ?q < 2 ^ fb * pw2 ?q" by (simp add: rF)
    ultimately show ?thesis
      unfolding fp_mag_def Let_def s E_def [symmetric] F_def [symmetric] by (simp add: pw2_diff)
  qed
qed

lemma mag_less_iff: "fp_mag fb eb u < fp_mag fb eb v \<longleftrightarrow> u < v"
  using lift_Suc_mono_less_iff [of "fp_mag fb eb", OF mag_Suc] .

lemma mag_le_iff: "fp_mag fb eb u \<le> fp_mag fb eb v \<longleftrightarrow> u \<le> v"
  by (simp only: not_less [symmetric] mag_less_iff)

lemma mag_nonneg: "0 \<le> fp_mag fb eb u"
  by (simp add: fp_mag_def Let_def)

lemma mag_0 [simp]: "fp_mag fb eb 0 = 0"
  by (simp add: fp_mag_def)

definition fp_signed :: "nat \<Rightarrow> nat \<Rightarrow> 'w::len word \<Rightarrow> int" where
  "fp_signed fb eb w = (if fp_neg fb eb w then - int (fp_magbits fb eb w) else int (fp_magbits fb eb w))"

lemma mag_eq_0_iff [simp]: "fp_mag fb eb u = 0 \<longleftrightarrow> u = 0"
  by (metis less_irrefl mag_0 mag_less_iff neq0_conv)

lemma real_le_iff: "fp_real fb eb a \<le> fp_real fb eb b \<longleftrightarrow> fp_signed fb eb a \<le> fp_signed fb eb b"
proof -
  let ?m = "\<lambda>w. fp_mag fb eb (fp_magbits fb eb w)"
  have "- ?m a \<le> ?m b" using mag_nonneg [of fb eb "fp_magbits fb eb a"] mag_nonneg [of fb eb "fp_magbits fb eb b"]
    by linarith
  moreover have "?m a \<le> - ?m b \<longleftrightarrow> ?m a = 0 \<and> ?m b = 0"
    using mag_nonneg [of fb eb "fp_magbits fb eb a"] mag_nonneg [of fb eb "fp_magbits fb eb b"] by linarith
  moreover have "int n \<le> - int k \<longleftrightarrow> n = 0 \<and> k = 0" for n k by auto
  ultimately show ?thesis
    by (cases "fp_neg fb eb a"; cases "fp_neg fb eb b") (simp_all add: fp_real_def fp_signed_def mag_le_iff)
qed

lemma value_nan: "fp_value fb eb a = NaN \<longleftrightarrow> fp_is_nan fb eb a"
  by (simp add: fp_value_def)

lemma val_le_nan [simp]: "\<not> val_le x NaN"
  by (cases x) simp_all

text \<open>The pattern as an unsigned number, split at the sign bit.\<close>

context sf_format
begin

lemma value_le_iff:
  assumes "\<not> fp_is_nan fb eb a" and "\<not> fp_is_nan fb eb b"
  shows "val_le (fp_value fb eb a) (fp_value fb eb b) \<longleftrightarrow> fp_signed fb eb a \<le> fp_signed fb eb b"
  using assms real_le_iff [of fb eb a b] inf_pos
  by (auto simp: fp_value_def fp_signed_def fp_is_nan_def fp_is_inf_def)

lemmas value_order = value_le_iff val_eq_def val_lt_def

lemma eq_split:
  "(a :: 'w word) = b \<longleftrightarrow> fp_neg fb eb a = fp_neg fb eb b \<and> fp_magbits fb eb a = fp_magbits fb eb b"
  using unat_split [of a] unat_split [of b] magbits_less [of fb eb a] magbits_less [of fb eb b]
  by (cases "fp_neg fb eb a"; cases "fp_neg fb eb b") (simp_all add: word_eq_unat)

lemma ucast_less: "(ucast (a :: 'w word) :: uint64_t) < ucast (b :: 'w word) \<longleftrightarrow> unat a < unat b"
  using width(2) by (simp add: word_less_nat_alt)

lemma ucast_eq: "(ucast (a :: 'w word) :: uint64_t) = ucast (b :: 'w word) \<longleftrightarrow> a = b"
  using width(2) by (simp add: word_eq_unat)

lemma snan_nan: "fp_is_snan fb eb a \<Longrightarrow> fp_is_nan fb eb a"
  by (simp add: fp_is_snan_def)

lemma less_split:
  assumes "fp_neg fb eb (a :: 'w word) = fp_neg fb eb (b :: 'w word)"
  shows "unat a < unat b \<longleftrightarrow> fp_magbits fb eb a < fp_magbits fb eb b"
  using assms by (simp add: unat_split)

end

section \<open>Correctness of the comparisons\<close>

definition gen_cmp ::
  "'w word sf_ops \<Rightarrow> bool \<Rightarrow> (uint64_t \<Rightarrow> uint64_t \<Rightarrow> bool) \<Rightarrow> 'w::len word \<Rightarrow> 'w word \<Rightarrow> sf_state
   \<Rightarrow> bool \<times> sf_state" where
  "gen_cmp ops signaling test a b st =
     (if o_isNaN ops (ucast a) \<or> o_isNaN ops (ucast b)
      then (False, if signaling \<or> o_isSigNaN ops (ucast a) \<or> o_isSigNaN ops (ucast b)
                   then softfloat_raiseFlags softfloat_flag_invalid st else st)
      else (test (ucast a) (ucast b), st))"

definition gen_eq :: "(uint64_t \<Rightarrow> uint64_t \<Rightarrow> bool) \<Rightarrow> uint64_t \<Rightarrow> uint64_t \<Rightarrow> bool" where
  "gen_eq bothZero uiA uiB \<longleftrightarrow> uiA = uiB \<or> bothZero uiA uiB"

definition gen_le ::
  "'w word sf_ops \<Rightarrow> (uint64_t \<Rightarrow> uint64_t \<Rightarrow> bool) \<Rightarrow> uint64_t \<Rightarrow> uint64_t \<Rightarrow> bool" where
  "gen_le ops bothZero uiA uiB \<longleftrightarrow>
     (if o_sign ops uiA \<noteq> o_sign ops uiB then o_sign ops uiA \<or> bothZero uiA uiB
      else uiA = uiB \<or> o_sign ops uiA \<noteq> (uiA < uiB))"

definition gen_lt ::
  "'w word sf_ops \<Rightarrow> (uint64_t \<Rightarrow> uint64_t \<Rightarrow> bool) \<Rightarrow> uint64_t \<Rightarrow> uint64_t \<Rightarrow> bool" where
  "gen_lt ops bothZero uiA uiB \<longleftrightarrow>
     (if o_sign ops uiA \<noteq> o_sign ops uiB then o_sign ops uiA \<and> \<not> bothZero uiA uiB
      else uiA \<noteq> uiB \<and> o_sign ops uiA \<noteq> (uiA < uiB))"

locale sf_compare = sf_format fb eb g ops for fb eb g :: nat and ops :: "'w::len word sf_ops" +
  fixes bothZero :: "uint64_t \<Rightarrow> uint64_t \<Rightarrow> bool"
  assumes bothZero: "bothZero (ucast a) (ucast (b :: 'w word)) \<longleftrightarrow>
    fp_magbits fb eb (a :: 'w word) = 0 \<and> fp_magbits fb eb b = 0"
begin

lemma cmp_correct:
  fixes a b :: "'w word"
  assumes "\<And>(a :: 'w word) (b :: 'w word). \<lbrakk>\<not> fp_is_nan fb eb a; \<not> fp_is_nan fb eb b\<rbrakk>
      \<Longrightarrow> test (ucast a) (ucast b) \<longleftrightarrow> R (fp_value fb eb a) (fp_value fb eb b)"
    and "\<And>x. \<not> R NaN x" "\<And>x. \<not> R x NaN"
  shows "gen_cmp ops signaling test a b st = fp_cmp fb eb signaling R a b st"
  using assms(1) [of a b] assms(2,3) snan_nan [of a] snan_nan [of b]
  by (auto simp: gen_cmp_def fp_cmp_def isNaN isSigNaN value_nan [THEN iffD2])

lemma eq_correct: "gen_cmp ops signaling (gen_eq bothZero) a b st = fp_cmp fb eb signaling val_eq a b st"
  by (rule cmp_correct)
    (auto simp: gen_eq_def value_order ucast_eq eq_split bothZero fp_signed_def)

lemma le_correct: "gen_cmp ops signaling (gen_le ops bothZero) a b st = fp_cmp fb eb signaling val_le a b st"
  by (rule cmp_correct)
    (auto simp: gen_le_def value_order ucast_eq ucast_less eq_split less_split bothZero sign fp_signed_def)

lemma lt_correct: "gen_cmp ops signaling (gen_lt ops bothZero) a b st = fp_cmp fb eb signaling val_lt a b st"
  by (rule cmp_correct)
    (auto simp: gen_lt_def value_order ucast_eq ucast_less eq_split less_split bothZero sign fp_signed_def)

end

text \<open>The test that both operands are zeros.\<close>

lemma bothZero_shift:
  fixes a b :: "'w::len word"
  assumes "LENGTH('w) = Suc n" and "LENGTH('w) \<le> 64"
  shows "(ucast (push_bit 1 (ucast a OR ucast b :: uint64_t)) :: 'w word) = 0 \<longleftrightarrow>
    unat a mod 2 ^ n = 0 \<and> unat b mod 2 ^ n = 0"
proof -
  define x where "x = (ucast a OR ucast b :: uint64_t)"
  have "(2::nat) ^ Suc n dvd 2 ^ 64" using assms by (intro le_imp_power_dvd) simp
  then have "unat (ucast (push_bit 1 x) :: 'w word) = unat x * 2 mod 2 ^ Suc n"
    using assms by (simp only: unat_ucast unat_push_bit len_num1 len_num0 len_bit0) (simp add: mod_mod_cancel)
  also have "\<dots> = unat x mod 2 ^ n * 2" by (simp add: mult_mod_left)
  finally have "(ucast (push_bit 1 x) :: 'w word) = 0 \<longleftrightarrow> unat x mod 2 ^ n = 0" by (simp add: word_eq_unat)
  also have "unat x = unat a OR unat b" using assms(2) by (simp add: x_def unat_or)
  finally have "(ucast (push_bit 1 (ucast a OR ucast b :: uint64_t)) :: 'w word) = 0 \<longleftrightarrow>
      (unat a OR unat b) mod 2 ^ n = 0" unfolding x_def .
  also have "\<dots> \<longleftrightarrow> take_bit n (unat a OR unat b) = 0" by (simp add: take_bit_eq_mod)
  also have "\<dots> \<longleftrightarrow> unat a mod 2 ^ n = 0 \<and> unat b mod 2 ^ n = 0"
    by (simp add: or_eq_0_iff take_bit_or) (simp add: take_bit_eq_mod)
  finally show ?thesis .
qed

lemma bothZero_mask:
  "(a OR b) AND 0x7FFFFFFFFFFFFFFF = (0 :: uint64_t) \<longleftrightarrow> unat a mod 2 ^ 63 = 0 \<and> unat b mod 2 ^ 63 = 0"
proof -
  have "(0x7FFFFFFFFFFFFFFF :: uint64_t) = mask 63" by (simp add: mask_eq_exp_minus_1)
  then have "(a OR b) AND 0x7FFFFFFFFFFFFFFF = (0 :: uint64_t) \<longleftrightarrow> take_bit 63 (unat a OR unat b) = 0"
    by (simp only: and_mask_eq_0_iff unat_or take_bit_eq_mod)
  then show ?thesis by (simp add: or_eq_0_iff take_bit_or) (simp add: take_bit_eq_mod)
qed

interpretation cmp16: sf_compare 10 5 4 f16_ops "\<lambda>uiA uiB. (ucast (push_bit 1 (uiA OR uiB)) :: uint16_t) = 0"
  by unfold_locales (rule trans [OF bothZero_shift [where n = 15]], simp_all add: fp_magbits_def)

interpretation cmp32: sf_compare 23 8 7 f32_ops "\<lambda>uiA uiB. (ucast (push_bit 1 (uiA OR uiB)) :: uint32_t) = 0"
  by unfold_locales (rule trans [OF bothZero_shift [where n = 31]], simp_all add: fp_magbits_def)

interpretation cmp64: sf_compare 52 11 10 f64_ops "\<lambda>uiA uiB. (uiA OR uiB) AND 0x7FFFFFFFFFFFFFFF = 0"
  by unfold_locales (simp only: bothZero_mask fp_magbits_def ucast_id, simp)

section \<open>The comparisons of the three formats\<close>

lemma f16_eq_spec: "f16_eq a b st = fp_cmp 10 5 False val_eq a b st"
  unfolding cmp16.eq_correct [symmetric] gen_cmp_def gen_eq_def f16_eq_def Let_def by simp

lemma f32_eq_spec: "f32_eq a b st = fp_cmp 23 8 False val_eq a b st"
  unfolding cmp32.eq_correct [symmetric] gen_cmp_def gen_eq_def f32_eq_def Let_def by simp

lemma f64_eq_spec: "f64_eq a b st = fp_cmp 52 11 False val_eq a b st"
  unfolding cmp64.eq_correct [symmetric] gen_cmp_def gen_eq_def f64_eq_def Let_def by simp

lemma f16_eq_signaling_spec: "f16_eq_signaling a b st = fp_cmp 10 5 True val_eq a b st"
  unfolding cmp16.eq_correct [symmetric] gen_cmp_def gen_eq_def f16_eq_signaling_def Let_def by simp

lemma f32_eq_signaling_spec: "f32_eq_signaling a b st = fp_cmp 23 8 True val_eq a b st"
  unfolding cmp32.eq_correct [symmetric] gen_cmp_def gen_eq_def f32_eq_signaling_def Let_def by simp

lemma f64_eq_signaling_spec: "f64_eq_signaling a b st = fp_cmp 52 11 True val_eq a b st"
  unfolding cmp64.eq_correct [symmetric] gen_cmp_def gen_eq_def f64_eq_signaling_def Let_def by simp

lemma f16_le_spec: "f16_le a b st = fp_cmp 10 5 True val_le a b st"
  unfolding cmp16.le_correct [symmetric] gen_cmp_def gen_le_def f16_le_def Let_def by simp

lemma f32_le_spec: "f32_le a b st = fp_cmp 23 8 True val_le a b st"
  unfolding cmp32.le_correct [symmetric] gen_cmp_def gen_le_def f32_le_def Let_def by simp

lemma f64_le_spec: "f64_le a b st = fp_cmp 52 11 True val_le a b st"
  unfolding cmp64.le_correct [symmetric] gen_cmp_def gen_le_def f64_le_def Let_def by simp

lemma f16_le_quiet_spec: "f16_le_quiet a b st = fp_cmp 10 5 False val_le a b st"
  unfolding cmp16.le_correct [symmetric] gen_cmp_def gen_le_def f16_le_quiet_def Let_def by simp

lemma f32_le_quiet_spec: "f32_le_quiet a b st = fp_cmp 23 8 False val_le a b st"
  unfolding cmp32.le_correct [symmetric] gen_cmp_def gen_le_def f32_le_quiet_def Let_def by simp

lemma f64_le_quiet_spec: "f64_le_quiet a b st = fp_cmp 52 11 False val_le a b st"
  unfolding cmp64.le_correct [symmetric] gen_cmp_def gen_le_def f64_le_quiet_def Let_def by simp

lemma f16_lt_spec: "f16_lt a b st = fp_cmp 10 5 True val_lt a b st"
  unfolding cmp16.lt_correct [symmetric] gen_cmp_def gen_lt_def f16_lt_def Let_def by simp

lemma f32_lt_spec: "f32_lt a b st = fp_cmp 23 8 True val_lt a b st"
  unfolding cmp32.lt_correct [symmetric] gen_cmp_def gen_lt_def f32_lt_def Let_def by simp

lemma f64_lt_spec: "f64_lt a b st = fp_cmp 52 11 True val_lt a b st"
  unfolding cmp64.lt_correct [symmetric] gen_cmp_def gen_lt_def f64_lt_def Let_def by simp

lemma f16_lt_quiet_spec: "f16_lt_quiet a b st = fp_cmp 10 5 False val_lt a b st"
  unfolding cmp16.lt_correct [symmetric] gen_cmp_def gen_lt_def f16_lt_quiet_def Let_def by simp

lemma f32_lt_quiet_spec: "f32_lt_quiet a b st = fp_cmp 23 8 False val_lt a b st"
  unfolding cmp32.lt_correct [symmetric] gen_cmp_def gen_lt_def f32_lt_quiet_def Let_def by simp

lemma f64_lt_quiet_spec: "f64_lt_quiet a b st = fp_cmp 52 11 False val_lt a b st"
  unfolding cmp64.lt_correct [symmetric] gen_cmp_def gen_lt_def f64_lt_quiet_def Let_def by simp

lemmas compare_specs = f16_eq_spec f32_eq_spec f64_eq_spec f16_eq_signaling_spec f32_eq_signaling_spec
  f64_eq_signaling_spec f16_le_spec f32_le_spec f64_le_spec f16_le_quiet_spec f32_le_quiet_spec
  f64_le_quiet_spec f16_lt_spec f32_lt_spec f64_lt_spec f16_lt_quiet_spec f32_lt_quiet_spec f64_lt_quiet_spec

section \<open>Maximum, minimum and classification\<close>

definition gen_maxmin ::
  "'w word sf_ops \<Rightarrow> nat \<Rightarrow> nat \<Rightarrow> bool \<Rightarrow> 'w::len word \<Rightarrow> 'w word \<Rightarrow> sf_state \<Rightarrow> 'w word \<times> sf_state" where
  "gen_maxmin ops fb eb isMax a b st =
     (let p = (if isMax then b else a); q = (if isMax then a else b);
          (lt, st) = fp_cmp fb eb False val_lt p q st;
          (chosen, st) =
            (if lt then (True, st)
             else let (eq, st) = fp_cmp fb eb False val_eq p q st in (eq \<and> o_sign ops (ucast p), st))
      in if o_isNaN ops (ucast a) \<and> o_isNaN ops (ucast b) then (o_defaultNaN ops, st)
         else (if chosen \<or> o_isNaN ops (ucast b) then a else b, st))"

definition gen_classify :: "'w word sf_ops \<Rightarrow> nat \<Rightarrow> 'w::len word \<Rightarrow> uint_fast16_t" where
  "gen_classify ops eb a =
     (let infOrNaN = (o_exp ops (ucast a) = 2 ^ eb - 1);
          subnormalOrZero = (o_exp ops (ucast a) = 0);
          sign = o_sign ops (ucast a);
          fracZero = (o_frac ops (ucast a) = 0);
          isNaN = o_isNaN ops (ucast a);
          isSNaN = o_isSigNaN ops (ucast a)
      in push_bit 0 (of_bool (sign \<and> infOrNaN \<and> fracZero)) OR
         push_bit 1 (of_bool (sign \<and> \<not> infOrNaN \<and> \<not> subnormalOrZero)) OR
         push_bit 2 (of_bool (sign \<and> subnormalOrZero \<and> \<not> fracZero)) OR
         push_bit 3 (of_bool (sign \<and> subnormalOrZero \<and> fracZero)) OR
         push_bit 7 (of_bool (\<not> sign \<and> infOrNaN \<and> fracZero)) OR
         push_bit 6 (of_bool (\<not> sign \<and> \<not> infOrNaN \<and> \<not> subnormalOrZero)) OR
         push_bit 5 (of_bool (\<not> sign \<and> subnormalOrZero \<and> \<not> fracZero)) OR
         push_bit 4 (of_bool (\<not> sign \<and> subnormalOrZero \<and> fracZero)) OR
         push_bit 8 (of_bool (isNaN \<and> isSNaN)) OR
         push_bit 9 (of_bool (isNaN \<and> \<not> isSNaN)))"

context sf_format
begin

lemma rank_eq: "fp_rank fb eb (a :: 'w word) = fp_rank fb eb (b :: 'w word) \<longleftrightarrow> a = b"
  unfolding eq_split fp_rank_def by (auto split: if_splits)

lemma pick_iff:
  assumes "\<not> fp_is_nan fb eb (a :: 'w word)" and "\<not> fp_is_nan fb eb (b :: 'w word)"
  shows "val_lt (fp_value fb eb a) (fp_value fb eb b) \<or>
      val_eq (fp_value fb eb a) (fp_value fb eb b) \<and> fp_neg fb eb a \<longleftrightarrow>
    fp_rank fb eb a < fp_rank fb eb b \<or> a = b \<and> fp_neg fb eb a"
  using assms by (auto simp: value_order fp_rank_def fp_signed_def eq_split)

lemma cmp_nan: "fp_is_nan fb eb a \<or> fp_is_nan fb eb b \<Longrightarrow>
    \<not> val_lt (fp_value fb eb a) (fp_value fb eb b) \<and> \<not> val_eq (fp_value fb eb a) (fp_value fb eb b)"
  using value_nan [of fb eb a] value_nan [of fb eb b] by (auto simp: val_lt_def val_eq_def)

lemma gen_maxmin_correct: "gen_maxmin ops fb eb isMax a b st = fp_maxmin fb eb isMax a b st"
proof -
  define p q where "p = (if isMax then b else a)" and "q = (if isMax then a else b)"
  define st' where "st' = (if fp_is_snan fb eb a \<or> fp_is_snan fb eb b
    then softfloat_raiseFlags softfloat_flag_invalid st else st)"
  have "fp_is_snan fb eb p \<or> fp_is_snan fb eb q \<longleftrightarrow> fp_is_snan fb eb a \<or> fp_is_snan fb eb b"
    by (auto simp: p_def q_def)
  then have cmp: "fp_cmp fb eb False R p q st = (R (fp_value fb eb p) (fp_value fb eb q), st')"
      "fp_cmp fb eb False R p q st' = (R (fp_value fb eb p) (fp_value fb eb q), st')" for R
    by (simp_all add: fp_cmp_def st'_def)
  define ch where "ch \<longleftrightarrow> val_lt (fp_value fb eb p) (fp_value fb eb q) \<or>
     val_eq (fp_value fb eb p) (fp_value fb eb q) \<and> fp_neg fb eb p"
  have code: "gen_maxmin ops fb eb isMax a b st =
      (if fp_is_nan fb eb a \<and> fp_is_nan fb eb b then fp_qnan fb eb
       else if ch \<or> fp_is_nan fb eb b then a else b, st')"
    by (auto simp: gen_maxmin_def p_def [symmetric] q_def [symmetric] cmp isNaN defaultNaN sign ch_def Let_def)
  show ?thesis
  proof (cases "fp_is_nan fb eb a \<or> fp_is_nan fb eb b")
    case True
    then have "\<not> ch" using cmp_nan [of p q] by (auto simp: ch_def p_def q_def)
    with True show ?thesis by (auto simp: code fp_maxmin_def st'_def)
  next
    case False
    then have "ch \<longleftrightarrow> fp_rank fb eb p < fp_rank fb eb q \<or> p = q \<and> fp_neg fb eb p"
      unfolding ch_def by (intro pick_iff) (auto simp: p_def q_def)
    moreover have "fp_rank fb eb a \<noteq> fp_rank fb eb b" if "a \<noteq> b" using that rank_eq by simp
    ultimately show ?thesis
      using False unfolding code fp_maxmin_def st'_def p_def q_def by (cases isMax; cases "a = b") auto
  qed
qed

lemma gen_classify_correct: "gen_classify ops eb a = push_bit (fp_class fb eb a) 1"
proof -
  have sub: "o_exp ops (ucast a) = 0 \<longleftrightarrow> fp_magbits fb eb a < 2 ^ fb"
    by (simp add: exp div_eq_0_iff)
  have "fp_magbits fb eb a < 2 ^ fb \<Longrightarrow> o_frac ops (ucast a) = 0 \<longleftrightarrow> fp_magbits fb eb a = 0"
    by (simp add: frac_0_iff)
  then show ?thesis
    using inf_bound(1) snan_nan [of a]
    by (cases rule: magnitude_cases [of a]; cases "fp_neg fb eb a"; cases "fp_magbits fb eb a < 2 ^ fb")
      (auto simp: gen_classify_def fp_class_def sub exp_max_iff not_finite_frac sign isNaN isSigNaN Let_def
         fp_is_nan_def fp_is_inf_def)
qed

end

lemma maxmin_specs:
  "f16_max a b st = fp_maxmin 10 5 True a b st" "f16_min a b st = fp_maxmin 10 5 False a b st"
  "f32_max c d st = fp_maxmin 23 8 True c d st" "f32_min c d st = fp_maxmin 23 8 False c d st"
  "f64_max x y st = fp_maxmin 52 11 True x y st" "f64_min x y st = fp_maxmin 52 11 False x y st"
  unfolding f16.gen_maxmin_correct [symmetric] f32.gen_maxmin_correct [symmetric]
    f64.gen_maxmin_correct [symmetric] gen_maxmin_def f16_max_def f16_min_def f32_max_def f32_min_def
    f64_max_def f64_min_def compare_specs Let_def
  by (simp_all cong del: prod.case_cong_weak if_weak_cong split del: if_split)

lemma classify_specs:
  "f16_classify a = push_bit (fp_class 10 5 a) 1" "f32_classify b = push_bit (fp_class 23 8 b) 1"
  "f64_classify c = push_bit (fp_class 52 11 c) 1"
  unfolding f16.gen_classify_correct [symmetric] f32.gen_classify_correct [symmetric]
    f64.gen_classify_correct [symmetric] gen_classify_def f16_classify_def f32_classify_def f64_classify_def
    Let_def by simp_all

section \<open>Properties\<close>

text \<open>
  C5. The comparison predicates compare values, infinities included and +0 equal to -0; a NaN operand
  makes every predicate false.  The signaling variants raise invalid for any NaN, the quiet ones for a
  signaling NaN only.
\<close>

theorem comparisons_compare_values:
  "f16_eq a b st = fp_cmp 10 5 False val_eq a b st \<and>
   f32_eq c d st = fp_cmp 23 8 False val_eq c d st \<and>
   f64_eq x y st = fp_cmp 52 11 False val_eq x y st \<and>
   f16_eq_signaling a b st = fp_cmp 10 5 True val_eq a b st \<and>
   f32_eq_signaling c d st = fp_cmp 23 8 True val_eq c d st \<and>
   f64_eq_signaling x y st = fp_cmp 52 11 True val_eq x y st \<and>
   f16_le a b st = fp_cmp 10 5 True val_le a b st \<and>
   f32_le c d st = fp_cmp 23 8 True val_le c d st \<and>
   f64_le x y st = fp_cmp 52 11 True val_le x y st \<and>
   f16_le_quiet a b st = fp_cmp 10 5 False val_le a b st \<and>
   f32_le_quiet c d st = fp_cmp 23 8 False val_le c d st \<and>
   f64_le_quiet x y st = fp_cmp 52 11 False val_le x y st \<and>
   f16_lt a b st = fp_cmp 10 5 True val_lt a b st \<and>
   f32_lt c d st = fp_cmp 23 8 True val_lt c d st \<and>
   f64_lt x y st = fp_cmp 52 11 True val_lt x y st \<and>
   f16_lt_quiet a b st = fp_cmp 10 5 False val_lt a b st \<and>
   f32_lt_quiet c d st = fp_cmp 23 8 False val_lt c d st \<and>
   f64_lt_quiet x y st = fp_cmp 52 11 False val_lt x y st"
  by (simp only: compare_specs)

text \<open>
  C6. Maximum and minimum: the greater or smaller operand in the order that puts -0 below +0, the
  other operand if one is a NaN, the canonical NaN if both are; invalid exactly for a signaling NaN.
\<close>

theorem max_min_correct:
  "f16_max a b st = fp_maxmin 10 5 True a b st \<and> f16_min a b st = fp_maxmin 10 5 False a b st \<and>
   f32_max c d st = fp_maxmin 23 8 True c d st \<and> f32_min c d st = fp_maxmin 23 8 False c d st \<and>
   f64_max x y st = fp_maxmin 52 11 True x y st \<and> f64_min x y st = fp_maxmin 52 11 False x y st"
  by (simp only: maxmin_specs)

text \<open>
  C7. Classification sets exactly the one bit, out of ten, of the operand's class; a pattern is a
  signaling NaN for \<^verbatim>\<open>isSignalingNaN\<close> exactly when bit 8 is the one set.
\<close>

theorem classify_one_bit:
  "f16_classify a = push_bit (fp_class 10 5 a) 1 \<and> f16_isSignalingNaN a = (fp_class 10 5 a = 8) \<and>
   f32_classify b = push_bit (fp_class 23 8 b) 1 \<and> f32_isSignalingNaN b = (fp_class 23 8 b = 8) \<and>
   f64_classify c = push_bit (fp_class 52 11 c) 1 \<and> f64_isSignalingNaN c = (fp_class 52 11 c = 8)"
  by (simp add: classify_specs f16_isSignalingNaN_def f32_isSignalingNaN_def f64_isSignalingNaN_def
      f16_fields f32_fields f64_fields fp_class_def)

end
