(* ===== verification/SF_AddSub.thy ===== *)
theory SF_AddSub
  imports SF_Compare
begin

text \<open>
  Addition and subtraction of binary32 and binary64: \<^verbatim>\<open>s_addMagsF*.c\<close> adds and \<^verbatim>\<open>s_subMagsF*.c\<close>
  subtracts magnitudes, \<^verbatim>\<open>f*_add.c\<close> and \<^verbatim>\<open>f*_sub.c\<close> choose between them by the signs.  The code from
  where the two branches of an operand order join again is the local function \<open>finish\<close>.
\<close>

section \<open>Binary32\<close>

definition softfloat_addMagsF32 ::
  "uint_fast32_t \<Rightarrow> uint_fast32_t \<Rightarrow> sf_state \<Rightarrow> float32_t \<times> sf_state" where
  "softfloat_addMagsF32 uiA uiB st =
     (let expA = expF32UI uiA; sigA = fracF32UI uiA;
          expB = expF32UI uiB; sigB = fracF32UI uiB;
          propagateNaN = map_prod ucast id (softfloat_propagateNaNF32UI uiA uiB st);
          expDiff = expA - expB
      in if expDiff = 0 then
           if expA = 0 then (ucast (uiA + sigB), st)
           else if expA = 0xFF then
             if sigA OR sigB \<noteq> 0 then propagateNaN else (ucast uiA, st)
           else
             let signZ = signF32UI uiA; expZ = expA; sigZ = 0x01000000 + sigA + sigB
             in if sigZ AND 1 = 0 \<and> expZ < 0xFE
                then (ucast (packToF32UI signZ expZ (drop_bit 1 sigZ)), st)
                else softfloat_roundPackToF32 signZ expZ (push_bit 6 sigZ) st
         else
           let signZ = signF32UI uiA;
               sigA = push_bit 6 sigA; sigB = push_bit 6 sigB;
               finish = (\<lambda>expZ sigA sigB.
                 let sigZ = 0x20000000 + sigA + sigB
                 in if sigZ < 0x40000000
                    then softfloat_roundPackToF32 signZ (expZ - 1) (push_bit 1 sigZ) st
                    else softfloat_roundPackToF32 signZ expZ sigZ st)
           in if expDiff < 0 then
                if expB = 0xFF then
                  if sigB \<noteq> 0 then propagateNaN else (ucast (packToF32UI signZ 0xFF 0), st)
                else
                  let sigA = sigA + (if expA \<noteq> 0 then 0x20000000 else sigA);
                      sigA = ucast (softfloat_shiftRightJam32 (ucast sigA) (word_of_int (- expDiff)))
                  in finish expB sigA sigB
              else if expA = 0xFF then
                if sigA \<noteq> 0 then propagateNaN else (ucast uiA, st)
              else
                let sigB = sigB + (if expB \<noteq> 0 then 0x20000000 else sigB);
                    sigB = ucast (softfloat_shiftRightJam32 (ucast sigB) (word_of_int expDiff))
                in finish expA sigA sigB)"

definition softfloat_subMagsF32 ::
  "uint_fast32_t \<Rightarrow> uint_fast32_t \<Rightarrow> sf_state \<Rightarrow> float32_t \<times> sf_state" where
  "softfloat_subMagsF32 uiA uiB st =
     (let expA = expF32UI uiA; sigA = fracF32UI uiA;
          expB = expF32UI uiB; sigB = fracF32UI uiB;
          propagateNaN = map_prod ucast id (softfloat_propagateNaNF32UI uiA uiB st);
          expDiff = expA - expB
      in if expDiff = 0 then
           if expA = 0xFF then
             if sigA OR sigB \<noteq> 0 then propagateNaN
             else (ucast defaultNaNF32UI, softfloat_raiseFlags softfloat_flag_invalid st)
           else
             let sigDiff = sint (sigA - sigB)
             in if sigDiff = 0
                then (ucast (packToF32UI (softfloat_roundingMode st = softfloat_round_min) 0 0), st)
                else
                  let expA = (if expA \<noteq> 0 then expA - 1 else expA);
                      signZ = signF32UI uiA;
                      (signZ, sigDiff) = (if sigDiff < 0 then (\<not> signZ, - sigDiff) else (signZ, sigDiff));
                      shiftDist = int (softfloat_countLeadingZeros32 (word_of_int sigDiff)) - 8;
                      expZ = expA - shiftDist;
                      (shiftDist, expZ) = (if expZ < 0 then (expA, 0) else (shiftDist, expZ))
                  in (ucast (packToF32UI signZ expZ (push_bit (nat shiftDist) (word_of_int sigDiff))), st)
         else
           let signZ = signF32UI uiA;
               sigA = push_bit 7 sigA; sigB = push_bit 7 sigB;
               finish = (\<lambda>signZ expZ sigX sigY expDiff.
                 softfloat_normRoundPackToF32 signZ expZ
                   (sigX - ucast (softfloat_shiftRightJam32 (ucast (sigY :: uint_fast32_t)) (word_of_int expDiff))) st)
           in if expDiff < 0 then
                let signZ = (\<not> signZ)
                in if expB = 0xFF then
                     if sigB \<noteq> 0 then propagateNaN else (ucast (packToF32UI signZ 0xFF 0), st)
                   else finish signZ (expB - 1) (sigB OR 0x40000000)
                          (sigA + (if expA \<noteq> 0 then 0x40000000 else sigA)) (- expDiff)
              else if expA = 0xFF then
                if sigA \<noteq> 0 then propagateNaN else (ucast uiA, st)
              else finish signZ (expA - 1) (sigA OR 0x40000000)
                     (sigB + (if expB \<noteq> 0 then 0x40000000 else sigB)) expDiff)"

definition f32_add :: "float32_t \<Rightarrow> float32_t \<Rightarrow> sf_state \<Rightarrow> float32_t \<times> sf_state" where
  "f32_add a b st =
     (let uiA = ucast a :: uint_fast32_t; uiB = ucast b :: uint_fast32_t
      in if signF32UI (uiA XOR uiB) then softfloat_subMagsF32 uiA uiB st
         else softfloat_addMagsF32 uiA uiB st)"

definition f32_sub :: "float32_t \<Rightarrow> float32_t \<Rightarrow> sf_state \<Rightarrow> float32_t \<times> sf_state" where
  "f32_sub a b st =
     (let uiA = ucast a :: uint_fast32_t; uiB = ucast b :: uint_fast32_t
      in if signF32UI (uiA XOR uiB) then softfloat_addMagsF32 uiA uiB st
         else softfloat_subMagsF32 uiA uiB st)"

section \<open>Binary64\<close>

definition softfloat_addMagsF64 ::
  "uint_fast64_t \<Rightarrow> uint_fast64_t \<Rightarrow> bool \<Rightarrow> sf_state \<Rightarrow> float64_t \<times> sf_state" where
  "softfloat_addMagsF64 uiA uiB signZ st =
     (let expA = expF64UI uiA; sigA = fracF64UI uiA;
          expB = expF64UI uiB; sigB = fracF64UI uiB;
          propagateNaN = softfloat_propagateNaNF64UI uiA uiB st;
          expDiff = expA - expB
      in if expDiff = 0 then
           if expA = 0 then (uiA + sigB, st)
           else if expA = 0x7FF then
             if sigA OR sigB \<noteq> 0 then propagateNaN else (uiA, st)
           else
             let expZ = expA; sigZ = 0x0020000000000000 + sigA + sigB
             in softfloat_roundPackToF64 signZ expZ (push_bit 9 sigZ) st
         else
           let sigA = push_bit 9 sigA; sigB = push_bit 9 sigB;
               finish = (\<lambda>expZ sigA sigB.
                 let sigZ = 0x2000000000000000 + sigA + sigB
                 in if sigZ < 0x4000000000000000
                    then softfloat_roundPackToF64 signZ (expZ - 1) (push_bit 1 sigZ) st
                    else softfloat_roundPackToF64 signZ expZ sigZ st)
           in if expDiff < 0 then
                if expB = 0x7FF then
                  if sigB \<noteq> 0 then propagateNaN else (packToF64UI signZ 0x7FF 0, st)
                else
                  let sigA = (if expA \<noteq> 0 then sigA + 0x2000000000000000 else push_bit 1 sigA);
                      sigA = softfloat_shiftRightJam64 sigA (word_of_int (- expDiff))
                  in finish expB sigA sigB
              else if expA = 0x7FF then
                if sigA \<noteq> 0 then propagateNaN else (uiA, st)
              else
                let sigB = (if expB \<noteq> 0 then sigB + 0x2000000000000000 else push_bit 1 sigB);
                    sigB = softfloat_shiftRightJam64 sigB (word_of_int expDiff)
                in finish expA sigA sigB)"

definition softfloat_subMagsF64 ::
  "uint_fast64_t \<Rightarrow> uint_fast64_t \<Rightarrow> bool \<Rightarrow> sf_state \<Rightarrow> float64_t \<times> sf_state" where
  "softfloat_subMagsF64 uiA uiB signZ st =
     (let expA = expF64UI uiA; sigA = fracF64UI uiA;
          expB = expF64UI uiB; sigB = fracF64UI uiB;
          propagateNaN = softfloat_propagateNaNF64UI uiA uiB st;
          expDiff = expA - expB
      in if expDiff = 0 then
           if expA = 0x7FF then
             if sigA OR sigB \<noteq> 0 then propagateNaN
             else (defaultNaNF64UI, softfloat_raiseFlags softfloat_flag_invalid st)
           else
             let sigDiff = sint (sigA - sigB)
             in if sigDiff = 0
                then (packToF64UI (softfloat_roundingMode st = softfloat_round_min) 0 0, st)
                else
                  let expA = (if expA \<noteq> 0 then expA - 1 else expA);
                      (signZ, sigDiff) = (if sigDiff < 0 then (\<not> signZ, - sigDiff) else (signZ, sigDiff));
                      shiftDist = int (softfloat_countLeadingZeros64 (word_of_int sigDiff)) - 11;
                      expZ = expA - shiftDist;
                      (shiftDist, expZ) = (if expZ < 0 then (expA, 0) else (shiftDist, expZ))
                  in (packToF64UI signZ expZ (push_bit (nat shiftDist) (word_of_int sigDiff)), st)
         else
           let sigA = push_bit 10 sigA; sigB = push_bit 10 sigB
           in if expDiff < 0 then
                let signZ = (\<not> signZ)
                in if expB = 0x7FF then
                     if sigB \<noteq> 0 then propagateNaN else (packToF64UI signZ 0x7FF 0, st)
                   else
                     let sigA = sigA + (if expA \<noteq> 0 then 0x4000000000000000 else sigA);
                         sigA = softfloat_shiftRightJam64 sigA (word_of_int (- expDiff));
                         sigB = sigB OR 0x4000000000000000;
                         expZ = expB; sigZ = sigB - sigA
                     in softfloat_normRoundPackToF64 signZ (expZ - 1) sigZ st
              else if expA = 0x7FF then
                if sigA \<noteq> 0 then propagateNaN else (uiA, st)
              else
                let sigB = sigB + (if expB \<noteq> 0 then 0x4000000000000000 else sigB);
                    sigB = softfloat_shiftRightJam64 sigB (word_of_int expDiff);
                    sigA = sigA OR 0x4000000000000000;
                    expZ = expA; sigZ = sigA - sigB
                in softfloat_normRoundPackToF64 signZ (expZ - 1) sigZ st)"

definition f64_add :: "float64_t \<Rightarrow> float64_t \<Rightarrow> sf_state \<Rightarrow> float64_t \<times> sf_state" where
  "f64_add a b st =
     (let uiA = a; signA = signF64UI uiA; uiB = b; signB = signF64UI uiB
      in if signA = signB then softfloat_addMagsF64 uiA uiB signA st
         else softfloat_subMagsF64 uiA uiB signA st)"

definition f64_sub :: "float64_t \<Rightarrow> float64_t \<Rightarrow> sf_state \<Rightarrow> float64_t \<times> sf_state" where
  "f64_sub a b st =
     (let uiA = a; signA = signF64UI uiA; uiB = b; signB = signF64UI uiB
      in if signA = signB then softfloat_subMagsF64 uiA uiB signA st
         else softfloat_addMagsF64 uiA uiB signA st)"

section \<open>Specification\<close>

definition ieee_addMags ::
  "nat \<Rightarrow> nat \<Rightarrow> bool \<Rightarrow> 'w::len word \<Rightarrow> 'w word \<Rightarrow> sf_state \<Rightarrow> 'w word \<times> sf_state" where
  "ieee_addMags fb eb neg a b st =
     (if fp_is_nan fb eb a \<or> fp_is_nan fb eb b
      then fp_nan_result fb eb (fp_is_snan fb eb a \<or> fp_is_snan fb eb b) st
      else if fp_is_inf fb eb a \<or> fp_is_inf fb eb b then (fp_word fb eb neg (fp_inf fb eb), st)
      else fp_result fb eb neg (\<bar>fp_real fb eb a\<bar> + \<bar>fp_real fb eb b\<bar>) st)"

definition ieee_subMags ::
  "nat \<Rightarrow> nat \<Rightarrow> bool \<Rightarrow> 'w::len word \<Rightarrow> 'w word \<Rightarrow> sf_state \<Rightarrow> 'w word \<times> sf_state" where
  "ieee_subMags fb eb neg a b st =
     (if fp_is_nan fb eb a \<or> fp_is_nan fb eb b
      then fp_nan_result fb eb (fp_is_snan fb eb a \<or> fp_is_snan fb eb b) st
      else if fp_is_inf fb eb a \<and> fp_is_inf fb eb b then fp_invalid fb eb st
      else if fp_is_inf fb eb a then (fp_word fb eb neg (fp_inf fb eb), st)
      else if fp_is_inf fb eb b then (fp_word fb eb (\<not> neg) (fp_inf fb eb), st)
      else let d = \<bar>fp_real fb eb a\<bar> - \<bar>fp_real fb eb b\<bar> in
        if d = 0 then (fp_word fb eb (sf_mode st = Down) 0, st)
        else fp_result fb eb (neg \<noteq> (d < 0)) \<bar>d\<bar> st)"

definition ieee_add ::
  "nat \<Rightarrow> nat \<Rightarrow> bool \<Rightarrow> 'w::len word \<Rightarrow> 'w word \<Rightarrow> sf_state \<Rightarrow> 'w word \<times> sf_state" where
  "ieee_add fb eb sub a b st =
     (let negA = fp_neg fb eb a; negB = (fp_neg fb eb b \<noteq> sub);
          x = fp_real fb eb a + (if sub then - fp_real fb eb b else fp_real fb eb b) in
      if fp_is_nan fb eb a \<or> fp_is_nan fb eb b
      then fp_nan_result fb eb (fp_is_snan fb eb a \<or> fp_is_snan fb eb b) st
      else if fp_is_inf fb eb a \<and> fp_is_inf fb eb b \<and> negA \<noteq> negB then fp_invalid fb eb st
      else if fp_is_inf fb eb a then (fp_word fb eb negA (fp_inf fb eb), st)
      else if fp_is_inf fb eb b then (fp_word fb eb negB (fp_inf fb eb), st)
      else if x = 0 then (fp_word fb eb (if negA = negB then negA else sf_mode st = Down) 0, st)
      else fp_result fb eb (x < 0) \<bar>x\<bar> st)"

section \<open>The common program\<close>

definition gen_addMags ::
  "'w::len word sf_ops \<Rightarrow> nat \<Rightarrow> nat \<Rightarrow> nat \<Rightarrow> (uint64_t \<Rightarrow> uint64_t \<Rightarrow> uint64_t) \<Rightarrow> bool
   \<Rightarrow> uint64_t \<Rightarrow> uint64_t \<Rightarrow> bool \<Rightarrow> sf_state \<Rightarrow> 'w word \<times> sf_state" where
  "gen_addMags ops fb eb g shiftJam fast uiA uiB signZ st =
     (let expA = o_exp ops uiA; sigA = o_frac ops uiA;
          expB = o_exp ops uiB; sigB = o_frac ops uiB;
          finish = (\<lambda>expZ sigA sigB.
            let sigZ = 2 ^ (fb + g - 1) + sigA + sigB
            in if sigZ < 2 ^ (fb + g) then o_roundPack ops signZ (expZ - 1) (push_bit 1 sigZ) st
               else o_roundPack ops signZ expZ sigZ st)
      in if expA - expB = 0 then
           if expA = 0 then (ucast (uiA + sigB), st)
           else if expA = 2 ^ eb - 1 then
             if sigA OR sigB \<noteq> 0 then o_propagateNaN ops uiA uiB st else (ucast uiA, st)
           else
             let sigZ = 2 ^ (fb + 1) + sigA + sigB
             in if fast \<and> sigZ AND 1 = 0 \<and> expA < 2 ^ eb - 2
                then (o_pack ops signZ expA (drop_bit 1 sigZ), st)
                else o_roundPack ops signZ expA (push_bit (g - 1) sigZ) st
         else
           let sigA = push_bit (g - 1) sigA; sigB = push_bit (g - 1) sigB
           in if expA - expB < 0 then
                if expB = 2 ^ eb - 1 then
                  if sigB \<noteq> 0 then o_propagateNaN ops uiA uiB st else (o_pack ops signZ (2 ^ eb - 1) 0, st)
                else finish expB (shiftJam (sigA + (if expA \<noteq> 0 then 2 ^ (fb + g - 1) else sigA))
                       (word_of_int (- (expA - expB)))) sigB
              else if expA = 2 ^ eb - 1 then
                if sigA \<noteq> 0 then o_propagateNaN ops uiA uiB st else (ucast uiA, st)
              else finish expA sigA (shiftJam (sigB + (if expB \<noteq> 0 then 2 ^ (fb + g - 1) else sigB))
                     (word_of_int (expA - expB))))"

definition gen_subMags ::
  "'w::len word sf_ops \<Rightarrow> nat \<Rightarrow> nat \<Rightarrow> nat \<Rightarrow> (uint64_t \<Rightarrow> uint64_t \<Rightarrow> uint64_t) \<Rightarrow> (int \<Rightarrow> nat)
   \<Rightarrow> uint64_t \<Rightarrow> uint64_t \<Rightarrow> bool \<Rightarrow> sf_state \<Rightarrow> 'w word \<times> sf_state" where
  "gen_subMags ops fb eb g shiftJam clz uiA uiB signZ st =
     (let expA = o_exp ops uiA; sigA = o_frac ops uiA;
          expB = o_exp ops uiB; sigB = o_frac ops uiB
      in if expA - expB = 0 then
           if expA = 2 ^ eb - 1 then
             if sigA OR sigB \<noteq> 0 then o_propagateNaN ops uiA uiB st
             else (o_defaultNaN ops, softfloat_raiseFlags softfloat_flag_invalid st)
           else
             let sigDiff = sint (sigA - sigB)
             in if sigDiff = 0 then (o_pack ops (softfloat_roundingMode st = softfloat_round_min) 0 0, st)
                else
                  let expA = (if expA \<noteq> 0 then expA - 1 else expA);
                      (signZ, sigDiff) = (if sigDiff < 0 then (\<not> signZ, - sigDiff) else (signZ, sigDiff));
                      shiftDist = int (clz sigDiff) - int (g + 1);
                      expZ = expA - shiftDist;
                      (shiftDist, expZ) = (if expZ < 0 then (expA, 0) else (shiftDist, expZ))
                  in (o_pack ops signZ expZ (push_bit (nat shiftDist) (word_of_int sigDiff)), st)
         else
           let sigA = push_bit g sigA; sigB = push_bit g sigB
           in if expA - expB < 0 then
                if expB = 2 ^ eb - 1 then
                  if sigB \<noteq> 0 then o_propagateNaN ops uiA uiB st
                  else (o_pack ops (\<not> signZ) (2 ^ eb - 1) 0, st)
                else o_normRoundPack ops (\<not> signZ) (expB - 1)
                  ((sigB OR 2 ^ (fb + g)) - shiftJam (sigA + (if expA \<noteq> 0 then 2 ^ (fb + g) else sigA))
                     (word_of_int (- (expA - expB)))) st
              else if expA = 2 ^ eb - 1 then
                if sigA \<noteq> 0 then o_propagateNaN ops uiA uiB st else (ucast uiA, st)
              else o_normRoundPack ops signZ (expA - 1)
                  ((sigA OR 2 ^ (fb + g)) - shiftJam (sigB + (if expB \<noteq> 0 then 2 ^ (fb + g) else sigB))
                     (word_of_int (expA - expB))) st)"

lemma addMagsF32_code:
  "softfloat_addMagsF32 uiA uiB st = gen_addMags f32_ops 23 8 7
     (\<lambda>s d. ucast (softfloat_shiftRightJam32 (ucast s) d)) True uiA uiB (signF32UI uiA) st"
  unfolding softfloat_addMagsF32_def gen_addMags_def Let_def
  by (simp cong del: if_weak_cong split del: if_split)

lemma subMagsF32_code:
  "softfloat_subMagsF32 uiA uiB st = gen_subMags f32_ops 23 8 7
     (\<lambda>s d. ucast (softfloat_shiftRightJam32 (ucast s) d))
     (\<lambda>x. softfloat_countLeadingZeros32 (word_of_int x)) uiA uiB (signF32UI uiA) st"
  unfolding softfloat_subMagsF32_def gen_subMags_def Let_def
  by (simp cong del: if_weak_cong prod.case_cong_weak split del: if_split)

lemma addMagsF64_code:
  "softfloat_addMagsF64 uiA uiB signZ st = gen_addMags f64_ops 52 11 10
     softfloat_shiftRightJam64 False uiA uiB signZ st"
proof -
  have double: "(if P then s + h else push_bit 1 s) = s + (if P then h else s)" for P and s h :: uint64_t
    by (simp add: push_bit_eq_mult mult_2_right)
  show ?thesis
    unfolding softfloat_addMagsF64_def gen_addMags_def Let_def double
    by (simp cong del: if_weak_cong split del: if_split)
qed

lemma subMagsF64_code:
  "softfloat_subMagsF64 uiA uiB signZ st = gen_subMags f64_ops 52 11 10 softfloat_shiftRightJam64
     (\<lambda>x. softfloat_countLeadingZeros64 (word_of_int x)) uiA uiB signZ st"
  unfolding softfloat_subMagsF64_def gen_subMags_def Let_def
  by (simp cong del: if_weak_cong prod.case_cong_weak split del: if_split)

section \<open>Aligned significands\<close>

text \<open>
  \<open>aligned fb k E F\<close> is the significand of the operand with exponent field \<open>E\<close> and fraction \<open>F\<close>,
  hidden bit included, shifted left by \<open>k\<close>; a subnormal is shifted by one more place, since its
  exponent is one higher than its field says.
\<close>

definition aligned :: "nat \<Rightarrow> nat \<Rightarrow> nat \<Rightarrow> nat \<Rightarrow> nat" where
  "aligned fb k E F = (if E = 0 then F * 2 ^ (k + 1) else (2 ^ fb + F) * 2 ^ k)"

lemma mag_aligned:
  assumes "F < 2 ^ fb"
  shows "fp_mag fb eb (E * 2 ^ fb + F) = real (aligned fb k E F) * pw2 (fp_qmin fb eb + int E - 1 - int k)"
  using assms by (simp add: fp_mag_def aligned_def pw2_diff pw2_add)

lemma aligned_less: "F < 2 ^ fb \<Longrightarrow> aligned fb k E F < 2 ^ (fb + k + 1)"
  by (auto simp: aligned_def power_add)

lemma unat_aligned:
  fixes s :: uint64_t
  assumes "unat s < 2 ^ fb" and "fb + k + 1 < 64"
  shows "unat (push_bit k s + (if E \<noteq> 0 then 2 ^ (fb + k) else push_bit k s)) = aligned fb k E (unat s)"
proof -
  have lt: "unat s * 2 ^ k < 2 ^ (fb + k)" using assms(1) by (simp add: power_add)
  have w: "2 * 2 ^ (fb + k) \<le> (2::nat) ^ LENGTH(64)"
    using assms(2) power_increasing [of "fb + k + 1" 64 "2::nat"] by simp
  have p: "unat (push_bit k s) = unat s * 2 ^ k" using lt w by (intro unat_push_bit_less) linarith
  have h: "unat (2 ^ (fb + k) :: uint64_t) = 2 ^ (fb + k)" using assms(2) by (intro unat_power2_word) simp
  show ?thesis
  proof (cases "E = 0")
    case True
    have "unat (push_bit k s + push_bit k s) = unat s * 2 ^ k + unat s * 2 ^ k"
      using lt w by (subst unat_add_less) (simp_all only: p)
    then show ?thesis using True by (simp add: aligned_def)
  next
    case False
    have "unat s * 2 ^ k + 2 ^ (fb + k) < 2 ^ LENGTH(64)" using lt w by linarith
    then have "unat (push_bit k s + 2 ^ (fb + k)) = unat s * 2 ^ k + 2 ^ (fb + k)"
      by (subst unat_add_less) (simp_all only: p h)
    then show ?thesis using False by (simp add: aligned_def algebra_simps power_add)
  qed
qed

lemma jam_diff:
  assumes "2 * k * 2 ^ d \<ge> n"
  shows "jam d (2 * k * 2 ^ d - n) = 2 * k - jam d n"
proof -
  define q r where "q = n div 2 ^ d" and "r = n mod 2 ^ d"
  have n: "n = q * 2 ^ d + r" and r: "r < 2 ^ d" by (simp_all only: q_def r_def div_mult_mod_eq) simp
  have dn: "2 ^ d dvd n \<longleftrightarrow> r = 0" by (simp add: r_def dvd_eq_mod_eq_0)
  show ?thesis
  proof (cases "r = 0")
    case True
    then have "2 * k * 2 ^ d - n = (2 * k - q) * 2 ^ d" by (simp add: n diff_mult_distrib)
    then show ?thesis using True by (simp add: jam_def n)
  next
    case False
    have "q * 2 ^ d < 2 * k * 2 ^ d" using assms False n by linarith
    then have q: "q < 2 * k" by (simp only: mult_less_cancel2)
    define t where "t = 2 * k - q - 1"
    have k: "2 * k = q + t + 1" using q by (simp add: t_def)
    define r' where "r' = 2 ^ d - r"
    have r': "r' < 2 ^ d" "r' \<noteq> 0" using False r by (simp_all add: r'_def)
    have "2 * k * 2 ^ d - n = t * 2 ^ d + r'"
      unfolding k n r'_def using r by (simp add: algebra_simps)
    then have "jam d (2 * k * 2 ^ d - n) = (if even t then t + 1 else t)"
      using r' unfolding jam_eq_or or_of_bool_nat by simp
    moreover have "jam d n = (if even q then q + 1 else q)" 
      using False r unfolding n jam_eq_or or_of_bool_nat by simp
    moreover have "even t \<longleftrightarrow> odd q" using k by presburger
    ultimately show ?thesis using k by auto
  qed
qed

section \<open>Correctness\<close>

text \<open>What the magnitude routines use beside the format's routines: the jamming shift and the count.\<close>

locale sf_addsub = sf_format fb eb g ops for fb eb g :: nat and ops :: "'w::len word sf_ops" +
  fixes shiftJam :: "uint64_t \<Rightarrow> uint64_t \<Rightarrow> uint64_t" and clz :: "int \<Rightarrow> nat"
  assumes g3: "3 \<le> g"
    and shiftJam: "\<lbrakk>unat s < 2 ^ (fb + g + 1); dst \<noteq> 0\<rbrakk> \<Longrightarrow> unat (shiftJam s dst) = jam (unat dst) (unat s)"
    and clz: "\<lbrakk>0 < x; x < 2 ^ fb\<rbrakk> \<Longrightarrow> is_clz (fb + g + 2) (nat x) (clz x)"
begin

lemma exp_diff_word:
  assumes "eY < eX" and "eX < 2 ^ eb"
  shows "unat (word_of_int (int eX - int eY) :: uint64_t) = eX - eY" and "word_of_int (int eX - int eY) \<noteq> (0 :: uint64_t)"
proof -
  have "int eX < 4096" using assms(2) by (rule exp_field_less)
  then have "unat (word_of_int (int eX - int eY) :: uint64_t) = nat (int eX - int eY)"
    using assms(1) by (intro unat_word_of_int) simp_all
  then show *: "unat (word_of_int (int eX - int eY) :: uint64_t) = eX - eY" by simp
  show "word_of_int (int eX - int eY) \<noteq> (0 :: uint64_t)" using assms(1) * by (metis unat_0 zero_less_diff less_irrefl)
qed

lemma unat_shifted:
  assumes "eY < eX" and "eX < 2 ^ eb" and "unat s < 2 ^ fb" and "k \<le> g"
  shows "unat (shiftJam (push_bit k s + (if eY \<noteq> 0 then 2 ^ (fb + k) else push_bit k s))
      (word_of_int (int eX - int eY))) = jam (eX - eY) (aligned fb k eY (unat s))"
proof -
  have a: "unat (push_bit k s + (if eY \<noteq> 0 then 2 ^ (fb + k) else push_bit k s)) = aligned fb k eY (unat s)"
    using assms(3,4) width(3) by (intro unat_aligned) simp_all
  have "aligned fb k eY (unat s) < 2 ^ (fb + k + 1)" using assms(3) by (rule aligned_less)
  also have "\<dots> \<le> 2 ^ (fb + g + 1)" using assms(4) by (intro power_increasing) simp_all
  finally show ?thesis using exp_diff_word [OF assms(1,2)] by (simp only: shiftJam a not_False_eq_True)
qed

lemma add_finish:
  assumes E: "eY < eX" "eX < 2 ^ eb - 1" and F: "unat sX < 2 ^ fb" "unat sY < 2 ^ fb"
  defines "sigZ \<equiv> 2 ^ (fb + g - 1) + push_bit (g - 1) sX +
    shiftJam (push_bit (g - 1) sY + (if eY \<noteq> 0 then 2 ^ (fb + g - 1) else push_bit (g - 1) sY))
      (word_of_int (int eX - int eY))"
  shows "(if sigZ < 2 ^ (fb + g) then o_roundPack ops neg (int eX - 1) (push_bit 1 sigZ) st
          else o_roundPack ops neg (int eX) sigZ st) =
    fp_result fb eb neg (fp_mag fb eb (eX * 2 ^ fb + unat sX) + fp_mag fb eb (eY * 2 ^ fb + unat sY)) st"
proof -
  define X Y d where "X = aligned fb (g - 1) eX (unat sX)" and "Y = aligned fb (g - 1) eY (unat sY)"
    and "d = eX - eY"
  have eX: "int eX = int eY + int d" using E(1) by (simp add: d_def)
  have g1: "fb + (g - 1) = fb + g - 1" using g3 by simp
  have uX: "unat (2 ^ (fb + g - 1) + push_bit (g - 1) sX) = X"
    using unat_aligned [OF F(1), of "g - 1" eX] E(1) width(3) by (simp add: X_def g1 [simplified] add.commute)
  have uY: "unat (shiftJam (push_bit (g - 1) sY + (if eY \<noteq> 0 then 2 ^ (fb + g - 1) else push_bit (g - 1) sY))
      (word_of_int (int eX - int eY))) = jam d Y"
    using unat_shifted [OF E(1) _ F(2), of "g - 1"] E(2) unfolding g1 by (simp add: Y_def d_def)
  have "(2::nat) ^ (fb + g - 1) = 2 ^ fb * 2 ^ (g - 1)" unfolding g1 [symmetric] by (rule power_add)
  then have X: "2 ^ (fb + g - 1) \<le> X" "X < 2 ^ (fb + g)"
    using aligned_less [OF F(1), of "g - 1" eX] E(1) g3 unfolding X_def
    by (simp_all add: aligned_def add_mult_distrib)
  have "Y < 2 ^ (fb + g)" using aligned_less [OF F(2), of "g - 1" eY] g3 by (simp add: Y_def)
  also have "(2::nat) ^ (fb + g) = 2 ^ (fb + g - 1) * 2 ^ 1" using g3 by (cases g) simp_all
  also have "\<dots> \<le> 2 ^ (fb + g - 1) * 2 ^ d" using E(1) by (intro mult_le_mono2 power_increasing) (simp_all add: d_def)
  finally have jY: "jam d Y < 2 ^ (fb + g - 1)" using g3 by (intro jam_less) simp_all
  have G: "(2::nat) ^ (fb + g) = 2 * 2 ^ (fb + g - 1)" using g3 by (cases g) simp_all
  have "2 ^ (fb + g + 1) < (2::nat) ^ LENGTH(64)" using width(3) by (intro power_strict_increasing) simp_all
  then have "X + jam d Y < 2 ^ LENGTH(64)" using X jY G by simp
  then have uZ: "unat sigZ = X + jam d Y" unfolding sigZ_def by (subst unat_add_less) (simp_all only: uX uY)
  have even: "X = 2 * ((2 ^ fb + unat sX) * 2 ^ (g - 2))"
    using E(1) g3 by (simp add: X_def aligned_def flip: power_Suc)
  then have jam: "unat sigZ = jam d (X * 2 ^ d + Y)" using jam_add_multiple [of d] by (simp only: uZ)
  show ?thesis
  proof (rule round_jam_norm [OF jam])
    show "2 ^ (fb + g) \<le> 2 * unat sigZ" "unat sigZ < 2 ^ (fb + g + 1)" using X jY G by (simp_all add: uZ)
    have "int eX < 4096" using E(2) by (intro exp_field_less) simp
    then show "- (2 ^ 13) \<le> int eX" "int eX < 2 ^ 13" by simp_all
    show "fp_mag fb eb (eX * 2 ^ fb + unat sX) + fp_mag fb eb (eY * 2 ^ fb + unat sY) =
        real (X * 2 ^ d + Y) * pw2 (int eX + fp_qmin fb eb - int g - int d)"
      unfolding mag_aligned [OF F(1), of _ _ "g - 1"] mag_aligned [OF F(2), of _ _ "g - 1"]
        X_def [symmetric] Y_def [symmetric] eX using g3
      by (simp add: of_nat_diff pw2_diff pw2_add algebra_simps add_divide_distrib)
  qed (use g3 width(3) in simp_all)
qed

lemma add_finish_left:
  assumes "eY < eX" "eX < 2 ^ eb - 1" and "unat sX < 2 ^ fb" "unat sY < 2 ^ fb"
  defines "sigZ \<equiv> 2 ^ (fb + g - 1) +
    shiftJam (push_bit (g - 1) sY + (if eY \<noteq> 0 then 2 ^ (fb + g - 1) else push_bit (g - 1) sY))
      (word_of_int (int eX - int eY)) + push_bit (g - 1) sX"
  shows "(if sigZ < 2 ^ (fb + g) then o_roundPack ops neg (int eX - 1) (push_bit 1 sigZ) st
          else o_roundPack ops neg (int eX) sigZ st) =
    fp_result fb eb neg (fp_mag fb eb (eY * 2 ^ fb + unat sY) + fp_mag fb eb (eX * 2 ^ fb + unat sX)) st"
proof -
  have "sigZ = 2 ^ (fb + g - 1) + push_bit (g - 1) sX +
    shiftJam (push_bit (g - 1) sY + (if eY \<noteq> 0 then 2 ^ (fb + g - 1) else push_bit (g - 1) sY))
      (word_of_int (int eX - int eY))"
    unfolding sigZ_def by (simp only: add.assoc add.commute)
  then show ?thesis using add_finish [OF assms(1-4), of neg st] by (simp only: add.commute)
qed

lemma sub_finish:
  assumes E: "eY < eX" "eX < 2 ^ eb - 1" and F: "unat sX < 2 ^ fb" "unat sY < 2 ^ fb"
  defines "sig \<equiv> (push_bit g sX OR 2 ^ (fb + g)) -
    shiftJam (push_bit g sY + (if eY \<noteq> 0 then 2 ^ (fb + g) else push_bit g sY)) (word_of_int (int eX - int eY))"
  shows "o_normRoundPack ops neg (int eX - 1) sig st =
    fp_result fb eb neg (fp_mag fb eb (eX * 2 ^ fb + unat sX) - fp_mag fb eb (eY * 2 ^ fb + unat sY)) st"
proof -
  define X Y d where "X = aligned fb g eX (unat sX)" and "Y = aligned fb g eY (unat sY)" and "d = eX - eY"
  have eX: "int eX = int eY + int d" using E(1) by (simp add: d_def)
  have lt: "unat sX * 2 ^ g < 2 ^ (fb + g)" using F(1) by (simp add: power_add)
  have pow: "2 ^ (fb + g) < (2::nat) ^ LENGTH(64)" using width(3) by (intro power_strict_increasing) simp_all
  have "unat (push_bit g sX) = unat sX * 2 ^ g" using lt pow by (intro unat_push_bit_less) linarith
  moreover have "unat (2 ^ (fb + g) :: uint64_t) = 2 ^ (fb + g)" using width(3) by (intro unat_power2_word) simp
  ultimately have uX: "unat (push_bit g sX OR 2 ^ (fb + g)) = X"
    using lt nat_or_hidden [of "unat sX * 2 ^ g" "fb + g"] E(1)
    by (simp add: unat_or X_def aligned_def power_add add_mult_distrib)
  have uY: "unat (shiftJam (push_bit g sY + (if eY \<noteq> 0 then 2 ^ (fb + g) else push_bit g sY))
      (word_of_int (int eX - int eY))) = jam d Y"
    using unat_shifted [OF E(1) _ F(2), of g] E(2) by (simp add: Y_def d_def)
  have X: "2 ^ (fb + g) \<le> X" "X < 2 ^ (fb + g + 1)"
    using aligned_less [OF F(1), of g eX] E(1) unfolding X_def
    by (simp_all add: aligned_def add_mult_distrib power_add)
  have Y: "Y < 2 ^ (fb + g + 1)" unfolding Y_def by (rule aligned_less [OF F(2)])
  have small: "jam d Y < 2 ^ (fb + g + 1 - k)" if "k \<le> d" "k \<le> 2" for k
  proof (rule jam_less)
    have "(2::nat) ^ (fb + g + 1) = 2 ^ (fb + g + 1 - k) * 2 ^ k" using that(2) g3 by (simp flip: power_add)
    also have "\<dots> \<le> 2 ^ (fb + g + 1 - k) * 2 ^ d" using that(1) by (intro mult_le_mono2 power_increasing) simp_all
    finally show "Y < 2 ^ (fb + g + 1 - k) * 2 ^ d" using Y by simp
  qed (use that g3 in simp)
  have d1: "1 \<le> d" using E(1) by (simp add: d_def)
  have jY: "jam d Y < 2 ^ (fb + g)" using small [OF d1] by simp
  have "jam d Y \<le> X" using X(1) jY by simp
  then have uS: "unat sig = X - jam d Y" unfolding sig_def by (subst unat_sub_le) (simp_all only: uX uY)
  define S where "S = X * 2 ^ d - Y"
  have even: "X = 2 * ((2 ^ fb + unat sX) * 2 ^ (g - 1))"
    using E(1) g3 by (cases g) (simp_all add: X_def aligned_def)
  have "Y \<le> 2 ^ (fb + g) * 2 ^ 1" using Y by simp
  also have "\<dots> \<le> X * 2 ^ d" using X(1) d1 by (intro mult_le_mono power_increasing) simp_all
  finally have YX: "Y \<le> X * 2 ^ d" .
  have jam: "unat sig = jam d S"
    using jam_diff [of Y "(2 ^ fb + unat sX) * 2 ^ (g - 1)" d] YX unfolding S_def uS even [symmetric] by simp
  have x: "fp_mag fb eb (eX * 2 ^ fb + unat sX) - fp_mag fb eb (eY * 2 ^ fb + unat sY) =
      real S * pw2 (int eX - 1 + fp_qmin fb eb - int g - int d)"
    unfolding mag_aligned [OF F(1), of _ _ g] mag_aligned [OF F(2), of _ _ g]
      X_def [symmetric] Y_def [symmetric] S_def of_nat_diff [OF YX] eX
    by (simp add: pw2_diff pw2_add field_simps)
  have "int eX < 4096" using E(2) by (intro exp_field_less) simp
  then have e: "- (2 ^ 13) \<le> int eX - 1" "int eX - 1 < 2 ^ 13" by simp_all
  have hi: "unat sig < 2 ^ (fb + g + 1)" using X(2) by (simp add: uS)
  show ?thesis
  proof (cases "2 ^ (fb + g) \<le> 2 * unat sig")
    case True
    show ?thesis
      unfolding normRoundPack_high [OF True hi] using g3 width(3) by (intro round_jam_norm [OF jam True hi e _ _ x])
  next
    case False
    have "\<not> 2 \<le> d"
    proof
      assume "2 \<le> d"
      then have "2 * jam d Y < 2 * 2 ^ (fb + g - 1)" using small [of 2] by simp
      also have "\<dots> = 2 ^ (fb + g)" using g3 by (cases g) simp_all
      finally show False using False X(1) jY by (simp add: uS)
    qed
    then have d: "d = 1" using d1 by simp
    have "even Y" using g3 by (cases g) (simp_all add: Y_def aligned_def)
    then have "even S" using YX even by (simp add: S_def d)
    then have "S = unat sig * 2" unfolding jam d by (simp add: jam_def)
    then have "real S * pw2 (int eX - 1 + fp_qmin fb eb - int g - int d) =
        real (unat sig) * pw2 (int eX - 1 + fp_qmin fb eb - int g)" by (simp add: d pw2_diff pw2_add)
    moreover have "0 < unat sig" using X(1) jY by (simp add: uS)
    ultimately show ?thesis unfolding x using hi e by (simp only: normRoundPack)
  qed
qed

text \<open>Operands with the same exponent field.\<close>

lemma add_same:
  assumes E: "0 < E" "E < 2 ^ eb - 1" and F: "unat sA < 2 ^ fb" "unat sB < 2 ^ fb"
  defines "sigZ \<equiv> 2 ^ (fb + 1) + sA + sB"
    and "x \<equiv> fp_mag fb eb (E * 2 ^ fb + unat sA) + fp_mag fb eb (E * 2 ^ fb + unat sB)"
  shows "o_roundPack ops neg (int E) (push_bit (g - 1) sigZ) st = fp_result fb eb neg x st"
    and "sigZ AND 1 = 0 \<Longrightarrow> E < 2 ^ eb - 2 \<Longrightarrow>
      (o_pack ops neg (int E) (drop_bit 1 sigZ), st) = fp_result fb eb neg x st"
proof -
  define S where "S = 2 ^ (fb + 1) + unat sA + unat sB"
  have S: "2 ^ (fb + 1) \<le> S" "S < 2 ^ (fb + 2)" using F by (simp_all add: S_def)
  have w: "2 ^ (fb + g + 1) < (2::nat) ^ LENGTH(64)" using width(3) by (intro power_strict_increasing) simp_all
  have w2: "2 ^ (fb + 2) \<le> (2::nat) ^ (fb + g + 1)" using g3 by (intro power_increasing) simp_all
  have h: "unat (2 ^ (fb + 1) :: uint64_t) = 2 ^ (fb + 1)" using width(3) g3 by (intro unat_power2_word) simp
  have b: "2 ^ (fb + 1) + unat sA + unat sB < (2::nat) ^ LENGTH(64)" using S(2) w w2 unfolding S_def by linarith
  then have "2 ^ (fb + 1) + unat sA < (2::nat) ^ LENGTH(64)" by linarith
  then have 1: "unat (2 ^ (fb + 1) + sA) = 2 ^ (fb + 1) + unat sA" by (subst unat_add_less) (simp_all only: h)
  have uS: "unat sigZ = S" unfolding sigZ_def S_def using b by (subst unat_add_less) (simp_all only: 1)
  have x: "x = real S * pw2 (fp_qmin fb eb + int E - 1)"
    using E(1) F unfolding x_def mag_aligned [OF F(1), of _ _ 0] mag_aligned [OF F(2), of _ _ 0]
    by (simp add: aligned_def S_def algebra_simps)
  have g2: "fb + g + 1 = fb + 2 + (g - 1)" using g3 by simp
  have "S * 2 ^ (g - 1) < 2 ^ (fb + 2) * 2 ^ (g - 1)" using S(2) by simp
  also have "\<dots> = 2 ^ (fb + g + 1)" unfolding g2 by (rule power_add [symmetric])
  finally have up: "S * 2 ^ (g - 1) < 2 ^ (fb + g + 1)" .
  have g2: "fb + g = fb + 1 + (g - 1)" using g3 by simp
  have lo: "2 ^ (fb + g) \<le> S * 2 ^ (g - 1)" unfolding g2 power_add [of _ "fb + 1"] using S(1) by (rule mult_le_mono1)
  have p: "unat (push_bit (g - 1) sigZ) = jam 0 (S * 2 ^ (g - 1))"
    using up w by (subst unat_push_bit_less) (simp_all add: uS)
  have e: "int E < 4096" using E(2) by (intro exp_field_less) simp
  show "o_roundPack ops neg (int E) (push_bit (g - 1) sigZ) st = fp_result fb eb neg x st"
  proof (rule round_jam [OF p])
    show "x = real (S * 2 ^ (g - 1)) * pw2 (int E + fp_qmin fb eb - int g - int 0)"
      using g3 by (simp add: x pw2_diff pw2_add of_nat_diff)
        (simp add: power_diff)
  qed (use lo up e p in simp_all)
  assume "sigZ AND 1 = 0" and E2: "E < 2 ^ eb - 2"
  then have "even S" using and_mask_eq_0_iff [of sigZ 1] 
    by (simp add: mask_eq_exp_minus_1 uS even_iff_mod_2_eq_zero)
  then have S2: "real (S div 2) * 2 = real S" by (metis dvd_div_mult_self of_nat_mult of_nat_numeral)
  have half: "S div 2 < 2 ^ (fb + 1)" "2 ^ fb \<le> S div 2" using S by simp_all
  have d: "unat (drop_bit 1 sigZ) = S div 2" by (simp add: unat_drop_bit uS)
  have "(o_pack ops neg (int E) (drop_bit 1 sigZ), st) =
      fp_result fb eb neg (real (S div 2) * pw2 (fp_qmin fb eb + int E)) st"
    using half E2 d by (intro pack_exact) simp_all
  also have "real (S div 2) * pw2 (fp_qmin fb eb + int E) = x"
    unfolding x S2 [symmetric] by (simp add: pw2_diff)
  finally show "(o_pack ops neg (int E) (drop_bit 1 sigZ), st) = fp_result fb eb neg x st" .
qed

lemma sint_diff:
  fixes a b :: uint64_t
  assumes "unat a < 2 ^ 62" and "unat b < 2 ^ 62"
  shows "sint (a - b) = int (unat a) - int (unat b)"
proof -
  have "int (unat a) < int (2 ^ 62)" "int (unat b) < int (2 ^ 62)" using assms by (simp_all only: of_nat_less_iff)
  then have lt: "0 \<le> uint a" "uint a < 2 ^ 62" "0 \<le> uint b" "uint b < 2 ^ 62" by simp_all
  have *: "sint (word_of_int k :: uint64_t) = k" if "- (2 ^ 62) \<le> k" "k < 2 ^ 62" for k
    using that by (subst signed_of_int, subst signed_take_bit_int_eq_self) simp_all
  have "sint (word_of_int (uint a - uint b) :: uint64_t) = uint a - uint b" using lt by (intro *) linarith+
  then show ?thesis by simp
qed

lemma sub_same:
  assumes E: "E < 2 ^ eb - 1" and x: "0 < x" "x < 2 ^ fb"
  defines "expA \<equiv> (if int E \<noteq> 0 then int E - 1 else int E)"
    and "shiftDist \<equiv> int (clz x) - int (g + 1)"
  shows "(case if expA - shiftDist < 0 then (expA, 0) else (shiftDist, expA - shiftDist) of
      (shiftDist, expZ) \<Rightarrow> (o_pack ops neg expZ (push_bit (nat shiftDist) (word_of_int x)), st)) =
    fp_result fb eb neg (real_of_int x * pw2 (fp_qmin fb eb + expA)) st"
proof -
  define n c eA where "n = nat x" and "c = clz x" and "eA = E - 1"
  have n: "0 < n" "n < 2 ^ fb" "x = int n" using x by (simp_all add: n_def nat_less_iff)
  have "is_clz (fb + g + 2) n c" unfolding n_def c_def using x by (rule clz)
  note c = clz_subnormal [OF this n(1,2), of "g + 1"]
  define sd where "sd = c - (g + 1)"
  have sd: "shiftDist = int sd" "2 ^ fb \<le> n * 2 ^ sd" "n * 2 ^ sd < 2 ^ (fb + 1)"
    using c by (simp_all add: shiftDist_def c_def [symmetric] sd_def)
  have eA: "expA = int eA" using E by (simp add: expA_def eA_def)
  have un: "unat (word_of_int x :: uint64_t) = n"
  proof -
    have "n < 2 ^ 64" using n(2) power_increasing [of fb 64 "2::nat"] width(3) by simp
    then show ?thesis by (simp add: n(3) unat_of_nat)
  qed
  have shift: "unat (push_bit k (word_of_int x :: uint64_t)) = n * 2 ^ k" if "n * 2 ^ k < 2 ^ (fb + 1)" for k
  proof (rule trans [OF unat_push_bit_less])
    have "(2::nat) ^ (fb + 1) \<le> 2 ^ LENGTH(64)" using width(3) by (intro power_increasing) simp_all
    then show "unat (word_of_int x :: uint64_t) * 2 ^ k < 2 ^ LENGTH(64)" using that un by simp
  qed (simp add: un)
  show ?thesis
  proof (cases "eA < sd")
    case True
    have "n * 2 ^ eA \<le> n * 2 ^ sd" using True by (intro mult_le_mono2 power_increasing) simp_all
    then have lt: "n * 2 ^ eA < 2 ^ (fb + 1)" using sd(3) by (rule le_less_trans)
    have "(o_pack ops neg (int 0) (push_bit eA (word_of_int x)), st) =
        fp_result fb eb neg (real (n * 2 ^ eA) * pw2 (fp_qmin fb eb + int 0)) st"
      using lt eb_ge power_increasing [of 2 eb "2::nat"] by (intro pack_exact) (simp_all add: shift)
    then show ?thesis using True lt by (simp add: eA sd(1) shift n(3) pw2_add mult.commute mult.left_commute)
  next
    case False
    have "(o_pack ops neg (int (eA - sd)) (push_bit sd (word_of_int x)), st) =
        fp_result fb eb neg (real (n * 2 ^ sd) * pw2 (fp_qmin fb eb + int (eA - sd))) st"
      using sd(2,3) E eb_ge power_increasing [of 2 eb "2::nat"] by (intro pack_exact) (auto simp: shift eA_def)
    then show ?thesis using False sd(3) by (simp add: eA sd(1) shift n(3) of_nat_diff pw2_add pw2_diff)
  qed
qed

lemma push_bit_0_iff:
  assumes "unat s < 2 ^ fb" and "k \<le> g"
  shows "push_bit k (s :: uint64_t) = 0 \<longleftrightarrow> s = 0"
proof -
  have "unat s * 2 ^ k < 2 ^ fb * 2 ^ k" using assms(1) by simp
  also have "\<dots> \<le> 2 ^ LENGTH(64)"
    unfolding power_add [symmetric] using assms(2) width(3) by (intro power_increasing) simp_all
  finally have "unat (push_bit k s) = unat s * 2 ^ k" by (rule unat_push_bit_less)
  then show ?thesis by (simp add: word_eq_unat)
qed

lemma add_subnormals:
  fixes a :: "'w word"
  assumes "fp_magbits fb eb a = unat sA" and "unat sA < 2 ^ fb" and "unat sB < 2 ^ fb"
  shows "(ucast (ucast a + sB :: uint64_t) :: 'w word, st) =
    fp_result fb eb (fp_neg fb eb a) (fp_mag fb eb (unat sA) + fp_mag fb eb (unat sB)) st"
proof -
  define u where "u = unat sA + unat sB"
  have u: "u < 2 ^ (fb + 1)" using assms(2,3) by (simp add: u_def)
  have inf: "u < fp_inf fb eb" using u inf_bound(2) by linarith
  have eb1: "(2::nat) ^ (fb + 1) \<le> 2 ^ (fb + eb)" using eb_ge by (intro power_increasing) simp_all
  define n where "n = of_bool (fp_neg fb eb a) * 2 ^ (fb + eb) + u"
  have "n < 2 ^ (1 + fb + eb)" using u eb1 by (cases "fp_neg fb eb a") (simp_all add: n_def)
  then have n: "n < 2 ^ LENGTH('w)" by (simp only: width(1))
  moreover have "(2::nat) ^ LENGTH('w) \<le> 2 ^ LENGTH(64)" using width(2) by (intro power_increasing) simp_all
  moreover have "unat a + unat sB = n" by (simp add: unat_split assms(1) n_def u_def)
  ultimately have "unat (ucast a + sB :: uint64_t) = n"
    using width(2) by (subst unat_add_less) simp_all
  then have "ucast (ucast a + sB :: uint64_t) = (fp_word fb eb (fp_neg fb eb a) u :: 'w word)"
    using n unat_fp_word [OF width(1), of u "fp_neg fb eb a"] u eb1 by (simp add: word_eq_unat unat_ucast n_def)
  moreover have "fp_mag fb eb (unat sA) + fp_mag fb eb (unat sB) = fp_mag fb eb u"
    using mag_packed [of "unat sA" fb 0 eb] mag_packed [of "unat sB" fb 0 eb] mag_packed [OF u, of 0 eb] assms(2,3)
    by (simp add: u_def algebra_simps)
  ultimately show ?thesis by (simp only: exact_result [OF inf])
qed

theorem gen_addMags_correct:
  "gen_addMags ops fb eb g shiftJam fast (ucast a) (ucast b) (fp_neg fb eb a) st =
    ieee_addMags fb eb (fp_neg fb eb a) a b st"
proof -
  obtain eA sA where A: "o_exp ops (ucast a) = int eA" "o_frac ops (ucast a) = sA" "unat sA < 2 ^ fb"
    "fp_magbits fb eb a = eA * 2 ^ fb + unat sA" "eA < 2 ^ eb" "fp_finite fb eb a \<longleftrightarrow> eA < 2 ^ eb - 1"
    by (rule fields)
  obtain eB sB where B: "o_exp ops (ucast b) = int eB" "o_frac ops (ucast b) = sB" "unat sB < 2 ^ fb"
    "fp_magbits fb eb b = eB * 2 ^ fb + unat sB" "eB < 2 ^ eb" "fp_finite fb eb b \<longleftrightarrow> eB < 2 ^ eb - 1"
    by (rule fields)
  have k: "g - 1 \<le> g" by simp
  define K :: nat where "K = 2 ^ eb - 1"
  have max: "(2::int) ^ eb - 1 = int K" "(2::int) ^ eb - 2 = int K - 1" by (simp_all add: K_def of_nat_diff)
  have pos: "0 < K" using eb_ge power_increasing [of 2 eb "2::nat"] by (simp add: K_def)
  have ranges: "eA \<le> K" "eB \<le> K" "fp_finite fb eb a \<longleftrightarrow> eA < K" "fp_finite fb eb b \<longleftrightarrow> eB < K"
    using A(5,6) B(5,6) by (simp_all add: K_def)
  note code = gen_addMags_def Let_def A(1,2) B(1,2) max of_nat_eq_iff of_nat_eq_0_iff
    push_bit_0_iff [OF A(3) k] push_bit_0_iff [OF B(3) k] or_eq_0_iff propagateNaN ucast_ucast
  consider (both) "\<not> fp_finite fb eb a" "\<not> fp_finite fb eb b" | (left) "\<not> fp_finite fb eb a" "fp_finite fb eb b"
    | (right) "fp_finite fb eb a" "\<not> fp_finite fb eb b" | (fin) "fp_finite fb eb a" "fp_finite fb eb b" by blast
  then show ?thesis
  proof cases
    case both
    then have e: "eA = K" "eB = K" using ranges by linarith+
    show ?thesis
      using both not_finite_frac [OF both(1)] not_finite_frac [OF both(2)] inf_word [of a] pos
      unfolding code e by (auto simp: ieee_addMags_def A(2) B(2))
  next
    case left
    then have e: "eA = K" "eB < K" using ranges by linarith+
    have "\<not> fp_is_nan fb eb b" "\<not> fp_is_inf fb eb b" using left(2) by (auto simp: fp_finite_def fp_is_nan_def fp_is_inf_def)
    then show ?thesis
      using left not_finite_frac [OF left(1)] inf_word [of a] e(2)
      unfolding code e(1) by (auto simp: ieee_addMags_def A(2))
  next
    case right
    then have e: "eA < K" "eB = K" using ranges by linarith+
    have "\<not> fp_is_nan fb eb a" "\<not> fp_is_inf fb eb a" using right(1) by (auto simp: fp_finite_def fp_is_nan_def fp_is_inf_def)
    then show ?thesis
      using right not_finite_frac [OF right(2)] e(1) pack_special(2) [unfolded max]
      unfolding code e(2) by (auto simp: ieee_addMags_def B(2))
  next
    case fin
    then have e: "eA < K" "eB < K" using ranges by simp_all
    have spec: "ieee_addMags fb eb (fp_neg fb eb a) a b st =
        fp_result fb eb (fp_neg fb eb a) (fp_mag fb eb (eA * 2 ^ fb + unat sA) + fp_mag fb eb (eB * 2 ^ fb + unat sB)) st"
      using fin by (auto simp: ieee_addMags_def abs_real A(4) B(4) fp_finite_def fp_is_nan_def fp_is_inf_def)
    consider "eA = eB" "eA = 0" | "eA = eB" "0 < eA" | "eA < eB" | "eB < eA" by linarith
    then show ?thesis
    proof cases
      case 1
      then show ?thesis
        using add_subnormals [OF _ A(3) B(3), of a st] A(4) unfolding spec code by simp
    next
      case 2
      have "(2::nat) ^ eb - 2 = K - 1" by (simp add: K_def)
      then have K1: "eA < 2 ^ eb - 2 \<longleftrightarrow> int eA < int K - 1" by linarith
      have "\<not> eA = K" "eA \<noteq> 0" using e 2 by simp_all
      with 2 show ?thesis
        using add_same [OF 2(2) e(1) [unfolded K_def] A(3) B(3), unfolded K1, of "fp_neg fb eb a" st]
        unfolding spec code by simp
    next
      case 3
      then have c: "(int eA - int eB = 0) = False" "(int eA - int eB < 0) = True" "(eB = K) = False" using e by simp_all
      show ?thesis
        unfolding spec code c if_True if_False minus_diff_eq
        by (rule add_finish_left [OF 3 e(2) [unfolded K_def] B(3) A(3)])
    next
      case 4
      then have c: "(int eA - int eB = 0) = False" "(int eA - int eB < 0) = False" "(eA = K) = False" using e by simp_all
      show ?thesis
        unfolding spec code c if_False by (rule add_finish [OF 4 e(1) [unfolded K_def] A(3) B(3)])
    qed
  qed
qed

lemma less_field:
  assumes "eY < (eX :: nat)" and "F < 2 ^ fb"
  shows "eY * 2 ^ fb + F < eX * 2 ^ fb + F'"
proof -
  have "(eY + 1) * 2 ^ fb \<le> eX * 2 ^ fb" using assms(1) by (intro mult_le_mono1) simp
  with assms(2) show ?thesis by simp
qed

lemma sub_same_value:
  assumes "unat sA < 2 ^ fb" and "unat sB < 2 ^ fb"
  shows "fp_mag fb eb (E * 2 ^ fb + unat sA) - fp_mag fb eb (E * 2 ^ fb + unat sB) =
    real_of_int (int (unat sA) - int (unat sB)) * pw2 (fp_qmin fb eb + (if int E \<noteq> 0 then int E - 1 else int E))"
  unfolding mag_aligned [OF assms(1), of _ _ 0] mag_aligned [OF assms(2), of _ _ 0]
  by (simp add: aligned_def pw2_diff pw2_add field_simps)

theorem gen_subMags_correct:
  "gen_subMags ops fb eb g shiftJam clz (ucast a) (ucast b) neg st = ieee_subMags fb eb neg a b st"
  if neg: "neg = fp_neg fb eb a"
proof -
  obtain eA sA where A: "o_exp ops (ucast a) = int eA" "o_frac ops (ucast a) = sA" "unat sA < 2 ^ fb"
    "fp_magbits fb eb a = eA * 2 ^ fb + unat sA" "eA < 2 ^ eb" "fp_finite fb eb a \<longleftrightarrow> eA < 2 ^ eb - 1"
    by (rule fields)
  obtain eB sB where B: "o_exp ops (ucast b) = int eB" "o_frac ops (ucast b) = sB" "unat sB < 2 ^ fb"
    "fp_magbits fb eb b = eB * 2 ^ fb + unat sB" "eB < 2 ^ eb" "fp_finite fb eb b \<longleftrightarrow> eB < 2 ^ eb - 1"
    by (rule fields)
  define K :: nat where "K = 2 ^ eb - 1"
  have max: "(2::int) ^ eb - 1 = int K" by (simp add: K_def of_nat_diff)
  have pos: "0 < K" using eb_ge power_increasing [of 2 eb "2::nat"] by (simp add: K_def)
  have ranges: "eA \<le> K" "eB \<le> K" "fp_finite fb eb a \<longleftrightarrow> eA < K" "fp_finite fb eb b \<longleftrightarrow> eB < K"
    using A(5,6) B(5,6) by (simp_all add: K_def)
  note code = gen_subMags_def Let_def A(1,2) B(1,2) max of_nat_eq_iff of_nat_eq_0_iff
    push_bit_0_iff [OF A(3) order_refl] push_bit_0_iff [OF B(3) order_refl] or_eq_0_iff propagateNaN
    ucast_ucast defaultNaN
  consider (both) "\<not> fp_finite fb eb a" "\<not> fp_finite fb eb b" | (left) "\<not> fp_finite fb eb a" "fp_finite fb eb b"
    | (right) "fp_finite fb eb a" "\<not> fp_finite fb eb b" | (fin) "fp_finite fb eb a" "fp_finite fb eb b" by blast
  then show ?thesis
  proof cases
    case both
    then have e: "eA = K" "eB = K" using ranges by linarith+
    show ?thesis
      using both not_finite_frac [OF both(1)] not_finite_frac [OF both(2)]
      unfolding code e by (auto simp: ieee_subMags_def A(2) B(2) fp_invalid_def)
  next
    case left
    then have e: "eA = K" "eB < K" using ranges by linarith+
    have "\<not> fp_is_nan fb eb b" "\<not> fp_is_inf fb eb b" using left(2) by (auto simp: fp_finite_def fp_is_nan_def fp_is_inf_def)
    then show ?thesis
      using left not_finite_frac [OF left(1)] inf_word [of a] e(2)
      unfolding code e(1) by (auto simp: ieee_subMags_def A(2) neg)
  next
    case right
    then have e: "eA < K" "eB = K" using ranges by linarith+
    have "\<not> fp_is_nan fb eb a" "\<not> fp_is_inf fb eb a" using right(1) by (auto simp: fp_finite_def fp_is_nan_def fp_is_inf_def)
    then show ?thesis
      using right not_finite_frac [OF right(2)] e(1) pack_special(2) [unfolded max]
      unfolding code e(2) by (auto simp: ieee_subMags_def B(2))
  next
    case fin
    then have e: "eA < K" "eB < K" using ranges by simp_all
    define d where "d = fp_mag fb eb (eA * 2 ^ fb + unat sA) - fp_mag fb eb (eB * 2 ^ fb + unat sB)"
    have spec: "ieee_subMags fb eb neg a b st =
        (if d = 0 then (fp_word fb eb (sf_mode st = Down) 0, st) else fp_result fb eb (neg \<noteq> (d < 0)) \<bar>d\<bar> st)"
      using fin by (auto simp: ieee_subMags_def abs_real A(4) B(4) fp_finite_def fp_is_nan_def fp_is_inf_def d_def)
    consider "eA = eB" | "eA < eB" | "eB < eA" by linarith
    then show ?thesis
    proof cases
      case 1
      define D where "D = int (unat sA) - int (unat sB)"
      have "fb \<le> 62" using width(3) g3 by simp
      then have "(2::nat) ^ fb \<le> 2 ^ 62" by (intro power_increasing) simp_all
      then have sD: "sint (sA - sB) = D" unfolding D_def using A(3) B(3) by (intro sint_diff) linarith+
      let ?q = "fp_qmin fb eb + (if int eA \<noteq> 0 then int eA - 1 else int eA)"
      have d: "d = real_of_int D * pw2 ?q"
        unfolding d_def D_def 1 [symmetric] by (rule sub_same_value [OF A(3) B(3)])
      have "0 < pw2 ?q" by (rule pw2_pos)
      then have d0: "d = 0 \<longleftrightarrow> D = 0" "d < 0 \<longleftrightarrow> D < 0"
        unfolding d by (simp_all only: mult_less_0_iff mult_eq_0_iff of_int_eq_0_iff of_int_less_0_iff) auto
      have "int (unat sA) < int (2 ^ fb)" "int (unat sB) < int (2 ^ fb)" using A(3) B(3) by (simp_all only: of_nat_less_iff)
      then have D: "\<bar>D\<bar> < 2 ^ fb" unfolding D_def of_nat_power of_nat_numeral by linarith
      have c: "(int eA - int eB = 0) = True" "(eA = K) = False" using e 1 by simp_all
      show ?thesis
      proof (cases "D = 0")
        case True
        then show ?thesis unfolding spec code c if_True if_False sD
          by (simp add: d0 pack_special rmode_of_iff)
      next
        case False
        have absd: "\<bar>d\<bar> = real_of_int \<bar>D\<bar> * pw2 ?q" by (simp add: d abs_mult)
        have pair: "(if D < 0 then (\<not> neg, - D) else (neg, D)) = (neg \<noteq> (D < 0), \<bar>D\<bar>)" by simp
        show ?thesis
          using sub_same [OF e(1) [unfolded K_def], of "\<bar>D\<bar>" "neg \<noteq> (D < 0)" st] False D
          unfolding spec code c if_True if_False sD absd d0 pair prod.case of_nat_eq_0_iff by simp
      qed
    next
      case 2
      then have c: "(int eA - int eB = 0) = False" "(int eA - int eB < 0) = True" "(eB = K) = False" using e by simp_all
      have lt: "d < 0" unfolding d_def using less_field [OF 2 A(3)] by (simp add: mag_less_iff)
      then have abs: "\<bar>d\<bar> = fp_mag fb eb (eB * 2 ^ fb + unat sB) - fp_mag fb eb (eA * 2 ^ fb + unat sA)" by (simp add: d_def)
      show ?thesis
        using lt sub_finish [OF 2 e(2) [unfolded K_def] B(3) A(3)]
        unfolding spec code c if_True if_False minus_diff_eq abs by simp
    next
      case 3
      then have c: "(int eA - int eB = 0) = False" "(int eA - int eB < 0) = False" "(eA = K) = False" using e by simp_all
      have lt: "0 < d" unfolding d_def using less_field [OF 3 B(3)] by (simp add: mag_less_iff)
      then have abs: "\<bar>d\<bar> = fp_mag fb eb (eA * 2 ^ fb + unat sA) - fp_mag fb eb (eB * 2 ^ fb + unat sB)" by (simp add: d_def)
      show ?thesis
        using lt sub_finish [OF 3 e(1) [unfolded K_def] A(3) B(3)]
        unfolding spec code c if_False abs by simp
    qed
  qed
qed

end

section \<open>From magnitudes to signed operands\<close>

context sf_format
begin

lemma real_sign: "fp_real fb eb a = (if fp_neg fb eb a then - \<bar>fp_real fb eb a\<bar> else \<bar>fp_real fb eb a\<bar>)"
  by (simp add: abs_real) (simp add: fp_real_def)

lemma addMags_add:
  fixes a b :: "'w word"
  assumes "fp_neg fb eb a = (fp_neg fb eb b \<noteq> sub)"
  shows "ieee_addMags fb eb (fp_neg fb eb a) a b st = ieee_add fb eb sub a b st"
proof -
  define x where "x = fp_real fb eb a + (if sub then - fp_real fb eb b else fp_real fb eb b)"
  define y where "y = \<bar>fp_real fb eb a\<bar> + \<bar>fp_real fb eb b\<bar>"
  have "x = (if fp_neg fb eb a then - y else y)"
    using assms real_sign [of a] real_sign [of b] by (auto simp: x_def y_def split: if_splits)
  moreover have "0 \<le> y" by (simp add: y_def)
  ultimately have "(fp_result fb eb (fp_neg fb eb a) y st :: 'w word \<times> sf_state) =
      (if x = 0 then (fp_word fb eb (fp_neg fb eb a) 0, st) else fp_result fb eb (x < 0) \<bar>x\<bar> st)"
    by (cases "y = 0") auto
  then show ?thesis
    using assms unfolding ieee_addMags_def ieee_add_def Let_def y_def [symmetric] x_def [symmetric]
    by auto
qed

lemma subMags_add:
  fixes a b :: "'w word"
  assumes "fp_neg fb eb a \<noteq> (fp_neg fb eb b \<noteq> sub)"
  shows "ieee_subMags fb eb (fp_neg fb eb a) a b st = ieee_add fb eb sub a b st"
proof -
  define x where "x = fp_real fb eb a + (if sub then - fp_real fb eb b else fp_real fb eb b)"
  define d where "d = \<bar>fp_real fb eb a\<bar> - \<bar>fp_real fb eb b\<bar>"
  have "x = (if fp_neg fb eb a then - d else d)"
    using assms real_sign [of a] real_sign [of b] by (auto simp: x_def d_def split: if_splits)
  then have "d = 0 \<longleftrightarrow> x = 0" "x \<noteq> 0 \<Longrightarrow> (fp_neg fb eb a \<noteq> (d < 0)) = (x < 0)" "\<bar>d\<bar> = \<bar>x\<bar>" by auto
  then show ?thesis
    using assms unfolding ieee_subMags_def ieee_add_def Let_def d_def [symmetric] x_def [symmetric] by auto
qed

lemma mags_add:
  fixes a b :: "'w word"
  defines "s \<equiv> fp_neg fb eb a = fp_neg fb eb b"
  shows "(if s then ieee_addMags fb eb (fp_neg fb eb a) a b st else ieee_subMags fb eb (fp_neg fb eb a) a b st) =
      ieee_add fb eb False a b st"
    and "(if s then ieee_subMags fb eb (fp_neg fb eb a) a b st else ieee_addMags fb eb (fp_neg fb eb a) a b st) =
      ieee_add fb eb True a b st"
  using addMags_add [of a b _ st] subMags_add [of a b _ st] unfolding s_def by (metis (full_types))+

end

lemma if_not_eq: "(if x \<noteq> y then p else q) = (if x = y then q else p)"
  by simp

lemma sign_bit32: "drop_bit 31 (w :: uint32_t) \<noteq> 0 \<longleftrightarrow> bit w 31"
proof -
  have "bit w (31 + n) \<longleftrightarrow> n = 0 \<and> bit w 31" for n using bit_imp_le_length [of w "31 + n"] by (cases n) auto
  then have "drop_bit 31 w = of_bool (bit w 31)"
    by (intro bit_word_eqI) (auto simp: bit_simps)
  then show ?thesis by simp
qed

lemma signF32UI_xor: "signF32UI (a XOR b) \<longleftrightarrow> signF32UI a \<noteq> signF32UI b"
  unfolding signF32UI_def sign_bit32 by (simp add: bit_simps)

interpretation as32: sf_addsub 23 8 7 f32_ops "\<lambda>s d. ucast (softfloat_shiftRightJam32 (ucast s) d)"
  "\<lambda>x. softfloat_countLeadingZeros32 (word_of_int x)"
proof (unfold_locales, goal_cases)
  case (2 s dst)
  then show ?case by (simp add: unat_shiftRightJam32 unat_ucast_less)
next
  case (3 x)
  then have "unat (word_of_int x :: uint32_t) = nat x" by (intro unat_word_of_int) simp_all
  then show ?case using countLeadingZeros32_correct [of "word_of_int x"] by simp
qed simp

interpretation as64: sf_addsub 52 11 10 f64_ops softfloat_shiftRightJam64
  "\<lambda>x. softfloat_countLeadingZeros64 (word_of_int x)"
proof (unfold_locales, goal_cases)
  case (2 s dst)
  then show ?case by (simp add: unat_shiftRightJam64)
next
  case (3 x)
  then have "unat (word_of_int x :: uint64_t) = nat x" by (intro unat_word_of_int) simp_all
  then show ?case using countLeadingZeros64_correct [of "word_of_int x"] by simp
qed simp

lemma mags32:
  "softfloat_addMagsF32 (ucast a) (ucast b) st = ieee_addMags 23 8 (fp_neg 23 8 (a :: float32_t)) a b st"
  "softfloat_subMagsF32 (ucast a) (ucast b) st = ieee_subMags 23 8 (fp_neg 23 8 (a :: float32_t)) a b st"
  unfolding addMagsF32_code subMagsF32_code f32_fields(1)
  by (rule as32.gen_addMags_correct, rule as32.gen_subMags_correct [OF refl])

lemma mags64:
  "softfloat_addMagsF64 a b (fp_neg 52 11 a) st = ieee_addMags 52 11 (fp_neg 52 11 a) a b st"
  "softfloat_subMagsF64 a b (fp_neg 52 11 a) st = ieee_subMags 52 11 (fp_neg 52 11 a) a b st"
  unfolding addMagsF64_code subMagsF64_code
  using as64.gen_addMags_correct [of _ a b st] as64.gen_subMags_correct [OF refl, of a b st] by simp_all

lemma f32_add_sub_spec:
  "f32_add a b st = ieee_add 23 8 False a b st" "f32_sub a b st = ieee_add 23 8 True a b st"
  unfolding f32_add_def f32_sub_def Let_def signF32UI_xor mags32 f32_fields(1)
  using f32.mags_add [of a b st] by (simp_all only: if_not_eq)

lemma f64_add_sub_spec:
  "f64_add a b st = ieee_add 52 11 False a b st" "f64_sub a b st = ieee_add 52 11 True a b st"
  unfolding f64_add_def f64_sub_def Let_def mags64 f64_fields(1)
  using f64.mags_add [of a b st] by (simp_all only: if_not_eq)

section \<open>Properties\<close>

text \<open>
  C1. Addition and subtraction are the IEEE 754 operations in binary32 and binary64: for every pair of
  operands, every rounding mode and either tininess rule, the result is the exact sum or difference
  correctly rounded with the exceptions of that rounding; an exact zero difference is positive, and
  negative when rounding down; infinities of opposite signs cancel to an invalid operation.
\<close>

theorem add_sub_correctly_rounded:
  "f32_add a b st = ieee_add 23 8 False a b st \<and> f32_sub a b st = ieee_add 23 8 True a b st \<and>
   f64_add x y st = ieee_add 52 11 False x y st \<and> f64_sub x y st = ieee_add 52 11 True x y st"
  by (simp only: f32_add_sub_spec f64_add_sub_spec)

end
