(* ===== verification/SF_Frame.thy ===== *)
theory SF_Frame
  imports SF_Mul SF_AddSub SF_FromInt SF_ToIntTrunc SF_Compare
begin

text \<open>
  What the modelled operations of the library do to its global state: the rounding mode and the tininess rule are
  left alone, and exceptions only accumulate in the five defined flags.
\<close>

section \<open>The frame of the operations\<close>

definition sf_frame :: "(sf_state \<Rightarrow> 'a \<times> sf_state) \<Rightarrow> bool" where
  "sf_frame op \<longleftrightarrow>
     (\<forall>st. softfloat_roundingMode (snd (op st)) = softfloat_roundingMode st \<and>
       softfloat_detectTininess (snd (op st)) = softfloat_detectTininess st \<and>
       softfloat_exceptionFlags st OR softfloat_exceptionFlags (snd (op st)) = softfloat_exceptionFlags (snd (op st)) \<and>
       softfloat_exceptionFlags (snd (op st)) AND NOT 0x1F = softfloat_exceptionFlags st AND NOT 0x1F)"

definition defined_flags :: "uint_fast8_t \<Rightarrow> bool" where
  "defined_flags f \<longleftrightarrow> f AND NOT 0x1F = 0"

definition raises :: "sf_state \<Rightarrow> sf_state \<Rightarrow> bool" where
  "raises st st' \<longleftrightarrow> (\<exists>f. defined_flags f \<and> st' = softfloat_raiseFlags f st)"

lemma defined_flags_const [simp]:
  "defined_flags 0" "defined_flags softfloat_flag_invalid" "defined_flags softfloat_flag_inexact"
  by (simp_all add: defined_flags_def flag_defs)

lemma raises_refl [intro, simp]: "raises st st"
  unfolding raises_def by (rule exI [of _ 0]) simp

lemma raises_flags [intro, simp]: "defined_flags f \<Longrightarrow> raises st (softfloat_raiseFlags f st)"
  unfolding raises_def by blast

lemma sf_frameI:
  assumes "\<And>st. raises st (snd (op st))"
  shows "sf_frame op"
  unfolding sf_frame_def
proof
  fix st
  obtain f where f: "defined_flags f" "snd (op st) = softfloat_raiseFlags f st"
    using assms unfolding raises_def by blast
  have "(F OR f) AND NOT 0x1F = F AND NOT 0x1F" for F
    using f(1) unfolding defined_flags_def by (simp only: bit.conj_disj_distrib2 or.right_neutral)
  then show "softfloat_roundingMode (snd (op st)) = softfloat_roundingMode st \<and>
      softfloat_detectTininess (snd (op st)) = softfloat_detectTininess st \<and>
      softfloat_exceptionFlags st OR softfloat_exceptionFlags (snd (op st)) = softfloat_exceptionFlags (snd (op st)) \<and>
      softfloat_exceptionFlags (snd (op st)) AND NOT 0x1F = softfloat_exceptionFlags st AND NOT 0x1F"
    by (simp only: f(2) raiseFlags_sel or.left_idem simp_thms)
qed

section \<open>The specifications only raise the defined flags\<close>

lemma fp_flags_defined: "defined_flags (fp_flags fb eb bef m neg z)"
  by (simp add: defined_flags_def fp_flags_def flag_defs)

lemma raises_result: "raises st (snd (fp_result fb eb neg z st))"
  by (simp add: fp_result_def fp_flags_defined)

lemma raises_invalid: "raises st (snd (fp_invalid fb eb st))"
  by (simp add: fp_invalid_def)

lemma raises_nan_result: "raises st (snd (fp_nan_result fb eb s st))"
  by (simp add: fp_nan_result_def raises_invalid)

lemma raises_add: "raises st (snd (ieee_add fb eb sub p q st))"
  by (simp add: ieee_add_def Let_def raises_nan_result raises_invalid raises_result)

lemma raises_mul: "raises st (snd (ieee_mul fb eb p q st))"
  by (simp add: ieee_mul_def Let_def raises_nan_result raises_invalid raises_result)

lemma raises_cmp: "raises st (snd (fp_cmp fb eb s R p q st))"
  by (simp add: fp_cmp_def)

lemma raises_maxmin: "raises st (snd (fp_maxmin fb eb m p q st))"
  by (simp add: fp_maxmin_def)

lemma raises_int_overflow: "raises st (snd (int_overflow lo hi neg st))"
  by (simp add: int_overflow_def)

lemma raises_int_result: "raises st (snd (int_result lo hi neg m e z st))"
  by (simp add: int_result_def int_deliver_def Let_def raises_int_overflow)

lemma raises_to_int: "raises st (snd (ieee_to_int fb eb lo hi m e p st))"
  by (simp add: ieee_to_int_def raises_int_overflow raises_int_result)

lemmas raises_specs = raises_add raises_mul raises_cmp raises_maxmin raises_to_int raises_result

text \<open>A conversion to an integer is specified up to the reading of its result.\<close>

lemma raises_map_prod: "map_prod f id z = ieee_to_int fb eb lo hi m e p st \<Longrightarrow> raises st (snd z)"
  using raises_to_int [of st fb eb lo hi m e p] by (metis snd_map_prod id_apply)

section \<open>The operations\<close>

lemma frame_arith:
    "sf_frame (f32_add c d)" "sf_frame (f32_sub c d)" "sf_frame (f64_add x y)" "sf_frame (f64_sub x y)"
    "sf_frame (f16_mul a b)" "sf_frame (f32_mul c d)" "sf_frame (f64_mul x y)"
  by (simp_all add: sf_frameI f32_add_sub_spec f64_add_sub_spec f16_mul_spec f32_mul_spec f64_mul_spec raises_specs)

lemma frame_compare:
    "sf_frame (f16_eq a b)" "sf_frame (f16_le a b)" "sf_frame (f16_lt a b)"
    "sf_frame (f16_eq_signaling a b)" "sf_frame (f16_le_quiet a b)" "sf_frame (f16_lt_quiet a b)"
    "sf_frame (f32_eq c d)" "sf_frame (f32_le c d)" "sf_frame (f32_lt c d)"
    "sf_frame (f32_eq_signaling c d)" "sf_frame (f32_le_quiet c d)" "sf_frame (f32_lt_quiet c d)"
    "sf_frame (f64_eq x y)" "sf_frame (f64_le x y)" "sf_frame (f64_lt x y)"
    "sf_frame (f64_eq_signaling x y)" "sf_frame (f64_le_quiet x y)" "sf_frame (f64_lt_quiet x y)"
  by (simp_all add: sf_frameI compare_specs raises_specs)

lemma frame_maxmin:
    "sf_frame (f16_max a b)" "sf_frame (f16_min a b)" "sf_frame (f32_max c d)" "sf_frame (f32_min c d)"
    "sf_frame (f64_max x y)" "sf_frame (f64_min x y)"
  by (simp_all add: sf_frameI maxmin_specs raises_specs)

lemma frame_from_int:
  fixes u :: "32 word" and v :: "64 word"
  shows
    "sf_frame (ui32_to_f16 u)" "sf_frame (ui32_to_f32 u)" "sf_frame (ui32_to_f64 u)"
    "sf_frame (i32_to_f16 u)" "sf_frame (i32_to_f32 u)" "sf_frame (i32_to_f64 u)"
    "sf_frame (ui64_to_f16 v)" "sf_frame (ui64_to_f32 v)" "sf_frame (ui64_to_f64 v)"
    "sf_frame (i64_to_f16 v)" "sf_frame (i64_to_f32 v)" "sf_frame (i64_to_f64 v)"
  by (simp_all add: sf_frameI ui32_to_f16_spec ui32_to_f32_spec ui32_to_f64_spec i32_to_f16_spec i32_to_f32_spec i32_to_f64_spec ui64_to_f16_spec ui64_to_f32_spec ui64_to_f64_spec i64_to_f16_spec i64_to_f32_spec i64_to_f64_spec raises_specs)

lemma frame_to_int:
    "sf_frame (f16_to_i32 a r e)" "sf_frame (f16_to_ui32 a r e)" "sf_frame (f16_to_i64 a r e)"
    "sf_frame (f16_to_ui64 a r e)" "sf_frame (f32_to_i32 c r e)" "sf_frame (f32_to_ui32 c r e)"
    "sf_frame (f32_to_i64 c r e)" "sf_frame (f32_to_ui64 c r e)" "sf_frame (f64_to_i32 x r e)"
    "sf_frame (f64_to_ui32 x r e)" "sf_frame (f64_to_i64 x r e)" "sf_frame (f64_to_ui64 x r e)"
  by (rule sf_frameI raises_map_prod f16_to_signed_spec f16_to_unsigned_spec f32_to_32_spec f32_to_64_spec f64_to_32_spec f64_to_64_spec)+

lemma frame_to_int_trunc:
    "sf_frame (f16_to_i32_r_minMag a e)" "sf_frame (f16_to_ui32_r_minMag a e)"
    "sf_frame (f16_to_i64_r_minMag a e)" "sf_frame (f16_to_ui64_r_minMag a e)"
    "sf_frame (f32_to_i32_r_minMag c e)" "sf_frame (f32_to_ui32_r_minMag c e)"
    "sf_frame (f32_to_i64_r_minMag c e)" "sf_frame (f32_to_ui64_r_minMag c e)"
    "sf_frame (f64_to_i32_r_minMag x e)" "sf_frame (f64_to_ui32_r_minMag x e)"
    "sf_frame (f64_to_i64_r_minMag x e)" "sf_frame (f64_to_ui64_r_minMag x e)"
  by (rule sf_frameI raises_map_prod f16_to_i32_r_minMag_spec f16_to_ui32_r_minMag_spec f16_to_i64_r_minMag_spec f16_to_ui64_r_minMag_spec f32_to_i32_r_minMag_spec f32_to_ui32_r_minMag_spec f32_to_i64_r_minMag_spec f32_to_ui64_r_minMag_spec f64_to_i32_r_minMag_spec f64_to_ui32_r_minMag_spec f64_to_i64_r_minMag_spec f64_to_ui64_r_minMag_spec)+

end
