(* ===== verification/RV_State.thy ===== *)
theory RV_State
  imports RV_Decode SF_Frame
begin

text \<open>
  The state of a hart and the macros every instruction body is written with (\<^verbatim>\<open>riscv/decode.h\<close>,
  \<^verbatim>\<open>riscv/processor.h\<close>): register files, extension checks, the rounding-mode field, the accrual of
  SoftFloat's exceptions and the NaN boxing of narrow floats.  A body that throws returns the trap.
\<close>

section \<open>The state\<close>

record freg_t =
  fv0 :: uint64_t
  fv1 :: uint64_t

record arch_t =
  XPR :: "reg_t list"
  FPR :: "freg_t list"
  misa :: reg_t
  mstatus :: reg_t
  fflags :: uint32_t
  frm :: uint32_t
  extension_table :: "bool list"

text \<open>The thread-local variables of SoftFloat are part of the state an instruction runs in.\<close>

record processor_t = arch_t +
  softfloat :: sf_state

text \<open>
  The traps of \<^verbatim>\<open>riscv/trap.h\<close> with their value; a guest page fault also has the guest physical address.
  The remaining arguments are zero wherever the simulator throws one.
\<close>

datatype trap_t =
    trap_instruction_address_misaligned reg_t
  | trap_instruction_access_fault reg_t
  | trap_illegal_instruction "insn_bits_t option"
  | trap_breakpoint reg_t
  | trap_load_address_misaligned reg_t
  | trap_load_access_fault reg_t
  | trap_store_address_misaligned reg_t
  | trap_store_access_fault reg_t
  | trap_user_ecall
  | trap_supervisor_ecall
  | trap_virtual_supervisor_ecall
  | trap_machine_ecall
  | trap_instruction_page_fault reg_t
  | trap_load_page_fault reg_t
  | trap_store_page_fault reg_t
  | trap_instruction_guest_page_fault reg_t reg_t
  | trap_load_guest_page_fault reg_t reg_t
  | trap_virtual_instruction "insn_bits_t option"
  | trap_store_guest_page_fault reg_t reg_t
  | trap_interrupt reg_t

type_synonym 'p outcome = "trap_t + reg_t \<times> 'p"
type_synonym insn_body = "nat \<Rightarrow> insn_bits_t \<Rightarrow> reg_t \<Rightarrow> reg_t \<Rightarrow> processor_t \<Rightarrow> processor_t outcome"

definition regfile_write :: "bool \<Rightarrow> nat \<Rightarrow> 'a \<Rightarrow> 'a list \<Rightarrow> 'a list" where
  "regfile_write zero_reg i v d = (if \<not> zero_reg \<or> i \<noteq> 0 then d[i := v] else d)"

definition READ_REG :: "uint64_t \<Rightarrow> 'a arch_t_scheme \<Rightarrow> reg_t" where
  "READ_REG r p = XPR p ! unat r"

definition READ_FREG :: "uint64_t \<Rightarrow> 'a arch_t_scheme \<Rightarrow> freg_t" where
  "READ_FREG r p = FPR p ! unat r"

definition RS1 :: "insn_bits_t \<Rightarrow> 'a arch_t_scheme \<Rightarrow> reg_t" where
  "RS1 insn p = READ_REG (insn_rs1 insn) p"

definition RS2 :: "insn_bits_t \<Rightarrow> 'a arch_t_scheme \<Rightarrow> reg_t" where
  "RS2 insn p = READ_REG (insn_rs2 insn) p"

definition WRITE_REG :: "uint64_t \<Rightarrow> reg_t \<Rightarrow> 'a arch_t_scheme \<Rightarrow> 'a arch_t_scheme" where
  "WRITE_REG r v p = p\<lparr>XPR := regfile_write True (unat r) v (XPR p)\<rparr>"

definition WRITE_RD :: "insn_bits_t \<Rightarrow> reg_t \<Rightarrow> 'a arch_t_scheme \<Rightarrow> 'a arch_t_scheme" where
  "WRITE_RD insn v p = WRITE_REG (insn_rd insn) v p"

definition FRS1 :: "insn_bits_t \<Rightarrow> 'a arch_t_scheme \<Rightarrow> freg_t" where
  "FRS1 insn p = READ_FREG (insn_rs1 insn) p"

definition FRS2 :: "insn_bits_t \<Rightarrow> 'a arch_t_scheme \<Rightarrow> freg_t" where
  "FRS2 insn p = READ_FREG (insn_rs2 insn) p"

definition MSTATUS_FS :: reg_t where
  "MSTATUS_FS = 0x6000"

definition MSTATUS32_SD :: reg_t where
  "MSTATUS32_SD = 0x80000000"

definition MSTATUS64_SD :: reg_t where
  "MSTATUS64_SD = 0x8000000000000000"

definition dirty_fp_state :: "nat \<Rightarrow> 'a arch_t_scheme \<Rightarrow> 'a arch_t_scheme" where
  "dirty_fp_state xlen p =
     p\<lparr>mstatus := mstatus p OR (MSTATUS_FS OR (if xlen = 64 then MSTATUS64_SD else MSTATUS32_SD))\<rparr>"

definition DO_WRITE_FREG :: "nat \<Rightarrow> uint64_t \<Rightarrow> freg_t \<Rightarrow> 'a arch_t_scheme \<Rightarrow> 'a arch_t_scheme" where
  "DO_WRITE_FREG xlen r v p = dirty_fp_state xlen (p\<lparr>FPR := regfile_write False (unat r) v (FPR p)\<rparr>)"

definition WRITE_FRD :: "nat \<Rightarrow> insn_bits_t \<Rightarrow> freg_t \<Rightarrow> 'a arch_t_scheme \<Rightarrow> 'a arch_t_scheme" where
  "WRITE_FRD xlen insn v p = DO_WRITE_FREG xlen (insn_rd insn) v p"

section \<open>Checks\<close>

definition supports_extension :: "nat \<Rightarrow> 'a arch_t_scheme \<Rightarrow> bool" where
  "supports_extension ext p =
     (if 0x41 \<le> ext \<and> ext \<le> 0x5A then drop_bit (ext - 0x41) (misa p) AND 1 \<noteq> 0
      else extension_table p ! ext)"

definition require :: "bool \<Rightarrow> insn_bits_t \<Rightarrow> 'p outcome \<Rightarrow> 'p outcome" where
  "require x insn k = (if x then k else Inl (trap_illegal_instruction (insn_bits insn)))"

definition require_extension :: "nat \<Rightarrow> insn_bits_t \<Rightarrow> 'a arch_t_scheme \<Rightarrow> 'p outcome \<Rightarrow> 'p outcome" where
  "require_extension ext insn p k = require (supports_extension ext p) insn k"

definition require_fp :: "insn_bits_t \<Rightarrow> 'a arch_t_scheme \<Rightarrow> 'p outcome \<Rightarrow> 'p outcome" where
  "require_fp insn p k = require (mstatus p AND MSTATUS_FS \<noteq> 0) insn k"

definition require_rv64 :: "nat \<Rightarrow> insn_bits_t \<Rightarrow> 'p outcome \<Rightarrow> 'p outcome" where
  "require_rv64 xlen insn k = require (xlen = 64) insn k"

text \<open>The character codes of the single-letter extensions, and the code of the half-precision one.\<close>

abbreviation ext_D :: nat where "ext_D \<equiv> 0x44"
abbreviation ext_F :: nat where "ext_F \<equiv> 0x46"
abbreviation ext_M :: nat where "ext_M \<equiv> 0x4D"

definition EXT_ZFH :: nat where
  "EXT_ZFH = 0"

text \<open>
  The rounding mode of the instruction: its own field, or the dynamic one.  The variable is a signed
  \<^verbatim>\<open>int\<close>, and so is the comparison.
\<close>

definition RM :: "insn_bits_t \<Rightarrow> 'a arch_t_scheme \<Rightarrow> (uint_fast8_t \<Rightarrow> 'p outcome) \<Rightarrow> 'p outcome" where
  "RM insn p k =
     (let rm = ucast (insn_rm insn) :: 32 word;
          rm = (if rm = 7 then frm p else rm)
      in if 4 < sint rm then Inl (trap_illegal_instruction (insn_bits insn)) else k (ucast rm))"

section \<open>SoftFloat\<close>

definition set_roundingMode :: "uint_fast8_t \<Rightarrow> processor_t \<Rightarrow> processor_t" where
  "set_roundingMode rm p = p\<lparr>softfloat := (softfloat p)\<lparr>softfloat_roundingMode := rm\<rparr>\<rparr>"

text \<open>A call of a library function on the global state.\<close>

definition soft :: "(sf_state \<Rightarrow> 'a \<times> sf_state) \<Rightarrow> processor_t \<Rightarrow> 'a \<times> processor_t" where
  "soft op p = (case op (softfloat p) of (z, st) \<Rightarrow> (z, p\<lparr>softfloat := st\<rparr>))"

definition set_fp_exceptions :: "nat \<Rightarrow> processor_t \<Rightarrow> processor_t" where
  "set_fp_exceptions xlen p =
     (let p = (if softfloat_exceptionFlags (softfloat p) \<noteq> 0
               then let p = dirty_fp_state xlen p
                    in p\<lparr>fflags := fflags p OR ucast (softfloat_exceptionFlags (softfloat p))\<rparr>
               else p)
      in p\<lparr>softfloat := (softfloat p)\<lparr>softfloat_exceptionFlags := 0\<rparr>\<rparr>)"

section \<open>Widths\<close>

definition sext32 :: "64 word \<Rightarrow> reg_t" where
  "sext32 x = scast (ucast x :: 32 word)"

definition sext_xlen :: "nat \<Rightarrow> 64 word \<Rightarrow> reg_t" where
  "sext_xlen xlen x = signed_drop_bit (64 - xlen) (push_bit (64 - xlen) x)"

definition zext_xlen :: "nat \<Rightarrow> 64 word \<Rightarrow> reg_t" where
  "zext_xlen xlen x = drop_bit (64 - xlen) (push_bit (64 - xlen) x)"

section \<open>NaN boxing\<close>

definition isBoxedF64 :: "freg_t \<Rightarrow> bool" where
  "isBoxedF64 r \<longleftrightarrow> fv1 r + 1 = 0"

definition isBoxedF32 :: "freg_t \<Rightarrow> bool" where
  "isBoxedF32 r \<longleftrightarrow> isBoxedF64 r \<and> (ucast (drop_bit 32 (fv0 r) + 1) :: uint32_t) = 0"

definition isBoxedF16 :: "freg_t \<Rightarrow> bool" where
  "isBoxedF16 r \<longleftrightarrow> isBoxedF32 r \<and> drop_bit 16 (fv0 r) + 1 = push_bit 48 (1 :: uint64_t)"

definition f16_freg :: "freg_t \<Rightarrow> float16_t" where
  "f16_freg r = (if isBoxedF16 r then ucast (fv0 r) else ucast defaultNaNF16UI)"

definition f32_freg :: "freg_t \<Rightarrow> float32_t" where
  "f32_freg r = (if isBoxedF32 r then ucast (fv0 r) else ucast defaultNaNF32UI)"

definition f64_freg :: "freg_t \<Rightarrow> float64_t" where
  "f64_freg r = (if isBoxedF64 r then fv0 r else defaultNaNF64UI)"

definition freg_f16 :: "float16_t \<Rightarrow> freg_t" where
  "freg_f16 f = \<lparr>fv0 = push_bit 16 (- 1) OR ucast f, fv1 = - 1\<rparr>"

definition freg_f32 :: "float32_t \<Rightarrow> freg_t" where
  "freg_f32 f = \<lparr>fv0 = push_bit 32 (- 1) OR ucast f, fv1 = - 1\<rparr>"

definition freg_f64 :: "float64_t \<Rightarrow> freg_t" where
  "freg_f64 f = \<lparr>fv0 = f, fv1 = - 1\<rparr>"

definition F16_SIGN :: uint16_t where
  "F16_SIGN = push_bit 15 1"

definition F32_SIGN :: uint32_t where
  "F32_SIGN = push_bit 31 1"

definition F64_SIGN :: uint64_t where
  "F64_SIGN = push_bit 63 1"

definition fsgnj16 :: "freg_t \<Rightarrow> freg_t \<Rightarrow> bool \<Rightarrow> bool \<Rightarrow> float16_t" where
  "fsgnj16 a b n x =
     (f16_freg a AND NOT F16_SIGN) OR
     (((if x then f16_freg a else if n then F16_SIGN else 0) XOR f16_freg b) AND F16_SIGN)"

definition fsgnj32 :: "freg_t \<Rightarrow> freg_t \<Rightarrow> bool \<Rightarrow> bool \<Rightarrow> float32_t" where
  "fsgnj32 a b n x =
     (f32_freg a AND NOT F32_SIGN) OR
     (((if x then f32_freg a else if n then F32_SIGN else 0) XOR f32_freg b) AND F32_SIGN)"

definition fsgnj64 :: "freg_t \<Rightarrow> freg_t \<Rightarrow> bool \<Rightarrow> bool \<Rightarrow> float64_t" where
  "fsgnj64 a b n x =
     (f64_freg a AND NOT F64_SIGN) OR
     (((if x then f64_freg a else if n then F64_SIGN else 0) XOR f64_freg b) AND F64_SIGN)"

section \<open>The invariant\<close>

text \<open>
  Between instructions: the register files have their sizes, \<^verbatim>\<open>x0\<close> is zero, every integer register
  holds a value sign-extended from the current width, only the defined exception flags are set, the
  dynamic rounding mode is a three-bit value, a dirty floating-point unit is summarised in SD, no
  exception of SoftFloat is pending and its tininess rule is the one of RISC-V.
\<close>

definition SD :: "nat \<Rightarrow> reg_t" where
  "SD xlen = (if xlen = 64 then MSTATUS64_SD else MSTATUS32_SD)"

definition arch_inv :: "nat \<Rightarrow> 'a arch_t_scheme \<Rightarrow> bool" where
  "arch_inv xlen p \<longleftrightarrow>
     length (XPR p) = 32 \<and> length (FPR p) = 32 \<and> XPR p ! 0 = 0 \<and>
     list_all (\<lambda>x. sext_xlen xlen x = x) (XPR p) \<and>
     fflags p AND NOT 0x1F = 0 \<and> frm p < 8 \<and> length (extension_table p) = 256 \<and>
     (mstatus p AND MSTATUS_FS = MSTATUS_FS \<longrightarrow> mstatus p AND SD xlen = SD xlen)"

definition pending :: "processor_t \<Rightarrow> uint_fast8_t" where
  "pending p = softfloat_exceptionFlags (softfloat p)"

definition after_rounding :: "processor_t \<Rightarrow> bool" where
  "after_rounding p \<longleftrightarrow> softfloat_detectTininess (softfloat p) = softfloat_tininess_afterRounding"

definition rv_inv :: "nat \<Rightarrow> processor_t \<Rightarrow> bool" where
  "rv_inv xlen p \<longleftrightarrow> arch_inv xlen p \<and> pending p = 0 \<and> after_rounding p"

text \<open>Inside an instruction exceptions may be pending.\<close>

definition busy_inv :: "nat \<Rightarrow> processor_t \<Rightarrow> bool" where
  "busy_inv xlen p \<longleftrightarrow> arch_inv xlen p \<and> defined_flags (pending p) \<and> after_rounding p"

named_theorems keeps_inv

lemma busyI: "rv_inv xlen p \<Longrightarrow> busy_inv xlen p"
  by (simp add: rv_inv_def busy_inv_def)

lemma reg_lt_32: "unat (insn_rd insn) < 32" "unat (insn_rs1 insn) < 32" "unat (insn_rs2 insn) < 32"
proof -
  have "unat (take_bit 5 x :: uint64_t) < 32" for x by (simp add: unat_take_bit)
  then show "unat (insn_rd insn) < 32" "unat (insn_rs1 insn) < 32" "unat (insn_rs2 insn) < 32"
    by (simp_all only: insn_rd_def insn_rs1_def insn_rs2_def insn_x_eq)
qed

lemma arch_inv_WRITE_RD:
  assumes "arch_inv xlen p" "sext_xlen xlen v = v"
  shows "arch_inv xlen (WRITE_RD insn v p)"
  using assms set_update_subset_insert [of "XPR p" "unat (insn_rd insn)" v]
  by (auto simp: arch_inv_def WRITE_RD_def WRITE_REG_def regfile_write_def list_all_iff)

lemma pending_WRITE [simp]:
  "pending (WRITE_RD insn v p) = pending p" "pending (WRITE_FRD xlen insn w p) = pending p"
  "after_rounding (WRITE_RD insn v p) = after_rounding p" "after_rounding (WRITE_FRD xlen insn w p) = after_rounding p"
  by (simp_all add: pending_def after_rounding_def WRITE_RD_def WRITE_REG_def WRITE_FRD_def DO_WRITE_FREG_def dirty_fp_state_def)

lemma keep_WRITE_RD [keeps_inv]:
  "rv_inv xlen p \<Longrightarrow> sext_xlen xlen v = v \<Longrightarrow> rv_inv xlen (WRITE_RD insn v p)"
  "busy_inv xlen p \<Longrightarrow> sext_xlen xlen v = v \<Longrightarrow> busy_inv xlen (WRITE_RD insn v p)"
  by (simp_all add: rv_inv_def busy_inv_def arch_inv_WRITE_RD)

lemma arch_inv_dirty: "arch_inv xlen p \<Longrightarrow> arch_inv xlen (dirty_fp_state xlen p)"
  unfolding arch_inv_def dirty_fp_state_def SD_def [symmetric]
  by (simp add: bit.conj_disj_distrib2)

lemma arch_inv_WRITE_FRD: "arch_inv xlen p \<Longrightarrow> arch_inv xlen (WRITE_FRD xlen insn v p)"
  unfolding WRITE_FRD_def DO_WRITE_FREG_def
  by (rule arch_inv_dirty) (simp add: arch_inv_def regfile_write_def)

lemma keep_WRITE_FRD [keeps_inv]:
  "rv_inv xlen p \<Longrightarrow> rv_inv xlen (WRITE_FRD xlen insn v p)"
  "busy_inv xlen p \<Longrightarrow> busy_inv xlen (WRITE_FRD xlen insn v p)"
  by (simp_all add: rv_inv_def busy_inv_def arch_inv_WRITE_FRD)

lemma keep_roundingMode [keeps_inv]: "rv_inv xlen p \<Longrightarrow> rv_inv xlen (set_roundingMode rm p)"
  by (simp add: rv_inv_def arch_inv_def set_roundingMode_def pending_def after_rounding_def)

lemma soft_sel [simp]:
  "fst (soft op p) = fst (op (softfloat p))" "snd (soft op p) = p\<lparr>softfloat := snd (op (softfloat p))\<rparr>"
  by (simp_all add: soft_def split: prod.splits)

lemma keep_soft [keeps_inv]:
  assumes "sf_frame op" "busy_inv xlen p"
  shows "busy_inv xlen (snd (soft op p))"
proof -
  have "softfloat_exceptionFlags (snd (op (softfloat p))) AND NOT 0x1F = pending p AND NOT 0x1F"
    using assms(1) unfolding sf_frame_def pending_def by blast
  then have "defined_flags (pending (snd (soft op p)))"
    using assms(2) by (simp only: busy_inv_def defined_flags_def pending_def soft_sel) simp
  moreover have "after_rounding (snd (soft op p))"
    using assms unfolding sf_frame_def busy_inv_def after_rounding_def by simp
  ultimately show ?thesis using assms(2) by (simp add: busy_inv_def arch_inv_def)
qed

lemma defined_flags_ucast: "defined_flags f \<Longrightarrow> (ucast f :: uint32_t) AND NOT 0x1F = 0"
proof -
  assume "defined_flags f"
  then have "f AND NOT (mask 5) = 0" by (simp add: defined_flags_def mask_eq_exp_minus_1)
  then have "n < 5" if "bit f n" for n
    using bit_imp_le_length [OF that] that by (auto simp: bit_eq_iff bit_simps)
  then have "(ucast f :: uint32_t) AND NOT (mask 5) = 0"
    by (intro bit_word_eqI) (auto simp: bit_simps)
  then show ?thesis by (simp add: mask_eq_exp_minus_1)
qed

lemma keep_exceptions [keeps_inv]:
  assumes "busy_inv xlen p"
  shows "rv_inv xlen (set_fp_exceptions xlen p)"
proof -
  have "arch_inv xlen (p\<lparr>fflags := fflags p OR ucast (pending p)\<rparr>)"
    using assms defined_flags_ucast [of "pending p"]
    unfolding busy_inv_def arch_inv_def by (simp add: bit.conj_disj_distrib2)
  from arch_inv_dirty [OF this] have "arch_inv xlen ((dirty_fp_state xlen p)\<lparr>fflags := fflags p OR ucast (pending p)\<rparr>)"
    by (simp add: dirty_fp_state_def arch_inv_def)
  then show ?thesis using assms
    by (simp add: set_fp_exceptions_def rv_inv_def busy_inv_def arch_inv_def pending_def after_rounding_def dirty_fp_state_def)
qed
section \<open>Outcomes\<close>

definition keeps :: "nat \<Rightarrow> processor_t outcome \<Rightarrow> bool" where
  "keeps xlen r \<longleftrightarrow> (case r of Inl t \<Rightarrow> True | Inr (npc, p') \<Rightarrow> rv_inv xlen p')"

lemma keeps_Inr: "rv_inv xlen p \<Longrightarrow> keeps xlen (Inr (npc, p))"
  by (simp add: keeps_def)

lemma keeps_require:
  "(x \<Longrightarrow> keeps xlen k) \<Longrightarrow> keeps xlen (require x insn k)"
  "keeps xlen k \<Longrightarrow> keeps xlen (require_extension ext insn p k)"
  "keeps xlen k \<Longrightarrow> keeps xlen (require_fp insn p k)"
  "(xlen = 64 \<Longrightarrow> keeps xlen k) \<Longrightarrow> keeps xlen (require_rv64 xlen insn k)"
  by (auto simp: keeps_def require_def require_extension_def require_fp_def require_rv64_def)

lemma keeps_RM: "(\<And>rm. keeps xlen (k rm)) \<Longrightarrow> keeps xlen (RM insn p k)"
  unfolding RM_def Let_def by (simp add: keeps_def)

lemma keeps_soft:
  "(\<And>z p'. busy_inv xlen p' \<Longrightarrow> keeps xlen (k z p')) \<Longrightarrow> sf_frame op \<Longrightarrow> busy_inv xlen p \<Longrightarrow>
   keeps xlen (case soft op p of (z, p') \<Rightarrow> k z p')"
  using keep_soft [of op xlen p] by (metis case_prod_beta)

section \<open>Values of a register\<close>

lemma sext_xlen_64 [simp]: "sext_xlen 64 x = x"
  by (simp add: sext_xlen_def)

lemma bit_sext32: "bit (sext32 x) n \<longleftrightarrow> n < 64 \<and> bit x (min 31 n)"
  by (auto simp: sext32_def bit_simps)

lemma sext_xlen_32: "sext_xlen 32 x = sext32 x"
proof (rule bit_word_eqI)
  fix n assume n: "n < LENGTH(64)"
  show "bit (sext_xlen 32 x) n = bit (sext32 x) n"
    using n by (cases "n = 31") (auto simp: bit_sext32 sext_xlen_def bit_simps min_def)
qed

lemma sext32_idem [simp]: "sext32 (sext32 x) = sext32 x"
  by (rule bit_word_eqI) (auto simp: bit_sext32)

lemma sext_small: "x < 2 ^ 31 \<Longrightarrow> sext32 x = x"
proof -
  assume "x < 2 ^ 31"
  then have x: "take_bit 31 x = x" by (simp add: word_eq_unat unat_take_bit word_less_nat_alt)
  have b: "bit x n \<Longrightarrow> n < 31" for n by (subst (asm) x [symmetric]) (simp add: bit_take_bit_iff)
  have "\<not> bit x 31" using b [of 31] by auto
  then show ?thesis by (intro bit_word_eqI) (use b in \<open>auto simp: bit_sext32 min_def dest: b\<close>)
qed

lemma sext32_minus_1: "sext32 (- 1) = - 1"
  by (rule bit_word_eqI) (simp add: bit_sext32)

text \<open>The two widths, and the values that are in range for both.\<close>

definition valid_xlen :: "nat \<Rightarrow> bool" where
  "valid_xlen xlen \<longleftrightarrow> xlen = 32 \<or> xlen = 64"

lemma in_range:
  assumes "valid_xlen xlen"
  shows "sext_xlen xlen (sext32 x) = sext32 x" "sext_xlen xlen (sext_xlen xlen x) = sext_xlen xlen x"
    "sext_xlen xlen (of_bool b) = of_bool b" "sext_xlen xlen 0 = 0" "sext_xlen xlen (- 1) = - 1"
    "x < 2 ^ 31 \<Longrightarrow> sext_xlen xlen x = x"
  using assms sext_small [of "of_bool b"] sext_small [of 0] sext_small [of x] sext32_minus_1
  by (auto simp: valid_xlen_def sext_xlen_32)

lemmas in_range_rules [keeps_inv] = in_range(1-5)


section \<open>Reset\<close>

text \<open>
  The state after \<^verbatim>\<open>state_t::reset\<close>, with the ISA and the extension table of the processor; the status
  register is a parameter, because \<^verbatim>\<open>processor_t::reset\<close> rewrites it through its CSR.
\<close>

definition reset_state :: "reg_t \<Rightarrow> bool list \<Rightarrow> reg_t \<Rightarrow> processor_t" where
  "reset_state max_isa exts status =
     \<lparr>XPR = replicate 32 0, FPR = replicate 32 \<lparr>fv0 = 0, fv1 = 0\<rparr>, misa = max_isa, mstatus = status,
      fflags = 0, frm = 0, extension_table = exts, softfloat = softfloat_init\<rparr>"

lemma reset_inv:
  assumes "valid_xlen xlen" "length exts = 256"
    and "status AND MSTATUS_FS = MSTATUS_FS \<Longrightarrow> status AND SD xlen = SD xlen"
  shows "rv_inv xlen (reset_state max_isa exts status)"
  using assms in_range(4) [OF assms(1)]
  by (simp add: rv_inv_def arch_inv_def reset_state_def pending_def after_rounding_def softfloat_init_def list_all_iff)

text \<open>A running example: RV64 with F, D and half precision, the unit switched on and clean.\<close>

definition example_state :: processor_t where
  "example_state = reset_state 0x8000000000000128 (True # replicate 255 False) 0x4000"

lemma example_inv: "rv_inv 64 example_state"
  unfolding example_state_def by (rule reset_inv) (simp_all add: valid_xlen_def MSTATUS_FS_def)

end
