(* ===== verification/RV_FP.thy ===== *)
theory RV_FP
  imports RV_State
begin

text \<open>
  The scalar floating-point instructions whose SoftFloat operations are modelled, one definition per
  file of \<^verbatim>\<open>riscv/insns\<close>: arithmetic, conversions from and to integers, comparisons, classification,
  minimum and maximum, sign injection and moves, in half, single and double precision.
\<close>

section \<open>Arithmetic\<close>

definition fadd_s :: insn_body where
  "fadd_s xlen insn pc npc p =
     require_extension ext_F insn p (
     require_fp insn p (
     RM insn p (\<lambda>rm.
       let p = set_roundingMode rm p;
           (z, p) = soft (f32_add (f32_freg (FRS1 insn p)) (f32_freg (FRS2 insn p))) p;
           p = WRITE_FRD xlen insn (freg_f32 z) p
       in Inr (npc, set_fp_exceptions xlen p))))"

definition fadd_d :: insn_body where
  "fadd_d xlen insn pc npc p =
     require_extension ext_D insn p (
     require_fp insn p (
     RM insn p (\<lambda>rm.
       let p = set_roundingMode rm p;
           (z, p) = soft (f64_add (f64_freg (FRS1 insn p)) (f64_freg (FRS2 insn p))) p;
           p = WRITE_FRD xlen insn (freg_f64 z) p
       in Inr (npc, set_fp_exceptions xlen p))))"

definition fsub_s :: insn_body where
  "fsub_s xlen insn pc npc p =
     require_extension ext_F insn p (
     require_fp insn p (
     RM insn p (\<lambda>rm.
       let p = set_roundingMode rm p;
           (z, p) = soft (f32_sub (f32_freg (FRS1 insn p)) (f32_freg (FRS2 insn p))) p;
           p = WRITE_FRD xlen insn (freg_f32 z) p
       in Inr (npc, set_fp_exceptions xlen p))))"

definition fsub_d :: insn_body where
  "fsub_d xlen insn pc npc p =
     require_extension ext_D insn p (
     require_fp insn p (
     RM insn p (\<lambda>rm.
       let p = set_roundingMode rm p;
           (z, p) = soft (f64_sub (f64_freg (FRS1 insn p)) (f64_freg (FRS2 insn p))) p;
           p = WRITE_FRD xlen insn (freg_f64 z) p
       in Inr (npc, set_fp_exceptions xlen p))))"

definition fmul_h :: insn_body where
  "fmul_h xlen insn pc npc p =
     require_extension EXT_ZFH insn p (
     require_fp insn p (
     RM insn p (\<lambda>rm.
       let p = set_roundingMode rm p;
           (z, p) = soft (f16_mul (f16_freg (FRS1 insn p)) (f16_freg (FRS2 insn p))) p;
           p = WRITE_FRD xlen insn (freg_f16 z) p
       in Inr (npc, set_fp_exceptions xlen p))))"

definition fmul_s :: insn_body where
  "fmul_s xlen insn pc npc p =
     require_extension ext_F insn p (
     require_fp insn p (
     RM insn p (\<lambda>rm.
       let p = set_roundingMode rm p;
           (z, p) = soft (f32_mul (f32_freg (FRS1 insn p)) (f32_freg (FRS2 insn p))) p;
           p = WRITE_FRD xlen insn (freg_f32 z) p
       in Inr (npc, set_fp_exceptions xlen p))))"

definition fmul_d :: insn_body where
  "fmul_d xlen insn pc npc p =
     require_extension ext_D insn p (
     require_fp insn p (
     RM insn p (\<lambda>rm.
       let p = set_roundingMode rm p;
           (z, p) = soft (f64_mul (f64_freg (FRS1 insn p)) (f64_freg (FRS2 insn p))) p;
           p = WRITE_FRD xlen insn (freg_f64 z) p
       in Inr (npc, set_fp_exceptions xlen p))))"

section \<open>Conversions from integers\<close>

definition fcvt_h_w :: insn_body where
  "fcvt_h_w xlen insn pc npc p =
     require_extension EXT_ZFH insn p (
     require_fp insn p (
     RM insn p (\<lambda>rm.
       let p = set_roundingMode rm p;
           (z, p) = soft (i32_to_f16 (ucast (RS1 insn p))) p;
           p = WRITE_FRD xlen insn (freg_f16 z) p
       in Inr (npc, set_fp_exceptions xlen p))))"

definition fcvt_s_w :: insn_body where
  "fcvt_s_w xlen insn pc npc p =
     require_extension ext_F insn p (
     require_fp insn p (
     RM insn p (\<lambda>rm.
       let p = set_roundingMode rm p;
           (z, p) = soft (i32_to_f32 (ucast (RS1 insn p))) p;
           p = WRITE_FRD xlen insn (freg_f32 z) p
       in Inr (npc, set_fp_exceptions xlen p))))"

definition fcvt_d_w :: insn_body where
  "fcvt_d_w xlen insn pc npc p =
     require_extension ext_D insn p (
     require_fp insn p (
     RM insn p (\<lambda>rm.
       let p = set_roundingMode rm p;
           (z, p) = soft (i32_to_f64 (ucast (RS1 insn p))) p;
           p = WRITE_FRD xlen insn (freg_f64 z) p
       in Inr (npc, set_fp_exceptions xlen p))))"

definition fcvt_h_wu :: insn_body where
  "fcvt_h_wu xlen insn pc npc p =
     require_extension EXT_ZFH insn p (
     require_fp insn p (
     RM insn p (\<lambda>rm.
       let p = set_roundingMode rm p;
           (z, p) = soft (ui32_to_f16 (ucast (RS1 insn p))) p;
           p = WRITE_FRD xlen insn (freg_f16 z) p
       in Inr (npc, set_fp_exceptions xlen p))))"

definition fcvt_s_wu :: insn_body where
  "fcvt_s_wu xlen insn pc npc p =
     require_extension ext_F insn p (
     require_fp insn p (
     RM insn p (\<lambda>rm.
       let p = set_roundingMode rm p;
           (z, p) = soft (ui32_to_f32 (ucast (RS1 insn p))) p;
           p = WRITE_FRD xlen insn (freg_f32 z) p
       in Inr (npc, set_fp_exceptions xlen p))))"

definition fcvt_d_wu :: insn_body where
  "fcvt_d_wu xlen insn pc npc p =
     require_extension ext_D insn p (
     require_fp insn p (
     RM insn p (\<lambda>rm.
       let p = set_roundingMode rm p;
           (z, p) = soft (ui32_to_f64 (ucast (RS1 insn p))) p;
           p = WRITE_FRD xlen insn (freg_f64 z) p
       in Inr (npc, set_fp_exceptions xlen p))))"

definition fcvt_h_l :: insn_body where
  "fcvt_h_l xlen insn pc npc p =
     require_extension EXT_ZFH insn p (
     require_rv64 xlen insn (
     require_fp insn p (
     RM insn p (\<lambda>rm.
       let p = set_roundingMode rm p;
           (z, p) = soft (i64_to_f16 (RS1 insn p)) p;
           p = WRITE_FRD xlen insn (freg_f16 z) p
       in Inr (npc, set_fp_exceptions xlen p)))))"

definition fcvt_s_l :: insn_body where
  "fcvt_s_l xlen insn pc npc p =
     require_extension ext_F insn p (
     require_rv64 xlen insn (
     require_fp insn p (
     RM insn p (\<lambda>rm.
       let p = set_roundingMode rm p;
           (z, p) = soft (i64_to_f32 (RS1 insn p)) p;
           p = WRITE_FRD xlen insn (freg_f32 z) p
       in Inr (npc, set_fp_exceptions xlen p)))))"

definition fcvt_d_l :: insn_body where
  "fcvt_d_l xlen insn pc npc p =
     require_extension ext_D insn p (
     require_rv64 xlen insn (
     require_fp insn p (
     RM insn p (\<lambda>rm.
       let p = set_roundingMode rm p;
           (z, p) = soft (i64_to_f64 (RS1 insn p)) p;
           p = WRITE_FRD xlen insn (freg_f64 z) p
       in Inr (npc, set_fp_exceptions xlen p)))))"

definition fcvt_h_lu :: insn_body where
  "fcvt_h_lu xlen insn pc npc p =
     require_extension EXT_ZFH insn p (
     require_rv64 xlen insn (
     require_fp insn p (
     RM insn p (\<lambda>rm.
       let p = set_roundingMode rm p;
           (z, p) = soft (ui64_to_f16 (RS1 insn p)) p;
           p = WRITE_FRD xlen insn (freg_f16 z) p
       in Inr (npc, set_fp_exceptions xlen p)))))"

definition fcvt_s_lu :: insn_body where
  "fcvt_s_lu xlen insn pc npc p =
     require_extension ext_F insn p (
     require_rv64 xlen insn (
     require_fp insn p (
     RM insn p (\<lambda>rm.
       let p = set_roundingMode rm p;
           (z, p) = soft (ui64_to_f32 (RS1 insn p)) p;
           p = WRITE_FRD xlen insn (freg_f32 z) p
       in Inr (npc, set_fp_exceptions xlen p)))))"

definition fcvt_d_lu :: insn_body where
  "fcvt_d_lu xlen insn pc npc p =
     require_extension ext_D insn p (
     require_rv64 xlen insn (
     require_fp insn p (
     RM insn p (\<lambda>rm.
       let p = set_roundingMode rm p;
           (z, p) = soft (ui64_to_f64 (RS1 insn p)) p;
           p = WRITE_FRD xlen insn (freg_f64 z) p
       in Inr (npc, set_fp_exceptions xlen p)))))"

section \<open>Conversions to integers\<close>

definition fcvt_w_h :: insn_body where
  "fcvt_w_h xlen insn pc npc p =
     require_extension EXT_ZFH insn p (
     require_fp insn p (
     RM insn p (\<lambda>rm.
       let p = set_roundingMode rm p;
           (z, p) = soft (f16_to_i32 (f16_freg (FRS1 insn p)) rm True) p;
           p = WRITE_RD insn (sext32 z) p
       in Inr (npc, set_fp_exceptions xlen p))))"

definition fcvt_w_s :: insn_body where
  "fcvt_w_s xlen insn pc npc p =
     require_extension ext_F insn p (
     require_fp insn p (
     RM insn p (\<lambda>rm.
       let p = set_roundingMode rm p;
           (z, p) = soft (f32_to_i32 (f32_freg (FRS1 insn p)) rm True) p;
           p = WRITE_RD insn (sext32 z) p
       in Inr (npc, set_fp_exceptions xlen p))))"

definition fcvt_w_d :: insn_body where
  "fcvt_w_d xlen insn pc npc p =
     require_extension ext_D insn p (
     require_fp insn p (
     RM insn p (\<lambda>rm.
       let p = set_roundingMode rm p;
           (z, p) = soft (f64_to_i32 (f64_freg (FRS1 insn p)) rm True) p;
           p = WRITE_RD insn (sext32 z) p
       in Inr (npc, set_fp_exceptions xlen p))))"

definition fcvt_wu_h :: insn_body where
  "fcvt_wu_h xlen insn pc npc p =
     require_extension EXT_ZFH insn p (
     require_fp insn p (
     RM insn p (\<lambda>rm.
       let p = set_roundingMode rm p;
           (z, p) = soft (f16_to_ui32 (f16_freg (FRS1 insn p)) rm True) p;
           p = WRITE_RD insn (sext32 z) p
       in Inr (npc, set_fp_exceptions xlen p))))"

definition fcvt_wu_s :: insn_body where
  "fcvt_wu_s xlen insn pc npc p =
     require_extension ext_F insn p (
     require_fp insn p (
     RM insn p (\<lambda>rm.
       let p = set_roundingMode rm p;
           (z, p) = soft (f32_to_ui32 (f32_freg (FRS1 insn p)) rm True) p;
           p = WRITE_RD insn (sext32 z) p
       in Inr (npc, set_fp_exceptions xlen p))))"

definition fcvt_wu_d :: insn_body where
  "fcvt_wu_d xlen insn pc npc p =
     require_extension ext_D insn p (
     require_fp insn p (
     RM insn p (\<lambda>rm.
       let p = set_roundingMode rm p;
           (z, p) = soft (f64_to_ui32 (f64_freg (FRS1 insn p)) rm True) p;
           p = WRITE_RD insn (sext32 z) p
       in Inr (npc, set_fp_exceptions xlen p))))"

definition fcvt_l_h :: insn_body where
  "fcvt_l_h xlen insn pc npc p =
     require_extension EXT_ZFH insn p (
     require_rv64 xlen insn (
     require_fp insn p (
     RM insn p (\<lambda>rm.
       let p = set_roundingMode rm p;
           (z, p) = soft (f16_to_i64 (f16_freg (FRS1 insn p)) rm True) p;
           p = WRITE_RD insn z p
       in Inr (npc, set_fp_exceptions xlen p)))))"

definition fcvt_l_s :: insn_body where
  "fcvt_l_s xlen insn pc npc p =
     require_extension ext_F insn p (
     require_rv64 xlen insn (
     require_fp insn p (
     RM insn p (\<lambda>rm.
       let p = set_roundingMode rm p;
           (z, p) = soft (f32_to_i64 (f32_freg (FRS1 insn p)) rm True) p;
           p = WRITE_RD insn z p
       in Inr (npc, set_fp_exceptions xlen p)))))"

definition fcvt_l_d :: insn_body where
  "fcvt_l_d xlen insn pc npc p =
     require_extension ext_D insn p (
     require_rv64 xlen insn (
     require_fp insn p (
     RM insn p (\<lambda>rm.
       let p = set_roundingMode rm p;
           (z, p) = soft (f64_to_i64 (f64_freg (FRS1 insn p)) rm True) p;
           p = WRITE_RD insn z p
       in Inr (npc, set_fp_exceptions xlen p)))))"

definition fcvt_lu_h :: insn_body where
  "fcvt_lu_h xlen insn pc npc p =
     require_extension EXT_ZFH insn p (
     require_rv64 xlen insn (
     require_fp insn p (
     RM insn p (\<lambda>rm.
       let p = set_roundingMode rm p;
           (z, p) = soft (f16_to_ui64 (f16_freg (FRS1 insn p)) rm True) p;
           p = WRITE_RD insn z p
       in Inr (npc, set_fp_exceptions xlen p)))))"

definition fcvt_lu_s :: insn_body where
  "fcvt_lu_s xlen insn pc npc p =
     require_extension ext_F insn p (
     require_rv64 xlen insn (
     require_fp insn p (
     RM insn p (\<lambda>rm.
       let p = set_roundingMode rm p;
           (z, p) = soft (f32_to_ui64 (f32_freg (FRS1 insn p)) rm True) p;
           p = WRITE_RD insn z p
       in Inr (npc, set_fp_exceptions xlen p)))))"

definition fcvt_lu_d :: insn_body where
  "fcvt_lu_d xlen insn pc npc p =
     require_extension ext_D insn p (
     require_rv64 xlen insn (
     require_fp insn p (
     RM insn p (\<lambda>rm.
       let p = set_roundingMode rm p;
           (z, p) = soft (f64_to_ui64 (f64_freg (FRS1 insn p)) rm True) p;
           p = WRITE_RD insn z p
       in Inr (npc, set_fp_exceptions xlen p)))))"

section \<open>Comparisons\<close>

definition feq_h :: insn_body where
  "feq_h xlen insn pc npc p =
     require_extension EXT_ZFH insn p (
     require_fp insn p (
       let (z, p) = soft (f16_eq (f16_freg (FRS1 insn p)) (f16_freg (FRS2 insn p))) p;
           p = WRITE_RD insn (of_bool z) p
       in Inr (npc, set_fp_exceptions xlen p)))"

definition feq_s :: insn_body where
  "feq_s xlen insn pc npc p =
     require_extension ext_F insn p (
     require_fp insn p (
       let (z, p) = soft (f32_eq (f32_freg (FRS1 insn p)) (f32_freg (FRS2 insn p))) p;
           p = WRITE_RD insn (of_bool z) p
       in Inr (npc, set_fp_exceptions xlen p)))"

definition feq_d :: insn_body where
  "feq_d xlen insn pc npc p =
     require_extension ext_D insn p (
     require_fp insn p (
       let (z, p) = soft (f64_eq (f64_freg (FRS1 insn p)) (f64_freg (FRS2 insn p))) p;
           p = WRITE_RD insn (of_bool z) p
       in Inr (npc, set_fp_exceptions xlen p)))"

definition fle_h :: insn_body where
  "fle_h xlen insn pc npc p =
     require_extension EXT_ZFH insn p (
     require_fp insn p (
       let (z, p) = soft (f16_le (f16_freg (FRS1 insn p)) (f16_freg (FRS2 insn p))) p;
           p = WRITE_RD insn (of_bool z) p
       in Inr (npc, set_fp_exceptions xlen p)))"

definition fle_s :: insn_body where
  "fle_s xlen insn pc npc p =
     require_extension ext_F insn p (
     require_fp insn p (
       let (z, p) = soft (f32_le (f32_freg (FRS1 insn p)) (f32_freg (FRS2 insn p))) p;
           p = WRITE_RD insn (of_bool z) p
       in Inr (npc, set_fp_exceptions xlen p)))"

definition fle_d :: insn_body where
  "fle_d xlen insn pc npc p =
     require_extension ext_D insn p (
     require_fp insn p (
       let (z, p) = soft (f64_le (f64_freg (FRS1 insn p)) (f64_freg (FRS2 insn p))) p;
           p = WRITE_RD insn (of_bool z) p
       in Inr (npc, set_fp_exceptions xlen p)))"

definition flt_h :: insn_body where
  "flt_h xlen insn pc npc p =
     require_extension EXT_ZFH insn p (
     require_fp insn p (
       let (z, p) = soft (f16_lt (f16_freg (FRS1 insn p)) (f16_freg (FRS2 insn p))) p;
           p = WRITE_RD insn (of_bool z) p
       in Inr (npc, set_fp_exceptions xlen p)))"

definition flt_s :: insn_body where
  "flt_s xlen insn pc npc p =
     require_extension ext_F insn p (
     require_fp insn p (
       let (z, p) = soft (f32_lt (f32_freg (FRS1 insn p)) (f32_freg (FRS2 insn p))) p;
           p = WRITE_RD insn (of_bool z) p
       in Inr (npc, set_fp_exceptions xlen p)))"

definition flt_d :: insn_body where
  "flt_d xlen insn pc npc p =
     require_extension ext_D insn p (
     require_fp insn p (
       let (z, p) = soft (f64_lt (f64_freg (FRS1 insn p)) (f64_freg (FRS2 insn p))) p;
           p = WRITE_RD insn (of_bool z) p
       in Inr (npc, set_fp_exceptions xlen p)))"

section \<open>Classification\<close>

definition fclass_h :: insn_body where
  "fclass_h xlen insn pc npc p =
     require_extension EXT_ZFH insn p (
     require_fp insn p (
       Inr (npc, WRITE_RD insn (f16_classify (f16_freg (FRS1 insn p))) p)))"

definition fclass_s :: insn_body where
  "fclass_s xlen insn pc npc p =
     require_extension ext_F insn p (
     require_fp insn p (
       Inr (npc, WRITE_RD insn (f32_classify (f32_freg (FRS1 insn p))) p)))"

definition fclass_d :: insn_body where
  "fclass_d xlen insn pc npc p =
     require_extension ext_D insn p (
     require_fp insn p (
       Inr (npc, WRITE_RD insn (f64_classify (f64_freg (FRS1 insn p))) p)))"

section \<open>Minimum and maximum\<close>

definition fmin_h :: insn_body where
  "fmin_h xlen insn pc npc p =
     require_extension EXT_ZFH insn p (
     require_fp insn p (
       let (z, p) = soft (f16_min (f16_freg (FRS1 insn p)) (f16_freg (FRS2 insn p))) p;
           p = WRITE_FRD xlen insn (freg_f16 z) p
       in Inr (npc, set_fp_exceptions xlen p)))"

definition fmin_s :: insn_body where
  "fmin_s xlen insn pc npc p =
     require_extension ext_F insn p (
     require_fp insn p (
       let (lt, p) = soft (f32_lt_quiet (f32_freg (FRS1 insn p)) (f32_freg (FRS2 insn p))) p;
           (less, p) =
             (if lt then (True, p)
              else let (eq, p) = soft (f32_eq (f32_freg (FRS1 insn p)) (f32_freg (FRS2 insn p))) p in (eq \<and> f32_freg (FRS1 insn p) AND F32_SIGN \<noteq> 0, p));
           p = (if isNaNF32UI (ucast (f32_freg (FRS1 insn p))) \<and> isNaNF32UI (ucast (f32_freg (FRS2 insn p)))
                then WRITE_FRD xlen insn (freg_f32 (ucast defaultNaNF32UI)) p
                else WRITE_FRD xlen insn (if less \<or> isNaNF32UI (ucast (f32_freg (FRS2 insn p))) then FRS1 insn p else FRS2 insn p) p)
       in Inr (npc, set_fp_exceptions xlen p)))"

definition fmin_d :: insn_body where
  "fmin_d xlen insn pc npc p =
     require_extension ext_D insn p (
     require_fp insn p (
       let (lt, p) = soft (f64_lt_quiet (f64_freg (FRS1 insn p)) (f64_freg (FRS2 insn p))) p;
           (less, p) =
             (if lt then (True, p)
              else let (eq, p) = soft (f64_eq (f64_freg (FRS1 insn p)) (f64_freg (FRS2 insn p))) p in (eq \<and> f64_freg (FRS1 insn p) AND F64_SIGN \<noteq> 0, p));
           p = (if isNaNF64UI (f64_freg (FRS1 insn p)) \<and> isNaNF64UI (f64_freg (FRS2 insn p))
                then WRITE_FRD xlen insn (freg_f64 (defaultNaNF64UI)) p
                else WRITE_FRD xlen insn (if less \<or> isNaNF64UI (f64_freg (FRS2 insn p)) then FRS1 insn p else FRS2 insn p) p)
       in Inr (npc, set_fp_exceptions xlen p)))"

definition fmax_h :: insn_body where
  "fmax_h xlen insn pc npc p =
     require_extension EXT_ZFH insn p (
     require_fp insn p (
       let (z, p) = soft (f16_max (f16_freg (FRS1 insn p)) (f16_freg (FRS2 insn p))) p;
           p = WRITE_FRD xlen insn (freg_f16 z) p
       in Inr (npc, set_fp_exceptions xlen p)))"

definition fmax_s :: insn_body where
  "fmax_s xlen insn pc npc p =
     require_extension ext_F insn p (
     require_fp insn p (
       let (lt, p) = soft (f32_lt_quiet (f32_freg (FRS2 insn p)) (f32_freg (FRS1 insn p))) p;
           (greater, p) =
             (if lt then (True, p)
              else let (eq, p) = soft (f32_eq (f32_freg (FRS2 insn p)) (f32_freg (FRS1 insn p))) p in (eq \<and> f32_freg (FRS2 insn p) AND F32_SIGN \<noteq> 0, p));
           p = (if isNaNF32UI (ucast (f32_freg (FRS1 insn p))) \<and> isNaNF32UI (ucast (f32_freg (FRS2 insn p)))
                then WRITE_FRD xlen insn (freg_f32 (ucast defaultNaNF32UI)) p
                else WRITE_FRD xlen insn (if greater \<or> isNaNF32UI (ucast (f32_freg (FRS2 insn p))) then FRS1 insn p else FRS2 insn p) p)
       in Inr (npc, set_fp_exceptions xlen p)))"

definition fmax_d :: insn_body where
  "fmax_d xlen insn pc npc p =
     require_extension ext_D insn p (
     require_fp insn p (
       let (lt, p) = soft (f64_lt_quiet (f64_freg (FRS2 insn p)) (f64_freg (FRS1 insn p))) p;
           (greater, p) =
             (if lt then (True, p)
              else let (eq, p) = soft (f64_eq (f64_freg (FRS2 insn p)) (f64_freg (FRS1 insn p))) p in (eq \<and> f64_freg (FRS2 insn p) AND F64_SIGN \<noteq> 0, p));
           p = (if isNaNF64UI (f64_freg (FRS1 insn p)) \<and> isNaNF64UI (f64_freg (FRS2 insn p))
                then WRITE_FRD xlen insn (freg_f64 (defaultNaNF64UI)) p
                else WRITE_FRD xlen insn (if greater \<or> isNaNF64UI (f64_freg (FRS2 insn p)) then FRS1 insn p else FRS2 insn p) p)
       in Inr (npc, set_fp_exceptions xlen p)))"

section \<open>Sign injection\<close>

definition fsgnj_h :: insn_body where
  "fsgnj_h xlen insn pc npc p =
     require_extension EXT_ZFH insn p (
     require_fp insn p (
       Inr (npc, WRITE_FRD xlen insn (freg_f16 (fsgnj16 (FRS1 insn p) (FRS2 insn p) False False)) p)))"

definition fsgnjn_h :: insn_body where
  "fsgnjn_h xlen insn pc npc p =
     require_extension EXT_ZFH insn p (
     require_fp insn p (
       Inr (npc, WRITE_FRD xlen insn (freg_f16 (fsgnj16 (FRS1 insn p) (FRS2 insn p) True False)) p)))"

definition fsgnjx_h :: insn_body where
  "fsgnjx_h xlen insn pc npc p =
     require_extension EXT_ZFH insn p (
     require_fp insn p (
       Inr (npc, WRITE_FRD xlen insn (freg_f16 (fsgnj16 (FRS1 insn p) (FRS2 insn p) False True)) p)))"

definition fsgnj_s :: insn_body where
  "fsgnj_s xlen insn pc npc p =
     require_extension ext_F insn p (
     require_fp insn p (
       Inr (npc, WRITE_FRD xlen insn (freg_f32 (fsgnj32 (FRS1 insn p) (FRS2 insn p) False False)) p)))"

definition fsgnjn_s :: insn_body where
  "fsgnjn_s xlen insn pc npc p =
     require_extension ext_F insn p (
     require_fp insn p (
       Inr (npc, WRITE_FRD xlen insn (freg_f32 (fsgnj32 (FRS1 insn p) (FRS2 insn p) True False)) p)))"

definition fsgnjx_s :: insn_body where
  "fsgnjx_s xlen insn pc npc p =
     require_extension ext_F insn p (
     require_fp insn p (
       Inr (npc, WRITE_FRD xlen insn (freg_f32 (fsgnj32 (FRS1 insn p) (FRS2 insn p) False True)) p)))"

definition fsgnj_d :: insn_body where
  "fsgnj_d xlen insn pc npc p =
     require_extension ext_D insn p (
     require_fp insn p (
       Inr (npc, WRITE_FRD xlen insn (freg_f64 (fsgnj64 (FRS1 insn p) (FRS2 insn p) False False)) p)))"

definition fsgnjn_d :: insn_body where
  "fsgnjn_d xlen insn pc npc p =
     require_extension ext_D insn p (
     require_fp insn p (
       Inr (npc, WRITE_FRD xlen insn (freg_f64 (fsgnj64 (FRS1 insn p) (FRS2 insn p) True False)) p)))"

definition fsgnjx_d :: insn_body where
  "fsgnjx_d xlen insn pc npc p =
     require_extension ext_D insn p (
     require_fp insn p (
       Inr (npc, WRITE_FRD xlen insn (freg_f64 (fsgnj64 (FRS1 insn p) (FRS2 insn p) False True)) p)))"

section \<open>Moves\<close>

definition fmv_h_x :: insn_body where
  "fmv_h_x xlen insn pc npc p =
     require_extension EXT_ZFH insn p (
     require_fp insn p (
       Inr (npc, WRITE_FRD xlen insn (freg_f16 (ucast (RS1 insn p))) p)))"

definition fmv_w_x :: insn_body where
  "fmv_w_x xlen insn pc npc p =
     require_extension ext_F insn p (
     require_fp insn p (
       Inr (npc, WRITE_FRD xlen insn (freg_f32 (ucast (RS1 insn p))) p)))"

definition fmv_d_x :: insn_body where
  "fmv_d_x xlen insn pc npc p =
     require_extension ext_D insn p (
     require_rv64 xlen insn (
     require_fp insn p (
       Inr (npc, WRITE_FRD xlen insn (freg_f64 (RS1 insn p)) p))))"

definition fmv_x_h :: insn_body where
  "fmv_x_h xlen insn pc npc p =
     require_extension EXT_ZFH insn p (
     require_fp insn p (
       Inr (npc, WRITE_RD insn (sext32 (scast (ucast (fv0 (FRS1 insn p)) :: 16 word))) p)))"

definition fmv_x_w :: insn_body where
  "fmv_x_w xlen insn pc npc p =
     require_extension ext_F insn p (
     require_fp insn p (
       Inr (npc, WRITE_RD insn (sext32 (fv0 (FRS1 insn p))) p)))"

definition fmv_x_d :: insn_body where
  "fmv_x_d xlen insn pc npc p =
     require_extension ext_D insn p (
     require_rv64 xlen insn (
     require_fp insn p (
       Inr (npc, WRITE_RD insn (fv0 (FRS1 insn p)) p))))"

section \<open>Boxing\<close>

lemma boxed_f64: "isBoxedF64 r \<Longrightarrow> r = freg_f64 (fv0 r)"
  by (cases r) (simp add: isBoxedF64_def freg_f64_def eq_neg_iff_add_eq_0)

lemma boxed_iff:
  "isBoxedF32 r \<longleftrightarrow> fv1 r = - 1 \<and> drop_bit 32 (fv0 r) = mask 32"
  "isBoxedF16 r \<longleftrightarrow> fv1 r = - 1 \<and> drop_bit 16 (fv0 r) = mask 48"
proof -
  define k where "k = unat (fv0 r) div 2 ^ 32"
  have "unat (fv0 r) < 2 ^ 64" using unat_lt_2p [of "fv0 r"] by simp
  then have k: "k < 2 ^ 32" by (simp add: k_def less_mult_imp_div_less)
  have "unat (drop_bit 32 (fv0 r) + 1) = k + 1"
    using k by (subst unat_add_less) (simp_all add: unat_drop_bit k_def)
  then have "(ucast (drop_bit 32 (fv0 r) + 1) :: uint32_t) = 0 \<longleftrightarrow> (k + 1) mod 2 ^ 32 = 0"
    by (simp add: word_eq_unat unat_ucast)
  also have "\<dots> \<longleftrightarrow> k = 2 ^ 32 - 1"
  proof
    assume "(k + 1) mod 2 ^ 32 = 0"
    then show "k = 2 ^ 32 - 1" using k by (cases "k + 1 = 2 ^ 32") simp_all
  qed simp
  also have "\<dots> \<longleftrightarrow> drop_bit 32 (fv0 r) = mask 32"
    by (simp add: word_eq_unat unat_drop_bit k_def unat_mask)
  finally show 32: "isBoxedF32 r \<longleftrightarrow> fv1 r = - 1 \<and> drop_bit 32 (fv0 r) = mask 32"
    by (simp add: isBoxedF32_def isBoxedF64_def eq_neg_iff_add_eq_0)
  have "drop_bit 16 (fv0 r) + 1 = push_bit 48 1 \<longleftrightarrow> drop_bit 16 (fv0 r) = mask 48"
    by (simp add: mask_eq_exp_minus_1 eq_diff_eq push_bit_of_1)
  moreover have "drop_bit 32 (fv0 r) = mask 32" if "drop_bit 16 (fv0 r) = mask 48"
    using arg_cong [OF that, of "drop_bit 16"] by (simp add: mask_eq_exp_minus_1)
  ultimately show "isBoxedF16 r \<longleftrightarrow> fv1 r = - 1 \<and> drop_bit 16 (fv0 r) = mask 48"
    by (auto simp: isBoxedF16_def 32)
qed

lemma bit_and_high:
  assumes "drop_bit k w = (mask (64 - k) :: uint64_t)" "k \<le> n" "n < 64"
  shows "bit w n"
  using assms(2,3) arg_cong [OF assms(1), of "\<lambda>x. bit x (n - k)"] by (auto simp: bit_simps)

lemma boxed_f32: "isBoxedF32 r \<Longrightarrow> freg_f32 (ucast (fv0 r)) = r"
proof -
  assume b: "isBoxedF32 r"
  have "push_bit 32 (- 1) OR ucast (ucast (fv0 r) :: float32_t) = fv0 r"
    using b bit_and_high [of 32 "fv0 r"] by (intro bit_word_eqI) (auto simp: bit_simps not_le boxed_iff)
  then show ?thesis using b by (cases r) (simp add: freg_f32_def boxed_iff)
qed

lemma box_is_boxed: "isBoxedF16 (freg_f16 a)" "isBoxedF32 (freg_f32 b)" "isBoxedF64 (freg_f64 c)"
proof -
  have "drop_bit 16 (push_bit 16 (- 1) OR ucast a) = (mask 48 :: uint64_t)"
    "drop_bit 32 (push_bit 32 (- 1) OR ucast b) = (mask 32 :: uint64_t)"
    by (rule bit_word_eqI; auto simp: bit_simps dest: bit_imp_le_length)+
  then show "isBoxedF16 (freg_f16 a)" "isBoxedF32 (freg_f32 b)" "isBoxedF64 (freg_f64 c)"
    by (simp_all only: boxed_iff isBoxedF64_def freg_f16_def freg_f32_def freg_f64_def freg_t.select_convs) simp_all
qed

lemma unbox_box [simp]: "f16_freg (freg_f16 a) = a" "f32_freg (freg_f32 b) = b" "f64_freg (freg_f64 c) = c"
proof -
  have "ucast (push_bit 16 (- 1) OR ucast a :: uint64_t) = a" "ucast (push_bit 32 (- 1) OR ucast b :: uint64_t) = b"
    by (rule bit_word_eqI; auto simp: bit_simps)+
  then show "f16_freg (freg_f16 a) = a" "f32_freg (freg_f32 b) = b" "f64_freg (freg_f64 c) = c"
    by (simp_all only: f16_freg_def f32_freg_def f64_freg_def box_is_boxed if_True)
      (simp_all only: freg_f16_def freg_f32_def freg_f64_def freg_t.select_convs)
qed

lemma box_unbox_number:
  "\<not> isNaNF32UI (ucast (f32_freg r)) \<Longrightarrow> freg_f32 (f32_freg r) = r"
  "\<not> isNaNF64UI (f64_freg r) \<Longrightarrow> freg_f64 (f64_freg r) = r"
  by (auto simp: f32_freg_def f64_freg_def boxed_f32 boxed_f64 [symmetric] isNaNF32UI_def isNaNF64UI_def
      defaultNaNF32UI_def defaultNaNF64UI_def split: if_splits)

lemma top_bit: "n + 1 = LENGTH('a) \<Longrightarrow> drop_bit n w \<noteq> 0 \<longleftrightarrow> bit (w :: 'a::len word) n"
proof -
  assume n: "n + 1 = LENGTH('a)"
  have "bit w (n + k) \<longleftrightarrow> k = 0 \<and> bit w n" for k using bit_imp_le_length [of w "n + k"] n by (cases k) auto
  then have "drop_bit n w = of_bool (bit w n)" by (intro bit_word_eqI) (auto simp: bit_simps)
  then show ?thesis by simp
qed

lemma sign_test:
  "signF32UI (ucast (a :: float32_t)) \<longleftrightarrow> a AND F32_SIGN \<noteq> 0"
  "signF64UI b \<longleftrightarrow> b AND F64_SIGN \<noteq> 0"
proof -
  have "(ucast (ucast a :: uint64_t) :: float32_t) = a" by (rule bit_word_eqI) (auto simp: bit_simps)
  moreover have "a AND push_bit 31 1 \<noteq> 0 \<longleftrightarrow> bit a 31" "b AND push_bit 63 1 \<noteq> 0 \<longleftrightarrow> bit b 63"
    by (simp_all only: push_bit_of_1 and_exp_eq_0_iff_not_bit not_not)
  ultimately show "signF32UI (ucast (a :: float32_t)) \<longleftrightarrow> a AND F32_SIGN \<noteq> 0"
    "signF64UI b \<longleftrightarrow> b AND F64_SIGN \<noteq> 0"
    using top_bit [of 31 a] top_bit [of 63 b]
    by (simp_all only: signF32UI_def signF64UI_def F32_SIGN_def F64_SIGN_def) simp_all
qed

lemma FRS_soft [simp]:
  "FRS1 insn (p\<lparr>softfloat := st\<rparr>) = FRS1 insn p" "FRS2 insn (p\<lparr>softfloat := st\<rparr>) = FRS2 insn p"
  by (simp_all add: FRS1_def FRS2_def READ_FREG_def)

text \<open>An ordered operand is not a NaN.\<close>

lemma ordered_numbers:
  "f32_lt_quiet a b st = (True, st') \<Longrightarrow> \<not> isNaNF32UI (ucast a) \<and> \<not> isNaNF32UI (ucast b)"
  "f32_eq a b st = (True, st') \<Longrightarrow> \<not> isNaNF32UI (ucast a) \<and> \<not> isNaNF32UI (ucast b)"
  "f64_lt_quiet c d st = (True, st') \<Longrightarrow> \<not> isNaNF64UI c \<and> \<not> isNaNF64UI d"
  "f64_eq c d st = (True, st') \<Longrightarrow> \<not> isNaNF64UI c \<and> \<not> isNaNF64UI d"
  by (auto simp: f32_lt_quiet_def f32_eq_def f64_lt_quiet_def f64_eq_def Let_def split: if_splits)

lemma fmin_s_code:
  "fmin_s xlen insn pc npc p =
     require_extension ext_F insn p (
     require_fp insn p (
       let (z, p) = soft (f32_min (f32_freg (FRS1 insn p)) (f32_freg (FRS2 insn p))) p;
           p = WRITE_FRD xlen insn (freg_f32 z) p
       in Inr (npc, set_fp_exceptions xlen p)))"
  unfolding fmin_s_def f32_min_def soft_def sign_test
  by (auto simp: Let_def box_unbox_number dest!: ordered_numbers split: prod.splits if_splits)

lemma fmin_d_code:
  "fmin_d xlen insn pc npc p =
     require_extension ext_D insn p (
     require_fp insn p (
       let (z, p) = soft (f64_min (f64_freg (FRS1 insn p)) (f64_freg (FRS2 insn p))) p;
           p = WRITE_FRD xlen insn (freg_f64 z) p
       in Inr (npc, set_fp_exceptions xlen p)))"
  unfolding fmin_d_def f64_min_def soft_def sign_test
  by (auto simp: Let_def box_unbox_number dest!: ordered_numbers split: prod.splits if_splits)

lemma fmax_s_code:
  "fmax_s xlen insn pc npc p =
     require_extension ext_F insn p (
     require_fp insn p (
       let (z, p) = soft (f32_max (f32_freg (FRS1 insn p)) (f32_freg (FRS2 insn p))) p;
           p = WRITE_FRD xlen insn (freg_f32 z) p
       in Inr (npc, set_fp_exceptions xlen p)))"
  unfolding fmax_s_def f32_max_def soft_def sign_test
  by (auto simp: Let_def box_unbox_number dest!: ordered_numbers split: prod.splits if_splits)

lemma fmax_d_code:
  "fmax_d xlen insn pc npc p =
     require_extension ext_D insn p (
     require_fp insn p (
       let (z, p) = soft (f64_max (f64_freg (FRS1 insn p)) (f64_freg (FRS2 insn p))) p;
           p = WRITE_FRD xlen insn (freg_f64 z) p
       in Inr (npc, set_fp_exceptions xlen p)))"
  unfolding fmax_d_def f64_max_def soft_def sign_test
  by (auto simp: Let_def box_unbox_number dest!: ordered_numbers split: prod.splits if_splits)

lemmas minmax_code = fmin_h_def fmin_s_code fmin_d_code fmax_h_def fmax_s_code fmax_d_code

section \<open>The invariant\<close>

lemma class_bit_small: "push_bit (fp_class fb eb w) (1 :: uint64_t) < 2 ^ 31"
  by (simp add: fp_class_def)

lemma classify_small:
  assumes "valid_xlen xlen"
  shows "sext_xlen xlen (f16_classify a) = f16_classify a" "sext_xlen xlen (f32_classify b) = f32_classify b"
    "sext_xlen xlen (f64_classify c) = f64_classify c"
  by (simp_all only: classify_specs in_range(6) [OF assms] class_bit_small)

lemmas keeps_rules = keeps_require keeps_RM keeps_Inr keeps_soft
lemmas frame_rules = frame_arith frame_compare frame_maxmin frame_from_int frame_to_int

lemma keeps_arith:
  assumes "valid_xlen xlen" "rv_inv xlen p"
  shows
    "keeps xlen (fadd_s xlen insn pc npc p)" "keeps xlen (fadd_d xlen insn pc npc p)"
    "keeps xlen (fsub_s xlen insn pc npc p)" "keeps xlen (fsub_d xlen insn pc npc p)"
    "keeps xlen (fmul_h xlen insn pc npc p)" "keeps xlen (fmul_s xlen insn pc npc p)"
    "keeps xlen (fmul_d xlen insn pc npc p)"
  unfolding
    fadd_s_def fadd_d_def fsub_s_def fsub_d_def fmul_h_def fmul_s_def fmul_d_def Let_def
  by (assumption | rule assms keeps_rules keeps_inv frame_rules classify_small | rule busyI | simp)+

lemma keeps_from_int:
  assumes "valid_xlen xlen" "rv_inv xlen p"
  shows
    "keeps xlen (fcvt_h_w xlen insn pc npc p)" "keeps xlen (fcvt_s_w xlen insn pc npc p)"
    "keeps xlen (fcvt_d_w xlen insn pc npc p)" "keeps xlen (fcvt_h_wu xlen insn pc npc p)"
    "keeps xlen (fcvt_s_wu xlen insn pc npc p)" "keeps xlen (fcvt_d_wu xlen insn pc npc p)"
    "keeps xlen (fcvt_h_l xlen insn pc npc p)" "keeps xlen (fcvt_s_l xlen insn pc npc p)"
    "keeps xlen (fcvt_d_l xlen insn pc npc p)" "keeps xlen (fcvt_h_lu xlen insn pc npc p)"
    "keeps xlen (fcvt_s_lu xlen insn pc npc p)" "keeps xlen (fcvt_d_lu xlen insn pc npc p)"
  unfolding
    fcvt_h_w_def fcvt_s_w_def fcvt_d_w_def fcvt_h_wu_def fcvt_s_wu_def fcvt_d_wu_def fcvt_h_l_def
    fcvt_s_l_def fcvt_d_l_def fcvt_h_lu_def fcvt_s_lu_def fcvt_d_lu_def Let_def
  by (assumption | rule assms keeps_rules keeps_inv frame_rules classify_small | rule busyI | simp)+

lemma keeps_to_int:
  assumes "valid_xlen xlen" "rv_inv xlen p"
  shows
    "keeps xlen (fcvt_w_h xlen insn pc npc p)" "keeps xlen (fcvt_w_s xlen insn pc npc p)"
    "keeps xlen (fcvt_w_d xlen insn pc npc p)" "keeps xlen (fcvt_wu_h xlen insn pc npc p)"
    "keeps xlen (fcvt_wu_s xlen insn pc npc p)" "keeps xlen (fcvt_wu_d xlen insn pc npc p)"
    "keeps xlen (fcvt_l_h xlen insn pc npc p)" "keeps xlen (fcvt_l_s xlen insn pc npc p)"
    "keeps xlen (fcvt_l_d xlen insn pc npc p)" "keeps xlen (fcvt_lu_h xlen insn pc npc p)"
    "keeps xlen (fcvt_lu_s xlen insn pc npc p)" "keeps xlen (fcvt_lu_d xlen insn pc npc p)"
  unfolding
    fcvt_w_h_def fcvt_w_s_def fcvt_w_d_def fcvt_wu_h_def fcvt_wu_s_def fcvt_wu_d_def fcvt_l_h_def
    fcvt_l_s_def fcvt_l_d_def fcvt_lu_h_def fcvt_lu_s_def fcvt_lu_d_def Let_def
  by (assumption | rule assms keeps_rules keeps_inv frame_rules classify_small | rule busyI | simp)+

lemma keeps_compare:
  assumes "valid_xlen xlen" "rv_inv xlen p"
  shows
    "keeps xlen (feq_h xlen insn pc npc p)" "keeps xlen (feq_s xlen insn pc npc p)"
    "keeps xlen (feq_d xlen insn pc npc p)" "keeps xlen (fle_h xlen insn pc npc p)"
    "keeps xlen (fle_s xlen insn pc npc p)" "keeps xlen (fle_d xlen insn pc npc p)"
    "keeps xlen (flt_h xlen insn pc npc p)" "keeps xlen (flt_s xlen insn pc npc p)"
    "keeps xlen (flt_d xlen insn pc npc p)"
  unfolding
    feq_h_def feq_s_def feq_d_def fle_h_def fle_s_def fle_d_def flt_h_def flt_s_def flt_d_def Let_def
  by (assumption | rule assms keeps_rules keeps_inv frame_rules classify_small | rule busyI | simp)+

lemma keeps_class:
  assumes "valid_xlen xlen" "rv_inv xlen p"
  shows
    "keeps xlen (fclass_h xlen insn pc npc p)" "keeps xlen (fclass_s xlen insn pc npc p)"
    "keeps xlen (fclass_d xlen insn pc npc p)"
  unfolding
    fclass_h_def fclass_s_def fclass_d_def Let_def
  by (assumption | rule assms keeps_rules keeps_inv frame_rules classify_small | rule busyI | simp)+

lemma keeps_minmax:
  assumes "valid_xlen xlen" "rv_inv xlen p"
  shows
    "keeps xlen (fmin_h xlen insn pc npc p)" "keeps xlen (fmin_s xlen insn pc npc p)"
    "keeps xlen (fmin_d xlen insn pc npc p)" "keeps xlen (fmax_h xlen insn pc npc p)"
    "keeps xlen (fmax_s xlen insn pc npc p)" "keeps xlen (fmax_d xlen insn pc npc p)"
  unfolding
    minmax_code Let_def
  by (assumption | rule assms keeps_rules keeps_inv frame_rules classify_small | rule busyI | simp)+

lemma keeps_sgnj:
  assumes "valid_xlen xlen" "rv_inv xlen p"
  shows
    "keeps xlen (fsgnj_h xlen insn pc npc p)" "keeps xlen (fsgnjn_h xlen insn pc npc p)"
    "keeps xlen (fsgnjx_h xlen insn pc npc p)" "keeps xlen (fsgnj_s xlen insn pc npc p)"
    "keeps xlen (fsgnjn_s xlen insn pc npc p)" "keeps xlen (fsgnjx_s xlen insn pc npc p)"
    "keeps xlen (fsgnj_d xlen insn pc npc p)" "keeps xlen (fsgnjn_d xlen insn pc npc p)"
    "keeps xlen (fsgnjx_d xlen insn pc npc p)"
  unfolding
    fsgnj_h_def fsgnjn_h_def fsgnjx_h_def fsgnj_s_def fsgnjn_s_def fsgnjx_s_def fsgnj_d_def fsgnjn_d_def
    fsgnjx_d_def Let_def
  by (assumption | rule assms keeps_rules keeps_inv frame_rules classify_small | rule busyI | simp)+

lemma keeps_fmv:
  assumes "valid_xlen xlen" "rv_inv xlen p"
  shows
    "keeps xlen (fmv_h_x xlen insn pc npc p)" "keeps xlen (fmv_w_x xlen insn pc npc p)"
    "keeps xlen (fmv_d_x xlen insn pc npc p)" "keeps xlen (fmv_x_h xlen insn pc npc p)"
    "keeps xlen (fmv_x_w xlen insn pc npc p)" "keeps xlen (fmv_x_d xlen insn pc npc p)"
  unfolding
    fmv_h_x_def fmv_w_x_def fmv_d_x_def fmv_x_h_def fmv_x_w_def fmv_x_d_def Let_def
  by (assumption | rule assms keeps_rules keeps_inv frame_rules classify_small | rule busyI | simp)+

end
