(* ===== verification/RV_FP_Spec.thy ===== *)
theory RV_FP_Spec
  imports RV_FP
begin

text \<open>
  What the architecture prescribes for the floating-point instructions, as functions of the
  architectural state alone, and the refinement of that specification by the instruction bodies: the
  simulator's use of SoftFloat's global state does not show.
\<close>

section \<open>Specification\<close>

definition illegal :: "insn_bits_t \<Rightarrow> 'p outcome" where
  "illegal insn = Inl (trap_illegal_instruction (insn_bits insn))"

definition fp_enabled :: "nat \<Rightarrow> bool \<Rightarrow> nat \<Rightarrow> 'a arch_t_scheme \<Rightarrow> bool" where
  "fp_enabled ext rv64 xlen s \<longleftrightarrow>
     supports_extension ext s \<and> (rv64 \<longrightarrow> xlen = 64) \<and> mstatus s AND MSTATUS_FS \<noteq> 0"

definition rm_of :: "insn_bits_t \<Rightarrow> 'a arch_t_scheme \<Rightarrow> uint_fast8_t option" where
  "rm_of insn s =
     (let r = insn_rm insn; r = (if r = 7 then ucast (frm s) else r)
      in if r \<le> 4 then Some (ucast r) else None)"

text \<open>A fresh environment for one operation: no flags, tininess after rounding.\<close>

definition clean :: "uint_fast8_t \<Rightarrow> sf_state" where
  "clean r =
     \<lparr>softfloat_roundingMode = r, softfloat_detectTininess = softfloat_tininess_afterRounding,
      softfloat_exceptionFlags = 0\<rparr>"

definition accrue :: "nat \<Rightarrow> uint_fast8_t \<Rightarrow> arch_t \<Rightarrow> arch_t" where
  "accrue xlen fl s = (if fl = 0 then s else (dirty_fp_state xlen s)\<lparr>fflags := fflags s OR ucast fl\<rparr>)"

definition finish :: "nat \<Rightarrow> reg_t \<Rightarrow> ('v \<Rightarrow> arch_t \<Rightarrow> arch_t) \<Rightarrow> 'v \<times> sf_state \<Rightarrow> arch_t \<Rightarrow> arch_t outcome" where
  "finish xlen npc wr res s =
     Inr (npc, accrue xlen (softfloat_exceptionFlags (snd res)) (wr (fst res) s))"

definition round_spec ::
  "nat \<Rightarrow> bool \<Rightarrow> (uint_fast8_t \<Rightarrow> sf_state \<Rightarrow> 'v \<times> sf_state) \<Rightarrow> ('v \<Rightarrow> arch_t \<Rightarrow> arch_t) \<Rightarrow>
   nat \<Rightarrow> insn_bits_t \<Rightarrow> reg_t \<Rightarrow> arch_t \<Rightarrow> arch_t outcome" where
  "round_spec ext rv64 res wr xlen insn npc s =
     (if fp_enabled ext rv64 xlen s
      then case rm_of insn s of None \<Rightarrow> illegal insn | Some r \<Rightarrow> finish xlen npc wr (res r (clean r)) s
      else illegal insn)"

definition plain_spec ::
  "nat \<Rightarrow> (sf_state \<Rightarrow> 'v \<times> sf_state) \<Rightarrow> ('v \<Rightarrow> arch_t \<Rightarrow> arch_t) \<Rightarrow>
   nat \<Rightarrow> insn_bits_t \<Rightarrow> reg_t \<Rightarrow> arch_t \<Rightarrow> arch_t outcome" where
  "plain_spec ext res wr xlen insn npc s =
     (if fp_enabled ext False xlen s then finish xlen npc wr (res (clean 0)) s else illegal insn)"

text \<open>The architectural part of an outcome.\<close>

definition arch :: "processor_t outcome \<Rightarrow> arch_t outcome" where
  "arch = map_sum id (map_prod id arch_t.truncate)"

section \<open>Refinement\<close>

lemma truncate_sel [simp]:
  "XPR (arch_t.truncate p) = XPR p" "FPR (arch_t.truncate p) = FPR p" "misa (arch_t.truncate p) = misa p"
  "mstatus (arch_t.truncate p) = mstatus p" "fflags (arch_t.truncate p) = fflags p" "frm (arch_t.truncate p) = frm p"
  "extension_table (arch_t.truncate p) = extension_table p"
  by (simp_all add: arch_t.truncate_def)

lemma truncate_READ [simp]:
  "RS1 insn (arch_t.truncate p) = RS1 insn p" "FRS1 insn (arch_t.truncate p) = FRS1 insn p"
  "FRS2 insn (arch_t.truncate p) = FRS2 insn p"
  "supports_extension ext (arch_t.truncate p) = supports_extension ext p"
  "fp_enabled ext rv64 xlen (arch_t.truncate p) = fp_enabled ext rv64 xlen p"
  "rm_of insn (arch_t.truncate p) = rm_of insn p"
  by (simp_all add: RS1_def FRS1_def FRS2_def READ_REG_def READ_FREG_def supports_extension_def fp_enabled_def rm_of_def
      Let_def)

lemma truncate_WRITE [simp]:
  "arch_t.truncate (WRITE_RD insn v p) = WRITE_RD insn v (arch_t.truncate p)"
  "arch_t.truncate (WRITE_FRD xlen insn w p) = WRITE_FRD xlen insn w (arch_t.truncate p)"
  by (simp_all add: WRITE_RD_def WRITE_REG_def WRITE_FRD_def DO_WRITE_FREG_def dirty_fp_state_def arch_t.truncate_def)

lemma set_roundingMode_READ [simp]:
  "RS1 insn (set_roundingMode r p) = RS1 insn p" "FRS1 insn (set_roundingMode r p) = FRS1 insn p"
  "FRS2 insn (set_roundingMode r p) = FRS2 insn p"
  by (simp_all add: set_roundingMode_def RS1_def FRS1_def FRS2_def READ_REG_def READ_FREG_def)

lemma set_fp_exceptions_truncate:
  "arch_t.truncate (set_fp_exceptions xlen p) = accrue xlen (pending p) (arch_t.truncate p)"
  by (simp add: set_fp_exceptions_def accrue_def pending_def Let_def dirty_fp_state_def arch_t.truncate_def)

lemma set_roundingMode_clean:
  "rv_inv xlen p \<Longrightarrow> softfloat (set_roundingMode r p) = clean r"
  by (simp add: set_roundingMode_def rv_inv_def pending_def after_rounding_def clean_def)

lemma checks_enabled:
  "require_extension ext insn p (require_fp insn p k) = (if fp_enabled ext False xlen p then k else illegal insn)"
  "require_extension ext insn p (require_rv64 xlen insn (require_fp insn p k)) =
    (if fp_enabled ext True xlen p then k else illegal insn)"
  by (simp_all add: require_extension_def require_fp_def require_rv64_def require_def fp_enabled_def illegal_def)

lemma sint_rm: "unat (x :: 32 word) < 8 \<Longrightarrow> 4 < sint x \<longleftrightarrow> \<not> unat x \<le> 4"
proof -
  assume x: "unat x < 8"
  define n where "n = unat x"
  have u: "uint x = int n" by (simp add: n_def)
  have "n < 8" using x by (simp only: n_def)
  then have "signed_take_bit 31 (int n) = int n" by (intro signed_take_bit_int_eq_self) simp_all
  then have "sint x = int n" by (simp only: sint_uint u) simp
  then show ?thesis unfolding n_def [symmetric] by linarith
qed

lemma RM_rm_of:
  assumes "rv_inv xlen p"
  shows "RM insn p k = (case rm_of insn p of None \<Rightarrow> illegal insn | Some r \<Rightarrow> k r)"
proof -
  have m: "unat (insn_rm insn) < 8"
    unfolding insn_rm_def insn_x_eq by (simp add: unat_take_bit)
  have f: "unat (frm p) < 8" using assms by (simp add: rv_inv_def arch_inv_def word_less_nat_alt)
  have um: "unat (ucast (insn_rm insn) :: 32 word) = unat (insn_rm insn)"
    by (rule unat_ucast_less) (use m in simp)
  have "(ucast (ucast (frm p) :: 64 word) :: 8 word) = ucast (frm p)"
    "(ucast (ucast (insn_rm insn) :: 32 word) :: 8 word) = ucast (insn_rm insn)"
    by (rule bit_word_eqI; auto simp: bit_simps)+
  moreover have "(ucast (insn_rm insn) :: 32 word) = 7 \<longleftrightarrow> insn_rm insn = 7"
    using um by (simp add: word_eq_unat)
  ultimately show ?thesis
    using m f um sint_rm [of "frm p"] sint_rm [of "ucast (insn_rm insn)"]
    by (auto simp: RM_def rm_of_def Let_def illegal_def word_le_nat_alt)
qed

text \<open>What the instruction writes is the same on the architectural part.\<close>

definition writes :: "('v \<Rightarrow> processor_t \<Rightarrow> processor_t) \<Rightarrow> ('v \<Rightarrow> arch_t \<Rightarrow> arch_t) \<Rightarrow> bool" where
  "writes wp wa \<longleftrightarrow> (\<forall>z p. arch_t.truncate (wp z p) = wa z (arch_t.truncate p) \<and> pending (wp z p) = pending p)"

lemma writes_intros:
  "writes (\<lambda>z. WRITE_RD insn (f z)) (\<lambda>z. WRITE_RD insn (f z))"
  "writes (\<lambda>z. WRITE_FRD xlen insn (g z)) (\<lambda>z. WRITE_FRD xlen insn (g z))"
  by (simp_all add: writes_def)

lemma finish_refines:
  assumes "writes wp wa"
  shows "arch (case soft op p of (z, p) \<Rightarrow> Inr (npc, set_fp_exceptions xlen (wp z p))) =
    finish xlen npc wa (op (softfloat p)) (arch_t.truncate p)"
  using assms
  by (simp add: soft_def finish_def arch_def set_fp_exceptions_truncate writes_def pending_def split: prod.splits)
     (simp add: arch_t.truncate_def)

lemma truncate_roundingMode [simp]: "arch_t.truncate (set_roundingMode r p) = arch_t.truncate p"
  by (simp add: set_roundingMode_def arch_t.truncate_def)

lemma arch_illegal [simp]: "arch (illegal insn) = illegal insn"
  by (simp add: arch_def illegal_def)

lemma round_insn_refines:
  assumes "rv_inv xlen p" "writes wp wa"
  shows "arch (require_extension ext insn p (require_fp insn p (RM insn p (\<lambda>rm.
      case soft (op rm) (set_roundingMode rm p) of (z, p) \<Rightarrow> Inr (npc, set_fp_exceptions xlen (wp z p)))))) =
    round_spec ext False op wa xlen insn npc (arch_t.truncate p)"
    and "arch (require_extension ext insn p (require_rv64 xlen insn (require_fp insn p (RM insn p (\<lambda>rm.
      case soft (op rm) (set_roundingMode rm p) of (z, p) \<Rightarrow> Inr (npc, set_fp_exceptions xlen (wp z p))))))) =
    round_spec ext True op wa xlen insn npc (arch_t.truncate p)"
  unfolding checks_enabled(1) [where xlen = xlen] checks_enabled(2) RM_rm_of [OF assms(1)] round_spec_def truncate_READ
  by (auto simp: finish_refines [OF assms(2)] set_roundingMode_clean [OF assms(1)] split: option.splits)

text \<open>Without a rounding mode: the result and the flags must not depend on the one that is left over.\<close>

definition modeless :: "(sf_state \<Rightarrow> 'v \<times> sf_state) \<Rightarrow> bool" where
  "modeless op \<longleftrightarrow>
     (\<forall>st. softfloat_exceptionFlags st = 0 \<longrightarrow> fst (op st) = fst (op (clean 0)) \<and>
       softfloat_exceptionFlags (snd (op st)) = softfloat_exceptionFlags (snd (op (clean 0))))"

lemma modeless_specs: "modeless (fp_cmp fb eb sg R a b)" "modeless (fp_maxmin fb eb m a b)"
  by (auto simp: modeless_def fp_cmp_def fp_maxmin_def clean_def)

lemma plain_refines:
  assumes "rv_inv xlen p" "writes wp wa" "modeless op"
  shows "arch (require_extension ext insn p (require_fp insn p (
      case soft op p of (z, p) \<Rightarrow> Inr (npc, set_fp_exceptions xlen (wp z p))))) =
    plain_spec ext op wa xlen insn npc (arch_t.truncate p)"
  unfolding checks_enabled(1) [where xlen = xlen] plain_spec_def truncate_READ
  using assms(1,3) by (auto simp: finish_refines [OF assms(2)] finish_def modeless_def rv_inv_def pending_def)

lemma pure_refines:
  assumes "\<And>p. arch_t.truncate (wp p) = wa (arch_t.truncate p)"
  shows "arch (require_extension ext insn p (require_fp insn p (Inr (npc, wp p)))) =
    (if fp_enabled ext False xlen p then Inr (npc, wa (arch_t.truncate p)) else illegal insn)"
  unfolding checks_enabled(1) [where xlen = xlen] using assms by (simp add: arch_def illegal_def)

section \<open>Results read as integers\<close>

lemma finish_map: "finish xlen npc (\<lambda>z. wr (f z)) res s = finish xlen npc wr (map_prod f id res) s"
  by (simp add: finish_def)

lemma round_spec_map:
  assumes "\<And>r st. map_prod f id (op r st) = res r st"
  shows "round_spec ext rv64 op (\<lambda>z. wr (f z)) xlen insn npc s = round_spec ext rv64 res wr xlen insn npc s"
  unfolding round_spec_def finish_map assms ..

lemma sext32_sint: "sext32 z = scast (word_of_int (sint z) :: 32 word)"
  and sext32_uint: "sext32 z = scast (word_of_int (uint z) :: 32 word)"
proof -
  have "(ucast z :: 32 word) = word_of_int (sint z)" "(ucast z :: 32 word) = word_of_int (uint z)"
    by (rule bit_word_eqI; auto simp: bit_simps min_def)+
  then show "sext32 z = scast (word_of_int (sint z) :: 32 word)" "sext32 z = scast (word_of_int (uint z) :: 32 word)"
    by (simp_all only: sext32_def)
qed

lemma round_insn_refines_int:
  assumes "rv_inv xlen p" "\<And>r st. map_prod f id (op r st) = res r st" "\<And>z. g z = h (f z)"
  shows "arch (require_extension ext insn p (require_fp insn p (RM insn p (\<lambda>rm.
      case soft (op rm) (set_roundingMode rm p) of (z, p) \<Rightarrow> Inr (npc, set_fp_exceptions xlen (WRITE_RD insn (g z) p)))))) =
    round_spec ext False res (\<lambda>i. WRITE_RD insn (h i)) xlen insn npc (arch_t.truncate p)"
    and "arch (require_extension ext insn p (require_rv64 xlen insn (require_fp insn p (RM insn p (\<lambda>rm.
      case soft (op rm) (set_roundingMode rm p) of (z, p) \<Rightarrow> Inr (npc, set_fp_exceptions xlen (WRITE_RD insn (g z) p))))))) =
    round_spec ext True res (\<lambda>i. WRITE_RD insn (h i)) xlen insn npc (arch_t.truncate p)"
  using round_spec_map [of f op res, OF assms(2), where wr = "\<lambda>i. WRITE_RD insn (h i)"]
  unfolding assms(3) round_insn_refines [OF assms(1) writes_intros(1)] by simp_all

section \<open>The instructions\<close>

text \<open>The operations in the form the specification has them.\<close>

lemmas arith_specs = f32_add_sub_spec f64_add_sub_spec f16_mul_spec f32_mul_spec f64_mul_spec
lemmas of_int_specs = ui32_to_f16_spec ui32_to_f32_spec ui32_to_f64_spec i32_to_f16_spec i32_to_f32_spec i32_to_f64_spec
  ui64_to_f16_spec ui64_to_f32_spec ui64_to_f64_spec i64_to_f16_spec i64_to_f32_spec i64_to_f64_spec
  ieee_of_int_signed ieee_of_int_unsigned

lemma arith_fun:
  "f32_add a b = ieee_add 23 8 False a b" "f32_sub a b = ieee_add 23 8 True a b"
  "f64_add c d = ieee_add 52 11 False c d" "f64_sub c d = ieee_add 52 11 True c d"
  "f16_mul x y = ieee_mul 10 5 x y" "f32_mul a b = ieee_mul 23 8 a b" "f64_mul c d = ieee_mul 52 11 c d"
  by (rule ext, simp only: arith_specs)+

lemma of_int_fun:
  fixes u :: "32 word" and v :: "64 word"
  shows "ui32_to_f16 u = ieee_of_int 10 5 (uint u)" "ui32_to_f32 u = ieee_of_int 23 8 (uint u)"
    "ui32_to_f64 u = ieee_of_int 52 11 (uint u)" "i32_to_f16 u = ieee_of_int 10 5 (sint u)"
    "i32_to_f32 u = ieee_of_int 23 8 (sint u)" "i32_to_f64 u = ieee_of_int 52 11 (sint u)"
    "ui64_to_f16 v = ieee_of_int 10 5 (uint v)" "ui64_to_f32 v = ieee_of_int 23 8 (uint v)"
    "ui64_to_f64 v = ieee_of_int 52 11 (uint v)" "i64_to_f16 v = ieee_of_int 10 5 (sint v)"
    "i64_to_f32 v = ieee_of_int 23 8 (sint v)" "i64_to_f64 v = ieee_of_int 52 11 (sint v)"
  by (rule ext, simp only: of_int_specs)+

lemma compare_fun:
  "f16_eq a b = fp_cmp 10 5 False val_eq a b" "f32_eq c d = fp_cmp 23 8 False val_eq c d"
  "f64_eq x y = fp_cmp 52 11 False val_eq x y" "f16_le a b = fp_cmp 10 5 True val_le a b"
  "f32_le c d = fp_cmp 23 8 True val_le c d" "f64_le x y = fp_cmp 52 11 True val_le x y"
  "f16_lt a b = fp_cmp 10 5 True val_lt a b" "f32_lt c d = fp_cmp 23 8 True val_lt c d"
  "f64_lt x y = fp_cmp 52 11 True val_lt x y"
  "f16_max a b = fp_maxmin 10 5 True a b" "f16_min a b = fp_maxmin 10 5 False a b"
  "f32_max c d = fp_maxmin 23 8 True c d" "f32_min c d = fp_maxmin 23 8 False c d"
  "f64_max x y = fp_maxmin 52 11 True x y" "f64_min x y = fp_maxmin 52 11 False x y"
  by (rule ext, simp only: compare_specs maxmin_specs)+

text \<open>
  C14.  The arithmetic instructions refine the architecture: with the extension and the unit enabled and a
  valid rounding mode, the destination holds the NaN-boxed correctly rounded result of the unboxed
  operands, and its exceptions are added to \<^verbatim>\<open>fflags\<close>, whatever SoftFloat's global state was left in;
  otherwise the instruction is illegal and nothing changes.
\<close>

theorem fp_arith_refines_ieee:
  assumes "rv_inv xlen p" and "s = arch_t.truncate p"
  shows "arch (fadd_s xlen insn pc npc p) =
      round_spec ext_F False (\<lambda>r. ieee_add 23 8 False (f32_freg (FRS1 insn s)) (f32_freg (FRS2 insn s))) (\<lambda>z. WRITE_FRD xlen insn (freg_f32 z)) xlen insn npc s \<and>
    arch (fadd_d xlen insn pc npc p) =
      round_spec ext_D False (\<lambda>r. ieee_add 52 11 False (f64_freg (FRS1 insn s)) (f64_freg (FRS2 insn s))) (\<lambda>z. WRITE_FRD xlen insn (freg_f64 z)) xlen insn npc s \<and>
    arch (fsub_s xlen insn pc npc p) =
      round_spec ext_F False (\<lambda>r. ieee_add 23 8 True (f32_freg (FRS1 insn s)) (f32_freg (FRS2 insn s))) (\<lambda>z. WRITE_FRD xlen insn (freg_f32 z)) xlen insn npc s \<and>
    arch (fsub_d xlen insn pc npc p) =
      round_spec ext_D False (\<lambda>r. ieee_add 52 11 True (f64_freg (FRS1 insn s)) (f64_freg (FRS2 insn s))) (\<lambda>z. WRITE_FRD xlen insn (freg_f64 z)) xlen insn npc s \<and>
    arch (fmul_h xlen insn pc npc p) =
      round_spec EXT_ZFH False (\<lambda>r. ieee_mul 10 5 (f16_freg (FRS1 insn s)) (f16_freg (FRS2 insn s))) (\<lambda>z. WRITE_FRD xlen insn (freg_f16 z)) xlen insn npc s \<and>
    arch (fmul_s xlen insn pc npc p) =
      round_spec ext_F False (\<lambda>r. ieee_mul 23 8 (f32_freg (FRS1 insn s)) (f32_freg (FRS2 insn s))) (\<lambda>z. WRITE_FRD xlen insn (freg_f32 z)) xlen insn npc s \<and>
    arch (fmul_d xlen insn pc npc p) =
      round_spec ext_D False (\<lambda>r. ieee_mul 52 11 (f64_freg (FRS1 insn s)) (f64_freg (FRS2 insn s))) (\<lambda>z. WRITE_FRD xlen insn (freg_f64 z)) xlen insn npc s"
  unfolding fadd_s_def fadd_d_def fsub_s_def fsub_d_def fmul_h_def fmul_s_def fmul_d_def Let_def arith_fun assms(2) truncate_READ set_roundingMode_READ
  by (intro conjI round_insn_refines assms(1) writes_intros)

theorem fp_arith_refines_ieee_witness:
  "rv_inv 64 example_state \<and> arch (fadd_d 64 0x02317053 0 4 example_state) =
    round_spec ext_D False (\<lambda>r. ieee_add 52 11 False (f64_freg (FRS1 0x02317053 (arch_t.truncate example_state)))
      (f64_freg (FRS2 0x02317053 (arch_t.truncate example_state)))) (\<lambda>z. WRITE_FRD 64 0x02317053 (freg_f64 z))
      64 0x02317053 4 (arch_t.truncate example_state)"
  using fp_arith_refines_ieee [OF example_inv refl, of "0x02317053" 0 4] example_inv by blast

text \<open>
  C18.  The conversions of integer registers round the signed or unsigned 32-bit or 64-bit value once.
\<close>

theorem fcvt_from_int_refines_ieee:
  assumes "rv_inv xlen p" and "s = arch_t.truncate p"
  shows "arch (fcvt_h_w xlen insn pc npc p) =
      round_spec EXT_ZFH False (\<lambda>r. ieee_of_int 10 5 (sint (ucast (RS1 insn s) :: 32 word))) (\<lambda>z. WRITE_FRD xlen insn (freg_f16 z)) xlen insn npc s \<and>
    arch (fcvt_s_w xlen insn pc npc p) =
      round_spec ext_F False (\<lambda>r. ieee_of_int 23 8 (sint (ucast (RS1 insn s) :: 32 word))) (\<lambda>z. WRITE_FRD xlen insn (freg_f32 z)) xlen insn npc s \<and>
    arch (fcvt_d_w xlen insn pc npc p) =
      round_spec ext_D False (\<lambda>r. ieee_of_int 52 11 (sint (ucast (RS1 insn s) :: 32 word))) (\<lambda>z. WRITE_FRD xlen insn (freg_f64 z)) xlen insn npc s \<and>
    arch (fcvt_h_wu xlen insn pc npc p) =
      round_spec EXT_ZFH False (\<lambda>r. ieee_of_int 10 5 (uint (ucast (RS1 insn s) :: 32 word))) (\<lambda>z. WRITE_FRD xlen insn (freg_f16 z)) xlen insn npc s \<and>
    arch (fcvt_s_wu xlen insn pc npc p) =
      round_spec ext_F False (\<lambda>r. ieee_of_int 23 8 (uint (ucast (RS1 insn s) :: 32 word))) (\<lambda>z. WRITE_FRD xlen insn (freg_f32 z)) xlen insn npc s \<and>
    arch (fcvt_d_wu xlen insn pc npc p) =
      round_spec ext_D False (\<lambda>r. ieee_of_int 52 11 (uint (ucast (RS1 insn s) :: 32 word))) (\<lambda>z. WRITE_FRD xlen insn (freg_f64 z)) xlen insn npc s \<and>
    arch (fcvt_h_l xlen insn pc npc p) =
      round_spec EXT_ZFH True (\<lambda>r. ieee_of_int 10 5 (sint (RS1 insn s))) (\<lambda>z. WRITE_FRD xlen insn (freg_f16 z)) xlen insn npc s \<and>
    arch (fcvt_s_l xlen insn pc npc p) =
      round_spec ext_F True (\<lambda>r. ieee_of_int 23 8 (sint (RS1 insn s))) (\<lambda>z. WRITE_FRD xlen insn (freg_f32 z)) xlen insn npc s \<and>
    arch (fcvt_d_l xlen insn pc npc p) =
      round_spec ext_D True (\<lambda>r. ieee_of_int 52 11 (sint (RS1 insn s))) (\<lambda>z. WRITE_FRD xlen insn (freg_f64 z)) xlen insn npc s \<and>
    arch (fcvt_h_lu xlen insn pc npc p) =
      round_spec EXT_ZFH True (\<lambda>r. ieee_of_int 10 5 (uint (RS1 insn s))) (\<lambda>z. WRITE_FRD xlen insn (freg_f16 z)) xlen insn npc s \<and>
    arch (fcvt_s_lu xlen insn pc npc p) =
      round_spec ext_F True (\<lambda>r. ieee_of_int 23 8 (uint (RS1 insn s))) (\<lambda>z. WRITE_FRD xlen insn (freg_f32 z)) xlen insn npc s \<and>
    arch (fcvt_d_lu xlen insn pc npc p) =
      round_spec ext_D True (\<lambda>r. ieee_of_int 52 11 (uint (RS1 insn s))) (\<lambda>z. WRITE_FRD xlen insn (freg_f64 z)) xlen insn npc s"
  unfolding fcvt_h_w_def fcvt_s_w_def fcvt_d_w_def fcvt_h_wu_def fcvt_s_wu_def fcvt_d_wu_def fcvt_h_l_def fcvt_s_l_def fcvt_d_l_def fcvt_h_lu_def fcvt_s_lu_def fcvt_d_lu_def Let_def of_int_fun assms(2) truncate_READ set_roundingMode_READ
  by (intro conjI round_insn_refines assms(1) writes_intros)

theorem fcvt_from_int_refines_ieee_witness:
  "rv_inv 64 example_state \<and> arch (fcvt_d_l 64 0xd2207053 0 4 example_state) =
    round_spec ext_D True (\<lambda>r. ieee_of_int 52 11 (sint (RS1 0xd2207053 (arch_t.truncate example_state))))
      (\<lambda>z. WRITE_FRD 64 0xd2207053 (freg_f64 z)) 64 0xd2207053 4 (arch_t.truncate example_state)"
  using fcvt_from_int_refines_ieee [OF example_inv refl, of "0xd2207053" 0 4] example_inv by blast

text \<open>
  C17.  The conversions to integer registers write the value rounded in the mode of the instruction, saturated
  as RISC-V prescribes; a 32-bit result is sign-extended, also the unsigned one.
\<close>

theorem fcvt_to_int_refines_ieee:
  assumes "rv_inv xlen p" and "s = arch_t.truncate p"
  shows "arch (fcvt_w_h xlen insn pc npc p) =
      round_spec EXT_ZFH False (\<lambda>r. ieee_to_int 10 5 (- (2 ^ 31)) (2 ^ 31 - 1) (int_rmode r) True (f16_freg (FRS1 insn s))) (\<lambda>i. WRITE_RD insn (scast (word_of_int i :: 32 word))) xlen insn npc s \<and>
    arch (fcvt_w_s xlen insn pc npc p) =
      round_spec ext_F False (\<lambda>r. ieee_to_int 23 8 (- (2 ^ 31)) (2 ^ 31 - 1) (int_rmode r) True (f32_freg (FRS1 insn s))) (\<lambda>i. WRITE_RD insn (scast (word_of_int i :: 32 word))) xlen insn npc s \<and>
    arch (fcvt_w_d xlen insn pc npc p) =
      round_spec ext_D False (\<lambda>r. ieee_to_int 52 11 (- (2 ^ 31)) (2 ^ 31 - 1) (int_rmode r) True (f64_freg (FRS1 insn s))) (\<lambda>i. WRITE_RD insn (scast (word_of_int i :: 32 word))) xlen insn npc s \<and>
    arch (fcvt_wu_h xlen insn pc npc p) =
      round_spec EXT_ZFH False (\<lambda>r. ieee_to_int 10 5 0 (2 ^ 32 - 1) (int_rmode r) True (f16_freg (FRS1 insn s))) (\<lambda>i. WRITE_RD insn (scast (word_of_int i :: 32 word))) xlen insn npc s \<and>
    arch (fcvt_wu_s xlen insn pc npc p) =
      round_spec ext_F False (\<lambda>r. ieee_to_int 23 8 0 (2 ^ 32 - 1) (int_rmode r) True (f32_freg (FRS1 insn s))) (\<lambda>i. WRITE_RD insn (scast (word_of_int i :: 32 word))) xlen insn npc s \<and>
    arch (fcvt_wu_d xlen insn pc npc p) =
      round_spec ext_D False (\<lambda>r. ieee_to_int 52 11 0 (2 ^ 32 - 1) (int_rmode r) True (f64_freg (FRS1 insn s))) (\<lambda>i. WRITE_RD insn (scast (word_of_int i :: 32 word))) xlen insn npc s \<and>
    arch (fcvt_l_h xlen insn pc npc p) =
      round_spec EXT_ZFH True (\<lambda>r. ieee_to_int 10 5 (- (2 ^ 63)) (2 ^ 63 - 1) (int_rmode r) True (f16_freg (FRS1 insn s))) (\<lambda>i. WRITE_RD insn (word_of_int i)) xlen insn npc s \<and>
    arch (fcvt_l_s xlen insn pc npc p) =
      round_spec ext_F True (\<lambda>r. ieee_to_int 23 8 (- (2 ^ 63)) (2 ^ 63 - 1) (int_rmode r) True (f32_freg (FRS1 insn s))) (\<lambda>i. WRITE_RD insn (word_of_int i)) xlen insn npc s \<and>
    arch (fcvt_l_d xlen insn pc npc p) =
      round_spec ext_D True (\<lambda>r. ieee_to_int 52 11 (- (2 ^ 63)) (2 ^ 63 - 1) (int_rmode r) True (f64_freg (FRS1 insn s))) (\<lambda>i. WRITE_RD insn (word_of_int i)) xlen insn npc s \<and>
    arch (fcvt_lu_h xlen insn pc npc p) =
      round_spec EXT_ZFH True (\<lambda>r. ieee_to_int 10 5 0 (2 ^ 64 - 1) (int_rmode r) True (f16_freg (FRS1 insn s))) (\<lambda>i. WRITE_RD insn (word_of_int i)) xlen insn npc s \<and>
    arch (fcvt_lu_s xlen insn pc npc p) =
      round_spec ext_F True (\<lambda>r. ieee_to_int 23 8 0 (2 ^ 64 - 1) (int_rmode r) True (f32_freg (FRS1 insn s))) (\<lambda>i. WRITE_RD insn (word_of_int i)) xlen insn npc s \<and>
    arch (fcvt_lu_d xlen insn pc npc p) =
      round_spec ext_D True (\<lambda>r. ieee_to_int 52 11 0 (2 ^ 64 - 1) (int_rmode r) True (f64_freg (FRS1 insn s))) (\<lambda>i. WRITE_RD insn (word_of_int i)) xlen insn npc s"
  unfolding fcvt_w_h_def fcvt_w_s_def fcvt_w_d_def fcvt_wu_h_def fcvt_wu_s_def fcvt_wu_d_def fcvt_l_h_def fcvt_l_s_def fcvt_l_d_def fcvt_lu_h_def fcvt_lu_s_def fcvt_lu_d_def Let_def assms(2) truncate_READ set_roundingMode_READ
  by (intro conjI; rule round_insn_refines_int [OF assms(1)],
      rule f16_to_signed_spec f16_to_unsigned_spec f32_to_32_spec f32_to_64_spec f64_to_32_spec f64_to_64_spec,
      (rule sext32_sint sext32_uint | simp))

theorem fcvt_to_int_refines_ieee_witness:
  "rv_inv 64 example_state \<and> arch (fcvt_wu_s 64 0xc0101053 0 4 example_state) =
    round_spec ext_F False (\<lambda>r. ieee_to_int 23 8 0 (2 ^ 32 - 1) (int_rmode r) True (f32_freg (FRS1 0xc0101053 (arch_t.truncate example_state))))
      (\<lambda>i. WRITE_RD 0xc0101053 (scast (word_of_int i :: 32 word))) 64 0xc0101053 4 (arch_t.truncate example_state)"
  using fcvt_to_int_refines_ieee [OF example_inv refl, of "0xc0101053" 0 4] example_inv by blast

text \<open>
  C19.  The comparisons write the truth value of the relation between the operands' values, minimum and
  maximum the NaN-boxed operand that is first or last: also where the code copies the raw register.
\<close>

theorem fp_compare_refines_ieee:
  assumes "rv_inv xlen p" and "s = arch_t.truncate p"
  shows "arch (feq_h xlen insn pc npc p) =
      plain_spec EXT_ZFH (fp_cmp 10 5 False val_eq (f16_freg (FRS1 insn s)) (f16_freg (FRS2 insn s))) (\<lambda>z. WRITE_RD insn (of_bool z)) xlen insn npc s \<and>
    arch (feq_s xlen insn pc npc p) =
      plain_spec ext_F (fp_cmp 23 8 False val_eq (f32_freg (FRS1 insn s)) (f32_freg (FRS2 insn s))) (\<lambda>z. WRITE_RD insn (of_bool z)) xlen insn npc s \<and>
    arch (feq_d xlen insn pc npc p) =
      plain_spec ext_D (fp_cmp 52 11 False val_eq (f64_freg (FRS1 insn s)) (f64_freg (FRS2 insn s))) (\<lambda>z. WRITE_RD insn (of_bool z)) xlen insn npc s \<and>
    arch (fle_h xlen insn pc npc p) =
      plain_spec EXT_ZFH (fp_cmp 10 5 True val_le (f16_freg (FRS1 insn s)) (f16_freg (FRS2 insn s))) (\<lambda>z. WRITE_RD insn (of_bool z)) xlen insn npc s \<and>
    arch (fle_s xlen insn pc npc p) =
      plain_spec ext_F (fp_cmp 23 8 True val_le (f32_freg (FRS1 insn s)) (f32_freg (FRS2 insn s))) (\<lambda>z. WRITE_RD insn (of_bool z)) xlen insn npc s \<and>
    arch (fle_d xlen insn pc npc p) =
      plain_spec ext_D (fp_cmp 52 11 True val_le (f64_freg (FRS1 insn s)) (f64_freg (FRS2 insn s))) (\<lambda>z. WRITE_RD insn (of_bool z)) xlen insn npc s \<and>
    arch (flt_h xlen insn pc npc p) =
      plain_spec EXT_ZFH (fp_cmp 10 5 True val_lt (f16_freg (FRS1 insn s)) (f16_freg (FRS2 insn s))) (\<lambda>z. WRITE_RD insn (of_bool z)) xlen insn npc s \<and>
    arch (flt_s xlen insn pc npc p) =
      plain_spec ext_F (fp_cmp 23 8 True val_lt (f32_freg (FRS1 insn s)) (f32_freg (FRS2 insn s))) (\<lambda>z. WRITE_RD insn (of_bool z)) xlen insn npc s \<and>
    arch (flt_d xlen insn pc npc p) =
      plain_spec ext_D (fp_cmp 52 11 True val_lt (f64_freg (FRS1 insn s)) (f64_freg (FRS2 insn s))) (\<lambda>z. WRITE_RD insn (of_bool z)) xlen insn npc s \<and>
    arch (fmin_h xlen insn pc npc p) =
      plain_spec EXT_ZFH (fp_maxmin 10 5 False (f16_freg (FRS1 insn s)) (f16_freg (FRS2 insn s))) (\<lambda>z. WRITE_FRD xlen insn (freg_f16 z)) xlen insn npc s \<and>
    arch (fmin_s xlen insn pc npc p) =
      plain_spec ext_F (fp_maxmin 23 8 False (f32_freg (FRS1 insn s)) (f32_freg (FRS2 insn s))) (\<lambda>z. WRITE_FRD xlen insn (freg_f32 z)) xlen insn npc s \<and>
    arch (fmin_d xlen insn pc npc p) =
      plain_spec ext_D (fp_maxmin 52 11 False (f64_freg (FRS1 insn s)) (f64_freg (FRS2 insn s))) (\<lambda>z. WRITE_FRD xlen insn (freg_f64 z)) xlen insn npc s \<and>
    arch (fmax_h xlen insn pc npc p) =
      plain_spec EXT_ZFH (fp_maxmin 10 5 True (f16_freg (FRS1 insn s)) (f16_freg (FRS2 insn s))) (\<lambda>z. WRITE_FRD xlen insn (freg_f16 z)) xlen insn npc s \<and>
    arch (fmax_s xlen insn pc npc p) =
      plain_spec ext_F (fp_maxmin 23 8 True (f32_freg (FRS1 insn s)) (f32_freg (FRS2 insn s))) (\<lambda>z. WRITE_FRD xlen insn (freg_f32 z)) xlen insn npc s \<and>
    arch (fmax_d xlen insn pc npc p) =
      plain_spec ext_D (fp_maxmin 52 11 True (f64_freg (FRS1 insn s)) (f64_freg (FRS2 insn s))) (\<lambda>z. WRITE_FRD xlen insn (freg_f64 z)) xlen insn npc s"
  unfolding feq_h_def feq_s_def feq_d_def fle_h_def fle_s_def fle_d_def flt_h_def flt_s_def flt_d_def minmax_code Let_def compare_fun assms(2) truncate_READ
  by (intro conjI plain_refines assms(1) writes_intros modeless_specs)

theorem fp_compare_refines_ieee_witness:
  "rv_inv 64 example_state \<and> arch (fmin_s 64 0x28208053 0 4 example_state) =
    plain_spec ext_F (fp_maxmin 23 8 False (f32_freg (FRS1 0x28208053 (arch_t.truncate example_state))) (f32_freg (FRS2 0x28208053 (arch_t.truncate example_state))))
      (\<lambda>z. WRITE_FRD 64 0x28208053 (freg_f32 z)) 64 0x28208053 4 (arch_t.truncate example_state)"
  using fp_compare_refines_ieee [OF example_inv refl, of "0x28208053" 0 4] example_inv by blast

end
