(* ===== verification/RV_FP_Safety.thy ===== *)
theory RV_FP_Safety
  imports RV_FP_Spec
begin

text \<open>
  Properties of all floating-point instructions together: when they are illegal, that they keep the
  state's invariant, that exceptions and the dirty status only accumulate, that every register they
  write is a valid NaN box, and that bits moved to a floating-point register come back unchanged.
\<close>

section \<open>The instructions\<close>

text \<open>Each body with its extension, and whether it needs RV64 and a rounding mode.\<close>

definition fp_table :: "(insn_body \<times> nat \<times> bool \<times> bool) list" where
  "fp_table =
    [(fadd_s, ext_F, False, True), (fadd_d, ext_D, False, True), (fsub_s, ext_F, False, True),
    (fsub_d, ext_D, False, True), (fmul_h, EXT_ZFH, False, True), (fmul_s, ext_F, False, True),
    (fmul_d, ext_D, False, True), (fcvt_h_w, EXT_ZFH, False, True), (fcvt_s_w, ext_F, False, True),
    (fcvt_d_w, ext_D, False, True), (fcvt_h_wu, EXT_ZFH, False, True), (fcvt_s_wu, ext_F, False, True),
    (fcvt_d_wu, ext_D, False, True), (fcvt_h_l, EXT_ZFH, True, True), (fcvt_s_l, ext_F, True, True),
    (fcvt_d_l, ext_D, True, True), (fcvt_h_lu, EXT_ZFH, True, True), (fcvt_s_lu, ext_F, True, True),
    (fcvt_d_lu, ext_D, True, True), (fcvt_w_h, EXT_ZFH, False, True), (fcvt_w_s, ext_F, False, True),
    (fcvt_w_d, ext_D, False, True), (fcvt_wu_h, EXT_ZFH, False, True), (fcvt_wu_s, ext_F, False, True),
    (fcvt_wu_d, ext_D, False, True), (fcvt_l_h, EXT_ZFH, True, True), (fcvt_l_s, ext_F, True, True),
    (fcvt_l_d, ext_D, True, True), (fcvt_lu_h, EXT_ZFH, True, True), (fcvt_lu_s, ext_F, True, True),
    (fcvt_lu_d, ext_D, True, True), (feq_h, EXT_ZFH, False, False), (feq_s, ext_F, False, False),
    (feq_d, ext_D, False, False), (fle_h, EXT_ZFH, False, False), (fle_s, ext_F, False, False),
    (fle_d, ext_D, False, False), (flt_h, EXT_ZFH, False, False), (flt_s, ext_F, False, False),
    (flt_d, ext_D, False, False), (fclass_h, EXT_ZFH, False, False), (fclass_s, ext_F, False, False),
    (fclass_d, ext_D, False, False), (fmin_h, EXT_ZFH, False, False), (fmin_s, ext_F, False, False),
    (fmin_d, ext_D, False, False), (fmax_h, EXT_ZFH, False, False), (fmax_s, ext_F, False, False),
    (fmax_d, ext_D, False, False), (fsgnj_h, EXT_ZFH, False, False), (fsgnjn_h, EXT_ZFH, False, False),
    (fsgnjx_h, EXT_ZFH, False, False), (fsgnj_s, ext_F, False, False), (fsgnjn_s, ext_F, False, False),
    (fsgnjx_s, ext_F, False, False), (fsgnj_d, ext_D, False, False), (fsgnjn_d, ext_D, False, False),
    (fsgnjx_d, ext_D, False, False), (fmv_h_x, EXT_ZFH, False, False), (fmv_w_x, ext_F, False, False),
    (fmv_d_x, ext_D, True, False), (fmv_x_h, EXT_ZFH, False, False), (fmv_x_w, ext_F, False, False),
    (fmv_x_d, ext_D, True, False)]"

lemma list_all_Nil: "list_all P []"
  by simp

section \<open>Illegal instructions\<close>

definition legal :: "nat \<Rightarrow> bool \<Rightarrow> bool \<Rightarrow> nat \<Rightarrow> insn_bits_t \<Rightarrow> processor_t \<Rightarrow> bool" where
  "legal ext rv64 rm xlen insn p \<longleftrightarrow> fp_enabled ext rv64 xlen p \<and> (rm \<longrightarrow> rm_of insn p \<noteq> None)"

definition guarded :: "nat \<Rightarrow> insn_bits_t \<Rightarrow> reg_t \<Rightarrow> reg_t \<Rightarrow> processor_t \<Rightarrow> insn_body \<times> nat \<times> bool \<times> bool \<Rightarrow> bool" where
  "guarded xlen insn pc npc p entry \<longleftrightarrow>
     (case entry of (body, ext, rv64, rm) \<Rightarrow>
       if legal ext rv64 rm xlen insn p then \<exists>p'. body xlen insn pc npc p = Inr (npc, p')
       else body xlen insn pc npc p = illegal insn)"

lemma guarded_arith:
  assumes "rv_inv xlen p"
  shows
    "guarded xlen insn pc npc p (fadd_s, ext_F, False, True)"
    "guarded xlen insn pc npc p (fadd_d, ext_D, False, True)"
    "guarded xlen insn pc npc p (fsub_s, ext_F, False, True)"
    "guarded xlen insn pc npc p (fsub_d, ext_D, False, True)"
    "guarded xlen insn pc npc p (fmul_h, EXT_ZFH, False, True)"
    "guarded xlen insn pc npc p (fmul_s, ext_F, False, True)"
    "guarded xlen insn pc npc p (fmul_d, ext_D, False, True)"
  unfolding guarded_def legal_def prod.case
  unfolding fadd_s_def fadd_d_def fsub_s_def fsub_d_def fmul_h_def fmul_s_def fmul_d_def Let_def
    checks_enabled(1) [where xlen = xlen] checks_enabled(2) RM_rm_of [OF assms]
  by (auto split: option.splits prod.splits)

lemma guarded_from_int:
  assumes "rv_inv xlen p"
  shows
    "guarded xlen insn pc npc p (fcvt_h_w, EXT_ZFH, False, True)"
    "guarded xlen insn pc npc p (fcvt_s_w, ext_F, False, True)"
    "guarded xlen insn pc npc p (fcvt_d_w, ext_D, False, True)"
    "guarded xlen insn pc npc p (fcvt_h_wu, EXT_ZFH, False, True)"
    "guarded xlen insn pc npc p (fcvt_s_wu, ext_F, False, True)"
    "guarded xlen insn pc npc p (fcvt_d_wu, ext_D, False, True)"
    "guarded xlen insn pc npc p (fcvt_h_l, EXT_ZFH, True, True)"
    "guarded xlen insn pc npc p (fcvt_s_l, ext_F, True, True)"
    "guarded xlen insn pc npc p (fcvt_d_l, ext_D, True, True)"
    "guarded xlen insn pc npc p (fcvt_h_lu, EXT_ZFH, True, True)"
    "guarded xlen insn pc npc p (fcvt_s_lu, ext_F, True, True)"
    "guarded xlen insn pc npc p (fcvt_d_lu, ext_D, True, True)"
  unfolding guarded_def legal_def prod.case
  unfolding fcvt_h_w_def fcvt_s_w_def fcvt_d_w_def fcvt_h_wu_def fcvt_s_wu_def fcvt_d_wu_def fcvt_h_l_def fcvt_s_l_def fcvt_d_l_def fcvt_h_lu_def fcvt_s_lu_def fcvt_d_lu_def Let_def
    checks_enabled(1) [where xlen = xlen] checks_enabled(2) RM_rm_of [OF assms]
  by (auto split: option.splits prod.splits)

lemma guarded_to_int:
  assumes "rv_inv xlen p"
  shows
    "guarded xlen insn pc npc p (fcvt_w_h, EXT_ZFH, False, True)"
    "guarded xlen insn pc npc p (fcvt_w_s, ext_F, False, True)"
    "guarded xlen insn pc npc p (fcvt_w_d, ext_D, False, True)"
    "guarded xlen insn pc npc p (fcvt_wu_h, EXT_ZFH, False, True)"
    "guarded xlen insn pc npc p (fcvt_wu_s, ext_F, False, True)"
    "guarded xlen insn pc npc p (fcvt_wu_d, ext_D, False, True)"
    "guarded xlen insn pc npc p (fcvt_l_h, EXT_ZFH, True, True)"
    "guarded xlen insn pc npc p (fcvt_l_s, ext_F, True, True)"
    "guarded xlen insn pc npc p (fcvt_l_d, ext_D, True, True)"
    "guarded xlen insn pc npc p (fcvt_lu_h, EXT_ZFH, True, True)"
    "guarded xlen insn pc npc p (fcvt_lu_s, ext_F, True, True)"
    "guarded xlen insn pc npc p (fcvt_lu_d, ext_D, True, True)"
  unfolding guarded_def legal_def prod.case
  unfolding fcvt_w_h_def fcvt_w_s_def fcvt_w_d_def fcvt_wu_h_def fcvt_wu_s_def fcvt_wu_d_def fcvt_l_h_def fcvt_l_s_def fcvt_l_d_def fcvt_lu_h_def fcvt_lu_s_def fcvt_lu_d_def Let_def
    checks_enabled(1) [where xlen = xlen] checks_enabled(2) RM_rm_of [OF assms]
  by (auto split: option.splits prod.splits)

lemma guarded_compare:
  assumes "rv_inv xlen p"
  shows
    "guarded xlen insn pc npc p (feq_h, EXT_ZFH, False, False)"
    "guarded xlen insn pc npc p (feq_s, ext_F, False, False)"
    "guarded xlen insn pc npc p (feq_d, ext_D, False, False)"
    "guarded xlen insn pc npc p (fle_h, EXT_ZFH, False, False)"
    "guarded xlen insn pc npc p (fle_s, ext_F, False, False)"
    "guarded xlen insn pc npc p (fle_d, ext_D, False, False)"
    "guarded xlen insn pc npc p (flt_h, EXT_ZFH, False, False)"
    "guarded xlen insn pc npc p (flt_s, ext_F, False, False)"
    "guarded xlen insn pc npc p (flt_d, ext_D, False, False)"
  unfolding guarded_def legal_def prod.case
  unfolding feq_h_def feq_s_def feq_d_def fle_h_def fle_s_def fle_d_def flt_h_def flt_s_def flt_d_def Let_def
    checks_enabled(1) [where xlen = xlen] checks_enabled(2) RM_rm_of [OF assms]
  by (auto split: option.splits prod.splits)

lemma guarded_class:
  assumes "rv_inv xlen p"
  shows
    "guarded xlen insn pc npc p (fclass_h, EXT_ZFH, False, False)"
    "guarded xlen insn pc npc p (fclass_s, ext_F, False, False)"
    "guarded xlen insn pc npc p (fclass_d, ext_D, False, False)"
  unfolding guarded_def legal_def prod.case
  unfolding fclass_h_def fclass_s_def fclass_d_def Let_def
    checks_enabled(1) [where xlen = xlen] checks_enabled(2) RM_rm_of [OF assms]
  by (auto split: option.splits prod.splits)

lemma guarded_minmax:
  assumes "rv_inv xlen p"
  shows
    "guarded xlen insn pc npc p (fmin_h, EXT_ZFH, False, False)"
    "guarded xlen insn pc npc p (fmin_s, ext_F, False, False)"
    "guarded xlen insn pc npc p (fmin_d, ext_D, False, False)"
    "guarded xlen insn pc npc p (fmax_h, EXT_ZFH, False, False)"
    "guarded xlen insn pc npc p (fmax_s, ext_F, False, False)"
    "guarded xlen insn pc npc p (fmax_d, ext_D, False, False)"
  unfolding guarded_def legal_def prod.case
  unfolding minmax_code Let_def
    checks_enabled(1) [where xlen = xlen] checks_enabled(2) RM_rm_of [OF assms]
  by (auto split: option.splits prod.splits)

lemma guarded_sgnj:
  assumes "rv_inv xlen p"
  shows
    "guarded xlen insn pc npc p (fsgnj_h, EXT_ZFH, False, False)"
    "guarded xlen insn pc npc p (fsgnjn_h, EXT_ZFH, False, False)"
    "guarded xlen insn pc npc p (fsgnjx_h, EXT_ZFH, False, False)"
    "guarded xlen insn pc npc p (fsgnj_s, ext_F, False, False)"
    "guarded xlen insn pc npc p (fsgnjn_s, ext_F, False, False)"
    "guarded xlen insn pc npc p (fsgnjx_s, ext_F, False, False)"
    "guarded xlen insn pc npc p (fsgnj_d, ext_D, False, False)"
    "guarded xlen insn pc npc p (fsgnjn_d, ext_D, False, False)"
    "guarded xlen insn pc npc p (fsgnjx_d, ext_D, False, False)"
  unfolding guarded_def legal_def prod.case
  unfolding fsgnj_h_def fsgnjn_h_def fsgnjx_h_def fsgnj_s_def fsgnjn_s_def fsgnjx_s_def fsgnj_d_def fsgnjn_d_def fsgnjx_d_def Let_def
    checks_enabled(1) [where xlen = xlen] checks_enabled(2) RM_rm_of [OF assms]
  by (auto split: option.splits prod.splits)

lemma guarded_fmv:
  assumes "rv_inv xlen p"
  shows
    "guarded xlen insn pc npc p (fmv_h_x, EXT_ZFH, False, False)"
    "guarded xlen insn pc npc p (fmv_w_x, ext_F, False, False)"
    "guarded xlen insn pc npc p (fmv_d_x, ext_D, True, False)"
    "guarded xlen insn pc npc p (fmv_x_h, EXT_ZFH, False, False)"
    "guarded xlen insn pc npc p (fmv_x_w, ext_F, False, False)"
    "guarded xlen insn pc npc p (fmv_x_d, ext_D, True, False)"
  unfolding guarded_def legal_def prod.case
  unfolding fmv_h_x_def fmv_w_x_def fmv_d_x_def fmv_x_h_def fmv_x_w_def fmv_x_d_def Let_def
    checks_enabled(1) [where xlen = xlen] checks_enabled(2) RM_rm_of [OF assms]
  by (auto split: option.splits prod.splits)

text \<open>
  C16.  A floating-point instruction is illegal exactly when its extension is missing, the unit is off,
  it needs RV64 and the width is 32, or its rounding mode, static or dynamic, is a reserved one; every
  other execution completes and continues at the next instruction.
\<close>

theorem fp_illegal_exactly:
  assumes "rv_inv xlen p"
  shows "list_all (guarded xlen insn pc npc p) fp_table"
  unfolding fp_table_def list.pred_inject
  by (intro conjI guarded_arith guarded_from_int guarded_to_int guarded_compare guarded_class guarded_minmax guarded_sgnj guarded_fmv list_all_Nil) (rule assms)+

theorem fp_illegal_exactly_witness:
  "rv_inv 64 example_state \<and> list_all (guarded 64 0x02317053 0 4 example_state) fp_table"
  using fp_illegal_exactly [OF example_inv, of "0x02317053" 0 4] example_inv by blast

section \<open>The invariant\<close>

text \<open>
  C15.  Every floating-point instruction keeps the invariant of the state: register files, sign-extended
  integer registers, defined flags, a summarised dirty bit, and no exception of SoftFloat left pending.
\<close>

theorem fp_keeps_invariant:
  assumes "valid_xlen xlen" "rv_inv xlen p"
  shows "list_all (\<lambda>(body, _). keeps xlen (body xlen insn pc npc p)) fp_table"
  unfolding fp_table_def list.pred_inject prod.case
  by (intro conjI keeps_arith keeps_from_int keeps_to_int keeps_compare keeps_class keeps_minmax keeps_sgnj keeps_fmv list_all_Nil) (rule assms)+

theorem fp_keeps_invariant_witness:
  "list_all (\<lambda>(body, _). keeps 64 (body 64 0x02317053 0 4 example_state)) fp_table"
  using fp_keeps_invariant [of 64 example_state "0x02317053" 0 4] example_inv by (simp add: valid_xlen_def)

section \<open>Exceptions accumulate\<close>

definition grows :: "processor_t \<Rightarrow> processor_t \<Rightarrow> bool" where
  "grows p p' \<longleftrightarrow>
     fflags p OR fflags p' = fflags p' \<and> mstatus p OR mstatus p' = mstatus p' \<and>
     frm p' = frm p \<and> misa p' = misa p \<and> extension_table p' = extension_table p"

definition grown :: "processor_t \<Rightarrow> processor_t outcome \<Rightarrow> bool" where
  "grown p r \<longleftrightarrow> (case r of Inl t \<Rightarrow> True | Inr (npc, p') \<Rightarrow> grows p p')"

lemma grows_refl: "grows p p"
  by (simp add: grows_def)

lemma grown_rules:
  "grown p k \<Longrightarrow> grown p (require_extension ext insn q k)"
  "grown p k \<Longrightarrow> grown p (require_fp insn q k)"
  "grown p k \<Longrightarrow> grown p (require_rv64 xlen insn k)"
  "(\<And>rm. grown p (f rm)) \<Longrightarrow> grown p (RM insn q f)"
  "grows p q \<Longrightarrow> grown p (Inr (npc, q))"
  by (simp_all add: grown_def require_def require_extension_def require_fp_def require_rv64_def RM_def Let_def)

lemma grown_soft:
  "(\<And>z q'. grows p q' \<Longrightarrow> grown p (f z q')) \<Longrightarrow> grows p q \<Longrightarrow> grown p (case soft op q of (z, q') \<Rightarrow> f z q')"
  by (auto simp: soft_def grows_def split: prod.splits)

lemma or_grow: "(a OR b = b) \<Longrightarrow> a OR (b OR c) = (b OR c :: 'a::len word)"
  by (metis or.assoc)

lemma grows_steps:
  "grows p q \<Longrightarrow> grows p (WRITE_RD insn v q)"
  "grows p q \<Longrightarrow> grows p (WRITE_FRD xlen insn w q)"
  "grows p q \<Longrightarrow> grows p (set_roundingMode rm q)"
  "grows p q \<Longrightarrow> grows p (set_fp_exceptions xlen q)"
  by (simp_all add: grows_def WRITE_RD_def WRITE_REG_def WRITE_FRD_def DO_WRITE_FREG_def dirty_fp_state_def
      set_roundingMode_def set_fp_exceptions_def Let_def or_grow)

lemma grown_arith:
    "grown p (fadd_s xlen insn pc npc p)" "grown p (fadd_d xlen insn pc npc p)"
    "grown p (fsub_s xlen insn pc npc p)" "grown p (fsub_d xlen insn pc npc p)"
    "grown p (fmul_h xlen insn pc npc p)" "grown p (fmul_s xlen insn pc npc p)"
    "grown p (fmul_d xlen insn pc npc p)"
  unfolding fadd_s_def fadd_d_def fsub_s_def fsub_d_def fmul_h_def fmul_s_def fmul_d_def Let_def
  by (assumption | rule grown_rules grown_soft grows_steps grows_refl)+

lemma grown_from_int:
    "grown p (fcvt_h_w xlen insn pc npc p)" "grown p (fcvt_s_w xlen insn pc npc p)"
    "grown p (fcvt_d_w xlen insn pc npc p)" "grown p (fcvt_h_wu xlen insn pc npc p)"
    "grown p (fcvt_s_wu xlen insn pc npc p)" "grown p (fcvt_d_wu xlen insn pc npc p)"
    "grown p (fcvt_h_l xlen insn pc npc p)" "grown p (fcvt_s_l xlen insn pc npc p)"
    "grown p (fcvt_d_l xlen insn pc npc p)" "grown p (fcvt_h_lu xlen insn pc npc p)"
    "grown p (fcvt_s_lu xlen insn pc npc p)" "grown p (fcvt_d_lu xlen insn pc npc p)"
  unfolding fcvt_h_w_def fcvt_s_w_def fcvt_d_w_def fcvt_h_wu_def fcvt_s_wu_def fcvt_d_wu_def fcvt_h_l_def fcvt_s_l_def fcvt_d_l_def fcvt_h_lu_def fcvt_s_lu_def fcvt_d_lu_def Let_def
  by (assumption | rule grown_rules grown_soft grows_steps grows_refl)+

lemma grown_to_int:
    "grown p (fcvt_w_h xlen insn pc npc p)" "grown p (fcvt_w_s xlen insn pc npc p)"
    "grown p (fcvt_w_d xlen insn pc npc p)" "grown p (fcvt_wu_h xlen insn pc npc p)"
    "grown p (fcvt_wu_s xlen insn pc npc p)" "grown p (fcvt_wu_d xlen insn pc npc p)"
    "grown p (fcvt_l_h xlen insn pc npc p)" "grown p (fcvt_l_s xlen insn pc npc p)"
    "grown p (fcvt_l_d xlen insn pc npc p)" "grown p (fcvt_lu_h xlen insn pc npc p)"
    "grown p (fcvt_lu_s xlen insn pc npc p)" "grown p (fcvt_lu_d xlen insn pc npc p)"
  unfolding fcvt_w_h_def fcvt_w_s_def fcvt_w_d_def fcvt_wu_h_def fcvt_wu_s_def fcvt_wu_d_def fcvt_l_h_def fcvt_l_s_def fcvt_l_d_def fcvt_lu_h_def fcvt_lu_s_def fcvt_lu_d_def Let_def
  by (assumption | rule grown_rules grown_soft grows_steps grows_refl)+

lemma grown_compare:
    "grown p (feq_h xlen insn pc npc p)" "grown p (feq_s xlen insn pc npc p)"
    "grown p (feq_d xlen insn pc npc p)" "grown p (fle_h xlen insn pc npc p)"
    "grown p (fle_s xlen insn pc npc p)" "grown p (fle_d xlen insn pc npc p)"
    "grown p (flt_h xlen insn pc npc p)" "grown p (flt_s xlen insn pc npc p)"
    "grown p (flt_d xlen insn pc npc p)"
  unfolding feq_h_def feq_s_def feq_d_def fle_h_def fle_s_def fle_d_def flt_h_def flt_s_def flt_d_def Let_def
  by (assumption | rule grown_rules grown_soft grows_steps grows_refl)+

lemma grown_class:
    "grown p (fclass_h xlen insn pc npc p)" "grown p (fclass_s xlen insn pc npc p)"
    "grown p (fclass_d xlen insn pc npc p)"
  unfolding fclass_h_def fclass_s_def fclass_d_def Let_def
  by (assumption | rule grown_rules grown_soft grows_steps grows_refl)+

lemma grown_minmax:
    "grown p (fmin_h xlen insn pc npc p)" "grown p (fmin_s xlen insn pc npc p)"
    "grown p (fmin_d xlen insn pc npc p)" "grown p (fmax_h xlen insn pc npc p)"
    "grown p (fmax_s xlen insn pc npc p)" "grown p (fmax_d xlen insn pc npc p)"
  unfolding minmax_code Let_def
  by (assumption | rule grown_rules grown_soft grows_steps grows_refl)+

lemma grown_sgnj:
    "grown p (fsgnj_h xlen insn pc npc p)" "grown p (fsgnjn_h xlen insn pc npc p)"
    "grown p (fsgnjx_h xlen insn pc npc p)" "grown p (fsgnj_s xlen insn pc npc p)"
    "grown p (fsgnjn_s xlen insn pc npc p)" "grown p (fsgnjx_s xlen insn pc npc p)"
    "grown p (fsgnj_d xlen insn pc npc p)" "grown p (fsgnjn_d xlen insn pc npc p)"
    "grown p (fsgnjx_d xlen insn pc npc p)"
  unfolding fsgnj_h_def fsgnjn_h_def fsgnjx_h_def fsgnj_s_def fsgnjn_s_def fsgnjx_s_def fsgnj_d_def fsgnjn_d_def fsgnjx_d_def Let_def
  by (assumption | rule grown_rules grown_soft grows_steps grows_refl)+

lemma grown_fmv:
    "grown p (fmv_h_x xlen insn pc npc p)" "grown p (fmv_w_x xlen insn pc npc p)"
    "grown p (fmv_d_x xlen insn pc npc p)" "grown p (fmv_x_h xlen insn pc npc p)"
    "grown p (fmv_x_w xlen insn pc npc p)" "grown p (fmv_x_d xlen insn pc npc p)"
  unfolding fmv_h_x_def fmv_w_x_def fmv_d_x_def fmv_x_h_def fmv_x_w_def fmv_x_d_def Let_def
  by (assumption | rule grown_rules grown_soft grows_steps grows_refl)+

text \<open>
  C21.  Exceptions are sticky: no floating-point instruction clears a flag of \<^verbatim>\<open>fflags\<close> or a bit of
  \<^verbatim>\<open>mstatus\<close>, or changes the dynamic rounding mode or the set of extensions.
\<close>

theorem fp_exceptions_sticky:
  "list_all (\<lambda>(body, _). grown p (body xlen insn pc npc p)) fp_table"
  unfolding fp_table_def list.pred_inject prod.case
  by (intro conjI grown_arith grown_from_int grown_to_int grown_compare grown_class grown_minmax grown_sgnj grown_fmv list_all_Nil)

section \<open>NaN boxing\<close>

definition boxes :: "(freg_t \<Rightarrow> bool) \<Rightarrow> insn_bits_t \<Rightarrow> processor_t outcome \<Rightarrow> bool" where
  "boxes B insn r \<longleftrightarrow> (case r of Inl t \<Rightarrow> True | Inr (npc, p') \<Rightarrow> B (FPR p' ! unat (insn_rd insn)))"

lemma boxes_rules:
  "boxes B insn k \<Longrightarrow> boxes B insn (require_extension ext insn q k)"
  "boxes B insn k \<Longrightarrow> boxes B insn (require_fp insn q k)"
  "boxes B insn k \<Longrightarrow> boxes B insn (require_rv64 xlen insn k)"
  "(\<And>rm. boxes B insn (f rm)) \<Longrightarrow> boxes B insn (RM insn q f)"
  by (simp_all add: boxes_def require_def require_extension_def require_fp_def require_rv64_def RM_def Let_def)

lemma boxes_write:
  assumes "length (FPR q) = 32" "B v"
  shows "boxes B insn (Inr (npc, WRITE_FRD xlen insn v q))"
    "boxes B insn (Inr (npc, set_fp_exceptions xlen (WRITE_FRD xlen insn v q)))"
  using assms reg_lt_32(1) [of insn]
  by (simp_all add: boxes_def WRITE_FRD_def DO_WRITE_FREG_def dirty_fp_state_def regfile_write_def
      set_fp_exceptions_def Let_def)

lemma boxes_soft:
  "(\<And>z q'. length (FPR q') = 32 \<Longrightarrow> boxes B insn (f z q')) \<Longrightarrow> length (FPR q) = 32 \<Longrightarrow>
   boxes B insn (case soft op q of (z, q') \<Rightarrow> f z q')"
  by (auto simp: soft_def split: prod.splits)

lemma FPR_roundingMode: "length (FPR q) = 32 \<Longrightarrow> length (FPR (set_roundingMode rm q)) = 32"
  by (simp add: set_roundingMode_def)

definition frd_table :: "(insn_body \<times> (freg_t \<Rightarrow> bool)) list" where
  "frd_table =
    [(fadd_s, isBoxedF32), (fadd_d, isBoxedF64), (fsub_s, isBoxedF32), (fsub_d, isBoxedF64),
    (fmul_h, isBoxedF16), (fmul_s, isBoxedF32), (fmul_d, isBoxedF64), (fcvt_h_w, isBoxedF16),
    (fcvt_s_w, isBoxedF32), (fcvt_d_w, isBoxedF64), (fcvt_h_wu, isBoxedF16), (fcvt_s_wu, isBoxedF32),
    (fcvt_d_wu, isBoxedF64), (fcvt_h_l, isBoxedF16), (fcvt_s_l, isBoxedF32), (fcvt_d_l, isBoxedF64),
    (fcvt_h_lu, isBoxedF16), (fcvt_s_lu, isBoxedF32), (fcvt_d_lu, isBoxedF64), (fmin_h, isBoxedF16),
    (fmin_s, isBoxedF32), (fmin_d, isBoxedF64), (fmax_h, isBoxedF16), (fmax_s, isBoxedF32),
    (fmax_d, isBoxedF64), (fsgnj_h, isBoxedF16), (fsgnjn_h, isBoxedF16), (fsgnjx_h, isBoxedF16),
    (fsgnj_s, isBoxedF32), (fsgnjn_s, isBoxedF32), (fsgnjx_s, isBoxedF32), (fsgnj_d, isBoxedF64),
    (fsgnjn_d, isBoxedF64), (fsgnjx_d, isBoxedF64), (fmv_h_x, isBoxedF16), (fmv_w_x, isBoxedF32),
    (fmv_d_x, isBoxedF64)]"

lemma boxes_arith:
  assumes "length (FPR p) = 32"
  shows
    "boxes isBoxedF32 insn (fadd_s xlen insn pc npc p)"
    "boxes isBoxedF64 insn (fadd_d xlen insn pc npc p)"
    "boxes isBoxedF32 insn (fsub_s xlen insn pc npc p)"
    "boxes isBoxedF64 insn (fsub_d xlen insn pc npc p)"
    "boxes isBoxedF16 insn (fmul_h xlen insn pc npc p)"
    "boxes isBoxedF32 insn (fmul_s xlen insn pc npc p)"
    "boxes isBoxedF64 insn (fmul_d xlen insn pc npc p)"
  unfolding fadd_s_def fadd_d_def fsub_s_def fsub_d_def fmul_h_def fmul_s_def fmul_d_def Let_def
  by (assumption | rule boxes_rules boxes_soft boxes_write FPR_roundingMode box_is_boxed assms)+

lemma boxes_from_int:
  assumes "length (FPR p) = 32"
  shows
    "boxes isBoxedF16 insn (fcvt_h_w xlen insn pc npc p)"
    "boxes isBoxedF32 insn (fcvt_s_w xlen insn pc npc p)"
    "boxes isBoxedF64 insn (fcvt_d_w xlen insn pc npc p)"
    "boxes isBoxedF16 insn (fcvt_h_wu xlen insn pc npc p)"
    "boxes isBoxedF32 insn (fcvt_s_wu xlen insn pc npc p)"
    "boxes isBoxedF64 insn (fcvt_d_wu xlen insn pc npc p)"
    "boxes isBoxedF16 insn (fcvt_h_l xlen insn pc npc p)"
    "boxes isBoxedF32 insn (fcvt_s_l xlen insn pc npc p)"
    "boxes isBoxedF64 insn (fcvt_d_l xlen insn pc npc p)"
    "boxes isBoxedF16 insn (fcvt_h_lu xlen insn pc npc p)"
    "boxes isBoxedF32 insn (fcvt_s_lu xlen insn pc npc p)"
    "boxes isBoxedF64 insn (fcvt_d_lu xlen insn pc npc p)"
  unfolding fcvt_h_w_def fcvt_s_w_def fcvt_d_w_def fcvt_h_wu_def fcvt_s_wu_def fcvt_d_wu_def fcvt_h_l_def fcvt_s_l_def fcvt_d_l_def fcvt_h_lu_def fcvt_s_lu_def fcvt_d_lu_def Let_def
  by (assumption | rule boxes_rules boxes_soft boxes_write FPR_roundingMode box_is_boxed assms)+

lemma boxes_minmax:
  assumes "length (FPR p) = 32"
  shows
    "boxes isBoxedF16 insn (fmin_h xlen insn pc npc p)"
    "boxes isBoxedF32 insn (fmin_s xlen insn pc npc p)"
    "boxes isBoxedF64 insn (fmin_d xlen insn pc npc p)"
    "boxes isBoxedF16 insn (fmax_h xlen insn pc npc p)"
    "boxes isBoxedF32 insn (fmax_s xlen insn pc npc p)"
    "boxes isBoxedF64 insn (fmax_d xlen insn pc npc p)"
  unfolding minmax_code Let_def
  by (assumption | rule boxes_rules boxes_soft boxes_write FPR_roundingMode box_is_boxed assms)+

lemma boxes_sgnj:
  assumes "length (FPR p) = 32"
  shows
    "boxes isBoxedF16 insn (fsgnj_h xlen insn pc npc p)"
    "boxes isBoxedF16 insn (fsgnjn_h xlen insn pc npc p)"
    "boxes isBoxedF16 insn (fsgnjx_h xlen insn pc npc p)"
    "boxes isBoxedF32 insn (fsgnj_s xlen insn pc npc p)"
    "boxes isBoxedF32 insn (fsgnjn_s xlen insn pc npc p)"
    "boxes isBoxedF32 insn (fsgnjx_s xlen insn pc npc p)"
    "boxes isBoxedF64 insn (fsgnj_d xlen insn pc npc p)"
    "boxes isBoxedF64 insn (fsgnjn_d xlen insn pc npc p)"
    "boxes isBoxedF64 insn (fsgnjx_d xlen insn pc npc p)"
  unfolding fsgnj_h_def fsgnjn_h_def fsgnjx_h_def fsgnj_s_def fsgnjn_s_def fsgnjx_s_def fsgnj_d_def fsgnjn_d_def fsgnjx_d_def Let_def
  by (assumption | rule boxes_rules boxes_soft boxes_write FPR_roundingMode box_is_boxed assms)+

lemma boxes_fmv:
  assumes "length (FPR p) = 32"
  shows
    "boxes isBoxedF16 insn (fmv_h_x xlen insn pc npc p)"
    "boxes isBoxedF32 insn (fmv_w_x xlen insn pc npc p)"
    "boxes isBoxedF64 insn (fmv_d_x xlen insn pc npc p)"
  unfolding fmv_h_x_def fmv_w_x_def fmv_d_x_def Let_def
  by (assumption | rule boxes_rules boxes_soft boxes_write FPR_roundingMode box_is_boxed assms)+

text \<open>
  C20.  Whatever an instruction writes to a floating-point register is a valid NaN box of its format,
  also when minimum and maximum copy a source register unchanged.
\<close>

theorem fp_results_boxed:
  assumes "rv_inv xlen p"
  shows "list_all (\<lambda>(body, B). boxes B insn (body xlen insn pc npc p)) frd_table"
proof -
  have "length (FPR p) = 32" using assms by (simp add: rv_inv_def arch_inv_def)
  then show ?thesis
    unfolding frd_table_def list.pred_inject prod.case
    by (intro conjI boxes_arith boxes_from_int boxes_minmax boxes_sgnj boxes_fmv list_all_Nil)
qed

theorem fp_results_boxed_witness:
  "rv_inv 64 example_state \<and> list_all (\<lambda>(body, B). boxes B 0x28208053 (body 64 0x28208053 0 4 example_state)) frd_table"
  using fp_results_boxed [OF example_inv, of "0x28208053" 0 4] example_inv by blast

section \<open>Moves and sign injection\<close>

lemma fp_enabled_simps:
  "fp_enabled ext rv64 xlen (WRITE_RD insn v p) = fp_enabled ext rv64 xlen p"
  "fp_enabled ext rv64 xlen p \<Longrightarrow> fp_enabled ext rv64 xlen (WRITE_FRD xlen insn w p)"
  by (auto simp: fp_enabled_def supports_extension_def WRITE_RD_def WRITE_REG_def WRITE_FRD_def DO_WRITE_FREG_def
      dirty_fp_state_def bit.conj_disj_distrib2)

lemma FRS1_WRITE_FRD:
  "length (FPR p) = 32 \<Longrightarrow> insn_rs1 insn' = insn_rd insn \<Longrightarrow> FRS1 insn' (WRITE_FRD xlen insn v p) = v"
  using reg_lt_32(1) [of insn]
  by (simp add: FRS1_def READ_FREG_def WRITE_FRD_def DO_WRITE_FREG_def dirty_fp_state_def regfile_write_def)

lemma freg_low:
  "sext32 (fv0 (freg_f32 (ucast x))) = sext32 x"
  "sext32 (scast (ucast (fv0 (freg_f16 (ucast x))) :: 16 word)) = scast (ucast x :: 16 word)"
  "fv0 (freg_f64 x) = x"
proof -
  have "(ucast (push_bit 32 (- 1) OR ucast (ucast x :: uint32_t) :: uint64_t) :: 32 word) = ucast x"
    "(ucast (push_bit 16 (- 1) OR ucast (ucast x :: uint16_t) :: uint64_t) :: 16 word) = ucast x"
    by (rule bit_word_eqI; auto simp: bit_simps)+
  moreover have "sext32 (scast y) = scast y" for y :: "16 word"
  proof (rule bit_word_eqI)
    fix n assume "n < LENGTH(64)"
    moreover have "min 15 (min 31 n) = min 15 n" by simp
    ultimately show "bit (sext32 (scast y)) n = bit (scast y :: 64 word) n"
      by (auto simp: bit_sext32 bit_simps)
  qed
  ultimately show "sext32 (fv0 (freg_f32 (ucast x))) = sext32 x"
    "sext32 (scast (ucast (fv0 (freg_f16 (ucast x))) :: 16 word)) = scast (ucast x :: 16 word)" "fv0 (freg_f64 x) = x"
    by (simp_all only: sext32_def freg_f16_def freg_f32_def freg_f64_def freg_t.select_convs)
qed

definition and_then :: "processor_t outcome \<Rightarrow> (processor_t \<Rightarrow> processor_t outcome) \<Rightarrow> processor_t outcome" where
  "and_then r k = (case r of Inl t \<Rightarrow> Inl t | Inr (npc, p) \<Rightarrow> k p)"

text \<open>
  Moving an integer register to a floating-point register and that register back gives the low
  half, word or double word of the integer, sign-extended.
\<close>

lemma fmv_roundtrip:
  assumes "rv_inv xlen p" "insn_rs1 insn' = insn_rd insn"
  shows "(fp_enabled ext_F False xlen p \<longrightarrow>
      and_then (fmv_w_x xlen insn pc npc p) (fmv_x_w xlen insn' pc' npc') =
      Inr (npc', WRITE_RD insn' (sext32 (RS1 insn p)) (WRITE_FRD xlen insn (freg_f32 (ucast (RS1 insn p))) p))) \<and>
    (fp_enabled EXT_ZFH False xlen p \<longrightarrow>
      and_then (fmv_h_x xlen insn pc npc p) (fmv_x_h xlen insn' pc' npc') =
      Inr (npc', WRITE_RD insn' (scast (ucast (RS1 insn p) :: 16 word)) (WRITE_FRD xlen insn (freg_f16 (ucast (RS1 insn p))) p))) \<and>
    (fp_enabled ext_D True xlen p \<longrightarrow>
      and_then (fmv_d_x xlen insn pc npc p) (fmv_x_d xlen insn' pc' npc') =
      Inr (npc', WRITE_RD insn' (RS1 insn p) (WRITE_FRD xlen insn (freg_f64 (RS1 insn p)) p)))"
proof -
  have "length (FPR p) = 32" using assms(1) by (simp add: rv_inv_def arch_inv_def)
  note fp = fp_enabled_simps(2) FRS1_WRITE_FRD [OF this assms(2)] freg_low
  show ?thesis
    unfolding fmv_w_x_def fmv_x_w_def fmv_h_x_def fmv_x_h_def fmv_d_x_def fmv_x_d_def
      checks_enabled(1) [where xlen = xlen] checks_enabled(2) and_then_def
    by (intro conjI impI; simp add: fp)
qed

end
