(* ===== verification/RV_Int.thy ===== *)
theory RV_Int
  imports RV_Arith RV_FP_Safety "HOL-Library.Signed_Division"
begin

text \<open>
  The integer instructions that do not access memory or control registers, one definition per file of
  \<^verbatim>\<open>riscv/insns\<close>: the RV32I and RV64I register operations, branches and jumps, the multiplication and
  division extension and the compressed forms.  Registers are 64 bits wide at both widths.
\<close>

section \<open>Macros\<close>

abbreviation ext_C :: nat where "ext_C \<equiv> 0x43"

definition zext32 :: "64 word \<Rightarrow> reg_t" where
  "zext32 x = ucast (ucast x :: 32 word)"

definition INT64_MIN :: "64 word" where
  "INT64_MIN = 0x8000000000000000"

text \<open>
  The immediate shift amount.  The word forms are only decoded when its bit 5 is clear, so that the
  32-bit shifts below stay within their width.
\<close>

definition SHAMT :: "insn_bits_t \<Rightarrow> 64 word" where
  "SHAMT insn = i_imm insn AND 0x3F"

definition BRANCH_TARGET :: "insn_bits_t \<Rightarrow> reg_t \<Rightarrow> reg_t" where
  "BRANCH_TARGET insn pc = pc + sb_imm insn"

definition JUMP_TARGET :: "insn_bits_t \<Rightarrow> reg_t \<Rightarrow> reg_t" where
  "JUMP_TARGET insn pc = pc + uj_imm insn"

definition pc_alignment_mask :: "'a arch_t_scheme \<Rightarrow> reg_t" where
  "pc_alignment_mask p = NOT (if supports_extension ext_C p then 0 else 2)"

definition set_pc :: "nat \<Rightarrow> 'a arch_t_scheme \<Rightarrow> reg_t \<Rightarrow> (reg_t \<Rightarrow> 'p outcome) \<Rightarrow> 'p outcome" where
  "set_pc xlen p x k =
     (if x AND NOT (pc_alignment_mask p) \<noteq> 0 then Inl (trap_instruction_address_misaligned x)
      else k (sext_xlen xlen x))"

definition X_RA :: uint64_t where
  "X_RA = 1"

definition X_SP :: uint64_t where
  "X_SP = 2"

definition RVC_RS1 :: "insn_bits_t \<Rightarrow> 'a arch_t_scheme \<Rightarrow> reg_t" where
  "RVC_RS1 insn p = READ_REG (insn_rd insn) p"

definition RVC_RS2 :: "insn_bits_t \<Rightarrow> 'a arch_t_scheme \<Rightarrow> reg_t" where
  "RVC_RS2 insn p = READ_REG (rvc_rs2 insn) p"

definition RVC_RS1S :: "insn_bits_t \<Rightarrow> 'a arch_t_scheme \<Rightarrow> reg_t" where
  "RVC_RS1S insn p = READ_REG (rvc_rs1s insn) p"

definition RVC_RS2S :: "insn_bits_t \<Rightarrow> 'a arch_t_scheme \<Rightarrow> reg_t" where
  "RVC_RS2S insn p = READ_REG (rvc_rs2s insn) p"

definition RVC_SP :: "'a arch_t_scheme \<Rightarrow> reg_t" where
  "RVC_SP p = READ_REG X_SP p"

definition WRITE_RVC_RS1S :: "insn_bits_t \<Rightarrow> reg_t \<Rightarrow> 'a arch_t_scheme \<Rightarrow> 'a arch_t_scheme" where
  "WRITE_RVC_RS1S insn v p = WRITE_REG (rvc_rs1s insn) v p"

definition WRITE_RVC_RS2S :: "insn_bits_t \<Rightarrow> reg_t \<Rightarrow> 'a arch_t_scheme \<Rightarrow> 'a arch_t_scheme" where
  "WRITE_RVC_RS2S insn v p = WRITE_REG (rvc_rs2s insn) v p"

section \<open>Register and immediate operations\<close>

definition rv_add :: insn_body where
  "rv_add xlen insn pc npc p =
     Inr (npc, WRITE_RD insn (sext_xlen xlen (RS1 insn p + RS2 insn p)) p)"

definition rv_addi :: insn_body where
  "rv_addi xlen insn pc npc p =
     Inr (npc, WRITE_RD insn (sext_xlen xlen (RS1 insn p + i_imm insn)) p)"

definition rv_addiw :: insn_body where
  "rv_addiw xlen insn pc npc p =
     require_rv64 xlen insn (
     Inr (npc, WRITE_RD insn (sext32 (i_imm insn + RS1 insn p)) p))"

definition rv_addw :: insn_body where
  "rv_addw xlen insn pc npc p =
     require_rv64 xlen insn (
     Inr (npc, WRITE_RD insn (sext32 (RS1 insn p + RS2 insn p)) p))"

definition rv_sub :: insn_body where
  "rv_sub xlen insn pc npc p =
     Inr (npc, WRITE_RD insn (sext_xlen xlen (RS1 insn p - RS2 insn p)) p)"

definition rv_subw :: insn_body where
  "rv_subw xlen insn pc npc p =
     require_rv64 xlen insn (
     Inr (npc, WRITE_RD insn (sext32 (RS1 insn p - RS2 insn p)) p))"

definition rv_and :: insn_body where
  "rv_and xlen insn pc npc p =
     Inr (npc, WRITE_RD insn (RS1 insn p AND RS2 insn p) p)"

definition rv_andi :: insn_body where
  "rv_andi xlen insn pc npc p =
     Inr (npc, WRITE_RD insn (i_imm insn AND RS1 insn p) p)"

definition rv_or :: insn_body where
  "rv_or xlen insn pc npc p =
     Inr (npc, WRITE_RD insn (RS1 insn p OR RS2 insn p) p)"

definition rv_ori :: insn_body where
  "rv_ori xlen insn pc npc p =
     Inr (npc, WRITE_RD insn (i_imm insn OR RS1 insn p) p)"

definition rv_xor :: insn_body where
  "rv_xor xlen insn pc npc p =
     Inr (npc, WRITE_RD insn (RS1 insn p XOR RS2 insn p) p)"

definition rv_xori :: insn_body where
  "rv_xori xlen insn pc npc p =
     Inr (npc, WRITE_RD insn (i_imm insn XOR RS1 insn p) p)"

definition rv_slt :: insn_body where
  "rv_slt xlen insn pc npc p =
     Inr (npc, WRITE_RD insn (of_bool (sint (RS1 insn p) < sint (RS2 insn p))) p)"

definition rv_slti :: insn_body where
  "rv_slti xlen insn pc npc p =
     Inr (npc, WRITE_RD insn (of_bool (sint (RS1 insn p) < sint (i_imm insn))) p)"

definition rv_sltu :: insn_body where
  "rv_sltu xlen insn pc npc p =
     Inr (npc, WRITE_RD insn (of_bool (RS1 insn p < RS2 insn p)) p)"

definition rv_sltiu :: insn_body where
  "rv_sltiu xlen insn pc npc p =
     Inr (npc, WRITE_RD insn (of_bool (RS1 insn p < i_imm insn)) p)"

definition rv_lui :: insn_body where
  "rv_lui xlen insn pc npc p =
     Inr (npc, WRITE_RD insn (u_imm insn) p)"

definition rv_auipc :: insn_body where
  "rv_auipc xlen insn pc npc p =
     Inr (npc, WRITE_RD insn (sext_xlen xlen (u_imm insn + pc)) p)"

section \<open>Shifts\<close>

definition rv_sll :: insn_body where
  "rv_sll xlen insn pc npc p =
     Inr (npc, WRITE_RD insn (sext_xlen xlen (push_bit (unat (RS2 insn p AND word_of_nat (xlen - 1))) (RS1 insn p))) p)"

definition rv_slli :: insn_body where
  "rv_slli xlen insn pc npc p =
     require (sint (SHAMT insn) < int xlen) insn (
     Inr (npc, WRITE_RD insn (sext_xlen xlen (push_bit (unat (SHAMT insn)) (RS1 insn p))) p))"

definition rv_slliw :: insn_body where
  "rv_slliw xlen insn pc npc p =
     require_rv64 xlen insn (
     Inr (npc, WRITE_RD insn (sext32 (push_bit (unat (SHAMT insn)) (RS1 insn p))) p))"

definition rv_sllw :: insn_body where
  "rv_sllw xlen insn pc npc p =
     require_rv64 xlen insn (
     Inr (npc, WRITE_RD insn (sext32 (push_bit (unat (RS2 insn p AND 0x1F)) (RS1 insn p))) p))"

definition rv_sra :: insn_body where
  "rv_sra xlen insn pc npc p =
     Inr (npc, WRITE_RD insn (sext_xlen xlen (signed_drop_bit (unat (RS2 insn p AND word_of_nat (xlen - 1))) (sext_xlen xlen (RS1 insn p)))) p)"

definition rv_srai :: insn_body where
  "rv_srai xlen insn pc npc p =
     require (sint (SHAMT insn) < int xlen) insn (
     Inr (npc, WRITE_RD insn (sext_xlen xlen (signed_drop_bit (unat (SHAMT insn)) (sext_xlen xlen (RS1 insn p)))) p))"

definition rv_sraiw :: insn_body where
  "rv_sraiw xlen insn pc npc p =
     require_rv64 xlen insn (
     Inr (npc, WRITE_RD insn (sext32 (scast (signed_drop_bit (unat (SHAMT insn)) (ucast (RS1 insn p) :: 32 word)))) p))"

definition rv_sraw :: insn_body where
  "rv_sraw xlen insn pc npc p =
     require_rv64 xlen insn (
     Inr (npc, WRITE_RD insn (sext32 (scast (signed_drop_bit (unat (RS2 insn p AND 0x1F)) (ucast (RS1 insn p) :: 32 word)))) p))"

definition rv_srl :: insn_body where
  "rv_srl xlen insn pc npc p =
     Inr (npc, WRITE_RD insn (sext_xlen xlen (drop_bit (unat (RS2 insn p AND word_of_nat (xlen - 1))) (zext_xlen xlen (RS1 insn p)))) p)"

definition rv_srli :: insn_body where
  "rv_srli xlen insn pc npc p =
     require (sint (SHAMT insn) < int xlen) insn (
     Inr (npc, WRITE_RD insn (sext_xlen xlen (drop_bit (unat (SHAMT insn)) (zext_xlen xlen (RS1 insn p)))) p))"

definition rv_srliw :: insn_body where
  "rv_srliw xlen insn pc npc p =
     require_rv64 xlen insn (
     Inr (npc, WRITE_RD insn (sext32 (ucast (drop_bit (unat (SHAMT insn)) (ucast (RS1 insn p) :: 32 word)))) p))"

definition rv_srlw :: insn_body where
  "rv_srlw xlen insn pc npc p =
     require_rv64 xlen insn (
     Inr (npc, WRITE_RD insn (sext32 (ucast (drop_bit (unat (RS2 insn p AND 0x1F)) (ucast (RS1 insn p) :: 32 word)))) p))"

section \<open>Multiplication\<close>

definition rv_mul :: insn_body where
  "rv_mul xlen insn pc npc p =
     require_extension ext_M insn p (
     Inr (npc, WRITE_RD insn (sext_xlen xlen (RS1 insn p * RS2 insn p)) p))"

definition rv_mulw :: insn_body where
  "rv_mulw xlen insn pc npc p =
     require_extension ext_M insn p (
     require_rv64 xlen insn (
     Inr (npc, WRITE_RD insn (sext32 (RS1 insn p * RS2 insn p)) p)))"

definition rv_mulh :: insn_body where
  "rv_mulh xlen insn pc npc p =
     require_extension ext_M insn p (
     Inr (npc, WRITE_RD insn (if xlen = 64 then mulh (RS1 insn p) (RS2 insn p)
       else sext32 (signed_drop_bit 32 (sext32 (RS1 insn p) * sext32 (RS2 insn p)))) p))"

definition rv_mulhu :: insn_body where
  "rv_mulhu xlen insn pc npc p =
     require_extension ext_M insn p (
     Inr (npc, WRITE_RD insn (if xlen = 64 then mulhu (RS1 insn p) (RS2 insn p)
       else sext32 (drop_bit 32 (zext32 (RS1 insn p) * zext32 (RS2 insn p)))) p))"

definition rv_mulhsu :: insn_body where
  "rv_mulhsu xlen insn pc npc p =
     require_extension ext_M insn p (
     Inr (npc, WRITE_RD insn (if xlen = 64 then mulhsu (RS1 insn p) (RS2 insn p)
       else sext32 (drop_bit 32 (sext32 (RS1 insn p) * zext32 (RS2 insn p)))) p))"

section \<open>Division\<close>

definition rv_div :: insn_body where
  "rv_div xlen insn pc npc p =
     require_extension ext_M insn p (
     let lhs = sext_xlen xlen (RS1 insn p); rhs = sext_xlen xlen (RS2 insn p)
     in Inr (npc, WRITE_RD insn (if rhs = 0 then - 1
       else if lhs = INT64_MIN \<and> rhs = - 1 then lhs
       else sext_xlen xlen (word_of_int (sint lhs sdiv sint rhs))) p))"

definition rv_divu :: insn_body where
  "rv_divu xlen insn pc npc p =
     require_extension ext_M insn p (
     let lhs = zext_xlen xlen (RS1 insn p); rhs = zext_xlen xlen (RS2 insn p)
     in Inr (npc, WRITE_RD insn (if rhs = 0 then - 1 else sext_xlen xlen (lhs div rhs)) p))"

definition rv_divw :: insn_body where
  "rv_divw xlen insn pc npc p =
     require_extension ext_M insn p (
     require_rv64 xlen insn (
     let lhs = sext32 (RS1 insn p); rhs = sext32 (RS2 insn p)
     in Inr (npc, WRITE_RD insn (if rhs = 0 then - 1 else sext32 (word_of_int (sint lhs sdiv sint rhs))) p)))"

definition rv_divuw :: insn_body where
  "rv_divuw xlen insn pc npc p =
     require_extension ext_M insn p (
     require_rv64 xlen insn (
     let lhs = zext32 (RS1 insn p); rhs = zext32 (RS2 insn p)
     in Inr (npc, WRITE_RD insn (if rhs = 0 then - 1 else sext32 (lhs div rhs)) p)))"

definition rv_rem :: insn_body where
  "rv_rem xlen insn pc npc p =
     require_extension ext_M insn p (
     let lhs = sext_xlen xlen (RS1 insn p); rhs = sext_xlen xlen (RS2 insn p)
     in Inr (npc, WRITE_RD insn (if rhs = 0 then lhs
       else if lhs = INT64_MIN \<and> rhs = - 1 then 0
       else sext_xlen xlen (word_of_int (sint lhs smod sint rhs))) p))"

definition rv_remu :: insn_body where
  "rv_remu xlen insn pc npc p =
     require_extension ext_M insn p (
     let lhs = zext_xlen xlen (RS1 insn p); rhs = zext_xlen xlen (RS2 insn p)
     in Inr (npc, WRITE_RD insn (if rhs = 0 then sext_xlen xlen (RS1 insn p) else sext_xlen xlen (lhs mod rhs)) p))"

definition rv_remw :: insn_body where
  "rv_remw xlen insn pc npc p =
     require_extension ext_M insn p (
     require_rv64 xlen insn (
     let lhs = sext32 (RS1 insn p); rhs = sext32 (RS2 insn p)
     in Inr (npc, WRITE_RD insn (if rhs = 0 then lhs else sext32 (word_of_int (sint lhs smod sint rhs))) p)))"

definition rv_remuw :: insn_body where
  "rv_remuw xlen insn pc npc p =
     require_extension ext_M insn p (
     require_rv64 xlen insn (
     let lhs = zext32 (RS1 insn p); rhs = zext32 (RS2 insn p)
     in Inr (npc, WRITE_RD insn (if rhs = 0 then sext32 lhs else sext32 (lhs mod rhs)) p)))"

section \<open>Branches and jumps\<close>

definition rv_beq :: insn_body where
  "rv_beq xlen insn pc npc p =
     (if RS1 insn p = RS2 insn p then set_pc xlen p (BRANCH_TARGET insn pc) (\<lambda>npc. Inr (npc, p)) else Inr (npc, p))"

definition rv_bne :: insn_body where
  "rv_bne xlen insn pc npc p =
     (if RS1 insn p \<noteq> RS2 insn p then set_pc xlen p (BRANCH_TARGET insn pc) (\<lambda>npc. Inr (npc, p)) else Inr (npc, p))"

definition rv_blt :: insn_body where
  "rv_blt xlen insn pc npc p =
     (if sint (RS1 insn p) < sint (RS2 insn p) then set_pc xlen p (BRANCH_TARGET insn pc) (\<lambda>npc. Inr (npc, p)) else Inr (npc, p))"

definition rv_bge :: insn_body where
  "rv_bge xlen insn pc npc p =
     (if sint (RS2 insn p) \<le> sint (RS1 insn p) then set_pc xlen p (BRANCH_TARGET insn pc) (\<lambda>npc. Inr (npc, p)) else Inr (npc, p))"

definition rv_bltu :: insn_body where
  "rv_bltu xlen insn pc npc p =
     (if RS1 insn p < RS2 insn p then set_pc xlen p (BRANCH_TARGET insn pc) (\<lambda>npc. Inr (npc, p)) else Inr (npc, p))"

definition rv_bgeu :: insn_body where
  "rv_bgeu xlen insn pc npc p =
     (if RS2 insn p \<le> RS1 insn p then set_pc xlen p (BRANCH_TARGET insn pc) (\<lambda>npc. Inr (npc, p)) else Inr (npc, p))"

definition rv_jal :: insn_body where
  "rv_jal xlen insn pc npc p =
     (let tmp = npc in set_pc xlen p (JUMP_TARGET insn pc) (\<lambda>npc. Inr (npc, WRITE_RD insn tmp p)))"

definition rv_jalr :: insn_body where
  "rv_jalr xlen insn pc npc p =
     (let tmp = npc in set_pc xlen p ((RS1 insn p + i_imm insn) AND NOT 1) (\<lambda>npc. Inr (npc, WRITE_RD insn tmp p)))"

section \<open>Compressed instructions\<close>

definition rv_c_add :: insn_body where
  "rv_c_add xlen insn pc npc p =
     require_extension ext_C insn p (
     require (rvc_rs2 insn \<noteq> 0) insn (
     Inr (npc, WRITE_RD insn (sext_xlen xlen (RVC_RS1 insn p + RVC_RS2 insn p)) p)))"

definition rv_c_addi :: insn_body where
  "rv_c_addi xlen insn pc npc p =
     require_extension ext_C insn p (
     Inr (npc, WRITE_RD insn (sext_xlen xlen (RVC_RS1 insn p + rvc_imm insn)) p))"

definition rv_c_addi4spn :: insn_body where
  "rv_c_addi4spn xlen insn pc npc p =
     require_extension ext_C insn p (
     require (rvc_addi4spn_imm insn \<noteq> 0) insn (
     Inr (npc, WRITE_RVC_RS2S insn (sext_xlen xlen (RVC_SP p + rvc_addi4spn_imm insn)) p)))"

definition rv_c_addw :: insn_body where
  "rv_c_addw xlen insn pc npc p =
     require_extension ext_C insn p (
     require_rv64 xlen insn (
     Inr (npc, WRITE_RVC_RS1S insn (sext32 (RVC_RS1S insn p + RVC_RS2S insn p)) p)))"

definition rv_c_and :: insn_body where
  "rv_c_and xlen insn pc npc p =
     require_extension ext_C insn p (
     Inr (npc, WRITE_RVC_RS1S insn (RVC_RS1S insn p AND RVC_RS2S insn p) p))"

definition rv_c_andi :: insn_body where
  "rv_c_andi xlen insn pc npc p =
     require_extension ext_C insn p (
     Inr (npc, WRITE_RVC_RS1S insn (RVC_RS1S insn p AND rvc_imm insn) p))"

definition rv_c_beqz :: insn_body where
  "rv_c_beqz xlen insn pc npc p =
     require_extension ext_C insn p (
     if RVC_RS1S insn p = 0 then set_pc xlen p (pc + rvc_b_imm insn) (\<lambda>npc. Inr (npc, p)) else Inr (npc, p))"

definition rv_c_bnez :: insn_body where
  "rv_c_bnez xlen insn pc npc p =
     require_extension ext_C insn p (
     if RVC_RS1S insn p \<noteq> 0 then set_pc xlen p (pc + rvc_b_imm insn) (\<lambda>npc. Inr (npc, p)) else Inr (npc, p))"

definition rv_c_j :: insn_body where
  "rv_c_j xlen insn pc npc p =
     require_extension ext_C insn p (
     set_pc xlen p (pc + rvc_j_imm insn) (\<lambda>npc. Inr (npc, p)))"

definition rv_c_jal :: insn_body where
  "rv_c_jal xlen insn pc npc p =
     require_extension ext_C insn p (
     if xlen = 32
     then let tmp = npc in set_pc xlen p (pc + rvc_j_imm insn) (\<lambda>npc. Inr (npc, WRITE_REG X_RA tmp p))
     else require (insn_rd insn \<noteq> 0) insn (Inr (npc, WRITE_RD insn (sext32 (RVC_RS1 insn p + rvc_imm insn)) p)))"

definition rv_c_jalr :: insn_body where
  "rv_c_jalr xlen insn pc npc p =
     require_extension ext_C insn p (
     require (insn_rd insn \<noteq> 0) insn (
     let tmp = npc in set_pc xlen p (RVC_RS1 insn p AND NOT 1) (\<lambda>npc. Inr (npc, WRITE_REG X_RA tmp p))))"

definition rv_c_jr :: insn_body where
  "rv_c_jr xlen insn pc npc p =
     require_extension ext_C insn p (
     require (insn_rd insn \<noteq> 0) insn (
     set_pc xlen p (RVC_RS1 insn p AND NOT 1) (\<lambda>npc. Inr (npc, p))))"

definition rv_c_li :: insn_body where
  "rv_c_li xlen insn pc npc p =
     require_extension ext_C insn p (
     Inr (npc, WRITE_RD insn (rvc_imm insn) p))"

definition rv_c_lui :: insn_body where
  "rv_c_lui xlen insn pc npc p =
     require_extension ext_C insn p (
     if insn_rd insn = 2
     then require (rvc_addi16sp_imm insn \<noteq> 0) insn (
       Inr (npc, WRITE_REG X_SP (sext_xlen xlen (RVC_SP p + rvc_addi16sp_imm insn)) p))
     else require (rvc_imm insn \<noteq> 0) insn (Inr (npc, WRITE_RD insn (push_bit 12 (rvc_imm insn)) p)))"

definition rv_c_mv :: insn_body where
  "rv_c_mv xlen insn pc npc p =
     require_extension ext_C insn p (
     require (rvc_rs2 insn \<noteq> 0) insn (
     Inr (npc, WRITE_RD insn (RVC_RS2 insn p) p)))"

definition rv_c_or :: insn_body where
  "rv_c_or xlen insn pc npc p =
     require_extension ext_C insn p (
     Inr (npc, WRITE_RVC_RS1S insn (RVC_RS1S insn p OR RVC_RS2S insn p) p))"

definition rv_c_slli :: insn_body where
  "rv_c_slli xlen insn pc npc p =
     require_extension ext_C insn p (
     require (sint (rvc_zimm insn) < int xlen) insn (
     Inr (npc, WRITE_RD insn (sext_xlen xlen (push_bit (unat (rvc_zimm insn)) (RVC_RS1 insn p))) p)))"

definition rv_c_srai :: insn_body where
  "rv_c_srai xlen insn pc npc p =
     require_extension ext_C insn p (
     require (sint (rvc_zimm insn) < int xlen) insn (
     Inr (npc, WRITE_RVC_RS1S insn (sext_xlen xlen (signed_drop_bit (unat (rvc_zimm insn)) (sext_xlen xlen (RVC_RS1S insn p)))) p)))"

definition rv_c_srli :: insn_body where
  "rv_c_srli xlen insn pc npc p =
     require_extension ext_C insn p (
     require (sint (rvc_zimm insn) < int xlen) insn (
     Inr (npc, WRITE_RVC_RS1S insn (sext_xlen xlen (drop_bit (unat (rvc_zimm insn)) (zext_xlen xlen (RVC_RS1S insn p)))) p)))"

definition rv_c_sub :: insn_body where
  "rv_c_sub xlen insn pc npc p =
     require_extension ext_C insn p (
     Inr (npc, WRITE_RVC_RS1S insn (sext_xlen xlen (RVC_RS1S insn p - RVC_RS2S insn p)) p))"

definition rv_c_subw :: insn_body where
  "rv_c_subw xlen insn pc npc p =
     require_extension ext_C insn p (
     require_rv64 xlen insn (
     Inr (npc, WRITE_RVC_RS1S insn (sext32 (RVC_RS1S insn p - RVC_RS2S insn p)) p)))"

definition rv_c_xor :: insn_body where
  "rv_c_xor xlen insn pc npc p =
     require_extension ext_C insn p (
     Inr (npc, WRITE_RVC_RS1S insn (RVC_RS1S insn p XOR RVC_RS2S insn p) p))"

section \<open>Values that fit the width\<close>

text \<open>At width 32 a register holds a sign-extended word; every result is one.\<close>

definition fits :: "nat \<Rightarrow> reg_t \<Rightarrow> bool" where
  "fits xlen v \<longleftrightarrow> sext_xlen xlen v = v"

lemma fits_64 [simp]: "fits 64 v"
  by (simp add: fits_def)

lemma fits_32: "fits 32 v \<longleftrightarrow> sext32 v = v"
  by (simp add: fits_def sext_xlen_32)

lemma fits_bits: "fits 32 v \<longleftrightarrow> (\<forall>n<64. 31 < n \<longrightarrow> bit v n = bit v 31)"
proof
  assume v: "fits 32 v"
  have "bit v n = bit v 31" if "n < 64" "31 < n" for n
  proof -
    have "bit v n = bit (sext32 v) n" using v by (simp only: fits_32)
    also have "\<dots> = bit v 31" using that by (simp add: bit_sext32)
    finally show ?thesis .
  qed
  then show "\<forall>n<64. 31 < n \<longrightarrow> bit v n = bit v 31" by blast
next
  assume v: "\<forall>n<64. 31 < n \<longrightarrow> bit v n = bit v 31"
  show "fits 32 v" unfolding fits_32
  proof (rule bit_word_eqI)
    fix n assume "n < LENGTH(64)"
    then show "bit (sext32 v) n = bit v n"
      using v [rule_format, of n] by (cases "31 < n") (simp_all add: bit_sext32 min_def)
  qed
qed

lemma fits_bitwise:
  assumes "valid_xlen xlen" "fits xlen a" "fits xlen b"
  shows "fits xlen (a AND b)" "fits xlen (a OR b)" "fits xlen (a XOR b)"
proof -
  have "fits 32 (a AND b)" "fits 32 (a OR b)" "fits 32 (a XOR b)" if "fits 32 a" "fits 32 b"
    using that by (simp_all add: fits_bits bit_simps)
  then show "fits xlen (a AND b)" "fits xlen (a OR b)" "fits xlen (a XOR b)"
    using assms by (auto simp: valid_xlen_def)
qed

lemma fits_results:
  assumes "valid_xlen xlen"
  shows "fits xlen (sext_xlen xlen x)" "fits xlen (sext32 x)" "fits xlen (of_bool c)" "fits xlen (- 1)" "fits xlen 0"
  using in_range(1-5) [OF assms] by (simp_all add: fits_def)

lemma fits_if: "(c \<Longrightarrow> fits xlen a) \<Longrightarrow> (\<not> c \<Longrightarrow> fits xlen b) \<Longrightarrow> fits xlen (if c then a else b)"
  by simp

lemma fits_reg:
  assumes "rv_inv xlen p" "unat r < 32"
  shows "fits xlen (READ_REG r p)"
  using assms by (simp add: READ_REG_def rv_inv_def arch_inv_def fits_def list_all_length)

lemma rvc_reg_lt_32: "unat (rvc_rs2 insn) < 32" "unat (rvc_rs1s insn) < 32" "unat (rvc_rs2s insn) < 32"
proof -
  have b: "unat (take_bit 5 x :: uint64_t) < 32" "unat (take_bit 3 x :: uint64_t) < 8" for x
    by (simp_all add: unat_take_bit)
  have "unat (8 + take_bit 3 x :: uint64_t) < 32" for x
    using b(2) [of x] unat_add_less [of 8 "take_bit 3 x"] by simp
  then show "unat (rvc_rs2 insn) < 32" "unat (rvc_rs1s insn) < 32" "unat (rvc_rs2s insn) < 32"
    unfolding rvc_rs2_def rvc_rs1s_def rvc_rs2s_def insn_x_eq using b(1) by blast+
qed

lemma fits_operands:
  assumes "rv_inv xlen p"
  shows "fits xlen (RS1 insn p)" "fits xlen (RS2 insn p)" "fits xlen (RVC_RS1 insn p)" "fits xlen (RVC_RS2 insn p)"
    "fits xlen (RVC_RS1S insn p)" "fits xlen (RVC_RS2S insn p)"
  unfolding RS1_def RS2_def RVC_RS1_def RVC_RS2_def RVC_RS1S_def RVC_RS2S_def
  by (intro fits_reg assms reg_lt_32 rvc_reg_lt_32)+

text \<open>The immediates of a fetched 32-bit instruction.\<close>

definition word_insn :: "insn_bits_t \<Rightarrow> bool" where
  "word_insn insn \<longleftrightarrow> sext32 insn = insn"

lemma fits_imm:
  assumes "valid_xlen xlen" "word_insn insn"
  shows "fits xlen (i_imm insn)" "fits xlen (u_imm insn)"
proof -
  have s: "bit insn n \<longleftrightarrow> bit insn 31" if "31 < n" "n < 64" for n
    using assms(2) that fits_bits [of insn] by (simp add: word_insn_def fits_32)
  have "bit (i_imm insn) n \<longleftrightarrow> bit insn 31" "bit (u_imm insn) n \<longleftrightarrow> bit insn 31" if "31 < n" "n < 64" for n
    using that s [of "20 + n"] s [of 63] s [of n]
    by (auto simp: i_imm_def u_imm_def bit_simps)
  moreover have "bit (i_imm insn) 31 \<longleftrightarrow> bit insn 31" "bit (u_imm insn) 31 \<longleftrightarrow> bit insn 31"
    using s [of 51] by (simp_all add: i_imm_def u_imm_def bit_simps)
  ultimately have "fits 32 (i_imm insn)" "fits 32 (u_imm insn)" unfolding fits_bits by blast+
  then show "fits xlen (i_imm insn)" "fits xlen (u_imm insn)" using assms(1) by (auto simp: valid_xlen_def)
qed

lemma bit_insn_xs_12: "bit (insn_xs b 12 1) n \<longleftrightarrow> n < 64 \<and> bit b 12"
  by (cases n) (auto simp: insn_xs_def bit_simps dest: bit_imp_le_length)

lemma bit_rvc_imm: "bit (rvc_imm b) n \<longleftrightarrow> n < 64 \<and> (if n < 5 then bit b (2 + n) else bit b 12)"
proof -
  have e: "rvc_imm b = take_bit 5 (drop_bit 2 b) OR push_bit 5 (insn_xs b 12 1)"
    unfolding rvc_imm_def insn_x_eq by (rule add_field) simp
  show ?thesis
    unfolding e bit_or_iff bit_take_bit_iff bit_drop_bit_eq comp_def bit_push_bit_iff bit_insn_xs_12
    by (cases "n < 5") (auto simp: possible_bit_word dest: bit_imp_le_length)
qed

lemma fits_rvc_imm:
  assumes "valid_xlen xlen"
  shows "fits xlen (rvc_imm b)" "fits xlen (push_bit 12 (rvc_imm b))"
proof -
  have "fits 32 (rvc_imm b)" "fits 32 (push_bit 12 (rvc_imm b))"
    unfolding fits_bits by (auto simp: bit_simps bit_rvc_imm)
  then show "fits xlen (rvc_imm b)" "fits xlen (push_bit 12 (rvc_imm b))" using assms by (auto simp: valid_xlen_def)
qed

section \<open>The invariant\<close>

lemma keep_WRITE_REG:
  assumes "rv_inv xlen p" "fits xlen v"
  shows "rv_inv xlen (WRITE_REG r v p)"
proof -
  have "arch_inv xlen (WRITE_REG r v p)"
    using assms set_update_subset_insert [of "XPR p" "unat r" v]
    by (auto simp: rv_inv_def arch_inv_def WRITE_REG_def regfile_write_def list_all_iff fits_def)
  then show ?thesis using assms(1) by (simp add: rv_inv_def WRITE_REG_def pending_def after_rounding_def)
qed

lemma keep_writes:
  assumes "rv_inv xlen p" "fits xlen v"
  shows "rv_inv xlen (WRITE_RD insn v p)" "rv_inv xlen (WRITE_RVC_RS1S insn v p)" "rv_inv xlen (WRITE_RVC_RS2S insn v p)"
  unfolding WRITE_RD_def WRITE_RVC_RS1S_def WRITE_RVC_RS2S_def by (rule keep_WRITE_REG [OF assms])+

lemma keeps_set_pc: "(\<And>npc. keeps xlen (k npc)) \<Longrightarrow> keeps xlen (set_pc xlen p x k)"
  by (simp add: set_pc_def keeps_def)

lemma keeps_if: "(c \<Longrightarrow> keeps xlen a) \<Longrightarrow> (\<not> c \<Longrightarrow> keeps xlen b) \<Longrightarrow> keeps xlen (if c then a else b)"
  by simp

lemma fits_when_64: "xlen = 64 \<Longrightarrow> fits xlen v"
  by simp

lemmas keeps_int_rules = keeps_require keeps_set_pc keeps_if keeps_Inr keep_writes keep_WRITE_REG
  fits_bitwise fits_results fits_operands fits_imm fits_rvc_imm fits_if

lemma keeps_int_alu:
  assumes "valid_xlen xlen" "rv_inv xlen p" "word_insn insn" "fits xlen npc"
  shows
    "keeps xlen (rv_add xlen insn pc npc p)" "keeps xlen (rv_addi xlen insn pc npc p)"
    "keeps xlen (rv_addiw xlen insn pc npc p)" "keeps xlen (rv_addw xlen insn pc npc p)"
    "keeps xlen (rv_sub xlen insn pc npc p)" "keeps xlen (rv_subw xlen insn pc npc p)"
    "keeps xlen (rv_and xlen insn pc npc p)" "keeps xlen (rv_andi xlen insn pc npc p)"
    "keeps xlen (rv_or xlen insn pc npc p)" "keeps xlen (rv_ori xlen insn pc npc p)"
    "keeps xlen (rv_xor xlen insn pc npc p)" "keeps xlen (rv_xori xlen insn pc npc p)"
    "keeps xlen (rv_slt xlen insn pc npc p)" "keeps xlen (rv_slti xlen insn pc npc p)"
    "keeps xlen (rv_sltu xlen insn pc npc p)" "keeps xlen (rv_sltiu xlen insn pc npc p)"
    "keeps xlen (rv_lui xlen insn pc npc p)" "keeps xlen (rv_auipc xlen insn pc npc p)"
  unfolding
    rv_add_def rv_addi_def rv_addiw_def rv_addw_def rv_sub_def rv_subw_def rv_and_def rv_andi_def
    rv_or_def rv_ori_def rv_xor_def rv_xori_def rv_slt_def rv_slti_def rv_sltu_def rv_sltiu_def
    rv_lui_def rv_auipc_def Let_def
  by (assumption | rule assms keeps_int_rules | rule fits_when_64)+

lemma keeps_int_shift:
  assumes "valid_xlen xlen" "rv_inv xlen p" "word_insn insn" "fits xlen npc"
  shows
    "keeps xlen (rv_sll xlen insn pc npc p)" "keeps xlen (rv_slli xlen insn pc npc p)"
    "keeps xlen (rv_slliw xlen insn pc npc p)" "keeps xlen (rv_sllw xlen insn pc npc p)"
    "keeps xlen (rv_sra xlen insn pc npc p)" "keeps xlen (rv_srai xlen insn pc npc p)"
    "keeps xlen (rv_sraiw xlen insn pc npc p)" "keeps xlen (rv_sraw xlen insn pc npc p)"
    "keeps xlen (rv_srl xlen insn pc npc p)" "keeps xlen (rv_srli xlen insn pc npc p)"
    "keeps xlen (rv_srliw xlen insn pc npc p)" "keeps xlen (rv_srlw xlen insn pc npc p)"
  unfolding
    rv_sll_def rv_slli_def rv_slliw_def rv_sllw_def rv_sra_def rv_srai_def rv_sraiw_def rv_sraw_def
    rv_srl_def rv_srli_def rv_srliw_def rv_srlw_def Let_def
  by (assumption | rule assms keeps_int_rules | rule fits_when_64)+

lemma keeps_int_mul:
  assumes "valid_xlen xlen" "rv_inv xlen p" "word_insn insn" "fits xlen npc"
  shows
    "keeps xlen (rv_mul xlen insn pc npc p)" "keeps xlen (rv_mulw xlen insn pc npc p)"
    "keeps xlen (rv_mulh xlen insn pc npc p)" "keeps xlen (rv_mulhu xlen insn pc npc p)"
    "keeps xlen (rv_mulhsu xlen insn pc npc p)"
  unfolding
    rv_mul_def rv_mulw_def rv_mulh_def rv_mulhu_def rv_mulhsu_def Let_def
  by (assumption | rule assms keeps_int_rules | rule fits_when_64)+

lemma keeps_int_div:
  assumes "valid_xlen xlen" "rv_inv xlen p" "word_insn insn" "fits xlen npc"
  shows
    "keeps xlen (rv_div xlen insn pc npc p)" "keeps xlen (rv_divu xlen insn pc npc p)"
    "keeps xlen (rv_divw xlen insn pc npc p)" "keeps xlen (rv_divuw xlen insn pc npc p)"
    "keeps xlen (rv_rem xlen insn pc npc p)" "keeps xlen (rv_remu xlen insn pc npc p)"
    "keeps xlen (rv_remw xlen insn pc npc p)" "keeps xlen (rv_remuw xlen insn pc npc p)"
  unfolding
    rv_div_def rv_divu_def rv_divw_def rv_divuw_def rv_rem_def rv_remu_def rv_remw_def rv_remuw_def Let_def
  by (assumption | rule assms keeps_int_rules | rule fits_when_64)+

lemma keeps_int_jump:
  assumes "valid_xlen xlen" "rv_inv xlen p" "word_insn insn" "fits xlen npc"
  shows
    "keeps xlen (rv_beq xlen insn pc npc p)" "keeps xlen (rv_bne xlen insn pc npc p)"
    "keeps xlen (rv_blt xlen insn pc npc p)" "keeps xlen (rv_bge xlen insn pc npc p)"
    "keeps xlen (rv_bltu xlen insn pc npc p)" "keeps xlen (rv_bgeu xlen insn pc npc p)"
    "keeps xlen (rv_jal xlen insn pc npc p)" "keeps xlen (rv_jalr xlen insn pc npc p)"
  unfolding
    rv_beq_def rv_bne_def rv_blt_def rv_bge_def rv_bltu_def rv_bgeu_def rv_jal_def rv_jalr_def Let_def
  by (assumption | rule assms keeps_int_rules | rule fits_when_64)+

lemma keeps_int_rvc:
  assumes "valid_xlen xlen" "rv_inv xlen p" "word_insn insn" "fits xlen npc"
  shows
    "keeps xlen (rv_c_add xlen insn pc npc p)" "keeps xlen (rv_c_addi xlen insn pc npc p)"
    "keeps xlen (rv_c_addi4spn xlen insn pc npc p)" "keeps xlen (rv_c_addw xlen insn pc npc p)"
    "keeps xlen (rv_c_and xlen insn pc npc p)" "keeps xlen (rv_c_andi xlen insn pc npc p)"
    "keeps xlen (rv_c_beqz xlen insn pc npc p)" "keeps xlen (rv_c_bnez xlen insn pc npc p)"
    "keeps xlen (rv_c_j xlen insn pc npc p)" "keeps xlen (rv_c_jal xlen insn pc npc p)"
    "keeps xlen (rv_c_jalr xlen insn pc npc p)" "keeps xlen (rv_c_jr xlen insn pc npc p)"
    "keeps xlen (rv_c_li xlen insn pc npc p)" "keeps xlen (rv_c_lui xlen insn pc npc p)"
    "keeps xlen (rv_c_mv xlen insn pc npc p)" "keeps xlen (rv_c_or xlen insn pc npc p)"
    "keeps xlen (rv_c_slli xlen insn pc npc p)" "keeps xlen (rv_c_srai xlen insn pc npc p)"
    "keeps xlen (rv_c_srli xlen insn pc npc p)" "keeps xlen (rv_c_sub xlen insn pc npc p)"
    "keeps xlen (rv_c_subw xlen insn pc npc p)" "keeps xlen (rv_c_xor xlen insn pc npc p)"
  unfolding
    rv_c_add_def rv_c_addi_def rv_c_addi4spn_def rv_c_addw_def rv_c_and_def rv_c_andi_def rv_c_beqz_def
    rv_c_bnez_def rv_c_j_def rv_c_jal_def rv_c_jalr_def rv_c_jr_def rv_c_li_def rv_c_lui_def rv_c_mv_def
    rv_c_or_def rv_c_slli_def rv_c_srai_def rv_c_srli_def rv_c_sub_def rv_c_subw_def rv_c_xor_def Let_def
  by (assumption | rule assms keeps_int_rules | rule fits_when_64)+

end
