(* ===== verification/RV_Int_Safety.thy ===== *)
theory RV_Int_Safety
  imports RV_Int
begin

text \<open>
  Properties of all integer instructions together: they keep the invariant of the state, and control
  only moves to addresses that an instruction can be fetched from.
\<close>

section \<open>The instructions\<close>

definition int_table :: "insn_body list" where
  "int_table =
    [rv_add, rv_addi, rv_addiw, rv_addw, rv_sub, rv_subw, rv_and, rv_andi, rv_or, rv_ori, rv_xor, rv_xori,
    rv_slt, rv_slti, rv_sltu, rv_sltiu, rv_lui, rv_auipc, rv_sll, rv_slli, rv_slliw, rv_sllw, rv_sra,
    rv_srai, rv_sraiw, rv_sraw, rv_srl, rv_srli, rv_srliw, rv_srlw, rv_mul, rv_mulw, rv_mulh, rv_mulhu,
    rv_mulhsu, rv_div, rv_divu, rv_divw, rv_divuw, rv_rem, rv_remu, rv_remw, rv_remuw, rv_beq, rv_bne,
    rv_blt, rv_bge, rv_bltu, rv_bgeu, rv_jal, rv_jalr, rv_c_add, rv_c_addi, rv_c_addi4spn, rv_c_addw,
    rv_c_and, rv_c_andi, rv_c_beqz, rv_c_bnez, rv_c_j, rv_c_jal, rv_c_jalr, rv_c_jr, rv_c_li, rv_c_lui,
    rv_c_mv, rv_c_or, rv_c_slli, rv_c_srai, rv_c_srli, rv_c_sub, rv_c_subw, rv_c_xor]"

section \<open>The invariant\<close>

text \<open>
  C25.  Every integer instruction keeps the invariant of the state: in particular \<^verbatim>\<open>x0\<close> stays zero and at
  width 32 every register written holds a sign-extended word.
\<close>

theorem int_keeps_invariant:
  assumes "valid_xlen xlen" "rv_inv xlen p" "word_insn insn" "fits xlen npc"
  shows "list_all (\<lambda>body. keeps xlen (body xlen insn pc npc p)) int_table"
  unfolding int_table_def list.pred_inject
  by (intro conjI keeps_int_alu keeps_int_shift keeps_int_mul keeps_int_div keeps_int_jump keeps_int_rvc list_all_Nil)
    (rule assms)+

theorem int_keeps_invariant_witness:
  "list_all (\<lambda>body. keeps 64 (body 64 0x02317033 0 4 example_state)) int_table"
  using int_keeps_invariant [of 64 example_state "0x02317033" 4 0] example_inv
  by (simp add: valid_xlen_def word_insn_def sext32_def)

section \<open>Control flow\<close>

text \<open>
  An address of an instruction: sign-extended from the width, even, and a multiple of four without
  the compressed extension.
\<close>

definition pc_ok :: "nat \<Rightarrow> 'a arch_t_scheme \<Rightarrow> reg_t \<Rightarrow> bool" where
  "pc_ok xlen p pc \<longleftrightarrow> fits xlen pc \<and> even pc \<and> (supports_extension ext_C p \<or> \<not> bit pc 1)"

definition flows :: "nat \<Rightarrow> processor_t \<Rightarrow> processor_t outcome \<Rightarrow> bool" where
  "flows xlen p r \<longleftrightarrow>
     (case r of
        Inl (trap_illegal_instruction b) \<Rightarrow> True
      | Inl (trap_instruction_address_misaligned x) \<Rightarrow> even x \<and> bit x 1 \<and> \<not> supports_extension ext_C p
      | Inl t \<Rightarrow> False
      | Inr (npc, p') \<Rightarrow> pc_ok xlen p' npc \<and> misa p' = misa p \<and> extension_table p' = extension_table p)"

lemma sext_xlen_low: "valid_xlen xlen \<Longrightarrow> n \<le> 1 \<Longrightarrow> bit (sext_xlen xlen x) n = bit x n"
  by (auto simp: valid_xlen_def sext_xlen_32 bit_sext32)

lemma even_sext_xlen: "valid_xlen xlen \<Longrightarrow> even (sext_xlen xlen x) = even x"
  using sext_xlen_low [of xlen 0 x] by (simp add: bit_0)

lemma misaligned_iff:
  "x AND NOT (pc_alignment_mask p) \<noteq> 0 \<longleftrightarrow> \<not> supports_extension ext_C p \<and> bit x 1"
proof -
  have "x AND 2 \<noteq> 0 \<longleftrightarrow> bit x 1" for x :: reg_t
    using and_exp_eq_0_iff_not_bit [of x 1] by simp
  then show ?thesis by (simp add: pc_alignment_mask_def)
qed

lemma flows_set_pc:
  assumes "valid_xlen xlen" "even x" "\<And>npc. pc_ok xlen p npc \<Longrightarrow> flows xlen p (k npc)"
  shows "flows xlen p (set_pc xlen p x k)"
  unfolding set_pc_def misaligned_iff
  using assms(3) [of "sext_xlen xlen x"] assms(1,2) in_range(2) [OF assms(1), of x]
  by (auto simp: flows_def pc_ok_def fits_def even_sext_xlen sext_xlen_low)

definition same_isa :: "'a arch_t_scheme \<Rightarrow> 'a arch_t_scheme \<Rightarrow> bool" where
  "same_isa p q \<longleftrightarrow> misa q = misa p \<and> extension_table q = extension_table p"

lemma flows_Inr: "pc_ok xlen p npc \<Longrightarrow> same_isa p q \<Longrightarrow> flows xlen p (Inr (npc, q))"
  by (simp add: flows_def pc_ok_def same_isa_def supports_extension_def)

lemma same_isa_writes:
  "same_isa p p" "same_isa p (WRITE_REG r v p)" "same_isa p (WRITE_RD insn v p)"
  "same_isa p (WRITE_RVC_RS1S insn v p)" "same_isa p (WRITE_RVC_RS2S insn v p)"
  by (simp_all add: same_isa_def WRITE_RVC_RS1S_def WRITE_RVC_RS2S_def WRITE_RD_def WRITE_REG_def)

lemma flows_require:
  "flows xlen p k \<Longrightarrow> flows xlen p (require x insn k)"
  "flows xlen p k \<Longrightarrow> flows xlen p (require_extension ext insn q k)"
  "flows xlen p k \<Longrightarrow> flows xlen p (require_fp insn q k)"
  "flows xlen p k \<Longrightarrow> flows xlen p (require_rv64 xlen insn k)"
  by (auto simp: flows_def require_def require_extension_def require_fp_def require_rv64_def)

lemma flows_if: "flows xlen p a \<Longrightarrow> flows xlen p b \<Longrightarrow> flows xlen p (if c then a else b)"
  by simp

lemma even_targets:
  assumes "even pc"
  shows "even (BRANCH_TARGET insn pc)" "even (JUMP_TARGET insn pc)" "even (pc + rvc_b_imm insn)"
    "even (pc + rvc_j_imm insn)"
  using assms
  by (simp_all add: BRANCH_TARGET_def JUMP_TARGET_def sb_imm_def uj_imm_def rvc_b_imm_def rvc_j_imm_def)

lemma even_cleared: "even (x AND NOT 1 :: reg_t)"
  by (simp add: even_and_iff)

lemmas flows_rules = flows_require flows_set_pc flows_if flows_Inr same_isa_writes even_targets even_cleared

lemma flows_int_alu:
  assumes "valid_xlen xlen" "even pc" "pc_ok xlen p npc"
  shows
    "flows xlen p (rv_add xlen insn pc npc p)" "flows xlen p (rv_addi xlen insn pc npc p)"
    "flows xlen p (rv_addiw xlen insn pc npc p)" "flows xlen p (rv_addw xlen insn pc npc p)"
    "flows xlen p (rv_sub xlen insn pc npc p)" "flows xlen p (rv_subw xlen insn pc npc p)"
    "flows xlen p (rv_and xlen insn pc npc p)" "flows xlen p (rv_andi xlen insn pc npc p)"
    "flows xlen p (rv_or xlen insn pc npc p)" "flows xlen p (rv_ori xlen insn pc npc p)"
    "flows xlen p (rv_xor xlen insn pc npc p)" "flows xlen p (rv_xori xlen insn pc npc p)"
    "flows xlen p (rv_slt xlen insn pc npc p)" "flows xlen p (rv_slti xlen insn pc npc p)"
    "flows xlen p (rv_sltu xlen insn pc npc p)" "flows xlen p (rv_sltiu xlen insn pc npc p)"
    "flows xlen p (rv_lui xlen insn pc npc p)" "flows xlen p (rv_auipc xlen insn pc npc p)"
  unfolding
    rv_add_def rv_addi_def rv_addiw_def rv_addw_def rv_sub_def rv_subw_def rv_and_def rv_andi_def rv_or_def
    rv_ori_def rv_xor_def rv_xori_def rv_slt_def rv_slti_def rv_sltu_def rv_sltiu_def rv_lui_def rv_auipc_def
    Let_def
  by (assumption | rule assms flows_rules)+

lemma flows_int_shift:
  assumes "valid_xlen xlen" "even pc" "pc_ok xlen p npc"
  shows
    "flows xlen p (rv_sll xlen insn pc npc p)" "flows xlen p (rv_slli xlen insn pc npc p)"
    "flows xlen p (rv_slliw xlen insn pc npc p)" "flows xlen p (rv_sllw xlen insn pc npc p)"
    "flows xlen p (rv_sra xlen insn pc npc p)" "flows xlen p (rv_srai xlen insn pc npc p)"
    "flows xlen p (rv_sraiw xlen insn pc npc p)" "flows xlen p (rv_sraw xlen insn pc npc p)"
    "flows xlen p (rv_srl xlen insn pc npc p)" "flows xlen p (rv_srli xlen insn pc npc p)"
    "flows xlen p (rv_srliw xlen insn pc npc p)" "flows xlen p (rv_srlw xlen insn pc npc p)"
  unfolding
    rv_sll_def rv_slli_def rv_slliw_def rv_sllw_def rv_sra_def rv_srai_def rv_sraiw_def rv_sraw_def
    rv_srl_def rv_srli_def rv_srliw_def rv_srlw_def Let_def
  by (assumption | rule assms flows_rules)+

lemma flows_int_mul:
  assumes "valid_xlen xlen" "even pc" "pc_ok xlen p npc"
  shows
    "flows xlen p (rv_mul xlen insn pc npc p)" "flows xlen p (rv_mulw xlen insn pc npc p)"
    "flows xlen p (rv_mulh xlen insn pc npc p)" "flows xlen p (rv_mulhu xlen insn pc npc p)"
    "flows xlen p (rv_mulhsu xlen insn pc npc p)"
  unfolding
    rv_mul_def rv_mulw_def rv_mulh_def rv_mulhu_def rv_mulhsu_def Let_def
  by (assumption | rule assms flows_rules)+

lemma flows_int_div:
  assumes "valid_xlen xlen" "even pc" "pc_ok xlen p npc"
  shows
    "flows xlen p (rv_div xlen insn pc npc p)" "flows xlen p (rv_divu xlen insn pc npc p)"
    "flows xlen p (rv_divw xlen insn pc npc p)" "flows xlen p (rv_divuw xlen insn pc npc p)"
    "flows xlen p (rv_rem xlen insn pc npc p)" "flows xlen p (rv_remu xlen insn pc npc p)"
    "flows xlen p (rv_remw xlen insn pc npc p)" "flows xlen p (rv_remuw xlen insn pc npc p)"
  unfolding
    rv_div_def rv_divu_def rv_divw_def rv_divuw_def rv_rem_def rv_remu_def rv_remw_def rv_remuw_def Let_def
  by (assumption | rule assms flows_rules)+

lemma flows_int_jump:
  assumes "valid_xlen xlen" "even pc" "pc_ok xlen p npc"
  shows
    "flows xlen p (rv_beq xlen insn pc npc p)" "flows xlen p (rv_bne xlen insn pc npc p)"
    "flows xlen p (rv_blt xlen insn pc npc p)" "flows xlen p (rv_bge xlen insn pc npc p)"
    "flows xlen p (rv_bltu xlen insn pc npc p)" "flows xlen p (rv_bgeu xlen insn pc npc p)"
    "flows xlen p (rv_jal xlen insn pc npc p)" "flows xlen p (rv_jalr xlen insn pc npc p)"
  unfolding
    rv_beq_def rv_bne_def rv_blt_def rv_bge_def rv_bltu_def rv_bgeu_def rv_jal_def rv_jalr_def Let_def
  by (assumption | rule assms flows_rules)+

lemma flows_int_rvc:
  assumes "valid_xlen xlen" "even pc" "pc_ok xlen p npc"
  shows
    "flows xlen p (rv_c_add xlen insn pc npc p)" "flows xlen p (rv_c_addi xlen insn pc npc p)"
    "flows xlen p (rv_c_addi4spn xlen insn pc npc p)" "flows xlen p (rv_c_addw xlen insn pc npc p)"
    "flows xlen p (rv_c_and xlen insn pc npc p)" "flows xlen p (rv_c_andi xlen insn pc npc p)"
    "flows xlen p (rv_c_beqz xlen insn pc npc p)" "flows xlen p (rv_c_bnez xlen insn pc npc p)"
    "flows xlen p (rv_c_j xlen insn pc npc p)" "flows xlen p (rv_c_jal xlen insn pc npc p)"
    "flows xlen p (rv_c_jalr xlen insn pc npc p)" "flows xlen p (rv_c_jr xlen insn pc npc p)"
    "flows xlen p (rv_c_li xlen insn pc npc p)" "flows xlen p (rv_c_lui xlen insn pc npc p)"
    "flows xlen p (rv_c_mv xlen insn pc npc p)" "flows xlen p (rv_c_or xlen insn pc npc p)"
    "flows xlen p (rv_c_slli xlen insn pc npc p)" "flows xlen p (rv_c_srai xlen insn pc npc p)"
    "flows xlen p (rv_c_srli xlen insn pc npc p)" "flows xlen p (rv_c_sub xlen insn pc npc p)"
    "flows xlen p (rv_c_subw xlen insn pc npc p)" "flows xlen p (rv_c_xor xlen insn pc npc p)"
  unfolding
    rv_c_add_def rv_c_addi_def rv_c_addi4spn_def rv_c_addw_def rv_c_and_def rv_c_andi_def rv_c_beqz_def
    rv_c_bnez_def rv_c_j_def rv_c_jal_def rv_c_jalr_def rv_c_jr_def rv_c_li_def rv_c_lui_def rv_c_mv_def
    rv_c_or_def rv_c_slli_def rv_c_srai_def rv_c_srli_def rv_c_sub_def rv_c_subw_def rv_c_xor_def Let_def
  by (assumption | rule assms flows_rules)+



end
