(* ===== verification/RV_MulDiv.thy ===== *)
theory RV_MulDiv
  imports RV_Int_Safety
begin

text \<open>
  Multiplication and division against exact integer arithmetic, at both widths: a register of width
  \<^verbatim>\<open>xlen\<close> is read as a signed or an unsigned integer and a result is wrapped to the width.
\<close>

section \<open>Registers as integers\<close>

definition sval :: "nat \<Rightarrow> reg_t \<Rightarrow> int" where
  "sval w x = signed_take_bit (w - 1) (uint x)"

definition uval :: "nat \<Rightarrow> reg_t \<Rightarrow> int" where
  "uval w x = take_bit w (uint x)"

definition reg_of :: "nat \<Rightarrow> int \<Rightarrow> reg_t" where
  "reg_of w v = word_of_int (signed_take_bit (w - 1) v)"

lemma signed_take_bit_cong:
  fixes v w :: int
  assumes "take_bit (Suc n) v = take_bit (Suc n) w"
  shows "signed_take_bit n v = signed_take_bit n w"
  using assms by (simp add: signed_take_bit_eq_iff_take_bit_eq)

lemma reg_of_64: "reg_of 64 v = word_of_int v"
proof (unfold reg_of_def, rule bit_word_eqI)
  fix n assume "n < LENGTH(64)"
  then show "bit (word_of_int (signed_take_bit (64 - 1) v) :: reg_t) n = bit (word_of_int v :: reg_t) n"
    by (cases "n = 63") (auto simp: bit_simps min_def)
qed

lemma sext32_int: "sext32 (word_of_int v) = reg_of 32 v"
  unfolding reg_of_def by (rule bit_word_eqI) (auto simp: bit_sext32 bit_simps min_def)

lemma sext_int: "valid_xlen xlen \<Longrightarrow> sext_xlen xlen (word_of_int v) = reg_of xlen v"
  by (auto simp: valid_xlen_def sext_xlen_32 sext32_int reg_of_64)

lemma sext_reg: "valid_xlen xlen \<Longrightarrow> sext_xlen xlen x = reg_of xlen (uint x)"
  using sext_int [of xlen "uint x"] by simp

lemma width: "valid_xlen xlen \<Longrightarrow> xlen - 1 < 64 \<and> Suc (xlen - 1) = xlen"
  by (auto simp: valid_xlen_def)

lemma sval_bounds:
  assumes "valid_xlen xlen"
  shows "- (2 ^ (xlen - 1)) \<le> sval xlen x" "sval xlen x < 2 ^ (xlen - 1)" "0 \<le> uval xlen x" "uval xlen x < 2 ^ xlen"
  unfolding sval_def uval_def
  by (rule signed_take_bit_int_greater_eq_minus_exp, rule signed_take_bit_int_less_exp, simp_all)

lemma sint_reg_of: "valid_xlen xlen \<Longrightarrow> sint (reg_of xlen v) = signed_take_bit (xlen - 1) v"
  unfolding reg_of_def by (auto simp: signed_of_int valid_xlen_def)

lemma sint_sext: "valid_xlen xlen \<Longrightarrow> sint (sext_xlen xlen x) = sval xlen x"
  by (simp add: sext_reg sint_reg_of sval_def)

lemma uint_zext: "valid_xlen xlen \<Longrightarrow> uint (zext_xlen xlen x) = uval xlen x"
proof -
  have "zext_xlen 64 x = x" "zext_xlen 32 x = take_bit 32 x"
    unfolding zext_xlen_def by (rule bit_word_eqI; auto simp: bit_simps)+
  then show "valid_xlen xlen \<Longrightarrow> ?thesis"
    using take_bit_int_eq_self [of "uint x" 64] uint_lt2p [of x]
    by (auto simp: valid_xlen_def uval_def unsigned_take_bit_eq)
qed

lemma word_forms: "sext32 x = sext_xlen 32 x" "zext32 x = zext_xlen 32 x"
proof -
  show "sext32 x = sext_xlen 32 x" by (simp add: sext_xlen_32)
  show "zext32 x = zext_xlen 32 x"
    unfolding zext32_def zext_xlen_def by (rule bit_word_eqI) (auto simp: bit_simps)
qed

lemma reg_of_cong: "valid_xlen xlen \<Longrightarrow> take_bit xlen v = take_bit xlen w \<Longrightarrow> reg_of xlen v = reg_of xlen w"
  unfolding reg_of_def using signed_take_bit_cong [of "xlen - 1" v w] width [of xlen] by simp

lemma valid_widths: "valid_xlen 32" "valid_xlen 64"
  by (simp_all add: valid_xlen_def)

section \<open>Division\<close>

text \<open>
  Division truncates towards zero; by zero the quotient is \<^verbatim>\<open>-1\<close> and the remainder the dividend.  The
  quotient that overflows wraps around.
\<close>

definition quot :: "int \<Rightarrow> int \<Rightarrow> int" where
  "quot a b = (if b = 0 then - 1 else a sdiv b)"

definition rmdr :: "int \<Rightarrow> int \<Rightarrow> int" where
  "rmdr a b = (if b = 0 then a else a smod b)"

lemma quot_rmdr: "quot a b * b + rmdr a b = a"
  by (simp add: quot_def rmdr_def sdiv_mult_smod_eq)

lemma sdiv_pos: "0 \<le> a \<Longrightarrow> 0 \<le> b \<Longrightarrow> a sdiv b = a div (b :: int)"
  by (cases "a = 0"; cases "b = 0") (simp_all add: signed_divide_int_def)

lemma unsigned_div: "uint a sdiv uint b = uint (a div b)" "uint a smod uint b = uint (a mod b)"
  by (simp_all add: sdiv_pos smod_mod_positive uint_div uint_mod)

text \<open>An instruction of the multiplication extension that writes a value.\<close>

definition m_spec :: "bool \<Rightarrow> nat \<Rightarrow> insn_bits_t \<Rightarrow> reg_t \<Rightarrow> processor_t \<Rightarrow> reg_t \<Rightarrow> processor_t outcome" where
  "m_spec rv64 xlen insn npc p v =
     (if supports_extension ext_M p \<and> (rv64 \<longrightarrow> xlen = 64) then Inr (npc, WRITE_RD insn v p) else illegal insn)"

lemma m_spec_code:
  "require_extension ext_M insn p (Inr (npc, WRITE_RD insn v p)) = m_spec False xlen insn npc p v"
  "require_extension ext_M insn p (require_rv64 xlen insn (Inr (npc, WRITE_RD insn v p))) = m_spec True xlen insn npc p v"
  by (simp_all add: m_spec_def require_extension_def require_rv64_def require_def illegal_def)

lemma word_zero: "x = 0 \<longleftrightarrow> sint x = 0" "x = 0 \<longleftrightarrow> uint x = 0" for x :: reg_t
  using signed_eq_0_iff [of x] unsigned_eq_0_iff [of x] by blast+

lemma reg_of_minus_1: "valid_xlen xlen \<Longrightarrow> reg_of xlen (- 1) = - 1"
  by (simp add: reg_of_def)

lemma overflow_64:
  assumes "valid_xlen xlen" "sval xlen a = - (2 ^ 63)"
  shows "reg_of xlen (2 ^ 63) = word_of_int (- (2 ^ 63))"
proof -
  have "xlen = 64" using sval_bounds(1) [OF assms(1), of a] assms by (auto simp: valid_xlen_def)
  then show ?thesis by (simp add: reg_of_64)
qed

lemma sext_sval: "valid_xlen xlen \<Longrightarrow> sext_xlen xlen x = reg_of xlen (sval xlen x)"
  by (simp add: sext_reg reg_of_def sval_def)

lemma sext_uval: "valid_xlen xlen \<Longrightarrow> sext_xlen xlen x = reg_of xlen (uval xlen x)"
  unfolding sext_reg by (rule reg_of_cong) (simp_all add: uval_def)

lemma signed_quot:
  fixes a b :: reg_t and xlen :: nat
  defines "lhs \<equiv> sext_xlen xlen a" and "rhs \<equiv> sext_xlen xlen b"
  assumes "valid_xlen xlen"
  shows "(if rhs = 0 then - 1 else if lhs = INT64_MIN \<and> rhs = - 1 then lhs
      else sext_xlen xlen (word_of_int (sint lhs sdiv sint rhs))) = reg_of xlen (quot (sval xlen a) (sval xlen b))"
    "(if rhs = 0 then lhs else if lhs = INT64_MIN \<and> rhs = - 1 then 0
      else sext_xlen xlen (word_of_int (sint lhs smod sint rhs))) = reg_of xlen (rmdr (sval xlen a) (sval xlen b))"
proof -
  have s: "sint lhs = sval xlen a" "sint rhs = sval xlen b" by (simp_all add: lhs_def rhs_def sint_sext assms(3))
  have z: "rhs = 0 \<longleftrightarrow> sval xlen b = 0" using word_zero(1) [of rhs] s by simp
  have o: "sval xlen a = - (2 ^ 63)" "sval xlen b = - 1" "lhs = word_of_int (- (2 ^ 63))"
    if "lhs = INT64_MIN" "rhs = - 1" using that s by (simp_all add: INT64_MIN_def)
  show "(if rhs = 0 then - 1 else if lhs = INT64_MIN \<and> rhs = - 1 then lhs
      else sext_xlen xlen (word_of_int (sint lhs sdiv sint rhs))) = reg_of xlen (quot (sval xlen a) (sval xlen b))"
    using o overflow_64 [OF assms(3), of a] unfolding z s quot_def sext_int [OF assms(3)]
    by (auto simp: reg_of_minus_1 assms(3))
  show "(if rhs = 0 then lhs else if lhs = INT64_MIN \<and> rhs = - 1 then 0
      else sext_xlen xlen (word_of_int (sint lhs smod sint rhs))) = reg_of xlen (rmdr (sval xlen a) (sval xlen b))"
    using o sext_sval [OF assms(3), of a] unfolding z s rmdr_def sext_int [OF assms(3)] lhs_def [symmetric]
    by (auto simp: reg_of_def signed_modulo_int_def)
qed

lemma unsigned_quot:
  assumes "valid_xlen xlen"
  shows "(if zext_xlen xlen b = 0 then - 1 else sext_xlen xlen (zext_xlen xlen a div zext_xlen xlen b)) =
      reg_of xlen (quot (uval xlen a) (uval xlen b))"
    "(if zext_xlen xlen b = 0 then sext_xlen xlen a else sext_xlen xlen (zext_xlen xlen a mod zext_xlen xlen b)) =
      reg_of xlen (rmdr (uval xlen a) (uval xlen b))"
  unfolding quot_def rmdr_def word_zero(2) uint_zext [OF assms] sext_reg [OF assms, of "_ div _"] sext_reg [OF assms, of "_ mod _"]
    unsigned_div [symmetric]
  by (simp_all add: reg_of_minus_1 assms sext_uval [OF assms, of a])

text \<open>Without the overflow case, which cannot occur for words.\<close>

lemma signed_quot_word:
  fixes a b :: reg_t
  defines "lhs \<equiv> sext_xlen 32 a" and "rhs \<equiv> sext_xlen 32 b"
  shows "(if rhs = 0 then - 1 else sext_xlen 32 (word_of_int (sint lhs sdiv sint rhs))) = reg_of 32 (quot (sval 32 a) (sval 32 b))"
    "(if rhs = 0 then lhs else sext_xlen 32 (word_of_int (sint lhs smod sint rhs))) = reg_of 32 (rmdr (sval 32 a) (sval 32 b))"
proof -
  have "sint lhs \<noteq> - (2 ^ 63)" using sval_bounds(1) [of 32 a] by (simp add: lhs_def sint_sext valid_widths)
  then have "lhs \<noteq> INT64_MIN" by (auto simp: INT64_MIN_def)
  then show "(if rhs = 0 then - 1 else sext_xlen 32 (word_of_int (sint lhs sdiv sint rhs))) = reg_of 32 (quot (sval 32 a) (sval 32 b))"
    "(if rhs = 0 then lhs else sext_xlen 32 (word_of_int (sint lhs smod sint rhs))) = reg_of 32 (rmdr (sval 32 a) (sval 32 b))"
    using signed_quot [OF valid_widths(1), where a = a and b = b] unfolding lhs_def rhs_def by (simp_all only: simp_thms if_False)
qed

lemma sext_zext: "valid_xlen xlen \<Longrightarrow> sext_xlen xlen (zext_xlen xlen x) = sext_xlen xlen x"
  by (simp add: sext_reg [of _ "zext_xlen xlen x"] uint_zext sext_uval [of _ x])

text \<open>
  C22.  The eight division and remainder instructions compute the quotient and the remainder of the
  integers their operands stand for, truncated towards zero, wrapped to the width and sign-extended;
  division by zero and the overflowing quotient have the results the architecture defines.
\<close>

theorem division_refines:
  assumes "valid_xlen xlen"
  shows "rv_div xlen insn pc npc p =
      m_spec False xlen insn npc p (reg_of xlen (quot (sval xlen (RS1 insn p)) (sval xlen (RS2 insn p)))) \<and>
    rv_rem xlen insn pc npc p =
      m_spec False xlen insn npc p (reg_of xlen (rmdr (sval xlen (RS1 insn p)) (sval xlen (RS2 insn p)))) \<and>
    rv_divu xlen insn pc npc p =
      m_spec False xlen insn npc p (reg_of xlen (quot (uval xlen (RS1 insn p)) (uval xlen (RS2 insn p)))) \<and>
    rv_remu xlen insn pc npc p =
      m_spec False xlen insn npc p (reg_of xlen (rmdr (uval xlen (RS1 insn p)) (uval xlen (RS2 insn p)))) \<and>
    rv_divw xlen insn pc npc p =
      m_spec True xlen insn npc p (reg_of 32 (quot (sval 32 (RS1 insn p)) (sval 32 (RS2 insn p)))) \<and>
    rv_remw xlen insn pc npc p =
      m_spec True xlen insn npc p (reg_of 32 (rmdr (sval 32 (RS1 insn p)) (sval 32 (RS2 insn p)))) \<and>
    rv_divuw xlen insn pc npc p =
      m_spec True xlen insn npc p (reg_of 32 (quot (uval 32 (RS1 insn p)) (uval 32 (RS2 insn p)))) \<and>
    rv_remuw xlen insn pc npc p =
      m_spec True xlen insn npc p (reg_of 32 (rmdr (uval 32 (RS1 insn p)) (uval 32 (RS2 insn p))))"
  unfolding rv_div_def rv_rem_def rv_divu_def rv_remu_def rv_divw_def rv_remw_def rv_divuw_def rv_remuw_def Let_def
    word_forms m_spec_code [where xlen = xlen] signed_quot [OF assms] unsigned_quot [OF assms] signed_quot_word
    sext_zext [OF valid_widths(1)] unsigned_quot [OF valid_widths(1)]
  by (intro conjI refl)

theorem division_refines_witness:
  "rv_div 32 0x021141b3 0 4 example_state =
     m_spec False 32 0x021141b3 4 example_state
       (reg_of 32 (quot (sval 32 (RS1 0x021141b3 example_state)) (sval 32 (RS2 0x021141b3 example_state)))) \<and>
   reg_of 32 (quot (- (2 ^ 31)) (- 1)) = word_of_int (- (2 ^ 31))"
  using division_refines [OF valid_widths(1), of "0x021141b3" 0 4 example_state] by (simp add: quot_def reg_of_def)

section \<open>Multiplication\<close>

lemma take_bit_sval: "valid_xlen xlen \<Longrightarrow> take_bit xlen (sval xlen x) = take_bit xlen (uint x)"
  unfolding sval_def using width [of xlen] by (simp add: take_bit_signed_take_bit)

lemma take_bit_sint: "take_bit 64 (sint x) = uint (x :: reg_t)"
  using uint_sint [of x] by simp

lemma reg_of_sint: "valid_xlen xlen \<Longrightarrow> sext_xlen xlen y = reg_of xlen (sint y)"
  using sext_int [of xlen "sint y"] by simp

lemma val_64: "sval 64 x = sint x" "uval 64 x = uint x"
  using sint_sext [OF valid_widths(2), of x] uint_zext [OF valid_widths(2), of x]
  by (simp_all add: zext_xlen_def)

lemma low_product:
  assumes "valid_xlen xlen"
  shows "sext_xlen xlen (a * b) = reg_of xlen (sval xlen a * sval xlen b)"
proof -
  have "take_bit xlen (uint (a * b)) = take_bit xlen (uint a * uint b)"
    using assms by (auto simp: uint_word_ariths valid_xlen_def take_bit_eq_mod mod_mod_cancel)
  also have "\<dots> = take_bit xlen (sval xlen a * sval xlen b)"
    using take_bit_mult [of xlen "sval xlen a" "sval xlen b"] take_bit_mult [of xlen "uint a" "uint b"]
    by (simp add: take_bit_sval assms)
  finally show ?thesis unfolding sext_reg [OF assms] by (rule reg_of_cong [OF assms])
qed

lemma high_product_64:
  "mulh a b = reg_of 64 (sval 64 a * sval 64 b div 2 ^ 64)"
  "mulhu a b = reg_of 64 (uval 64 a * uval 64 b div 2 ^ 64)"
  "mulhsu a b = reg_of 64 (sval 64 a * uval 64 b div 2 ^ 64)"
proof -
  have "uint (mulhu a b) = uint a * uint b div 2 ^ 64"
    using arg_cong [OF unat_mulhu [of a b], of int] by (simp add: zdiv_int del: unat_mulhu)
  then have "mulhu a b = word_of_int (uint a * uint b div 2 ^ 64)" by (metis word_of_int_uint)
  then show "mulhu a b = reg_of 64 (uval 64 a * uval 64 b div 2 ^ 64)" by (simp only: reg_of_64 val_64)
qed (simp_all only: reg_of_64 val_64 mulh_correct mulhsu_correct)

lemma high_product_32:
  "sext_xlen 32 (signed_drop_bit 32 (sext_xlen 32 a * sext_xlen 32 b)) = reg_of 32 (sval 32 a * sval 32 b div 2 ^ 32)"
  "sext_xlen 32 (drop_bit 32 (zext_xlen 32 a * zext_xlen 32 b)) = reg_of 32 (uval 32 a * uval 32 b div 2 ^ 32)"
  "sext_xlen 32 (drop_bit 32 (sext_xlen 32 a * zext_xlen 32 b)) = reg_of 32 (sval 32 a * uval 32 b div 2 ^ 32)"
proof -
  have "\<bar>sval 32 a\<bar> * \<bar>sval 32 b\<bar> \<le> 2 ^ 31 * 2 ^ 31"
    using sval_bounds(1,2) [OF valid_widths(1), of a] sval_bounds(1,2) [OF valid_widths(1), of b]
    by (intro mult_mono) auto
  then have "- (2 ^ 63) \<le> sval 32 a * sval 32 b" "sval 32 a * sval 32 b < 2 ^ 63"
    by (auto simp: abs_mult [symmetric] abs_le_iff)
  then have "sint (sext_xlen 32 a * sext_xlen 32 b) = sval 32 a * sval 32 b"
    unfolding sint_word_mult sint_sext [OF valid_widths(1)] by (simp add: signed_take_bit_int_eq_self)
  then show "sext_xlen 32 (signed_drop_bit 32 (sext_xlen 32 a * sext_xlen 32 b)) = reg_of 32 (sval 32 a * sval 32 b div 2 ^ 32)"
    unfolding reg_of_sint [OF valid_widths(1)] sint_signed_drop_bit_eq by (simp add: drop_bit_eq_div)
  have high: "sext_xlen 32 (drop_bit 32 y) = reg_of 32 (v div 2 ^ 32)" if "uint y = take_bit 64 v" for y :: reg_t and v
    unfolding sext_reg [OF valid_widths(1)]
    by (rule reg_of_cong [OF valid_widths(1)])
      (simp add: that unsigned_drop_bit_eq drop_bit_take_bit, simp add: drop_bit_eq_div)
  show "sext_xlen 32 (drop_bit 32 (zext_xlen 32 a * zext_xlen 32 b)) = reg_of 32 (uval 32 a * uval 32 b div 2 ^ 32)"
    by (rule high) (simp add: uint_word_ariths uint_zext valid_widths take_bit_eq_mod)
  have "uint (sext_xlen 32 a * zext_xlen 32 b) = take_bit 64 (take_bit 64 (sval 32 a) * uval 32 b)"
    using take_bit_sint [of "sext_xlen 32 a"]
    by (simp add: uint_word_ariths uint_zext sint_sext valid_widths take_bit_eq_mod)
  then show "sext_xlen 32 (drop_bit 32 (sext_xlen 32 a * zext_xlen 32 b)) = reg_of 32 (sval 32 a * uval 32 b div 2 ^ 32)"
    by (intro high) (simp add: take_bit_eq_mod mod_mult_left_eq)
qed

text \<open>
  C23.  The multiplications write the low or the high half of the exact product of the integers their
  operands stand for, at both widths.
\<close>

theorem multiplication_refines:
  assumes "valid_xlen xlen"
  shows "rv_mul xlen insn pc npc p =
      m_spec False xlen insn npc p (reg_of xlen (sval xlen (RS1 insn p) * sval xlen (RS2 insn p))) \<and>
    rv_mulh xlen insn pc npc p =
      m_spec False xlen insn npc p (reg_of xlen (sval xlen (RS1 insn p) * sval xlen (RS2 insn p) div 2 ^ xlen)) \<and>
    rv_mulhu xlen insn pc npc p =
      m_spec False xlen insn npc p (reg_of xlen (uval xlen (RS1 insn p) * uval xlen (RS2 insn p) div 2 ^ xlen)) \<and>
    rv_mulhsu xlen insn pc npc p =
      m_spec False xlen insn npc p (reg_of xlen (sval xlen (RS1 insn p) * uval xlen (RS2 insn p) div 2 ^ xlen)) \<and>
    rv_mulw xlen insn pc npc p =
      m_spec True xlen insn npc p (reg_of 32 (sval 32 (RS1 insn p) * sval 32 (RS2 insn p)))"
proof -
  have "xlen = 64 \<or> xlen = 32" using assms by (auto simp: valid_xlen_def)
  then show ?thesis
    unfolding rv_mul_def rv_mulh_def rv_mulhu_def rv_mulhsu_def rv_mulw_def word_forms m_spec_code [where xlen = xlen]
      low_product [OF assms] low_product [OF valid_widths(1)]
    by (elim disjE) (simp_all add: high_product_64 high_product_32 del: sext_xlen_64)
qed

theorem multiplication_refines_witness:
  "rv_mulh 32 0x021111b3 0 4 example_state =
     m_spec False 32 0x021111b3 4 example_state
       (reg_of 32 (sval 32 (RS1 0x021111b3 example_state) * sval 32 (RS2 0x021111b3 example_state) div 2 ^ 32))"
  using multiplication_refines [OF valid_widths(1), of "0x021111b3" 0 4 example_state] by blast

end
