(* ===== verification/RV_Hart.thy ===== *)
theory RV_Hart
  imports RV_Int_Safety
begin

text \<open>
  The privileged state of a hart (\<^verbatim>\<open>state_t\<close> and the members of \<^verbatim>\<open>processor_t\<close> in \<^verbatim>\<open>riscv/processor.h\<close>) and the
  writes of control registers (\<^verbatim>\<open>processor_t::set_csr\<close> in \<^verbatim>\<open>riscv/processor.cc\<close>).  The current width is always
  the maximal one, so there is one parameter \<^verbatim>\<open>xlen\<close>.  The commit log is not modelled.
\<close>

section \<open>Constants\<close>

abbreviation (input) CSR_FFLAGS :: nat where "CSR_FFLAGS \<equiv> 0x1"
abbreviation (input) CSR_FRM :: nat where "CSR_FRM \<equiv> 0x2"
abbreviation (input) CSR_FCSR :: nat where "CSR_FCSR \<equiv> 0x3"
abbreviation (input) CSR_VSTART :: nat where "CSR_VSTART \<equiv> 0x8"
abbreviation (input) CSR_VXSAT :: nat where "CSR_VXSAT \<equiv> 0x9"
abbreviation (input) CSR_VXRM :: nat where "CSR_VXRM \<equiv> 0xa"
abbreviation (input) CSR_VCSR :: nat where "CSR_VCSR \<equiv> 0xf"
abbreviation (input) CSR_CYCLE :: nat where "CSR_CYCLE \<equiv> 0xc00"
abbreviation (input) CSR_INSTRET :: nat where "CSR_INSTRET \<equiv> 0xc02"
abbreviation (input) CSR_VL :: nat where "CSR_VL \<equiv> 0xc20"
abbreviation (input) CSR_VTYPE :: nat where "CSR_VTYPE \<equiv> 0xc21"
abbreviation (input) CSR_VLENB :: nat where "CSR_VLENB \<equiv> 0xc22"
abbreviation (input) CSR_CYCLEH :: nat where "CSR_CYCLEH \<equiv> 0xc80"
abbreviation (input) CSR_INSTRETH :: nat where "CSR_INSTRETH \<equiv> 0xc82"
abbreviation (input) CSR_SSTATUS :: nat where "CSR_SSTATUS \<equiv> 0x100"
abbreviation (input) CSR_SIE :: nat where "CSR_SIE \<equiv> 0x104"
abbreviation (input) CSR_STVEC :: nat where "CSR_STVEC \<equiv> 0x105"
abbreviation (input) CSR_SCOUNTEREN :: nat where "CSR_SCOUNTEREN \<equiv> 0x106"
abbreviation (input) CSR_SSCRATCH :: nat where "CSR_SSCRATCH \<equiv> 0x140"
abbreviation (input) CSR_SEPC :: nat where "CSR_SEPC \<equiv> 0x141"
abbreviation (input) CSR_SCAUSE :: nat where "CSR_SCAUSE \<equiv> 0x142"
abbreviation (input) CSR_STVAL :: nat where "CSR_STVAL \<equiv> 0x143"
abbreviation (input) CSR_SIP :: nat where "CSR_SIP \<equiv> 0x144"
abbreviation (input) CSR_SATP :: nat where "CSR_SATP \<equiv> 0x180"
abbreviation (input) CSR_VSSTATUS :: nat where "CSR_VSSTATUS \<equiv> 0x200"
abbreviation (input) CSR_VSIE :: nat where "CSR_VSIE \<equiv> 0x204"
abbreviation (input) CSR_VSTVEC :: nat where "CSR_VSTVEC \<equiv> 0x205"
abbreviation (input) CSR_VSSCRATCH :: nat where "CSR_VSSCRATCH \<equiv> 0x240"
abbreviation (input) CSR_VSEPC :: nat where "CSR_VSEPC \<equiv> 0x241"
abbreviation (input) CSR_VSCAUSE :: nat where "CSR_VSCAUSE \<equiv> 0x242"
abbreviation (input) CSR_VSTVAL :: nat where "CSR_VSTVAL \<equiv> 0x243"
abbreviation (input) CSR_VSIP :: nat where "CSR_VSIP \<equiv> 0x244"
abbreviation (input) CSR_VSATP :: nat where "CSR_VSATP \<equiv> 0x280"
abbreviation (input) CSR_HSTATUS :: nat where "CSR_HSTATUS \<equiv> 0x600"
abbreviation (input) CSR_HEDELEG :: nat where "CSR_HEDELEG \<equiv> 0x602"
abbreviation (input) CSR_HIDELEG :: nat where "CSR_HIDELEG \<equiv> 0x603"
abbreviation (input) CSR_HIE :: nat where "CSR_HIE \<equiv> 0x604"
abbreviation (input) CSR_HTIMEDELTA :: nat where "CSR_HTIMEDELTA \<equiv> 0x605"
abbreviation (input) CSR_HTIMEDELTAH :: nat where "CSR_HTIMEDELTAH \<equiv> 0x615"
abbreviation (input) CSR_HCOUNTEREN :: nat where "CSR_HCOUNTEREN \<equiv> 0x606"
abbreviation (input) CSR_HGEIE :: nat where "CSR_HGEIE \<equiv> 0x607"
abbreviation (input) CSR_HTVAL :: nat where "CSR_HTVAL \<equiv> 0x643"
abbreviation (input) CSR_HIP :: nat where "CSR_HIP \<equiv> 0x644"
abbreviation (input) CSR_HVIP :: nat where "CSR_HVIP \<equiv> 0x645"
abbreviation (input) CSR_HTINST :: nat where "CSR_HTINST \<equiv> 0x64a"
abbreviation (input) CSR_HGATP :: nat where "CSR_HGATP \<equiv> 0x680"
abbreviation (input) CSR_HGEIP :: nat where "CSR_HGEIP \<equiv> 0xe12"
abbreviation (input) CSR_MSTATUS :: nat where "CSR_MSTATUS \<equiv> 0x300"
abbreviation (input) CSR_MISA :: nat where "CSR_MISA \<equiv> 0x301"
abbreviation (input) CSR_MEDELEG :: nat where "CSR_MEDELEG \<equiv> 0x302"
abbreviation (input) CSR_MIDELEG :: nat where "CSR_MIDELEG \<equiv> 0x303"
abbreviation (input) CSR_MIE :: nat where "CSR_MIE \<equiv> 0x304"
abbreviation (input) CSR_MTVEC :: nat where "CSR_MTVEC \<equiv> 0x305"
abbreviation (input) CSR_MCOUNTEREN :: nat where "CSR_MCOUNTEREN \<equiv> 0x306"
abbreviation (input) CSR_MCOUNTINHIBIT :: nat where "CSR_MCOUNTINHIBIT \<equiv> 0x320"
abbreviation (input) CSR_MSCRATCH :: nat where "CSR_MSCRATCH \<equiv> 0x340"
abbreviation (input) CSR_MEPC :: nat where "CSR_MEPC \<equiv> 0x341"
abbreviation (input) CSR_MCAUSE :: nat where "CSR_MCAUSE \<equiv> 0x342"
abbreviation (input) CSR_MTVAL :: nat where "CSR_MTVAL \<equiv> 0x343"
abbreviation (input) CSR_MIP :: nat where "CSR_MIP \<equiv> 0x344"
abbreviation (input) CSR_MTINST :: nat where "CSR_MTINST \<equiv> 0x34a"
abbreviation (input) CSR_MTVAL2 :: nat where "CSR_MTVAL2 \<equiv> 0x34b"
abbreviation (input) CSR_PMPCFG0 :: nat where "CSR_PMPCFG0 \<equiv> 0x3a0"
abbreviation (input) CSR_PMPADDR0 :: nat where "CSR_PMPADDR0 \<equiv> 0x3b0"
abbreviation (input) CSR_TSELECT :: nat where "CSR_TSELECT \<equiv> 0x7a0"
abbreviation (input) CSR_TDATA1 :: nat where "CSR_TDATA1 \<equiv> 0x7a1"
abbreviation (input) CSR_TDATA2 :: nat where "CSR_TDATA2 \<equiv> 0x7a2"
abbreviation (input) CSR_TDATA3 :: nat where "CSR_TDATA3 \<equiv> 0x7a3"
abbreviation (input) CSR_DCSR :: nat where "CSR_DCSR \<equiv> 0x7b0"
abbreviation (input) CSR_DPC :: nat where "CSR_DPC \<equiv> 0x7b1"
abbreviation (input) CSR_DSCRATCH0 :: nat where "CSR_DSCRATCH0 \<equiv> 0x7b2"
abbreviation (input) CSR_DSCRATCH1 :: nat where "CSR_DSCRATCH1 \<equiv> 0x7b3"
abbreviation (input) CSR_MCYCLE :: nat where "CSR_MCYCLE \<equiv> 0xb00"
abbreviation (input) CSR_MINSTRET :: nat where "CSR_MINSTRET \<equiv> 0xb02"
abbreviation (input) CSR_MCYCLEH :: nat where "CSR_MCYCLEH \<equiv> 0xb80"
abbreviation (input) CSR_MINSTRETH :: nat where "CSR_MINSTRETH \<equiv> 0xb82"
abbreviation (input) CSR_MVENDORID :: nat where "CSR_MVENDORID \<equiv> 0xf11"
abbreviation (input) CSR_MARCHID :: nat where "CSR_MARCHID \<equiv> 0xf12"
abbreviation (input) CSR_MIMPID :: nat where "CSR_MIMPID \<equiv> 0xf13"
abbreviation (input) CSR_MHARTID :: nat where "CSR_MHARTID \<equiv> 0xf14"
abbreviation (input) CSR_HPMCOUNTER3 :: nat where "CSR_HPMCOUNTER3 \<equiv> 0xc03"
abbreviation (input) CSR_HPMCOUNTER31 :: nat where "CSR_HPMCOUNTER31 \<equiv> 0xc1f"
abbreviation (input) CSR_HPMCOUNTER3H :: nat where "CSR_HPMCOUNTER3H \<equiv> 0xc83"
abbreviation (input) CSR_HPMCOUNTER31H :: nat where "CSR_HPMCOUNTER31H \<equiv> 0xc9f"
abbreviation (input) CSR_MHPMCOUNTER3 :: nat where "CSR_MHPMCOUNTER3 \<equiv> 0xb03"
abbreviation (input) CSR_MHPMCOUNTER31 :: nat where "CSR_MHPMCOUNTER31 \<equiv> 0xb1f"
abbreviation (input) CSR_MHPMCOUNTER3H :: nat where "CSR_MHPMCOUNTER3H \<equiv> 0xb83"
abbreviation (input) CSR_MHPMCOUNTER31H :: nat where "CSR_MHPMCOUNTER31H \<equiv> 0xb9f"
abbreviation (input) CSR_MHPMEVENT3 :: nat where "CSR_MHPMEVENT3 \<equiv> 0x323"
abbreviation (input) CSR_MHPMEVENT31 :: nat where "CSR_MHPMEVENT31 \<equiv> 0x33f"

definition MSTATUS_SIE :: reg_t where "MSTATUS_SIE = 0x2"
definition MSTATUS_MIE :: reg_t where "MSTATUS_MIE = 0x8"
definition MSTATUS_SPIE :: reg_t where "MSTATUS_SPIE = 0x20"
definition MSTATUS_MPIE :: reg_t where "MSTATUS_MPIE = 0x80"
definition MSTATUS_SPP :: reg_t where "MSTATUS_SPP = 0x100"
definition MSTATUS_VS :: reg_t where "MSTATUS_VS = 0x600"
definition MSTATUS_MPP :: reg_t where "MSTATUS_MPP = 0x1800"
definition MSTATUS_XS :: reg_t where "MSTATUS_XS = 0x18000"
definition MSTATUS_MPRV :: reg_t where "MSTATUS_MPRV = 0x20000"
definition MSTATUS_SUM :: reg_t where "MSTATUS_SUM = 0x40000"
definition MSTATUS_MXR :: reg_t where "MSTATUS_MXR = 0x80000"
definition MSTATUS_TVM :: reg_t where "MSTATUS_TVM = 0x100000"
definition MSTATUS_TW :: reg_t where "MSTATUS_TW = 0x200000"
definition MSTATUS_TSR :: reg_t where "MSTATUS_TSR = 0x400000"
definition MSTATUS_UXL :: reg_t where "MSTATUS_UXL = 0x300000000"
definition MSTATUS_SXL :: reg_t where "MSTATUS_SXL = 0xC00000000"
definition MSTATUS_GVA :: reg_t where "MSTATUS_GVA = 0x4000000000"
definition MSTATUS_MPV :: reg_t where "MSTATUS_MPV = 0x8000000000"
definition HSTATUS_VTSR :: reg_t where "HSTATUS_VTSR = 0x400000"
definition HSTATUS_VTW :: reg_t where "HSTATUS_VTW = 0x200000"
definition HSTATUS_VTVM :: reg_t where "HSTATUS_VTVM = 0x100000"
definition HSTATUS_HU :: reg_t where "HSTATUS_HU = 0x200"
definition HSTATUS_SPVP :: reg_t where "HSTATUS_SPVP = 0x100"
definition HSTATUS_SPV :: reg_t where "HSTATUS_SPV = 0x80"
definition HSTATUS_GVA :: reg_t where "HSTATUS_GVA = 0x40"
definition SATP32_MODE :: reg_t where "SATP32_MODE = 0x80000000"
definition SATP32_PPN :: reg_t where "SATP32_PPN = 0x3FFFFF"
definition SATP64_MODE :: reg_t where "SATP64_MODE = 0xF000000000000000"
definition SATP64_PPN :: reg_t where "SATP64_PPN = 0xFFFFFFFFFFF"
definition HGATP32_MODE :: reg_t where "HGATP32_MODE = 0x80000000"
definition HGATP32_PPN :: reg_t where "HGATP32_PPN = 0x3FFFFF"
definition HGATP64_MODE :: reg_t where "HGATP64_MODE = 0xF000000000000000"
definition HGATP64_PPN :: reg_t where "HGATP64_PPN = 0xFFFFFFFFFFF"

text \<open>The fields of \<^verbatim>\<open>sstatus\<close> are the ones of \<^verbatim>\<open>mstatus\<close> of the same name.\<close>

abbreviation (input) SSTATUS_SIE :: reg_t where "SSTATUS_SIE \<equiv> MSTATUS_SIE"
abbreviation (input) SSTATUS_SPIE :: reg_t where "SSTATUS_SPIE \<equiv> MSTATUS_SPIE"
abbreviation (input) SSTATUS_SPP :: reg_t where "SSTATUS_SPP \<equiv> MSTATUS_SPP"
abbreviation (input) SSTATUS_VS :: reg_t where "SSTATUS_VS \<equiv> MSTATUS_VS"
abbreviation (input) SSTATUS_FS :: reg_t where "SSTATUS_FS \<equiv> MSTATUS_FS"
abbreviation (input) SSTATUS_XS :: reg_t where "SSTATUS_XS \<equiv> MSTATUS_XS"
abbreviation (input) SSTATUS_SUM :: reg_t where "SSTATUS_SUM \<equiv> MSTATUS_SUM"
abbreviation (input) SSTATUS_MXR :: reg_t where "SSTATUS_MXR \<equiv> MSTATUS_MXR"
abbreviation (input) SSTATUS_UXL :: reg_t where "SSTATUS_UXL \<equiv> MSTATUS_UXL"
abbreviation (input) SSTATUS32_SD :: reg_t where "SSTATUS32_SD \<equiv> MSTATUS32_SD"
abbreviation (input) SSTATUS64_SD :: reg_t where "SSTATUS64_SD \<equiv> MSTATUS64_SD"

definition SSTATUS_VS_MASK :: reg_t where
  "SSTATUS_VS_MASK = SSTATUS_SIE OR SSTATUS_SPIE OR SSTATUS_SPP OR SSTATUS_SUM OR SSTATUS_MXR OR SSTATUS_UXL"

definition MIP_SSIP :: reg_t where "MIP_SSIP = 0x2"
definition MIP_VSSIP :: reg_t where "MIP_VSSIP = 0x4"
definition MIP_MSIP :: reg_t where "MIP_MSIP = 0x8"
definition MIP_STIP :: reg_t where "MIP_STIP = 0x20"
definition MIP_VSTIP :: reg_t where "MIP_VSTIP = 0x40"
definition MIP_MTIP :: reg_t where "MIP_MTIP = 0x80"
definition MIP_SEIP :: reg_t where "MIP_SEIP = 0x200"
definition MIP_VSEIP :: reg_t where "MIP_VSEIP = 0x400"
definition MIP_MEIP :: reg_t where "MIP_MEIP = 0x800"
definition MIP_SGEIP :: reg_t where "MIP_SGEIP = 0x1000"

definition MIP_VS_MASK :: reg_t where
  "MIP_VS_MASK = MIP_VSSIP OR MIP_VSTIP OR MIP_VSEIP"

definition MIP_HS_MASK :: reg_t where
  "MIP_HS_MASK = MIP_VS_MASK OR MIP_SGEIP"

definition MIDELEG_FORCED_MASK :: reg_t where
  "MIDELEG_FORCED_MASK = MIP_HS_MASK"

abbreviation (input) IRQ_M_EXT :: nat where "IRQ_M_EXT \<equiv> 11"
abbreviation (input) IRQ_COP :: nat where "IRQ_COP \<equiv> 12"

abbreviation (input) PRV_U :: reg_t where "PRV_U \<equiv> 0"
abbreviation (input) PRV_S :: reg_t where "PRV_S \<equiv> 1"
abbreviation (input) PRV_HS :: reg_t where "PRV_HS \<equiv> 2"
abbreviation (input) PRV_M :: reg_t where "PRV_M \<equiv> 3"

abbreviation (input) SATP_MODE_OFF :: reg_t where "SATP_MODE_OFF \<equiv> 0"
abbreviation (input) SATP_MODE_SV32 :: reg_t where "SATP_MODE_SV32 \<equiv> 1"
abbreviation (input) SATP_MODE_SV39 :: reg_t where "SATP_MODE_SV39 \<equiv> 8"
abbreviation (input) SATP_MODE_SV48 :: reg_t where "SATP_MODE_SV48 \<equiv> 9"
abbreviation (input) SATP_MODE_SV57 :: reg_t where "SATP_MODE_SV57 \<equiv> 10"
abbreviation (input) SATP_MODE_SV64 :: reg_t where "SATP_MODE_SV64 \<equiv> 11"
abbreviation (input) HGATP_MODE_OFF :: reg_t where "HGATP_MODE_OFF \<equiv> 0"
abbreviation (input) HGATP_MODE_SV32X4 :: reg_t where "HGATP_MODE_SV32X4 \<equiv> 1"
abbreviation (input) HGATP_MODE_SV39X4 :: reg_t where "HGATP_MODE_SV39X4 \<equiv> 8"
abbreviation (input) HGATP_MODE_SV48X4 :: reg_t where "HGATP_MODE_SV48X4 \<equiv> 9"

definition PMP_R :: uint8_t where "PMP_R = 0x01"
definition PMP_W :: uint8_t where "PMP_W = 0x02"
definition PMP_X :: uint8_t where "PMP_X = 0x04"
definition PMP_A :: uint8_t where "PMP_A = 0x18"
definition PMP_L :: uint8_t where "PMP_L = 0x80"
definition PMP_TOR :: uint8_t where "PMP_TOR = 0x08"
definition PMP_NA4 :: uint8_t where "PMP_NA4 = 0x10"
definition PMP_NAPOT :: uint8_t where "PMP_NAPOT = 0x18"

abbreviation (input) PMP_SHIFT :: nat where "PMP_SHIFT \<equiv> 2"
abbreviation (input) PGSHIFT :: nat where "PGSHIFT \<equiv> 12"
abbreviation (input) MAX_PADDR_BITS :: nat where "MAX_PADDR_BITS \<equiv> 32"
abbreviation (input) max_pmp :: nat where "max_pmp \<equiv> 16"
abbreviation (input) num_triggers :: nat where "num_triggers \<equiv> 4"
abbreviation (input) TLB_ENTRIES :: nat where "TLB_ENTRIES \<equiv> 256"

abbreviation (input) CAUSE_MISALIGNED_FETCH :: nat where "CAUSE_MISALIGNED_FETCH \<equiv> 0x0"
abbreviation (input) CAUSE_FETCH_ACCESS :: nat where "CAUSE_FETCH_ACCESS \<equiv> 0x1"
abbreviation (input) CAUSE_ILLEGAL_INSTRUCTION :: nat where "CAUSE_ILLEGAL_INSTRUCTION \<equiv> 0x2"
abbreviation (input) CAUSE_BREAKPOINT :: nat where "CAUSE_BREAKPOINT \<equiv> 0x3"
abbreviation (input) CAUSE_MISALIGNED_LOAD :: nat where "CAUSE_MISALIGNED_LOAD \<equiv> 0x4"
abbreviation (input) CAUSE_LOAD_ACCESS :: nat where "CAUSE_LOAD_ACCESS \<equiv> 0x5"
abbreviation (input) CAUSE_MISALIGNED_STORE :: nat where "CAUSE_MISALIGNED_STORE \<equiv> 0x6"
abbreviation (input) CAUSE_STORE_ACCESS :: nat where "CAUSE_STORE_ACCESS \<equiv> 0x7"
abbreviation (input) CAUSE_USER_ECALL :: nat where "CAUSE_USER_ECALL \<equiv> 0x8"
abbreviation (input) CAUSE_SUPERVISOR_ECALL :: nat where "CAUSE_SUPERVISOR_ECALL \<equiv> 0x9"
abbreviation (input) CAUSE_VIRTUAL_SUPERVISOR_ECALL :: nat where "CAUSE_VIRTUAL_SUPERVISOR_ECALL \<equiv> 0xa"
abbreviation (input) CAUSE_MACHINE_ECALL :: nat where "CAUSE_MACHINE_ECALL \<equiv> 0xb"
abbreviation (input) CAUSE_FETCH_PAGE_FAULT :: nat where "CAUSE_FETCH_PAGE_FAULT \<equiv> 0xc"
abbreviation (input) CAUSE_LOAD_PAGE_FAULT :: nat where "CAUSE_LOAD_PAGE_FAULT \<equiv> 0xd"
abbreviation (input) CAUSE_STORE_PAGE_FAULT :: nat where "CAUSE_STORE_PAGE_FAULT \<equiv> 0xf"
abbreviation (input) CAUSE_FETCH_GUEST_PAGE_FAULT :: nat where "CAUSE_FETCH_GUEST_PAGE_FAULT \<equiv> 0x14"
abbreviation (input) CAUSE_LOAD_GUEST_PAGE_FAULT :: nat where "CAUSE_LOAD_GUEST_PAGE_FAULT \<equiv> 0x15"
abbreviation (input) CAUSE_VIRTUAL_INSTRUCTION :: nat where "CAUSE_VIRTUAL_INSTRUCTION \<equiv> 0x16"
abbreviation (input) CAUSE_STORE_GUEST_PAGE_FAULT :: nat where "CAUSE_STORE_GUEST_PAGE_FAULT \<equiv> 0x17"

abbreviation (input) ext_A :: nat where "ext_A \<equiv> 0x41"
abbreviation (input) ext_H :: nat where "ext_H \<equiv> 0x48"
abbreviation (input) ext_S :: nat where "ext_S \<equiv> 0x53"
abbreviation (input) ext_U :: nat where "ext_U \<equiv> 0x55"
abbreviation (input) ext_V :: nat where "ext_V \<equiv> 0x56"

definition get_field :: "'a::len word \<Rightarrow> 'a word \<Rightarrow> 'a word" where
  "get_field reg msk = (reg AND msk) div (msk AND NOT (push_bit 1 msk))"

definition set_field :: "'a::len word \<Rightarrow> 'a word \<Rightarrow> 'a word \<Rightarrow> 'a word" where
  "set_field reg msk val = (reg AND NOT msk) OR ((val * (msk AND NOT (push_bit 1 msk))) AND msk)"

section \<open>The state\<close>

record dcsr_t =
  dcsr_prv :: uint8_t
  dcsr_step :: bool
  ebreakm :: bool
  ebreakh :: bool
  ebreaks :: bool
  ebreaku :: bool
  halt :: bool
  dcsr_cause :: uint8_t

record mcontrol_t =
  mc_type :: uint8_t
  dmode :: bool
  maskmax :: uint8_t
  mc_select :: bool
  timing :: bool
  mc_action :: uint64_t
  chain :: bool
  mc_match :: uint64_t
  mc_m :: bool
  mc_h :: bool
  mc_s :: bool
  mc_u :: bool
  mc_execute :: bool
  mc_store :: bool
  mc_load :: bool

record tlb_entry_t =
  host_offset :: reg_t
  target_offset :: reg_t

record mmu_t =
  tlb_insn_tag :: "reg_t list"
  tlb_load_tag :: "reg_t list"
  tlb_store_tag :: "reg_t list"
  tlb_data :: "tlb_entry_t list"
  check_triggers_fetch :: bool
  check_triggers_load :: bool
  check_triggers_store :: bool
  load_reservation_address :: reg_t

datatype step_t = STEP_NONE | STEP_STEPPING | STEP_STEPPED

record hart_t = processor_t +
  pc :: reg_t
  prv :: reg_t
  v :: bool
  mepc :: reg_t
  mtval :: reg_t
  mscratch :: reg_t
  mtvec :: reg_t
  mcause :: reg_t
  minstret :: reg_t
  mie :: reg_t
  mip :: reg_t
  medeleg :: reg_t
  mideleg :: reg_t
  mcounteren :: uint32_t
  scounteren :: uint32_t
  sepc :: reg_t
  stval :: reg_t
  sscratch :: reg_t
  stvec :: reg_t
  satp :: reg_t
  scause :: reg_t
  mtval2 :: reg_t
  mtinst :: reg_t
  hstatus :: reg_t
  hideleg :: reg_t
  hedeleg :: reg_t
  hcounteren :: uint32_t
  htval :: reg_t
  htinst :: reg_t
  hgatp :: reg_t
  vsstatus :: reg_t
  vstvec :: reg_t
  vsscratch :: reg_t
  vsepc :: reg_t
  vscause :: reg_t
  vstval :: reg_t
  vsatp :: reg_t
  dpc :: reg_t
  dscratch0 :: reg_t
  dscratch1 :: reg_t
  dcsr :: dcsr_t
  tselect :: reg_t
  mcontrol :: "mcontrol_t list"
  tdata2 :: "reg_t list"
  debug_mode :: bool
  pmpcfg :: "uint8_t list"
  pmpaddr :: "reg_t list"
  serialized :: bool
  single_step :: step_t
  max_isa :: reg_t
  coprocessor :: bool
  hart_id :: uint32_t
  n_pmp :: nat
  lg_pmp_granularity :: nat
  vstart :: reg_t
  vxsat :: reg_t
  vxrm :: reg_t
  vl :: reg_t
  vtype :: reg_t
  vlenb :: reg_t
  VLEN :: reg_t
  mmu :: mmu_t

section \<open>The translation cache and privilege\<close>

definition mmu_flush_tlb :: "mmu_t \<Rightarrow> mmu_t" where
  "mmu_flush_tlb m = m\<lparr>tlb_insn_tag := replicate TLB_ENTRIES (- 1), tlb_load_tag := replicate TLB_ENTRIES (- 1),
     tlb_store_tag := replicate TLB_ENTRIES (- 1)\<rparr>"

definition flush_tlb :: "hart_t \<Rightarrow> hart_t" where
  "flush_tlb h = h\<lparr>mmu := mmu_flush_tlb (mmu h)\<rparr>"

definition legalize_privilege :: "reg_t \<Rightarrow> 'a arch_t_scheme \<Rightarrow> reg_t" where
  "legalize_privilege p h =
     (if \<not> supports_extension ext_U h then PRV_M
      else if p = PRV_HS \<and> \<not> supports_extension ext_H h \<or> p = PRV_S \<and> \<not> supports_extension ext_S h then PRV_U
      else p)"

definition set_privilege :: "reg_t \<Rightarrow> hart_t \<Rightarrow> hart_t" where
  "set_privilege p h = (let h = flush_tlb h in h\<lparr>prv := legalize_privilege p h\<rparr>)"

definition xlen_to_uxl :: "nat \<Rightarrow> reg_t" where
  "xlen_to_uxl xlen = (if xlen = 32 then 1 else 2)"

definition pmp_tor_mask :: "hart_t \<Rightarrow> reg_t" where
  "pmp_tor_mask h = - push_bit (lg_pmp_granularity h - PMP_SHIFT) 1"

definition trigger_updated :: "hart_t \<Rightarrow> hart_t" where
  "trigger_updated h =
     (let h = flush_tlb h
      in h\<lparr>mmu := (mmu h)\<lparr>check_triggers_fetch := list_ex mc_execute (mcontrol h),
           check_triggers_load := list_ex mc_load (mcontrol h),
           check_triggers_store := list_ex mc_store (mcontrol h)\<rparr>\<rparr>)"

definition dirty_vs_state :: "nat \<Rightarrow> 'a arch_t_scheme \<Rightarrow> 'a arch_t_scheme" where
  "dirty_vs_state xlen p =
     p\<lparr>mstatus := mstatus p OR (MSTATUS_VS OR (if xlen = 64 then MSTATUS64_SD else MSTATUS32_SD))\<rparr>"

section \<open>Physical memory protection registers\<close>

definition set_pmpaddr :: "nat \<Rightarrow> reg_t \<Rightarrow> hart_t \<Rightarrow> hart_t" where
  "set_pmpaddr i val h =
     (let locked = pmpcfg h ! i AND PMP_L \<noteq> 0;
          next_locked = i + 1 < max_pmp \<and> pmpcfg h ! (i + 1) AND PMP_L \<noteq> 0;
          next_tor = i + 1 < max_pmp \<and> pmpcfg h ! (i + 1) AND PMP_A = PMP_TOR;
          h = (if i < n_pmp h \<and> \<not> locked \<and> \<not> (next_locked \<and> next_tor)
               then h\<lparr>pmpaddr := (pmpaddr h)[i := val AND (push_bit (MAX_PADDR_BITS - PMP_SHIFT) 1 - 1)]\<rparr>
               else h)
      in flush_tlb h)"

definition legal_pmpcfg :: "nat \<Rightarrow> uint8_t \<Rightarrow> uint8_t" where
  "legal_pmpcfg lg cfg =
     (let cfg = cfg AND (PMP_R OR PMP_W OR PMP_X OR PMP_A OR PMP_L);
          cfg = cfg AND (NOT PMP_W OR (if cfg AND PMP_R \<noteq> 0 then PMP_W else 0))
      in if lg \<noteq> PMP_SHIFT \<and> cfg AND PMP_A = PMP_NA4 then cfg OR PMP_NAPOT else cfg)"

definition set_pmpcfg_entry :: "nat \<Rightarrow> reg_t \<Rightarrow> nat \<Rightarrow> hart_t \<Rightarrow> hart_t" where
  "set_pmpcfg_entry i0 val i h =
     (if i < n_pmp h \<and> pmpcfg h ! i AND PMP_L = 0
      then h\<lparr>pmpcfg := (pmpcfg h)[i := legal_pmpcfg (lg_pmp_granularity h) (ucast (drop_bit (8 * (i - i0)) val))]\<rparr>
      else h)"

definition set_pmpcfg :: "nat \<Rightarrow> nat \<Rightarrow> reg_t \<Rightarrow> hart_t \<Rightarrow> hart_t" where
  "set_pmpcfg xlen r val h =
     (let i0 = r * 4 in flush_tlb (fold (set_pmpcfg_entry i0 val) [i0 ..< i0 + xlen div 8] h))"

section \<open>The status register\<close>

definition mstatus_mask :: "hart_t \<Rightarrow> reg_t" where
  "mstatus_mask h =
     (let has_fs = supports_extension ext_S h \<or> supports_extension ext_F h \<or> supports_extension ext_V h;
          has_vs = supports_extension ext_V h;
          has_mpv = supports_extension ext_S h \<and> supports_extension ext_H h;
          has_gva = has_mpv;
          msk = MSTATUS_MIE OR MSTATUS_MPIE OR MSTATUS_MPRV
              OR (if supports_extension ext_S h then MSTATUS_SUM OR MSTATUS_SIE OR MSTATUS_SPIE else 0)
              OR MSTATUS_MXR OR MSTATUS_TW OR MSTATUS_TVM OR MSTATUS_TSR
              OR (if has_fs then MSTATUS_FS else 0)
              OR (if has_vs then MSTATUS_VS else 0)
              OR (if coprocessor h then MSTATUS_XS else 0)
              OR (if has_gva then MSTATUS_GVA else 0)
              OR (if has_mpv then MSTATUS_MPV else 0)
      in if supports_extension ext_S h then msk OR MSTATUS_SPP else msk)"

definition new_mstatus :: "nat \<Rightarrow> reg_t \<Rightarrow> hart_t \<Rightarrow> reg_t" where
  "new_mstatus xlen val h =
     (let msk = mstatus_mask h;
          rocket_mask = (if val AND MSTATUS_FS \<noteq> 0 then MSTATUS_FS else 0);
          requested_mpp = legalize_privilege (get_field val MSTATUS_MPP) h;
          s = set_field (mstatus h) MSTATUS_MPP requested_mpp;
          s = (s AND NOT msk) OR (val AND msk OR rocket_mask);
          dirty = s AND MSTATUS_FS = MSTATUS_FS \<or> s AND MSTATUS_XS = MSTATUS_XS \<or> s AND MSTATUS_VS = MSTATUS_VS;
          s = (if xlen = 32 then set_field s MSTATUS32_SD (of_bool dirty) else set_field s MSTATUS64_SD (of_bool dirty));
          s = (if supports_extension ext_U h then set_field s MSTATUS_UXL (xlen_to_uxl xlen) else s)
      in if supports_extension ext_S h then set_field s MSTATUS_SXL (xlen_to_uxl xlen) else s)"

definition set_mstatus :: "nat \<Rightarrow> reg_t \<Rightarrow> hart_t \<Rightarrow> hart_t" where
  "set_mstatus xlen val h =
     (let h' = (if (val XOR mstatus h) AND (MSTATUS_MPP OR MSTATUS_MPRV OR MSTATUS_SUM OR MSTATUS_MXR) \<noteq> 0
                then flush_tlb h else h)
      in h'\<lparr>mstatus := new_mstatus xlen val h\<rparr>)"

section \<open>Writes of the other registers\<close>

definition write_masked :: "reg_t \<Rightarrow> reg_t \<Rightarrow> reg_t \<Rightarrow> reg_t" where
  "write_masked old msk val = (old AND NOT msk) OR (val AND msk)"

definition supervisor_ints :: "hart_t \<Rightarrow> reg_t" where
  "supervisor_ints h = (if supports_extension ext_S h then MIP_SSIP OR MIP_STIP OR MIP_SEIP else 0)"

definition vssip_int :: "hart_t \<Rightarrow> reg_t" where
  "vssip_int h = (if supports_extension ext_H h then MIP_VSSIP else 0)"

definition hypervisor_ints :: "hart_t \<Rightarrow> reg_t" where
  "hypervisor_ints h = (if supports_extension ext_H h then MIP_HS_MASK else 0)"

definition delegable_ints :: "hart_t \<Rightarrow> reg_t" where
  "delegable_ints h = supervisor_ints h OR push_bit IRQ_COP (of_bool (coprocessor h))"

definition all_ints :: "hart_t \<Rightarrow> reg_t" where
  "all_ints h = delegable_ints h OR hypervisor_ints h OR MIP_MSIP OR MIP_MTIP OR MIP_MEIP"

definition medeleg_mask :: reg_t where
  "medeleg_mask = push_bit CAUSE_MISALIGNED_FETCH 1 OR push_bit CAUSE_ILLEGAL_INSTRUCTION 1 OR
     push_bit CAUSE_BREAKPOINT 1 OR push_bit CAUSE_MISALIGNED_LOAD 1 OR push_bit CAUSE_MISALIGNED_STORE 1 OR
     push_bit CAUSE_USER_ECALL 1 OR push_bit CAUSE_FETCH_PAGE_FAULT 1 OR push_bit CAUSE_LOAD_PAGE_FAULT 1 OR
     push_bit CAUSE_STORE_PAGE_FAULT 1"

definition hedeleg_mask :: reg_t where
  "hedeleg_mask = push_bit CAUSE_MISALIGNED_FETCH 1 OR push_bit CAUSE_BREAKPOINT 1 OR
     push_bit CAUSE_MISALIGNED_LOAD 1 OR push_bit CAUSE_LOAD_ACCESS 1 OR push_bit CAUSE_MISALIGNED_STORE 1 OR
     push_bit CAUSE_STORE_ACCESS 1 OR push_bit CAUSE_USER_ECALL 1 OR push_bit CAUSE_FETCH_PAGE_FAULT 1 OR
     push_bit CAUSE_LOAD_PAGE_FAULT 1 OR push_bit CAUSE_STORE_PAGE_FAULT 1"

definition rv64_ppn_mask :: reg_t where
  "rv64_ppn_mask = push_bit (MAX_PADDR_BITS - PGSHIFT) 1 - 1"

text \<open>The 40-bit exception program counters: bit 39 is copied upwards.\<close>

definition legal_epc :: "reg_t \<Rightarrow> reg_t" where
  "legal_epc val = push_bit 39 (- (drop_bit 39 val AND 1)) OR ((val AND NOT 1) AND (push_bit 40 1 - 1))"

definition satp_value :: "nat \<Rightarrow> reg_t \<Rightarrow> reg_t \<Rightarrow> reg_t" where
  "satp_value xlen ppn val =
     (let reg_val = (if xlen = 32 then val AND (SATP32_PPN OR SATP32_MODE) else 0);
          m = get_field val SATP64_MODE
      in if xlen = 64 \<and> (m = SATP_MODE_OFF \<or> m = SATP_MODE_SV39 \<or> m = SATP_MODE_SV48)
         then val AND (ppn OR SATP64_MODE) else reg_val)"

definition hgatp_value :: "nat \<Rightarrow> reg_t \<Rightarrow> reg_t" where
  "hgatp_value xlen val =
     (let reg_val = (if xlen = 32 then val AND (HGATP32_PPN OR HGATP32_MODE) else 0);
          m = get_field val HGATP64_MODE
      in if xlen = 64 \<and> (m = HGATP_MODE_OFF \<or> m = HGATP_MODE_SV39X4 \<or> m = HGATP_MODE_SV48X4)
         then val AND (HGATP64_PPN OR HGATP64_MODE OR rv64_ppn_mask) else reg_val)"

definition misa_value :: "reg_t \<Rightarrow> hart_t \<Rightarrow> reg_t" where
  "misa_value val h =
     (let val = (if val AND push_bit 5 1 = 0 then val AND NOT (push_bit 3 1) else val);
          msk = (push_bit 12 1 OR push_bit 0 1 OR push_bit 5 1 OR push_bit 3 1 OR push_bit 2 1 OR push_bit 7 1)
            AND max_isa h
      in (val AND msk) OR (misa h AND NOT msk))"

definition set_misa :: "reg_t \<Rightarrow> hart_t \<Rightarrow> hart_t" where
  "set_misa val h =
     (if val AND push_bit 2 1 = 0 \<and> pc h AND 2 \<noteq> 0 then h
      else let h = h\<lparr>misa := misa_value val h\<rparr>
           in if supports_extension ext_H h then h\<lparr>mideleg := mideleg h OR MIDELEG_FORCED_MASK\<rparr>
              else h\<lparr>mideleg := mideleg h AND NOT MIDELEG_FORCED_MASK\<rparr>)"

definition set_minstret :: "nat \<Rightarrow> reg_t \<Rightarrow> hart_t \<Rightarrow> hart_t" where
  "set_minstret xlen val h =
     h\<lparr>minstret := (if xlen = 32 then push_bit 32 (drop_bit 32 (minstret h)) OR (val AND 0xFFFFFFFF) else val) - 1\<rparr>"

definition set_minstreth :: "reg_t \<Rightarrow> hart_t \<Rightarrow> hart_t" where
  "set_minstreth val h =
     h\<lparr>minstret := (push_bit 32 val OR drop_bit 32 (push_bit 32 (minstret h))) - 1\<rparr>"

definition set_tdata1 :: "nat \<Rightarrow> reg_t \<Rightarrow> hart_t \<Rightarrow> hart_t" where
  "set_tdata1 xlen val h =
     (let i = unat (tselect h); mc = mcontrol h ! i;
          field = (\<lambda>k. get_field val (push_bit k 1) \<noteq> 0)
      in if dmode mc \<and> \<not> debug_mode h then h
         else
           let execute = field 2;
               mc = mc\<lparr>dmode := field (xlen - 5), mc_select := field 19,
                 timing := (if execute then False else field 18),
                 mc_action := get_field val (push_bit 12 0x3F), chain := field 11, mc_match := get_field val (push_bit 7 0xF),
                 mc_m := field 6, mc_h := field 5, mc_s := field 4, mc_u := field 3, mc_execute := execute,
                 mc_store := field 1, mc_load := field 0\<rparr>
           in trigger_updated (h\<lparr>mcontrol := (mcontrol h)[i := mc]\<rparr>))"

definition set_tdata2 :: "reg_t \<Rightarrow> hart_t \<Rightarrow> hart_t" where
  "set_tdata2 val h =
     (if dmode (mcontrol h ! unat (tselect h)) \<and> \<not> debug_mode h then h
      else if tselect h < of_nat num_triggers then h\<lparr>tdata2 := (tdata2 h)[unat (tselect h) := val]\<rparr>
      else h)"

definition set_dcsr :: "reg_t \<Rightarrow> hart_t \<Rightarrow> hart_t" where
  "set_dcsr val h =
     (let field = (\<lambda>k. get_field val (push_bit k 1) \<noteq> 0)
      in h\<lparr>dcsr := (dcsr h)\<lparr>dcsr_prv := ucast (get_field val 3), dcsr_step := field 2, ebreakm := field 15,
           ebreakh := field 14, ebreaks := field 13, ebreaku := field 12, halt := field 3\<rparr>\<rparr>)"

text \<open>The cases of the switch, by the group of the register; no value when it is not in the group.\<close>

definition set_csr_user :: "nat \<Rightarrow> nat \<Rightarrow> reg_t \<Rightarrow> hart_t \<Rightarrow> hart_t option" where
  "set_csr_user xlen which val h =
     (if which = CSR_FFLAGS then Some ((dirty_fp_state xlen h)\<lparr>fflags := ucast (val AND 0x1F)\<rparr>)
      else if which = CSR_FRM then Some ((dirty_fp_state xlen h)\<lparr>frm := ucast (val AND 0x7)\<rparr>)
      else if which = CSR_FCSR
      then Some ((dirty_fp_state xlen h)\<lparr>fflags := ucast (val AND 0x1F), frm := ucast (drop_bit 5 (val AND 0xE0))\<rparr>)
      else if which = CSR_VCSR
      then Some ((dirty_vs_state xlen h)\<lparr>vxsat := val AND 1, vxrm := drop_bit 1 (val AND 6)\<rparr>)
      else if which = CSR_VSTART then Some ((dirty_vs_state xlen h)\<lparr>vstart := val AND (VLEN h - 1)\<rparr>)
      else if which = CSR_VXSAT then Some ((dirty_vs_state xlen h)\<lparr>vxsat := val AND 1\<rparr>)
      else if which = CSR_VXRM then Some ((dirty_vs_state xlen h)\<lparr>vxrm := val AND 3\<rparr>)
      else None)"

definition set_csr_machine_trap :: "nat \<Rightarrow> nat \<Rightarrow> reg_t \<Rightarrow> hart_t \<Rightarrow> (trap_t + hart_t) option" where
  "set_csr_machine_trap xlen which val h =
     (if which = CSR_MEPC then Some (Inr (h\<lparr>mepc := legal_epc val\<rparr>))
      else if which = CSR_MTVEC then Some (Inr (h\<lparr>mtvec := val AND NOT 2\<rparr>))
      else if which = CSR_MSCRATCH then Some (Inr (h\<lparr>mscratch := val\<rparr>))
      else if which = CSR_MCAUSE
      then Some (Inr (h\<lparr>mcause := write_masked (mcause h) (push_bit (xlen - 1) 1 + 15) val\<rparr>))
      else if which = CSR_MTVAL then Some (Inr (h\<lparr>mtval := val\<rparr>))
      else if which = CSR_MTVAL2
      then Some (if supports_extension ext_H h then Inr (h\<lparr>mtval2 := val\<rparr>) else Inl (trap_illegal_instruction (Some 0)))
      else if which = CSR_MTINST
      then Some (if supports_extension ext_H h then Inr (h\<lparr>mtinst := val\<rparr>) else Inl (trap_illegal_instruction (Some 0)))
      else if which = CSR_MISA then Some (Inr (set_misa val h))
      else None)"

definition set_csr_machine :: "nat \<Rightarrow> nat \<Rightarrow> reg_t \<Rightarrow> hart_t \<Rightarrow> (trap_t + hart_t) option" where
  "set_csr_machine xlen which val h =
     (if which = CSR_MSTATUS then Some (Inr (set_mstatus xlen val h))
      else if which = CSR_MIP
      then Some (Inr (h\<lparr>mip := write_masked (mip h)
        ((supervisor_ints h OR hypervisor_ints h) AND (MIP_SSIP OR MIP_STIP OR vssip_int h OR MIP_SEIP OR MIP_MEIP)) val\<rparr>))
      else if which = CSR_MIE then Some (Inr (h\<lparr>mie := write_masked (mie h) (all_ints h) val\<rparr>))
      else if which = CSR_MIDELEG then Some (Inr (h\<lparr>mideleg := write_masked (mideleg h) (delegable_ints h) val\<rparr>))
      else if which = CSR_MEDELEG then Some (Inr (h\<lparr>medeleg := write_masked (medeleg h) medeleg_mask val\<rparr>))
      else if which = CSR_MINSTRET \<or> which = CSR_MCYCLE then Some (Inr (set_minstret xlen val h))
      else if which = CSR_MINSTRETH \<or> which = CSR_MCYCLEH then Some (Inr (set_minstreth val h))
      else if which = CSR_MCOUNTEREN then Some (Inr (h\<lparr>mcounteren := ucast val\<rparr>))
      else set_csr_machine_trap xlen which val h)"

definition set_csr_supervisor :: "nat \<Rightarrow> nat \<Rightarrow> reg_t \<Rightarrow> hart_t \<Rightarrow> hart_t option" where
  "set_csr_supervisor xlen which val h =
     (if which = CSR_SCOUNTEREN then Some (h\<lparr>scounteren := ucast val\<rparr>)
      else if which = CSR_SSTATUS
      then let msk = SSTATUS_SIE OR SSTATUS_SPIE OR SSTATUS_SPP OR SSTATUS_FS OR SSTATUS_XS OR SSTATUS_SUM OR SSTATUS_MXR
             OR (if supports_extension ext_V h then SSTATUS_VS else 0)
           in Some (set_mstatus xlen (zext_xlen xlen (write_masked (mstatus h) msk val)) h)
      else if which = CSR_SIP
      then Some (if v h then h\<lparr>mip := write_masked (mip h) (hideleg h AND MIP_VSSIP) (push_bit 1 val)\<rparr>
                 else h\<lparr>mip := write_masked (mip h) (mideleg h AND MIP_SSIP) val\<rparr>)
      else if which = CSR_SIE
      then Some (if v h then h\<lparr>mie := write_masked (mie h) (hideleg h AND MIP_VS_MASK) (push_bit 1 val)\<rparr>
                 else h\<lparr>mie := write_masked (mie h) (mideleg h AND NOT MIP_HS_MASK) val\<rparr>)
      else if which = CSR_SATP
      then let h = flush_tlb h; reg_val = satp_value xlen (SATP64_PPN AND rv64_ppn_mask) val
           in Some (if v h then h\<lparr>vsatp := reg_val\<rparr> else h\<lparr>satp := reg_val\<rparr>)
      else if which = CSR_SEPC
      then Some (if v h then h\<lparr>vsepc := val AND NOT 1\<rparr> else h\<lparr>sepc := legal_epc val\<rparr>)
      else if which = CSR_STVEC
      then Some (if v h then h\<lparr>vstvec := val AND NOT 2\<rparr> else h\<lparr>stvec := val AND NOT 2\<rparr>)
      else if which = CSR_SSCRATCH then Some (if v h then h\<lparr>vsscratch := val\<rparr> else h\<lparr>sscratch := val\<rparr>)
      else if which = CSR_SCAUSE
      then Some (if v h then h\<lparr>vscause := val\<rparr>
                 else h\<lparr>scause := write_masked (scause h) (push_bit (xlen - 1) 1 + 31) val\<rparr>)
      else if which = CSR_STVAL then Some (if v h then h\<lparr>vstval := val\<rparr> else h\<lparr>stval := val\<rparr>)
      else None)"

definition vsstatus_mask :: "nat \<Rightarrow> hart_t \<Rightarrow> reg_t" where
  "vsstatus_mask xlen h =
     SSTATUS_VS_MASK OR (if supports_extension ext_F h then SSTATUS_FS else 0) OR
     (if supports_extension ext_V h then SSTATUS_VS else 0) OR (if xlen = 64 then SSTATUS64_SD else SSTATUS32_SD)"

definition set_csr_hypervisor :: "nat \<Rightarrow> nat \<Rightarrow> reg_t \<Rightarrow> hart_t \<Rightarrow> (trap_t + hart_t) option" where
  "set_csr_hypervisor xlen which val h =
     (if which = CSR_HSTATUS
      then Some (Inr (h\<lparr>hstatus := write_masked (hstatus h) (HSTATUS_VTSR OR HSTATUS_VTW OR HSTATUS_VTVM OR
        HSTATUS_HU OR HSTATUS_SPVP OR HSTATUS_SPV OR HSTATUS_GVA) val\<rparr>))
      else if which = CSR_HEDELEG then Some (Inr (h\<lparr>hedeleg := write_masked (hedeleg h) hedeleg_mask val\<rparr>))
      else if which = CSR_HIDELEG then Some (Inr (h\<lparr>hideleg := write_masked (hideleg h) MIP_VS_MASK val\<rparr>))
      else if which = CSR_HIE then Some (Inr (h\<lparr>mie := write_masked (mie h) MIP_HS_MASK val\<rparr>))
      else if which = CSR_HTIMEDELTA \<or> which = CSR_HTIMEDELTAH then Some (Inl (trap_illegal_instruction (Some 0)))
      else if which = CSR_HCOUNTEREN then Some (Inr (h\<lparr>hcounteren := ucast val\<rparr>))
      else if which = CSR_HGEIE then Some (Inr h)
      else if which = CSR_HTVAL then Some (Inr (h\<lparr>htinst := val\<rparr>))
      else if which = CSR_HIP then Some (Inr (h\<lparr>mip := write_masked (mip h) MIP_VSSIP val\<rparr>))
      else if which = CSR_HVIP then Some (Inr (h\<lparr>mip := write_masked (mip h) MIP_VS_MASK val\<rparr>))
      else if which = CSR_HTINST then Some (Inr (h\<lparr>htinst := val\<rparr>))
      else if which = CSR_HGATP then Some (Inr ((flush_tlb h)\<lparr>hgatp := hgatp_value xlen val\<rparr>))
      else if which = CSR_VSSTATUS
      then Some (Inr (h\<lparr>vsstatus := write_masked (vsstatus h) (vsstatus_mask xlen h) val\<rparr>))
      else if which = CSR_VSIE
      then Some (Inr (h\<lparr>mie := write_masked (mie h) (hideleg h AND MIP_VS_MASK) (push_bit 1 val)\<rparr>))
      else if which = CSR_VSTVEC then Some (Inr (h\<lparr>vstvec := val AND NOT 2\<rparr>))
      else if which = CSR_VSSCRATCH then Some (Inr (h\<lparr>vsscratch := val\<rparr>))
      else if which = CSR_VSEPC then Some (Inr (h\<lparr>vsepc := val AND NOT 1\<rparr>))
      else if which = CSR_VSCAUSE then Some (Inr (h\<lparr>vscause := val\<rparr>))
      else if which = CSR_VSTVAL then Some (Inr (h\<lparr>vstval := val\<rparr>))
      else if which = CSR_VSIP
      then Some (Inr (h\<lparr>mip := write_masked (mip h) (hideleg h AND MIP_VSSIP) (push_bit 1 val)\<rparr>))
      else if which = CSR_VSATP
      then Some (Inr ((flush_tlb h)\<lparr>vsatp := satp_value xlen (SATP64_PPN OR rv64_ppn_mask) val\<rparr>))
      else None)"

definition set_csr_debug :: "nat \<Rightarrow> nat \<Rightarrow> reg_t \<Rightarrow> hart_t \<Rightarrow> hart_t option" where
  "set_csr_debug xlen which val h =
     (if which = CSR_TSELECT then Some (if val < of_nat num_triggers then h\<lparr>tselect := val\<rparr> else h)
      else if which = CSR_TDATA1 then Some (set_tdata1 xlen val h)
      else if which = CSR_TDATA2 then Some (set_tdata2 val h)
      else if which = CSR_DCSR then Some (set_dcsr val h)
      else if which = CSR_DPC then Some (h\<lparr>dpc := val AND NOT 1\<rparr>)
      else if which = CSR_DSCRATCH0 then Some (h\<lparr>dscratch0 := val\<rparr>)
      else if which = CSR_DSCRATCH1 then Some (h\<lparr>dscratch1 := val\<rparr>)
      else None)"

definition set_csr_switch :: "nat \<Rightarrow> nat \<Rightarrow> reg_t \<Rightarrow> hart_t \<Rightarrow> trap_t + hart_t" where
  "set_csr_switch xlen which val h =
     (case set_csr_user xlen which val h of Some h' \<Rightarrow> Inr h'
      | None \<Rightarrow> case set_csr_machine xlen which val h of Some r \<Rightarrow> r
      | None \<Rightarrow> case set_csr_supervisor xlen which val h of Some h' \<Rightarrow> Inr h'
      | None \<Rightarrow> case set_csr_hypervisor xlen which val h of Some r \<Rightarrow> r
      | None \<Rightarrow> case set_csr_debug xlen which val h of Some h' \<Rightarrow> Inr h'
      | None \<Rightarrow> Inr h)"

definition pmpaddr_csr :: "nat \<Rightarrow> bool" where
  "pmpaddr_csr which \<longleftrightarrow> CSR_PMPADDR0 \<le> which \<and> which < CSR_PMPADDR0 + max_pmp"

definition pmpcfg_csr :: "nat \<Rightarrow> bool" where
  "pmpcfg_csr which \<longleftrightarrow> CSR_PMPCFG0 \<le> which \<and> which < CSR_PMPCFG0 + max_pmp div 4"

definition set_csr :: "nat \<Rightarrow> nat \<Rightarrow> reg_t \<Rightarrow> hart_t \<Rightarrow> trap_t + hart_t" where
  "set_csr xlen which val h =
     (let val = zext_xlen xlen val
      in if (pmpaddr_csr which \<or> pmpcfg_csr which) \<and> n_pmp h = 0 then Inr h
         else
           let h = (if pmpaddr_csr which then set_pmpaddr (which - CSR_PMPADDR0) val h else h);
               h = (if pmpcfg_csr which then set_pmpcfg xlen (which - CSR_PMPCFG0) val h else h)
           in set_csr_switch xlen which val h)"

section \<open>Fields\<close>

text \<open>A field is the bits from position \<open>k\<close> of width \<open>w\<close>.\<close>

lemma field_unit:
  fixes m :: "'a::len word"
  assumes "m = push_bit k (mask w)" "0 < w" "k + w \<le> LENGTH('a)"
  shows "m AND NOT (push_bit 1 m) = push_bit k 1"
proof -
  have shifted: "push_bit 1 m = push_bit (Suc k) (mask w)" unfolding assms(1) by (simp only: push_bit_push_bit) simp
  show ?thesis
    unfolding shifted unfolding assms(1)
    by (rule bit_word_eqI, simp only: bit_and_iff bit_not_iff bit_push_bit_iff bit_mask_iff bit_1_iff)
      (use assms(2,3) in auto)
qed

lemma get_field_bits:
  fixes r m :: "'a::len word"
  assumes "m = push_bit k (mask w)" "0 < w" "k + w \<le> LENGTH('a)"
  shows "get_field r m = take_bit w (drop_bit k r)"
proof -
  have "get_field r m = drop_bit k (r AND m)"
    unfolding get_field_def field_unit [OF assms] by (simp add: push_bit_eq_mult drop_bit_eq_div)
  also have "\<dots> = take_bit w (drop_bit k r)"
    unfolding assms(1) by (rule bit_word_eqI) (use assms(3) in \<open>auto simp: bit_simps\<close>)
  finally show ?thesis .
qed

lemma set_field_bits:
  fixes r m x :: "'a::len word"
  assumes "m = push_bit k (mask w)" "0 < w" "k + w \<le> LENGTH('a)"
  shows "set_field r m x = (r AND NOT m) OR push_bit k (take_bit w x)"
proof -
  have "x * push_bit k 1 AND m = push_bit k (take_bit w x)"
    unfolding assms(1) mult.commute [of x] by (simp add: push_bit_eq_mult)
      (simp add: push_bit_eq_mult [symmetric] mult.commute, rule bit_word_eqI, use assms(3) in \<open>auto simp: bit_simps\<close>)
  then show ?thesis unfolding set_field_def field_unit [OF assms] by simp
qed

end
