(* ===== verification/RV_Pmp.thy ===== *)
theory RV_Pmp
  imports RV_Hart
begin

text \<open>
  Physical memory protection (\<^verbatim>\<open>mmu_t::pmp_ok\<close> and \<^verbatim>\<open>mmu_t::pmp_homogeneous\<close> in \<^verbatim>\<open>riscv/mmu.cc\<close>), against a
  specification by the regions of bytes the entries describe.
\<close>

section \<open>The checks\<close>

datatype access_type = LOAD | STORE | FETCH

definition pmp_tor :: "hart_t \<Rightarrow> nat \<Rightarrow> reg_t" where
  "pmp_tor h i = push_bit PMP_SHIFT (pmpaddr h ! i AND pmp_tor_mask h)"

definition pmp_napot_mask :: "hart_t \<Rightarrow> nat \<Rightarrow> reg_t" where
  "pmp_napot_mask h i =
     (let is_na4 = pmpcfg h ! i AND PMP_A = PMP_NA4;
          m = push_bit 1 (pmpaddr h ! i) OR of_bool (\<not> is_na4) OR NOT (pmp_tor_mask h)
      in push_bit PMP_SHIFT (NOT (m AND NOT (m + 1))))"

definition pmp_match :: "hart_t \<Rightarrow> nat \<Rightarrow> reg_t \<Rightarrow> reg_t \<Rightarrow> bool" where
  "pmp_match h i base cur_addr =
     (let tor = pmp_tor h i;
          napot_match = (cur_addr XOR tor) AND pmp_napot_mask h i = 0;
          tor_match = base \<le> cur_addr \<and> cur_addr < tor
      in if pmpcfg h ! i AND PMP_A = PMP_TOR then tor_match else napot_match)"

definition pmp_sectors :: "reg_t \<Rightarrow> nat \<Rightarrow> reg_t list" where
  "pmp_sectors addr len = map (\<lambda>k. addr + of_nat (2 ^ PMP_SHIFT * k)) [0 ..< (len + 3) div 2 ^ PMP_SHIFT]"

definition pmp_allows :: "uint8_t \<Rightarrow> access_type \<Rightarrow> reg_t \<Rightarrow> bool" where
  "pmp_allows cfg type mode \<longleftrightarrow>
     mode = PRV_M \<and> cfg AND PMP_L = 0 \<or> type = LOAD \<and> cfg AND PMP_R \<noteq> 0 \<or>
     type = STORE \<and> cfg AND PMP_W \<noteq> 0 \<or> type = FETCH \<and> cfg AND PMP_X \<noteq> 0"

fun pmp_loop :: "hart_t \<Rightarrow> nat list \<Rightarrow> reg_t \<Rightarrow> reg_t \<Rightarrow> nat \<Rightarrow> access_type \<Rightarrow> reg_t \<Rightarrow> bool" where
  "pmp_loop h [] base addr len type mode = (mode = PRV_M)"
| "pmp_loop h (i # is) base addr len type mode =
     (let cfg = pmpcfg h ! i; any_match = list_ex (pmp_match h i base) (pmp_sectors addr len);
          all_match = list_all (pmp_match h i base) (pmp_sectors addr len)
      in if cfg AND PMP_A \<noteq> 0 \<and> any_match then all_match \<and> pmp_allows cfg type mode
         else pmp_loop h is (pmp_tor h i) addr len type mode)"

definition pmp_ok :: "hart_t \<Rightarrow> reg_t \<Rightarrow> nat \<Rightarrow> access_type \<Rightarrow> reg_t \<Rightarrow> bool" where
  "pmp_ok h addr len type mode \<longleftrightarrow> n_pmp h = 0 \<or> pmp_loop h [0 ..< n_pmp h] 0 addr len type mode"

fun homogeneous_loop :: "hart_t \<Rightarrow> nat list \<Rightarrow> reg_t \<Rightarrow> reg_t \<Rightarrow> reg_t \<Rightarrow> bool" where
  "homogeneous_loop h [] base addr len = True"
| "homogeneous_loop h (i # is) base addr len =
     (let cfg = pmpcfg h ! i; tor = pmp_tor h i;
          begins_after_lower = base \<le> addr;
          begins_after_upper = tor \<le> addr;
          ends_before_lower = addr AND - len < base AND - len;
          ends_before_upper = addr AND - len < tor AND - len;
          tor_homogeneous = ends_before_lower \<or> begins_after_upper \<or> begins_after_lower \<and> ends_before_upper;
          mask_homogeneous = NOT (push_bit 1 (pmp_napot_mask h i)) AND len \<noteq> 0;
          napot_homogeneous = mask_homogeneous \<or> (addr XOR tor) div len \<noteq> 0
      in if cfg AND PMP_A \<noteq> 0 \<and> \<not> (if cfg AND PMP_A = PMP_TOR then tor_homogeneous else napot_homogeneous)
         then False else homogeneous_loop h is tor addr len)"

text \<open>The loop of \<^verbatim>\<open>pmp_homogeneous\<close>; arguments that are not an aligned power of two abort the simulator.\<close>

definition pmp_homogeneous :: "hart_t \<Rightarrow> reg_t \<Rightarrow> reg_t \<Rightarrow> bool option" where
  "pmp_homogeneous h addr len =
     (if (addr OR len) AND (len - 1) \<noteq> 0 then None
      else Some (homogeneous_loop h [0 ..< n_pmp h] 0 addr len))"

section \<open>Trailing ones\<close>

function cto :: "reg_t \<Rightarrow> nat" where
  "cto val = (if val AND 1 = 1 then Suc (cto (drop_bit 1 val)) else 0)"
  by pat_completeness auto

termination
proof (relation "measure unat")
  fix val :: reg_t
  assume "val AND 1 = 1"
  then have "0 < unat val" by (cases "val = 0") (auto simp: unat_gt_0)
  then show "(drop_bit 1 val, val) \<in> measure unat"
    by (simp add: drop_bit_eq_div unat_div)
qed simp

declare cto.simps [simp del]

lemma and_1_iff: "val AND 1 = 1 \<longleftrightarrow> bit val 0" for val :: reg_t
  by (simp add: and_one_eq bit_0 odd_iff_mod_2_eq_one)

lemma cto_bits: "n < cto x \<Longrightarrow> bit x n" "cto x \<le> 64" "\<not> bit x (cto x)"
proof (induction x arbitrary: n rule: cto.induct)
  case (1 x)
  have step: "cto x = (if bit x 0 then Suc (cto (drop_bit 1 x)) else 0)"
    by (subst cto.simps) (simp only: and_1_iff)
  {
    case 1
    then show ?case using "1.IH"(1) [of "n - 1"] by (cases n) (auto simp: step and_1_iff bit_drop_bit_eq split: if_splits)
  next
    case 2
    have "cto (drop_bit 1 x) \<le> 63" if "bit x 0"
    proof (rule ccontr)
      assume "\<not> ?thesis"
      then have "bit (drop_bit 1 x) 63" using "1.IH"(1) [of 63] that by (simp add: and_1_iff)
      then show False using bit_imp_le_length [of x 64] by (simp add: bit_drop_bit_eq)
    qed
    then show ?case by (simp add: step)
  next
    case 3
    then show ?case using "1.IH"(3) by (auto simp: step and_1_iff bit_drop_bit_eq)
  }
qed

text \<open>The bit trick of the code isolates the trailing ones.\<close>

lemma trailing_ones: "x AND NOT (x + 1) = mask (cto x)" for x :: reg_t
proof (cases "cto x = 64")
  case True
  then have "x = - 1" using cto_bits(1) [of _ x] by (intro bit_word_eqI) simp
  then show ?thesis using True by (intro bit_word_eqI) (simp add: bit_simps)
next
  case False
  define t H where "t = cto x" and "H = x AND NOT (mask (Suc t))"
  have t: "t < 64" using False cto_bits(2) [of x] by (simp add: t_def)
  have low: "bit x n" if "n < t" for n using cto_bits(1) that by (simp add: t_def)
  have top: "\<not> bit x t" using cto_bits(3) by (simp add: t_def)
  have bitH: "bit H n \<longleftrightarrow> t < n \<and> bit x n" for n by (auto simp: H_def bit_simps dest: bit_imp_le_length)
  have "x = H OR mask t"
  proof (rule bit_word_eqI)
    fix n
    show "bit x n = bit (H OR mask t) n"
      using low [of n] top bit_imp_le_length [of x n] by (cases "n = t"; cases "n < t") (auto simp: bitH bit_simps)
  qed
  also have "\<dots> = H + mask t"
    by (rule disjunctive_add_eq_or [symmetric], rule bit_word_eqI) (auto simp: bitH bit_simps)
  finally have "x + 1 = H + push_bit t 1" by (simp add: mask_eq_exp_minus_1 push_bit_eq_mult)
  also have "\<dots> = H OR push_bit t 1"
    by (rule disjunctive_add_eq_or, rule bit_word_eqI) (auto simp: bitH bit_simps)
  finally have x1: "x + 1 = H OR push_bit t 1" .
  show ?thesis
  proof (rule bit_word_eqI)
    fix n assume "n < LENGTH(64)"
    then show "bit (x AND NOT (x + 1)) n = bit (mask (cto x) :: reg_t) n"
      unfolding x1 t_def [symmetric] using low [of n] top t
      by (cases "n = t"; cases "n < t") (auto simp: bitH bit_simps)
  qed
qed

section \<open>Regions\<close>

text \<open>
  What an entry describes, as a set of byte addresses: nothing, the bytes from the previous entry's bound
  to its own, four bytes, or the naturally aligned power of two that the trailing ones of its address encode.
  The granularity rounds bounds down and sizes up.
\<close>

definition tor_bound :: "hart_t \<Rightarrow> nat \<Rightarrow> nat" where
  "tor_bound h i = unat (pmpaddr h ! i) div 2 ^ (lg_pmp_granularity h - 2) * 2 ^ lg_pmp_granularity h"

definition napot_size :: "hart_t \<Rightarrow> nat \<Rightarrow> nat" where
  "napot_size h i = 2 ^ (cto (pmpaddr h ! i OR mask (lg_pmp_granularity h - 3)) + 3)"

definition in_region :: "hart_t \<Rightarrow> nat \<Rightarrow> nat \<Rightarrow> bool" where
  "in_region h i a \<longleftrightarrow>
     (let A = pmpcfg h ! i AND PMP_A; p = unat (pmpaddr h ! i)
      in A = PMP_TOR \<and> (if i = 0 then 0 else tor_bound h (i - 1)) \<le> a \<and> a < tor_bound h i \<or>
         A = PMP_NA4 \<and> a div 4 = p \<or>
         A = PMP_NAPOT \<and> a div napot_size h i = 4 * p div napot_size h i)"

text \<open>The registers as the CSR writes leave them.\<close>

definition pmp_wf :: "hart_t \<Rightarrow> bool" where
  "pmp_wf h \<longleftrightarrow>
     length (pmpcfg h) = max_pmp \<and> length (pmpaddr h) = max_pmp \<and> n_pmp h \<le> max_pmp \<and>
     2 \<le> lg_pmp_granularity h \<and> lg_pmp_granularity h \<le> 32 \<and>
     list_all (\<lambda>a. a < 2 ^ 30) (pmpaddr h) \<and>
     list_all (\<lambda>c. c AND 0x60 = 0 \<and> (c AND PMP_W \<noteq> 0 \<longrightarrow> c AND PMP_R \<noteq> 0) \<and>
       (c AND PMP_A = PMP_NA4 \<longrightarrow> lg_pmp_granularity h = 2)) (pmpcfg h)"

lemma tor_mask_bits: "NOT (pmp_tor_mask h) = mask (lg_pmp_granularity h - 2)"
  by (simp add: pmp_tor_mask_def mask_eq_exp_minus_1 push_bit_eq_mult not_eq_complement)

lemma bit_tor_mask: "bit (pmp_tor_mask h) n \<longleftrightarrow> n < 64 \<and> lg_pmp_granularity h - 2 \<le> n"
proof -
  have "pmp_tor_mask h = NOT (mask (lg_pmp_granularity h - 2))" using tor_mask_bits [of h] by (metis bit.double_compl)
  then show ?thesis by (auto simp: bit_simps)
qed

lemma small_bits: "x < 2 ^ 30 \<Longrightarrow> bit x n \<Longrightarrow> n < 30" for x :: reg_t
proof -
  assume "x < 2 ^ 30" "bit x n"
  then have "take_bit 30 x = x" by (simp add: word_eq_unat unat_take_bit word_less_nat_alt)
  then show "n < 30" using \<open>bit x n\<close> by (metis bit_take_bit_iff)
qed

lemma unat_pmp_tor:
  assumes "pmp_wf h" "i < max_pmp"
  shows "unat (pmp_tor h i) = tor_bound h i"
proof -
  define g where "g = lg_pmp_granularity h"
  have p: "pmpaddr h ! i < 2 ^ 30" and g: "2 \<le> g" using assms by (auto simp: pmp_wf_def g_def list_all_length)
  have "pmp_tor h i = push_bit g (drop_bit (g - 2) (pmpaddr h ! i))"
    unfolding pmp_tor_def
    by (rule bit_word_eqI) (use g small_bits [OF p] in \<open>auto simp: bit_simps bit_tor_mask g_def algebra_simps\<close>)
  moreover have "unat (drop_bit (g - 2) (pmpaddr h ! i)) = unat (pmpaddr h ! i) div 2 ^ (g - 2)"
    by (simp only: unat_drop_bit_eq) (simp add: drop_bit_eq_div)
  moreover have "unat (pmpaddr h ! i) div 2 ^ (g - 2) * 2 ^ g < 2 ^ 64"
  proof -
    have "unat (pmpaddr h ! i) div 2 ^ (g - 2) * 2 ^ g = unat (pmpaddr h ! i) div 2 ^ (g - 2) * 2 ^ (g - 2) * 4"
      using le_Suc_ex [OF g] by (auto simp: power_add)
    also have "\<dots> \<le> unat (pmpaddr h ! i) * 4" by simp
    also have "\<dots> < 2 ^ 64" using p by (simp add: word_less_nat_alt)
    finally show ?thesis .
  qed
  ultimately show ?thesis
    unfolding tor_bound_def g_def [symmetric]
    by (simp only: unsigned_push_bit_eq) (simp add: push_bit_eq_mult take_bit_nat_eq_self)
qed

lemma drop_eq_iff: "(a XOR b) AND NOT (mask k) = 0 \<longleftrightarrow> unat a div 2 ^ k = unat b div 2 ^ k" for a b :: reg_t
proof -
  have "(a XOR b) AND NOT (mask k) = 0 \<longleftrightarrow> drop_bit k a = drop_bit k b"
  proof
    assume zero: "(a XOR b) AND NOT (mask k) = 0"
    show "drop_bit k a = drop_bit k b"
    proof (rule bit_word_eqI)
      fix n
      have "\<not> bit ((a XOR b) AND NOT (mask k)) (k + n)" unfolding zero by simp
      then show "bit (drop_bit k a) n = bit (drop_bit k b) n"
        by (auto simp: bit_simps dest: bit_imp_le_length)
    qed
  next
    assume eq: "drop_bit k a = drop_bit k b"
    show "(a XOR b) AND NOT (mask k) = 0"
    proof (rule bit_word_eqI)
      fix n
      have "bit (drop_bit k a) (n - k) = bit (drop_bit k b) (n - k)" unfolding eq by simp
      then show "bit ((a XOR b) AND NOT (mask k)) n = bit 0 n" by (auto simp: bit_simps)
    qed
  qed
  also have "\<dots> \<longleftrightarrow> unat (drop_bit k a) = unat (drop_bit k b)" by (simp add: word_eq_unat)
  finally show ?thesis by (simp only: unat_drop_bit_eq) (simp add: drop_bit_eq_div)
qed

lemma napot_mask_eq:
  assumes "pmp_wf h" "i < max_pmp"
  shows "pmp_napot_mask h i =
    NOT (mask (if pmpcfg h ! i AND PMP_A = PMP_NA4 then 2 else cto (pmpaddr h ! i OR mask (lg_pmp_granularity h - 3)) + 3))"
proof -
  define p where "p = pmpaddr h ! i"
  define m where "m = push_bit 1 p OR of_bool (pmpcfg h ! i AND PMP_A \<noteq> PMP_NA4) OR NOT (pmp_tor_mask h)"
  have "push_bit 2 (NOT (mask k)) = (NOT (mask (k + 2)) :: reg_t)" for k
    by (rule bit_word_eqI) (auto simp: bit_simps)
  then have mask: "pmp_napot_mask h i = NOT (mask (cto m + 2))"
    unfolding pmp_napot_mask_def Let_def m_def [unfolded p_def, symmetric] trailing_ones by simp
  have p: "p < 2 ^ 30" and g: "lg_pmp_granularity h \<le> 32"
    using assms by (auto simp: pmp_wf_def p_def list_all_length)
  show ?thesis
  proof (cases "pmpcfg h ! i AND PMP_A = PMP_NA4")
    case True
    then have "lg_pmp_granularity h = 2" using assms by (auto simp: pmp_wf_def list_all_length)
    then have "m = push_bit 1 p" using True by (simp add: m_def tor_mask_bits)
    then have "\<not> bit m 0" by (simp only: bit_push_bit_iff) simp
    then have "cto m = 0" by (subst cto.simps) (simp only: and_1_iff if_False)
    then show ?thesis using mask True by (simp add: numeral_2_eq_2)
  next
    case False
    then have m: "m = push_bit 1 p OR 1 OR mask (lg_pmp_granularity h - 2)" by (simp add: m_def tor_mask_bits)
    then have "bit m 0" by (simp only: bit_or_iff bit_1_iff) simp
    then have "cto m = Suc (cto (drop_bit 1 m))" by (subst cto.simps) (simp only: and_1_iff if_True)
    moreover have "drop_bit 1 m = p OR mask (lg_pmp_granularity h - 3)"
      unfolding m by (rule bit_word_eqI, simp only: bit_drop_bit_eq bit_or_iff bit_push_bit_iff bit_1_iff bit_mask_iff comp_def)
        (use g in \<open>auto dest: small_bits [OF p]\<close>)
    ultimately show ?thesis using mask False by (simp add: p_def numeral_3_eq_3)
  qed
qed

lemma napot_covers:
  assumes "lg_pmp_granularity h \<le> 32"
  shows "lg_pmp_granularity h \<le> cto (x OR mask (lg_pmp_granularity h - 3)) + 3"
proof -
  have "\<not> bit (x OR mask (lg_pmp_granularity h - 3)) (cto (x OR mask (lg_pmp_granularity h - 3)))" by (rule cto_bits)
  then show ?thesis using assms by (auto simp: bit_simps)
qed

lemma tor_block:
  assumes "pmp_wf h" "i < max_pmp" "lg_pmp_granularity h \<le> k"
  shows "unat (pmp_tor h i) div 2 ^ k = 4 * unat (pmpaddr h ! i) div 2 ^ k"
proof -
  define g where "g = lg_pmp_granularity h"
  have g: "2 \<le> g" using assms by (simp add: pmp_wf_def g_def)
  have k: "(2 :: nat) ^ k = 2 ^ g * 2 ^ (k - g)" using assms(3) by (simp add: g_def flip: power_add)
  have "(2 :: nat) ^ g = 4 * 2 ^ (g - 2)" using le_Suc_ex [OF g] by (auto simp: power_add)
  then have "4 * unat (pmpaddr h ! i) div 2 ^ g = unat (pmpaddr h ! i) div 2 ^ (g - 2)" by simp
  then show ?thesis
    unfolding unat_pmp_tor [OF assms(1,2)] tor_bound_def g_def [symmetric] k div_mult2_eq by simp
qed

lemma A_cases: "c AND PMP_A = 0 \<or> c AND PMP_A = PMP_TOR \<or> c AND PMP_A = PMP_NA4 \<or> c AND PMP_A = PMP_NAPOT"
proof -
  have A: "PMP_A = push_bit 3 (mask 2)" by (simp add: PMP_A_def mask_eq_exp_minus_1)
  have "c AND PMP_A = push_bit 3 (take_bit 2 (drop_bit 3 c))"
    unfolding A by (rule bit_word_eqI) (auto simp: bit_simps)
  moreover have "take_bit 2 (drop_bit 3 c) = 0 \<or> take_bit 2 (drop_bit 3 c) = 1 \<or>
    take_bit 2 (drop_bit 3 c) = 2 \<or> take_bit 2 (drop_bit 3 c) = 3"
  proof -
    have "unat (take_bit 2 (drop_bit 3 c)) < 4" by (simp add: unat_take_bit)
    then show ?thesis by (auto simp: word_eq_unat)
  qed
  ultimately show ?thesis by (auto simp: PMP_TOR_def PMP_NA4_def PMP_NAPOT_def)
qed

text \<open>The test of the code decides membership in the region, given the previous entry's bound.\<close>

lemma pmp_match_region:
  assumes "pmp_wf h" "i < max_pmp" "pmpcfg h ! i AND PMP_A \<noteq> 0" "base = (if i = 0 then 0 else pmp_tor h (i - 1))"
  shows "pmp_match h i base a \<longleftrightarrow> in_region h i (unat a)"
proof -
  define p where "p = pmpaddr h ! i"
  have distinct: "PMP_TOR \<noteq> PMP_NA4" "PMP_TOR \<noteq> PMP_NAPOT" "PMP_NA4 \<noteq> PMP_NAPOT"
    by (simp_all add: PMP_TOR_def PMP_NA4_def PMP_NAPOT_def)
  have base: "unat base = (if i = 0 then 0 else tor_bound h (i - 1))"
    using unat_pmp_tor [OF assms(1), of "i - 1"] assms(2,4) by simp
  consider "pmpcfg h ! i AND PMP_A = PMP_TOR" | "pmpcfg h ! i AND PMP_A = PMP_NA4" | "pmpcfg h ! i AND PMP_A = PMP_NAPOT"
    using A_cases assms(3) by blast
  then show ?thesis
  proof cases
    case 1
    then show ?thesis using base distinct
      by (simp add: pmp_match_def in_region_def word_le_nat_alt word_less_nat_alt unat_pmp_tor [OF assms(1,2)])
  next
    case 2
    then have g: "lg_pmp_granularity h = 2" using assms by (auto simp: pmp_wf_def list_all_length)
    have "unat (pmp_tor h i) div 2 ^ 2 = unat (pmpaddr h ! i)" using tor_block [OF assms(1,2), of 2] g by simp
    then show ?thesis using 2 distinct napot_mask_eq [OF assms(1,2)] drop_eq_iff [of a "pmp_tor h i" 2]
      by (simp add: pmp_match_def in_region_def)
  next
    case 3
    have "unat (pmp_tor h i) div napot_size h i = 4 * unat (pmpaddr h ! i) div napot_size h i"
      unfolding napot_size_def using assms(1)
      by (intro tor_block [OF assms(1,2)] napot_covers) (simp add: pmp_wf_def)
    then show ?thesis using 3 distinct napot_mask_eq [OF assms(1,2)] drop_eq_iff [of a "pmp_tor h i"]
      by (auto simp: pmp_match_def in_region_def napot_size_def)
  qed
qed

section \<open>Access checks\<close>

text \<open>
  The architecture's rule, byte by byte: the first entry whose region has a byte of the access decides, and
  it must have all of them; without one only machine mode has access.
\<close>

fun pmp_rule :: "hart_t \<Rightarrow> nat list \<Rightarrow> nat list \<Rightarrow> access_type \<Rightarrow> reg_t \<Rightarrow> bool" where
  "pmp_rule h [] bytes type mode = (mode = PRV_M)"
| "pmp_rule h (i # is) bytes type mode =
     (if list_ex (in_region h i) bytes then list_all (in_region h i) bytes \<and> pmp_allows (pmpcfg h ! i) type mode
      else pmp_rule h is bytes type mode)"

lemma region_blocks:
  assumes "pmp_wf h"
  shows "in_region h i a \<longleftrightarrow> in_region h i (a div 4 * 4)"
proof -
  have bound: "4 dvd tor_bound h j" for j
    unfolding tor_bound_def using assms le_imp_power_dvd [of 2 "lg_pmp_granularity h" "2 :: nat"]
    by (simp add: pmp_wf_def)
  have le: "c \<le> a \<longleftrightarrow> c \<le> a div 4 * 4" "a < c \<longleftrightarrow> a div 4 * 4 < c" if "4 dvd c" for c
    using that by (auto elim!: dvdE)
  have "napot_size h i = 4 * (2 * 2 ^ cto (pmpaddr h ! i OR mask (lg_pmp_granularity h - 3)))"
    by (simp add: napot_size_def power_add)
  then have "a div napot_size h i = a div 4 * 4 div napot_size h i" by (simp only: div_mult2_eq) simp
  then show ?thesis
    unfolding in_region_def Let_def using le [OF bound] by simp
qed

definition natural_access :: "reg_t \<Rightarrow> nat \<Rightarrow> bool" where
  "natural_access addr len \<longleftrightarrow> (len = 1 \<or> len = 2 \<or> len = 4 \<or> len = 8) \<and> unat addr mod len = 0"

lemma sectors_of:
  assumes "natural_access addr len"
  shows "map unat (pmp_sectors addr len) = (if len = 8 then [unat addr, unat addr + 4] else [unat addr])"
proof -
  have "unat (addr + 4) = unat addr + 4" if "unat addr mod 8 = 0"
  proof -
    have "unat addr < 2 ^ LENGTH(64)" by (rule unsigned_less)
    moreover have "8 dvd unat addr" using that by (rule mod_0_imp_dvd)
    then obtain q where "unat addr = 8 * q" by (elim dvdE)
    ultimately have "unat addr + 4 < 2 ^ 64" by simp
    then show ?thesis by (simp add: unat_word_ariths)
  qed
  then show ?thesis using assms by (auto simp: natural_access_def pmp_sectors_def upt_rec)
qed

lemma same_block:
  fixes n a :: nat
  assumes "len = 1 \<or> len = 2 \<or> len = 4" "n mod len = 0" "n \<le> a" "a < n + len"
  shows "a div 4 = n div 4"
proof -
  obtain k where k: "4 = len * k" using assms(1) by (auto intro: that [of 4] that [of 2] that [of 1])
  have "len * (n div len) = n" using assms(2) by auto
  then have "a div len = n div len" by (intro div_nat_eqI) (use assms(3,4) in simp_all)
  then show ?thesis unfolding k div_mult2_eq by simp
qed

lemma sectors_cover:
  assumes "natural_access addr len" "\<And>a. P a \<longleftrightarrow> P (a div 4 * 4)"
  shows "list_ex (\<lambda>a. P (unat a)) (pmp_sectors addr len) \<longleftrightarrow> list_ex P [unat addr ..< unat addr + len]"
    "list_all (\<lambda>a. P (unat a)) (pmp_sectors addr len) \<longleftrightarrow> list_all P [unat addr ..< unat addr + len]"
proof -
  define n where "n = unat addr"
  define firsts where "firsts = (if len = 8 then {n, n + 4} else {n})"
  have sectors: "unat ` set (pmp_sectors addr len) = firsts"
    using arg_cong [OF sectors_of [OF assms(1)], of set] by (simp add: firsts_def n_def)
  have "\<exists>b\<in>firsts. a div 4 = b div 4" if "n \<le> a" "a < n + len" for a
  proof (cases "len = 8")
    case True
    then have "8 dvd n" using assms(1) mod_0_imp_dvd by (simp add: natural_access_def n_def)
    then have "n mod 4 = 0" using dvd_trans [of 4 8 n] by simp
    then show ?thesis
      using same_block [of 4 n a] same_block [of 4 "n + 4" a] that True by (cases "a < n + 4") (auto simp: firsts_def)
  next
    case False
    then show ?thesis using same_block [of len n a] that assms(1) by (auto simp: natural_access_def firsts_def n_def)
  qed
  then have cover: "\<exists>b\<in>firsts. P a = P b" if "a \<in> {n ..< n + len}" for a
    using that assms(2) by (metis atLeastLessThan_iff)
  have sub: "firsts \<subseteq> {n ..< n + len}" using assms(1) by (auto simp: firsts_def natural_access_def)
  have "(\<exists>a\<in>set (pmp_sectors addr len). P (unat a)) \<longleftrightarrow> (\<exists>b\<in>firsts. P b)" unfolding sectors [symmetric] by blast
  also have "\<dots> \<longleftrightarrow> (\<exists>a\<in>{n ..< n + len}. P a)" using cover sub by blast
  finally show "list_ex (\<lambda>a. P (unat a)) (pmp_sectors addr len) \<longleftrightarrow> list_ex P [unat addr ..< unat addr + len]"
    unfolding list_ex_iff n_def by simp
  have "(\<forall>a\<in>set (pmp_sectors addr len). P (unat a)) \<longleftrightarrow> (\<forall>b\<in>firsts. P b)" unfolding sectors [symmetric] by blast
  also have "\<dots> \<longleftrightarrow> (\<forall>a\<in>{n ..< n + len}. P a)" using cover sub by blast
  finally show "list_all (\<lambda>a. P (unat a)) (pmp_sectors addr len) \<longleftrightarrow> list_all P [unat addr ..< unat addr + len]"
    unfolding list_all_iff n_def by simp
qed

lemma pmp_loop_rule:
  assumes "pmp_wf h" "natural_access addr len" "n \<le> max_pmp"
  shows "i \<le> n \<Longrightarrow> base = (if i = 0 then 0 else pmp_tor h (i - 1)) \<Longrightarrow>
    pmp_loop h [i ..< n] base addr len type mode = pmp_rule h [i ..< n] [unat addr ..< unat addr + len] type mode"
proof (induction "n - i" arbitrary: i base)
  case 0
  then show ?case by simp
next
  case (Suc k)
  then have i: "i < n" by simp
  have rest: "pmp_loop h [Suc i ..< n] (pmp_tor h i) addr len type mode =
      pmp_rule h [Suc i ..< n] [unat addr ..< unat addr + len] type mode"
    using Suc.hyps(1) [of "Suc i" "pmp_tor h i"] Suc.hyps(2) i by simp
  show ?case
  proof (cases "pmpcfg h ! i AND PMP_A = 0")
    case True
    then have "\<not> in_region h i a" for a
      by (simp add: in_region_def PMP_TOR_def PMP_NA4_def PMP_NAPOT_def)
    then have "\<not> list_ex (in_region h i) bytes" for bytes by (simp add: list_ex_iff)
    then show ?thesis using True rest i by (simp add: upt_conv_Cons Let_def)
  next
    case False
    have m: "pmp_match h i base = (\<lambda>a. in_region h i (unat a))"
      using pmp_match_region [OF assms(1) _ False Suc.prems(2)] i assms(3) by auto
    show ?thesis
      using False rest i sectors_cover [where P = "in_region h i", OF assms(2) region_blocks [OF assms(1)]]
      by (simp add: upt_conv_Cons Let_def m)
  qed
qed

lemma pmp_ok_rule:
  assumes "pmp_wf h" "natural_access addr len"
  shows "pmp_ok h addr len type mode \<longleftrightarrow>
    n_pmp h = 0 \<or> pmp_rule h [0 ..< n_pmp h] [unat addr ..< unat addr + len] type mode"
  using pmp_loop_rule [OF assms, of "n_pmp h" 0 0 type mode] assms(1) by (simp add: pmp_ok_def pmp_wf_def)

text \<open>
  C28.  For a naturally aligned access of one to eight bytes, the check by four-byte sectors and masks decides
  exactly the architecture's rule: the first protection entry that has a byte of the access must have all of
  them and grant the permission, unless it is unlocked and the mode is machine mode.
\<close>

theorem pmp_ok_refines_rule:
  assumes "pmp_wf h" "natural_access addr len"
  shows "pmp_ok h addr len type mode \<longleftrightarrow>
    n_pmp h = 0 \<or> pmp_rule h [0 ..< n_pmp h] [unat addr ..< unat addr + len] type mode"
  by (rule pmp_ok_rule [OF assms])

section \<open>Homogeneous pages\<close>

lemma and_minus_less:
  fixes a b :: reg_t
  assumes "k < 64"
  shows "a AND - push_bit k 1 < b AND - push_bit k 1 \<longleftrightarrow> unat a div 2 ^ k < unat b div 2 ^ k"
proof -
  have "- push_bit k (1 :: reg_t) = NOT (mask k)" by (simp add: mask_eq_exp_minus_1 push_bit_eq_mult not_eq_complement)
  moreover have "x AND NOT (mask k) = push_bit k (drop_bit k x)" for x :: reg_t
    by (rule bit_word_eqI) (auto simp: bit_simps)
  moreover have "unat (push_bit k (drop_bit k x)) = unat x div 2 ^ k * 2 ^ k" for x :: reg_t
  proof -
    have "unat x div 2 ^ k * 2 ^ k \<le> unat x" by simp
    also have "unat x < 2 ^ LENGTH(64)" by (rule unsigned_less)
    finally show ?thesis
      by (simp only: unsigned_push_bit_eq unat_drop_bit_eq)
        (simp add: push_bit_eq_mult drop_bit_eq_div take_bit_nat_eq_self)
  qed
  ultimately show ?thesis by (simp add: word_less_nat_alt)
qed

lemma block_of_page:
  fixes P a :: nat
  assumes "P mod 2 ^ k = 0" "P \<le> a" "a < P + 2 ^ k" "k \<le> K"
  shows "a div 2 ^ K = P div 2 ^ K"
proof -
  have "(2 :: nat) ^ K = 2 ^ k * 2 ^ (K - k)" using assms(4) by (simp flip: power_add)
  moreover have "a div 2 ^ k = P div 2 ^ k"
  proof (rule div_nat_eqI)
    have P: "2 ^ k * (P div 2 ^ k) = P" using assms(1) by auto
    show "2 ^ k * (P div 2 ^ k) \<le> a" "a < 2 ^ k * Suc (P div 2 ^ k)" using assms(2,3) P by simp_all
  qed
  ultimately show ?thesis by (simp add: div_mult2_eq)
qed

definition uniform :: "hart_t \<Rightarrow> nat \<Rightarrow> nat \<Rightarrow> nat \<Rightarrow> bool" where
  "uniform h i P len \<longleftrightarrow> (\<forall>a\<in>{P ..< P + len}. in_region h i a) \<or> (\<forall>a\<in>{P ..< P + len}. \<not> in_region h i a)"

lemma tor_uniform:
  assumes "pmp_wf h" "i < max_pmp" "pmpcfg h ! i AND PMP_A = PMP_TOR" "base = (if i = 0 then 0 else pmp_tor h (i - 1))"
    "unat addr mod 2 ^ k = 0" "k < 64"
    "addr AND - push_bit k 1 < base AND - push_bit k 1 \<or> pmp_tor h i \<le> addr \<or>
      base \<le> addr \<and> addr AND - push_bit k 1 < pmp_tor h i AND - push_bit k 1"
  shows "uniform h i (unat addr) (2 ^ k)"
proof -
  have P: "unat addr = unat addr div 2 ^ k * 2 ^ k" using assms(5) by auto
  have end_le: "unat addr + 2 ^ k \<le> c" if "unat addr div 2 ^ k < c div 2 ^ k" for c
  proof -
    have "Suc (unat addr div 2 ^ k) * 2 ^ k \<le> c div 2 ^ k * 2 ^ k" using that by (intro mult_right_mono) simp_all
    also have "\<dots> \<le> c" by simp
    finally show ?thesis by (subst P) simp
  qed
  have region: "in_region h i a \<longleftrightarrow> unat base \<le> a \<and> a < unat (pmp_tor h i)" for a
    using unat_pmp_tor [OF assms(1), of "i - 1"] unat_pmp_tor [OF assms(1,2)] assms(2-4)
    by (simp add: in_region_def PMP_TOR_def PMP_NA4_def PMP_NAPOT_def)
  show ?thesis
    using assms(7) end_le [of "unat base"] end_le [of "unat (pmp_tor h i)"]
    unfolding uniform_def region and_minus_less [OF assms(6)] word_le_nat_alt by fastforce
qed

lemma page_end:
  fixes addr :: reg_t
  assumes "unat addr mod 2 ^ k = 0" "k < 64"
  shows "unat addr + 2 ^ k \<le> 2 ^ 64"
proof -
  define q where "q = unat addr div 2 ^ k"
  have q: "unat addr = q * 2 ^ k" using assms(1) by (auto simp: q_def)
  have e: "(2 :: nat) ^ 64 = 2 ^ (64 - k) * 2 ^ k" using assms(2) by (simp flip: power_add)
  have "unat addr < 2 ^ LENGTH(64)" by (rule unsigned_less)
  then have "q * 2 ^ k < 2 ^ (64 - k) * 2 ^ k" unfolding q e [symmetric] by simp
  then have "q < 2 ^ (64 - k)" by simp
  then have "Suc q * 2 ^ k \<le> 2 ^ (64 - k) * 2 ^ k" by (intro mult_right_mono) simp_all
  then show ?thesis unfolding q e by simp
qed

lemma napot_uniform:
  assumes "pmp_wf h" "i < max_pmp" "pmpcfg h ! i AND PMP_A \<noteq> PMP_TOR" "pmpcfg h ! i AND PMP_A \<noteq> 0"
    "unat addr mod 2 ^ k = 0" "k < 64"
    "NOT (push_bit 1 (pmp_napot_mask h i)) AND push_bit k 1 \<noteq> 0 \<or> (addr XOR pmp_tor h i) div push_bit k 1 \<noteq> 0"
  shows "uniform h i (unat addr) (2 ^ k)"
proof -
  define base where "base = (if i = 0 then 0 else pmp_tor h (i - 1))"
  define T where "T = unat (pmp_tor h i)"
  obtain K where K: "pmp_napot_mask h i = NOT (mask K)" using napot_mask_eq [OF assms(1,2)] by blast
  have word: "unat (word_of_nat a :: reg_t) = a" if "a < unat addr + 2 ^ k" for a
  proof -
    have "unat addr + 2 ^ k \<le> 2 ^ 64" using page_end [OF assms(5,6)] .
    then show ?thesis using that by (simp add: unat_of_nat)
  qed
  have region: "in_region h i a \<longleftrightarrow> a div 2 ^ K = T div 2 ^ K" if "a < unat addr + 2 ^ k" for a
    using pmp_match_region [OF assms(1,2,4) base_def, of "word_of_nat a"] assms(3) word [OF that]
      drop_eq_iff [of "word_of_nat a" "pmp_tor h i" K]
    by (simp add: pmp_match_def K T_def)
  show ?thesis
  proof (cases "k \<le> K")
    case True
    then show ?thesis using region block_of_page [OF assms(5) _ _ True]
      unfolding uniform_def by (metis atLeastLessThan_iff)
  next
    case False
    have "\<not> bit (NOT (push_bit 1 (NOT (mask K)) :: reg_t)) k"
      using False assms(6) by (simp only: bit_not_iff bit_push_bit_iff bit_mask_iff) auto
    then have "NOT (push_bit 1 (NOT (mask K))) AND push_bit k (1 :: reg_t) = 0"
      using and_exp_eq_0_iff_not_bit [of "NOT (push_bit 1 (NOT (mask K)) :: reg_t)" k] by (simp add: push_bit_eq_mult)
    then have "(addr XOR pmp_tor h i) div push_bit k 1 \<noteq> 0" using assms(7) unfolding K by blast
    then have "drop_bit k (addr XOR pmp_tor h i) \<noteq> 0" by (simp add: drop_bit_eq_div push_bit_eq_mult)
    then have "drop_bit k addr \<noteq> drop_bit k (pmp_tor h i)" by (auto simp: drop_bit_xor)
    then have other: "unat addr div 2 ^ k \<noteq> T div 2 ^ k"
      unfolding T_def word_eq_unat by (simp only: unat_drop_bit_eq) (simp add: drop_bit_eq_div)
    have "(2 :: nat) ^ k = 2 ^ K * 2 ^ (k - K)" using False by (simp flip: power_add)
    then have finer: "a div 2 ^ k = a div 2 ^ K div 2 ^ (k - K)" for a :: nat by (simp only: div_mult2_eq)
    have "\<not> in_region h i a" if "a \<in> {unat addr ..< unat addr + 2 ^ k}" for a
    proof -
      have "a div 2 ^ k = unat addr div 2 ^ k" by (rule block_of_page [OF assms(5) _ _ le_refl]) (use that in simp_all)
      then have "a div 2 ^ K \<noteq> T div 2 ^ K" using other unfolding finer by metis
      then show ?thesis using region [of a] that by simp
    qed
    then show ?thesis unfolding uniform_def by blast
  qed
qed

lemma homogeneous_loop_uniform:
  assumes "pmp_wf h" "unat addr mod 2 ^ k = 0" "k < 64" "n \<le> max_pmp"
  shows "i \<le> n \<Longrightarrow> base = (if i = 0 then 0 else pmp_tor h (i - 1)) \<Longrightarrow>
    homogeneous_loop h [i ..< n] base addr (push_bit k 1) \<Longrightarrow> \<forall>j\<in>{i ..< n}. uniform h j (unat addr) (2 ^ k)"
proof (induction "n - i" arbitrary: i base)
  case 0
  then show ?case by simp
next
  case (Suc m)
  then have i: "i < n" by simp
  then have step: "homogeneous_loop h (i # [Suc i ..< n]) base addr (push_bit k 1)"
    using Suc.prems(3) by (simp add: upt_conv_Cons)
  then have "homogeneous_loop h [Suc i ..< n] (pmp_tor h i) addr (push_bit k 1)"
    by (simp add: Let_def del: push_bit_of_1 split: if_splits)
  then have rest: "\<forall>j\<in>{Suc i ..< n}. uniform h j (unat addr) (2 ^ k)"
    using Suc.hyps(1) [of "Suc i" "pmp_tor h i"] Suc.hyps(2) i by simp
  have off: "\<not> in_region h i a" if "pmpcfg h ! i AND PMP_A = 0" for a
    using that by (simp add: in_region_def PMP_TOR_def PMP_NA4_def PMP_NAPOT_def)
  have "uniform h i (unat addr) (2 ^ k)"
    using off tor_uniform [OF assms(1) _ _ Suc.prems(2) assms(2,3)] napot_uniform [OF assms(1) _ _ _ assms(2,3), of i] step i assms(4)
    by (cases "pmpcfg h ! i AND PMP_A = 0"; cases "pmpcfg h ! i AND PMP_A = PMP_TOR")
      (simp_all add: Let_def uniform_def del: push_bit_of_1 split: if_splits)
  then show ?case using rest i by (metis Suc_leI atLeastLessThan_iff le_neq_implies_less)
qed

lemma pmp_rule_uniform:
  assumes "bs \<noteq> []" "cs \<noteq> []" "set bs \<subseteq> {P ..< P + L}" "set cs \<subseteq> {P ..< P + L}"
  shows "(\<forall>i\<in>set is. uniform h i P L) \<Longrightarrow> pmp_rule h is bs type mode = pmp_rule h is cs type mode"
proof (induction "is")
  case (Cons i "is")
  then have "uniform h i P L" by simp
  then have "list_ex (in_region h i) bs = list_ex (in_region h i) cs" "list_all (in_region h i) bs = list_all (in_region h i) cs"
    using assms unfolding uniform_def list_ex_iff list_all_iff
    by (metis (full_types) list.set_sel(1) subsetD)+
  then show ?case using Cons by simp
qed simp

definition inside :: "reg_t \<Rightarrow> nat \<Rightarrow> reg_t \<Rightarrow> nat \<Rightarrow> bool" where
  "inside page L a len \<longleftrightarrow> natural_access a len \<and> unat page \<le> unat a \<and> unat a + len \<le> unat page + L"

text \<open>
  The translation cache may keep a page that passes the homogeneity test: all naturally aligned accesses
  inside it are permitted or refused alike, for each kind of access and each mode.
\<close>

lemma pmp_homogeneous_sound:
  assumes "pmp_wf h" "pmp_homogeneous h page (push_bit PGSHIFT 1) = Some True"
    "inside page 4096 a la" "inside page 4096 b lb"
  shows "pmp_ok h a la type mode = pmp_ok h b lb type mode"
proof -
  have "(page OR push_bit 12 1) AND (push_bit 12 1 - 1) = 0"
    and loop: "homogeneous_loop h [0 ..< n_pmp h] 0 page (push_bit 12 1)"
    using assms(2) by (auto simp: pmp_homogeneous_def split: if_splits)
  then have "page AND (push_bit 12 1 - 1) = 0" by (metis bit.conj_disj_distrib2 or_eq_0_iff)
  then have "take_bit 12 page = 0" by (simp add: take_bit_eq_mask mask_eq_exp_minus_1)
  then have "unat page mod 2 ^ 12 = 0" by (metis take_bit_eq_mod unat_0 unsigned_take_bit_eq)
  from homogeneous_loop_uniform [OF assms(1) this _ _ _ _ loop] assms(1)
  have uni: "\<forall>i\<in>set [0 ..< n_pmp h]. uniform h i (unat page) 4096" by (simp add: pmp_wf_def)
  have bytes: "set [unat x ..< unat x + l] \<subseteq> {unat page ..< unat page + 4096} \<and> [unat x ..< unat x + l] \<noteq> []"
    if "inside page 4096 x l" for x l
    using that by (auto simp: inside_def natural_access_def)
  show ?thesis
    using pmp_ok_rule [OF assms(1)] assms(3,4) pmp_rule_uniform [OF _ _ _ _ uni, of "[unat a ..< unat a + la]" "[unat b ..< unat b + lb]"]
      bytes [OF assms(3)] bytes [OF assms(4)]
    by (simp add: inside_def)
qed

end
