(* ===== verification/RV_Priv.thy ===== *)
theory RV_Priv
  imports RV_Hart
begin

text \<open>
  Control register reads, traps, interrupts and the privileged instructions (\<^verbatim>\<open>riscv/processor.cc\<close>,
  \<^verbatim>\<open>riscv/trap.h\<close> and the files of \<^verbatim>\<open>riscv/insns\<close> for system instructions).
\<close>

section \<open>Reading control registers\<close>

definition ctr_ok :: "nat \<Rightarrow> hart_t \<Rightarrow> bool" where
  "ctr_ok which h =
     (let ctr_en = (- 1 :: uint32_t);
          ctr_en = (if prv h < PRV_M then ctr_en AND mcounteren h else ctr_en);
          ctr_en = (if v h then ctr_en AND hcounteren h else ctr_en);
          ctr_en = (if prv h < PRV_S then ctr_en AND scounteren h else ctr_en)
      in drop_bit (which mod 32) ctr_en AND 1 \<noteq> 0)"

definition counter_csr :: "nat \<Rightarrow> nat \<Rightarrow> hart_t \<Rightarrow> bool" where
  "counter_csr xlen which h \<longleftrightarrow>
     ctr_ok which h \<and> (CSR_HPMCOUNTER3 \<le> which \<and> which \<le> CSR_HPMCOUNTER31 \<or>
       xlen = 32 \<and> CSR_HPMCOUNTER3H \<le> which \<and> which \<le> CSR_HPMCOUNTER31H) \<or>
     CSR_MHPMCOUNTER3 \<le> which \<and> which \<le> CSR_MHPMCOUNTER31 \<or>
     xlen = 32 \<and> CSR_MHPMCOUNTER3H \<le> which \<and> which \<le> CSR_MHPMCOUNTER31H \<or>
     CSR_MHPMEVENT3 \<le> which \<and> which \<le> CSR_MHPMEVENT31"

definition get_pmpaddr :: "nat \<Rightarrow> hart_t \<Rightarrow> reg_t" where
  "get_pmpaddr i h =
     (if PMP_NAPOT \<le> pmpcfg h ! i AND PMP_A then pmpaddr h ! i OR drop_bit 1 (NOT (pmp_tor_mask h))
      else pmpaddr h ! i AND pmp_tor_mask h)"

definition get_pmpcfg :: "nat \<Rightarrow> nat \<Rightarrow> hart_t \<Rightarrow> reg_t" where
  "get_pmpcfg xlen r h =
     (let i0 = r * 4
      in fold (\<lambda>i res. res OR push_bit (8 * (i - i0)) (ucast (pmpcfg h ! i))) [i0 ..< min (i0 + xlen div 8) max_pmp] 0)"

definition get_csr_user :: "nat \<Rightarrow> nat \<Rightarrow> insn_bits_t \<Rightarrow> hart_t \<Rightarrow> (trap_t + reg_t) option" where
  "get_csr_user xlen which insn h =
     (let bad = Inl (trap_illegal_instruction (insn_bits insn));
          fp = (\<lambda>x. Some (if mstatus h AND MSTATUS_FS \<noteq> 0 \<and> supports_extension ext_F h then Inr x else bad));
          vec = (\<lambda>x. Some (if mstatus h AND MSTATUS_VS \<noteq> 0 \<and> supports_extension ext_V h then Inr x else bad));
          bit_of = (\<lambda>c. drop_bit (which mod 32) c AND (1 :: uint32_t) \<noteq> 0);
          refused = (if v h \<and> bit_of (mcounteren h) \<and> \<not> bit_of (hcounteren h)
                     then Inl (trap_virtual_instruction (insn_bits insn)) else bad)
      in if which = CSR_FFLAGS then fp (ucast (fflags h))
         else if which = CSR_FRM then fp (ucast (frm h))
         else if which = CSR_FCSR then fp (ucast (fflags h OR push_bit 5 (frm h)))
         else if which = CSR_VCSR then vec (vxsat h OR push_bit 1 (vxrm h))
         else if which = CSR_INSTRET \<or> which = CSR_CYCLE then Some (if ctr_ok which h then Inr (minstret h) else refused)
         else if which = CSR_INSTRETH \<or> which = CSR_CYCLEH
         then Some (if ctr_ok which h \<and> xlen = 32 then Inr (drop_bit 32 (minstret h)) else refused)
         else if which = CSR_VSTART then vec (vstart h)
         else if which = CSR_VXSAT then vec (vxsat h)
         else if which = CSR_VXRM then vec (vxrm h)
         else if which = CSR_VL then vec (vl h)
         else if which = CSR_VTYPE then vec (vtype h)
         else if which = CSR_VLENB then vec (vlenb h)
         else None)"

definition get_csr_supervisor :: "nat \<Rightarrow> nat \<Rightarrow> insn_bits_t \<Rightarrow> hart_t \<Rightarrow> (trap_t + reg_t) option" where
  "get_csr_supervisor xlen which insn h =
     (if which = CSR_SCOUNTEREN then Some (Inr (ucast (scounteren h)))
      else if which = CSR_SSTATUS
      then let msk = SSTATUS_SIE OR SSTATUS_SPIE OR SSTATUS_SPP OR SSTATUS_FS OR
             (if supports_extension ext_V h then SSTATUS_VS else 0) OR SSTATUS_XS OR SSTATUS_SUM OR SSTATUS_MXR OR SSTATUS_UXL;
               sstatus = mstatus h AND msk
           in Some (Inr (if sstatus AND SSTATUS_FS = SSTATUS_FS \<or> sstatus AND SSTATUS_XS = SSTATUS_XS
                         then sstatus OR (if xlen = 32 then SSTATUS32_SD else SSTATUS64_SD) else sstatus))
      else if which = CSR_SIP
      then Some (Inr (if v h then drop_bit 1 (mip h AND hideleg h AND MIP_VS_MASK) else mip h AND mideleg h AND NOT MIP_HS_MASK))
      else if which = CSR_SIE
      then Some (Inr (if v h then drop_bit 1 (mie h AND hideleg h AND MIP_VS_MASK) else mie h AND mideleg h AND NOT MIP_HS_MASK))
      else if which = CSR_SEPC then Some (Inr ((if v h then vsepc h else sepc h) AND pc_alignment_mask h))
      else if which = CSR_STVAL then Some (Inr (if v h then vstval h else stval h))
      else if which = CSR_STVEC then Some (Inr (if v h then vstvec h else stvec h))
      else if which = CSR_SCAUSE then Some (Inr (if v h then vscause h else scause h))
      else if which = CSR_SATP
      then Some (if get_field (mstatus h) MSTATUS_TVM \<noteq> 0 \<and> \<not> PRV_M \<le> prv h then Inl (trap_illegal_instruction (insn_bits insn))
                 else if v h
                 then if get_field (hstatus h) HSTATUS_VTVM \<noteq> 0 then Inl (trap_virtual_instruction (insn_bits insn))
                      else Inr (vsatp h)
                 else Inr (satp h))
      else if which = CSR_SSCRATCH then Some (Inr (if v h then vsscratch h else sscratch h))
      else None)"

definition get_csr_machine :: "nat \<Rightarrow> nat \<Rightarrow> hart_t \<Rightarrow> reg_t option" where
  "get_csr_machine xlen which h =
     (if which = CSR_MINSTRET \<or> which = CSR_MCYCLE then Some (minstret h)
      else if which = CSR_MINSTRETH \<or> which = CSR_MCYCLEH then if xlen = 32 then Some (drop_bit 32 (minstret h)) else None
      else if which = CSR_MCOUNTEREN then if supports_extension ext_U h then Some (ucast (mcounteren h)) else None
      else if which = CSR_MCOUNTINHIBIT then Some 0
      else if which = CSR_MSTATUS then Some (mstatus h)
      else if which = CSR_MIP then Some (mip h)
      else if which = CSR_MIE then Some (mie h)
      else if which = CSR_MEPC then Some (mepc h AND pc_alignment_mask h)
      else if which = CSR_MSCRATCH then Some (mscratch h)
      else if which = CSR_MCAUSE then Some (mcause h)
      else if which = CSR_MTVAL then Some (mtval h)
      else if which = CSR_MTVAL2 then if supports_extension ext_H h then Some (mtval2 h) else None
      else if which = CSR_MTINST then if supports_extension ext_H h then Some (mtinst h) else None
      else if which = CSR_MISA then Some (misa h)
      else if which = CSR_MARCHID then Some 5
      else if which = CSR_MIMPID then Some 0
      else if which = CSR_MVENDORID then Some 0
      else if which = CSR_MHARTID then Some (ucast (hart_id h))
      else if which = CSR_MTVEC then Some (mtvec h)
      else if which = CSR_MEDELEG then if supports_extension ext_S h then Some (medeleg h) else None
      else if which = CSR_MIDELEG then if supports_extension ext_S h then Some (mideleg h) else None
      else None)"

definition get_csr_hypervisor :: "nat \<Rightarrow> nat \<Rightarrow> hart_t \<Rightarrow> reg_t option" where
  "get_csr_hypervisor xlen which h =
     (if which = CSR_HSTATUS then Some (hstatus h)
      else if which = CSR_HEDELEG then Some (hedeleg h)
      else if which = CSR_HIDELEG then Some (hideleg h)
      else if which = CSR_HIE then Some (mie h AND MIP_HS_MASK)
      else if which = CSR_HCOUNTEREN then Some (ucast (hcounteren h))
      else if which = CSR_HGEIE then Some 0
      else if which = CSR_HTVAL then Some (htval h)
      else if which = CSR_HIP then Some (mip h AND MIP_HS_MASK)
      else if which = CSR_HVIP then Some (mip h AND MIP_VS_MASK)
      else if which = CSR_HTINST then Some (htinst h)
      else if which = CSR_HGATP then Some (hgatp h)
      else if which = CSR_HGEIP then Some 0
      else if which = CSR_VSSTATUS then Some (vsstatus h AND vsstatus_mask xlen h)
      else if which = CSR_VSIE then Some (drop_bit 1 (mie h AND hideleg h AND MIP_VS_MASK))
      else if which = CSR_VSTVEC then Some (vstvec h)
      else if which = CSR_VSSCRATCH then Some (vsscratch h)
      else if which = CSR_VSEPC then Some (vsepc h AND pc_alignment_mask h)
      else if which = CSR_VSCAUSE then Some (vscause h)
      else if which = CSR_VSTVAL then Some (vstval h)
      else if which = CSR_VSIP then Some (drop_bit 1 (mip h AND hideleg h AND MIP_VS_MASK))
      else if which = CSR_VSATP then Some (vsatp h)
      else None)"

definition get_tdata1 :: "nat \<Rightarrow> hart_t \<Rightarrow> reg_t" where
  "get_tdata1 xlen h =
     (if tselect h < of_nat num_triggers
      then let mc = mcontrol h ! unat (tselect h); flag = (\<lambda>k b v. set_field v (push_bit k 1) (of_bool b));
               v = set_field 0 (push_bit (xlen - 4) 0xF) (ucast (mc_type mc));
               v = flag (xlen - 5) (dmode mc) v;
               v = set_field v (push_bit (xlen - 11) 0x3F) (ucast (maskmax mc));
               v = flag 19 (mc_select mc) v;
               v = flag 18 (timing mc) v;
               v = set_field v (push_bit 12 0x3F) (mc_action mc);
               v = flag 11 (chain mc) v;
               v = set_field v (push_bit 7 0xF) (mc_match mc);
               v = flag 6 (mc_m mc) v;
               v = flag 5 (mc_h mc) v;
               v = flag 4 (mc_s mc) v;
               v = flag 3 (mc_u mc) v;
               v = flag 2 (mc_execute mc) v;
               v = flag 1 (mc_store mc) v
           in flag 0 (mc_load mc) v
      else 0)"

definition get_dcsr :: "hart_t \<Rightarrow> reg_t" where
  "get_dcsr h =
     (let d = dcsr h; flag = (\<lambda>k b v. set_field v (push_bit k 1) (of_bool b));
          v = set_field (0 :: uint32_t) (push_bit 30 3) 1;
          v = flag 15 (ebreakm d) v;
          v = flag 14 (ebreakh d) v;
          v = flag 13 (ebreaks d) v;
          v = flag 12 (ebreaku d) v;
          v = flag 10 False v;
          v = flag 9 False v;
          v = set_field v (push_bit 6 7) (ucast (dcsr_cause d));
          v = flag 2 (dcsr_step d) v
      in ucast (set_field v 3 (ucast (dcsr_prv d))))"

definition get_csr_debug :: "nat \<Rightarrow> nat \<Rightarrow> hart_t \<Rightarrow> reg_t option" where
  "get_csr_debug xlen which h =
     (let in_debug = (\<lambda>x. if debug_mode h then Some x else None)
      in if which = CSR_TSELECT then Some (tselect h)
         else if which = CSR_TDATA1 then Some (get_tdata1 xlen h)
         else if which = CSR_TDATA2 then Some (if tselect h < of_nat num_triggers then tdata2 h ! unat (tselect h) else 0)
         else if which = CSR_TDATA3 then Some 0
         else if which = CSR_DCSR then in_debug (get_dcsr h)
         else if which = CSR_DPC then in_debug (dpc h AND pc_alignment_mask h)
         else if which = CSR_DSCRATCH0 then in_debug (dscratch0 h)
         else if which = CSR_DSCRATCH1 then in_debug (dscratch1 h)
         else None)"

definition get_csr :: "nat \<Rightarrow> nat \<Rightarrow> insn_bits_t \<Rightarrow> hart_t \<Rightarrow> trap_t + reg_t" where
  "get_csr xlen which insn h =
     (let bad = Inl (trap_illegal_instruction (insn_bits insn))
      in if counter_csr xlen which h then Inr 0
         else if pmpaddr_csr which then if n_pmp h = 0 then bad else Inr (get_pmpaddr (which - CSR_PMPADDR0) h)
         else if pmpcfg_csr which
         then if which mod (xlen div 32) = 0 then Inr (get_pmpcfg xlen (which - CSR_PMPCFG0) h) else bad
         else case get_csr_user xlen which insn h of Some r \<Rightarrow> r
         | None \<Rightarrow> case get_csr_supervisor xlen which insn h of Some r \<Rightarrow> r
         | None \<Rightarrow> case get_csr_machine xlen which h of Some x \<Rightarrow> Inr x
         | None \<Rightarrow> case get_csr_hypervisor xlen which h of Some x \<Rightarrow> Inr x
         | None \<Rightarrow> case get_csr_debug xlen which h of Some x \<Rightarrow> Inr x
         | None \<Rightarrow> bad)"

section \<open>Traps\<close>

fun trap_cause :: "trap_t \<Rightarrow> reg_t" where
  "trap_cause (trap_instruction_address_misaligned a) = of_nat CAUSE_MISALIGNED_FETCH"
| "trap_cause (trap_instruction_access_fault a) = of_nat CAUSE_FETCH_ACCESS"
| "trap_cause (trap_illegal_instruction b) = of_nat CAUSE_ILLEGAL_INSTRUCTION"
| "trap_cause (trap_breakpoint a) = of_nat CAUSE_BREAKPOINT"
| "trap_cause (trap_load_address_misaligned a) = of_nat CAUSE_MISALIGNED_LOAD"
| "trap_cause (trap_load_access_fault a) = of_nat CAUSE_LOAD_ACCESS"
| "trap_cause (trap_store_address_misaligned a) = of_nat CAUSE_MISALIGNED_STORE"
| "trap_cause (trap_store_access_fault a) = of_nat CAUSE_STORE_ACCESS"
| "trap_cause trap_user_ecall = of_nat CAUSE_USER_ECALL"
| "trap_cause trap_supervisor_ecall = of_nat CAUSE_SUPERVISOR_ECALL"
| "trap_cause trap_virtual_supervisor_ecall = of_nat CAUSE_VIRTUAL_SUPERVISOR_ECALL"
| "trap_cause trap_machine_ecall = of_nat CAUSE_MACHINE_ECALL"
| "trap_cause (trap_instruction_page_fault a) = of_nat CAUSE_FETCH_PAGE_FAULT"
| "trap_cause (trap_load_page_fault a) = of_nat CAUSE_LOAD_PAGE_FAULT"
| "trap_cause (trap_store_page_fault a) = of_nat CAUSE_STORE_PAGE_FAULT"
| "trap_cause (trap_instruction_guest_page_fault a g) = of_nat CAUSE_FETCH_GUEST_PAGE_FAULT"
| "trap_cause (trap_load_guest_page_fault a g) = of_nat CAUSE_LOAD_GUEST_PAGE_FAULT"
| "trap_cause (trap_virtual_instruction b) = of_nat CAUSE_VIRTUAL_INSTRUCTION"
| "trap_cause (trap_store_guest_page_fault a g) = of_nat CAUSE_STORE_GUEST_PAGE_FAULT"
| "trap_cause (trap_interrupt c) = c"

text \<open>
  The trap value.  The bits of an 8-byte instruction have no value in C++; the trap value is zero then, as
  with the shift of the usual hosts.
\<close>

fun get_tval :: "trap_t \<Rightarrow> reg_t" where
  "get_tval (trap_instruction_address_misaligned a) = a"
| "get_tval (trap_instruction_access_fault a) = a"
| "get_tval (trap_illegal_instruction b) = (case b of Some x \<Rightarrow> x | None \<Rightarrow> 0)"
| "get_tval (trap_breakpoint a) = a"
| "get_tval (trap_load_address_misaligned a) = a"
| "get_tval (trap_load_access_fault a) = a"
| "get_tval (trap_store_address_misaligned a) = a"
| "get_tval (trap_store_access_fault a) = a"
| "get_tval trap_user_ecall = 0"
| "get_tval trap_supervisor_ecall = 0"
| "get_tval trap_virtual_supervisor_ecall = 0"
| "get_tval trap_machine_ecall = 0"
| "get_tval (trap_instruction_page_fault a) = a"
| "get_tval (trap_load_page_fault a) = a"
| "get_tval (trap_store_page_fault a) = a"
| "get_tval (trap_instruction_guest_page_fault a g) = a"
| "get_tval (trap_load_guest_page_fault a g) = a"
| "get_tval (trap_virtual_instruction b) = (case b of Some x \<Rightarrow> x | None \<Rightarrow> 0)"
| "get_tval (trap_store_guest_page_fault a g) = a"
| "get_tval (trap_interrupt c) = 0"

fun get_tval2 :: "trap_t \<Rightarrow> reg_t" where
  "get_tval2 (trap_instruction_guest_page_fault a g) = g"
| "get_tval2 (trap_load_guest_page_fault a g) = g"
| "get_tval2 (trap_store_guest_page_fault a g) = g"
| "get_tval2 t = 0"

definition get_tinst :: "trap_t \<Rightarrow> reg_t" where
  "get_tinst t = 0"

text \<open>The memory traps are all declared with the flag of a guest virtual address.\<close>

fun has_gva :: "trap_t \<Rightarrow> bool" where
  "has_gva (trap_illegal_instruction b) = False"
| "has_gva (trap_breakpoint a) = False"
| "has_gva trap_user_ecall = False"
| "has_gva trap_supervisor_ecall = False"
| "has_gva trap_virtual_supervisor_ecall = False"
| "has_gva trap_machine_ecall = False"
| "has_gva (trap_virtual_instruction b) = False"
| "has_gva (trap_interrupt c) = False"
| "has_gva t = True"

definition sd_bit :: "nat \<Rightarrow> reg_t" where
  "sd_bit xlen = (if xlen = 64 then SSTATUS64_SD else SSTATUS32_SD)"

definition set_virt :: "nat \<Rightarrow> bool \<Rightarrow> hart_t \<Rightarrow> hart_t" where
  "set_virt xlen virt h =
     (if prv h = PRV_M then h
      else if v h \<noteq> virt then
        let sync = (\<lambda>f h. if mstatus h AND f = f then h\<lparr>vsstatus := vsstatus h OR f OR sd_bit xlen\<rparr> else h);
            h = (if v h \<and> \<not> virt then sync SSTATUS_XS (sync SSTATUS_VS (sync SSTATUS_FS h)) else h);
            msk = vsstatus_mask xlen h;
            tmp = mstatus h AND msk
        in h\<lparr>mstatus := (mstatus h AND NOT msk) OR (vsstatus h AND msk), vsstatus := tmp, v := virt\<rparr>
      else h)"

abbreviation (input) DEBUG_ROM_ENTRY :: reg_t where "DEBUG_ROM_ENTRY \<equiv> 0x800"
abbreviation (input) DEBUG_ROM_TVEC :: reg_t where "DEBUG_ROM_TVEC \<equiv> 0x808"
abbreviation (input) DCSR_CAUSE_SWBP :: uint8_t where "DCSR_CAUSE_SWBP \<equiv> 1"

definition enter_debug_mode :: "uint8_t \<Rightarrow> hart_t \<Rightarrow> hart_t" where
  "enter_debug_mode cause h =
     (let h = h\<lparr>debug_mode := True, dcsr := (dcsr h)\<lparr>dcsr_cause := cause, dcsr_prv := ucast (prv h)\<rparr>\<rparr>;
          h = set_privilege PRV_M h
      in h\<lparr>dpc := pc h, pc := DEBUG_ROM_ENTRY\<rparr>)"

text \<open>The vector of a trap: interrupts are spread over the table when the mode bit is set.\<close>

definition trap_vector :: "reg_t \<Rightarrow> bool \<Rightarrow> reg_t \<Rightarrow> reg_t" where
  "trap_vector tvec interrupt b = (tvec AND NOT 1) + (if tvec AND 1 \<noteq> 0 \<and> interrupt then 4 * b else 0)"

text \<open>The trap value register keeps 40 bits, sign-extended; bit 39 is forced when the upper bits are not a sign extension.\<close>

definition legal_mtval :: "reg_t \<Rightarrow> reg_t" where
  "legal_mtval tval =
     (let upper_tval = drop_bit 39 tval AND 0x1FFFFFF;
          tval = (if drop_bit 38 tval AND 1 \<noteq> 0 \<and> upper_tval = 0x1FFFFFF then tval OR push_bit 39 1
                  else if drop_bit 38 tval AND 1 = 0 \<and> upper_tval \<noteq> 0 then tval OR push_bit 39 1
                  else tval AND 0xFFFFFF7FFFFFFFFF);
          upper_mask = (if drop_bit 39 tval AND 1 \<noteq> 0 then 0xFFFFFF else 0)
      in push_bit 40 upper_mask OR (tval AND 0xFFFFFFFFFF))"

definition trap_to_vs :: "nat \<Rightarrow> trap_t \<Rightarrow> reg_t \<Rightarrow> bool \<Rightarrow> reg_t \<Rightarrow> hart_t \<Rightarrow> hart_t" where
  "trap_to_vs xlen t epc interrupt b h =
     (let h = h\<lparr>pc := trap_vector (vstvec h) interrupt b, vscause := (if interrupt then trap_cause t - 1 else trap_cause t),
            vsepc := epc, vstval := get_tval t\<rparr>;
          s = mstatus h;
          s = set_field s MSTATUS_SPIE (get_field s MSTATUS_SIE);
          s = set_field s MSTATUS_SPP (prv h);
          s = set_field s MSTATUS_SIE 0
      in set_privilege PRV_S (set_mstatus xlen (zext_xlen xlen s) h))"

definition trap_to_hs :: "nat \<Rightarrow> trap_t \<Rightarrow> reg_t \<Rightarrow> bool \<Rightarrow> reg_t \<Rightarrow> hart_t \<Rightarrow> hart_t" where
  "trap_to_hs xlen t epc interrupt b h =
     (let curr_virt = v h;
          h = set_virt xlen False h;
          h = h\<lparr>pc := trap_vector (stvec h) interrupt b, scause := trap_cause t, sepc := epc, stval := get_tval t,
            htval := get_tval2 t, htinst := get_tinst t\<rparr>;
          s = mstatus h;
          s = set_field s MSTATUS_SPIE (get_field s MSTATUS_SIE);
          s = set_field s MSTATUS_SPP (prv h);
          s = set_field s MSTATUS_SIE 0;
          h = set_mstatus xlen (zext_xlen xlen s) h;
          s = hstatus h;
          s = set_field s HSTATUS_SPVP (prv h);
          s = set_field s HSTATUS_SPV (of_bool curr_virt);
          s = set_field s HSTATUS_GVA (of_bool (has_gva t));
          h = h\<lparr>hstatus := write_masked (hstatus h) (HSTATUS_VTSR OR HSTATUS_VTW OR HSTATUS_VTVM OR
            HSTATUS_HU OR HSTATUS_SPVP OR HSTATUS_SPV OR HSTATUS_GVA) (zext_xlen xlen s)\<rparr>
      in set_privilege PRV_S h)"

definition trap_to_m :: "nat \<Rightarrow> trap_t \<Rightarrow> reg_t \<Rightarrow> bool \<Rightarrow> reg_t \<Rightarrow> hart_t \<Rightarrow> hart_t" where
  "trap_to_m xlen t epc interrupt b h =
     (let curr_virt = v h;
          h = set_virt xlen False h;
          h = h\<lparr>pc := trap_vector (mtvec h) interrupt b, mepc := epc, mcause := trap_cause t,
            mtval := legal_mtval (get_tval t), mtval2 := get_tval2 t, mtinst := get_tinst t\<rparr>;
          s = mstatus h;
          s = set_field s MSTATUS_MPIE (get_field s MSTATUS_MIE);
          s = set_field s MSTATUS_MPP (prv h);
          s = set_field s MSTATUS_MIE 0;
          s = set_field s MSTATUS_MPV (of_bool curr_virt);
          s = set_field s MSTATUS_GVA (of_bool (has_gva t))
      in set_privilege PRV_M (set_mstatus xlen (zext_xlen xlen s) h))"

definition take_trap :: "nat \<Rightarrow> trap_t \<Rightarrow> reg_t \<Rightarrow> hart_t \<Rightarrow> hart_t" where
  "take_trap xlen t epc h =
     (if debug_mode h
      then h\<lparr>pc := (if trap_cause t = of_nat CAUSE_BREAKPOINT then DEBUG_ROM_ENTRY else DEBUG_ROM_TVEC)\<rparr>
      else if trap_cause t = of_nat CAUSE_BREAKPOINT \<and>
        (prv h = PRV_M \<and> ebreakm (dcsr h) \<or> prv h = PRV_S \<and> ebreaks (dcsr h) \<or> prv h = PRV_U \<and> ebreaku (dcsr h))
      then enter_debug_mode DCSR_CAUSE_SWBP h
      else
        let top = push_bit (xlen - 1) 1;
            interrupt = trap_cause t AND top \<noteq> 0;
            b = (if interrupt then trap_cause t AND NOT top else trap_cause t);
            low = prv h \<le> PRV_S;
            vsdeleg = (if v h \<and> low then (if interrupt then mideleg h AND hideleg h else medeleg h AND hedeleg h) else 0);
            hsdeleg = (if low then (if interrupt then mideleg h else medeleg h) else 0)
        in if low \<and> b < of_nat xlen \<and> drop_bit (unat b) vsdeleg AND 1 \<noteq> 0 then trap_to_vs xlen t epc interrupt b h
           else if low \<and> b < of_nat xlen \<and> drop_bit (unat b) hsdeleg AND 1 \<noteq> 0 then trap_to_hs xlen t epc interrupt b h
           else trap_to_m xlen t epc interrupt b h)"

section \<open>Interrupts\<close>

function ctz :: "reg_t \<Rightarrow> nat" where
  "ctz val = (if val \<noteq> 0 \<and> val AND 1 = 0 then Suc (ctz (drop_bit 1 val)) else 0)"
  by pat_completeness auto

termination
proof (relation "measure unat")
  fix val :: reg_t
  assume "val \<noteq> 0 \<and> val AND 1 = 0"
  then have "0 < unat val" by (auto simp: unat_gt_0)
  then show "(drop_bit 1 val, val) \<in> measure unat" by (simp add: drop_bit_eq_div unat_div)
qed simp

declare ctz.simps [simp del]

definition enabled_ints :: "reg_t \<Rightarrow> hart_t \<Rightarrow> reg_t" where
  "enabled_ints pending_interrupts h =
     (let m_enabled = prv h < PRV_M \<or> prv h = PRV_M \<and> get_field (mstatus h) MSTATUS_MIE \<noteq> 0;
          enabled = (if m_enabled then pending_interrupts AND NOT (mideleg h) else 0)
      in if enabled \<noteq> 0 then enabled
         else
           let deleg = mideleg h AND NOT MIP_VS_MASK;
               status = (if v h then vsstatus h else mstatus h);
               hs_enabled = prv h < PRV_S \<or> prv h = PRV_S \<and> get_field status MSTATUS_SIE \<noteq> 0;
               enabled = (if hs_enabled then pending_interrupts AND deleg else 0)
           in if v h \<and> enabled = 0
              then let deleg = mideleg h AND hideleg h;
                       vs_enabled = prv h < PRV_S \<or> prv h = PRV_S \<and> get_field (mstatus h) MSTATUS_SIE \<noteq> 0
                   in if vs_enabled then pending_interrupts AND deleg else 0
              else enabled)"

datatype interrupt = No_interrupt | Interrupt trap_t | Interrupt_abort

definition take_interrupt :: "nat \<Rightarrow> reg_t \<Rightarrow> hart_t \<Rightarrow> interrupt" where
  "take_interrupt xlen pending_interrupts h =
     (let e = enabled_ints pending_interrupts h;
          fire = (\<lambda>i. Interrupt (trap_interrupt (push_bit (xlen - 1) 1 OR of_nat (ctz i))))
      in if pending_interrupts = 0 then No_interrupt
         else if \<not> debug_mode h \<and> e \<noteq> 0
         then if drop_bit IRQ_M_EXT e \<noteq> 0 then fire (push_bit IRQ_M_EXT (drop_bit IRQ_M_EXT e))
              else if e AND MIP_MEIP \<noteq> 0 then fire MIP_MEIP
              else if e AND MIP_MSIP \<noteq> 0 then fire MIP_MSIP
              else if e AND MIP_MTIP \<noteq> 0 then fire MIP_MTIP
              else if e AND MIP_SEIP \<noteq> 0 then fire MIP_SEIP
              else if e AND MIP_SSIP \<noteq> 0 then fire MIP_SSIP
              else if e AND MIP_STIP \<noteq> 0 then fire MIP_STIP
              else if e AND MIP_VSEIP \<noteq> 0 then fire MIP_VSEIP
              else if e AND MIP_VSSIP \<noteq> 0 then fire MIP_VSSIP
              else if e AND MIP_VSTIP \<noteq> 0 then fire MIP_VSTIP
              else Interrupt_abort
         else No_interrupt)"

definition take_pending_interrupt :: "nat \<Rightarrow> hart_t \<Rightarrow> interrupt" where
  "take_pending_interrupt xlen h = take_interrupt xlen (mip h AND mie h) h"

section \<open>Privileged instructions\<close>

text \<open>
  The result of a body: the next address, possibly one of the odd sentinels that serialise the pipeline, a
  trap with the state at the throw, the wait for an interrupt, or the end of the simulator.
\<close>

datatype hart_result = Abort | Throw trap_t hart_t | Wfi hart_t | Next reg_t hart_t

type_synonym hart_body = "nat \<Rightarrow> insn_bits_t \<Rightarrow> reg_t \<Rightarrow> reg_t \<Rightarrow> hart_t \<Rightarrow> hart_result"

abbreviation (input) PC_SERIALIZE_BEFORE :: reg_t where "PC_SERIALIZE_BEFORE \<equiv> 3"
abbreviation (input) PC_SERIALIZE_AFTER :: reg_t where "PC_SERIALIZE_AFTER \<equiv> 5"

definition set_pc_and_serialize :: "reg_t \<Rightarrow> hart_t \<Rightarrow> hart_t" where
  "set_pc_and_serialize x h = h\<lparr>pc := x AND pc_alignment_mask h\<rparr>"

definition h_require :: "bool \<Rightarrow> insn_bits_t \<Rightarrow> hart_t \<Rightarrow> hart_result \<Rightarrow> hart_result" where
  "h_require x insn h k = (if x then k else Throw (trap_illegal_instruction (insn_bits insn)) h)"

definition require_novirt :: "insn_bits_t \<Rightarrow> hart_t \<Rightarrow> hart_result \<Rightarrow> hart_result" where
  "require_novirt insn h k = (if v h then Throw (trap_virtual_instruction (insn_bits insn)) h else k)"

definition validate_csr :: "insn_bits_t \<Rightarrow> bool \<Rightarrow> hart_t \<Rightarrow> (nat \<Rightarrow> hart_t \<Rightarrow> hart_result) \<Rightarrow> hart_result" where
  "validate_csr insn write h k =
     (if \<not> serialized h then Next PC_SERIALIZE_BEFORE h
      else
        let h = h\<lparr>serialized := False\<rparr>; which = insn_csr insn;
            csr_priv = get_field which 0x300;
            mode_unsupported = csr_priv = PRV_S \<and> \<not> supports_extension ext_S h \<or>
              csr_priv = PRV_HS \<and> \<not> supports_extension ext_H h;
            state_prv = (if prv h = PRV_S \<and> \<not> v h then PRV_HS else prv h);
            csr_read_only = get_field which 0xC00 = 3
        in if mode_unsupported then Throw (trap_illegal_instruction (insn_bits insn)) h
           else if write \<and> csr_read_only \<or> state_prv < csr_priv
           then if csr_priv = PRV_HS then Throw (trap_virtual_instruction (insn_bits insn)) h
                else Throw (trap_illegal_instruction (insn_bits insn)) h
           else k (unat which) h)"

text \<open>The common part of the six instructions: the written value as a function of the old one, if any.\<close>

definition access_csr :: "nat \<Rightarrow> insn_bits_t \<Rightarrow> reg_t \<Rightarrow> (reg_t \<Rightarrow> reg_t) option \<Rightarrow> nat \<Rightarrow> hart_t \<Rightarrow> hart_result" where
  "access_csr xlen insn npc write csr h =
     (case get_csr xlen csr insn h of
        Inl t \<Rightarrow> Throw t h
      | Inr old \<Rightarrow>
          (case (case write of Some f \<Rightarrow> set_csr xlen csr (f old) h | None \<Rightarrow> Inr h) of
             Inl t \<Rightarrow> Throw t h
           | Inr h \<Rightarrow> Next PC_SERIALIZE_AFTER (set_pc_and_serialize npc (WRITE_RD insn (sext_xlen xlen old) h))))"

definition rv_csrrw :: hart_body where
  "rv_csrrw xlen insn cpc npc h =
     validate_csr insn True h (\<lambda>csr h. access_csr xlen insn npc (Some (\<lambda>old. RS1 insn h)) csr h)"

definition rv_csrrs :: hart_body where
  "rv_csrrs xlen insn cpc npc h =
     (let write = insn_rs1 insn \<noteq> 0
      in validate_csr insn write h (\<lambda>csr h. access_csr xlen insn npc (if write then Some (\<lambda>old. old OR RS1 insn h) else None) csr h))"

definition rv_csrrc :: hart_body where
  "rv_csrrc xlen insn cpc npc h =
     (let write = insn_rs1 insn \<noteq> 0
      in validate_csr insn write h (\<lambda>csr h. access_csr xlen insn npc (if write then Some (\<lambda>old. old AND NOT (RS1 insn h)) else None) csr h))"

definition rv_csrrwi :: hart_body where
  "rv_csrrwi xlen insn cpc npc h =
     validate_csr insn True h (\<lambda>csr h. access_csr xlen insn npc (Some (\<lambda>old. insn_rs1 insn)) csr h)"

definition rv_csrrsi :: hart_body where
  "rv_csrrsi xlen insn cpc npc h =
     (let write = insn_rs1 insn \<noteq> 0
      in validate_csr insn write h (\<lambda>csr h. access_csr xlen insn npc (if write then Some (\<lambda>old. old OR insn_rs1 insn) else None) csr h))"

definition rv_csrrci :: hart_body where
  "rv_csrrci xlen insn cpc npc h =
     (let write = insn_rs1 insn \<noteq> 0
      in validate_csr insn write h (\<lambda>csr h. access_csr xlen insn npc (if write then Some (\<lambda>old. old AND NOT (insn_rs1 insn)) else None) csr h))"

definition rv_mret :: hart_body where
  "rv_mret xlen insn cpc npc h =
     h_require (PRV_M \<le> prv h) insn h (
     let h = set_pc_and_serialize (mepc h) h;
         s = mstatus h;
         prev_prv = get_field s MSTATUS_MPP;
         prev_virt = get_field s MSTATUS_MPV;
         s = set_field s MSTATUS_MIE (get_field s MSTATUS_MPIE);
         s = set_field s MSTATUS_MPIE 1;
         s = set_field s MSTATUS_MPP PRV_U;
         h = set_mstatus xlen (zext_xlen xlen s) h;
         h = set_privilege prev_prv h
     in Next PC_SERIALIZE_AFTER (set_virt xlen (prev_virt \<noteq> 0) h))"

definition rv_sret :: hart_body where
  "rv_sret xlen insn cpc npc h =
     h_require (supports_extension ext_S h) insn h (
     h_require ((if get_field (mstatus h) MSTATUS_TSR \<noteq> 0 then PRV_M else PRV_S) \<le> prv h) insn h (
     (if v h \<and> get_field (hstatus h) HSTATUS_VTSR \<noteq> 0 then require_novirt insn h else (\<lambda>k. k)) (
     let next_pc = (if v h then vsepc h else sepc h);
         h = set_pc_and_serialize next_pc h;
         s = mstatus h;
         prev_prv = get_field s MSTATUS_SPP;
         s = set_field s MSTATUS_SIE (get_field s MSTATUS_SPIE);
         s = set_field s MSTATUS_SPIE 1;
         s = set_field s MSTATUS_SPP PRV_U;
         h = set_mstatus xlen (zext_xlen xlen s) h;
         h = set_privilege prev_prv h;
         h = (if \<not> v h then set_virt xlen (get_field (hstatus h) HSTATUS_SPV \<noteq> 0) h else h)
     in Next PC_SERIALIZE_AFTER h)))"

definition rv_dret :: hart_body where
  "rv_dret xlen insn cpc npc h =
     h_require (debug_mode h) insn h (
     let h = set_pc_and_serialize (dpc h) h;
         h = set_privilege (ucast (dcsr_prv (dcsr h))) h;
         h = h\<lparr>debug_mode := False\<rparr>;
         h = (if dcsr_step (dcsr h) then h\<lparr>single_step := STEP_STEPPING\<rparr> else h)
     in Next PC_SERIALIZE_AFTER h)"

definition rv_ecall :: hart_body where
  "rv_ecall xlen insn cpc npc h =
     (if prv h = PRV_U then Throw trap_user_ecall h
      else if prv h = PRV_S then Throw (if v h then trap_virtual_supervisor_ecall else trap_supervisor_ecall) h
      else if prv h = PRV_M then Throw trap_machine_ecall h
      else Abort)"

definition rv_ebreak :: hart_body where
  "rv_ebreak xlen insn cpc npc h = Throw (trap_breakpoint 0) h"

definition rv_c_ebreak :: hart_body where
  "rv_c_ebreak xlen insn cpc npc h = h_require (supports_extension ext_C h) insn h (Throw (trap_breakpoint 0) h)"

definition rv_wfi :: hart_body where
  "rv_wfi xlen insn cpc npc h =
     h_require ((if get_field (mstatus h) MSTATUS_TW \<noteq> 0 then PRV_M else PRV_S) \<le> prv h) insn h (
     (if v h \<and> get_field (hstatus h) HSTATUS_VTW \<noteq> 0 then require_novirt insn h else (\<lambda>k. k)) (
     Wfi (set_pc_and_serialize npc h)))"

definition rv_sfence_vma :: hart_body where
  "rv_sfence_vma xlen insn cpc npc h =
     h_require (supports_extension ext_S h) insn h (
     h_require ((if get_field (mstatus h) MSTATUS_TVM \<noteq> 0 then PRV_M else PRV_S) \<le> prv h) insn h (
     Next npc (flush_tlb h)))"

section \<open>Reset\<close>

abbreviation (input) DEFAULT_RSTVEC :: reg_t where "DEFAULT_RSTVEC \<equiv> 0x10000"

definition state_reset :: "hart_t \<Rightarrow> hart_t" where
  "state_reset h =
     h\<lparr>pc := DEFAULT_RSTVEC, XPR := replicate 32 0, FPR := replicate 32 \<lparr>fv0 = 0, fv1 = 0\<rparr>, prv := PRV_M, v := False,
       misa := max_isa h, mstatus := 0, mepc := 0, mtval := 0, mscratch := 0, mtvec := 0, mcause := 0, minstret := 0,
       mie := 0, mip := 0, medeleg := 0, mideleg := 0, mcounteren := 0, scounteren := 0, sepc := 0, stval := 0,
       sscratch := 0, stvec := 0, satp := 0, scause := 0, mtval2 := 0, mtinst := 0, hstatus := 0, hideleg := 0,
       hedeleg := 0, hcounteren := 0, htval := 0, htinst := 0, hgatp := 0, vsstatus := 0, vstvec := 0, vsscratch := 0,
       vsepc := 0, vscause := 0, vstval := 0, vsatp := 0, dpc := 0, dscratch0 := 0, dscratch1 := 0,
       dcsr := \<lparr>dcsr_prv = 0, dcsr_step = False, ebreakm = False, ebreakh = False, ebreaks = False, ebreaku = False,
         halt = False, dcsr_cause = 0\<rparr>,
       tselect := 0,
       mcontrol := replicate num_triggers \<lparr>mc_type = 2, dmode = False, maskmax = 0, mc_select = False, timing = False,
         mc_action = 0, chain = False, mc_match = 0, mc_m = False, mc_h = False, mc_s = False, mc_u = False,
         mc_execute = False, mc_store = False, mc_load = False\<rparr>,
       tdata2 := replicate num_triggers 0, debug_mode := False, single_step := STEP_NONE,
       pmpcfg := replicate max_pmp 0, pmpaddr := replicate max_pmp 0, fflags := 0, frm := 0, serialized := False\<rparr>"

text \<open>
  The reset of the processor without the vector unit and the coprocessor; the write of a status or protection
  register never traps.
\<close>

definition processor_reset :: "nat \<Rightarrow> bool \<Rightarrow> hart_t \<Rightarrow> hart_t" where
  "processor_reset xlen halt_on_reset h =
     (let h = state_reset h;
          h = h\<lparr>mideleg := (if supports_extension ext_H h then MIDELEG_FORCED_MASK else 0)\<rparr>;
          h = h\<lparr>dcsr := (dcsr h)\<lparr>halt := halt_on_reset\<rparr>\<rparr>;
          h = set_mstatus xlen (zext_xlen xlen (mstatus h)) h
      in if 0 < n_pmp h
         then set_pmpcfg xlen 0 (ucast (PMP_R OR PMP_W OR PMP_X OR PMP_NAPOT)) (set_pmpaddr 0 (zext_xlen xlen (- 1)) h)
         else h)"

section \<open>An example\<close>

text \<open>A 64-bit hart with the extensions of an application core and sixteen protection entries, after its reset.\<close>

definition blank_hart :: hart_t where
  "blank_hart =
     \<lparr>XPR = [], FPR = [], misa = 0, mstatus = 0, fflags = 0, frm = 0, extension_table = replicate 256 False,
      softfloat = softfloat_init, pc = 0, prv = 0, v = False, mepc = 0, mtval = 0, mscratch = 0, mtvec = 0, mcause = 0,
      minstret = 0, mie = 0, mip = 0, medeleg = 0, mideleg = 0, mcounteren = 0, scounteren = 0, sepc = 0, stval = 0,
      sscratch = 0, stvec = 0, satp = 0, scause = 0, mtval2 = 0, mtinst = 0, hstatus = 0, hideleg = 0, hedeleg = 0,
      hcounteren = 0, htval = 0, htinst = 0, hgatp = 0, vsstatus = 0, vstvec = 0, vsscratch = 0, vsepc = 0, vscause = 0,
      vstval = 0, vsatp = 0, dpc = 0, dscratch0 = 0, dscratch1 = 0,
      dcsr = \<lparr>dcsr_prv = 0, dcsr_step = False, ebreakm = False, ebreakh = False, ebreaks = False, ebreaku = False,
        halt = False, dcsr_cause = 0\<rparr>,
      tselect = 0, mcontrol = [], tdata2 = [], debug_mode = False, pmpcfg = [], pmpaddr = [], serialized = False,
      single_step = STEP_NONE, max_isa = 0x800000000014112D, coprocessor = False, hart_id = 0, n_pmp = 16,
      lg_pmp_granularity = 2, vstart = 0, vxsat = 0, vxrm = 0, vl = 0, vtype = 0, vlenb = 0, VLEN = 0,
      mmu = \<lparr>tlb_insn_tag = [], tlb_load_tag = [], tlb_store_tag = [], tlb_data = [], check_triggers_fetch = False,
        check_triggers_load = False, check_triggers_store = False, load_reservation_address = - 1\<rparr>\<rparr>"

definition example_hart :: hart_t where
  "example_hart = processor_reset 64 False blank_hart"

end
