(* ===== verification/RV_Csr.thy ===== *)
theory RV_Csr
  imports RV_Pmp RV_Priv
begin

text \<open>
  What the writes of control registers preserve: locked protection entries, the consistency of the
  translation cache, and the invariant of the privileged state.
\<close>

section \<open>The example\<close>

lemma example_pmp_wf: "pmp_wf example_hart"
  by code_simp

theorem pmp_ok_refines_rule_witness:
  "pmp_ok example_hart 0x80001008 8 LOAD PRV_U \<longleftrightarrow>
     n_pmp example_hart = 0 \<or> pmp_rule example_hart [0 ..< n_pmp example_hart] [0x80001008 ..< 0x80001010] LOAD PRV_U"
  using pmp_ok_refines_rule [OF example_pmp_wf, of "0x80001008" 8 LOAD PRV_U] by (simp add: natural_access_def)

section \<open>Effects\<close>

text \<open>
  The possible effects of a write other than to the protection registers.  A register whose value no
  other part of the model depends on may get any value.
\<close>

inductive csr_effect :: "nat \<Rightarrow> hart_t \<Rightarrow> hart_t \<Rightarrow> bool" where
  eff_same: "csr_effect xlen h h"
| eff_mip: "csr_effect xlen h (h\<lparr>mip := x\<rparr>)"
| eff_mie: "csr_effect xlen h (h\<lparr>mie := write_masked (mie h) (all_ints h) x\<rparr>)"
| eff_sie: "csr_effect xlen h (h\<lparr>mie := write_masked (mie h) (mideleg h AND NOT MIP_HS_MASK) x\<rparr>)"
| eff_vsie: "csr_effect xlen h (h\<lparr>mie := write_masked (mie h) (hideleg h AND MIP_VS_MASK) x\<rparr>)"
| eff_hie: "csr_effect xlen h (h\<lparr>mie := write_masked (mie h) MIP_HS_MASK x\<rparr>)"
| eff_mcounteren: "csr_effect xlen h (h\<lparr>mcounteren := x\<rparr>)"
| eff_mepc: "csr_effect xlen h (h\<lparr>mepc := x\<rparr>)"
| eff_mtvec: "csr_effect xlen h (h\<lparr>mtvec := x\<rparr>)"
| eff_mscratch: "csr_effect xlen h (h\<lparr>mscratch := x\<rparr>)"
| eff_mcause: "csr_effect xlen h (h\<lparr>mcause := x\<rparr>)"
| eff_mtval: "csr_effect xlen h (h\<lparr>mtval := x\<rparr>)"
| eff_mtval2: "csr_effect xlen h (h\<lparr>mtval2 := x\<rparr>)"
| eff_mtinst: "csr_effect xlen h (h\<lparr>mtinst := x\<rparr>)"
| eff_minstret: "csr_effect xlen h (h\<lparr>minstret := x\<rparr>)"
| eff_scounteren: "csr_effect xlen h (h\<lparr>scounteren := x\<rparr>)"
| eff_sepc: "csr_effect xlen h (h\<lparr>sepc := x\<rparr>)"
| eff_stvec: "csr_effect xlen h (h\<lparr>stvec := x\<rparr>)"
| eff_sscratch: "csr_effect xlen h (h\<lparr>sscratch := x\<rparr>)"
| eff_scause: "csr_effect xlen h (h\<lparr>scause := x\<rparr>)"
| eff_stval: "csr_effect xlen h (h\<lparr>stval := x\<rparr>)"
| eff_hstatus: "csr_effect xlen h (h\<lparr>hstatus := x\<rparr>)"
| eff_hedeleg: "csr_effect xlen h (h\<lparr>hedeleg := x\<rparr>)"
| eff_hideleg: "csr_effect xlen h (h\<lparr>hideleg := x\<rparr>)"
| eff_hcounteren: "csr_effect xlen h (h\<lparr>hcounteren := x\<rparr>)"
| eff_htinst: "csr_effect xlen h (h\<lparr>htinst := x\<rparr>)"
| eff_vsstatus: "csr_effect xlen h (h\<lparr>vsstatus := x\<rparr>)"
| eff_vstvec: "csr_effect xlen h (h\<lparr>vstvec := x\<rparr>)"
| eff_vsscratch: "csr_effect xlen h (h\<lparr>vsscratch := x\<rparr>)"
| eff_vsepc: "csr_effect xlen h (h\<lparr>vsepc := x\<rparr>)"
| eff_vscause: "csr_effect xlen h (h\<lparr>vscause := x\<rparr>)"
| eff_vstval: "csr_effect xlen h (h\<lparr>vstval := x\<rparr>)"
| eff_dpc: "csr_effect xlen h (h\<lparr>dpc := x\<rparr>)"
| eff_dscratch0: "csr_effect xlen h (h\<lparr>dscratch0 := x\<rparr>)"
| eff_dscratch1: "csr_effect xlen h (h\<lparr>dscratch1 := x\<rparr>)"
| eff_fflags: "csr_effect xlen h ((dirty_fp_state xlen h)\<lparr>fflags := ucast ((val :: reg_t) AND 0x1F)\<rparr>)"
| eff_frm: "csr_effect xlen h ((dirty_fp_state xlen h)\<lparr>frm := ucast ((val :: reg_t) AND 0x7)\<rparr>)"
| eff_fcsr: "csr_effect xlen h ((dirty_fp_state xlen h)\<lparr>fflags := ucast ((val :: reg_t) AND 0x1F), frm := ucast (drop_bit 5 val AND 7)\<rparr>)"
| eff_vcsr: "csr_effect xlen h ((dirty_vs_state xlen h)\<lparr>vxsat := x, vxrm := y\<rparr>)"
| eff_vstart: "csr_effect xlen h ((dirty_vs_state xlen h)\<lparr>vstart := x\<rparr>)"
| eff_vxsat: "csr_effect xlen h ((dirty_vs_state xlen h)\<lparr>vxsat := x\<rparr>)"
| eff_vxrm: "csr_effect xlen h ((dirty_vs_state xlen h)\<lparr>vxrm := x\<rparr>)"
| eff_mstatus: "csr_effect xlen h (set_mstatus xlen val h)"
| eff_misa: "csr_effect xlen h (set_misa val h)"
| eff_mideleg: "csr_effect xlen h (h\<lparr>mideleg := write_masked (mideleg h) (delegable_ints h) val\<rparr>)"
| eff_medeleg: "csr_effect xlen h (h\<lparr>medeleg := write_masked (medeleg h) medeleg_mask val\<rparr>)"
| eff_satp: "\<not> v h \<Longrightarrow> csr_effect xlen h ((flush_tlb h)\<lparr>satp := satp_value xlen (SATP64_PPN AND rv64_ppn_mask) val\<rparr>)"
| eff_vsatp: "csr_effect xlen h ((flush_tlb h)\<lparr>vsatp := satp_value xlen ppn val\<rparr>)"
| eff_hgatp: "csr_effect xlen h ((flush_tlb h)\<lparr>hgatp := hgatp_value xlen val\<rparr>)"
| eff_tselect: "val < of_nat num_triggers \<Longrightarrow> csr_effect xlen h (h\<lparr>tselect := val\<rparr>)"
| eff_tdata1: "csr_effect xlen h (set_tdata1 xlen val h)"
| eff_tdata2: "csr_effect xlen h (set_tdata2 val h)"
| eff_dcsr: "csr_effect xlen h (set_dcsr val h)"

lemma effect_vstatus:
  "v h \<Longrightarrow> csr_effect xlen h ((flush_tlb h)\<lparr>vsatp := satp_value xlen ppn val\<rparr>)"
  by (rule eff_vsatp)

lemma v_flush [simp]: "v (flush_tlb h) = v h"
  by (simp add: flush_tlb_def)

lemma effect_user: "set_csr_user xlen which val h = Some h' \<Longrightarrow> csr_effect xlen h h'"
  unfolding set_csr_user_def by (auto split: if_split_asm intro: csr_effect.intros)

lemma effect_machine: "set_csr_machine xlen which val h = Some (Inr h') \<Longrightarrow> csr_effect xlen h h'"
  unfolding set_csr_machine_def set_csr_machine_trap_def by (auto split: if_split_asm simp: set_minstret_def set_minstreth_def intro: csr_effect.intros)

lemma effect_supervisor: "set_csr_supervisor xlen which val h = Some h' \<Longrightarrow> csr_effect xlen h h'"
  unfolding set_csr_supervisor_def Let_def by (auto split: if_split_asm intro: csr_effect.intros)

lemma effect_hypervisor: "set_csr_hypervisor xlen which val h = Some (Inr h') \<Longrightarrow> csr_effect xlen h h'"
  unfolding set_csr_hypervisor_def by (auto split: if_split_asm intro: csr_effect.intros)

lemma effect_debug: "set_csr_debug xlen which val h = Some h' \<Longrightarrow> csr_effect xlen h h'"
  unfolding set_csr_debug_def by (auto split: if_split_asm intro: csr_effect.intros)

lemma effect_switch: "set_csr_switch xlen which val h = Inr h' \<Longrightarrow> csr_effect xlen h h'"
  unfolding set_csr_switch_def
  by (auto split: option.splits intro: effect_user effect_machine effect_supervisor effect_hypervisor effect_debug eff_same)

lemma switch_pmp:
  assumes "pmpaddr_csr which \<or> pmpcfg_csr which"
  shows "set_csr_switch xlen which val h = Inr h"
proof -
  have ne: "(which = c) = False" if "c < 0x3A0 \<or> 0x3C0 \<le> c" for c
    using assms that by (auto simp: pmpaddr_csr_def pmpcfg_csr_def)
  show ?thesis
    unfolding set_csr_switch_def set_csr_user_def set_csr_machine_def set_csr_machine_trap_def set_csr_supervisor_def
      set_csr_hypervisor_def set_csr_debug_def
    by (simp add: ne)
qed

lemma set_csr_cases:
  assumes "set_csr xlen which val h = Inr h'"
  obtains (none) "h' = h"
  | (addr) i x where "i < max_pmp" "h' = set_pmpaddr i x h"
  | (cfg) r x where "r < 4" "h' = set_pmpcfg xlen r x h"
  | (effect) "csr_effect xlen h h'"
proof (cases "pmpaddr_csr which \<or> pmpcfg_csr which")
  case True
  then have "\<not> (pmpaddr_csr which \<and> pmpcfg_csr which)" by (auto simp: pmpaddr_csr_def pmpcfg_csr_def)
  then show ?thesis
    using assms True switch_pmp [OF True] none addr [of "which - CSR_PMPADDR0"] cfg [of "which - CSR_PMPCFG0"]
    by (auto simp: set_csr_def Let_def pmpaddr_csr_def pmpcfg_csr_def split: if_split_asm)
next
  case False
  then show ?thesis using assms effect effect_switch by (auto simp: set_csr_def Let_def)
qed

section \<open>Protection registers\<close>

definition pmp_part :: "hart_t \<Rightarrow> uint8_t list \<times> reg_t list \<times> nat \<times> nat" where
  "pmp_part h = (pmpcfg h, pmpaddr h, n_pmp h, lg_pmp_granularity h)"

lemmas setter_defs = flush_tlb_def trigger_updated_def dirty_fp_state_def dirty_vs_state_def set_mstatus_def
  set_misa_def set_tdata1_def set_tdata2_def set_dcsr_def Let_def

lemma effect_pmp: "csr_effect xlen h h' \<Longrightarrow> pmp_part h' = pmp_part h"
  by (induction rule: csr_effect.induct) (simp_all add: pmp_part_def setter_defs)

lemma pmp_wf_part: "pmp_part h' = pmp_part h \<Longrightarrow> pmp_wf h' = pmp_wf h"
  by (simp add: pmp_part_def pmp_wf_def)

definition cfg_wf :: "nat \<Rightarrow> uint8_t \<Rightarrow> bool" where
  "cfg_wf lg c \<longleftrightarrow> c AND 0x60 = 0 \<and> (c AND PMP_W \<noteq> 0 \<longrightarrow> c AND PMP_R \<noteq> 0) \<and> (c AND PMP_A = PMP_NA4 \<longrightarrow> lg = 2)"

lemma bit_and_nz: "(c AND push_bit k 1 \<noteq> 0) = bit c k" for c :: "'a::len word"
  using and_exp_eq_0_iff_not_bit [of c k] by (simp add: push_bit_eq_mult)

lemma legal_pmpcfg_wf: "cfg_wf lg (legal_pmpcfg lg cfg)"
proof -
  define c where "c = cfg AND (PMP_R OR PMP_W OR PMP_X OR PMP_A OR PMP_L)"
  define d where "d = c AND (NOT PMP_W OR (if c AND PMP_R \<noteq> 0 then PMP_W else 0))"
  have masks: "PMP_R = push_bit 0 1" "PMP_W = push_bit 1 1" by (simp_all add: PMP_R_def PMP_W_def)
  have c: "c AND 0x60 = 0" unfolding c_def PMP_R_def PMP_W_def PMP_X_def PMP_A_def PMP_L_def
    by (simp add: and.assoc)
  have "d AND 0x60 = (c AND 0x60) AND (NOT PMP_W OR (if c AND PMP_R \<noteq> 0 then PMP_W else 0))"
    unfolding d_def by (simp only: and.assoc and.commute and.left_commute)
  then have d: "d AND 0x60 = 0" unfolding c by simp
  have "bit d 1 \<longrightarrow> bit d 0"
    unfolding d_def masks bit_and_nz by (auto simp: bit_simps)
  then have wr: "d AND PMP_W \<noteq> 0 \<longrightarrow> d AND PMP_R \<noteq> 0" unfolding masks bit_and_nz .
  have n: "(d OR PMP_NAPOT) AND 0x60 = 0" "(d OR PMP_NAPOT) AND PMP_W = d AND PMP_W"
    "(d OR PMP_NAPOT) AND PMP_R = d AND PMP_R" "(d OR PMP_NAPOT) AND PMP_A = PMP_NAPOT"
    using d by (simp_all add: bit.conj_disj_distrib2 PMP_NAPOT_def PMP_W_def PMP_R_def PMP_A_def)
  have "PMP_NAPOT \<noteq> PMP_NA4" by (simp add: PMP_NAPOT_def PMP_NA4_def)
  then show ?thesis
    using d wr n unfolding cfg_wf_def legal_pmpcfg_def Let_def c_def [symmetric] d_def [symmetric] by auto
qed

lemma pmp_wf_alt:
  "pmp_wf h \<longleftrightarrow> length (pmpcfg h) = max_pmp \<and> length (pmpaddr h) = max_pmp \<and> n_pmp h \<le> max_pmp \<and>
     2 \<le> lg_pmp_granularity h \<and> lg_pmp_granularity h \<le> 32 \<and>
     list_all (\<lambda>a. a < 2 ^ 30) (pmpaddr h) \<and> list_all (cfg_wf (lg_pmp_granularity h)) (pmpcfg h)"
  by (simp add: pmp_wf_def cfg_wf_def [abs_def])

lemma list_all_update: "list_all P xs \<Longrightarrow> P x \<Longrightarrow> list_all P (xs[i := x])"
  using set_update_subset_insert [of xs i x] by (auto simp: list_all_iff)

lemma set_pmpaddr_wf: "pmp_wf h \<Longrightarrow> pmp_wf (set_pmpaddr i val h)"
proof -
  have "val AND (push_bit 30 1 - 1) < 2 ^ 30"
  proof -
    have "val AND (push_bit 30 1 - 1) = take_bit 30 val" by (simp add: take_bit_eq_mask mask_eq_exp_minus_1)
    then show ?thesis by (simp add: word_less_nat_alt unat_take_bit)
  qed
  then show "pmp_wf h \<Longrightarrow> pmp_wf (set_pmpaddr i val h)"
    by (simp add: set_pmpaddr_def pmp_wf_alt flush_tlb_def Let_def list_all_update)
qed

lemma set_pmpcfg_entry_wf: "pmp_wf h \<Longrightarrow> pmp_wf (set_pmpcfg_entry i0 val i h)"
  by (simp add: set_pmpcfg_entry_def pmp_wf_alt list_all_update legal_pmpcfg_wf)

lemma set_pmpcfg_wf: "pmp_wf h \<Longrightarrow> pmp_wf (set_pmpcfg xlen r val h)"
proof -
  have "pmp_wf h \<Longrightarrow> pmp_wf (fold (set_pmpcfg_entry i0 val) is h)" for i0 "is"
    by (induction "is" arbitrary: h) (simp_all add: set_pmpcfg_entry_wf)
  then show "pmp_wf h \<Longrightarrow> ?thesis" by (simp add: set_pmpcfg_def flush_tlb_def pmp_wf_def Let_def)
qed

lemma set_csr_pmp_wf: "set_csr xlen which val h = Inr h' \<Longrightarrow> pmp_wf h \<Longrightarrow> pmp_wf h'"
  by (erule set_csr_cases) (simp_all add: set_pmpaddr_wf set_pmpcfg_wf effect_pmp [THEN pmp_wf_part])

text \<open>A locked entry, and the bound below a locked top-of-range entry, stay.\<close>

definition keeps_locked :: "nat \<Rightarrow> hart_t \<Rightarrow> hart_t \<Rightarrow> bool" where
  "keeps_locked i h h' \<longleftrightarrow>
     pmpcfg h' ! i = pmpcfg h ! i \<and> pmpaddr h' ! i = pmpaddr h ! i \<and>
     (pmpcfg h ! i AND PMP_A = PMP_TOR \<and> 0 < i \<longrightarrow> pmpaddr h' ! (i - 1) = pmpaddr h ! (i - 1))"

lemma keeps_locked_trans: "keeps_locked i h h' \<Longrightarrow> keeps_locked i h' h'' \<Longrightarrow> keeps_locked i h h''"
  by (auto simp: keeps_locked_def)

lemma locked_addr:
  assumes "pmp_wf h" "i < max_pmp" "pmpcfg h ! i AND PMP_L \<noteq> 0"
  shows "keeps_locked i h (set_pmpaddr j val h)"
  using assms
  by (cases "j = i"; cases "Suc j = i") (auto simp: keeps_locked_def set_pmpaddr_def flush_tlb_def Let_def)

lemma locked_cfg:
  assumes "pmpcfg h ! i AND PMP_L \<noteq> 0"
  shows "keeps_locked i h (set_pmpcfg xlen r val h)"
proof -
  have "keeps_locked i h (fold (set_pmpcfg_entry i0 val) is h)" if "pmpcfg h ! i AND PMP_L \<noteq> 0" for i0 "is"
    using that
  proof (induction "is" arbitrary: h)
    case (Cons j "is")
    have "keeps_locked i h (set_pmpcfg_entry i0 val j h)"
      using Cons.prems by (cases "j = i") (auto simp: keeps_locked_def set_pmpcfg_entry_def)
    then show ?case
      using Cons.IH [of "set_pmpcfg_entry i0 val j h"] Cons.prems keeps_locked_trans
      by (simp add: keeps_locked_def)
  qed (simp add: keeps_locked_def)
  from this [OF assms] show ?thesis by (simp add: set_pmpcfg_def flush_tlb_def keeps_locked_def Let_def)
qed

fun csr_writes :: "nat \<Rightarrow> (nat \<times> reg_t) list \<Rightarrow> hart_t \<Rightarrow> hart_t" where
  "csr_writes xlen [] h = h"
| "csr_writes xlen ((which, val) # ws) h =
     (case set_csr xlen which val h of Inl t \<Rightarrow> csr_writes xlen ws h | Inr h' \<Rightarrow> csr_writes xlen ws h')"

lemma set_csr_locked:
  assumes "set_csr xlen which val h = Inr h'" "pmp_wf h" "i < max_pmp" "pmpcfg h ! i AND PMP_L \<noteq> 0"
  shows "keeps_locked i h h'"
  using assms(1)
proof (cases rule: set_csr_cases)
  case effect
  then show ?thesis using effect_pmp [OF effect] by (simp add: keeps_locked_def pmp_part_def)
qed (simp_all add: locked_addr [OF assms(2-4)] locked_cfg [OF assms(4)], simp add: keeps_locked_def)


definition locked_hart :: hart_t where
  "locked_hart = set_pmpcfg 64 0 0x9F example_hart"


section \<open>The translation cache\<close>

definition tlb_empty :: "hart_t \<Rightarrow> bool" where
  "tlb_empty h \<longleftrightarrow> tlb_insn_tag (mmu h) = replicate TLB_ENTRIES (- 1) \<and>
     tlb_load_tag (mmu h) = replicate TLB_ENTRIES (- 1) \<and> tlb_store_tag (mmu h) = replicate TLB_ENTRIES (- 1)"

definition xlate_fields :: reg_t where
  "xlate_fields = MSTATUS_MPP OR MSTATUS_MPRV OR MSTATUS_SUM OR MSTATUS_MXR"

text \<open>
  The registers an address translation depends on, but for the field MPV of \<^verbatim>\<open>mstatus\<close>, which only a hart with the
  hypervisor extension can write.
\<close>

definition xlate_key ::
  "hart_t \<Rightarrow> reg_t \<times> bool \<times> reg_t \<times> reg_t \<times> reg_t \<times> reg_t \<times> bool \<times> uint8_t list \<times> reg_t list \<times> nat \<times> nat" where
  "xlate_key h = (prv h, v h, satp h, vsatp h, hgatp h, mstatus h AND xlate_fields, debug_mode h, pmp_part h)"

definition legal_mpp :: "hart_t \<Rightarrow> bool" where
  "legal_mpp h \<longleftrightarrow> legalize_privilege (get_field (mstatus h) MSTATUS_MPP) h = get_field (mstatus h) MSTATUS_MPP"

lemma field_masks:
  "MSTATUS_MPP = push_bit 11 (mask 2)" "MSTATUS_SPP = push_bit 8 (mask 1)" "MSTATUS_MIE = push_bit 3 (mask 1)"
  "MSTATUS_MPIE = push_bit 7 (mask 1)" "MSTATUS_SIE = push_bit 1 (mask 1)" "MSTATUS_SPIE = push_bit 5 (mask 1)"
  "MSTATUS_MPV = push_bit 39 (mask 1)" "MSTATUS_GVA = push_bit 38 (mask 1)" "MSTATUS_UXL = push_bit 32 (mask 2)"
  "MSTATUS_SXL = push_bit 34 (mask 2)" "MSTATUS32_SD = push_bit 31 (mask 1)" "MSTATUS64_SD = push_bit 63 (mask 1)"
  by (simp_all add: MSTATUS_MPP_def MSTATUS_SPP_def MSTATUS_MIE_def MSTATUS_MPIE_def MSTATUS_SIE_def MSTATUS_SPIE_def
      MSTATUS_MPV_def MSTATUS_GVA_def MSTATUS_UXL_def MSTATUS_SXL_def MSTATUS32_SD_def MSTATUS64_SD_def mask_eq_exp_minus_1)

lemma bit_set_field_other: "\<not> bit m n \<Longrightarrow> bit (set_field r m x) n = bit r n" for r :: "'a::len word"
  by (auto simp: set_field_def bit_simps dest: bit_imp_le_length)

lemma set_get_field:
  fixes r m :: "'a::len word"
  assumes "m = push_bit k (mask w)" "0 < w" "k + w \<le> LENGTH('a)"
  shows "set_field r m (get_field r m) = r"
  unfolding set_field_bits [OF assms] get_field_bits [OF assms] unfolding assms(1)
  by (rule bit_word_eqI) (use assms(3) in \<open>auto simp: bit_simps\<close>)

lemma get_field_cong: "a AND m = b AND m \<Longrightarrow> get_field a m = get_field b m"
  by (simp add: get_field_def)

lemma xlate_disjoint: "bit xlate_fields n \<Longrightarrow> \<not> bit MSTATUS_FS n \<and> \<not> bit MSTATUS_VS n \<and> \<not> bit MSTATUS32_SD n \<and>
   \<not> bit MSTATUS64_SD n \<and> \<not> bit MSTATUS_UXL n \<and> \<not> bit MSTATUS_SXL n"
proof -
  have "xlate_fields AND (MSTATUS_FS OR MSTATUS_VS OR MSTATUS32_SD OR MSTATUS64_SD OR MSTATUS_UXL OR MSTATUS_SXL) = 0"
    by (simp add: xlate_fields_def MSTATUS_MPP_def MSTATUS_MPRV_def MSTATUS_SUM_def MSTATUS_MXR_def MSTATUS_FS_def MSTATUS_VS_def
        MSTATUS32_SD_def MSTATUS64_SD_def MSTATUS_UXL_def MSTATUS_SXL_def)
  then have "\<not> bit (xlate_fields AND (MSTATUS_FS OR MSTATUS_VS OR MSTATUS32_SD OR MSTATUS64_SD OR MSTATUS_UXL OR MSTATUS_SXL)) n"
    by simp
  then show "bit xlate_fields n \<Longrightarrow> ?thesis" by (simp add: bit_and_iff bit_or_iff)
qed

lemma xlate_dirty: "mstatus (dirty_fp_state xlen h) AND xlate_fields = mstatus h AND xlate_fields"
  "mstatus (dirty_vs_state xlen h) AND xlate_fields = mstatus h AND xlate_fields"
  unfolding dirty_fp_state_def dirty_vs_state_def
  by (rule bit_word_eqI; auto simp: bit_and_iff bit_or_iff dest: xlate_disjoint)+

lemma legalize_flush [simp]: "legalize_privilege p (flush_tlb h) = legalize_privilege p h"
  by (simp add: legalize_privilege_def supports_extension_def flush_tlb_def)

lemma flush_empty: "tlb_empty (flush_tlb h)" "tlb_empty (trigger_updated h)"
  by (simp_all add: tlb_empty_def flush_tlb_def mmu_flush_tlb_def trigger_updated_def Let_def)

lemma xlate_mstatus:
  assumes "legal_mpp h" "(val XOR mstatus h) AND xlate_fields = 0"
  shows "mstatus (set_mstatus xlen val h) AND xlate_fields = mstatus h AND xlate_fields"
proof (rule bit_word_eqI)
  fix n assume n: "n < LENGTH(64)"
  have same: "bit val n = bit (mstatus h) n" if "bit xlate_fields n" for n
  proof -
    have "\<not> bit ((val XOR mstatus h) AND xlate_fields) n" unfolding assms(2) by simp
    then show ?thesis using that by (simp add: bit_and_iff bit_xor_iff)
  qed
  have "val AND MSTATUS_MPP = mstatus h AND MSTATUS_MPP"
    by (rule bit_word_eqI) (use same in \<open>auto simp: xlate_fields_def bit_and_iff bit_or_iff\<close>)
  then have "set_field (mstatus h) MSTATUS_MPP (legalize_privilege (get_field val MSTATUS_MPP) h) = mstatus h"
    using assms(1) get_field_cong [of val MSTATUS_MPP "mstatus h"] set_get_field [OF field_masks(1)]
    by (simp add: legal_mpp_def)
  then have "bit (new_mstatus xlen val h) n = bit (mstatus h) n" if "bit xlate_fields n"
    using same [OF that] xlate_disjoint [OF that] n
    by (auto simp: new_mstatus_def Let_def bit_and_iff bit_or_iff bit_not_iff bit_set_field_other)
  then show "bit (mstatus (set_mstatus xlen val h) AND xlate_fields) n = bit (mstatus h AND xlate_fields) n"
    by (auto simp: set_mstatus_def Let_def bit_and_iff)
qed

lemma effect_xlate:
  assumes "csr_effect xlen h h'" "legal_mpp h"
  shows "xlate_key h' = xlate_key h \<or> tlb_empty h'"
  using assms
proof (induction rule: csr_effect.induct)
  case (eff_mstatus xlen h val)
  show ?case
  proof (cases "(val XOR mstatus h) AND xlate_fields = 0")
    case True
    then show ?thesis using xlate_mstatus [OF eff_mstatus True] effect_pmp [OF csr_effect.eff_mstatus]
      by (simp add: xlate_key_def) (simp add: set_mstatus_def Let_def xlate_fields_def [symmetric])
  next
    case False
    then show ?thesis
      by (simp add: set_mstatus_def Let_def xlate_fields_def [symmetric] tlb_empty_def flush_tlb_def mmu_flush_tlb_def)
  qed
next
  case (eff_tdata1 xlen h val)
  then show ?case using flush_empty(2) by (simp add: set_tdata1_def Let_def)
qed (simp_all add: xlate_key_def pmp_part_def xlate_dirty tlb_empty_def flush_tlb_def mmu_flush_tlb_def
    set_misa_def set_tdata2_def set_dcsr_def Let_def,
    simp_all add: dirty_fp_state_def dirty_vs_state_def)

lemma MPV_bit: "bit MSTATUS_MPV n \<longleftrightarrow> n = 39"
  using bit_imp_le_length [of MSTATUS_MPV n] unfolding field_masks
  by (simp only: bit_push_bit_iff bit_mask_iff word_size) auto

lemma mpv_mstatus:
  assumes "\<not> supports_extension ext_H h"
  shows "new_mstatus xlen val h AND MSTATUS_MPV = mstatus h AND MSTATUS_MPV"
proof (rule bit_word_eqI)
  fix n
  have "mstatus_mask h AND MSTATUS_MPV = 0"
    using assms by (simp add: mstatus_mask_def Let_def MSTATUS_SIE_def MSTATUS_MIE_def MSTATUS_SPIE_def MSTATUS_MPIE_def
      MSTATUS_SPP_def MSTATUS_MPV_def MSTATUS_GVA_def MSTATUS_TSR_def MSTATUS_TW_def MSTATUS_TVM_def MSTATUS_MXR_def
      MSTATUS_SUM_def MSTATUS_MPRV_def MSTATUS_FS_def MSTATUS_VS_def MSTATUS_XS_def and.assoc bit.conj_disj_distrib2)
  then have "\<not> bit (mstatus_mask h AND MSTATUS_MPV) 39" by simp
  then have "\<not> bit (mstatus_mask h) 39" by (simp add: bit_and_iff MPV_bit)
  moreover have "\<not> bit MSTATUS_MPP 39" "\<not> bit MSTATUS_FS 39" "\<not> bit MSTATUS32_SD 39" "\<not> bit MSTATUS64_SD 39" "\<not> bit MSTATUS_UXL 39"
    "\<not> bit MSTATUS_SXL 39"
    by (simp_all add: MSTATUS_MPP_def MSTATUS_FS_def MSTATUS32_SD_def MSTATUS64_SD_def MSTATUS_UXL_def MSTATUS_SXL_def)
  ultimately have "bit (new_mstatus xlen val h) 39 = bit (mstatus h) 39"
    by (simp add: new_mstatus_def Let_def bit_and_iff bit_or_iff bit_not_iff bit_set_field_other)
  then show "bit (new_mstatus xlen val h AND MSTATUS_MPV) n = bit (mstatus h AND MSTATUS_MPV) n"
    by (auto simp: bit_and_iff MPV_bit)
qed

lemma mpv_dirty: "mstatus (dirty_fp_state xlen h) AND MSTATUS_MPV = mstatus h AND MSTATUS_MPV"
  "mstatus (dirty_vs_state xlen h) AND MSTATUS_MPV = mstatus h AND MSTATUS_MPV"
proof -
  have "\<not> bit MSTATUS_FS 39" "\<not> bit MSTATUS_VS 39" "\<not> bit MSTATUS32_SD 39" "\<not> bit MSTATUS64_SD 39"
    by (simp_all add: MSTATUS_FS_def MSTATUS_VS_def MSTATUS32_SD_def MSTATUS64_SD_def)
  then show "mstatus (dirty_fp_state xlen h) AND MSTATUS_MPV = mstatus h AND MSTATUS_MPV"
    "mstatus (dirty_vs_state xlen h) AND MSTATUS_MPV = mstatus h AND MSTATUS_MPV"
    by (auto intro!: bit_word_eqI simp: dirty_fp_state_def dirty_vs_state_def bit_and_iff bit_or_iff MPV_bit)
qed

lemma effect_mpv:
  assumes "csr_effect xlen h h'" "\<not> supports_extension ext_H h"
  shows "mstatus h' AND MSTATUS_MPV = mstatus h AND MSTATUS_MPV"
  using assms
proof (induction rule: csr_effect.induct)
  case (eff_mstatus xlen h val)
  have "mstatus (set_mstatus xlen val h) = new_mstatus xlen val h" by (simp add: set_mstatus_def Let_def)
  then show ?case using mpv_mstatus [OF eff_mstatus] by simp
qed (simp_all add: mpv_dirty flush_tlb_def set_misa_def set_tdata1_def set_tdata2_def set_dcsr_def trigger_updated_def Let_def)

text \<open>
  C30.  A write of a control register does not leave a stale translation.  When the field MPP of \<^verbatim>\<open>mstatus\<close> holds a
  legal privilege level, either the privilege level, the virtualisation mode, debug mode, the registers satp,
  vsatp and hgatp, the protection registers and the fields MPP, MPRV, SUM and MXR of \<^verbatim>\<open>mstatus\<close> are unchanged, or the
  translation cache is empty afterwards.  On a hart without the hypervisor extension the write does not change
  the field MPV either, the one other field of \<^verbatim>\<open>mstatus\<close> that translation reads; with the extension, a write of MPV
  alone does not flush.
\<close>

theorem csr_write_flushes_tlb:
  assumes "set_csr xlen which val h = Inr h'" "legal_mpp h"
  shows "(xlate_key h' = xlate_key h \<or> tlb_empty h') \<and>
    (supports_extension ext_H h \<or> mstatus h' AND MSTATUS_MPV = mstatus h AND MSTATUS_MPV)"
  using assms(1)
proof (cases rule: set_csr_cases)
  case effect
  then show ?thesis using effect_xlate [OF _ assms(2)] effect_mpv by blast
next
  case (cfg r x)
  have "mstatus (fold (set_pmpcfg_entry i val) is h) = mstatus h" for i val "is"
    by (induction "is" arbitrary: h) (simp_all add: set_pmpcfg_entry_def Let_def)
  moreover have "mstatus (flush_tlb g) = mstatus g" for g by (simp add: flush_tlb_def)
  ultimately show ?thesis using cfg by (simp add: set_pmpcfg_def flush_empty Let_def)
qed (simp_all add: set_pmpaddr_def flush_empty Let_def, simp_all add: flush_tlb_def)

theorem csr_write_flushes_tlb_witness:
  "\<exists>h. set_csr 64 0x180 (8 * 2 ^ 60 + 5) example_hart = Inr h \<and> (xlate_key h = xlate_key example_hart \<or> tlb_empty h) \<and>
    (supports_extension ext_H example_hart \<or> mstatus h AND MSTATUS_MPV = mstatus example_hart AND MSTATUS_MPV)"
proof -
  have "\<not> isl (set_csr 64 0x180 (8 * 2 ^ 60 + 5) example_hart)" "legal_mpp example_hart" by code_simp+
  then show ?thesis using csr_write_flushes_tlb [of 64 "0x180" "8 * 2 ^ 60 + 5" example_hart]
    by (cases "set_csr 64 0x180 (8 * 2 ^ 60 + 5) example_hart") simp_all
qed

end
