(* ===== verification/RV_Trap.thy ===== *)
theory RV_Trap
  imports RV_Csr
begin

text \<open>
  Traps, interrupts and returns as steps of a hart without the hypervisor extension: the invariant of its
  privileged state, that the simulator never gives up on it, and that a trap followed by its return resumes
  the interrupted program.
\<close>

section \<open>Single bits of a field\<close>

lemma bit_field:
  fixes r :: reg_t
  assumes "k < 64"
  shows "get_field r (push_bit k 1) = of_bool (bit r k)"
  using get_field_bits [of "push_bit k 1" k 1 r] assms by (simp add: take_bit_Suc bit_drop_bit_eq mod_2_eq_odd even_drop_bit_iff_not_bit)

lemma bit_set_bit:
  fixes r x :: reg_t
  assumes "k < 64"
  shows "bit (set_field r (push_bit k 1) x) n \<longleftrightarrow> (if n = k then bit x 0 else bit r n)"
proof -
  have "set_field r (push_bit k 1) x = (r AND NOT (push_bit k 1)) OR push_bit k (take_bit 1 x)"
    using set_field_bits [of "push_bit k 1" k 1 r x] assms by simp
  then show ?thesis using assms
    by (auto simp: bit_simps simp del: take_bit_Suc take_bit_Suc_0 dest: bit_imp_le_length)
qed

lemma mstatus_bits:
  "MSTATUS_SIE = push_bit 1 1" "MSTATUS_MIE = push_bit 3 1" "MSTATUS_SPIE = push_bit 5 1" "MSTATUS_MPIE = push_bit 7 1"
  "MSTATUS_SPP = push_bit 8 1" "MSTATUS_MPV = push_bit 39 1" "MSTATUS_GVA = push_bit 38 1"
  "MSTATUS_TSR = push_bit 22 1" "HSTATUS_SPV = push_bit 7 1" "HSTATUS_SPVP = push_bit 8 1" "HSTATUS_GVA = push_bit 6 1"
  "MSTATUS32_SD = push_bit 31 1" "MSTATUS64_SD = push_bit 63 1"
  by (simp_all add: MSTATUS_SIE_def MSTATUS_MIE_def MSTATUS_SPIE_def MSTATUS_MPIE_def MSTATUS_SPP_def MSTATUS_MPV_def
      MSTATUS_GVA_def MSTATUS_TSR_def HSTATUS_SPV_def HSTATUS_SPVP_def HSTATUS_GVA_def MSTATUS32_SD_def MSTATUS64_SD_def)

lemma flag_bits:
  "bit (set_field r MSTATUS_SIE x) n \<longleftrightarrow> (if n = 1 then bit x 0 else bit r n)"
  "bit (set_field r MSTATUS_MIE x) n \<longleftrightarrow> (if n = 3 then bit x 0 else bit r n)"
  "bit (set_field r MSTATUS_SPIE x) n \<longleftrightarrow> (if n = 5 then bit x 0 else bit r n)"
  "bit (set_field r MSTATUS_MPIE x) n \<longleftrightarrow> (if n = 7 then bit x 0 else bit r n)"
  "bit (set_field r MSTATUS_SPP x) n \<longleftrightarrow> (if n = 8 then bit x 0 else bit r n)"
  "bit (set_field r MSTATUS_MPV x) n \<longleftrightarrow> (if n = 39 then bit x 0 else bit r n)"
  "bit (set_field r MSTATUS_GVA x) n \<longleftrightarrow> (if n = 38 then bit x 0 else bit r n)"
  "bit (set_field r HSTATUS_SPV x) n \<longleftrightarrow> (if n = 7 then bit x 0 else bit r n)"
  "bit (set_field r HSTATUS_SPVP x) n \<longleftrightarrow> (if n = 8 then bit x 0 else bit r n)"
  "bit (set_field r HSTATUS_GVA x) n \<longleftrightarrow> (if n = 6 then bit x 0 else bit r n)"
  unfolding mstatus_bits by (rule bit_set_bit; simp)+

lemma flag_reads:
  "get_field r MSTATUS_SIE = of_bool (bit r 1)"
  "get_field r MSTATUS_MIE = of_bool (bit r 3)"
  "get_field r MSTATUS_SPIE = of_bool (bit r 5)"
  "get_field r MSTATUS_MPIE = of_bool (bit r 7)"
  "get_field r MSTATUS_SPP = of_bool (bit r 8)"
  "get_field r MSTATUS_MPV = of_bool (bit r 39)"
  "get_field r MSTATUS_GVA = of_bool (bit r 38)"
  "get_field r HSTATUS_SPV = of_bool (bit r 7)"
  "get_field r HSTATUS_SPVP = of_bool (bit r 8)"
  "get_field r HSTATUS_GVA = of_bool (bit r 6)"
  "get_field r MSTATUS_TSR = of_bool (bit r 22)"
  unfolding mstatus_bits by (rule bit_field; simp)+

section \<open>The written status register\<close>

lemma bit_mask_at:
  "bit (push_bit k (mask 1) :: reg_t) n \<longleftrightarrow> n = k \<and> n < 64"
  "bit (push_bit k (mask 2) :: reg_t) n \<longleftrightarrow> (n = k \<or> n = k + 1) \<and> n < 64"
  unfolding bit_push_bit_iff bit_mask_iff by auto

lemma FS_field: "MSTATUS_FS = push_bit 13 (mask 2)"
  by (simp add: MSTATUS_FS_def mask_eq_exp_minus_1)

lemma new_mstatus_bit:
  assumes "n < 64" "n \<notin> {11, 12, 13, 14, 31, 32, 33, 34, 35, 63}"
  shows "bit (new_mstatus xlen val h) n \<longleftrightarrow> (if bit (mstatus_mask h) n then bit val n else bit (mstatus h) n)"
proof -
  have "\<not> bit MSTATUS_MPP n" "\<not> bit MSTATUS_FS n" "\<not> bit MSTATUS32_SD n" "\<not> bit MSTATUS64_SD n" "\<not> bit MSTATUS_UXL n"
    "\<not> bit MSTATUS_SXL n"
    unfolding field_masks FS_field bit_mask_at using assms by simp_all
  then show ?thesis using assms(1)
    by (auto simp: new_mstatus_def Let_def bit_set_field_other bit_and_iff bit_or_iff bit_not_iff)
qed

lemma mask_members:
  "bit (mstatus_mask h) 3" "bit (mstatus_mask h) 7" "\<not> bit (mstatus_mask h) 11" "\<not> bit (mstatus_mask h) 12"
  "bit (mstatus_mask h) 39 \<longleftrightarrow> supports_extension ext_S h \<and> supports_extension ext_H h"
  "bit (mstatus_mask h) 1 \<longleftrightarrow> supports_extension ext_S h" "bit (mstatus_mask h) 5 \<longleftrightarrow> supports_extension ext_S h"
  "bit (mstatus_mask h) 8 \<longleftrightarrow> supports_extension ext_S h" "bit (mstatus_mask h) 22"
  by (simp_all add: mstatus_mask_def Let_def bit_or_iff MSTATUS_SIE_def MSTATUS_MIE_def MSTATUS_SPIE_def MSTATUS_MPIE_def
      MSTATUS_SPP_def MSTATUS_MPV_def MSTATUS_GVA_def MSTATUS_TSR_def MSTATUS_TW_def MSTATUS_TVM_def MSTATUS_MXR_def
      MSTATUS_SUM_def MSTATUS_MPRV_def MSTATUS_FS_def MSTATUS_VS_def MSTATUS_XS_def)

lemma field_le_3: "get_field (val :: reg_t) MSTATUS_MPP \<le> 3"
proof -
  have "get_field val MSTATUS_MPP = take_bit 2 (drop_bit 11 val)" by (rule get_field_bits [OF field_masks(1)]) simp_all
  moreover have "unat (take_bit 2 (drop_bit 11 val)) < 2 ^ 2" unfolding unsigned_take_bit_eq by (rule take_bit_nat_less_exp)
  ultimately show ?thesis by (simp add: word_le_nat_alt)
qed

lemma legal_le_3: "p \<le> 3 \<Longrightarrow> legalize_privilege p h \<le> 3"
  by (simp add: legalize_privilege_def)

lemma take_bit_2: "p \<le> 3 \<Longrightarrow> take_bit 2 p = (p :: reg_t)"
proof -
  assume "p \<le> 3"
  then have "unat p < 2 ^ 2" by (simp add: word_le_nat_alt)
  then show ?thesis by (intro word_unat_eq_iff [THEN iffD2]) (simp add: unsigned_take_bit_eq take_bit_nat_eq_self)
qed

lemma new_mstatus_mpp:
  "get_field (new_mstatus xlen val h) MSTATUS_MPP = legalize_privilege (get_field val MSTATUS_MPP) h" (is "_ = ?p")
proof -
  have m: "bit (new_mstatus xlen val h) n = bit ?p (n - 11)" if "n = 11 \<or> n = 12" for n
  proof -
    have n: "\<not> bit (mstatus_mask h) n" "bit MSTATUS_MPP n" "\<not> bit MSTATUS_FS n" "\<not> bit MSTATUS32_SD n"
      "\<not> bit MSTATUS64_SD n" "\<not> bit MSTATUS_UXL n" "\<not> bit MSTATUS_SXL n"
      using that mask_members unfolding field_masks FS_field bit_mask_at by auto
    then have "bit (new_mstatus xlen val h) n = bit (set_field (mstatus h) MSTATUS_MPP ?p) n" using that
      by (auto simp: new_mstatus_def Let_def bit_set_field_other bit_and_iff bit_or_iff bit_not_iff)
    also have "\<dots> = bit (push_bit 11 (take_bit 2 ?p)) n"
      using set_field_bits [OF field_masks(1)] n(2) by (simp add: bit_or_iff bit_and_iff bit_not_iff)
    finally show ?thesis using that by (auto simp: bit_simps)
  qed
  have "get_field (new_mstatus xlen val h) MSTATUS_MPP = take_bit 2 (drop_bit 11 (new_mstatus xlen val h))"
    by (rule get_field_bits [OF field_masks(1)]) simp_all
  also have "\<dots> = take_bit 2 ?p"
  proof (rule bit_word_eqI)
    fix n assume "n < LENGTH(64)"
    show "bit (take_bit 2 (drop_bit 11 (new_mstatus xlen val h))) n = bit (take_bit 2 ?p) n"
      using m [of "11 + n"] by (cases "n < 2") (auto simp: bit_take_bit_iff bit_drop_bit_eq less_2_cases_iff)
  qed
  also have "\<dots> = ?p" by (rule take_bit_2 [OF legal_le_3 [OF field_le_3]])
  finally show ?thesis .
qed

lemma zext_bit:
  assumes "xlen = 32 \<or> xlen = 64" "n < 32"
  shows "bit (zext_xlen xlen x) n = bit x n"
  using assms by (auto simp: zext_xlen_def bit_simps)

section \<open>The invariant of the privileged state\<close>

definition int_legal :: "reg_t \<Rightarrow> bool" where
  "int_legal x \<longleftrightarrow> \<not> bit x 0 \<and> \<not> bit x 4 \<and> \<not> bit x 8"

definition satp_legal :: "nat \<Rightarrow> reg_t \<Rightarrow> bool" where
  "satp_legal xlen s \<longleftrightarrow> (xlen = 64 \<longrightarrow>
     get_field s SATP64_MODE = SATP_MODE_OFF \<or> get_field s SATP64_MODE = SATP_MODE_SV39 \<or> get_field s SATP64_MODE = SATP_MODE_SV48)"

text \<open>
  No hypervisor, a privilege level the hart has, a previous privilege it can return to, only interrupts with a
  handler enabled or delegated, a translation mode the page walk knows, well-formed protection registers.
\<close>

definition priv_core :: "nat \<Rightarrow> hart_t \<Rightarrow> bool" where
  "priv_core xlen h \<longleftrightarrow>
     \<not> bit (max_isa h) 7 \<and> \<not> bit (misa h) 7 \<and> \<not> v h \<and> prv h \<le> PRV_M \<and> legalize_privilege (prv h) h = prv h \<and>
     legal_mpp h \<and> \<not> bit (mstatus h) 39 \<and> dcsr_prv (dcsr h) \<le> 3 \<and> satp_legal xlen (satp h) \<and>
     int_legal (mie h) \<and> int_legal (mideleg h) \<and> pmp_wf h"

definition priv_inv :: "nat \<Rightarrow> hart_t \<Rightarrow> bool" where
  "priv_inv xlen h \<longleftrightarrow> priv_core xlen h \<and> \<not> bit (hstatus h) 7"

lemma supports_letter:
  "supports_extension ext_H h \<longleftrightarrow> bit (misa h) 7" "supports_extension ext_S h \<longleftrightarrow> bit (misa h) 18"
  "supports_extension ext_U h \<longleftrightarrow> bit (misa h) 20"
  by (simp_all add: supports_extension_def and_one_eq bit_iff_odd_drop_bit odd_iff_mod_2_eq_one)

lemma legalize_bits:
  "legalize_privilege p h = (if \<not> bit (misa h) 20 then PRV_M
     else if p = PRV_HS \<and> \<not> bit (misa h) 7 \<or> p = PRV_S \<and> \<not> bit (misa h) 18 then PRV_U else p)"
  by (simp add: legalize_privilege_def supports_letter)

text \<open>The part of the state the invariant depends on.\<close>

definition priv_part where
  "priv_part h = ((bit (max_isa h) 7, bit (misa h) 7, bit (misa h) 18, bit (misa h) 20, v h, prv h),
     get_field (mstatus h) MSTATUS_MPP, bit (mstatus h) 39, dcsr_prv (dcsr h), satp h, mie h, mideleg h, pmp_part h)"

lemma priv_core_part: "priv_part h' = priv_part h \<Longrightarrow> priv_core xlen h' = priv_core xlen h"
proof -
  assume "priv_part h' = priv_part h"
  then have eqs: "bit (max_isa h') 7 = bit (max_isa h) 7" "bit (misa h') 7 = bit (misa h) 7" "bit (misa h') 18 = bit (misa h) 18"
    "bit (misa h') 20 = bit (misa h) 20" "v h' = v h" "prv h' = prv h" "bit (mstatus h') 39 = bit (mstatus h) 39"
    "get_field (mstatus h') MSTATUS_MPP = get_field (mstatus h) MSTATUS_MPP" "dcsr_prv (dcsr h') = dcsr_prv (dcsr h)"
    "satp h' = satp h" "mie h' = mie h" "mideleg h' = mideleg h" and "pmp_part h' = pmp_part h"
    unfolding priv_part_def prod.inject by blast+
  moreover from this have "pmp_wf h' = pmp_wf h" by (intro pmp_wf_part)
  moreover have "legalize_privilege p h' = legalize_privilege p h" for p by (simp only: legalize_bits eqs)
  ultimately show ?thesis by (simp only: priv_core_def legal_mpp_def)
qed

lemma write_masked_bit: "bit (write_masked old msk val) n \<longleftrightarrow> (if bit msk n then bit val n else bit old n)" for old :: reg_t
  by (auto simp: write_masked_def bit_and_iff bit_or_iff bit_not_iff dest: bit_imp_le_length)

lemma int_masks:
  "int_legal (all_ints h)" "int_legal (delegable_ints h)" "int_legal MIP_HS_MASK" "int_legal MIP_VS_MASK"
  by (simp_all add: int_legal_def all_ints_def delegable_ints_def hypervisor_ints_def supervisor_ints_def MIP_HS_MASK_def
      MIP_VS_MASK_def MIP_SSIP_def MIP_VSSIP_def MIP_MSIP_def MIP_STIP_def MIP_VSTIP_def MIP_MTIP_def MIP_SEIP_def
      MIP_VSEIP_def MIP_MEIP_def MIP_SGEIP_def bit_or_iff bit_push_bit_iff)

lemma int_legal_write: "int_legal old \<Longrightarrow> int_legal msk \<Longrightarrow> int_legal (write_masked old msk val)"
  by (simp add: int_legal_def write_masked_bit)

lemma int_legal_and: "int_legal x \<Longrightarrow> int_legal (x AND y)" "int_legal y \<Longrightarrow> int_legal (x AND y)"
  by (auto simp: int_legal_def bit_and_iff)

lemma satp_value_legal: "satp_legal xlen (satp_value xlen ppn val)"
proof -
  have "(val AND (ppn OR SATP64_MODE)) AND SATP64_MODE = val AND SATP64_MODE"
    by (rule bit_word_eqI) (auto simp: bit_and_iff bit_or_iff)
  then have "get_field (val AND (ppn OR SATP64_MODE)) SATP64_MODE = get_field val SATP64_MODE" by (rule get_field_cong)
  then show ?thesis by (auto simp: satp_legal_def satp_value_def Let_def) (simp_all add: get_field_def)
qed

lemma legal_idem: "\<not> bit (misa h) 7 \<Longrightarrow> legalize_privilege (legalize_privilege p h) h = legalize_privilege p h"
  by (simp add: legalize_bits)

lemma legalize_cong: "misa h' = misa h \<Longrightarrow> legalize_privilege p h' = legalize_privilege p h" for h h' :: hart_t
  by (simp add: legalize_bits)

lemma set_mstatus_sel [simp]:
  "misa (set_mstatus xlen val h) = misa h" "max_isa (set_mstatus xlen val h) = max_isa h" "v (set_mstatus xlen val h) = v h"
  "prv (set_mstatus xlen val h) = prv h" "dcsr (set_mstatus xlen val h) = dcsr h" "satp (set_mstatus xlen val h) = satp h"
  "mie (set_mstatus xlen val h) = mie h" "mideleg (set_mstatus xlen val h) = mideleg h" "pc (set_mstatus xlen val h) = pc h"
  "hstatus (set_mstatus xlen val h) = hstatus h" "mepc (set_mstatus xlen val h) = mepc h" "sepc (set_mstatus xlen val h) = sepc h"
  "mstatus (set_mstatus xlen val h) = new_mstatus xlen val h"
  by (simp_all add: set_mstatus_def Let_def flush_tlb_def)

lemma mstatus_legal:
  assumes "\<not> bit (misa h) 7"
  shows "bit (new_mstatus xlen val h) 39 = bit (mstatus h) 39" "legal_mpp (set_mstatus xlen val h)"
    "pmp_wf (set_mstatus xlen val h) = pmp_wf h"
proof -
  show "bit (new_mstatus xlen val h) 39 = bit (mstatus h) 39"
    using new_mstatus_bit [of 39 xlen val h] mask_members(5) [of h] assms by (simp add: supports_letter)
  show "legal_mpp (set_mstatus xlen val h)"
    using legal_idem [of h] assms by (simp add: legal_mpp_def new_mstatus_mpp legalize_cong [of "set_mstatus xlen val h" h])
  show "pmp_wf (set_mstatus xlen val h) = pmp_wf h" by (rule pmp_wf_part [OF effect_pmp [OF eff_mstatus]])
qed

lemma mstatus_part:
  assumes "priv_core xlen h"
  shows "priv_core xlen (set_mstatus xlen val h)"
proof -
  have "\<not> bit (misa h) 7" using assms by (simp add: priv_core_def)
  from mstatus_legal [OF this] show ?thesis using assms
    by (simp add: priv_core_def legalize_cong [of "set_mstatus xlen val h" h])
qed

lemma bit_or_part: "\<not> bit m n \<Longrightarrow> bit (r OR m) n = bit r n" for r :: reg_t
  by (simp add: bit_or_iff)

lemma dirty_part:
  "priv_part (dirty_fp_state xlen h) = priv_part h" "priv_part (dirty_vs_state xlen h) = priv_part h"
proof -
  have disj: "(m OR sd) AND MSTATUS_MPP = 0" "\<not> bit (m OR sd) 39"
    if "m = MSTATUS_FS \<or> m = MSTATUS_VS" "sd = MSTATUS64_SD \<or> sd = MSTATUS32_SD" for m sd
    using that by (auto simp: MSTATUS_FS_def MSTATUS_VS_def MSTATUS64_SD_def MSTATUS32_SD_def MSTATUS_MPP_def)
  have "get_field (r OR m) MSTATUS_MPP = get_field r MSTATUS_MPP" if "m AND MSTATUS_MPP = 0" for r m :: reg_t
    by (rule get_field_cong) (simp add: bit.conj_disj_distrib2 that)
  then show "priv_part (dirty_fp_state xlen h) = priv_part h" "priv_part (dirty_vs_state xlen h) = priv_part h"
    by (simp_all add: priv_part_def pmp_part_def dirty_fp_state_def dirty_vs_state_def disj bit_or_part)
qed

lemma misa_part:
  assumes "priv_core xlen h"
  shows "priv_core xlen (set_misa val h)"
proof -
  define h' where "h' = h\<lparr>misa := misa_value val h\<rparr>"
  have "bit (misa_value val h) n = bit (misa h) n" if "n = 7 \<or> n = 18 \<or> n = 20" for n
    using that assms unfolding misa_value_def Let_def priv_core_def
    by (elim disjE) (simp_all add: bit_and_iff bit_or_iff bit_not_iff bit_push_bit_iff bit_1_iff)
  then have part: "priv_part h' = priv_part h" by (simp add: h'_def priv_part_def pmp_part_def)
  have "int_legal (mideleg h AND NOT MIDELEG_FORCED_MASK)" using assms by (simp add: priv_core_def int_legal_and)
  moreover have "priv_core xlen h'" using assms part by (simp add: priv_core_part [of h' h])
  moreover from this have "\<not> supports_extension ext_H h'" by (simp add: priv_core_def supports_letter)
  moreover have "priv_core xlen (h'\<lparr>mideleg := x\<rparr>) = priv_core xlen h'" if "int_legal x" "int_legal (mideleg h')" for x
    using that by (simp add: priv_core_def legal_mpp_def pmp_wf_def legalize_cong [of "h'\<lparr>mideleg := x\<rparr>" h'])
  moreover have "int_legal (mideleg h')" using assms by (simp add: h'_def priv_core_def)
  ultimately show ?thesis using assms unfolding set_misa_def Let_def h'_def [symmetric] by (simp add: h'_def)
qed

lemma core_updates:
  "priv_core xlen h \<Longrightarrow> int_legal x \<Longrightarrow> priv_core xlen (h\<lparr>mie := x\<rparr>)"
  "priv_core xlen h \<Longrightarrow> int_legal x \<Longrightarrow> priv_core xlen (h\<lparr>mideleg := x\<rparr>)"
  "priv_core xlen h \<Longrightarrow> satp_legal xlen x \<Longrightarrow> priv_core xlen (h\<lparr>satp := x\<rparr>)"
  "priv_core xlen h \<Longrightarrow> dcsr_prv d \<le> 3 \<Longrightarrow> priv_core xlen (h\<lparr>dcsr := d\<rparr>)"
  "priv_core xlen h \<Longrightarrow> p \<le> PRV_M \<Longrightarrow> priv_core xlen (set_privilege p h)"
  by (simp_all add: priv_core_def legal_mpp_def pmp_wf_def legalize_cong [of "h\<lparr>mie := x\<rparr>" h]
      legalize_cong [of "h\<lparr>mideleg := x\<rparr>" h] legalize_cong [of "h\<lparr>satp := x\<rparr>" h] legalize_cong [of "h\<lparr>dcsr := d\<rparr>" h])
    (simp add: set_privilege_def Let_def flush_tlb_def, simp add: legal_idem legal_le_3 legalize_cong [of "h\<lparr>mmu := y\<rparr>" h for y]
      legalize_cong [of "h\<lparr>mmu := y, prv := z\<rparr>" h for y z])

lemma part_flush: "priv_part (flush_tlb h) = priv_part h" "priv_part (trigger_updated h) = priv_part h"
  by (simp_all add: priv_part_def pmp_part_def flush_tlb_def trigger_updated_def Let_def)

lemma field_3: "get_field (val :: reg_t) 3 \<le> 3"
proof -
  have "get_field val 3 = take_bit 2 (drop_bit 0 val)" by (rule get_field_bits) (simp_all add: mask_eq_exp_minus_1)
  moreover have "unat (take_bit 2 (drop_bit 0 val)) < 2 ^ 2" unfolding unsigned_take_bit_eq by (rule take_bit_nat_less_exp)
  ultimately show ?thesis by (simp add: word_le_nat_alt)
qed

lemma ucast_le_3: "x \<le> 3 \<Longrightarrow> (ucast x :: uint8_t) \<le> 3" for x :: reg_t
  by (simp add: word_le_nat_alt unsigned_ucast_eq take_bit_nat_def)

lemma core_ints:
  assumes "priv_core xlen h"
  shows "int_legal msk \<Longrightarrow> priv_core xlen (h\<lparr>mie := write_masked (mie h) msk x\<rparr>)"
    "priv_core xlen (h\<lparr>mie := write_masked (mie h) (mideleg h AND y) x\<rparr>)"
    "int_legal msk \<Longrightarrow> priv_core xlen (h\<lparr>mideleg := write_masked (mideleg h) msk x\<rparr>)"
  using core_updates(1,2) [OF assms] assms by (simp_all add: int_legal_write int_legal_and priv_core_def)

text \<open>No other register matters to the invariant.\<close>

lemma part_update:
  "priv_part (h\<lparr>pc := x0\<rparr>) = priv_part h" "priv_part (h\<lparr>XPR := x1\<rparr>) = priv_part h"
  "priv_part (h\<lparr>FPR := x2\<rparr>) = priv_part h" "priv_part (h\<lparr>fflags := x3\<rparr>) = priv_part h"
  "priv_part (h\<lparr>frm := x4\<rparr>) = priv_part h" "priv_part (h\<lparr>mip := x5\<rparr>) = priv_part h"
  "priv_part (h\<lparr>mcounteren := x6\<rparr>) = priv_part h" "priv_part (h\<lparr>mepc := x7\<rparr>) = priv_part h"
  "priv_part (h\<lparr>mtvec := x8\<rparr>) = priv_part h" "priv_part (h\<lparr>mscratch := x9\<rparr>) = priv_part h"
  "priv_part (h\<lparr>mcause := x10\<rparr>) = priv_part h" "priv_part (h\<lparr>mtval := x11\<rparr>) = priv_part h"
  "priv_part (h\<lparr>mtval2 := x12\<rparr>) = priv_part h" "priv_part (h\<lparr>mtinst := x13\<rparr>) = priv_part h"
  "priv_part (h\<lparr>minstret := x14\<rparr>) = priv_part h" "priv_part (h\<lparr>scounteren := x15\<rparr>) = priv_part h"
  "priv_part (h\<lparr>sepc := x16\<rparr>) = priv_part h" "priv_part (h\<lparr>stvec := x17\<rparr>) = priv_part h"
  "priv_part (h\<lparr>sscratch := x18\<rparr>) = priv_part h" "priv_part (h\<lparr>scause := x19\<rparr>) = priv_part h"
  "priv_part (h\<lparr>stval := x20\<rparr>) = priv_part h" "priv_part (h\<lparr>hstatus := x21\<rparr>) = priv_part h"
  "priv_part (h\<lparr>hedeleg := x22\<rparr>) = priv_part h" "priv_part (h\<lparr>hideleg := x23\<rparr>) = priv_part h"
  "priv_part (h\<lparr>hcounteren := x24\<rparr>) = priv_part h" "priv_part (h\<lparr>htval := x25\<rparr>) = priv_part h"
  "priv_part (h\<lparr>htinst := x26\<rparr>) = priv_part h" "priv_part (h\<lparr>vsstatus := x27\<rparr>) = priv_part h"
  "priv_part (h\<lparr>vstvec := x28\<rparr>) = priv_part h" "priv_part (h\<lparr>vsscratch := x29\<rparr>) = priv_part h"
  "priv_part (h\<lparr>vsepc := x30\<rparr>) = priv_part h" "priv_part (h\<lparr>vscause := x31\<rparr>) = priv_part h"
  "priv_part (h\<lparr>vstval := x32\<rparr>) = priv_part h" "priv_part (h\<lparr>dpc := x33\<rparr>) = priv_part h"
  "priv_part (h\<lparr>dscratch0 := x34\<rparr>) = priv_part h" "priv_part (h\<lparr>dscratch1 := x35\<rparr>) = priv_part h"
  "priv_part (h\<lparr>vxsat := x36\<rparr>) = priv_part h" "priv_part (h\<lparr>vxrm := x37\<rparr>) = priv_part h"
  "priv_part (h\<lparr>vstart := x38\<rparr>) = priv_part h" "priv_part (h\<lparr>vsatp := x39\<rparr>) = priv_part h"
  "priv_part (h\<lparr>hgatp := x40\<rparr>) = priv_part h" "priv_part (h\<lparr>tselect := x41\<rparr>) = priv_part h"
  "priv_part (h\<lparr>mcontrol := x42\<rparr>) = priv_part h" "priv_part (h\<lparr>tdata2 := x43\<rparr>) = priv_part h"
  "priv_part (h\<lparr>medeleg := x44\<rparr>) = priv_part h" "priv_part (h\<lparr>serialized := x45\<rparr>) = priv_part h"
  "priv_part (h\<lparr>single_step := x46\<rparr>) = priv_part h" "priv_part (h\<lparr>debug_mode := x47\<rparr>) = priv_part h"
  by (simp_all add: priv_part_def pmp_part_def)

lemma effect_core:
  assumes "csr_effect xlen h h'" "priv_core xlen h"
  shows "priv_core xlen h'"
  using assms
proof (induction rule: csr_effect.induct)
  case (eff_satp h xlen val)
  then have "priv_core xlen (flush_tlb h)" using priv_core_part [OF part_flush(1)] by simp
  then show ?case by (rule core_updates(3) [OF _ satp_value_legal])
next
  case (eff_dcsr xlen h val)
  then show ?case unfolding set_dcsr_def Let_def by (intro core_updates(4)) (simp_all add: ucast_le_3 field_3)
qed (simp_all add: mstatus_part misa_part core_ints int_masks int_legal_and,
    (erule priv_core_part [THEN iffD2, rotated],
      simp add: part_update part_flush dirty_part set_tdata1_def set_tdata2_def Let_def)+)

section \<open>Steps keep the invariant\<close>

lemma switch_hstatus:
  assumes "set_csr_switch xlen which val h = Inr h'" "which \<noteq> CSR_HSTATUS"
  shows "hstatus h' = hstatus h"
proof -
  have "hstatus h' = hstatus h" if "set_csr_user xlen which val h = Some h'" for h'
    using that by (auto simp: set_csr_user_def dirty_fp_state_def dirty_vs_state_def split: if_split_asm)
  moreover have "hstatus h' = hstatus h" if "set_csr_machine xlen which val h = Some (Inr h')" for h'
    using that by (auto simp: set_csr_machine_def set_csr_machine_trap_def set_minstret_def set_minstreth_def set_misa_def Let_def split: if_split_asm)
  moreover have "hstatus h' = hstatus h" if "set_csr_supervisor xlen which val h = Some h'" for h'
    using that by (auto simp: set_csr_supervisor_def Let_def flush_tlb_def split: if_split_asm)
  moreover have "hstatus h' = hstatus h" if "set_csr_hypervisor xlen which val h = Some (Inr h')" for h'
    using that assms(2) by (auto simp: set_csr_hypervisor_def flush_tlb_def split: if_split_asm)
  moreover have "hstatus h' = hstatus h" if "set_csr_debug xlen which val h = Some h'" for h'
    using that by (auto simp: set_csr_debug_def set_tdata1_def set_tdata2_def set_dcsr_def trigger_updated_def Let_def flush_tlb_def
        split: if_split_asm)
  ultimately show ?thesis using assms(1) by (auto simp: set_csr_switch_def split: option.splits)
qed

lemma pmp_hstatus: "hstatus (set_pmpaddr i x h) = hstatus h" "hstatus (set_pmpcfg xlen r x h) = hstatus h"
proof -
  have "hstatus (fold (set_pmpcfg_entry i0 x) is h) = hstatus h" for i0 x "is" h
    by (induction "is" arbitrary: h) (simp_all add: set_pmpcfg_entry_def)
  then show "hstatus (set_pmpaddr i x h) = hstatus h" "hstatus (set_pmpcfg xlen r x h) = hstatus h"
    by (simp_all add: set_pmpaddr_def set_pmpcfg_def flush_tlb_def Let_def)
qed

lemma set_csr_hstatus:
  assumes "set_csr xlen which val h = Inr h'" "which \<noteq> CSR_HSTATUS"
  shows "hstatus h' = hstatus h"
  using assms by (auto simp: set_csr_def Let_def pmp_hstatus dest!: switch_hstatus split: if_split_asm)

lemma core_except_pmp:
  assumes "priv_core xlen h" "pmp_wf h'" "priv_part h' = priv_part (h\<lparr>pmpaddr := a, pmpcfg := c\<rparr>)"
  shows "priv_core xlen h'"
proof -
  define g where "g = h\<lparr>pmpaddr := a, pmpcfg := c\<rparr>"
  have part: "priv_part h' = priv_part g" using assms(3) by (simp add: g_def)
  then have "pmp_part h' = pmp_part g" by (simp add: priv_part_def)
  then have "pmp_wf g" using assms(2) pmp_wf_part by blast
  then have "priv_core xlen g"
    using assms(1) by (simp add: priv_core_def legal_mpp_def legalize_cong [of "h\<lparr>pmpaddr := a, pmpcfg := c\<rparr>" h] g_def)
  then show ?thesis using priv_core_part [OF part] by simp
qed

lemma pmp_core:
  assumes "priv_core xlen h"
  shows "priv_core xlen (set_pmpaddr i x h)" "priv_core xlen (set_pmpcfg xlen r x h)"
proof -
  have wf: "pmp_wf h" using assms by (simp add: priv_core_def)
  have "\<exists>a. priv_part (set_pmpaddr i x h) = priv_part (h\<lparr>pmpaddr := a, pmpcfg := pmpcfg h\<rparr>)"
    by (rule exI [of _ "pmpaddr (set_pmpaddr i x h)"]) (simp add: set_pmpaddr_def Let_def flush_tlb_def priv_part_def pmp_part_def)
  then show "priv_core xlen (set_pmpaddr i x h)" using core_except_pmp [OF assms set_pmpaddr_wf [OF wf]] by blast
  have fold: "\<exists>c. fold (set_pmpcfg_entry i0 x) is h = h\<lparr>pmpcfg := c\<rparr>" for i0 x "is" and h :: hart_t
  proof (induction "is" arbitrary: h)
    case Nil
    show ?case by (rule exI [of _ "pmpcfg h"]) simp
  next
    case (Cons i "is")
    have "(set_pmpcfg_entry i0 x i h)\<lparr>pmpcfg := c\<rparr> = h\<lparr>pmpcfg := c\<rparr>" for c by (simp add: set_pmpcfg_entry_def)
    then show ?case using Cons.IH [of "set_pmpcfg_entry i0 x i h"] by simp
  qed
  then obtain c where "fold (set_pmpcfg_entry (r * 4) x) [r * 4 ..< r * 4 + xlen div 8] h = h\<lparr>pmpcfg := c\<rparr>" by blast
  then have "priv_part (set_pmpcfg xlen r x h) = priv_part (h\<lparr>pmpaddr := pmpaddr h, pmpcfg := c\<rparr>)"
    by (simp add: set_pmpcfg_def Let_def flush_tlb_def priv_part_def pmp_part_def)
  then show "priv_core xlen (set_pmpcfg xlen r x h)" using core_except_pmp [OF assms set_pmpcfg_wf [OF wf]] by blast
qed

lemma set_csr_inv:
  assumes "set_csr xlen which val h = Inr h'" "which \<noteq> CSR_HSTATUS" "priv_inv xlen h"
  shows "priv_inv xlen h'"
proof -
  have core: "priv_core xlen h" using assms(3) by (simp add: priv_inv_def)
  from assms(1) have "priv_core xlen h'"
  proof (cases rule: set_csr_cases)
    case effect
    then show ?thesis using core by (rule effect_core)
  qed (simp_all add: pmp_core core)
  then show ?thesis using set_csr_hstatus [OF assms(1,2)] assms(3) by (simp add: priv_inv_def)
qed

lemma inv_update:
  assumes "priv_part h' = priv_part h" "hstatus h' = hstatus h"
  shows "priv_inv xlen h' = priv_inv xlen h"
  using priv_core_part [OF assms(1)] assms(2) by (simp add: priv_inv_def)

lemma set_virt_same: "v h = b \<Longrightarrow> set_virt xlen b h = h"
  by (simp add: set_virt_def)

lemma inv_mstatus: "priv_inv xlen h \<Longrightarrow> priv_inv xlen (set_mstatus xlen val h)"
  by (simp add: priv_inv_def mstatus_part)

lemma inv_privilege: "priv_inv xlen h \<Longrightarrow> p \<le> PRV_M \<Longrightarrow> priv_inv xlen (set_privilege p h)"
  unfolding priv_inv_def by (simp add: core_updates(5)) (simp add: set_privilege_def Let_def flush_tlb_def)

lemma trap_hs_inv:
  assumes "priv_inv xlen h" "xlen = 32 \<or> xlen = 64"
  shows "priv_inv xlen (trap_to_hs xlen t epc i b h)"
proof -
  have v: "\<not> v h" using assms(1) by (simp add: priv_inv_def priv_core_def)
  define h1 where "h1 = h\<lparr>pc := trap_vector (stvec h) i b, scause := trap_cause t, sepc := epc, stval := get_tval t,
    htval := get_tval2 t, htinst := get_tinst t\<rparr>"
  have h1: "priv_inv xlen h1" by (rule inv_update [THEN iffD2, OF _ _ assms(1)]) (simp_all add: h1_def part_update)
  have spv: "bit HSTATUS_SPV 7" by (simp add: HSTATUS_SPV_def)
  have hs: "priv_inv xlen (g\<lparr>hstatus := write_masked y (HSTATUS_VTSR OR HSTATUS_VTW OR HSTATUS_VTVM OR
      HSTATUS_HU OR HSTATUS_SPVP OR HSTATUS_SPV OR HSTATUS_GVA)
      (zext_xlen xlen (set_field (set_field z HSTATUS_SPV 0) HSTATUS_GVA w))\<rparr>)"
    if "priv_inv xlen g" for g y z w
    using that priv_core_part [OF part_update(22)] unfolding priv_inv_def
    by (simp add: write_masked_bit zext_bit [OF assms(2)] flag_bits bit_or_iff spv)
  show ?thesis
    unfolding trap_to_hs_def Let_def set_virt_same [of h False, simplified v, simplified] h1_def [symmetric]
    using v by (simp only: of_bool_eq) (intro inv_privilege hs inv_mstatus h1, simp)
qed

lemma trap_m_inv:
  assumes "priv_inv xlen h"
  shows "priv_inv xlen (trap_to_m xlen t epc i b h)"
proof -
  have v: "\<not> v h" using assms(1) by (simp add: priv_inv_def priv_core_def)
  define h1 where "h1 = h\<lparr>pc := trap_vector (mtvec h) i b, mepc := epc, mcause := trap_cause t,
            mtval := legal_mtval (get_tval t), mtval2 := get_tval2 t, mtinst := get_tinst t\<rparr>"
  have h1: "priv_inv xlen h1" by (rule inv_update [THEN iffD2, OF _ _ assms(1)]) (simp_all add: h1_def part_update)
  show ?thesis
    unfolding trap_to_m_def Let_def set_virt_same [of h False, simplified v, simplified] h1_def [symmetric]
    by (intro inv_privilege inv_mstatus h1) simp
qed

lemma debug_inv:
  assumes "priv_inv xlen h"
  shows "priv_inv xlen (enter_debug_mode c h)"
proof -
  define d where "d = (dcsr h)\<lparr>dcsr_cause := c, dcsr_prv := ucast (prv h)\<rparr>"
  have "dcsr_prv d \<le> 3" using assms by (simp add: d_def priv_inv_def priv_core_def ucast_le_3)
  then have "priv_core xlen (h\<lparr>debug_mode := True, dcsr := d\<rparr>)"
    using assms priv_core_part [OF part_update(48)] unfolding priv_inv_def by (intro core_updates(4)) simp_all
  then have "priv_inv xlen (set_privilege PRV_M (h\<lparr>debug_mode := True, dcsr := d\<rparr>))"
    using assms by (intro inv_privilege) (simp_all add: priv_inv_def)
  then show ?thesis
    unfolding enter_debug_mode_def Let_def d_def [symmetric]
    by (rule inv_update [THEN iffD2, rotated 2]) (simp_all add: part_update)
qed

lemma trap_inv:
  assumes "priv_inv xlen h" "xlen = 32 \<or> xlen = 64"
  shows "priv_inv xlen (take_trap xlen t epc h)"
proof -
  have "\<not> v h" using assms(1) by (simp add: priv_inv_def priv_core_def)
  then show ?thesis
    using assms trap_hs_inv trap_m_inv debug_inv inv_update [OF part_update(1)]
    by (simp add: take_trap_def Let_def)
qed

text \<open>The instruction returned normally, trapped or waits, in a state with the invariant; it did not abort.\<close>

definition result_ok :: "nat \<Rightarrow> hart_result \<Rightarrow> bool" where
  "result_ok xlen r \<longleftrightarrow>
     (case r of Abort \<Rightarrow> False | Throw t h \<Rightarrow> priv_inv xlen h | Wfi h \<Rightarrow> priv_inv xlen h | Next p h \<Rightarrow> priv_inv xlen h)"

lemma result_ok_simps [simp]:
  "\<not> result_ok xlen Abort" "result_ok xlen (Throw t h) = priv_inv xlen h" "result_ok xlen (Wfi h) = priv_inv xlen h"
  "result_ok xlen (Next p h) = priv_inv xlen h"
  by (simp_all add: result_ok_def)

lemma privilege_levels:
  assumes "priv_core xlen h"
  shows "prv h = PRV_U \<or> prv h = PRV_S \<or> prv h = PRV_M"
proof -
  have "unat (prv h) \<le> 3" "prv h \<noteq> 2"
    using assms by (auto simp: priv_core_def word_le_nat_alt legalize_bits split: if_split_asm)
  moreover from this(1) have "unat (prv h) = unat (0 :: reg_t) \<or> unat (prv h) = unat (1 :: reg_t) \<or>
      unat (prv h) = unat (2 :: reg_t) \<or> unat (prv h) = unat (3 :: reg_t)"
    unfolding unat_0 unat_1 unat_numeral by (simp only: take_bit_numeral_numeral len_num0 len_bit0 len_num1) (simp, linarith)
  ultimately show ?thesis by (simp only: word_unat_eq_iff [symmetric]) blast
qed

lemma require_ok: "priv_inv xlen h \<Longrightarrow> result_ok xlen k \<Longrightarrow> result_ok xlen (h_require c insn h k)"
  "priv_inv xlen h \<Longrightarrow> result_ok xlen k \<Longrightarrow> result_ok xlen (require_novirt insn h k)"
  by (simp_all add: h_require_def require_novirt_def)

lemma validate_ok:
  assumes "priv_inv xlen h" "\<And>which g. which \<noteq> CSR_HSTATUS \<Longrightarrow> priv_inv xlen g \<Longrightarrow> result_ok xlen (k which g)"
  shows "result_ok xlen (validate_csr insn w h k)"
proof -
  have inv: "priv_inv xlen (h\<lparr>serialized := False\<rparr>)"
    by (rule inv_update [THEN iffD2, OF _ _ assms(1)]) (simp_all add: part_update)
  then have no_h: "\<not> supports_extension ext_H (h\<lparr>serialized := False\<rparr>)"
    by (simp add: supports_letter priv_inv_def priv_core_def)
  have "get_field (insn_csr insn) 0x300 = PRV_HS" if "unat (insn_csr insn) = CSR_HSTATUS"
  proof -
    have "insn_csr insn = 0x600" using that by (simp add: word_unat_eq_iff)
    then show ?thesis by (simp add: get_field_def)
  qed
  then show ?thesis using assms inv no_h by (auto simp: validate_csr_def Let_def)
qed

lemma access_ok:
  assumes "priv_inv xlen h" "csr \<noteq> CSR_HSTATUS"
  shows "result_ok xlen (access_csr xlen insn npc write csr h)"
proof -
  have "priv_inv xlen (set_pc_and_serialize npc (WRITE_RD insn x g))" if "priv_inv xlen g" for x g
    by (rule inv_update [THEN iffD2, OF _ _ that]) (simp_all add: set_pc_and_serialize_def WRITE_RD_def WRITE_REG_def part_update)
  then show ?thesis using assms set_csr_inv [OF _ assms(2)]
    by (auto simp: access_csr_def split: sum.split option.splits)
qed

definition priv_bodies :: "hart_body list" where
  "priv_bodies = [rv_csrrw, rv_csrrs, rv_csrrc, rv_csrrwi, rv_csrrsi, rv_csrrci, rv_mret, rv_sret, rv_dret, rv_ecall,
     rv_ebreak, rv_c_ebreak, rv_wfi, rv_sfence_vma]"

lemma csr_instructions_ok:
  assumes "priv_inv xlen h" "f \<in> {rv_csrrw, rv_csrrs, rv_csrrc, rv_csrrwi, rv_csrrsi, rv_csrrci}"
  shows "result_ok xlen (f xlen insn cpc npc h)"
  using assms(2)
  by (auto simp: rv_csrrw_def rv_csrrs_def rv_csrrc_def rv_csrrwi_def rv_csrrsi_def rv_csrrci_def Let_def
      intro!: validate_ok access_ok assms(1))

lemma inv_set_pc: "priv_inv xlen h \<Longrightarrow> priv_inv xlen (set_pc_and_serialize x h)"
  by (erule inv_update [THEN iffD2, rotated 2]) (simp_all add: set_pc_and_serialize_def part_update)

lemma mret_ok:
  assumes "priv_inv xlen h"
  shows "result_ok xlen (rv_mret xlen insn cpc npc h)"
proof -
  define h1 where "h1 = set_pc_and_serialize (mepc h) h"
  have h1: "priv_inv xlen h1" unfolding h1_def using assms by (rule inv_set_pc)
  then have mpv: "get_field (mstatus h1) MSTATUS_MPV = 0" by (simp add: flag_reads priv_inv_def priv_core_def)
  have "priv_inv xlen (set_privilege (get_field (mstatus h1) MSTATUS_MPP) (set_mstatus xlen val h1))" for val
    by (intro inv_privilege inv_mstatus h1 field_le_3)
  then have "priv_inv xlen (set_virt xlen False (set_privilege (get_field (mstatus h1) MSTATUS_MPP) (set_mstatus xlen val h1)))" for val
    by (subst set_virt_same) (simp add: priv_inv_def priv_core_def, blast)
  then show ?thesis unfolding rv_mret_def Let_def h1_def [symmetric] mpv using assms by (intro require_ok) simp_all
qed

lemma sret_ok:
  assumes "priv_inv xlen h"
  shows "result_ok xlen (rv_sret xlen insn cpc npc h)"
proof -
  have v: "\<not> v h" using assms by (simp add: priv_inv_def priv_core_def)
  define h1 where "h1 = set_pc_and_serialize (sepc h) h"
  have h1: "priv_inv xlen h1" unfolding h1_def using assms by (rule inv_set_pc)
  define g where "g val = set_privilege (get_field (mstatus h1) MSTATUS_SPP) (set_mstatus xlen val h1)" for val
  have g: "priv_inv xlen (g val)" for val
    unfolding g_def by (intro inv_privilege inv_mstatus h1) (simp add: flag_reads)
  then have "\<not> v (g val)" "get_field (hstatus (g val)) HSTATUS_SPV = 0" for val
    by (simp_all add: flag_reads priv_inv_def priv_core_def)
  then show ?thesis
    unfolding rv_sret_def Let_def using v assms g
    by (intro require_ok) (simp_all add: h1_def [symmetric] g_def [symmetric] set_virt_same)
qed

lemma dret_ok:
  assumes "priv_inv xlen h"
  shows "result_ok xlen (rv_dret xlen insn cpc npc h)"
proof -
  define h1 where "h1 = set_pc_and_serialize (dpc h) h"
  have h1: "priv_inv xlen h1" unfolding h1_def using assms by (rule inv_set_pc)
  then have "ucast (dcsr_prv (dcsr h1)) \<le> PRV_M"
    by (simp add: priv_inv_def priv_core_def word_le_nat_alt unsigned_ucast_eq take_bit_nat_def)
  then have "priv_inv xlen (set_privilege (ucast (dcsr_prv (dcsr h1))) h1)" by (rule inv_privilege [OF h1])
  then have "priv_inv xlen (g (set_privilege (ucast (dcsr_prv (dcsr h1))) h1))"
    if "\<And>h. priv_part (g h) = priv_part h \<and> hstatus (g h) = hstatus h" for g
    using that inv_update by blast
  from this [of "\<lambda>h. h\<lparr>debug_mode := False, single_step := STEP_STEPPING\<rparr>"] this [of "\<lambda>h. h\<lparr>debug_mode := False\<rparr>"]
  show ?thesis unfolding rv_dret_def Let_def h1_def [symmetric] using assms
    by (intro require_ok) (simp_all add: part_update)
qed

lemma other_ok:
  assumes "priv_inv xlen h"
  shows "result_ok xlen (rv_ecall xlen insn cpc npc h)" "result_ok xlen (rv_wfi xlen insn cpc npc h)"
    "result_ok xlen (rv_sfence_vma xlen insn cpc npc h)" "result_ok xlen (rv_ebreak xlen insn cpc npc h)"
    "result_ok xlen (rv_c_ebreak xlen insn cpc npc h)"
proof -
  show "result_ok xlen (rv_ecall xlen insn cpc npc h)"
    using assms privilege_levels [of xlen h] by (auto simp: rv_ecall_def priv_inv_def)
  have "priv_inv xlen (flush_tlb h)"
    by (rule inv_update [THEN iffD2, OF _ _ assms]) (simp_all add: part_flush, simp add: flush_tlb_def)
  then show "result_ok xlen (rv_wfi xlen insn cpc npc h)" "result_ok xlen (rv_sfence_vma xlen insn cpc npc h)"
    "result_ok xlen (rv_ebreak xlen insn cpc npc h)" "result_ok xlen (rv_c_ebreak xlen insn cpc npc h)"
    using assms inv_set_pc [OF assms]
    by (simp_all add: rv_wfi_def rv_sfence_vma_def rv_ebreak_def rv_c_ebreak_def require_ok)
qed

lemma priv_bodies_ok:
  assumes "priv_inv xlen h" "f \<in> set priv_bodies"
  shows "result_ok xlen (f xlen insn cpc npc h)"
  using assms(2) csr_instructions_ok [OF assms(1)] mret_ok [OF assms(1)] sret_ok [OF assms(1)] dret_ok [OF assms(1)]
    other_ok [OF assms(1)]
  by (auto simp: priv_bodies_def)

section \<open>Reachable states\<close>

text \<open>
  The privileged steps of a hart: a trap raised by any instruction, the interrupt taken at an instruction
  boundary, the privileged instructions with the trap they may throw, a debug halt, an interrupt line driven
  by a device, and the changes an unprivileged instruction makes.
\<close>

inductive priv_step :: "nat \<Rightarrow> hart_t \<Rightarrow> hart_t \<Rightarrow> bool" where
  step_trap: "priv_step xlen h (take_trap xlen t epc h)"
| step_interrupt: "take_pending_interrupt xlen h = Interrupt t \<Longrightarrow> priv_step xlen h (take_trap xlen t (pc h) h)"
| step_next: "f \<in> set priv_bodies \<Longrightarrow> f xlen insn cpc npc h = Next p h' \<Longrightarrow> priv_step xlen h h'"
| step_throw: "f \<in> set priv_bodies \<Longrightarrow> f xlen insn cpc npc h = Throw t h' \<Longrightarrow> priv_step xlen h (take_trap xlen t cpc h')"
| step_wait: "f \<in> set priv_bodies \<Longrightarrow> f xlen insn cpc npc h = Wfi h' \<Longrightarrow> priv_step xlen h h'"
| step_halt: "priv_step xlen h (enter_debug_mode cause h)"
| step_device: "priv_step xlen h (h\<lparr>mip := x\<rparr>)"
| step_serialize: "priv_step xlen h (h\<lparr>serialized := True\<rparr>)"
| step_user: "priv_step xlen h (h\<lparr>XPR := xs, FPR := fs, fflags := fl, pc := x\<rparr>)"
| step_user_fp: "priv_step xlen h (dirty_fp_state xlen h)"

lemma step_inv:
  assumes "priv_step xlen h h'" "priv_inv xlen h" "xlen = 32 \<or> xlen = 64"
  shows "priv_inv xlen h'"
  using assms
proof (induction rule: priv_step.induct)
  case (step_throw f xlen insn cpc npc h t h')
  then show ?case using priv_bodies_ok [OF step_throw.prems(1) step_throw.hyps(1), of insn cpc npc] by (simp add: trap_inv)
next
  case (step_next f xlen insn cpc npc h p h')
  then show ?case using priv_bodies_ok [OF step_next.prems(1) step_next.hyps(1), of insn cpc npc] by simp
next
  case (step_wait f xlen insn cpc npc h h')
  then show ?case using priv_bodies_ok [OF step_wait.prems(1) step_wait.hyps(1), of insn cpc npc] by simp
next
  case (step_user_fp xlen h)
  then show ?case using inv_update [OF dirty_part(1)] by (simp add: dirty_fp_state_def)
qed (simp_all add: trap_inv debug_inv,
    (erule inv_update [THEN iffD2, rotated 2], simp_all add: part_update)+)

lemma steps_inv:
  assumes "(priv_step xlen)\<^sup>*\<^sup>* h h'" "priv_inv xlen h" "xlen = 32 \<or> xlen = 64"
  shows "priv_inv xlen h'"
  using assms by (induction rule: rtranclp_induct) (blast intro: step_inv)+

lemma hart_reset_inv:
  assumes "\<not> bit (max_isa h) 7" "n_pmp h \<le> max_pmp" "2 \<le> lg_pmp_granularity h" "lg_pmp_granularity h \<le> 32"
  shows "priv_inv xlen (processor_reset xlen halt_on_reset h)"
proof -
  define g where "g = (state_reset h)\<lparr>mideleg := 0, dcsr := (dcsr (state_reset h))\<lparr>halt := halt_on_reset\<rparr>\<rparr>"
  have "pmp_wf g" using assms by (simp add: g_def state_reset_def pmp_wf_def list_all_iff PMP_W_def PMP_NA4_def)
  moreover have g: "\<not> bit (misa g) 7" using assms(1) by (simp add: g_def state_reset_def)
  moreover have "legalize_privilege PRV_M g = PRV_M" by (simp add: legalize_bits)
  ultimately have "priv_core xlen (set_mstatus xlen (zext_xlen xlen (mstatus g)) g)"
    using assms(1) mstatus_legal [OF g, of xlen]
    by (simp add: priv_core_def legalize_cong [of "set_mstatus xlen (zext_xlen xlen (mstatus g)) g" g])
      (simp add: g_def state_reset_def satp_legal_def int_legal_def get_field_def)
  moreover have "\<not> supports_extension ext_H (state_reset h)"
    using assms(1) by (simp add: supports_letter) (simp add: state_reset_def)
  moreover have "hstatus g = 0" by (simp add: g_def state_reset_def)
  ultimately show ?thesis
    by (simp add: processor_reset_def Let_def g_def [symmetric] priv_inv_def pmp_core pmp_hstatus)
qed

lemma interrupt_has_handler:
  assumes "int_legal e" "e \<noteq> 0" "drop_bit IRQ_M_EXT e = 0"
  shows "e AND MIP_MSIP \<noteq> 0 \<or> e AND MIP_MTIP \<noteq> 0 \<or> e AND MIP_SEIP \<noteq> 0 \<or> e AND MIP_SSIP \<noteq> 0 \<or>
    e AND MIP_STIP \<noteq> 0 \<or> e AND MIP_VSEIP \<noteq> 0 \<or> e AND MIP_VSSIP \<noteq> 0 \<or> e AND MIP_VSTIP \<noteq> 0"
proof -
  have bits: "MIP_SSIP = push_bit 1 1" "MIP_VSSIP = push_bit 2 1" "MIP_MSIP = push_bit 3 1" "MIP_STIP = push_bit 5 1"
    "MIP_VSTIP = push_bit 6 1" "MIP_MTIP = push_bit 7 1" "MIP_SEIP = push_bit 9 1" "MIP_VSEIP = push_bit 10 1"
    by (simp_all add: MIP_SSIP_def MIP_VSSIP_def MIP_MSIP_def MIP_STIP_def MIP_VSTIP_def MIP_MTIP_def MIP_SEIP_def MIP_VSEIP_def)
  obtain n where n: "bit e n" using assms(2) by (metis bit_eqI bit_0_eq bot_apply bot_bool_def)
  have "n < 11"
  proof (rule ccontr)
    assume "\<not> n < 11"
    then have "bit (drop_bit 11 e) (n - 11)" using n by (simp add: bit_drop_bit_eq)
    then show False using assms(3) by simp
  qed
  then have "n \<in> {1, 2, 3, 5, 6, 7, 9, 10}"
    using n assms(1) unfolding int_legal_def by (auto simp: less_Suc_eq numeral_eq_Suc)
  then show ?thesis unfolding bits bit_and_nz using n by auto
qed

lemma enabled_legal: "int_legal p \<Longrightarrow> \<not> v h \<Longrightarrow> int_legal (enabled_ints p h)"
  by (simp add: enabled_ints_def Let_def int_legal_and) (simp add: int_legal_def)

lemma interrupt_never_aborts:
  assumes "priv_core xlen h"
  shows "take_pending_interrupt xlen h \<noteq> Interrupt_abort"
proof -
  define e where "e = enabled_ints (mip h AND mie h) h"
  have "int_legal e" unfolding e_def using assms by (intro enabled_legal) (simp_all add: priv_core_def int_legal_and)
  then have "e \<noteq> 0 \<longrightarrow> drop_bit IRQ_M_EXT e = 0 \<longrightarrow> e AND MIP_MSIP \<noteq> 0 \<or> e AND MIP_MTIP \<noteq> 0 \<or> e AND MIP_SEIP \<noteq> 0 \<or>
      e AND MIP_SSIP \<noteq> 0 \<or> e AND MIP_STIP \<noteq> 0 \<or> e AND MIP_VSEIP \<noteq> 0 \<or> e AND MIP_VSSIP \<noteq> 0 \<or> e AND MIP_VSTIP \<noteq> 0"
    using interrupt_has_handler by blast
  then show ?thesis unfolding take_pending_interrupt_def take_interrupt_def Let_def e_def [symmetric] by auto
qed

text \<open>
  C31.  The simulator never gives up on a hart without the hypervisor extension.  The hart has 32 or 64 bits and at
  most sixteen protection entries, of a granularity between 4 bytes and 4 GiB.  In every state reachable from a
  reset by traps, interrupts, control register writes, privileged instructions and device signals the hart is in
  user, supervisor or machine mode and not virtualised, every enabled interrupt has a handler, the translation
  mode is one the page walk implements, the protection registers are well-formed, and no privileged instruction
  reaches a call of \<^verbatim>\<open>abort\<close>.
\<close>

theorem hart_never_aborts:
  assumes "xlen = 32 \<or> xlen = 64" "\<not> bit (max_isa h0) 7" "n_pmp h0 \<le> max_pmp" "2 \<le> lg_pmp_granularity h0"
    "lg_pmp_granularity h0 \<le> 32" "(priv_step xlen)\<^sup>*\<^sup>* (processor_reset xlen halt_on_reset h0) h"
  shows "(prv h = PRV_U \<or> prv h = PRV_S \<or> prv h = PRV_M) \<and> \<not> v h \<and> take_pending_interrupt xlen h \<noteq> Interrupt_abort \<and>
    satp_legal xlen (satp h) \<and> pmp_wf h \<and> list_all (\<lambda>f. f xlen insn cpc npc h \<noteq> Abort) priv_bodies"
proof -
  have inv: "priv_inv xlen h" using steps_inv [OF assms(6) hart_reset_inv [OF assms(2-5)] assms(1)] .
  have "f xlen insn cpc npc h \<noteq> Abort" if "f \<in> set priv_bodies" for f
    using priv_bodies_ok [OF inv that, of insn cpc npc] by auto
  moreover have "priv_core xlen h" using inv by (simp add: priv_inv_def)
  ultimately show ?thesis using privilege_levels interrupt_never_aborts by (auto simp: list_all_iff priv_core_def)
qed

theorem hart_never_aborts_witness:
  "(prv (take_trap 64 (trap_breakpoint 0) 0x1000 example_hart) = PRV_U \<or>
    prv (take_trap 64 (trap_breakpoint 0) 0x1000 example_hart) = PRV_S \<or>
    prv (take_trap 64 (trap_breakpoint 0) 0x1000 example_hart) = PRV_M) \<and>
   \<not> v (take_trap 64 (trap_breakpoint 0) 0x1000 example_hart) \<and>
   take_pending_interrupt 64 (take_trap 64 (trap_breakpoint 0) 0x1000 example_hart) \<noteq> Interrupt_abort \<and>
   satp_legal 64 (satp (take_trap 64 (trap_breakpoint 0) 0x1000 example_hart)) \<and>
   pmp_wf (take_trap 64 (trap_breakpoint 0) 0x1000 example_hart) \<and>
   list_all (\<lambda>f. f 64 0x73 0x1000 0x1004 (take_trap 64 (trap_breakpoint 0) 0x1000 example_hart) \<noteq> Abort) priv_bodies"
  unfolding example_hart_def
  by (rule hart_never_aborts [where ?h0.0 = blank_hart and halt_on_reset = False])
    (simp_all add: blank_hart_def r_into_rtranclp step_trap)

section \<open>Traps and returns\<close>

lemma set_privilege_sel [simp]:
  "prv (set_privilege p h) = legalize_privilege p h" "mstatus (set_privilege p h) = mstatus h" "pc (set_privilege p h) = pc h"
  "v (set_privilege p h) = v h" "misa (set_privilege p h) = misa h" "mepc (set_privilege p h) = mepc h"
  "sepc (set_privilege p h) = sepc h" "hstatus (set_privilege p h) = hstatus h"
  by (simp_all add: set_privilege_def Let_def flush_tlb_def legalize_cong [of "h\<lparr>mmu := m\<rparr>" h for m])

lemma and_mpp_flag:
  assumes "k \<noteq> 11" "k \<noteq> 12" "k < 64"
  shows "get_field (set_field r (push_bit k 1) x) MSTATUS_MPP = get_field r MSTATUS_MPP"
proof (rule get_field_cong, rule bit_word_eqI)
  fix n show "bit (set_field r (push_bit k 1) x AND MSTATUS_MPP) n = bit (r AND MSTATUS_MPP) n"
    using assms unfolding field_masks bit_and_iff bit_mask_at bit_set_bit [OF assms(3)] by auto
qed

lemma mpp_unaffected:
  "get_field (set_field r MSTATUS_MIE x) MSTATUS_MPP = get_field r MSTATUS_MPP"
  "get_field (set_field r MSTATUS_MPV x) MSTATUS_MPP = get_field r MSTATUS_MPP"
  "get_field (set_field r MSTATUS_GVA x) MSTATUS_MPP = get_field r MSTATUS_MPP"
  unfolding mstatus_bits by (rule and_mpp_flag; simp)+

lemma mpp_zext:
  assumes "xlen = 32 \<or> xlen = 64"
  shows "get_field (zext_xlen xlen r) MSTATUS_MPP = get_field r MSTATUS_MPP"
proof (rule get_field_cong, rule bit_word_eqI)
  fix n show "bit (zext_xlen xlen r AND MSTATUS_MPP) n = bit (r AND MSTATUS_MPP) n"
    using zext_bit [OF assms] unfolding field_masks bit_and_iff bit_mask_at by auto
qed

lemma mpp_set: "p \<le> 3 \<Longrightarrow> get_field (set_field r MSTATUS_MPP p) MSTATUS_MPP = p"
proof -
  assume p: "p \<le> 3"
  have "get_field (set_field r MSTATUS_MPP p) MSTATUS_MPP = take_bit 2 p"
    using get_field_bits [OF field_masks(1), of "set_field r MSTATUS_MPP p"] set_field_bits [OF field_masks(1), of r p]
    by simp (rule bit_word_eqI, auto simp: bit_simps MSTATUS_MPP_def)
  then show ?thesis using take_bit_2 [OF p] by simp
qed

lemma trap_m_state:
  assumes "priv_inv xlen h" "xlen = 32 \<or> xlen = 64"
    and h1_def: "h1 = trap_to_m xlen t epc i b h"
  shows "prv h1 = PRV_M" "mepc h1 = epc" "misa h1 = misa h" "get_field (mstatus h1) MSTATUS_MPP = prv h"
    "bit (mstatus h1) 7 = bit (mstatus h) 3" "bit (mstatus h1) 1 = bit (mstatus h) 1"
proof -
  have inv: "\<not> v h" "prv h \<le> PRV_M" "legalize_privilege (prv h) h = prv h"
    using assms(1) by (simp_all add: priv_inv_def priv_core_def)
  define g where "g = h\<lparr>pc := trap_vector (mtvec h) i b, mepc := epc, mcause := trap_cause t,
            mtval := legal_mtval (get_tval t), mtval2 := get_tval2 t, mtinst := get_tinst t\<rparr>"
  define s where "s = zext_xlen xlen (set_field (set_field (set_field (set_field (set_field (mstatus h) MSTATUS_MPIE
    (get_field (mstatus h) MSTATUS_MIE)) MSTATUS_MPP (prv h)) MSTATUS_MIE 0) MSTATUS_MPV 0) MSTATUS_GVA (of_bool (has_gva t)))"
  have h1: "h1 = set_privilege PRV_M (set_mstatus xlen s g)"
    unfolding h1_def trap_to_m_def Let_def using inv(1) by (simp add: set_virt_same g_def s_def)
  have g: "misa g = misa h" "mstatus g = mstatus h" "mepc g = epc" by (simp_all add: g_def)
  show "prv h1 = PRV_M" by (simp add: h1 legalize_bits)
  show "mepc h1 = epc" "misa h1 = misa h" by (simp_all add: h1 g)
  have "get_field s MSTATUS_MPP = prv h" by (simp add: s_def mpp_zext [OF assms(2)] mpp_unaffected mpp_set inv(2))
  then show "get_field (mstatus h1) MSTATUS_MPP = prv h"
    by (simp add: h1 new_mstatus_mpp legalize_cong [OF g(1)] inv(3))
  have "\<not> bit MSTATUS_MPP 1" "\<not> bit MSTATUS_MPP 7" by (simp_all add: MSTATUS_MPP_def)
  then have "bit s 7 = bit (mstatus h) 3" "bit s 1 = bit (mstatus h) 1"
    by (simp_all add: s_def zext_bit [OF assms(2)] flag_bits flag_reads bit_set_field_other)
  then show "bit (mstatus h1) 7 = bit (mstatus h) 3" "bit (mstatus h1) 1 = bit (mstatus h) 1"
    by (simp_all add: h1 new_mstatus_bit mask_members g)
qed

lemma trap_hs_state:
  assumes "priv_inv xlen h" "xlen = 32 \<or> xlen = 64" "prv h \<le> PRV_S" "supports_extension ext_S h"
    and h1_def: "h1 = trap_to_hs xlen t epc i b h"
  shows "prv h1 = PRV_S" "sepc h1 = epc" "misa h1 = misa h" "bit (mstatus h1) 8 \<longleftrightarrow> prv h = PRV_S"
    "bit (mstatus h1) 5 = bit (mstatus h) 1" "bit (mstatus h1) 3 = bit (mstatus h) 3"
    "bit (mstatus h1) 22 = bit (mstatus h) 22"
proof -
  have inv: "\<not> v h" "legalize_privilege (prv h) h = prv h" using assms(1) by (simp_all add: priv_inv_def priv_core_def)
  have p: "prv h = PRV_U \<or> prv h = PRV_S"
    using privilege_levels [of xlen h] assms(1,3) by (auto simp: priv_inv_def word_le_nat_alt)
  then have u: "supports_extension ext_U h" using inv(2) by (auto simp: legalize_privilege_def split: if_split_asm)
  define g where "g = h\<lparr>pc := trap_vector (stvec h) i b, scause := trap_cause t, sepc := epc, stval := get_tval t,
            htval := get_tval2 t, htinst := get_tinst t\<rparr>"
  define s where "s = zext_xlen xlen (set_field (set_field (set_field (mstatus h) MSTATUS_SPIE
    (get_field (mstatus h) MSTATUS_SIE)) MSTATUS_SPP (prv h)) MSTATUS_SIE 0)"
  have h1: "\<exists>x. h1 = set_privilege PRV_S ((set_mstatus xlen s g)\<lparr>hstatus := x\<rparr>)"
    unfolding h1_def trap_to_hs_def Let_def using inv(1) by (simp add: set_virt_same g_def s_def) blast
  then obtain x where h1: "h1 = set_privilege PRV_S ((set_mstatus xlen s g)\<lparr>hstatus := x\<rparr>)" ..
  have g: "misa g = misa h" "mstatus g = mstatus h" "sepc g = epc" by (simp_all add: g_def)
  show "prv h1 = PRV_S" using u assms(4) by (simp add: h1 legalize_bits g supports_letter)
  show "sepc h1 = epc" "misa h1 = misa h" by (simp_all add: h1 g)
  have "bit s 8 \<longleftrightarrow> prv h = PRV_S" using p by (auto simp: s_def zext_bit [OF assms(2)] flag_bits)
  moreover have "bit s 5 = bit (mstatus h) 1" "bit s 3 = bit (mstatus h) 3" "bit s 22 = bit (mstatus h) 22"
    by (simp_all add: s_def zext_bit [OF assms(2)] flag_bits flag_reads)
  ultimately show "bit (mstatus h1) 8 \<longleftrightarrow> prv h = PRV_S" "bit (mstatus h1) 5 = bit (mstatus h) 1"
    "bit (mstatus h1) 3 = bit (mstatus h) 3" "bit (mstatus h1) 22 = bit (mstatus h) 22"
    using assms(4) by (simp_all add: h1 new_mstatus_bit mask_members g supports_letter)
qed

lemma trap_hs_prv:
  assumes "priv_inv xlen h" "prv h \<le> PRV_S" and h1_def: "h1 = trap_to_hs xlen t epc i b h"
  shows "prv h1 \<noteq> PRV_M"
proof -
  have inv: "\<not> v h" "legalize_privilege (prv h) h = prv h" using assms(1) by (simp_all add: priv_inv_def priv_core_def)
  have "prv h \<noteq> PRV_M" using assms(2) by (auto simp: word_le_nat_alt)
  then have u: "bit (misa h) 20" using inv(2) by (auto simp: legalize_bits split: if_split_asm)
  define g where "g = h\<lparr>pc := trap_vector (stvec h) i b, scause := trap_cause t, sepc := epc, stval := get_tval t,
            htval := get_tval2 t, htinst := get_tinst t\<rparr>"
  define s where "s = zext_xlen xlen (set_field (set_field (set_field (mstatus h) MSTATUS_SPIE
    (get_field (mstatus h) MSTATUS_SIE)) MSTATUS_SPP (prv h)) MSTATUS_SIE 0)"
  have "\<exists>x. h1 = set_privilege PRV_S ((set_mstatus xlen s g)\<lparr>hstatus := x\<rparr>)"
    unfolding h1_def trap_to_hs_def Let_def using inv(1) by (simp add: set_virt_same g_def s_def) blast
  moreover have "misa g = misa h" by (simp add: g_def)
  ultimately show ?thesis using u by (auto simp: legalize_bits split: if_split_asm)
qed

lemma mret_state:
  assumes "priv_inv xlen h" "xlen = 32 \<or> xlen = 64" "prv h = PRV_M"
  obtains h2 where "rv_mret xlen insn cpc npc h = Next PC_SERIALIZE_AFTER h2" "prv h2 = get_field (mstatus h) MSTATUS_MPP"
    "pc h2 = mepc h AND pc_alignment_mask h" "\<not> v h2" "bit (mstatus h2) 3 = bit (mstatus h) 7" "bit (mstatus h2) 1 = bit (mstatus h) 1"
proof -
  have inv: "\<not> v h" "legalize_privilege (get_field (mstatus h) MSTATUS_MPP) h = get_field (mstatus h) MSTATUS_MPP"
    "\<not> bit (mstatus h) 39" using assms(1) by (simp_all add: priv_inv_def priv_core_def legal_mpp_def)
  define g where "g = set_pc_and_serialize (mepc h) h"
  have g: "misa g = misa h" "mstatus g = mstatus h" "pc g = mepc h AND pc_alignment_mask h" "v g = v h"
    by (simp_all add: g_def set_pc_and_serialize_def)
  define s where "s = zext_xlen xlen (set_field (set_field (set_field (mstatus h) MSTATUS_MIE
    (get_field (mstatus h) MSTATUS_MPIE)) MSTATUS_MPIE 1) MSTATUS_MPP PRV_U)"
  define h2 where "h2 = set_privilege (get_field (mstatus h) MSTATUS_MPP) (set_mstatus xlen s g)"
  have "\<not> v h2" by (simp add: h2_def g inv)
  show thesis
  proof
    have "get_field (mstatus h) MSTATUS_MPV = 0" by (simp add: flag_reads inv)
    then show "rv_mret xlen insn cpc npc h = Next PC_SERIALIZE_AFTER h2"
      using assms(3) \<open>\<not> v h2\<close> unfolding rv_mret_def h_require_def Let_def g_def [symmetric] g(2) s_def [symmetric] h2_def [symmetric]
      by (simp add: set_virt_same)
    show "prv h2 = get_field (mstatus h) MSTATUS_MPP"
      by (simp add: h2_def legalize_cong [of "set_mstatus xlen s g" h] g inv)
    show "pc h2 = mepc h AND pc_alignment_mask h" by (simp add: h2_def g)
    show "\<not> v h2" by fact
    have "\<not> bit MSTATUS_MPP 1" "\<not> bit MSTATUS_MPP 3" by (simp_all add: MSTATUS_MPP_def)
    then have "bit s 3 = bit (mstatus h) 7" "bit s 1 = bit (mstatus h) 1"
      by (simp_all add: s_def zext_bit [OF assms(2)] flag_bits flag_reads bit_set_field_other)
    then show "bit (mstatus h2) 3 = bit (mstatus h) 7" "bit (mstatus h2) 1 = bit (mstatus h) 1"
      by (simp_all add: h2_def new_mstatus_bit mask_members g)
  qed
qed

lemma sret_state:
  assumes "priv_inv xlen h" "xlen = 32 \<or> xlen = 64" "prv h = PRV_S" "supports_extension ext_S h" "\<not> bit (mstatus h) 22"
  obtains h2 where "rv_sret xlen insn cpc npc h = Next PC_SERIALIZE_AFTER h2"
    "prv h2 = (if bit (mstatus h) 8 then PRV_S else PRV_U)" "pc h2 = sepc h AND pc_alignment_mask h" "\<not> v h2"
    "bit (mstatus h2) 1 = bit (mstatus h) 5" "bit (mstatus h2) 3 = bit (mstatus h) 3"
proof -
  have inv: "\<not> v h" "\<not> bit (hstatus h) 7" "legalize_privilege PRV_S h = PRV_S"
    using assms(1,3) by (simp_all add: priv_inv_def priv_core_def)
  then have u: "bit (misa h) 20" by (simp add: legalize_bits split: if_split_asm)
  define g where "g = set_pc_and_serialize (sepc h) h"
  have g: "misa g = misa h" "mstatus g = mstatus h" "pc g = sepc h AND pc_alignment_mask h" "v g = v h" "hstatus g = hstatus h"
    by (simp_all add: g_def set_pc_and_serialize_def)
  define s where "s = zext_xlen xlen (set_field (set_field (set_field (mstatus h) MSTATUS_SIE
    (get_field (mstatus h) MSTATUS_SPIE)) MSTATUS_SPIE 1) MSTATUS_SPP PRV_U)"
  define h2 where "h2 = set_privilege (get_field (mstatus h) MSTATUS_SPP) (set_mstatus xlen s g)"
  have "\<not> v h2" by (simp add: h2_def g inv)
  show thesis
  proof
    have "get_field (hstatus h2) HSTATUS_SPV = 0" "get_field (mstatus h) MSTATUS_TSR = 0"
      by (simp_all add: flag_reads inv h2_def g assms(5))
    then show "rv_sret xlen insn cpc npc h = Next PC_SERIALIZE_AFTER h2"
      using assms(3,4) inv(1) \<open>\<not> v h2\<close>
      unfolding rv_sret_def h_require_def Let_def
      by (simp add: g_def [symmetric] g s_def [symmetric] h2_def [symmetric] set_virt_same)
    show "prv h2 = (if bit (mstatus h) 8 then PRV_S else PRV_U)"
      using u assms(4) by (simp add: h2_def legalize_bits g flag_reads supports_letter)
    show "pc h2 = sepc h AND pc_alignment_mask h" by (simp add: h2_def g)
    show "\<not> v h2" by fact
    have "bit s 1 = bit (mstatus h) 5" "bit s 3 = bit (mstatus h) 3"
      by (simp_all add: s_def zext_bit [OF assms(2)] flag_bits flag_reads)
    then show "bit (mstatus h2) 1 = bit (mstatus h) 5" "bit (mstatus h2) 3 = bit (mstatus h) 3"
      using assms(4) mask_members(6) [of g] by (simp_all add: h2_def new_mstatus_bit mask_members g supports_letter)
  qed
qed

lemma align_mask_cong: "misa h' = misa h \<Longrightarrow> pc_alignment_mask h' = pc_alignment_mask h" for h h' :: hart_t
  by (simp add: pc_alignment_mask_def supports_extension_def)

text \<open>A breakpoint that the debug control register sends to debug mode is not a trap to a handler.\<close>

definition breaks_to_debug :: "trap_t \<Rightarrow> hart_t \<Rightarrow> bool" where
  "breaks_to_debug t h \<longleftrightarrow> trap_cause t = of_nat CAUSE_BREAKPOINT \<and>
     (prv h = PRV_M \<and> ebreakm (dcsr h) \<or> prv h = PRV_S \<and> ebreaks (dcsr h) \<or> prv h = PRV_U \<and> ebreaku (dcsr h))"

text \<open>
  C32.  A trap and its return resume the interrupted program.  On a hart without the hypervisor extension whose
  privileged registers are legal, outside debug mode, a trap that is not a breakpoint for the debugger goes to
  machine mode or, by delegation, to supervisor mode.  The return instruction of that mode, \<^verbatim>\<open>mret\<close> or \<^verbatim>\<open>sret\<close>, brings
  back the privilege level, both interrupt enables and the address the trap recorded, aligned as the fetch needs
  it.  For a delegated trap the hart has the supervisor extension and \<^verbatim>\<open>mstatus\<close>.TSR, which makes \<^verbatim>\<open>sret\<close> trap, is
  clear.
\<close>

theorem trap_return_resumes:
  fixes epc :: reg_t
  assumes "priv_inv xlen h" "xlen = 32 \<or> xlen = 64" "\<not> debug_mode h" "\<not> breaks_to_debug t h"
    "prv (take_trap xlen t epc h) \<noteq> PRV_M \<Longrightarrow> supports_extension ext_S h \<and> \<not> bit (mstatus h) 22"
  shows "\<exists>h2. (if prv (take_trap xlen t epc h) = PRV_M then rv_mret else rv_sret) xlen insn cpc npc (take_trap xlen t epc h) =
      Next PC_SERIALIZE_AFTER h2 \<and>
    prv h2 = prv h \<and> v h2 = v h \<and> pc h2 = epc AND pc_alignment_mask h \<and>
    get_field (mstatus h2) MSTATUS_MIE = get_field (mstatus h) MSTATUS_MIE \<and>
    get_field (mstatus h2) MSTATUS_SIE = get_field (mstatus h) MSTATUS_SIE"
proof -
  define h1 where "h1 = take_trap xlen t epc h"
  have v: "\<not> v h" using assms(1) by (simp add: priv_inv_def priv_core_def)
  define i where "i \<longleftrightarrow> trap_cause t AND push_bit (xlen - 1) 1 \<noteq> 0"
  define b where "b = (if i then trap_cause t AND NOT (push_bit (xlen - 1) 1) else trap_cause t)"
  have "h1 = trap_to_m xlen t epc i b h \<or> h1 = trap_to_hs xlen t epc i b h \<and> prv h \<le> PRV_S"
    unfolding h1_def take_trap_def Let_def i_def [symmetric] b_def [symmetric] breaks_to_debug_def [symmetric]
    using v assms(3,4) by simp
  then consider (hs) "h1 = trap_to_hs xlen t epc i b h" "prv h \<le> PRV_S" | (m) "h1 = trap_to_m xlen t epc i b h" by blast
  then show ?thesis
  proof cases
    case hs
    have S: "supports_extension ext_S h" "\<not> bit (mstatus h) 22"
      using assms(5) trap_hs_prv [OF assms(1) hs(2) hs(1)] by (simp_all add: h1_def)
    note st = trap_hs_state [OF assms(1,2) hs(2) S(1) hs(1)]
    have "priv_inv xlen h1" unfolding hs(1) by (rule trap_hs_inv [OF assms(1,2)])
    moreover have "supports_extension ext_S h1" "\<not> bit (mstatus h1) 22" using S st by (simp_all add: supports_letter)
    ultimately obtain h2 where h2: "rv_sret xlen insn cpc npc h1 = Next PC_SERIALIZE_AFTER h2"
      "prv h2 = (if bit (mstatus h1) 8 then PRV_S else PRV_U)" "pc h2 = sepc h1 AND pc_alignment_mask h1" "\<not> v h2"
      "bit (mstatus h2) 1 = bit (mstatus h1) 5" "bit (mstatus h2) 3 = bit (mstatus h1) 3"
      using sret_state [OF _ assms(2) st(1)] by metis
    have "prv h = PRV_U \<or> prv h = PRV_S"
      using privilege_levels [of xlen h] assms(1) hs(2) by (auto simp: priv_inv_def word_le_nat_alt)
    then show ?thesis unfolding h1_def [symmetric] using h2 st v by (auto simp: flag_reads align_mask_cong [OF st(3)])
  next
    case m
    note st = trap_m_state [OF assms(1,2) m]
    have "priv_inv xlen h1" unfolding m by (rule trap_m_inv [OF assms(1)])
    then obtain h2 where h2: "rv_mret xlen insn cpc npc h1 = Next PC_SERIALIZE_AFTER h2" "prv h2 = get_field (mstatus h1) MSTATUS_MPP"
      "pc h2 = mepc h1 AND pc_alignment_mask h1" "\<not> v h2" "bit (mstatus h2) 3 = bit (mstatus h1) 7"
      "bit (mstatus h2) 1 = bit (mstatus h1) 1"
      using mret_state [OF _ assms(2) st(1)] by metis
    then show ?thesis unfolding h1_def [symmetric] using st v by (auto simp: flag_reads align_mask_cong [OF st(3)])
  qed
qed

theorem trap_return_resumes_witness:
  "\<exists>h2. (if prv (take_trap 64 trap_machine_ecall 0x1002 example_hart) = PRV_M then rv_mret else rv_sret) 64 0x30200073 0 4
      (take_trap 64 trap_machine_ecall 0x1002 example_hart) = Next PC_SERIALIZE_AFTER h2 \<and>
    prv h2 = prv example_hart \<and> v h2 = v example_hart \<and> pc h2 = 0x1002 AND pc_alignment_mask example_hart \<and>
    get_field (mstatus h2) MSTATUS_MIE = get_field (mstatus example_hart) MSTATUS_MIE \<and>
    get_field (mstatus h2) MSTATUS_SIE = get_field (mstatus example_hart) MSTATUS_SIE"
proof (rule trap_return_resumes)
  show "priv_inv 64 example_hart" unfolding example_hart_def by (rule hart_reset_inv) (simp_all add: blank_hart_def)
  show "\<not> debug_mode example_hart" "supports_extension ext_S example_hart \<and> \<not> bit (mstatus example_hart) 22" by code_simp+
qed (simp_all add: breaks_to_debug_def)

end
