(* ===== verification/RV_Mmu.thy ===== *)
theory RV_Mmu
  imports RV_Trap
begin

text \<open>
  The memory management unit (\<^verbatim>\<open>riscv/mmu.cc\<close>, \<^verbatim>\<open>riscv/mmu.h\<close>): debug triggers, the decoding of the
  translation mode, the page walks of both stages, the translation cache, and loads, stores and atomic
  operations over the bus of \<^verbatim>\<open>riscv/devices.cc\<close>.

  The simulator is built with the default configuration: accessed and dirty bits are not set by hardware and
  misaligned accesses trap.  No memory tracer is registered.  Host pointers are 64-bit addresses into a host
  memory of bytes, little-endian.
\<close>

section \<open>Triggers\<close>

datatype trigger_operation_t = OPERATION_EXECUTE | OPERATION_STORE | OPERATION_LOAD

record trigger_matched_t =
  tm_index :: nat
  tm_operation :: trigger_operation_t
  tm_address :: reg_t
  tm_data :: reg_t

abbreviation (input) MATCH_EQUAL :: uint64_t where "MATCH_EQUAL \<equiv> 0"
abbreviation (input) MATCH_NAPOT :: uint64_t where "MATCH_NAPOT \<equiv> 1"
abbreviation (input) MATCH_GE :: uint64_t where "MATCH_GE \<equiv> 2"
abbreviation (input) MATCH_LT :: uint64_t where "MATCH_LT \<equiv> 3"
abbreviation (input) MATCH_MASK_LOW :: uint64_t where "MATCH_MASK_LOW \<equiv> 4"
abbreviation (input) MATCH_MASK_HIGH :: uint64_t where "MATCH_MASK_HIGH \<equiv> 5"

text \<open>
  The mask of a power-of-two match is computed in a 32-bit \<^verbatim>\<open>int\<close> and sign-extended; the shift count is
  taken modulo 32, as the usual hosts do where C++ leaves it undefined.
\<close>

definition trigger_napot_mask :: "reg_t \<Rightarrow> reg_t" where
  "trigger_napot_mask x = scast (NOT (push_bit ((cto x + 1) mod 32) 1 - 1) :: 32 word)"

definition trigger_applies :: "mcontrol_t \<Rightarrow> trigger_operation_t \<Rightarrow> reg_t \<Rightarrow> bool" where
  "trigger_applies mc operation p \<longleftrightarrow>
     \<not> (operation = OPERATION_EXECUTE \<and> \<not> mc_execute mc \<or>
        operation = OPERATION_STORE \<and> \<not> mc_store mc \<or>
        operation = OPERATION_LOAD \<and> \<not> mc_load mc \<or>
        p = PRV_M \<and> \<not> mc_m mc \<or> p = PRV_S \<and> \<not> mc_s mc \<or> p = PRV_U \<and> \<not> mc_u mc)"

definition trigger_compare :: "nat \<Rightarrow> uint64_t \<Rightarrow> reg_t \<Rightarrow> reg_t \<Rightarrow> bool" where
  "trigger_compare xlen mat value t2 =
     (if mat = MATCH_EQUAL then value = t2
      else if mat = MATCH_NAPOT then value AND trigger_napot_mask t2 = t2 AND trigger_napot_mask t2
      else if mat = MATCH_GE then t2 \<le> value
      else if mat = MATCH_LT then value < t2
      else if mat = MATCH_MASK_LOW then value AND drop_bit (xlen div 2) t2 = t2 AND drop_bit (xlen div 2) t2
      else if mat = MATCH_MASK_HIGH
      then drop_bit (xlen div 2) value AND drop_bit (xlen div 2) t2 = t2 AND drop_bit (xlen div 2) t2
      else True)"

fun trigger_loop :: "nat \<Rightarrow> hart_t \<Rightarrow> trigger_operation_t \<Rightarrow> reg_t \<Rightarrow> reg_t \<Rightarrow> bool \<Rightarrow> nat list \<Rightarrow> nat option" where
  "trigger_loop xlen h operation address data chain_ok [] = None"
| "trigger_loop xlen h operation address data chain_ok (i # is) =
     (let mc = mcontrol h ! i
      in if \<not> chain_ok then trigger_loop xlen h operation address data (chain_ok \<or> \<not> chain mc) is
         else if \<not> trigger_applies mc operation (prv h) then trigger_loop xlen h operation address data chain_ok is
         else
           let value = (if mc_select mc then data else address);
               value = (if xlen = 32 then value AND 0xFFFFFFFF else value)
           in if \<not> trigger_compare xlen (mc_match mc) value (tdata2 h ! i)
              then trigger_loop xlen h operation address data chain_ok is
              else if \<not> chain mc then Some i
              else trigger_loop xlen h operation address data True is)"

definition trigger_match :: "nat \<Rightarrow> hart_t \<Rightarrow> trigger_operation_t \<Rightarrow> reg_t \<Rightarrow> reg_t \<Rightarrow> nat option" where
  "trigger_match xlen h operation address data =
     (if debug_mode h then None else trigger_loop xlen h operation address data True [0 ..< num_triggers])"

section \<open>The bus\<close>

text \<open>A memory with its size and the host address of its contents, or another device.\<close>

datatype device = mem_dev reg_t reg_t | io_dev nat

record 'd machine_t =
  proc :: hart_t
  host :: "reg_t \<Rightarrow> uint8_t"
  bus :: "(reg_t \<times> device) list"
  io :: 'd
  matched_trigger :: "trigger_matched_t option"

text \<open>The devices other than memories, behind the interface \<^verbatim>\<open>abstract_device_t\<close>.\<close>

record 'd devices =
  io_load :: "nat \<Rightarrow> reg_t \<Rightarrow> nat \<Rightarrow> 'd \<Rightarrow> uint8_t list option \<times> 'd"
  io_store :: "nat \<Rightarrow> reg_t \<Rightarrow> uint8_t list \<Rightarrow> 'd \<Rightarrow> bool \<times> 'd"

text \<open>The device with the greatest base not above the address; the bus is sorted by base.\<close>

definition find_device :: "(reg_t \<times> device) list \<Rightarrow> reg_t \<Rightarrow> (reg_t \<times> device) option" where
  "find_device b addr = (case filter (\<lambda>(base, d). base \<le> addr) b of [] \<Rightarrow> None | xs \<Rightarrow> Some (last xs))"

definition add_device :: "reg_t \<Rightarrow> device \<Rightarrow> (reg_t \<times> device) list \<Rightarrow> (reg_t \<times> device) list" where
  "add_device addr d b = filter (\<lambda>(base, _). base < addr) b @ (addr, d) # filter (\<lambda>(base, _). addr < base) b"

definition paddr_ok :: "reg_t \<Rightarrow> bool" where
  "paddr_ok addr \<longleftrightarrow> drop_bit MAX_PADDR_BITS addr = 0"

definition addr_to_mem :: "(reg_t \<times> device) list \<Rightarrow> reg_t \<Rightarrow> reg_t option" where
  "addr_to_mem b addr =
     (if \<not> paddr_ok addr then None
      else case find_device b addr of
        Some (base, mem_dev sz contents) \<Rightarrow> if addr - base < sz then Some (contents + (addr - base)) else None
      | _ \<Rightarrow> None)"

definition bus_load :: "'d devices \<Rightarrow> reg_t \<Rightarrow> nat \<Rightarrow> 'd machine_t \<Rightarrow> uint8_t list option \<times> 'd machine_t" where
  "bus_load dv addr len m =
     (case find_device (bus m) addr of
        None \<Rightarrow> (None, m)
      | Some (base, mem_dev _ _) \<Rightarrow> (None, m)
      | Some (base, io_dev n) \<Rightarrow> (let (r, d) = io_load dv n (addr - base) len (io m) in (r, m\<lparr>io := d\<rparr>)))"

definition bus_store :: "'d devices \<Rightarrow> reg_t \<Rightarrow> uint8_t list \<Rightarrow> 'd machine_t \<Rightarrow> bool \<times> 'd machine_t" where
  "bus_store dv addr bytes m =
     (case find_device (bus m) addr of
        None \<Rightarrow> (False, m)
      | Some (base, mem_dev _ _) \<Rightarrow> (False, m)
      | Some (base, io_dev n) \<Rightarrow> (let (r, d) = io_store dv n (addr - base) bytes (io m) in (r, m\<lparr>io := d\<rparr>)))"

abbreviation (input) DEBUG_START :: reg_t where "DEBUG_START \<equiv> 0"
abbreviation (input) DEBUG_END :: reg_t where "DEBUG_END \<equiv> 0xFFF"

definition mmio_ok :: "hart_t \<Rightarrow> reg_t \<Rightarrow> bool" where
  "mmio_ok h addr \<longleftrightarrow> \<not> (DEBUG_START \<le> addr \<and> addr \<le> DEBUG_END \<and> \<not> debug_mode h)"

definition sim_range_ok :: "reg_t \<Rightarrow> nat \<Rightarrow> bool" where
  "sim_range_ok addr len \<longleftrightarrow> \<not> (addr + of_nat len < addr \<or> \<not> paddr_ok (addr + of_nat len - 1))"

definition mmio_load :: "'d devices \<Rightarrow> reg_t \<Rightarrow> nat \<Rightarrow> 'd machine_t \<Rightarrow> uint8_t list option \<times> 'd machine_t" where
  "mmio_load dv addr len m =
     (if mmio_ok (proc m) addr \<and> sim_range_ok addr len then bus_load dv addr len m else (None, m))"

definition mmio_store :: "'d devices \<Rightarrow> reg_t \<Rightarrow> uint8_t list \<Rightarrow> 'd machine_t \<Rightarrow> bool \<times> 'd machine_t" where
  "mmio_store dv addr bytes m =
     (if mmio_ok (proc m) addr \<and> sim_range_ok addr (length bytes) then bus_store dv addr bytes m else (False, m))"

section \<open>Host memory\<close>

definition read_bytes :: "(reg_t \<Rightarrow> uint8_t) \<Rightarrow> reg_t \<Rightarrow> nat \<Rightarrow> uint8_t list" where
  "read_bytes hm a n = map (\<lambda>i. hm (a + of_nat i)) [0 ..< n]"

fun write_bytes :: "(reg_t \<Rightarrow> uint8_t) \<Rightarrow> reg_t \<Rightarrow> uint8_t list \<Rightarrow> reg_t \<Rightarrow> uint8_t" where
  "write_bytes hm a [] = hm"
| "write_bytes hm a (b # bs) = write_bytes (hm(a := b)) (a + 1) bs"

fun reg_from_bytes :: "uint8_t list \<Rightarrow> reg_t" where
  "reg_from_bytes [] = 0"
| "reg_from_bytes (b # bs) = ucast b OR push_bit 8 (reg_from_bytes bs)"

fun reg_to_bytes :: "nat \<Rightarrow> reg_t \<Rightarrow> uint8_t list" where
  "reg_to_bytes 0 x = []"
| "reg_to_bytes (Suc n) x = ucast x # reg_to_bytes n (drop_bit 8 x)"

definition host_load :: "(reg_t \<Rightarrow> uint8_t) \<Rightarrow> reg_t \<Rightarrow> nat \<Rightarrow> reg_t" where
  "host_load hm a n = reg_from_bytes (read_bytes hm a n)"

section \<open>Exceptions\<close>

text \<open>What the memory system throws: a trap, a debug trigger, or the end of the simulator.\<close>

datatype mem_exn = Mem_trap trap_t | Mem_trigger trigger_matched_t | Mem_abort

type_synonym 'a xlate = "mem_exn + 'a"

definition xbind :: "'a xlate \<Rightarrow> ('a \<Rightarrow> 'b xlate) \<Rightarrow> 'b xlate" where
  "xbind r k = (case r of Inl e \<Rightarrow> Inl e | Inr x \<Rightarrow> k x)"

definition access_exception :: "reg_t \<Rightarrow> access_type \<Rightarrow> mem_exn" where
  "access_exception addr type = Mem_trap
     (case type of FETCH \<Rightarrow> trap_instruction_access_fault addr | LOAD \<Rightarrow> trap_load_access_fault addr
      | STORE \<Rightarrow> trap_store_access_fault addr)"

definition page_exception :: "reg_t \<Rightarrow> access_type \<Rightarrow> mem_exn" where
  "page_exception addr type = Mem_trap
     (case type of FETCH \<Rightarrow> trap_instruction_page_fault addr | LOAD \<Rightarrow> trap_load_page_fault addr
      | STORE \<Rightarrow> trap_store_page_fault addr)"

definition guest_page_exception :: "reg_t \<Rightarrow> reg_t \<Rightarrow> access_type \<Rightarrow> mem_exn" where
  "guest_page_exception gva gpa type = Mem_trap
     (case type of FETCH \<Rightarrow> trap_instruction_guest_page_fault gva (drop_bit 2 gpa)
      | LOAD \<Rightarrow> trap_load_guest_page_fault gva (drop_bit 2 gpa)
      | STORE \<Rightarrow> trap_store_guest_page_fault gva (drop_bit 2 gpa))"

section \<open>The translation mode\<close>

record vm_info =
  levels :: nat
  idxbits :: nat
  widenbits :: nat
  ptesize :: nat
  ptbase :: reg_t

definition bare_vm :: vm_info where
  "bare_vm = \<lparr>levels = 0, idxbits = 0, widenbits = 0, ptesize = 0, ptbase = 0\<rparr>"

definition decode_vm_info :: "nat \<Rightarrow> bool \<Rightarrow> reg_t \<Rightarrow> reg_t \<Rightarrow> vm_info xlate" where
  "decode_vm_info xlen stage2 p atp =
     (let sv = (\<lambda>l b w s ppn. Inr \<lparr>levels = l, idxbits = b, widenbits = w, ptesize = s, ptbase = push_bit PGSHIFT (atp AND ppn)\<rparr>)
      in if p = PRV_M then Inr bare_vm
         else if \<not> stage2 \<and> p \<le> PRV_S \<and> xlen = 32
         then let mode = get_field atp SATP32_MODE
              in if mode = SATP_MODE_OFF then Inr bare_vm
                 else if mode = SATP_MODE_SV32 then sv 2 10 0 4 SATP32_PPN
                 else Inl Mem_abort
         else if \<not> stage2 \<and> p \<le> PRV_S \<and> xlen = 64
         then let mode = get_field atp SATP64_MODE
              in if mode = SATP_MODE_OFF then Inr bare_vm
                 else if mode = SATP_MODE_SV39 then sv 3 9 0 8 SATP64_PPN
                 else if mode = SATP_MODE_SV48 then sv 4 9 0 8 SATP64_PPN
                 else if mode = SATP_MODE_SV57 then sv 5 9 0 8 SATP64_PPN
                 else if mode = SATP_MODE_SV64 then sv 6 9 0 8 SATP64_PPN
                 else Inl Mem_abort
         else if stage2 \<and> xlen = 32
         then let mode = get_field atp HGATP32_MODE
              in if mode = HGATP_MODE_OFF then Inr bare_vm
                 else if mode = HGATP_MODE_SV32X4 then sv 2 10 2 4 HGATP32_PPN
                 else Inl Mem_abort
         else if stage2 \<and> xlen = 64
         then let mode = get_field atp HGATP64_MODE
              in if mode = HGATP_MODE_OFF then Inr bare_vm
                 else if mode = HGATP_MODE_SV39X4 then sv 3 9 2 8 HGATP64_PPN
                 else if mode = HGATP_MODE_SV48X4 then sv 4 9 2 8 HGATP64_PPN
                 else Inl Mem_abort
         else Inl Mem_abort)"

section \<open>Page walks\<close>

definition PTE_V :: reg_t where "PTE_V = 0x001"
definition PTE_R :: reg_t where "PTE_R = 0x002"
definition PTE_W :: reg_t where "PTE_W = 0x004"
definition PTE_X :: reg_t where "PTE_X = 0x008"
definition PTE_U :: reg_t where "PTE_U = 0x010"
definition PTE_A :: reg_t where "PTE_A = 0x040"
definition PTE_D :: reg_t where "PTE_D = 0x080"

abbreviation (input) PTE_PPN_SHIFT :: nat where "PTE_PPN_SHIFT \<equiv> 10"

definition PTE_TABLE :: "reg_t \<Rightarrow> bool" where
  "PTE_TABLE pte \<longleftrightarrow> pte AND (PTE_V OR PTE_R OR PTE_W OR PTE_X) = PTE_V"

definition page_mask :: reg_t where
  "page_mask = push_bit PGSHIFT 1 - 1"

text \<open>The reading of an entry, with the check that its address is legal.\<close>

definition load_pte :: "'d machine_t \<Rightarrow> reg_t \<Rightarrow> access_type \<Rightarrow> nat \<Rightarrow> reg_t \<Rightarrow> reg_t xlate" where
  "load_pte m addr type sz pte_paddr =
     (case addr_to_mem (bus m) pte_paddr of
        None \<Rightarrow> Inl (access_exception addr type)
      | Some ppte \<Rightarrow>
          if \<not> pmp_ok (proc m) pte_paddr sz LOAD PRV_S then Inl (access_exception addr type)
          else Inr (if sz = 4 then host_load (host m) ppte 4 else host_load (host m) ppte 8))"

text \<open>What makes a leaf entry of either stage unusable for the access, apart from the user bit.\<close>

definition leaf_invalid :: "reg_t \<Rightarrow> bool" where
  "leaf_invalid pte \<longleftrightarrow> pte AND PTE_V = 0 \<or> pte AND PTE_R = 0 \<and> pte AND PTE_W \<noteq> 0"

definition leaf_denied :: "reg_t \<Rightarrow> access_type \<Rightarrow> bool \<Rightarrow> bool" where
  "leaf_denied pte type mxr =
     (if type = FETCH then pte AND PTE_X = 0
      else if type = LOAD then pte AND PTE_R = 0 \<and> \<not> (mxr \<and> pte AND PTE_X \<noteq> 0)
      else \<not> (pte AND PTE_R \<noteq> 0 \<and> pte AND PTE_W \<noteq> 0))"

definition superpage_misaligned :: "reg_t \<Rightarrow> nat \<Rightarrow> bool" where
  "superpage_misaligned ppn ptshift \<longleftrightarrow> ppn AND (push_bit ptshift 1 - 1) \<noteq> 0"

definition leaf_ad_clear :: "reg_t \<Rightarrow> access_type \<Rightarrow> bool" where
  "leaf_ad_clear pte type \<longleftrightarrow> (let ad = PTE_A OR (if type = STORE then PTE_D else 0) in pte AND ad \<noteq> ad)"

definition leaf_page :: "reg_t \<Rightarrow> reg_t \<Rightarrow> nat \<Rightarrow> reg_t" where
  "leaf_page ppn vpn ptshift = push_bit PGSHIFT (ppn OR (vpn AND (push_bit ptshift 1 - 1)))"

fun s2xlate_loop ::
  "'d machine_t \<Rightarrow> vm_info \<Rightarrow> reg_t \<Rightarrow> reg_t \<Rightarrow> access_type \<Rightarrow> bool \<Rightarrow> reg_t \<Rightarrow> nat list \<Rightarrow> reg_t xlate" where
  "s2xlate_loop m vm gva gpa type mxr base [] = Inl (guest_page_exception gva gpa type)"
| "s2xlate_loop m vm gva gpa type mxr base (i # is) =
     (let ptshift = i * idxbits vm;
          bits = (if i = levels vm - 1 then idxbits vm + widenbits vm else idxbits vm);
          idx = drop_bit (PGSHIFT + ptshift) gpa AND (push_bit bits 1 - 1)
      in xbind (load_pte m gva type (ptesize vm) (base + idx * of_nat (ptesize vm))) (\<lambda>pte.
         let ppn = drop_bit PTE_PPN_SHIFT pte; fault = Inl (guest_page_exception gva gpa type)
         in if PTE_TABLE pte then s2xlate_loop m vm gva gpa type mxr (push_bit PGSHIFT ppn) is
            else if leaf_invalid pte then fault
            else if pte AND PTE_U = 0 then fault
            else if leaf_denied pte type mxr then fault
            else if superpage_misaligned ppn ptshift then fault
            else if leaf_ad_clear pte type then fault
            else Inr (leaf_page ppn (drop_bit PGSHIFT gpa) ptshift OR (gpa AND page_mask))))"

definition s2xlate :: "nat \<Rightarrow> 'd machine_t \<Rightarrow> reg_t \<Rightarrow> reg_t \<Rightarrow> access_type \<Rightarrow> bool \<Rightarrow> bool \<Rightarrow> reg_t xlate" where
  "s2xlate xlen m gva gpa type virt mxr =
     (if \<not> virt then Inr gpa
      else xbind (decode_vm_info xlen True 0 (hgatp (proc m))) (\<lambda>vm.
        if levels vm = 0 then Inr gpa
        else s2xlate_loop m vm gva gpa type mxr (ptbase vm) (rev [0 ..< levels vm])))"

fun walk_loop ::
  "nat \<Rightarrow> 'd machine_t \<Rightarrow> vm_info \<Rightarrow> reg_t \<Rightarrow> access_type \<Rightarrow> reg_t \<Rightarrow> bool \<Rightarrow> bool \<Rightarrow> reg_t \<Rightarrow> nat list \<Rightarrow> reg_t xlate" where
  "walk_loop xlen m vm addr type mode virt mxr base [] = Inl (page_exception addr type)"
| "walk_loop xlen m vm addr type mode virt mxr base (i # is) =
     (let ptshift = i * idxbits vm;
          s_mode = mode = PRV_S;
          sum = get_field (mstatus (proc m)) MSTATUS_SUM \<noteq> 0;
          idx = drop_bit (PGSHIFT + ptshift) addr AND (push_bit (idxbits vm) 1 - 1)
      in xbind (s2xlate xlen m addr (base + idx * of_nat (ptesize vm)) LOAD virt False) (\<lambda>pte_paddr.
         xbind (load_pte m addr type (ptesize vm) pte_paddr) (\<lambda>pte.
         let ppn = drop_bit PTE_PPN_SHIFT pte; fault = Inl (page_exception addr type)
         in if PTE_TABLE pte then walk_loop xlen m vm addr type mode virt mxr (push_bit PGSHIFT ppn) is
            else if (if pte AND PTE_U \<noteq> 0 then s_mode \<and> (type = FETCH \<or> \<not> sum) else \<not> s_mode) then fault
            else if leaf_invalid pte then fault
            else if leaf_denied pte type mxr then fault
            else if superpage_misaligned ppn ptshift then fault
            else if leaf_ad_clear pte type then fault
            else xbind (s2xlate xlen m addr (leaf_page ppn (drop_bit PGSHIFT addr) ptshift OR (addr AND page_mask)) type virt mxr)
              (\<lambda>pa. Inr (pa AND NOT page_mask)))))"

definition walk :: "nat \<Rightarrow> 'd machine_t \<Rightarrow> reg_t \<Rightarrow> access_type \<Rightarrow> reg_t \<Rightarrow> bool \<Rightarrow> bool \<Rightarrow> reg_t xlate" where
  "walk xlen m addr type mode virt mxr =
     (let atp = (if virt then vsatp (proc m) else satp (proc m))
      in xbind (decode_vm_info xlen False mode atp) (\<lambda>vm.
         if levels vm = 0
         then xbind (s2xlate xlen m addr (addr AND (push_bit (xlen - 1) 2 - 1)) type virt mxr) (\<lambda>pa. Inr (pa AND NOT page_mask))
         else
           let va_bits = PGSHIFT + levels vm * idxbits vm;
               msk = push_bit (xlen - (va_bits - 1)) 1 - 1;
               masked_msbs = drop_bit (va_bits - 1) addr AND msk;
               n = (if masked_msbs \<noteq> 0 \<and> masked_msbs \<noteq> msk then 0 else levels vm)
           in walk_loop xlen m vm addr type mode virt mxr (ptbase vm) (rev [0 ..< n])))"

abbreviation (input) RISCV_XLATE_VIRT :: uint32_t where "RISCV_XLATE_VIRT \<equiv> 1"
abbreviation (input) RISCV_XLATE_VIRT_MXR :: uint32_t where "RISCV_XLATE_VIRT_MXR \<equiv> 2"

text \<open>The privilege level, virtualisation and executable-readable mode of an access.\<close>

definition access_mode :: "hart_t \<Rightarrow> access_type \<Rightarrow> uint32_t \<Rightarrow> reg_t \<times> bool \<times> bool" where
  "access_mode h type xlate_flags =
     (let mxr = get_field (mstatus h) MSTATUS_MXR \<noteq> 0;
          mprv = type \<noteq> FETCH \<and> \<not> debug_mode h \<and> get_field (mstatus h) MSTATUS_MPRV \<noteq> 0;
          mode = (if mprv then get_field (mstatus h) MSTATUS_MPP else prv h);
          virt = (if mprv \<and> get_field (mstatus h) MSTATUS_MPV \<noteq> 0 then True else v h)
      in if type \<noteq> FETCH \<and> \<not> debug_mode h \<and> xlate_flags AND RISCV_XLATE_VIRT \<noteq> 0
         then (get_field (hstatus h) HSTATUS_SPVP, True, mxr \<or> type = LOAD \<and> xlate_flags AND RISCV_XLATE_VIRT_MXR \<noteq> 0)
         else (mode, virt, mxr))"

definition translate :: "nat \<Rightarrow> 'd machine_t \<Rightarrow> reg_t \<Rightarrow> nat \<Rightarrow> access_type \<Rightarrow> uint32_t \<Rightarrow> reg_t xlate" where
  "translate xlen m addr len type xlate_flags =
     (let (mode, virt, mxr) = access_mode (proc m) type xlate_flags
      in xbind (walk xlen m addr type mode virt mxr) (\<lambda>page.
         let paddr = page OR (addr AND page_mask)
         in if \<not> pmp_ok (proc m) paddr len type mode then Inl (access_exception addr type) else Inr paddr))"

section \<open>The translation cache\<close>

definition TLB_CHECK_TRIGGERS :: reg_t where
  "TLB_CHECK_TRIGGERS = push_bit 63 1"

definition tlb_index :: "reg_t \<Rightarrow> nat" where
  "tlb_index vpn = unat (vpn mod of_nat TLB_ENTRIES)"

definition tlb_evict :: "nat \<Rightarrow> reg_t \<Rightarrow> reg_t list \<Rightarrow> reg_t list" where
  "tlb_evict idx expected_tag tags = (if tags ! idx AND NOT TLB_CHECK_TRIGGERS \<noteq> expected_tag then tags[idx := - 1] else tags)"

text \<open>The argument of the uniformity check is a page, so that the check does not abort.\<close>

definition refill_tlb :: "reg_t \<Rightarrow> reg_t \<Rightarrow> reg_t \<Rightarrow> access_type \<Rightarrow> hart_t \<Rightarrow> tlb_entry_t \<times> hart_t" where
  "refill_tlb vaddr paddr host_addr type h =
     (let expected_tag = drop_bit PGSHIFT vaddr; idx = tlb_index expected_tag; m = mmu h;
          m = m\<lparr>tlb_load_tag := tlb_evict idx expected_tag (tlb_load_tag m),
            tlb_store_tag := tlb_evict idx expected_tag (tlb_store_tag m),
            tlb_insn_tag := tlb_evict idx expected_tag (tlb_insn_tag m)\<rparr>;
          tag = (if check_triggers_fetch m \<and> type = FETCH \<or> check_triggers_load m \<and> type = LOAD \<or>
              check_triggers_store m \<and> type = STORE then expected_tag OR TLB_CHECK_TRIGGERS else expected_tag);
          m = (if pmp_homogeneous h (paddr AND NOT page_mask) (push_bit PGSHIFT 1) = Some True
               then case type of FETCH \<Rightarrow> m\<lparr>tlb_insn_tag := (tlb_insn_tag m)[idx := tag]\<rparr>
                 | STORE \<Rightarrow> m\<lparr>tlb_store_tag := (tlb_store_tag m)[idx := tag]\<rparr>
                 | LOAD \<Rightarrow> m\<lparr>tlb_load_tag := (tlb_load_tag m)[idx := tag]\<rparr>
               else m);
          entry = \<lparr>host_offset = host_addr - vaddr, target_offset = paddr - vaddr\<rparr>
      in (entry, h\<lparr>mmu := m\<lparr>tlb_data := (tlb_data m)[idx := entry]\<rparr>\<rparr>))"

section \<open>Loads and stores\<close>

type_synonym ('d, 'a) mem_op = "'d machine_t \<Rightarrow> 'a xlate \<times> 'd machine_t"

definition mbind :: "'a xlate \<times> 'd machine_t \<Rightarrow> ('a \<Rightarrow> ('d, 'b) mem_op) \<Rightarrow> 'b xlate \<times> 'd machine_t" where
  "mbind r k = (case r of (Inl e, m) \<Rightarrow> (Inl e, m) | (Inr x, m) \<Rightarrow> k x m)"

definition machine_flush :: "'d machine_t \<Rightarrow> 'd machine_t" where
  "machine_flush m = m\<lparr>proc := flush_tlb (proc m)\<rparr>"

text \<open>The check of a trigger that the access paths share; a trigger with late timing is remembered.\<close>

definition check_trigger :: "nat \<Rightarrow> trigger_operation_t \<Rightarrow> reg_t \<Rightarrow> reg_t \<Rightarrow> ('d, unit) mem_op" where
  "check_trigger xlen operation addr data m =
     (if matched_trigger m \<noteq> None then (Inr (), m)
      else case trigger_match xlen (proc m) operation addr data of
        None \<Rightarrow> (Inr (), m)
      | Some i \<Rightarrow>
          let tm = \<lparr>tm_index = i, tm_operation = operation, tm_address = addr, tm_data = data\<rparr>
          in (Inl (Mem_trigger tm), if timing (mcontrol (proc m) ! i) then m\<lparr>matched_trigger := Some tm\<rparr> else m))"

definition load_slow_path :: "'d devices \<Rightarrow> nat \<Rightarrow> reg_t \<Rightarrow> nat \<Rightarrow> uint32_t \<Rightarrow> ('d, uint8_t list) mem_op" where
  "load_slow_path dv xlen addr len xlate_flags m =
     (case translate xlen m addr len LOAD xlate_flags of
        Inl e \<Rightarrow> (Inl e, m)
      | Inr paddr \<Rightarrow>
          mbind (case addr_to_mem (bus m) paddr of
              Some host_addr \<Rightarrow>
                (Inr (read_bytes (host m) host_addr len), m\<lparr>proc := snd (refill_tlb addr paddr host_addr LOAD (proc m))\<rparr>)
            | None \<Rightarrow>
                (case mmio_load dv paddr len m of
                   (None, m) \<Rightarrow> (Inl (Mem_trap (trap_load_access_fault addr)), m)
                 | (Some bytes, m) \<Rightarrow> (Inr bytes, m)))
            (\<lambda>bytes m. mbind (check_trigger xlen OPERATION_LOAD addr (reg_from_bytes bytes) m) (\<lambda>_ m. (Inr bytes, m))))"

definition store_slow_path :: "'d devices \<Rightarrow> nat \<Rightarrow> reg_t \<Rightarrow> uint8_t list \<Rightarrow> uint32_t \<Rightarrow> ('d, unit) mem_op" where
  "store_slow_path dv xlen addr bytes xlate_flags m =
     (case translate xlen m addr (length bytes) STORE xlate_flags of
        Inl e \<Rightarrow> (Inl e, m)
      | Inr paddr \<Rightarrow>
          mbind (check_trigger xlen OPERATION_STORE addr (reg_from_bytes bytes) m) (\<lambda>_ m.
            case addr_to_mem (bus m) paddr of
              Some host_addr \<Rightarrow>
                (Inr (), m\<lparr>host := write_bytes (host m) host_addr bytes,
                   proc := snd (refill_tlb addr paddr host_addr STORE (proc m))\<rparr>)
            | None \<Rightarrow>
                (case mmio_store dv paddr bytes m of
                   (False, m) \<Rightarrow> (Inl (Mem_trap (trap_store_access_fault addr)), m)
                 | (True, m) \<Rightarrow> (Inr (), m))))"

text \<open>The conversion of the loaded bytes to the type of the access and to the register width.\<close>

definition to_type :: "bool \<Rightarrow> nat \<Rightarrow> reg_t \<Rightarrow> reg_t" where
  "to_type sg sz x = (if sg then signed_take_bit (8 * sz - 1) x else take_bit (8 * sz) x)"

definition misaligned :: "reg_t \<Rightarrow> nat \<Rightarrow> bool" where
  "misaligned addr sz \<longleftrightarrow> addr AND (of_nat sz - 1) \<noteq> 0"

text \<open>The template \<^verbatim>\<open>load_func\<close>; the alignment is checked on the slow path only.\<close>

definition load_func :: "bool \<Rightarrow> nat \<Rightarrow> uint32_t \<Rightarrow> 'd devices \<Rightarrow> nat \<Rightarrow> reg_t \<Rightarrow> ('d, reg_t) mem_op" where
  "load_func sg sz xlate_flags dv xlen addr m =
     (let m = (if xlate_flags \<noteq> 0 then machine_flush m else m);
          vpn = drop_bit PGSHIFT addr; idx = tlb_index vpn; tag = tlb_load_tag (mmu (proc m)) ! idx;
          data = to_type sg sz (host_load (host m) (host_offset (tlb_data (mmu (proc m)) ! idx) + addr) sz)
      in if tag = vpn then (Inr data, m)
         else if tag = vpn OR TLB_CHECK_TRIGGERS
         then mbind (check_trigger xlen OPERATION_LOAD addr data m) (\<lambda>_ m. (Inr data, m))
         else mbind (load_slow_path dv xlen addr sz xlate_flags m) (\<lambda>bytes m.
           if misaligned addr sz then (Inl (Mem_trap (trap_load_address_misaligned addr)), m)
           else (Inr (to_type sg sz (reg_from_bytes bytes)), if xlate_flags \<noteq> 0 then machine_flush m else m)))"

text \<open>The template \<^verbatim>\<open>store_func\<close>; the store is performed before its alignment is checked.\<close>

definition store_func :: "nat \<Rightarrow> uint32_t \<Rightarrow> 'd devices \<Rightarrow> nat \<Rightarrow> reg_t \<Rightarrow> reg_t \<Rightarrow> ('d, unit) mem_op" where
  "store_func sz xlate_flags dv xlen addr val m =
     (let m = (if xlate_flags \<noteq> 0 then machine_flush m else m);
          vpn = drop_bit PGSHIFT addr; idx = tlb_index vpn; tag = tlb_store_tag (mmu (proc m)) ! idx;
          val = take_bit (8 * sz) val; bytes = reg_to_bytes sz val;
          hit = (\<lambda>m. (Inr (), m\<lparr>host := write_bytes (host m) (host_offset (tlb_data (mmu (proc m)) ! idx) + addr) bytes\<rparr>))
      in mbind (if tag = vpn then hit m
          else if tag = vpn OR TLB_CHECK_TRIGGERS
          then mbind (check_trigger xlen OPERATION_STORE addr val m) (\<lambda>_ m. hit m)
          else store_slow_path dv xlen addr bytes xlate_flags m)
        (\<lambda>_ m. if misaligned addr sz then (Inl (Mem_trap (trap_store_address_misaligned addr)), m)
          else (Inr (), if xlate_flags \<noteq> 0 then machine_flush m else m)))"

section \<open>Atomic operations\<close>

text \<open>Faults of the load are reported as faults of a store.\<close>

definition amo_exn :: "mem_exn \<Rightarrow> mem_exn" where
  "amo_exn e = (case e of
       Mem_trap (trap_load_page_fault a) \<Rightarrow> Mem_trap (trap_store_page_fault a)
     | Mem_trap (trap_load_access_fault a) \<Rightarrow> Mem_trap (trap_store_access_fault a)
     | _ \<Rightarrow> e)"

definition amo_func :: "nat \<Rightarrow> (reg_t \<Rightarrow> reg_t) \<Rightarrow> 'd devices \<Rightarrow> nat \<Rightarrow> reg_t \<Rightarrow> ('d, reg_t) mem_op" where
  "amo_func sz f dv xlen addr m =
     (if misaligned addr sz then (Inl (Mem_trap (trap_store_address_misaligned addr)), m)
      else case mbind (load_func False sz 0 dv xlen addr m)
          (\<lambda>lhs m. mbind (store_func sz 0 dv xlen addr (f lhs) m) (\<lambda>_ m. (Inr lhs, m))) of
        (Inl e, m) \<Rightarrow> (Inl (amo_exn e), m)
      | (Inr lhs, m) \<Rightarrow> (Inr lhs, m))"

definition yield_load_reservation :: "'d machine_t \<Rightarrow> 'd machine_t" where
  "yield_load_reservation m =
     m\<lparr>proc := (proc m)\<lparr>mmu := (mmu (proc m))\<lparr>load_reservation_address := - 1\<rparr>\<rparr>\<rparr>"

definition acquire_load_reservation :: "nat \<Rightarrow> reg_t \<Rightarrow> ('d, unit) mem_op" where
  "acquire_load_reservation xlen vaddr m =
     (case translate xlen m vaddr 1 LOAD 0 of
        Inl e \<Rightarrow> (Inl e, m)
      | Inr paddr \<Rightarrow>
          (case addr_to_mem (bus m) paddr of
             Some host_addr \<Rightarrow>
               let (entry, h) = refill_tlb vaddr paddr host_addr LOAD (proc m)
               in (Inr (), m\<lparr>proc := h\<lparr>mmu := (mmu h)\<lparr>load_reservation_address := target_offset entry + vaddr\<rparr>\<rparr>\<rparr>)
           | None \<Rightarrow> (Inl (Mem_trap (trap_load_access_fault vaddr)), m)))"

definition check_load_reservation :: "nat \<Rightarrow> reg_t \<Rightarrow> nat \<Rightarrow> ('d, bool) mem_op" where
  "check_load_reservation xlen vaddr sz m =
     (if misaligned vaddr sz then (Inl (Mem_trap (trap_store_address_misaligned vaddr)), m)
      else case translate xlen m vaddr 1 STORE 0 of
        Inl e \<Rightarrow> (Inl e, m)
      | Inr paddr \<Rightarrow>
          (case addr_to_mem (bus m) paddr of
             Some host_addr \<Rightarrow>
               let (entry, h) = refill_tlb vaddr paddr host_addr STORE (proc m)
               in (Inr (load_reservation_address (mmu h) = target_offset entry + vaddr), m\<lparr>proc := h\<rparr>)
           | None \<Rightarrow> (Inl (Mem_trap (trap_store_access_fault vaddr)), m)))"

end
