(* ===== verification/RV_Translate.thy ===== *)
theory RV_Translate
  imports RV_Mmu
begin

text \<open>
  The page walk against a specification by the page table, as a tree of entries in memory, and that address
  translation never ends the simulator.
\<close>

section \<open>The page table\<close>

lemma xbind_simps [simp]: "xbind (Inl e) k = Inl e" "xbind (Inr x) k = k x"
  by (simp_all add: xbind_def)

text \<open>The entry for an address in the table at a base and level.\<close>

definition table_entry :: "'d machine_t \<Rightarrow> vm_info \<Rightarrow> reg_t \<Rightarrow> access_type \<Rightarrow> reg_t \<Rightarrow> nat \<Rightarrow> reg_t xlate" where
  "table_entry m vm addr type base i =
     load_pte m addr type (ptesize vm)
       (base + (drop_bit (PGSHIFT + i * idxbits vm) addr AND (push_bit (idxbits vm) 1 - 1)) * of_nat (ptesize vm))"

text \<open>A leaf of the table below a base and level: the level it is found at and the entry.\<close>

inductive leaf_below :: "'d machine_t \<Rightarrow> vm_info \<Rightarrow> reg_t \<Rightarrow> access_type \<Rightarrow> reg_t \<Rightarrow> nat \<Rightarrow> nat \<Rightarrow> reg_t \<Rightarrow> bool" where
  leaf_here: "table_entry m vm addr type base i = Inr pte \<Longrightarrow> \<not> PTE_TABLE pte \<Longrightarrow> leaf_below m vm addr type base i i pte"
| leaf_down: "table_entry m vm addr type base (Suc i) = Inr pte \<Longrightarrow> PTE_TABLE pte \<Longrightarrow>
    leaf_below m vm addr type (push_bit PGSHIFT (drop_bit PTE_PPN_SHIFT pte)) i j pte' \<Longrightarrow>
    leaf_below m vm addr type base (Suc i) j pte'"

inductive_cases leaf_belowE: "leaf_below m vm addr type base i j pte"

text \<open>The permission a leaf gives: to user code on user pages, to the supervisor on its own and, for data, on user pages.\<close>

definition leaf_grants :: "reg_t \<Rightarrow> access_type \<Rightarrow> reg_t \<Rightarrow> bool \<Rightarrow> bool \<Rightarrow> bool" where
  "leaf_grants pte type mode sm mxr \<longleftrightarrow>
     bit pte 0 \<and> (bit pte 2 \<longrightarrow> bit pte 1) \<and>
     (if bit pte 4 then mode = PRV_S \<longrightarrow> sm \<and> type \<noteq> FETCH else mode = PRV_S) \<and>
     (case type of FETCH \<Rightarrow> bit pte 3 | LOAD \<Rightarrow> bit pte 1 \<or> mxr \<and> bit pte 3 | STORE \<Rightarrow> bit pte 1 \<and> bit pte 2) \<and>
     bit pte 6 \<and> (type = STORE \<longrightarrow> bit pte 7)"

definition canonical :: "nat \<Rightarrow> vm_info \<Rightarrow> reg_t \<Rightarrow> bool" where
  "canonical xlen vm addr \<longleftrightarrow>
     (let va_bits = PGSHIFT + levels vm * idxbits vm; msk = mask (xlen - (va_bits - 1))
      in drop_bit (va_bits - 1) addr AND msk = 0 \<or> drop_bit (va_bits - 1) addr AND msk = msk)"

lemma pte_bits:
  "(pte AND PTE_V \<noteq> 0) = bit pte 0" "(pte AND PTE_R \<noteq> 0) = bit pte 1" "(pte AND PTE_W \<noteq> 0) = bit pte 2"
  "(pte AND PTE_X \<noteq> 0) = bit pte 3" "(pte AND PTE_U \<noteq> 0) = bit pte 4"
  using bit_and_nz [of pte 0] bit_and_nz [of pte 1] bit_and_nz [of pte 2] bit_and_nz [of pte 3] bit_and_nz [of pte 4]
  by (simp_all add: PTE_V_def PTE_R_def PTE_W_def PTE_X_def PTE_U_def)

lemma and_eq_self: "(x AND m = m) \<longleftrightarrow> (\<forall>n. bit m n \<longrightarrow> bit x n)" for x m :: "'a::len word"
  by (auto simp: bit_eq_iff bit_and_iff dest: bit_imp_le_length)

lemma ad_bits: "leaf_ad_clear pte type \<longleftrightarrow> \<not> (bit pte 6 \<and> (type = STORE \<longrightarrow> bit pte 7))"
proof -
  have b: "bit (push_bit k 1 :: reg_t) n \<longleftrightarrow> n = k" if "k < 64" for k n
    using that by (simp only: bit_push_bit_iff bit_1_iff) auto
  have ad: "PTE_A = push_bit 6 1" "PTE_D = push_bit 7 1" by (simp_all add: PTE_A_def PTE_D_def)
  have "bit PTE_A n \<longleftrightarrow> n = 6" "bit PTE_D n \<longleftrightarrow> n = 7" for n unfolding ad by (rule b, simp)+
  then show ?thesis by (auto simp: leaf_ad_clear_def Let_def and_eq_self bit_or_iff)
qed

lemma grants_iff:
  "leaf_grants pte type mode sm mxr \<longleftrightarrow>
     \<not> (if pte AND PTE_U \<noteq> 0 then mode = PRV_S \<and> (type = FETCH \<or> \<not> sm) else \<not> mode = PRV_S) \<and>
     \<not> leaf_invalid pte \<and> \<not> leaf_denied pte type mxr \<and> \<not> leaf_ad_clear pte type"
proof -
  have eq: "(pte AND PTE_V = 0) = (\<not> bit pte 0)" "(pte AND PTE_R = 0) = (\<not> bit pte 1)" "(pte AND PTE_X = 0) = (\<not> bit pte 3)"
    using pte_bits [of pte] by auto
  show ?thesis unfolding leaf_grants_def leaf_invalid_def leaf_denied_def eq pte_bits ad_bits
    by (cases type) auto
qed

lemma s2xlate_id [simp]: "s2xlate xlen m gva gpa type False mxr = Inr gpa"
  by (simp add: s2xlate_def)

lemma page_mask_eq: "page_mask = mask 12"
  by (simp add: page_mask_def mask_eq_exp_minus_1)

lemma leaf_page_aligned: "leaf_page ppn vpn k AND page_mask = 0"
  unfolding leaf_page_def page_mask_eq by (rule bit_word_eqI) (simp only: bit_and_iff bit_push_bit_iff bit_mask_iff, auto)

lemma page_or: "(p OR (a AND page_mask)) AND NOT page_mask = p" if "p AND page_mask = 0"
proof (rule bit_word_eqI)
  fix n assume "n < LENGTH(64)"
  moreover have "\<not> (bit p n \<and> bit page_mask n)" using arg_cong [OF that, of "\<lambda>w. bit w n"] by (simp add: bit_and_iff)
  ultimately show "bit ((p OR (a AND page_mask)) AND NOT page_mask) n = bit p n"
    by (auto simp: bit_and_iff bit_or_iff bit_not_iff)
qed

text \<open>The loop finds the leaf of the table and checks it.\<close>

lemma walk_step:
  "walk_loop xlen m vm addr type mode False mxr base (i # is) =
     xbind (table_entry m vm addr type base i) (\<lambda>pte.
       if PTE_TABLE pte then walk_loop xlen m vm addr type mode False mxr (push_bit PGSHIFT (drop_bit PTE_PPN_SHIFT pte)) is
       else if leaf_grants pte type mode (get_field (mstatus (proc m)) MSTATUS_SUM \<noteq> 0) mxr \<and>
           drop_bit PTE_PPN_SHIFT pte AND (push_bit (i * idxbits vm) 1 - 1) = 0
         then Inr (leaf_page (drop_bit PTE_PPN_SHIFT pte) (drop_bit PGSHIFT addr) (i * idxbits vm))
         else Inl (page_exception addr type))"
  unfolding walk_loop.simps(2) Let_def s2xlate_id xbind_simps table_entry_def [symmetric] superpage_misaligned_def grants_iff
    page_or [OF leaf_page_aligned]
  by (cases "table_entry m vm addr type base i") auto

declare walk_loop.simps(2) [simp del]

lemma walk_loop_table:
  "walk_loop xlen m vm addr type mode False mxr base (rev [0 ..< Suc i]) = Inr page \<longleftrightarrow>
     (\<exists>j pte. leaf_below m vm addr type base i j pte \<and>
        leaf_grants pte type mode (get_field (mstatus (proc m)) MSTATUS_SUM \<noteq> 0) mxr \<and>
        drop_bit PTE_PPN_SHIFT pte AND (push_bit (j * idxbits vm) 1 - 1) = 0 \<and>
        page = leaf_page (drop_bit PTE_PPN_SHIFT pte) (drop_bit PGSHIFT addr) (j * idxbits vm))"
    (is "_ \<longleftrightarrow> ?ok base i")
proof (induction i arbitrary: base)
  case 0
  show ?case
  proof (cases "table_entry m vm addr type base 0")
    case (Inr pte)
    have "leaf_below m vm addr type base 0 j q \<longleftrightarrow> \<not> PTE_TABLE pte \<and> j = 0 \<and> q = pte" for j q
      using Inr by (auto intro: leaf_here elim!: leaf_belowE)
    then show ?thesis using Inr by (auto simp: walk_step)
  qed (auto simp: walk_step elim!: leaf_belowE)
next
  case (Suc i)
  have list: "rev [0 ..< Suc (Suc i)] = Suc i # rev [0 ..< Suc i]" by simp
  show ?case
  proof (cases "table_entry m vm addr type base (Suc i)")
    case (Inr pte)
    show ?thesis
    proof (cases "PTE_TABLE pte")
      case True
      have "leaf_below m vm addr type base (Suc i) j q \<longleftrightarrow>
          leaf_below m vm addr type (push_bit PGSHIFT (drop_bit PTE_PPN_SHIFT pte)) i j q" for j q
        by (rule iffI, erule leaf_belowE) (use Inr True leaf_down in simp_all)
      then show ?thesis unfolding list walk_step Inr xbind_simps if_P [OF True] Suc.IH by (simp only:)
    next
      case False
      have "leaf_below m vm addr type base (Suc i) j q \<longleftrightarrow> j = Suc i \<and> q = pte" for j q
        by (rule iffI, erule leaf_belowE) (use Inr False leaf_here in simp_all)
      then show ?thesis unfolding list walk_step Inr xbind_simps if_not_P [OF False] by auto
    qed
  qed (unfold list walk_step xbind_simps, simp, safe, erule leaf_belowE, simp_all)
qed

lemma decode_cases:
  assumes "decode_vm_info xlen False mode atp = Inr vm"
  shows "levels vm = 0 \<or> (levels vm, idxbits vm) \<in> {(2, 10), (3, 9), (4, 9), (5, 9), (6, 9)}"
  using assms by (auto simp: decode_vm_info_def Let_def bare_vm_def split: if_split_asm)

lemma walk_table:
  assumes "decode_vm_info xlen False mode (satp (proc m)) = Inr vm" "0 < levels vm"
  shows "walk xlen m addr type mode False mxr = Inr page \<longleftrightarrow> canonical xlen vm addr \<and>
     (\<exists>j pte. leaf_below m vm addr type (ptbase vm) (levels vm - 1) j pte \<and>
        leaf_grants pte type mode (get_field (mstatus (proc m)) MSTATUS_SUM \<noteq> 0) mxr \<and>
        drop_bit PTE_PPN_SHIFT pte AND (push_bit (j * idxbits vm) 1 - 1) = 0 \<and>
        page = leaf_page (drop_bit PTE_PPN_SHIFT pte) (drop_bit PGSHIFT addr) (j * idxbits vm))"
    (is "_ \<longleftrightarrow> _ \<and> ?leaf")
proof -
  have n: "rev [0 ..< levels vm] = rev [0 ..< Suc (levels vm - 1)]" using assms(2) by simp
  have msk: "push_bit k 1 - 1 = (mask k :: reg_t)" for k by (simp add: mask_eq_exp_minus_1 push_bit_eq_mult)
  have "walk xlen m addr type mode False mxr =
      walk_loop xlen m vm addr type mode False mxr (ptbase vm) (rev [0 ..< if canonical xlen vm addr then levels vm else 0])"
    unfolding walk_def Let_def if_False assms(1) xbind_simps canonical_def msk using assms(2) by auto
  then show ?thesis using walk_loop_table [of xlen m vm addr type mode mxr "ptbase vm" "levels vm - 1" page] n by auto
qed

text \<open>
  C33.  Address translation is the walk of the page table.  Outside a virtual machine, with a translation mode on,
  an access to an address is translated to a physical address exactly when the address is canonical for the
  mode, the table in memory has a leaf for it, the leaf is valid, accessed (and dirty, for a store) and grants
  this kind of access to this privilege level, a superpage is aligned, and the protection registers allow the
  access; the physical address is that of the leaf with the page offset.
\<close>

theorem translate_refines_page_table:
  assumes "access_mode (proc m) type flags = (mode, False, mxr)"
    and "decode_vm_info xlen False mode (satp (proc m)) = Inr vm" "0 < levels vm"
  shows "translate xlen m addr len type flags = Inr pa \<longleftrightarrow> canonical xlen vm addr \<and>
     (\<exists>j pte. leaf_below m vm addr type (ptbase vm) (levels vm - 1) j pte \<and>
        leaf_grants pte type mode (get_field (mstatus (proc m)) MSTATUS_SUM \<noteq> 0) mxr \<and>
        drop_bit PTE_PPN_SHIFT pte AND (push_bit (j * idxbits vm) 1 - 1) = 0 \<and>
        pa = leaf_page (drop_bit PTE_PPN_SHIFT pte) (drop_bit PGSHIFT addr) (j * idxbits vm) OR (addr AND page_mask)) \<and>
     pmp_ok (proc m) pa len type mode"
proof -
  have "translate xlen m addr len type flags = Inr pa \<longleftrightarrow>
      (\<exists>page. walk xlen m addr type mode False mxr = Inr page \<and> pa = page OR (addr AND page_mask) \<and> pmp_ok (proc m) pa len type mode)"
    unfolding translate_def assms(1) by (cases "walk xlen m addr type mode False mxr") (auto simp: Let_def)
  then show ?thesis unfolding walk_table [OF assms(2,3)] by blast
qed

section \<open>An example\<close>

text \<open>A supervisor with a root table of one superpage, which maps the lowest gigabyte to the memory at 2 GiB.\<close>

definition example_machine :: "unit machine_t" where
  "example_machine = \<lparr>proc = example_hart\<lparr>prv := PRV_S, satp := 0x8000000000080000\<rparr>,
     host = (\<lambda>_. 0)(0x100000 := 0xCF, 0x100003 := 0x20), bus = add_device 0x80000000 (mem_dev 0x10000000 0x100000) [],
     io = (), matched_trigger = None\<rparr>"

definition example_vm :: vm_info where
  "example_vm = \<lparr>levels = 3, idxbits = 9, widenbits = 0, ptesize = 8, ptbase = 0x80000000\<rparr>"

theorem translate_refines_page_table_witness:
  "canonical 64 example_vm 0x1234 \<and>
     (\<exists>j pte. leaf_below example_machine example_vm 0x1234 LOAD (ptbase example_vm) (levels example_vm - 1) j pte \<and>
        leaf_grants pte LOAD PRV_S (get_field (mstatus (proc example_machine)) MSTATUS_SUM \<noteq> 0) False \<and>
        drop_bit PTE_PPN_SHIFT pte AND (push_bit (j * idxbits example_vm) 1 - 1) = 0 \<and>
        0x80001234 = leaf_page (drop_bit PTE_PPN_SHIFT pte) (drop_bit PGSHIFT 0x1234) (j * idxbits example_vm) OR (0x1234 AND page_mask)) \<and>
     pmp_ok (proc example_machine) 0x80001234 4 LOAD PRV_S"
proof (rule translate_refines_page_table [THEN iffD1])
  show "access_mode (proc example_machine) LOAD 0 = (PRV_S, False, False)" by code_simp
  show "decode_vm_info 64 False PRV_S (satp (proc example_machine)) = Inr example_vm" by code_simp
  show "0 < levels example_vm" by code_simp
  show "translate 64 example_machine 0x1234 4 LOAD 0 = Inr 0x80001234" by code_simp
qed

section \<open>No abort\<close>

lemma trap_exceptions:
  "\<exists>t. access_exception addr type = Mem_trap t" "\<exists>t. page_exception addr type = Mem_trap t"
  by (simp_all add: access_exception_def page_exception_def)

lemma load_pte_trap: "load_pte m addr type sz a = Inl e \<Longrightarrow> \<exists>t. e = Mem_trap t"
  by (auto simp: load_pte_def trap_exceptions split: option.split_asm if_split_asm)

lemma walk_loop_trap: "walk_loop xlen m vm addr type mode False mxr base is = Inl e \<Longrightarrow> \<exists>t. e = Mem_trap t"
proof (induction "is" arbitrary: base)
  case Nil
  then show ?case by (auto simp: trap_exceptions)
next
  case (Cons i "is")
  show ?case
  proof (cases "table_entry m vm addr type base i")
    case (Inl e')
    then show ?thesis using load_pte_trap [of m addr type "ptesize vm" _ e'] Cons.prems by (auto simp: walk_step table_entry_def)
  next
    case (Inr pte)
    then show ?thesis using Cons by (auto simp: walk_step trap_exceptions split: if_split_asm)
  qed
qed

lemma walk_trap:
  assumes "decode_vm_info xlen False mode (satp (proc m)) = Inr vm" "walk xlen m addr type mode False mxr = Inl e"
  shows "\<exists>t. e = Mem_trap t"
proof (cases "levels vm = 0")
  case False
  then show ?thesis using assms(2) walk_loop_trap unfolding walk_def if_False assms(1) xbind_simps Let_def by metis
qed (use assms in \<open>simp add: walk_def\<close>)

lemma priv_modes:
  assumes "priv_inv xlen h"
  shows "get_field (mstatus h) MSTATUS_MPP = PRV_U \<or> get_field (mstatus h) MSTATUS_MPP = PRV_S \<or>
    get_field (mstatus h) MSTATUS_MPP = PRV_M"
proof -
  have "priv_core xlen (h\<lparr>prv := get_field (mstatus h) MSTATUS_MPP\<rparr>)"
    using assms field_le_3 [of "mstatus h"]
    by (simp add: priv_inv_def priv_core_def legal_mpp_def pmp_wf_def
        legalize_cong [of "h\<lparr>prv := get_field (mstatus h) MSTATUS_MPP\<rparr>" h])
  then show ?thesis using privilege_levels by fastforce
qed

lemma access_mode_plain:
  assumes "priv_inv xlen h"
  obtains mode mxr where "access_mode h type 0 = (mode, False, mxr)" "mode = PRV_U \<or> mode = PRV_S \<or> mode = PRV_M"
proof -
  have "\<not> v h" "get_field (mstatus h) MSTATUS_MPV = 0" and p: "prv h = PRV_U \<or> prv h = PRV_S \<or> prv h = PRV_M"
    using assms privilege_levels by (auto simp: priv_inv_def priv_core_def flag_reads)
  then show ?thesis using that p priv_modes [OF assms] by (cases "access_mode h type 0") (auto simp: access_mode_def Let_def split: if_split_asm)
qed

lemma decode_known:
  assumes "xlen = 32 \<or> xlen = 64" "mode = PRV_U \<or> mode = PRV_S \<or> mode = PRV_M" "satp_legal xlen atp"
  obtains vm where "decode_vm_info xlen False mode atp = Inr vm"
proof -
  have "get_field atp SATP32_MODE = 0 \<or> get_field atp SATP32_MODE = 1"
    using bit_field [of 31 atp] by (simp add: SATP32_MODE_def)
  then show ?thesis using that assms by (auto simp: decode_vm_info_def satp_legal_def Let_def split: if_split_asm)
qed

text \<open>
  C34.  Translation always gives a result: on a hart with the invariant of the privileged state, an ordinary access
  to any address of any kind is translated or raises a trap; it never ends the simulator.
\<close>

theorem translate_never_aborts:
  assumes "priv_inv xlen (proc m)" "xlen = 32 \<or> xlen = 64"
  shows "(\<exists>pa. translate xlen m addr len type 0 = Inr pa) \<or> (\<exists>t. translate xlen m addr len type 0 = Inl (Mem_trap t))"
proof -
  obtain mode mxr where mode: "access_mode (proc m) type 0 = (mode, False, mxr)" "mode = PRV_U \<or> mode = PRV_S \<or> mode = PRV_M"
    by (rule access_mode_plain [OF assms(1)])
  have "satp_legal xlen (satp (proc m))" using assms(1) by (simp add: priv_inv_def priv_core_def)
  then obtain vm where "decode_vm_info xlen False mode (satp (proc m)) = Inr vm" by (rule decode_known [OF assms(2) mode(2)])
  then show ?thesis using walk_trap [of xlen mode m vm addr type mxr]
    by (cases "walk xlen m addr type mode False mxr") (auto simp: translate_def mode(1) Let_def trap_exceptions)
qed

theorem translate_never_aborts_witness:
  "(\<exists>pa. translate 64 (example_machine\<lparr>proc := example_hart\<rparr>) 0x80000000 8 STORE 0 = Inr pa) \<or>
   (\<exists>t. translate 64 (example_machine\<lparr>proc := example_hart\<rparr>) 0x80000000 8 STORE 0 = Inl (Mem_trap t))"
proof (rule translate_never_aborts)
  show "priv_inv 64 (proc (example_machine\<lparr>proc := example_hart\<rparr>))"
    unfolding example_hart_def by (simp add: hart_reset_inv blank_hart_def)
qed simp

end
