(* ===== verification/RV_Tlb.thy ===== *)
theory RV_Tlb
  imports RV_Translate
begin

text \<open>
  The translation cache is transparent: a load through it returns what the page walk would give.
\<close>

section \<open>What a translation depends on\<close>

text \<open>Two machines with the same hart, but for the memory management unit's own state, memory and bus.\<close>

definition same_world :: "'d machine_t \<Rightarrow> 'd machine_t \<Rightarrow> bool" where
  "same_world m m' \<longleftrightarrow> proc m' = (proc m)\<lparr>mmu := mmu (proc m')\<rparr> \<and> host m' = host m \<and> bus m' = bus m"

lemma pmp_mmu [simp]:
  "pmp_tor (h\<lparr>mmu := x\<rparr>) = pmp_tor h" "pmp_napot_mask (h\<lparr>mmu := x\<rparr>) = pmp_napot_mask h" "pmp_match (h\<lparr>mmu := x\<rparr>) = pmp_match h"
  by (simp_all add: fun_eq_iff pmp_tor_def pmp_napot_mask_def pmp_match_def pmp_tor_mask_def)

lemma pmp_loop_mmu [simp]: "pmp_loop (h\<lparr>mmu := x\<rparr>) is base addr len type mode = pmp_loop h is base addr len type mode"
  by (induction "is" arbitrary: base) (simp_all add: Let_def)

lemma pmp_ok_mmu [simp]: "pmp_ok (h\<lparr>mmu := x\<rparr>) addr len type mode = pmp_ok h addr len type mode"
  by (simp add: pmp_ok_def)

lemma homogeneous_mmu [simp]: "homogeneous_loop (h\<lparr>mmu := x\<rparr>) is base addr len = homogeneous_loop h is base addr len"
  by (induction "is" arbitrary: base) (simp_all add: Let_def)

lemma access_mode_mmu [simp]: "access_mode (h\<lparr>mmu := x\<rparr>) type flags = access_mode h type flags"
  unfolding access_mode_def Let_def by simp

lemma same_worldE:
  assumes "same_world m m'"
  obtains x where "proc m' = (proc m)\<lparr>mmu := x\<rparr>" "host m' = host m" "bus m' = bus m"
  using assms by (auto simp: same_world_def)

lemma walk_world:
  assumes "same_world m m'"
  shows "walk xlen m' addr type mode False mxr = walk xlen m addr type mode False mxr"
proof -
  obtain x where m': "proc m' = (proc m)\<lparr>mmu := x\<rparr>" "host m' = host m" "bus m' = bus m" using assms by (rule same_worldE)
  have "table_entry m' vm addr type base i = table_entry m vm addr type base i" for vm base i
    by (simp add: table_entry_def load_pte_def m' split: option.split)
  then have "walk_loop xlen m' vm addr type mode False mxr base is = walk_loop xlen m vm addr type mode False mxr base is" for vm base "is"
    by (induction "is" arbitrary: base) (simp_all add: walk_step m' cong: if_cong)
  then show ?thesis by (simp add: walk_def m' Let_def cong: if_cong)
qed

lemma translate_world:
  assumes "same_world m m'" "access_mode (proc m) type flags = (mode, False, mxr)"
  shows "translate xlen m' addr len type flags = translate xlen m addr len type flags"
proof -
  obtain x where m': "proc m' = (proc m)\<lparr>mmu := x\<rparr>" using assms(1) by (rule same_worldE)
  have "access_mode (proc m') type flags = (mode, False, mxr)" using assms(2) by (simp add: m')
  then show ?thesis unfolding translate_def assms(2) by (simp add: walk_world [OF assms(1)] m' Let_def)
qed

section \<open>Pages\<close>

lemma page_decompose: "(a AND NOT page_mask) OR (a AND page_mask) = (a :: reg_t)"
  by (rule bit_word_eqI) (auto simp: bit_and_iff bit_or_iff bit_not_iff)

lemma page_as_shift: "a AND NOT page_mask = push_bit PGSHIFT (drop_bit PGSHIFT a)" for a :: reg_t
  unfolding page_mask_eq
  by (rule bit_word_eqI) (simp only: bit_and_iff bit_not_iff bit_mask_iff bit_push_bit_iff bit_drop_bit_eq, auto)

lemma drop_page: "drop_bit PGSHIFT (a AND NOT page_mask) = drop_bit PGSHIFT a" for a :: reg_t
  unfolding page_mask_eq
  by (rule bit_word_eqI) (auto simp only: bit_and_iff bit_not_iff bit_mask_iff bit_drop_bit_eq comp_apply intro: bit_imp_possible_bit)

lemma same_page_iff: "drop_bit PGSHIFT a = drop_bit PGSHIFT b \<longleftrightarrow> a AND NOT page_mask = b AND NOT page_mask" for a b :: reg_t
  by (metis page_as_shift drop_page)

lemma drop_more: "drop_bit PGSHIFT a = drop_bit PGSHIFT b \<Longrightarrow> drop_bit (PGSHIFT + k) a = drop_bit (PGSHIFT + k) b" for a b :: reg_t
  by (simp only: add.commute [of PGSHIFT k] drop_bit_drop_bit [symmetric])

lemma walk_aligned:
  assumes "walk xlen m addr type mode False mxr = Inr p"
  shows "p AND page_mask = 0"
proof -
  have zero: "(x AND NOT page_mask) AND page_mask = 0" for x :: reg_t
    by (rule bit_word_eqI) (simp add: bit_and_iff bit_not_iff)
  obtain vm where vm: "decode_vm_info xlen False mode (satp (proc m)) = Inr vm"
    using assms by (cases "decode_vm_info xlen False mode (satp (proc m))") (simp_all add: walk_def)
  show ?thesis
  proof (cases "levels vm = 0")
    case True
    then show ?thesis using assms vm zero by (auto simp: walk_def)
  next
    case False
    then show ?thesis using assms walk_table [OF vm, of addr type mxr p] leaf_page_aligned by auto
  qed
qed

text \<open>The table has one leaf for a page, whatever the offset and the kind of the access.\<close>

lemma table_entry_page:
  assumes "table_entry m vm a type base i = Inr pte" "drop_bit PGSHIFT a = drop_bit PGSHIFT b"
  shows "table_entry m vm b type' base i = Inr pte"
  using assms drop_more [OF assms(2)]
  by (auto simp: table_entry_def load_pte_def split: option.split_asm if_split_asm)

lemma leaf_page_indep:
  assumes "leaf_below m vm a type base i j pte" "drop_bit PGSHIFT a = drop_bit PGSHIFT b"
  shows "leaf_below m vm b type' base i j pte"
  using assms
proof (induction rule: leaf_below.induct)
  case (leaf_down m vm addr type base i pte j pte')
  then show ?case using leaf_below.leaf_down [OF table_entry_page [OF leaf_down.hyps(1) leaf_down.prems]] by blast
qed (auto intro: leaf_below.leaf_here table_entry_page)

lemma leaf_unique:
  assumes "leaf_below m vm a type base i j pte" "leaf_below m vm a type base i j' pte'"
  shows "j' = j \<and> pte' = pte"
  using assms
proof (induction rule: leaf_below.induct)
  case (leaf_here m vm addr type base i pte)
  from leaf_here.prems show ?case by (rule leaf_belowE) (use leaf_here.hyps in auto)
next
  case (leaf_down m vm addr type base i pte j pte'')
  from leaf_down.prems show ?case by (rule leaf_belowE) (use leaf_down in auto)
qed

lemma walk_same_page:
  assumes "walk xlen m a type mode False mxr = Inr p" "drop_bit PGSHIFT a = drop_bit PGSHIFT b"
  shows "walk xlen m b type mode False mxr = Inr p" "walk xlen m b type' mode False mxr' = Inr q \<Longrightarrow> q = p"
proof -
  obtain vm where vm: "decode_vm_info xlen False mode (satp (proc m)) = Inr vm"
    using assms by (cases "decode_vm_info xlen False mode (satp (proc m))") (simp_all add: walk_def)
  have "walk xlen m b type mode False mxr = Inr p \<and> (walk xlen m b type' mode False mxr' = Inr q \<longrightarrow> q = p)"
  proof (cases "levels vm = 0")
    case True
    have "(x AND y) AND NOT page_mask = (x AND NOT page_mask) AND y" for x y :: reg_t by (simp add: ac_simps)
    then show ?thesis using assms True by (auto simp: walk_def vm same_page_iff)
  next
    case False
    then have lv: "0 < levels vm" by simp
    obtain k where k: "PGSHIFT + levels vm * idxbits vm - 1 = PGSHIFT + k"
      using decode_cases [OF vm] False by (auto simp: le_iff_add)
    have can: "canonical xlen vm b = canonical xlen vm a"
      unfolding canonical_def Let_def k drop_more [OF assms(2)] ..
    obtain j pte where leaf: "leaf_below m vm a type (ptbase vm) (levels vm - 1) j pte"
      and p: "p = leaf_page (drop_bit PTE_PPN_SHIFT pte) (drop_bit PGSHIFT a) (j * idxbits vm)"
      using assms(1) unfolding walk_table [OF vm lv] by blast
    show ?thesis
    proof (intro conjI impI)
      show "walk xlen m b type mode False mxr = Inr p"
        using assms(1) leaf_page_indep [OF _ assms(2)] unfolding walk_table [OF vm lv] can assms(2) by blast
      assume "walk xlen m b type' mode False mxr' = Inr q"
      then obtain j' pte' where "leaf_below m vm b type' (ptbase vm) (levels vm - 1) j' pte'"
        and q: "q = leaf_page (drop_bit PTE_PPN_SHIFT pte') (drop_bit PGSHIFT b) (j' * idxbits vm)"
        unfolding walk_table [OF vm lv] by blast
      then show "q = p" using leaf_unique [OF leaf_page_indep [OF leaf assms(2)]] p q assms(2) by simp
    qed
  qed
  then show "walk xlen m b type mode False mxr = Inr p" "walk xlen m b type' mode False mxr' = Inr q \<Longrightarrow> q = p" by blast+
qed

lemma unat_page: "unat (a AND page_mask) = unat a mod 4096" for a :: reg_t
proof -
  have "a AND page_mask = take_bit 12 a" by (simp add: page_mask_eq take_bit_eq_mask)
  then show ?thesis by (simp add: unsigned_take_bit_eq take_bit_nat_def)
qed

lemma aligned_unat: "p AND page_mask = 0 \<longleftrightarrow> unat p mod 4096 = 0" for p :: reg_t
  using unat_page [of p] by (metis unat_0 unsigned_eq_0_iff)

lemma unat_page_or:
  fixes p a :: reg_t
  assumes "p AND page_mask = 0"
  shows "unat (p OR (a AND page_mask)) = unat p + unat a mod 4096"
proof -
  have "\<not> bit p n \<or> \<not> bit (a AND page_mask) n" for n
    using arg_cong [OF assms, of "\<lambda>w. bit w n"] by (auto simp: bit_and_iff)
  then have "p OR (a AND page_mask) = p + (a AND page_mask)" by (simp add: disjunctive_add)
  moreover have "unat p + 2 ^ 12 \<le> 2 ^ 64" by (rule page_end) (use assms aligned_unat in simp_all)
  then have "unat p + unat (a AND page_mask) < 2 ^ 64" using unat_page [of a] by (simp add: less_le_trans [OF add_strict_left_mono])
  ultimately show ?thesis using unat_page [of a] unat_add_lem [of p "a AND page_mask"] by simp
qed

lemma translate_page:
  assumes "pmp_wf (proc m)" "access_mode (proc m) type 0 = (mode, False, mxr)" "translate xlen m a len type 0 = Inr pa"
    "pmp_homogeneous (proc m) (pa AND NOT page_mask) (push_bit PGSHIFT 1) = Some True"
    "natural_access a len" "natural_access b len'" "drop_bit PGSHIFT a = drop_bit PGSHIFT b"
  shows "translate xlen m b len' type 0 = Inr ((pa AND NOT page_mask) OR (b AND page_mask))"
proof -
  obtain p where p: "walk xlen m a type mode False mxr = Inr p" "pa = p OR (a AND page_mask)" "pmp_ok (proc m) pa len type mode"
    using assms(3) unfolding translate_def assms(2)
    by (cases "walk xlen m a type mode False mxr") (auto simp: Let_def split: if_split_asm)
  have al: "p AND page_mask = 0" by (rule walk_aligned [OF p(1)])
  then have pg: "pa AND NOT page_mask = p" unfolding p(2) by (rule page_or)
  have "inside p 4096 (p OR (x AND page_mask)) l" if "natural_access x l" for x l
  proof -
    have "l dvd 4096" using that by (auto simp: natural_access_def)
    then have "l dvd unat p" using al aligned_unat by (metis dvd_trans mod_0_imp_dvd)
    moreover have "unat x mod 4096 mod l = 0" using that \<open>l dvd 4096\<close> by (simp add: mod_mod_cancel natural_access_def)
    moreover have "unat x mod 4096 + l \<le> 4096"
    proof -
      obtain c d where cd: "unat x mod 4096 = l * c" "4096 = l * d"
        using \<open>unat x mod 4096 mod l = 0\<close> \<open>l dvd 4096\<close> by (metis mod_0_imp_dvd dvdE)
      have "l * c < l * d" unfolding cd(1) [symmetric] cd(2) [symmetric] by simp
      then have "l * Suc c \<le> l * d" by (intro mult_le_mono) auto
      then show ?thesis using cd by simp
    qed
    ultimately show ?thesis using that by (auto simp: inside_def natural_access_def unat_page_or [OF al])
  qed
  then have "pmp_ok (proc m) (p OR (b AND page_mask)) len' type mode"
    using pmp_homogeneous_sound [OF assms(1) assms(4) [unfolded pg]] assms(5,6) p(2,3) by metis
  then show ?thesis using walk_same_page(1) [OF p(1) assms(7)] unfolding translate_def assms(2) pg by simp
qed

section \<open>Memory\<close>

definition bus_aligned :: "(reg_t \<times> device) list \<Rightarrow> bool" where
  "bus_aligned b \<longleftrightarrow> list_all (\<lambda>(base, d). base AND page_mask = 0 \<and>
     (case d of mem_dev sz c \<Rightarrow> sz AND page_mask = 0 | io_dev n \<Rightarrow> True)) b"

lemma page_quotient: "drop_bit PGSHIFT a = drop_bit PGSHIFT b \<longleftrightarrow> unat a div 4096 = unat b div 4096" for a b :: reg_t
  by (simp add: word_unat_eq_iff drop_bit_eq_div unat_div)

lemma find_device_mem: "find_device b a = Some (base, d) \<Longrightarrow> (base, d) \<in> set b \<and> base \<le> a"
proof -
  assume f: "find_device b a = Some (base, d)"
  define xs where "xs = filter (\<lambda>(base, d). base \<le> a) b"
  have "xs \<noteq> [] \<and> last xs = (base, d)" using f unfolding find_device_def xs_def [symmetric] by (cases xs) auto
  then have "(base, d) \<in> set xs" using last_in_set [of xs] by simp
  then show ?thesis by (simp add: xs_def)
qed

lemma mem_page:
  assumes "bus_aligned b" "addr_to_mem b pa = Some hp" "drop_bit PGSHIFT pa = drop_bit PGSHIFT pb"
  shows "addr_to_mem b pb = Some (hp + (pb - pa))"
proof -
  have le: "(base \<le> pa) = (base \<le> pb)" if "(base, d) \<in> set b" for base d
  proof -
    have "unat base mod 4096 = 0" using assms(1) that aligned_unat by (fastforce simp: bus_aligned_def list_all_iff)
    then have "unat base \<le> x \<longleftrightarrow> unat base div 4096 \<le> x div 4096" for x
      by (metis div_le_mono div_mult_self_is_m dvd_div_mult_self less_eq_div_iff_mult_less_eq mod_0_imp_dvd zero_less_numeral)
    then show ?thesis using assms(3) by (simp add: page_quotient word_le_nat_alt)
  qed
  have "filter (\<lambda>(base, d). base \<le> pa) b = filter (\<lambda>(base, d). base \<le> pb) b" by (rule filter_cong) (use le in auto)
  then have dev: "find_device b pb = find_device b pa" by (simp add: find_device_def)
  have ok: "paddr_ok pb = paddr_ok pa" using drop_more [OF assms(3), of 20] by (simp add: paddr_ok_def)
  obtain base sz c where f: "find_device b pa = Some (base, mem_dev sz c)" "pa - base < sz" "hp = c + (pa - base)" "paddr_ok pa"
    using assms(2) by (auto simp: addr_to_mem_def split: if_split_asm option.split_asm device.split_asm)
  have mem: "(base, mem_dev sz c) \<in> set b" "base \<le> pa" using find_device_mem [OF f(1)] by simp_all
  have sz: "unat base mod 4096 = 0" "unat sz mod 4096 = 0"
    using assms(1) mem(1) aligned_unat by (fastforce simp: bus_aligned_def list_all_iff)+
  have q: "x - unat base < unat sz \<longleftrightarrow> x div 4096 - unat base div 4096 < unat sz div 4096" if "unat base \<le> x" for x
  proof -
    define k r d where "k = x div 4096" and "r = x mod 4096" and "d = k - unat base div 4096"
    have "unat base = 4096 * (unat base div 4096)" "unat sz = 4096 * (unat sz div 4096)" using sz by auto
    moreover have "x = 4096 * k + r" "r < 4096" by (simp_all add: k_def r_def)
    moreover have "unat base div 4096 \<le> k" unfolding k_def using that by (rule div_le_mono)
    ultimately have "x - unat base = 4096 * d + r" "r < 4096" "unat sz = 4096 * (unat sz div 4096)" unfolding d_def by linarith+
    then show ?thesis unfolding d_def [symmetric] k_def [symmetric] by linarith
  qed
  have "pb - base < sz"
    using f(2) mem le [OF mem(1)] q [of "unat pa"] q [of "unat pb"] assms(3)
    by (simp add: word_less_nat_alt unat_sub page_quotient word_le_nat_alt)
  then show ?thesis using f by (simp add: addr_to_mem_def ok dev)
qed

section \<open>Coherence of the cache\<close>

fun tlb_tags :: "access_type \<Rightarrow> mmu_t \<Rightarrow> reg_t list" where
  "tlb_tags LOAD u = tlb_load_tag u"
| "tlb_tags STORE u = tlb_store_tag u"
| "tlb_tags FETCH u = tlb_insn_tag u"

definition tlb_hit :: "access_type \<Rightarrow> mmu_t \<Rightarrow> reg_t \<Rightarrow> bool" where
  "tlb_hit type u vpn \<longleftrightarrow> tlb_tags type u ! tlb_index vpn = vpn \<or> tlb_tags type u ! tlb_index vpn = vpn OR TLB_CHECK_TRIGGERS"

definition tlb_sizes :: "mmu_t \<Rightarrow> bool" where
  "tlb_sizes u \<longleftrightarrow> length (tlb_load_tag u) = TLB_ENTRIES \<and> length (tlb_store_tag u) = TLB_ENTRIES \<and>
     length (tlb_insn_tag u) = TLB_ENTRIES \<and> length (tlb_data u) = TLB_ENTRIES"

text \<open>A hit stands for a translation, and the entry leads to the byte of host memory behind the physical address.\<close>

definition tlb_coherent :: "nat \<Rightarrow> 'd machine_t \<Rightarrow> bool" where
  "tlb_coherent xlen m \<longleftrightarrow>
     (\<forall>type a len. tlb_hit type (mmu (proc m)) (drop_bit PGSHIFT a) \<longrightarrow> natural_access a len \<longrightarrow>
        (\<exists>pa. translate xlen m a len type 0 = Inr pa \<and>
           addr_to_mem (bus m) pa = Some (host_offset (tlb_data (mmu (proc m)) ! tlb_index (drop_bit PGSHIFT a)) + a)))"

lemma tlb_index_less: "tlb_index vpn < TLB_ENTRIES"
proof -
  have "unat vpn mod 256 < 256" by simp
  then show ?thesis by (simp add: tlb_index_def unat_mod)
qed

lemma vpn_high: "12 + n \<ge> 64 \<Longrightarrow> \<not> bit (drop_bit PGSHIFT a) n" for a :: reg_t
  by (auto simp: bit_drop_bit_eq dest: bit_imp_le_length)

lemma tag_vpn:
  fixes a :: reg_t
  shows "drop_bit PGSHIFT a AND NOT TLB_CHECK_TRIGGERS = drop_bit PGSHIFT a"
    and "(drop_bit PGSHIFT a OR TLB_CHECK_TRIGGERS) AND NOT TLB_CHECK_TRIGGERS = drop_bit PGSHIFT a"
    and "drop_bit PGSHIFT a \<noteq> - 1" and "drop_bit PGSHIFT a OR TLB_CHECK_TRIGGERS \<noteq> - 1"
proof -
  have c: "bit TLB_CHECK_TRIGGERS n \<longleftrightarrow> n = 63" for n
    unfolding TLB_CHECK_TRIGGERS_def by (simp only: bit_push_bit_iff bit_1_iff) auto
  show "drop_bit PGSHIFT a AND NOT TLB_CHECK_TRIGGERS = drop_bit PGSHIFT a"
    "(drop_bit PGSHIFT a OR TLB_CHECK_TRIGGERS) AND NOT TLB_CHECK_TRIGGERS = drop_bit PGSHIFT a"
    by (rule bit_word_eqI; use vpn_high [of 63 a] in \<open>auto simp: bit_and_iff bit_or_iff bit_not_iff c\<close>)+
  have "\<not> bit (drop_bit PGSHIFT a) 60" "\<not> bit (drop_bit PGSHIFT a OR TLB_CHECK_TRIGGERS) 60"
    using vpn_high [of 60 a] by (simp_all add: bit_or_iff c)
  moreover have "bit (- 1 :: reg_t) 60" by simp
  ultimately show "drop_bit PGSHIFT a \<noteq> - 1" "drop_bit PGSHIFT a OR TLB_CHECK_TRIGGERS \<noteq> - 1" by metis+
qed

lemma hit_masked:
  "tlb_hit type u (drop_bit PGSHIFT a) \<Longrightarrow> tlb_tags type u ! tlb_index (drop_bit PGSHIFT a) AND NOT TLB_CHECK_TRIGGERS = drop_bit PGSHIFT a"
  "tlb_hit type u (drop_bit PGSHIFT a) \<Longrightarrow> tlb_tags type u ! tlb_index (drop_bit PGSHIFT a) \<noteq> - 1"
  using tag_vpn [of a] by (auto simp: tlb_hit_def)

text \<open>The machines considered: an ordinary hart with no modified privilege for data and no armed trigger.\<close>

definition mach_ok :: "nat \<Rightarrow> 'd machine_t \<Rightarrow> bool" where
  "mach_ok xlen m \<longleftrightarrow> priv_inv xlen (proc m) \<and> bus_aligned (bus m) \<and> get_field (mstatus (proc m)) MSTATUS_MPRV = 0 \<and>
     length (mcontrol (proc m)) = num_triggers \<and>
     list_all (\<lambda>mc. \<not> mc_load mc \<and> \<not> mc_store mc \<and> \<not> mc_execute mc) (mcontrol (proc m)) \<and> tlb_sizes (mmu (proc m))"

lemma plain_mode:
  assumes "mach_ok xlen m"
  shows "access_mode (proc m) type 0 = (prv (proc m), False, get_field (mstatus (proc m)) MSTATUS_MXR \<noteq> 0)"
  using assms by (simp add: mach_ok_def access_mode_def Let_def priv_inv_def priv_core_def)

lemma pmp_of_ok: "mach_ok xlen m \<Longrightarrow> pmp_wf (proc m)"
  by (simp add: mach_ok_def priv_inv_def priv_core_def)

lemma page_offset: "p AND page_mask = 0 \<Longrightarrow> p OR (a AND page_mask) = p + (a AND page_mask)" for p a :: reg_t
proof -
  assume p: "p AND page_mask = 0"
  have "\<not> bit p n \<or> \<not> bit (a AND page_mask) n" for n
    using arg_cong [OF p, of "\<lambda>w. bit w n"] by (auto simp: bit_and_iff)
  then show ?thesis by (simp add: disjunctive_add)
qed

lemma offset_difference:
  assumes "drop_bit PGSHIFT a = drop_bit PGSHIFT b" "p AND page_mask = 0"
  shows "(p OR (b AND page_mask)) - (p OR (a AND page_mask)) = b - a"
proof -
  have zero: "(x AND NOT page_mask) AND page_mask = 0" for x :: reg_t by (rule bit_word_eqI) (simp add: bit_and_iff bit_not_iff)
  have x: "x = (x AND NOT page_mask) + (x AND page_mask)" for x :: reg_t
    using page_offset [OF zero, of x x] page_decompose [of x] by simp
  have "b - a = ((b AND NOT page_mask) + (b AND page_mask)) - ((a AND NOT page_mask) + (a AND page_mask))"
    by (simp only: x [symmetric])
  also have "\<dots> = (b AND page_mask) - (a AND page_mask)" using assms(1) by (simp add: same_page_iff)
  finally show ?thesis by (simp add: page_offset [OF assms(2)])
qed

text \<open>Two translations of a page, for any kinds of access, agree.\<close>

lemma translate_parts:
  assumes "mach_ok xlen m" "translate xlen m a len type 0 = Inr pa"
  obtains p where "walk xlen m a type (prv (proc m)) False (get_field (mstatus (proc m)) MSTATUS_MXR \<noteq> 0) = Inr p"
    "p AND page_mask = 0" "pa = p OR (a AND page_mask)" "pa AND NOT page_mask = p"
proof -
  obtain p where p: "walk xlen m a type (prv (proc m)) False (get_field (mstatus (proc m)) MSTATUS_MXR \<noteq> 0) = Inr p"
    "pa = p OR (a AND page_mask)"
    using assms(2) unfolding translate_def plain_mode [OF assms(1)]
    by (cases "walk xlen m a type (prv (proc m)) False (get_field (mstatus (proc m)) MSTATUS_MXR \<noteq> 0)")
      (auto simp: Let_def split: if_split_asm)
  have al: "p AND page_mask = 0" by (rule walk_aligned [OF p(1)])
  show thesis by (rule that [OF p(1) al p(2)]) (simp add: p(2) page_or [OF al])
qed

lemma translations_agree:
  assumes "mach_ok xlen m" "translate xlen m a len type 0 = Inr pa" "translate xlen m a len' type' 0 = Inr pa'"
  shows "pa' = pa"
proof -
  obtain p where p: "walk xlen m a type (prv (proc m)) False (get_field (mstatus (proc m)) MSTATUS_MXR \<noteq> 0) = Inr p"
    "pa = p OR (a AND page_mask)" by (rule translate_parts [OF assms(1,2)])
  obtain q where q: "walk xlen m a type' (prv (proc m)) False (get_field (mstatus (proc m)) MSTATUS_MXR \<noteq> 0) = Inr q"
    "pa' = q OR (a AND page_mask)" by (rule translate_parts [OF assms(1,3)])
  show ?thesis using walk_same_page(2) [OF p(1) refl q(1)] p(2) q(2) by simp
qed

section \<open>Refills keep the cache coherent\<close>

text \<open>What a refill does to the tags of a kind and to the entries.\<close>

lemma refill_mmu:
  defines "u x y z w h \<equiv> mmu (snd (refill_tlb x y z w h))"
  shows "tlb_tags T (u vaddr paddr host_addr type h) =
      (let idx = tlb_index (drop_bit PGSHIFT vaddr); tags = tlb_evict idx (drop_bit PGSHIFT vaddr) (tlb_tags T (mmu h))
       in if T = type \<and> pmp_homogeneous h (paddr AND NOT page_mask) (push_bit PGSHIFT 1) = Some True
          then tags[idx := drop_bit PGSHIFT vaddr OR (if check_triggers_fetch (mmu h) \<and> type = FETCH \<or>
            check_triggers_load (mmu h) \<and> type = LOAD \<or> check_triggers_store (mmu h) \<and> type = STORE then TLB_CHECK_TRIGGERS else 0)]
          else tags)"
    and "tlb_data (u vaddr paddr host_addr type h) =
      (tlb_data (mmu h))[tlb_index (drop_bit PGSHIFT vaddr) := \<lparr>host_offset = host_addr - vaddr, target_offset = paddr - vaddr\<rparr>]"
  unfolding u_def
  subgoal by (cases T; cases type; simp add: refill_tlb_def Let_def)
  subgoal by (cases type; simp add: refill_tlb_def Let_def)
  done

lemma refill_world: "proc m' = snd (refill_tlb x y z w (proc m)) \<Longrightarrow> host m' = host m \<Longrightarrow> bus m' = bus m \<Longrightarrow> same_world m m'"
  by (simp add: same_world_def refill_tlb_def Let_def)

lemma refill_sizes: "tlb_sizes (mmu h) \<Longrightarrow> tlb_sizes (mmu (snd (refill_tlb x y z w h)))"
  by (cases w; simp add: tlb_sizes_def refill_tlb_def Let_def tlb_evict_def)

lemma mach_ok_world:
  assumes "mach_ok xlen m" "same_world m m'" "tlb_sizes (mmu (proc m'))"
  shows "mach_ok xlen m'"
proof -
  obtain x where m': "proc m' = (proc m)\<lparr>mmu := x\<rparr>" "bus m' = bus m" using assms(2) by (rule same_worldE)
  have "priv_part ((proc m)\<lparr>mmu := x\<rparr>) = priv_part (proc m)" by (simp add: priv_part_def pmp_part_def)
  then have "priv_inv xlen ((proc m)\<lparr>mmu := x\<rparr>) = priv_inv xlen (proc m)" by (rule inv_update) simp
  then show ?thesis using assms(1,3) by (simp add: mach_ok_def m')
qed

lemma refill_coherent:
  fixes m m' :: "'d machine_t"
  assumes "mach_ok xlen m" "tlb_coherent xlen m" "translate xlen m a len type 0 = Inr pa" "natural_access a len"
    "addr_to_mem (bus m) pa = Some hp" "proc m' = snd (refill_tlb a pa hp type (proc m))" "host m' = host m" "bus m' = bus m"
  shows "tlb_coherent xlen m'"
  unfolding tlb_coherent_def
proof (intro allI impI)
  fix T b len'
  define idx where "idx = tlb_index (drop_bit PGSHIFT a)"
  define u where "u = mmu (proc m')"
  assume hit: "tlb_hit T (mmu (proc m')) (drop_bit PGSHIFT b)" and nat: "natural_access b len'"
  have world: "same_world m m'" by (rule refill_world [OF assms(6-8)])
  have trans: "translate xlen m' x l t 0 = translate xlen m x l t 0" for x l t
    by (rule translate_world [OF world plain_mode [OF assms(1)]])
  have sizes: "tlb_sizes (mmu (proc m))" using assms(1) by (simp add: mach_ok_def)
  then have len: "idx < length (tlb_tags T (mmu (proc m)))" "idx < length (tlb_data (mmu (proc m)))"
    using tlb_index_less by (cases T; simp add: tlb_sizes_def idx_def)+
  note mmu = refill_mmu [where vaddr = a and paddr = pa and host_addr = hp and type = type and h = "proc m", folded assms(6) u_def, unfolded Let_def, folded idx_def]
  have old: "\<exists>pb. translate xlen m b len' T 0 = Inr pb \<and>
      addr_to_mem (bus m) pb = Some (host_offset (tlb_data (mmu (proc m)) ! tlb_index (drop_bit PGSHIFT b)) + b)"
    if "tlb_hit T (mmu (proc m)) (drop_bit PGSHIFT b)"
    using assms(2) that nat by (auto simp: tlb_coherent_def)
  show "\<exists>pb. translate xlen m' b len' T 0 = Inr pb \<and>
      addr_to_mem (bus m') pb = Some (host_offset (tlb_data (mmu (proc m')) ! tlb_index (drop_bit PGSHIFT b)) + b)"
  proof (cases "tlb_index (drop_bit PGSHIFT b) = idx")
    case False
    then have "tlb_tags T u ! tlb_index (drop_bit PGSHIFT b) = tlb_tags T (mmu (proc m)) ! tlb_index (drop_bit PGSHIFT b)"
      "tlb_data u ! tlb_index (drop_bit PGSHIFT b) = tlb_data (mmu (proc m)) ! tlb_index (drop_bit PGSHIFT b)"
      unfolding mmu by (simp_all add: tlb_evict_def)
    then show ?thesis using old hit unfolding trans assms(8) u_def [symmetric] by (simp add: tlb_hit_def)
  next
    case True
    have data: "host_offset (tlb_data u ! idx) = hp - a" unfolding mmu using len by simp
    define t where "t = tlb_tags T u ! idx"
    have t: "t AND NOT TLB_CHECK_TRIGGERS = drop_bit PGSHIFT b" "t \<noteq> - 1"
      using hit_masked [OF hit] True by (simp_all add: t_def u_def)
    show ?thesis
    proof (cases "T = type \<and> pmp_homogeneous (proc m) (pa AND NOT page_mask) (push_bit PGSHIFT 1) = Some True")
      case set: True
      then have "t = drop_bit PGSHIFT a \<or> t = drop_bit PGSHIFT a OR TLB_CHECK_TRIGGERS"
        unfolding t_def mmu using len(1) by (auto simp: tlb_evict_def)
      then have page: "drop_bit PGSHIFT a = drop_bit PGSHIFT b" using t(1) tag_vpn [of a] by auto
      obtain p where p: "p AND page_mask = 0" "pa = p OR (a AND page_mask)" "pa AND NOT page_mask = p"
        by (rule translate_parts [OF assms(1,3)])
      have "translate xlen m b len' type 0 = Inr (p OR (b AND page_mask))"
        using translate_page [OF pmp_of_ok [OF assms(1)] plain_mode [OF assms(1)] assms(3) _ assms(4) nat page] set p(3) by simp
      moreover have "drop_bit PGSHIFT pa = drop_bit PGSHIFT (p OR (b AND page_mask))"
        unfolding same_page_iff p(3) by (simp add: page_or [OF p(1)])
      from mem_page [OF _ assms(5) this] have "addr_to_mem (bus m) (p OR (b AND page_mask)) = Some (hp + (b - a))"
        using assms(1) offset_difference [OF page p(1)] p(2) by (simp add: mach_ok_def)
      ultimately show ?thesis using set True data unfolding trans assms(8) u_def [symmetric] by (simp add: algebra_simps)
    next
      case kept: False
      then have tag: "tlb_tags T u = tlb_evict idx (drop_bit PGSHIFT a) (tlb_tags T (mmu (proc m)))" unfolding mmu by auto
      then have k: "tlb_tags T (mmu (proc m)) ! idx AND NOT TLB_CHECK_TRIGGERS = drop_bit PGSHIFT a" and same: "tlb_tags T u = tlb_tags T (mmu (proc m))"
        using t(2) len(1) unfolding t_def by (auto simp: tlb_evict_def split: if_split_asm)
      then have page: "drop_bit PGSHIFT a = drop_bit PGSHIFT b" using t(1) by (simp add: t_def)
      have hit_old: "tlb_hit T (mmu (proc m)) (drop_bit PGSHIFT b)" using hit same by (simp add: tlb_hit_def u_def)
      then have "tlb_hit T (mmu (proc m)) (drop_bit PGSHIFT a)" by (simp add: page)
      then obtain pa' where "translate xlen m a len T 0 = Inr pa'" "addr_to_mem (bus m) pa' = Some (host_offset (tlb_data (mmu (proc m)) ! idx) + a)"
        using assms(2,4) unfolding tlb_coherent_def idx_def by blast
      then have "hp = host_offset (tlb_data (mmu (proc m)) ! idx) + a"
        using translations_agree [OF assms(1,3)] assms(5) by simp
      then show ?thesis using old [OF hit_old] True data unfolding trans assms(8) u_def [symmetric] by auto
    qed
  qed
qed

section \<open>Loads\<close>

lemma mbind_simps [simp]: "mbind (Inl e, m) k = (Inl e, m)" "mbind (Inr x, m) k = k x m"
  by (simp_all add: mbind_def)

lemma no_trigger:
  assumes "mach_ok xlen m"
  shows "check_trigger xlen op addr data m = (Inr (), m)"
proof -
  have "\<not> trigger_applies (mcontrol (proc m) ! i) op p" if "i < num_triggers" for i p
    using assms that by (cases op) (auto simp: mach_ok_def list_all_length trigger_applies_def)
  then have "trigger_loop xlen (proc m) op addr data True is = None" if "set is \<subseteq> {0 ..< num_triggers}" for "is"
    using that by (induction "is") (auto simp: Let_def)
  from this [of "[0 ..< num_triggers]"] show ?thesis by (simp add: check_trigger_def trigger_match_def)
qed

lemma natural_aligned:
  assumes "natural_access a sz"
  shows "\<not> misaligned a sz"
proof -
  have "sz = 2 ^ 0 \<or> sz = 2 ^ 1 \<or> sz = 2 ^ 2 \<or> sz = 2 ^ 3" using assms by (auto simp: natural_access_def)
  then obtain k where k: "sz = 2 ^ k" by blast
  have "a AND (of_nat sz - 1) = take_bit k a" by (simp add: k take_bit_eq_mask mask_eq_exp_minus_1)
  moreover have "unat (take_bit k a) = unat a mod 2 ^ k" by (simp only: unsigned_take_bit_eq take_bit_nat_def)
  then have "unat (take_bit k a) = 0" using assms by (simp add: natural_access_def k)
  ultimately show ?thesis by (simp add: misaligned_def unsigned_eq_0_iff)
qed

text \<open>The access without the cache: its result and the state of the devices after it.\<close>

definition uncached_load :: "'d devices \<Rightarrow> nat \<Rightarrow> bool \<Rightarrow> nat \<Rightarrow> reg_t \<Rightarrow> 'd machine_t \<Rightarrow> reg_t xlate \<times> 'd" where
  "uncached_load dv xlen sg sz addr m =
     (case translate xlen m addr sz LOAD 0 of
        Inl e \<Rightarrow> (Inl e, io m)
      | Inr pa \<Rightarrow>
          (case addr_to_mem (bus m) pa of
             Some hp \<Rightarrow> (Inr (to_type sg sz (host_load (host m) hp sz)), io m)
           | None \<Rightarrow>
               (case mmio_load dv pa sz m of
                  (None, m') \<Rightarrow> (Inl (Mem_trap (trap_load_access_fault addr)), io m')
                | (Some bytes, m') \<Rightarrow> (Inr (to_type sg sz (reg_from_bytes bytes)), io m'))))"

lemma mmio_load_io: "mmio_load dv pa sz m = (r, m') \<Longrightarrow> m' = m\<lparr>io := io m'\<rparr>"
  by (auto simp: mmio_load_def bus_load_def split: if_split_asm option.split_asm device.split_asm prod.split_asm)

lemma coherent_io: "tlb_coherent xlen (m\<lparr>io := d\<rparr>) = tlb_coherent xlen m" if "mach_ok xlen m"
proof -
  have "same_world m (m\<lparr>io := d\<rparr>)" by (simp add: same_world_def)
  from translate_world [OF this plain_mode [OF that]] show ?thesis by (simp add: tlb_coherent_def)
qed

lemma load_transparent:
  assumes "mach_ok xlen m" "tlb_coherent xlen m" "natural_access a sz" "load_func sg sz 0 dv xlen a m = (r, m')"
  shows "uncached_load dv xlen sg sz a m = (r, io m') \<and> same_world m m' \<and> mach_ok xlen m' \<and> tlb_coherent xlen m'"
proof (cases "tlb_hit LOAD (mmu (proc m)) (drop_bit PGSHIFT a)")
  case True
  define off where "off = host_offset (tlb_data (mmu (proc m)) ! tlb_index (drop_bit PGSHIFT a))"
  obtain pa where pa: "translate xlen m a sz LOAD 0 = Inr pa" "addr_to_mem (bus m) pa = Some (off + a)"
    using assms(2,3) True unfolding tlb_coherent_def off_def by blast
  have "load_func sg sz 0 dv xlen a m = (Inr (to_type sg sz (host_load (host m) (off + a) sz)), m)"
    using True by (auto simp: load_func_def Let_def tlb_hit_def no_trigger [OF assms(1)] off_def)
  then show ?thesis using assms pa by (simp add: uncached_load_def same_world_def)
next
  case False
  then have slow: "load_func sg sz 0 dv xlen a m = mbind (load_slow_path dv xlen a sz 0 m) (\<lambda>bytes m.
      (Inr (to_type sg sz (reg_from_bytes bytes)), m))"
    by (simp add: load_func_def Let_def tlb_hit_def natural_aligned [OF assms(3)])
  show ?thesis
  proof (cases "translate xlen m a sz LOAD 0")
    case (Inl e)
    then have "load_func sg sz 0 dv xlen a m = (Inl e, m)" unfolding slow by (simp add: load_slow_path_def)
    then show ?thesis using assms Inl by (simp add: uncached_load_def same_world_def)
  next
    case (Inr pa)
    show ?thesis
    proof (cases "addr_to_mem (bus m) pa")
      case (Some hp)
      define n where "n = m\<lparr>proc := snd (refill_tlb a pa hp LOAD (proc m))\<rparr>"
      have world: "same_world m n" by (rule refill_world) (simp_all add: n_def)
      have ok: "mach_ok xlen n"
        by (rule mach_ok_world [OF assms(1) world]) (use assms(1) refill_sizes in \<open>simp add: n_def mach_ok_def\<close>)
      have "tlb_coherent xlen n"
        by (rule refill_coherent [OF assms(1,2) Inr assms(3) Some]) (simp_all add: n_def)
      moreover have "load_func sg sz 0 dv xlen a m = (Inr (to_type sg sz (host_load (host m) hp sz)), n)"
        unfolding slow load_slow_path_def using no_trigger [OF ok] by (simp add: Inr Some n_def [symmetric] host_load_def)
      moreover have "io n = io m" by (simp add: n_def)
      ultimately show ?thesis using assms(4) Inr Some world ok by (simp add: uncached_load_def)
    next
      case None
      obtain b n where io: "mmio_load dv pa sz m = (b, n)" by (cases "mmio_load dv pa sz m")
      then have n: "n = m\<lparr>io := io n\<rparr>" by (rule mmio_load_io)
      have world: "same_world m n" by (subst n) (simp add: same_world_def)
      have ok: "mach_ok xlen n" by (rule mach_ok_world [OF assms(1) world]) (subst n, use assms(1) in \<open>simp add: mach_ok_def\<close>)
      have "tlb_coherent xlen n" using coherent_io [OF assms(1), of "io n"] n assms(2) by simp
      moreover have "load_func sg sz 0 dv xlen a m =
          (case b of None \<Rightarrow> Inl (Mem_trap (trap_load_access_fault a)) | Some bytes \<Rightarrow> Inr (to_type sg sz (reg_from_bytes bytes)), n)"
        unfolding slow load_slow_path_def using no_trigger [OF ok] by (cases b) (simp_all add: Inr None io)
      ultimately show ?thesis using assms(4) Inr None world ok io by (cases b) (simp_all add: uncached_load_def)
    qed
  qed
qed

text \<open>A program of loads: signedness, size and address of each.\<close>

fun load_seq :: "'d devices \<Rightarrow> nat \<Rightarrow> (bool \<times> nat \<times> reg_t) list \<Rightarrow> 'd machine_t \<Rightarrow> reg_t xlate list" where
  "load_seq dv xlen [] m = []"
| "load_seq dv xlen ((sg, sz, a) # ls) m = (let (r, m') = load_func sg sz 0 dv xlen a m in r # load_seq dv xlen ls m')"

fun uncached_seq :: "'d devices \<Rightarrow> nat \<Rightarrow> (bool \<times> nat \<times> reg_t) list \<Rightarrow> 'd machine_t \<Rightarrow> reg_t xlate list" where
  "uncached_seq dv xlen [] m = []"
| "uncached_seq dv xlen ((sg, sz, a) # ls) m =
     (let (r, d) = uncached_load dv xlen sg sz a m in r # uncached_seq dv xlen ls (m\<lparr>io := d\<rparr>))"

lemma uncached_world:
  assumes "same_world m n" "io n = io m" "mach_ok xlen m"
  shows "uncached_load dv xlen sg sz a n = uncached_load dv xlen sg sz a m"
proof -
  obtain x where n: "proc n = (proc m)\<lparr>mmu := x\<rparr>" "host n = host m" "bus n = bus m" using assms(1) by (rule same_worldE)
  have mmio: "map_prod id io (mmio_load dv pa sz n) = map_prod id io (mmio_load dv pa sz m)" for pa
    by (auto simp: mmio_load_def bus_load_def mmio_ok_def n assms(2) split: option.split device.split prod.split)
  have tr: "translate xlen n a sz LOAD 0 = translate xlen m a sz LOAD 0"
    by (rule translate_world [OF assms(1) plain_mode [OF assms(3)]])
  show ?thesis
  proof (cases "translate xlen m a sz LOAD 0")
    case (Inr pa)
    show ?thesis using mmio [of pa]
      by (cases "mmio_load dv pa sz n"; cases "mmio_load dv pa sz m"; cases "addr_to_mem (bus m) pa")
        (simp_all add: uncached_load_def n assms(2) tr Inr split: option.split)
  qed (simp add: uncached_load_def tr assms(2))
qed

lemma sequences_agree:
  assumes "mach_ok xlen m" "tlb_coherent xlen m" "list_all (\<lambda>(sg, sz, a). natural_access a sz) ls" "same_world m n" "io n = io m"
  shows "load_seq dv xlen ls m = uncached_seq dv xlen ls n"
  using assms
proof (induction ls arbitrary: m n)
  case (Cons l ls)
  obtain sg sz a where l: "l = (sg, sz, a)" by (cases l)
  obtain r m' where load: "load_func sg sz 0 dv xlen a m = (r, m')" by (cases "load_func sg sz 0 dv xlen a m")
  have nat: "natural_access a sz" using Cons.prems(3) l by simp
  note tr = load_transparent [OF Cons.prems(1,2) nat load]
  have "same_world m' (n\<lparr>io := io m'\<rparr>)"
  proof -
    have "same_world m m'" using tr by simp
    then obtain x where "proc m' = (proc m)\<lparr>mmu := x\<rparr>" "host m' = host m" "bus m' = bus m" by (rule same_worldE)
    moreover obtain y where "proc n = (proc m)\<lparr>mmu := y\<rparr>" "host n = host m" "bus n = bus m"
      using Cons.prems(4) by (rule same_worldE)
    ultimately show ?thesis by (simp add: same_world_def)
  qed
  then have "load_seq dv xlen ls m' = uncached_seq dv xlen ls (n\<lparr>io := io m'\<rparr>)"
    using Cons.IH [of m' "n\<lparr>io := io m'\<rparr>"] tr Cons.prems(3) by simp
  then show ?case using tr uncached_world [OF Cons.prems(4,5,1), of dv sg sz a] by (simp add: l load)
qed simp

lemma empty_coherent: "tlb_empty (proc m) \<Longrightarrow> tlb_coherent xlen m"
proof -
  assume e: "tlb_empty (proc m)"
  have "\<not> tlb_hit type (mmu (proc m)) (drop_bit PGSHIFT a)" for type a
    using e hit_masked(2) [of type "mmu (proc m)" a] tlb_index_less [of "drop_bit PGSHIFT a"]
    by (cases type) (auto simp: tlb_empty_def)
  then show ?thesis by (simp add: tlb_coherent_def)
qed

text \<open>
  C35.  The translation cache is transparent to loads.  The hart has no hypervisor extension, no armed debug trigger
  and no modified privilege level for data, and memories are page-aligned.  Then, from an empty cache, any
  sequence of naturally aligned loads returns, load by load, the data or the fault of an access that walks the
  page table and checks the protection registers every time, device accesses included.  Under a modified
  privilege level it would not be, since the cache holds one entry per page for fetches and data alike.
\<close>

theorem tlb_transparent:
  assumes "mach_ok xlen m" "tlb_empty (proc m)" "list_all (\<lambda>(sg, sz, a). natural_access a sz) ls"
  shows "load_seq dv xlen ls m = uncached_seq dv xlen ls m"
  by (rule sequences_agree [OF assms(1) empty_coherent [OF assms(2)] assms(3)]) (simp_all add: same_world_def)

text \<open>The example with a cache of its size, and devices that refuse every access.\<close>

definition example_cached :: "unit machine_t" where
  "example_cached = example_machine\<lparr>proc := (proc example_machine)\<lparr>mmu := mmu_flush_tlb ((mmu (proc example_machine))
     \<lparr>tlb_data := replicate TLB_ENTRIES \<lparr>host_offset = 0, target_offset = 0\<rparr>\<rparr>)\<rparr>\<rparr>"

definition no_devices :: "unit devices" where
  "no_devices = \<lparr>io_load = \<lambda>n a len d. (None, d), io_store = \<lambda>n a bytes d. (False, d)\<rparr>"

theorem tlb_transparent_witness:
  "load_seq no_devices 64 [(True, 4, 0x1234), (False, 8, 0x1FF8), (True, 2, 0x40000000)] example_cached =
   uncached_seq no_devices 64 [(True, 4, 0x1234), (False, 8, 0x1FF8), (True, 2, 0x40000000)] example_cached"
proof (rule tlb_transparent)
  show "mach_ok 64 example_cached" by code_simp
  show "tlb_empty (proc example_cached)" by code_simp
  show "list_all (\<lambda>(sg, sz, a). natural_access a sz) [(True, 4, 0x1234), (False, 8, 0x1FF8), (True, 2, 0x40000000)]"
    by (simp add: natural_access_def)
qed

end
