(* ===== verification/RV_LoadStore.thy ===== *)
theory RV_LoadStore
  imports RV_Tlb
begin

text \<open>
  The instructions that access memory (\<^verbatim>\<open>riscv/insns/*.h\<close>): integer, floating-point and compressed loads and
  stores, the atomic operations and the load-reserved and store-conditional pair, with what a store leaves for
  a later load.
\<close>

section \<open>Macros\<close>

type_synonym 'd mem_body = "'d devices \<Rightarrow> nat \<Rightarrow> insn_bits_t \<Rightarrow> reg_t \<Rightarrow> ('d, reg_t) mem_op"

definition m_require :: "bool \<Rightarrow> insn_bits_t \<Rightarrow> ('d, 'a) mem_op \<Rightarrow> ('d, 'a) mem_op" where
  "m_require x insn k m = (if x then k m else (Inl (Mem_trap (trap_illegal_instruction (insn_bits insn))), m))"

definition m_extension :: "nat \<Rightarrow> insn_bits_t \<Rightarrow> ('d, 'a) mem_op \<Rightarrow> ('d, 'a) mem_op" where
  "m_extension ext insn k m = m_require (supports_extension ext (proc m)) insn k m"

definition m_fp :: "insn_bits_t \<Rightarrow> ('d, 'a) mem_op \<Rightarrow> ('d, 'a) mem_op" where
  "m_fp insn k m = m_require (mstatus (proc m) AND MSTATUS_FS \<noteq> 0) insn k m"

text \<open>A body that writes the loaded value with a macro, and one that stores.\<close>

definition load_to :: "(reg_t \<Rightarrow> hart_t \<Rightarrow> hart_t) \<Rightarrow> reg_t \<Rightarrow> reg_t xlate \<times> 'd machine_t \<Rightarrow> reg_t xlate \<times> 'd machine_t" where
  "load_to write npc r = mbind r (\<lambda>x m. (Inr npc, m\<lparr>proc := write x (proc m)\<rparr>))"

definition then_next :: "reg_t \<Rightarrow> unit xlate \<times> 'd machine_t \<Rightarrow> reg_t xlate \<times> 'd machine_t" where
  "then_next npc r = mbind r (\<lambda>_ m. (Inr npc, m))"

definition RVC_FRS2 :: "insn_bits_t \<Rightarrow> 'a arch_t_scheme \<Rightarrow> freg_t" where
  "RVC_FRS2 insn p = READ_FREG (rvc_rs2 insn) p"

definition RVC_FRS2S :: "insn_bits_t \<Rightarrow> 'a arch_t_scheme \<Rightarrow> freg_t" where
  "RVC_FRS2S insn p = READ_FREG (rvc_rs2s insn) p"

definition WRITE_RVC_FRS2S :: "nat \<Rightarrow> insn_bits_t \<Rightarrow> freg_t \<Rightarrow> 'a arch_t_scheme \<Rightarrow> 'a arch_t_scheme" where
  "WRITE_RVC_FRS2S xlen insn x p = DO_WRITE_FREG xlen (rvc_rs2s insn) x p"

section \<open>Integer loads and stores\<close>

definition rv_lb :: "'d mem_body" where
  "rv_lb dv xlen insn npc m =
     load_to (WRITE_RD insn) npc (load_func True 1 0 dv xlen (RS1 insn (proc m) + i_imm insn) m)"

definition rv_lbu :: "'d mem_body" where
  "rv_lbu dv xlen insn npc m =
     load_to (WRITE_RD insn) npc (load_func False 1 0 dv xlen (RS1 insn (proc m) + i_imm insn) m)"

definition rv_lh :: "'d mem_body" where
  "rv_lh dv xlen insn npc m =
     load_to (WRITE_RD insn) npc (load_func True 2 0 dv xlen (RS1 insn (proc m) + i_imm insn) m)"

definition rv_lhu :: "'d mem_body" where
  "rv_lhu dv xlen insn npc m =
     load_to (WRITE_RD insn) npc (load_func False 2 0 dv xlen (RS1 insn (proc m) + i_imm insn) m)"

definition rv_lw :: "'d mem_body" where
  "rv_lw dv xlen insn npc m =
     load_to (WRITE_RD insn) npc (load_func True 4 0 dv xlen (RS1 insn (proc m) + i_imm insn) m)"

definition rv_lwu :: "'d mem_body" where
  "rv_lwu dv xlen insn npc m =
     m_require (xlen = 64) insn (\<lambda>m. load_to (WRITE_RD insn) npc (load_func False 4 0 dv xlen (RS1 insn (proc m) + i_imm insn) m)) m"

definition rv_ld :: "'d mem_body" where
  "rv_ld dv xlen insn npc m =
     m_require (xlen = 64) insn (\<lambda>m. load_to (WRITE_RD insn) npc (load_func True 8 0 dv xlen (RS1 insn (proc m) + i_imm insn) m)) m"

definition rv_sb :: "'d mem_body" where
  "rv_sb dv xlen insn npc m =
     then_next npc (store_func 1 0 dv xlen (RS1 insn (proc m) + s_imm insn) (RS2 insn (proc m)) m)"

definition rv_sh :: "'d mem_body" where
  "rv_sh dv xlen insn npc m =
     then_next npc (store_func 2 0 dv xlen (RS1 insn (proc m) + s_imm insn) (RS2 insn (proc m)) m)"

definition rv_sw :: "'d mem_body" where
  "rv_sw dv xlen insn npc m =
     then_next npc (store_func 4 0 dv xlen (RS1 insn (proc m) + s_imm insn) (RS2 insn (proc m)) m)"

definition rv_sd :: "'d mem_body" where
  "rv_sd dv xlen insn npc m =
     m_require (xlen = 64) insn (\<lambda>m. then_next npc (store_func 8 0 dv xlen (RS1 insn (proc m) + s_imm insn) (RS2 insn (proc m)) m)) m"

section \<open>Floating-point loads and stores\<close>

definition rv_flh :: "'d mem_body" where
  "rv_flh dv xlen insn npc m =
     m_extension EXT_ZFH insn (m_fp insn (\<lambda>m.
     load_to (\<lambda>x. WRITE_FRD xlen insn (freg_f16 (ucast x))) npc (load_func False 2 0 dv xlen (RS1 insn (proc m) + i_imm insn) m))) m"

definition rv_fsh :: "'d mem_body" where
  "rv_fsh dv xlen insn npc m =
     m_extension EXT_ZFH insn (m_fp insn (\<lambda>m.
     then_next npc (store_func 2 0 dv xlen (RS1 insn (proc m) + s_imm insn) (fv0 (FRS2 insn (proc m))) m))) m"

definition rv_flw :: "'d mem_body" where
  "rv_flw dv xlen insn npc m =
     m_extension ext_F insn (m_fp insn (\<lambda>m.
     load_to (\<lambda>x. WRITE_FRD xlen insn (freg_f32 (ucast x))) npc (load_func False 4 0 dv xlen (RS1 insn (proc m) + i_imm insn) m))) m"

definition rv_fsw :: "'d mem_body" where
  "rv_fsw dv xlen insn npc m =
     m_extension ext_F insn (m_fp insn (\<lambda>m.
     then_next npc (store_func 4 0 dv xlen (RS1 insn (proc m) + s_imm insn) (fv0 (FRS2 insn (proc m))) m))) m"

definition rv_fld :: "'d mem_body" where
  "rv_fld dv xlen insn npc m =
     m_extension ext_D insn (m_fp insn (\<lambda>m.
     load_to (\<lambda>x. WRITE_FRD xlen insn (freg_f64 x)) npc (load_func False 8 0 dv xlen (RS1 insn (proc m) + i_imm insn) m))) m"

definition rv_fsd :: "'d mem_body" where
  "rv_fsd dv xlen insn npc m =
     m_extension ext_D insn (m_fp insn (\<lambda>m.
     then_next npc (store_func 8 0 dv xlen (RS1 insn (proc m) + s_imm insn) (fv0 (FRS2 insn (proc m))) m))) m"

section \<open>Compressed loads and stores\<close>

definition rv_c_lw :: "'d mem_body" where
  "rv_c_lw dv xlen insn npc m =
     m_extension ext_C insn (\<lambda>m.
     load_to (WRITE_RVC_RS2S insn) npc (load_func True 4 0 dv xlen (RVC_RS1S insn (proc m) + rvc_lw_imm insn) m)) m"

definition rv_c_lwsp :: "'d mem_body" where
  "rv_c_lwsp dv xlen insn npc m =
     m_extension ext_C insn (\<lambda>m.
     m_require (insn_rd insn \<noteq> 0) insn (\<lambda>m. load_to (WRITE_RD insn) npc (load_func True 4 0 dv xlen (RVC_SP (proc m) + rvc_lwsp_imm insn) m)) m) m"

definition rv_c_sw :: "'d mem_body" where
  "rv_c_sw dv xlen insn npc m =
     m_extension ext_C insn (\<lambda>m.
     then_next npc (store_func 4 0 dv xlen (RVC_RS1S insn (proc m) + rvc_lw_imm insn) (RVC_RS2S insn (proc m)) m)) m"

definition rv_c_swsp :: "'d mem_body" where
  "rv_c_swsp dv xlen insn npc m =
     m_extension ext_C insn (\<lambda>m.
     then_next npc (store_func 4 0 dv xlen (RVC_SP (proc m) + rvc_swsp_imm insn) (RVC_RS2 insn (proc m)) m)) m"

definition rv_c_flw :: "'d mem_body" where
  "rv_c_flw dv xlen insn npc m =
     m_extension ext_C insn (\<lambda>m.
     if xlen = 32 then m_extension ext_F insn (m_fp insn (\<lambda>m. load_to (\<lambda>x. WRITE_RVC_FRS2S xlen insn (freg_f32 (ucast x))) npc (load_func False 4 0 dv xlen (RVC_RS1S insn (proc m) + rvc_lw_imm insn) m))) m
     else load_to (WRITE_RVC_RS2S insn) npc (load_func True 8 0 dv xlen (RVC_RS1S insn (proc m) + rvc_ld_imm insn) m)) m"

definition rv_c_flwsp :: "'d mem_body" where
  "rv_c_flwsp dv xlen insn npc m =
     m_extension ext_C insn (\<lambda>m.
     if xlen = 32 then m_extension ext_F insn (m_fp insn (\<lambda>m. load_to (\<lambda>x. WRITE_FRD xlen insn (freg_f32 (ucast x))) npc (load_func False 4 0 dv xlen (RVC_SP (proc m) + rvc_lwsp_imm insn) m))) m
     else m_require (insn_rd insn \<noteq> 0) insn (\<lambda>m. load_to (WRITE_RD insn) npc (load_func True 8 0 dv xlen (RVC_SP (proc m) + rvc_ldsp_imm insn) m)) m) m"

definition rv_c_fsw :: "'d mem_body" where
  "rv_c_fsw dv xlen insn npc m =
     m_extension ext_C insn (\<lambda>m.
     if xlen = 32 then m_extension ext_F insn (m_fp insn (\<lambda>m. then_next npc (store_func 4 0 dv xlen (RVC_RS1S insn (proc m) + rvc_lw_imm insn) (fv0 (RVC_FRS2S insn (proc m))) m))) m
     else then_next npc (store_func 8 0 dv xlen (RVC_RS1S insn (proc m) + rvc_ld_imm insn) (RVC_RS2S insn (proc m)) m)) m"

definition rv_c_fswsp :: "'d mem_body" where
  "rv_c_fswsp dv xlen insn npc m =
     m_extension ext_C insn (\<lambda>m.
     if xlen = 32 then m_extension ext_F insn (m_fp insn (\<lambda>m. then_next npc (store_func 4 0 dv xlen (RVC_SP (proc m) + rvc_swsp_imm insn) (fv0 (RVC_FRS2 insn (proc m))) m))) m
     else then_next npc (store_func 8 0 dv xlen (RVC_SP (proc m) + rvc_sdsp_imm insn) (RVC_RS2 insn (proc m)) m)) m"

definition rv_c_fld :: "'d mem_body" where
  "rv_c_fld dv xlen insn npc m =
     m_extension ext_C insn (\<lambda>m.
     m_extension ext_D insn (m_fp insn (\<lambda>m. load_to (\<lambda>x. WRITE_RVC_FRS2S xlen insn (freg_f64 x)) npc (load_func False 8 0 dv xlen (RVC_RS1S insn (proc m) + rvc_ld_imm insn) m))) m) m"

definition rv_c_fldsp :: "'d mem_body" where
  "rv_c_fldsp dv xlen insn npc m =
     m_extension ext_C insn (\<lambda>m.
     m_extension ext_D insn (m_fp insn (\<lambda>m. load_to (\<lambda>x. WRITE_FRD xlen insn (freg_f64 x)) npc (load_func False 8 0 dv xlen (RVC_SP (proc m) + rvc_ldsp_imm insn) m))) m) m"

definition rv_c_fsd :: "'d mem_body" where
  "rv_c_fsd dv xlen insn npc m =
     m_extension ext_C insn (\<lambda>m.
     m_extension ext_D insn (m_fp insn (\<lambda>m. then_next npc (store_func 8 0 dv xlen (RVC_RS1S insn (proc m) + rvc_ld_imm insn) (fv0 (RVC_FRS2S insn (proc m))) m))) m) m"

definition rv_c_fsdsp :: "'d mem_body" where
  "rv_c_fsdsp dv xlen insn npc m =
     m_extension ext_C insn (\<lambda>m.
     m_extension ext_D insn (m_fp insn (\<lambda>m. then_next npc (store_func 8 0 dv xlen (RVC_SP (proc m) + rvc_sdsp_imm insn) (fv0 (RVC_FRS2 insn (proc m))) m))) m) m"

section \<open>Atomic operations\<close>

text \<open>The operations at the width of the access; their results are registers again.\<close>

definition amo32 :: "(uint32_t \<Rightarrow> uint32_t \<Rightarrow> uint32_t) \<Rightarrow> reg_t \<Rightarrow> reg_t \<Rightarrow> reg_t" where
  "amo32 f rs2 lhs = ucast (f (ucast lhs) (ucast rs2))"

definition rv_amoswap_w :: "'d mem_body" where
  "rv_amoswap_w dv xlen insn npc m =
     m_extension ext_A insn (\<lambda>m.
     load_to (\<lambda>x. WRITE_RD insn (sext32 x)) npc
       (amo_func 4 (amo32 (\<lambda>a b. b) (RS2 insn (proc m))) dv xlen (RS1 insn (proc m)) m)) m"

definition rv_amoswap_d :: "'d mem_body" where
  "rv_amoswap_d dv xlen insn npc m =
     m_extension ext_A insn (m_require (xlen = 64) insn (\<lambda>m.
     load_to (WRITE_RD insn) npc
       (amo_func 8 (\<lambda>lhs. (\<lambda>a b. b) lhs (RS2 insn (proc m))) dv xlen (RS1 insn (proc m)) m))) m"

definition rv_amoadd_w :: "'d mem_body" where
  "rv_amoadd_w dv xlen insn npc m =
     m_extension ext_A insn (\<lambda>m.
     load_to (\<lambda>x. WRITE_RD insn (sext32 x)) npc
       (amo_func 4 (amo32 (\<lambda>a b. a + b) (RS2 insn (proc m))) dv xlen (RS1 insn (proc m)) m)) m"

definition rv_amoadd_d :: "'d mem_body" where
  "rv_amoadd_d dv xlen insn npc m =
     m_extension ext_A insn (m_require (xlen = 64) insn (\<lambda>m.
     load_to (WRITE_RD insn) npc
       (amo_func 8 (\<lambda>lhs. (\<lambda>a b. a + b) lhs (RS2 insn (proc m))) dv xlen (RS1 insn (proc m)) m))) m"

definition rv_amoxor_w :: "'d mem_body" where
  "rv_amoxor_w dv xlen insn npc m =
     m_extension ext_A insn (\<lambda>m.
     load_to (\<lambda>x. WRITE_RD insn (sext32 x)) npc
       (amo_func 4 (amo32 (\<lambda>a b. a XOR b) (RS2 insn (proc m))) dv xlen (RS1 insn (proc m)) m)) m"

definition rv_amoxor_d :: "'d mem_body" where
  "rv_amoxor_d dv xlen insn npc m =
     m_extension ext_A insn (m_require (xlen = 64) insn (\<lambda>m.
     load_to (WRITE_RD insn) npc
       (amo_func 8 (\<lambda>lhs. (\<lambda>a b. a XOR b) lhs (RS2 insn (proc m))) dv xlen (RS1 insn (proc m)) m))) m"

definition rv_amoand_w :: "'d mem_body" where
  "rv_amoand_w dv xlen insn npc m =
     m_extension ext_A insn (\<lambda>m.
     load_to (\<lambda>x. WRITE_RD insn (sext32 x)) npc
       (amo_func 4 (amo32 (\<lambda>a b. a AND b) (RS2 insn (proc m))) dv xlen (RS1 insn (proc m)) m)) m"

definition rv_amoand_d :: "'d mem_body" where
  "rv_amoand_d dv xlen insn npc m =
     m_extension ext_A insn (m_require (xlen = 64) insn (\<lambda>m.
     load_to (WRITE_RD insn) npc
       (amo_func 8 (\<lambda>lhs. (\<lambda>a b. a AND b) lhs (RS2 insn (proc m))) dv xlen (RS1 insn (proc m)) m))) m"

definition rv_amoor_w :: "'d mem_body" where
  "rv_amoor_w dv xlen insn npc m =
     m_extension ext_A insn (\<lambda>m.
     load_to (\<lambda>x. WRITE_RD insn (sext32 x)) npc
       (amo_func 4 (amo32 (\<lambda>a b. a OR b) (RS2 insn (proc m))) dv xlen (RS1 insn (proc m)) m)) m"

definition rv_amoor_d :: "'d mem_body" where
  "rv_amoor_d dv xlen insn npc m =
     m_extension ext_A insn (m_require (xlen = 64) insn (\<lambda>m.
     load_to (WRITE_RD insn) npc
       (amo_func 8 (\<lambda>lhs. (\<lambda>a b. a OR b) lhs (RS2 insn (proc m))) dv xlen (RS1 insn (proc m)) m))) m"

definition rv_amomin_w :: "'d mem_body" where
  "rv_amomin_w dv xlen insn npc m =
     m_extension ext_A insn (\<lambda>m.
     load_to (\<lambda>x. WRITE_RD insn (sext32 x)) npc
       (amo_func 4 (amo32 (\<lambda>a b. if b <s a then b else a) (RS2 insn (proc m))) dv xlen (RS1 insn (proc m)) m)) m"

definition rv_amomin_d :: "'d mem_body" where
  "rv_amomin_d dv xlen insn npc m =
     m_extension ext_A insn (m_require (xlen = 64) insn (\<lambda>m.
     load_to (WRITE_RD insn) npc
       (amo_func 8 (\<lambda>lhs. (\<lambda>a b. if b <s a then b else a) lhs (RS2 insn (proc m))) dv xlen (RS1 insn (proc m)) m))) m"

definition rv_amomax_w :: "'d mem_body" where
  "rv_amomax_w dv xlen insn npc m =
     m_extension ext_A insn (\<lambda>m.
     load_to (\<lambda>x. WRITE_RD insn (sext32 x)) npc
       (amo_func 4 (amo32 (\<lambda>a b. if a <s b then b else a) (RS2 insn (proc m))) dv xlen (RS1 insn (proc m)) m)) m"

definition rv_amomax_d :: "'d mem_body" where
  "rv_amomax_d dv xlen insn npc m =
     m_extension ext_A insn (m_require (xlen = 64) insn (\<lambda>m.
     load_to (WRITE_RD insn) npc
       (amo_func 8 (\<lambda>lhs. (\<lambda>a b. if a <s b then b else a) lhs (RS2 insn (proc m))) dv xlen (RS1 insn (proc m)) m))) m"

definition rv_amominu_w :: "'d mem_body" where
  "rv_amominu_w dv xlen insn npc m =
     m_extension ext_A insn (\<lambda>m.
     load_to (\<lambda>x. WRITE_RD insn (sext32 x)) npc
       (amo_func 4 (amo32 (\<lambda>a b. if b < a then b else a) (RS2 insn (proc m))) dv xlen (RS1 insn (proc m)) m)) m"

definition rv_amominu_d :: "'d mem_body" where
  "rv_amominu_d dv xlen insn npc m =
     m_extension ext_A insn (m_require (xlen = 64) insn (\<lambda>m.
     load_to (WRITE_RD insn) npc
       (amo_func 8 (\<lambda>lhs. (\<lambda>a b. if b < a then b else a) lhs (RS2 insn (proc m))) dv xlen (RS1 insn (proc m)) m))) m"

definition rv_amomaxu_w :: "'d mem_body" where
  "rv_amomaxu_w dv xlen insn npc m =
     m_extension ext_A insn (\<lambda>m.
     load_to (\<lambda>x. WRITE_RD insn (sext32 x)) npc
       (amo_func 4 (amo32 (\<lambda>a b. if a < b then b else a) (RS2 insn (proc m))) dv xlen (RS1 insn (proc m)) m)) m"

definition rv_amomaxu_d :: "'d mem_body" where
  "rv_amomaxu_d dv xlen insn npc m =
     m_extension ext_A insn (m_require (xlen = 64) insn (\<lambda>m.
     load_to (WRITE_RD insn) npc
       (amo_func 8 (\<lambda>lhs. (\<lambda>a b. if a < b then b else a) lhs (RS2 insn (proc m))) dv xlen (RS1 insn (proc m)) m))) m"

definition rv_lr_w :: "'d mem_body" where
  "rv_lr_w dv xlen insn npc m =
     m_extension ext_A insn (\<lambda>m.
     mbind (load_func True 4 0 dv xlen (RS1 insn (proc m)) m) (\<lambda>res m.
     mbind (acquire_load_reservation xlen (RS1 insn (proc m)) m) (\<lambda>_ m.
     (Inr npc, m\<lparr>proc := WRITE_RD insn res (proc m)\<rparr>)))) m"

definition rv_sc_w :: "'d mem_body" where
  "rv_sc_w dv xlen insn npc m =
     m_extension ext_A insn (\<lambda>m.
     mbind (check_load_reservation xlen (RS1 insn (proc m)) 4 m) (\<lambda>have_reservation m.
     mbind (if have_reservation then store_func 4 0 dv xlen (RS1 insn (proc m)) (RS2 insn (proc m)) m else (Inr (), m)) (\<lambda>_ m.
     let m = yield_load_reservation m
     in (Inr npc, m\<lparr>proc := WRITE_RD insn (of_bool (\<not> have_reservation)) (proc m)\<rparr>)))) m"

definition rv_lr_d :: "'d mem_body" where
  "rv_lr_d dv xlen insn npc m =
     m_extension ext_A insn (m_require (xlen = 64) insn (\<lambda>m.
     mbind (load_func True 8 0 dv xlen (RS1 insn (proc m)) m) (\<lambda>res m.
     mbind (acquire_load_reservation xlen (RS1 insn (proc m)) m) (\<lambda>_ m.
     (Inr npc, m\<lparr>proc := WRITE_RD insn res (proc m)\<rparr>))))) m"

definition rv_sc_d :: "'d mem_body" where
  "rv_sc_d dv xlen insn npc m =
     m_extension ext_A insn (m_require (xlen = 64) insn (\<lambda>m.
     mbind (check_load_reservation xlen (RS1 insn (proc m)) 8 m) (\<lambda>have_reservation m.
     mbind (if have_reservation then store_func 8 0 dv xlen (RS1 insn (proc m)) (RS2 insn (proc m)) m else (Inr (), m)) (\<lambda>_ m.
     let m = yield_load_reservation m
     in (Inr npc, m\<lparr>proc := WRITE_RD insn (of_bool (\<not> have_reservation)) (proc m)\<rparr>))))) m"

section \<open>Hypervisor loads and stores\<close>

text \<open>The guards the hypervisor accesses share, in the order of the source.\<close>

definition m_novirt :: "insn_bits_t \<Rightarrow> ('d, 'a) mem_op \<Rightarrow> ('d, 'a) mem_op" where
  "m_novirt insn k m = (if v (proc m) then (Inl (Mem_trap (trap_virtual_instruction (insn_bits insn))), m) else k m)"

definition m_guest :: "insn_bits_t \<Rightarrow> ('d, 'a) mem_op \<Rightarrow> ('d, 'a) mem_op" where
  "m_guest insn k m =
     m_require (prv (proc m) \<ge> (if get_field (hstatus (proc m)) HSTATUS_HU \<noteq> 0 then PRV_S else PRV_U)) insn (m_novirt insn k) m"

definition rv_hlv_b :: "'d mem_body" where
  "rv_hlv_b dv xlen insn npc m =
     m_extension ext_H insn (m_guest insn (\<lambda>m.
       load_to (WRITE_RD insn) npc (load_func True 1 RISCV_XLATE_VIRT dv xlen (RS1 insn (proc m)) m))) m"

definition rv_hlv_bu :: "'d mem_body" where
  "rv_hlv_bu dv xlen insn npc m =
     m_extension ext_H insn (m_guest insn (\<lambda>m.
       load_to (WRITE_RD insn) npc (load_func False 1 RISCV_XLATE_VIRT dv xlen (RS1 insn (proc m)) m))) m"

definition rv_hlv_h :: "'d mem_body" where
  "rv_hlv_h dv xlen insn npc m =
     m_extension ext_H insn (m_guest insn (\<lambda>m.
       load_to (WRITE_RD insn) npc (load_func True 2 RISCV_XLATE_VIRT dv xlen (RS1 insn (proc m)) m))) m"

definition rv_hlv_hu :: "'d mem_body" where
  "rv_hlv_hu dv xlen insn npc m =
     m_extension ext_H insn (m_guest insn (\<lambda>m.
       load_to (WRITE_RD insn) npc (load_func False 2 RISCV_XLATE_VIRT dv xlen (RS1 insn (proc m)) m))) m"

definition rv_hlv_w :: "'d mem_body" where
  "rv_hlv_w dv xlen insn npc m =
     m_extension ext_H insn (m_guest insn (\<lambda>m.
       load_to (WRITE_RD insn) npc (load_func True 4 RISCV_XLATE_VIRT dv xlen (RS1 insn (proc m)) m))) m"

definition rv_hlv_wu :: "'d mem_body" where
  "rv_hlv_wu dv xlen insn npc m =
     m_extension ext_H insn (m_require (xlen = 64) insn (m_guest insn (\<lambda>m.
       load_to (WRITE_RD insn) npc (load_func False 4 RISCV_XLATE_VIRT dv xlen (RS1 insn (proc m)) m)))) m"

definition rv_hlv_d :: "'d mem_body" where
  "rv_hlv_d dv xlen insn npc m =
     m_extension ext_H insn (m_require (xlen = 64) insn (m_guest insn (\<lambda>m.
       load_to (WRITE_RD insn) npc (load_func True 8 RISCV_XLATE_VIRT dv xlen (RS1 insn (proc m)) m)))) m"

definition rv_hlvx_hu :: "'d mem_body" where
  "rv_hlvx_hu dv xlen insn npc m =
     m_extension ext_H insn (m_guest insn (\<lambda>m.
       load_to (WRITE_RD insn) npc (load_func False 2 (RISCV_XLATE_VIRT OR RISCV_XLATE_VIRT_MXR) dv xlen (RS1 insn (proc m)) m))) m"

definition rv_hlvx_wu :: "'d mem_body" where
  "rv_hlvx_wu dv xlen insn npc m =
     m_extension ext_H insn (m_guest insn (\<lambda>m.
       load_to (WRITE_RD insn) npc (load_func False 4 (RISCV_XLATE_VIRT OR RISCV_XLATE_VIRT_MXR) dv xlen (RS1 insn (proc m)) m))) m"

definition rv_hsv_b :: "'d mem_body" where
  "rv_hsv_b dv xlen insn npc m =
     m_extension ext_H insn (m_guest insn (\<lambda>m.
       then_next npc (store_func 1 RISCV_XLATE_VIRT dv xlen (RS1 insn (proc m)) (RS2 insn (proc m)) m))) m"

definition rv_hsv_h :: "'d mem_body" where
  "rv_hsv_h dv xlen insn npc m =
     m_extension ext_H insn (m_guest insn (\<lambda>m.
       then_next npc (store_func 2 RISCV_XLATE_VIRT dv xlen (RS1 insn (proc m)) (RS2 insn (proc m)) m))) m"

definition rv_hsv_w :: "'d mem_body" where
  "rv_hsv_w dv xlen insn npc m =
     m_extension ext_H insn (m_guest insn (\<lambda>m.
       then_next npc (store_func 4 RISCV_XLATE_VIRT dv xlen (RS1 insn (proc m)) (RS2 insn (proc m)) m))) m"

definition rv_hsv_d :: "'d mem_body" where
  "rv_hsv_d dv xlen insn npc m =
     m_extension ext_H insn (m_require (xlen = 64) insn (m_guest insn (\<lambda>m.
       then_next npc (store_func 8 RISCV_XLATE_VIRT dv xlen (RS1 insn (proc m)) (RS2 insn (proc m)) m)))) m"

text \<open>The privilege the hypervisor accesses need: supervisor mode with the bit that should allow them in user mode.\<close>

lemma hypervisor_access_privilege:
  assumes "prv (proc m) = PRV_U" "\<not> v (proc m)"
  shows "m_guest insn k m =
    (if get_field (hstatus (proc m)) HSTATUS_HU \<noteq> 0 then (Inl (Mem_trap (trap_illegal_instruction (insn_bits insn))), m) else k m)"
  using assms by (simp add: m_guest_def m_require_def m_novirt_def)

end
