(* ===== verification/RV_Memory.thy ===== *)
theory RV_Memory
  imports RV_LoadStore
begin

text \<open>
  What the memory system promises to a program whose addresses are not translated: sequences of loads and stores
  behave as on a machine without a translation cache, and a load returns what the store before it wrote.
\<close>

section \<open>Bytes\<close>

text \<open>A memory of bytes with little-endian access to values of up to eight bytes.\<close>

definition apart :: "reg_t \<Rightarrow> nat \<Rightarrow> reg_t \<Rightarrow> nat \<Rightarrow> bool" where
  "apart a n b k \<longleftrightarrow> (\<forall>i<n. \<forall>j<k. a + of_nat i \<noteq> b + of_nat j)"

locale byte_memory =
  fixes get :: "'s \<Rightarrow> reg_t \<Rightarrow> nat \<Rightarrow> reg_t" and put :: "'s \<Rightarrow> reg_t \<Rightarrow> nat \<Rightarrow> reg_t \<Rightarrow> 's"
  assumes get_put: "n \<le> 8 \<Longrightarrow> get (put s a n x) a n = take_bit (8 * n) x"
    and get_put_apart: "apart b k a n \<Longrightarrow> get (put s b k x) a n = get s a n"
begin

lemma get_puts_apart:
  "list_all (\<lambda>(b, k, y). apart b k a n) ws \<Longrightarrow> get (fold (\<lambda>(b, k, y) s. put s b k y) ws s) a n = get s a n"
  by (induction ws arbitrary: s) (auto simp: get_put_apart)

lemma last_write:
  "n \<le> 8 \<Longrightarrow> list_all (\<lambda>(b, k, y). apart b k a n) ws \<Longrightarrow>
   get (fold (\<lambda>(b, k, y) s. put s b k y) ws (put s a n x)) a n = take_bit (8 * n) x"
  by (simp add: get_puts_apart get_put)

end

lemma length_to_bytes [simp]: "length (reg_to_bytes n x) = n"
  by (induction n arbitrary: x) simp_all

lemma from_to_bytes: "reg_from_bytes (reg_to_bytes n x) = take_bit (8 * n) x"
proof (induction n arbitrary: x)
  case (Suc n)
  have "bit (reg_from_bytes (reg_to_bytes (Suc n) x)) k = bit (take_bit (8 * Suc n) x) k" if "k < 64" for k
    using that by (auto simp: Suc bit_or_iff bit_push_bit_iff bit_take_bit_iff bit_drop_bit_eq bit_unsigned_iff bit_ucast_iff)
  then show ?case by (intro bit_word_eqI) simp
qed simp

lemma take_from_bytes: "take_bit (8 * length bs) (reg_from_bytes bs) = reg_from_bytes bs"
proof (induction bs)
  case (Cons b bs)
  have "bit (reg_from_bytes bs) n \<Longrightarrow> n < 8 * length bs" for n
    using arg_cong [OF Cons, of "\<lambda>x. bit x n"] by (auto simp: bit_take_bit_iff)
  then have "bit (reg_from_bytes (b # bs)) n \<Longrightarrow> n < 8 * length (b # bs)" for n
    by (fastforce simp: bit_or_iff bit_push_bit_iff bit_unsigned_iff dest: bit_imp_le_length)
  then show ?case by (intro bit_word_eqI) (auto simp: bit_take_bit_iff simp del: reg_from_bytes.simps)
qed simp

lemma write_outside: "(\<forall>i<length bs. b \<noteq> a + of_nat i) \<Longrightarrow> write_bytes hm a bs b = hm b"
proof (induction bs arbitrary: hm a)
  case (Cons c bs)
  have "b \<noteq> a + 1 + of_nat i" if "i < length bs" for i
    using Cons.prems [rule_format, of "Suc i"] that by (simp add: algebra_simps)
  moreover have "b \<noteq> a" using Cons.prems [rule_format, of 0] by simp
  ultimately show ?case by (simp add: Cons.IH)
qed simp

lemma write_inside: "length bs \<le> 8 \<Longrightarrow> i < length bs \<Longrightarrow> write_bytes hm a bs (a + of_nat i) = bs ! i"
proof (induction bs arbitrary: hm a i)
  case (Cons c bs)
  show ?case
  proof (cases i)
    case 0
    have "a \<noteq> a + 1 + of_nat j" if "j < length bs" for j
    proof
      assume "a = a + 1 + of_nat j"
      then have "(of_nat (Suc j) :: reg_t) = 0" by (simp add: algebra_simps)
      then have "unat (of_nat (Suc j) :: reg_t) = 0" by simp
      then show False using Cons.prems(1) that by (simp add: unat_of_nat take_bit_nat_def del: of_nat_Suc)
    qed
    then show ?thesis by (simp add: write_outside 0)
  next
    case (Suc j)
    then show ?thesis using Cons.IH [of j _ "a + 1"] Cons.prems by (simp add: algebra_simps)
  qed
qed simp

lemma read_write: "length bs \<le> 8 \<Longrightarrow> read_bytes (write_bytes hm a bs) a (length bs) = bs"
  by (rule nth_equalityI) (simp_all add: read_bytes_def write_inside)

interpretation hostm: byte_memory host_load "\<lambda>hm a n x. write_bytes hm a (reg_to_bytes n x)"
proof unfold_locales
  show "host_load (write_bytes s a (reg_to_bytes n x)) a n = take_bit (8 * n) x" if "n \<le> 8" for s a n x
    using read_write [of "reg_to_bytes n x" s a] that by (simp add: host_load_def from_to_bytes)
  show "host_load (write_bytes s b (reg_to_bytes k x)) a n = host_load s a n" if "apart b k a n" for s b k x a n
  proof -
    have "write_bytes s b (reg_to_bytes k x) (a + of_nat i) = s (a + of_nat i)" if "i < n" for i
      by (rule write_outside) (use \<open>apart b k a n\<close> that in \<open>metis apart_def length_to_bytes\<close>)
    then have "read_bytes (write_bytes s b (reg_to_bytes k x)) a n = read_bytes s a n" unfolding read_bytes_def by (intro map_cong) simp_all
    then show ?thesis by (simp add: host_load_def)
  qed
qed

section \<open>Stores without translation\<close>

text \<open>Addresses are not translated in machine mode, nor with paging off.\<close>

definition untranslated :: "nat \<Rightarrow> 'd machine_t \<Rightarrow> bool" where
  "untranslated xlen m \<longleftrightarrow>
     (case decode_vm_info xlen False (prv (proc m)) (satp (proc m)) of Inl e \<Rightarrow> False | Inr vm \<Rightarrow> levels vm = 0)"

text \<open>Machines that differ in the contents of memory, in the devices and in the cache.\<close>

definition same_hart :: "'d machine_t \<Rightarrow> 'd machine_t \<Rightarrow> bool" where
  "same_hart m n \<longleftrightarrow> proc n = (proc m)\<lparr>mmu := mmu (proc n)\<rparr> \<and> bus n = bus m"

lemma same_hartE:
  assumes "same_hart m n"
  obtains x where "proc n = (proc m)\<lparr>mmu := x\<rparr>" "bus n = bus m"
  using assms by (auto simp: same_hart_def)

lemma same_hart_trans: "same_hart m n \<Longrightarrow> same_hart n k \<Longrightarrow> same_hart m k"
  by (elim same_hartE) (simp add: same_hart_def)

lemma world_hart: "same_world m n \<longleftrightarrow> same_hart m n \<and> host n = host m"
  by (auto simp: same_world_def same_hart_def)

lemma untranslated_hart: "same_hart m n \<Longrightarrow> untranslated xlen n = untranslated xlen m"
  by (elim same_hartE) (simp add: untranslated_def)

lemma mach_ok_hart:
  assumes "mach_ok xlen m" "same_hart m n" "tlb_sizes (mmu (proc n))"
  shows "mach_ok xlen n"
proof -
  have "mach_ok xlen (n\<lparr>host := host m\<rparr>)"
    by (rule mach_ok_world [OF assms(1)]) (use assms(2,3) in \<open>simp_all add: world_hart same_hart_def\<close>)
  then show ?thesis by (simp add: mach_ok_def)
qed

lemma translate_hart:
  assumes "mach_ok xlen m" "same_hart m n" "untranslated xlen m"
  shows "translate xlen n a len type 0 = translate xlen m a len type 0"
proof -
  obtain x where n: "proc n = (proc m)\<lparr>mmu := x\<rparr>" using assms(2) by (rule same_hartE)
  have mode: "access_mode (proc m) type 0 = (prv (proc m), False, get_field (mstatus (proc m)) MSTATUS_MXR \<noteq> 0)"
    by (rule plain_mode [OF assms(1)])
  have "walk xlen n a type (prv (proc m)) False mxr = walk xlen m a type (prv (proc m)) False mxr" for mxr
    using assms(3) by (auto simp: walk_def n untranslated_def split: sum.split_asm)
  then show ?thesis unfolding translate_def n access_mode_mmu mode by simp
qed

lemma coherent_hart:
  assumes "mach_ok xlen m" "same_hart m n" "untranslated xlen m" "mmu (proc n) = mmu (proc m)" "tlb_coherent xlen m"
  shows "tlb_coherent xlen n"
  using assms(5) translate_hart [OF assms(1-3)] assms(2) by (simp add: tlb_coherent_def assms(4) same_hart_def)

text \<open>The store without the cache: its result, the memory and the devices after it.\<close>

definition uncached_store ::
  "'d devices \<Rightarrow> nat \<Rightarrow> nat \<Rightarrow> reg_t \<Rightarrow> reg_t \<Rightarrow> 'd machine_t \<Rightarrow> unit xlate \<times> (reg_t \<Rightarrow> uint8_t) \<times> 'd" where
  "uncached_store dv xlen sz addr val m =
     (let bytes = reg_to_bytes sz (take_bit (8 * sz) val)
      in case translate xlen m addr sz STORE 0 of
        Inl e \<Rightarrow> (Inl e, host m, io m)
      | Inr pa \<Rightarrow>
          (case addr_to_mem (bus m) pa of
             Some hp \<Rightarrow> (Inr (), write_bytes (host m) hp bytes, io m)
           | None \<Rightarrow>
               (case mmio_store dv pa bytes m of
                  (False, m') \<Rightarrow> (Inl (Mem_trap (trap_store_access_fault addr)), host m, io m')
                | (True, m') \<Rightarrow> (Inr (), host m, io m'))))"

lemma mmio_store_io: "mmio_store dv pa bytes m = (r, m') \<Longrightarrow> m' = m\<lparr>io := io m'\<rparr>"
  by (auto simp: mmio_store_def bus_store_def split: if_split_asm option.split_asm device.split_asm prod.split_asm)

lemma store_transparent:
  assumes "mach_ok xlen m" "tlb_coherent xlen m" "untranslated xlen m" "natural_access a sz"
    "store_func sz 0 dv xlen a x m = (r, m')"
  shows "uncached_store dv xlen sz a x m = (r, host m', io m') \<and> same_hart m m' \<and> mach_ok xlen m' \<and> tlb_coherent xlen m'"
proof (cases "tlb_hit STORE (mmu (proc m)) (drop_bit PGSHIFT a)")
  case True
  define off where "off = host_offset (tlb_data (mmu (proc m)) ! tlb_index (drop_bit PGSHIFT a))"
  define n where "n = m\<lparr>host := write_bytes (host m) (off + a) (reg_to_bytes sz (take_bit (8 * sz) x))\<rparr>"
  obtain pa where pa: "translate xlen m a sz STORE 0 = Inr pa" "addr_to_mem (bus m) pa = Some (off + a)"
    using assms(2,4) True unfolding tlb_coherent_def off_def by blast
  have "store_func sz 0 dv xlen a x m = (Inr (), n)"
    using True natural_aligned [OF assms(4)]
    by (auto simp: store_func_def Let_def tlb_hit_def no_trigger [OF assms(1)] off_def n_def)
  then have m': "m' = n" "r = Inr ()" using assms(5) by simp_all
  have hart: "same_hart m n" by (simp add: same_hart_def n_def)
  have "mach_ok xlen n" by (rule mach_ok_hart [OF assms(1) hart]) (use assms(1) in \<open>simp add: mach_ok_def n_def\<close>)
  moreover have "tlb_coherent xlen n" by (rule coherent_hart [OF assms(1) hart assms(3) _ assms(2)]) (simp add: n_def)
  ultimately show ?thesis using hart pa by (simp add: uncached_store_def m' Let_def) (simp add: n_def)
next
  case False
  define bytes where "bytes = reg_to_bytes sz (take_bit (8 * sz) x)"
  have slow: "store_func sz 0 dv xlen a x m = store_slow_path dv xlen a bytes 0 m"
    using False natural_aligned [OF assms(4)]
    by (auto simp: store_func_def Let_def tlb_hit_def bytes_def mbind_def split: sum.split prod.split)
  have len: "length bytes = sz" by (simp add: bytes_def)
  show ?thesis
  proof (cases "translate xlen m a sz STORE 0")
    case (Inl e)
    then have "store_func sz 0 dv xlen a x m = (Inl e, m)" unfolding slow by (simp add: store_slow_path_def len)
    then show ?thesis using assms Inl by (simp add: uncached_store_def same_hart_def)
  next
    case (Inr pa)
    show ?thesis
    proof (cases "addr_to_mem (bus m) pa")
      case (Some hp)
      define k where "k = m\<lparr>proc := snd (refill_tlb a pa hp STORE (proc m))\<rparr>"
      define n where "n = k\<lparr>host := write_bytes (host m) hp bytes\<rparr>"
      have world: "same_world m k" by (rule refill_world) (simp_all add: k_def)
      have ok: "mach_ok xlen k"
        by (rule mach_ok_world [OF assms(1) world]) (use assms(1) refill_sizes in \<open>simp add: k_def mach_ok_def\<close>)
      have coh: "tlb_coherent xlen k"
        by (rule refill_coherent [OF assms(1,2) Inr assms(4) Some]) (simp_all add: k_def)
      have kn: "same_hart k n" by (simp add: same_hart_def n_def)
      have mk: "same_hart m k" using world by (simp add: world_hart)
      have "store_func sz 0 dv xlen a x m = (Inr (), n)"
        unfolding slow store_slow_path_def using no_trigger [OF assms(1)] by (simp add: Inr Some len n_def k_def)
      then have m': "m' = n" "r = Inr ()" using assms(5) by simp_all
      have "mach_ok xlen n" using ok kn by (intro mach_ok_hart [OF ok kn]) (simp add: mach_ok_def n_def)
      moreover have "tlb_coherent xlen n"
        by (rule coherent_hart [OF ok kn _ _ coh]) (simp_all add: n_def untranslated_hart [OF mk] assms(3))
      ultimately show ?thesis using same_hart_trans [OF mk kn] Inr Some
        by (simp add: uncached_store_def m' Let_def) (simp add: n_def k_def bytes_def)
    next
      case None
      obtain b n where io: "mmio_store dv pa bytes m = (b, n)" by (cases "mmio_store dv pa bytes m")
      then have n: "n = m\<lparr>io := io n\<rparr>" by (rule mmio_store_io)
      have hart: "same_hart m n" by (subst n) (simp add: same_hart_def)
      have mm: "mmu (proc n) = mmu (proc m)" "host n = host m" by (subst n, simp)+
      have "store_func sz 0 dv xlen a x m = (if b then Inr () else Inl (Mem_trap (trap_store_access_fault a)), n)"
        unfolding slow store_slow_path_def using no_trigger [OF assms(1)] by (simp add: Inr None len io)
      then have m': "m' = n" "r = (if b then Inr () else Inl (Mem_trap (trap_store_access_fault a)))" using assms(5) by simp_all
      have "mach_ok xlen n" by (rule mach_ok_hart [OF assms(1) hart]) (use assms(1) in \<open>simp add: mach_ok_def mm\<close>)
      moreover have "tlb_coherent xlen n" by (rule coherent_hart [OF assms(1) hart assms(3) mm(1) assms(2)])
      ultimately show ?thesis using hart Inr None io
        by (simp add: uncached_store_def m' Let_def bytes_def [symmetric] mm)
    qed
  qed
qed

section \<open>Sequences of accesses\<close>

datatype mem_access = Ld bool nat reg_t | St nat reg_t reg_t

fun access_natural :: "mem_access \<Rightarrow> bool" where
  "access_natural (Ld sg sz a) = natural_access a sz"
| "access_natural (St sz a x) = natural_access a sz"

text \<open>A load gives its value, a store none; the sequence goes on after a fault, as a handler that skips it would.\<close>

fun access_seq :: "'d devices \<Rightarrow> nat \<Rightarrow> mem_access list \<Rightarrow> 'd machine_t \<Rightarrow> reg_t option xlate list \<times> 'd machine_t" where
  "access_seq dv xlen [] m = ([], m)"
| "access_seq dv xlen (Ld sg sz a # as) m =
     (let (r, m) = load_func sg sz 0 dv xlen a m; (rs, m) = access_seq dv xlen as m in (map_sum id Some r # rs, m))"
| "access_seq dv xlen (St sz a x # as) m =
     (let (r, m) = store_func sz 0 dv xlen a x m; (rs, m) = access_seq dv xlen as m in (map_sum id (\<lambda>_. None) r # rs, m))"

fun uncached_accesses :: "'d devices \<Rightarrow> nat \<Rightarrow> mem_access list \<Rightarrow> 'd machine_t \<Rightarrow> reg_t option xlate list \<times> 'd machine_t" where
  "uncached_accesses dv xlen [] m = ([], m)"
| "uncached_accesses dv xlen (Ld sg sz a # as) m =
     (let (r, d) = uncached_load dv xlen sg sz a m; (rs, m) = uncached_accesses dv xlen as (m\<lparr>io := d\<rparr>)
      in (map_sum id Some r # rs, m))"
| "uncached_accesses dv xlen (St sz a x # as) m =
     (let (r, hm, d) = uncached_store dv xlen sz a x m; (rs, m) = uncached_accesses dv xlen as (m\<lparr>host := hm, io := d\<rparr>)
      in (map_sum id (\<lambda>_. None) r # rs, m))"

lemma uncached_store_world:
  assumes "same_world m n" "io n = io m" "mach_ok xlen m"
  shows "uncached_store dv xlen sz a x n = uncached_store dv xlen sz a x m"
proof -
  obtain y where n: "proc n = (proc m)\<lparr>mmu := y\<rparr>" "host n = host m" "bus n = bus m" using assms(1) by (rule same_worldE)
  have mmio: "map_prod id io (mmio_store dv pa bs n) = map_prod id io (mmio_store dv pa bs m)" for pa bs
    by (auto simp: mmio_store_def bus_store_def mmio_ok_def n assms(2) split: option.split device.split prod.split)
  have tr: "translate xlen n a sz STORE 0 = translate xlen m a sz STORE 0"
    by (rule translate_world [OF assms(1) plain_mode [OF assms(3)]])
  show ?thesis
  proof (cases "translate xlen m a sz STORE 0")
    case (Inr pa)
    define bs where "bs = reg_to_bytes sz (take_bit (8 * sz) x)"
    show ?thesis using mmio [of pa bs]
      by (cases "mmio_store dv pa bs n"; cases "mmio_store dv pa bs m"; cases "addr_to_mem (bus m) pa")
        (simp_all add: uncached_store_def n assms(2) tr Inr Let_def bs_def [symmetric] split: option.split bool.split)
  qed (simp add: uncached_store_def tr n assms(2))
qed

lemma accesses_agree:
  assumes "mach_ok xlen m" "tlb_coherent xlen m" "untranslated xlen m" "list_all access_natural as" "same_world m n" "io n = io m"
  shows "fst (access_seq dv xlen as m) = fst (uncached_accesses dv xlen as n) \<and>
    same_world (snd (access_seq dv xlen as m)) (snd (uncached_accesses dv xlen as n)) \<and>
    io (snd (uncached_accesses dv xlen as n)) = io (snd (access_seq dv xlen as m))"
  using assms
proof (induction as arbitrary: m n)
  case (Cons acc as)
  have later: "fst (access_seq dv xlen as m') = fst (uncached_accesses dv xlen as n') \<and>
      same_world (snd (access_seq dv xlen as m')) (snd (uncached_accesses dv xlen as n')) \<and>
      io (snd (uncached_accesses dv xlen as n')) = io (snd (access_seq dv xlen as m'))"
    if step: "same_hart m m'" "mach_ok xlen m'" "tlb_coherent xlen m'" "n' = n\<lparr>host := host m', io := io m'\<rparr>" for m' n'
  proof (rule Cons.IH)
    obtain y where "proc m' = (proc m)\<lparr>mmu := y\<rparr>" "bus m' = bus m" using step(1) by (rule same_hartE)
    moreover obtain z where "proc n = (proc m)\<lparr>mmu := z\<rparr>" "bus n = bus m" using Cons.prems(5) by (rule same_worldE)
    ultimately show "same_world m' n'" by (simp add: same_world_def step(4))
  qed (use step Cons.prems(3,4) untranslated_hart in auto)
  show ?case
  proof (cases acc)
    case (Ld sg sz a)
    obtain r m' where load: "load_func sg sz 0 dv xlen a m = (r, m')" by (cases "load_func sg sz 0 dv xlen a m")
    have nat: "natural_access a sz" using Cons.prems(4) Ld by simp
    note tr = load_transparent [OF Cons.prems(1,2) nat load]
    have "n\<lparr>io := io m'\<rparr> = n\<lparr>host := host m', io := io m'\<rparr>" using tr Cons.prems(5) by (simp add: same_world_def)
    then show ?thesis using tr uncached_world [OF Cons.prems(5,6,1), of dv sg sz a] later [of m' "n\<lparr>io := io m'\<rparr>"]
      by (auto simp: Ld load world_hart split: prod.split)
  next
    case (St sz a x)
    obtain r m' where store: "store_func sz 0 dv xlen a x m = (r, m')" by (cases "store_func sz 0 dv xlen a x m")
    have nat: "natural_access a sz" using Cons.prems(4) St by simp
    note tr = store_transparent [OF Cons.prems(1-3) nat store]
    show ?thesis using tr uncached_store_world [OF Cons.prems(5,6,1), of dv sz a x] later [of m'] St store
      by (auto split: prod.split)
  qed
qed simp

text \<open>
  C36.  Loads and stores behave as on a machine without a translation cache.  The hart has no hypervisor extension,
  no armed debug trigger and no modified privilege level for data, memories are page-aligned, the cache is empty
  at the start, and addresses are not translated.  Then any sequence of naturally aligned loads and stores has,
  access by access, the results of accesses that check the protection registers and decode the bus every time,
  and leaves memory and the devices in the same state.
\<close>

theorem access_sequences_transparent:
  assumes "mach_ok xlen m" "tlb_empty (proc m)" "untranslated xlen m" "list_all access_natural as"
    "access_seq dv xlen as m = (rs, m')" "uncached_accesses dv xlen as m = (rs', n)"
  shows "rs = rs' \<and> host m' = host n \<and> io m' = io n"
  using accesses_agree [OF assms(1) empty_coherent [OF assms(2)] assms(3,4), of m dv] assms(5,6)
  by (simp add: same_world_def)

text \<open>The example machine in machine mode.\<close>

definition example_bare :: "unit machine_t" where
  "example_bare = example_cached\<lparr>proc := (proc example_cached)\<lparr>prv := PRV_M\<rparr>\<rparr>"

lemma example_bare_ok: "mach_ok 64 example_bare" "tlb_empty (proc example_bare)" "untranslated 64 example_bare"
  subgoal by code_simp
  subgoal by code_simp
  subgoal by code_simp
  done

definition example_accesses :: "mem_access list" where
  "example_accesses = [St 4 0x80000100 0xDEADBEEF, Ld True 4 0x80000100, St 1 0x80000102 0x7F, Ld False 8 0x80000100, Ld True 2 0x40000000]"

theorem access_sequences_transparent_witness:
  "fst (access_seq no_devices 64 example_accesses example_bare) = fst (uncached_accesses no_devices 64 example_accesses example_bare) \<and>
   host (snd (access_seq no_devices 64 example_accesses example_bare)) = host (snd (uncached_accesses no_devices 64 example_accesses example_bare)) \<and>
   io (snd (access_seq no_devices 64 example_accesses example_bare)) = io (snd (uncached_accesses no_devices 64 example_accesses example_bare))"
  by (rule access_sequences_transparent [OF example_bare_ok _ prod.collapse [symmetric] prod.collapse [symmetric]])
    (simp add: example_accesses_def natural_access_def)

section \<open>Stores are read back\<close>

lemma store_allows_load:
  assumes "pmp_wf h" "pmp_ok h a len STORE mode"
  shows "pmp_ok h a len LOAD mode"
proof -
  have "pmp_allows (pmpcfg h ! i) LOAD mode" if "pmp_allows (pmpcfg h ! i) STORE mode" "i < n_pmp h" for i
    using assms(1) that by (auto simp: pmp_allows_def pmp_wf_def list_all_length)
  then have "pmp_loop h is base a len STORE mode \<Longrightarrow> set is \<subseteq> {0 ..< n_pmp h} \<Longrightarrow> pmp_loop h is base a len LOAD mode" for "is" base
    by (induction "is" arbitrary: base) (auto simp: Let_def split: if_split_asm)
  then show ?thesis using assms(2) by (auto simp: pmp_ok_def)
qed

lemma untranslated_load:
  assumes "mach_ok xlen m" "untranslated xlen m" "translate xlen m a sz STORE 0 = Inr pa"
  shows "translate xlen m a sz LOAD 0 = Inr pa"
proof -
  have "walk xlen m a LOAD (prv (proc m)) False mxr = walk xlen m a STORE (prv (proc m)) False mxr" for mxr
    using assms(2) by (auto simp: walk_def untranslated_def Let_def split: sum.split_asm)
  then show ?thesis using assms(3) store_allows_load [OF pmp_of_ok [OF assms(1)]]
    unfolding translate_def plain_mode [OF assms(1)] by (auto simp: xbind_def Let_def split: sum.split_asm if_split_asm)
qed

lemma stored_value:
  assumes "mach_ok xlen m" "tlb_coherent xlen m" "untranslated xlen m" "natural_access a sz"
    "translate xlen m a sz STORE 0 = Inr pa" "addr_to_mem (bus m) pa = Some hp"
    "store_func sz 0 dv xlen a x m = (r, m')"
  shows "r = Inr () \<and> host_load (host m') hp sz = take_bit (8 * sz) x \<and>
    fst (load_func sg sz 0 dv xlen a m') = Inr (to_type sg sz x)"
proof -
  note st = store_transparent [OF assms(1-4,7)]
  have "sz \<le> 8" using assms(4) by (auto simp: natural_access_def)
  then have mem: "r = Inr ()" "host_load (host m') hp sz = take_bit (8 * sz) x"
    using st hostm.get_put [of sz "host m" hp "take_bit (8 * sz) x"] by (auto simp: uncached_store_def assms(5,6) Let_def)
  have hart: "same_hart m m'" "mach_ok xlen m'" "tlb_coherent xlen m'" using st by simp_all
  have "translate xlen m' a sz LOAD 0 = Inr pa"
    using translate_hart [OF assms(1) hart(1) assms(3)] untranslated_load [OF assms(1,3,5)] by simp
  moreover have "addr_to_mem (bus m') pa = Some hp" using hart(1) assms(6) by (simp add: same_hart_def)
  moreover have "to_type sg sz (take_bit (8 * sz) x) = to_type sg sz x"
    using assms(4) by (auto simp: to_type_def natural_access_def signed_take_bit_take_bit)
  ultimately have "uncached_load dv xlen sg sz a m' = (Inr (to_type sg sz x), io m')"
    by (simp add: uncached_load_def mem)
  then show ?thesis using load_transparent [OF hart(2,3) assms(4)] mem
    by (cases "load_func sg sz 0 dv xlen a m'") simp
qed

text \<open>
  C37.  A store to memory is read back.  The hart has no hypervisor extension, no armed debug trigger and no modified
  privilege level for data, memories are page-aligned, the translation cache is coherent, and addresses are not
  translated.  Then a naturally aligned store that the protection registers permit, at an address backed by
  memory, succeeds, and the load of the same address and size that follows returns the stored value at the width
  of the access, sign- or zero-extended.
\<close>

theorem store_load_roundtrip:
  assumes "mach_ok xlen m" "tlb_coherent xlen m" "untranslated xlen m" "natural_access a sz"
    "translate xlen m a sz STORE 0 = Inr pa" "addr_to_mem (bus m) pa = Some hp"
    "store_func sz 0 dv xlen a x m = (r, m')"
  shows "r = Inr () \<and> fst (load_func sg sz 0 dv xlen a m') = Inr (to_type sg sz x)"
  using stored_value [OF assms] by simp

lemma example_word:
  "translate 64 example_bare 0x80000100 4 STORE 0 = Inr 0x80000100" "addr_to_mem (bus example_bare) 0x80000100 = Some 0x100100"
  "natural_access 0x80000100 4"
  subgoal by code_simp
  subgoal by code_simp
  subgoal by (simp add: natural_access_def)
  done

theorem store_load_roundtrip_witness:
  "fst (store_func 4 0 no_devices 64 0x80000100 0xDEADBEEF example_bare) = Inr () \<and>
   fst (load_func True 4 0 no_devices 64 0x80000100 (snd (store_func 4 0 no_devices 64 0x80000100 0xDEADBEEF example_bare))) =
     Inr 0xFFFFFFFFDEADBEEF"
proof -
  have "to_type True 4 0xDEADBEEF = 0xFFFFFFFFDEADBEEF" by code_simp
  then show ?thesis
    using store_load_roundtrip [OF example_bare_ok(1) empty_coherent [OF example_bare_ok(2)] example_bare_ok(3)
      example_word(3,1,2) prod.collapse [symmetric], of no_devices "0xDEADBEEF" True] by simp
qed

section \<open>Atomic operations\<close>

text \<open>
  C38.  An atomic operation updates memory.  The hart has no hypervisor extension, no armed debug trigger and no
  modified privilege level for data, memories are page-aligned, the translation cache is coherent, and addresses
  are not translated.  Then the naturally aligned operation, at an address backed by memory that the protection
  registers permit to be stored to, returns the value memory held; memory holds afterwards the image of that
  value under the operation at the width of the access, and a load of the address returns it.
\<close>

theorem amo_updates_memory:
  assumes "mach_ok xlen m" "tlb_coherent xlen m" "untranslated xlen m" "natural_access a sz"
    "translate xlen m a sz STORE 0 = Inr pa" "addr_to_mem (bus m) pa = Some hp"
    "amo_func sz f dv xlen a m = (r, m')"
  shows "r = Inr (host_load (host m) hp sz) \<and> host_load (host m') hp sz = take_bit (8 * sz) (f (host_load (host m) hp sz)) \<and>
    fst (load_func sg sz 0 dv xlen a m') = Inr (to_type sg sz (f (host_load (host m) hp sz)))"
proof -
  define old where "old = host_load (host m) hp sz"
  obtain r1 m1 where load: "load_func False sz 0 dv xlen a m = (r1, m1)" by (cases "load_func False sz 0 dv xlen a m")
  note ld = load_transparent [OF assms(1,2,4) load]
  have "take_bit (8 * sz) old = old" unfolding old_def host_load_def
    using take_from_bytes [of "read_bytes (host m) hp sz"] by (simp add: read_bytes_def)
  then have r1: "r1 = Inr old"
    using ld untranslated_load [OF assms(1,3,5)] assms(6) by (auto simp: uncached_load_def to_type_def old_def)
  have hart: "same_hart m m1" "mach_ok xlen m1" "tlb_coherent xlen m1" using ld by (simp_all add: world_hart)
  obtain r2 m2 where store: "store_func sz 0 dv xlen a (f old) m1 = (r2, m2)" by (cases "store_func sz 0 dv xlen a (f old) m1")
  have un: "untranslated xlen m1" using untranslated_hart [OF hart(1)] assms(3) by simp
  have tr: "translate xlen m1 a sz STORE 0 = Inr pa" "addr_to_mem (bus m1) pa = Some hp"
    using translate_hart [OF assms(1) hart(1) assms(3)] assms(5,6) hart(1) by (simp_all add: same_hart_def)
  have "r2 = Inr () \<and> host_load (host m2) hp sz = take_bit (8 * sz) (f old) \<and>
      fst (load_func sg sz 0 dv xlen a m2) = Inr (to_type sg sz (f old))"
    by (rule stored_value [OF hart(2,3) un assms(4) tr store])
  then show ?thesis using assms(7) natural_aligned [OF assms(4)] by (simp add: amo_func_def load r1 store [unfolded old_def] old_def)
qed

theorem amo_updates_memory_witness:
  "fst (amo_func 4 (\<lambda>lhs. lhs + 7) no_devices 64 0x80000100 example_bare) = Inr 0 \<and>
   host_load (host (snd (amo_func 4 (\<lambda>lhs. lhs + 7) no_devices 64 0x80000100 example_bare))) 0x100100 4 = 7 \<and>
   fst (load_func True 4 0 no_devices 64 0x80000100 (snd (amo_func 4 (\<lambda>lhs. lhs + 7) no_devices 64 0x80000100 example_bare))) = Inr 7"
proof -
  have "host_load (host example_bare) 0x100100 4 = 0" "to_type True 4 (0 + 7) = 7" "take_bit (8 * 4) (0 + 7 :: reg_t) = 7" by code_simp+
  then show ?thesis
    using amo_updates_memory [OF example_bare_ok(1) empty_coherent [OF example_bare_ok(2)] example_bare_ok(3)
      example_word(3,1,2) prod.collapse [symmetric], of "\<lambda>lhs. lhs + 7" no_devices True] by simp
qed

text \<open>The reservation survives every access that is not part of the load-reserved and store-conditional pair.\<close>

lemma refill_reservation [simp]: "load_reservation_address (mmu (snd (refill_tlb x y z w h))) = load_reservation_address (mmu h)"
  by (cases w; simp add: refill_tlb_def Let_def)

lemma trigger_reservation:
  "mmu (proc (snd (check_trigger xlen op a x m))) = mmu (proc m)"
  by (simp add: check_trigger_def Let_def split: option.split)

lemma mbind_reservation:
  assumes "load_reservation_address (mmu (proc (snd r))) = x"
    "\<And>y n. load_reservation_address (mmu (proc n)) = x \<Longrightarrow> load_reservation_address (mmu (proc (snd (k y n)))) = x"
  shows "load_reservation_address (mmu (proc (snd (mbind r k)))) = x"
  using assms by (cases r) (auto simp: mbind_def split: sum.split)

lemma mmio_proc: "mmio_load dv pa n m = (b, m') \<Longrightarrow> proc m' = proc m" "mmio_store dv pa bs m = (c, m') \<Longrightarrow> proc m' = proc m"
  by (auto simp: mmio_load_def bus_load_def mmio_store_def bus_store_def
      split: if_split_asm option.split_asm device.split_asm prod.split_asm)

lemma load_reservation_kept:
  assumes "load_func sg sz 0 dv xlen a m = (r, m')"
  shows "load_reservation_address (mmu (proc m')) = load_reservation_address (mmu (proc m))"
proof -
  have "load_reservation_address (mmu (proc (snd (load_func sg sz 0 dv xlen a m)))) = load_reservation_address (mmu (proc m))"
    by (auto simp: load_func_def load_slow_path_def Let_def trigger_reservation mmio_proc
        intro!: mbind_reservation split: sum.split option.split prod.split)
  then show ?thesis using assms by simp
qed

lemma store_reservation_kept:
  assumes "store_func sz 0 dv xlen a x m = (r, m')"
  shows "load_reservation_address (mmu (proc m')) = load_reservation_address (mmu (proc m))"
proof -
  have "load_reservation_address (mmu (proc (snd (store_func sz 0 dv xlen a x m)))) = load_reservation_address (mmu (proc m))"
    by (auto simp: store_func_def store_slow_path_def Let_def trigger_reservation mmio_proc
        intro!: mbind_reservation split: sum.split option.split prod.split bool.split)
  then show ?thesis using assms by simp
qed

lemma accesses_keep:
  assumes "mach_ok xlen m" "tlb_coherent xlen m" "untranslated xlen m" "list_all access_natural as" "access_seq dv xlen as m = (rs, m')"
  shows "same_hart m m' \<and> mach_ok xlen m' \<and> tlb_coherent xlen m' \<and>
    load_reservation_address (mmu (proc m')) = load_reservation_address (mmu (proc m))"
  using assms
proof (induction as arbitrary: m rs)
  case (Cons acc as)
  have later: "same_hart m m' \<and> mach_ok xlen m' \<and> tlb_coherent xlen m' \<and>
      load_reservation_address (mmu (proc m')) = load_reservation_address (mmu (proc m))"
    if "same_hart m n" "mach_ok xlen n" "tlb_coherent xlen n" "access_seq dv xlen as n = (rs', m')"
      "load_reservation_address (mmu (proc n)) = load_reservation_address (mmu (proc m))" for n rs'
    using Cons.IH [OF that(2,3) _ _ that(4)] untranslated_hart [OF that(1)] Cons.prems(3,4) same_hart_trans [OF that(1)] that(5) by auto
  show ?case
  proof (cases acc)
    case (Ld sg sz a)
    obtain r n where load: "load_func sg sz 0 dv xlen a m = (r, n)" by (cases "load_func sg sz 0 dv xlen a m")
    obtain rs' where "access_seq dv xlen as n = (rs', m')" using Cons.prems(5) by (auto simp: Ld load split: prod.split_asm)
    then show ?thesis using load_transparent [OF Cons.prems(1,2) _ load] Cons.prems(4) Ld
      by (intro later [of n]) (simp_all add: world_hart load_reservation_kept [OF load])
  next
    case (St sz a x)
    obtain r n where store: "store_func sz 0 dv xlen a x m = (r, n)" by (cases "store_func sz 0 dv xlen a x m")
    obtain rs' where "access_seq dv xlen as n = (rs', m')" using Cons.prems(5) by (auto simp: St store split: prod.split_asm)
    then show ?thesis using store_transparent [OF Cons.prems(1-3) _ store] Cons.prems(4) St
      by (intro later [of n]) (simp_all add: store_reservation_kept [OF store])
  qed
qed (simp add: same_hart_def)

lemma acquire_effect:
  assumes "mach_ok xlen m" "tlb_coherent xlen m" "acquire_load_reservation xlen a m = (Inr (), m')"
  obtains pa hp where "translate xlen m a 1 LOAD 0 = Inr pa" "addr_to_mem (bus m) pa = Some hp"
    "same_hart m m'" "mach_ok xlen m'" "tlb_coherent xlen m'" "load_reservation_address (mmu (proc m')) = pa"
proof -
  obtain pa hp where tr: "translate xlen m a 1 LOAD 0 = Inr pa" "addr_to_mem (bus m) pa = Some hp"
    using assms(3) by (auto simp: acquire_load_reservation_def split: sum.split_asm option.split_asm)
  define k where "k = m\<lparr>proc := snd (refill_tlb a pa hp LOAD (proc m))\<rparr>"
  define n where "n = k\<lparr>proc := (proc k)\<lparr>mmu := (mmu (proc k))\<lparr>load_reservation_address := pa\<rparr>\<rparr>\<rparr>"
  have "fst (refill_tlb a pa hp LOAD (proc m)) = \<lparr>host_offset = hp - a, target_offset = pa - a\<rparr>"
    by (simp add: refill_tlb_def Let_def)
  then have m': "m' = n" using assms(3) tr
    by (cases "refill_tlb a pa hp LOAD (proc m)") (simp add: acquire_load_reservation_def k_def n_def)
  have world: "same_world m k" by (rule refill_world) (simp_all add: k_def)
  have sizes: "tlb_sizes (mmu (proc k))" using assms(1) refill_sizes by (simp add: k_def mach_ok_def)
  have ok: "mach_ok xlen k" by (rule mach_ok_world [OF assms(1) world sizes])
  have coh: "tlb_coherent xlen k"
    by (rule refill_coherent [OF assms(1,2) tr(1) _ tr(2)]) (simp_all add: k_def natural_access_def)
  have kn: "same_world k n" by (simp add: same_world_def n_def)
  have tags: "tlb_tags T (mmu (proc n)) = tlb_tags T (mmu (proc k))" "tlb_data (mmu (proc n)) = tlb_data (mmu (proc k))" for T
    by (cases T) (simp_all add: n_def)
  have "tlb_coherent xlen n"
    using coh translate_world [OF kn plain_mode [OF ok]] kn by (simp add: tlb_coherent_def tlb_hit_def tags same_world_def)
  moreover have "mach_ok xlen n" by (rule mach_ok_world [OF ok kn]) (use sizes in \<open>simp add: tlb_sizes_def n_def\<close>)
  moreover have "same_hart m n" using world kn same_hart_trans [of m k n] by (simp add: world_hart)
  moreover have "load_reservation_address (mmu (proc n)) = pa" by (simp add: n_def)
  ultimately show thesis by (intro that [OF tr]) (simp_all add: m')
qed

text \<open>
  C39.  A reservation lasts until it is yielded.  The hart has no hypervisor extension, no armed debug trigger and no
  modified privilege level for data, memories are page-aligned, the translation cache is coherent, and addresses
  are not translated.  Then, after a load-reserved instruction has acquired a reservation at an address that may
  also be stored to, and any sequence of naturally aligned loads and stores of the hart, the check of a
  store-conditional at the same address finds the reservation; once it has been yielded, as the simulator does
  between the time slices of the harts, the check does not find it.
\<close>

theorem reservation_until_yield:
  assumes "mach_ok xlen m" "tlb_coherent xlen m" "untranslated xlen m" "natural_access a sz"
    "acquire_load_reservation xlen a m = (Inr (), m1)" "translate xlen m a 1 STORE 0 = Inr pa"
    "list_all access_natural as" "access_seq dv xlen as m1 = (rs, m2)"
  shows "fst (check_load_reservation xlen a sz m2) = Inr True \<and>
    fst (check_load_reservation xlen a sz (yield_load_reservation m2)) = Inr False"
proof -
  obtain pa' hp where acq: "translate xlen m a 1 LOAD 0 = Inr pa'" "addr_to_mem (bus m) pa' = Some hp"
    "same_hart m m1" "mach_ok xlen m1" "tlb_coherent xlen m1" "load_reservation_address (mmu (proc m1)) = pa'"
    by (rule acquire_effect [OF assms(1,2,5)])
  have eq: "pa' = pa" by (rule translations_agree [OF assms(1,6) acq(1)])
  have un: "untranslated xlen m1" using untranslated_hart [OF acq(3)] assms(3) by simp
  note keep = accesses_keep [OF acq(4,5) un assms(7,8)]
  have hart: "same_hart m m2" using keep acq(3) same_hart_trans by blast
  have check: "fst (check_load_reservation xlen a sz n) = Inr (load_reservation_address (mmu (proc n)) = pa)" if "same_hart m n" for n
  proof -
    have "translate xlen n a 1 STORE 0 = Inr pa" "addr_to_mem (bus n) pa = Some hp"
      using translate_hart [OF assms(1) that assms(3)] assms(6) acq(2) that eq by (simp_all add: same_hart_def)
    then show ?thesis using natural_aligned [OF assms(4)]
      by (simp add: check_load_reservation_def Let_def split: prod.split) (simp add: refill_tlb_def Let_def)
  qed
  have "same_hart m2 (yield_load_reservation m2)" by (simp add: same_hart_def yield_load_reservation_def)
  then have "same_hart m (yield_load_reservation m2)" by (rule same_hart_trans [OF hart])
  moreover have "pa \<noteq> - 1" using acq(2) unfolding eq by (auto simp: addr_to_mem_def paddr_ok_def split: if_split_asm)
  ultimately show ?thesis using check [OF hart] check keep acq(6) by (simp add: eq yield_load_reservation_def)
qed

theorem reservation_until_yield_witness:
  "fst (check_load_reservation 64 0x80000100 4 (snd (access_seq no_devices 64 example_accesses
     (snd (acquire_load_reservation 64 0x80000100 example_bare))))) = Inr True \<and>
   fst (check_load_reservation 64 0x80000100 4 (yield_load_reservation (snd (access_seq no_devices 64 example_accesses
     (snd (acquire_load_reservation 64 0x80000100 example_bare)))))) = Inr False"
proof (rule reservation_until_yield [OF example_bare_ok(1) empty_coherent [OF example_bare_ok(2)] example_bare_ok(3) example_word(3)])
  have "fst (acquire_load_reservation 64 0x80000100 example_bare) = Inr ()" by code_simp
  then show "acquire_load_reservation 64 0x80000100 example_bare = (Inr (), snd (acquire_load_reservation 64 0x80000100 example_bare))"
    by (simp add: prod_eq_iff)
  show "translate 64 example_bare 0x80000100 1 STORE 0 = Inr 0x80000100" by code_simp
  show "list_all access_natural example_accesses" by (simp add: example_accesses_def natural_access_def)
qed (rule prod.collapse [symmetric])

end
