(* ===== verification/RV_Opcode.thy ===== *)
theory RV_Opcode
  imports RV_Decode
begin

text \<open>
  The instruction decoder (\<^verbatim>\<open>processor_t::decode_insn\<close>): a table of match and mask patterns, searched in order,
  with a direct-mapped cache of decoded words in front of it and a search that moves its hits to the front of the
  table.  The lemmas show that neither optimisation changes what a word decodes to.
\<close>

section \<open>Descriptors and the decoder's state\<close>

record 'f insn_desc_t =
  desc_match :: insn_bits_t
  desc_mask :: insn_bits_t
  desc_rv32 :: 'f
  desc_rv64 :: 'f

record 'f decoder_t =
  instructions :: "'f insn_desc_t list"
  opcode_cache :: "'f insn_desc_t list"

abbreviation (input) OPCODE_CACHE_SIZE :: nat where "OPCODE_CACHE_SIZE \<equiv> 8191"

definition register_insn :: "'f insn_desc_t \<Rightarrow> 'f decoder_t \<Rightarrow> 'f decoder_t" where
  "register_insn desc d = d\<lparr>instructions := instructions d @ [desc]\<rparr>"

text \<open>The order of the table: greater matches first, and of equal matches the greater mask first.\<close>

definition desc_less :: "'f insn_desc_t \<Rightarrow> 'f insn_desc_t \<Rightarrow> bool" where
  "desc_less lhs rhs =
     (if desc_match lhs = desc_match rhs then desc_mask lhs > desc_mask rhs else desc_match lhs > desc_match rhs)"

fun desc_insert :: "'f insn_desc_t \<Rightarrow> 'f insn_desc_t list \<Rightarrow> 'f insn_desc_t list" where
  "desc_insert x [] = [x]"
| "desc_insert x (y # ys) = (if desc_less y x then y # desc_insert x ys else x # y # ys)"

definition desc_sort :: "'f insn_desc_t list \<Rightarrow> 'f insn_desc_t list" where
  "desc_sort xs = foldr desc_insert xs []"

definition build_opcode_map :: "'f \<Rightarrow> 'f decoder_t \<Rightarrow> 'f decoder_t" where
  "build_opcode_map illegal d =
     d\<lparr>instructions := desc_sort (instructions d),
       opcode_cache := replicate OPCODE_CACHE_SIZE \<lparr>desc_match = 0, desc_mask = 0, desc_rv32 = illegal, desc_rv64 = illegal\<rparr>\<rparr>"

definition register_base_instructions :: "'f \<Rightarrow> 'f insn_desc_t list \<Rightarrow> 'f decoder_t" where
  "register_base_instructions illegal insns =
     build_opcode_map illegal
       (register_insn \<lparr>desc_match = 0, desc_mask = 0, desc_rv32 = illegal, desc_rv64 = illegal\<rparr>
         (fold register_insn insns \<lparr>instructions = [], opcode_cache = []\<rparr>))"

section \<open>Decoding\<close>

definition desc_matches :: "insn_bits_t \<Rightarrow> 'f insn_desc_t \<Rightarrow> bool" where
  "desc_matches b p \<longleftrightarrow> b AND desc_mask p = desc_match p"

text \<open>The linear search; running past the end of the table is None.\<close>

fun linear_search :: "insn_bits_t \<Rightarrow> 'f insn_desc_t list \<Rightarrow> nat option" where
  "linear_search b [] = None"
| "linear_search b (p # ps) = (if desc_matches b p then Some 0 else map_option Suc (linear_search b ps))"

text \<open>A hit that shares its match with no neighbour moves to the front.\<close>

definition move_to_front :: "nat \<Rightarrow> 'f insn_desc_t list \<Rightarrow> 'f insn_desc_t list" where
  "move_to_front i ps =
     (let p = ps ! i
      in if desc_mask p \<noteq> 0 \<and> 0 < i \<and> desc_match p \<noteq> desc_match (ps ! (i - 1)) \<and> desc_match p \<noteq> desc_match (ps ! (i + 1))
         then p # take i ps @ drop (i + 1) ps else ps)"

definition desc_func :: "nat \<Rightarrow> 'f insn_desc_t \<Rightarrow> 'f" where
  "desc_func xlen p = (if xlen = 64 then desc_rv64 p else desc_rv32 p)"

definition decode_bits :: "nat \<Rightarrow> insn_bits_t \<Rightarrow> 'f decoder_t \<Rightarrow> ('f \<times> 'f decoder_t) option" where
  "decode_bits xlen b d =
     (let idx = unat b mod OPCODE_CACHE_SIZE; desc = opcode_cache d ! idx
      in if b = desc_match desc then Some (desc_func xlen desc, d)
         else case linear_search b (instructions d) of
           None \<Rightarrow> None
         | Some i \<Rightarrow>
             let desc = instructions d ! i
             in Some (desc_func xlen desc,
                  d\<lparr>instructions := move_to_front i (instructions d),
                    opcode_cache := (opcode_cache d)[idx := desc\<lparr>desc_match := b\<rparr>]\<rparr>))"

definition decode_insn :: "nat \<Rightarrow> insn_bits_t \<Rightarrow> 'f decoder_t \<Rightarrow> ('f \<times> 'f decoder_t) option" where
  "decode_insn xlen insn d = Option.bind (insn_bits insn) (\<lambda>b. decode_bits xlen b d)"

fun decode_all :: "(nat \<times> insn_bits_t) list \<Rightarrow> 'f decoder_t \<Rightarrow> 'f decoder_t option" where
  "decode_all [] d = Some d"
| "decode_all ((xlen, b) # ws) d = Option.bind (decode_bits xlen b d) (\<lambda>(f, d). decode_all ws d)"

section \<open>The specification\<close>

text \<open>
  The descriptor a word belongs to: of those whose pattern the word has, the one with the greatest mask.  A table is
  well-formed when patterns are not empty, and overlap only when they have the same match.
\<close>

definition overlap :: "'f insn_desc_t \<Rightarrow> 'f insn_desc_t \<Rightarrow> bool" where
  "overlap p q \<longleftrightarrow> (desc_match p XOR desc_match q) AND desc_mask p AND desc_mask q = 0"

definition clash :: "'f insn_desc_t \<Rightarrow> 'f insn_desc_t \<Rightarrow> bool" where
  "clash p q \<longleftrightarrow> overlap p q \<and> (desc_match p \<noteq> desc_match q \<or> desc_mask p = desc_mask q)"

fun clash_free :: "'f insn_desc_t list \<Rightarrow> bool" where
  "clash_free [] = True"
| "clash_free (p # ps) = (list_all (\<lambda>q. \<not> clash p q) ps \<and> clash_free ps)"

definition pattern_ok :: "'f insn_desc_t \<Rightarrow> bool" where
  "pattern_ok p \<longleftrightarrow> desc_mask p \<noteq> 0 \<and> desc_match p AND desc_mask p = desc_match p"

definition table_ok :: "'f insn_desc_t list \<Rightarrow> bool" where
  "table_ok ps \<longleftrightarrow> list_all pattern_ok ps \<and> clash_free ps"

definition most_specific :: "'f insn_desc_t list \<Rightarrow> insn_bits_t \<Rightarrow> 'f insn_desc_t \<Rightarrow> bool" where
  "most_specific ps b p \<longleftrightarrow> p \<in> set ps \<and> desc_matches b p \<and> (\<forall>q \<in> set ps. desc_matches b q \<longrightarrow> desc_mask q \<le> desc_mask p)"

lemma matches_overlap: "desc_matches b p \<Longrightarrow> desc_matches b q \<Longrightarrow> overlap p q"
proof -
  assume m: "desc_matches b p" "desc_matches b q"
  have p: "desc_match p = b AND desc_mask p" and q: "desc_match q = b AND desc_mask q" using m by (simp_all add: desc_matches_def)
  show ?thesis unfolding overlap_def p q by (rule bit_word_eqI) (auto simp: bit_simps)
qed

lemma clash_sym: "clash p q = clash q p"
proof -
  have "overlap p q = overlap q p" unfolding overlap_def by (simp add: xor.commute and.commute and.left_commute)
  then show ?thesis unfolding clash_def by auto
qed

lemma clash_freeD: "clash_free ps \<Longrightarrow> p \<in> set ps \<Longrightarrow> q \<in> set ps \<Longrightarrow> p \<noteq> q \<Longrightarrow> \<not> clash p q"
  by (induction ps) (auto simp: list_all_iff clash_sym)

lemma clash_refl: "clash p p"
  by (simp add: clash_def overlap_def)

section \<open>The order of the table\<close>

lemma set_insert: "set (desc_insert x ys) = insert x (set ys)"
  by (induction ys) auto

lemma set_desc_sort: "set (desc_sort xs) = set xs"
  by (induction xs) (simp_all add: desc_sort_def set_insert)

lemma less_trans: "desc_less x y \<Longrightarrow> desc_less y z \<Longrightarrow> desc_less x z"
  by (auto simp: desc_less_def split: if_split_asm)

lemma less_total: "(desc_match x, desc_mask x) \<noteq> (desc_match y, desc_mask y) \<Longrightarrow> \<not> desc_less x y \<Longrightarrow> desc_less y x"
  by (auto simp: desc_less_def split: if_split_asm)

text \<open>The keys of the descriptors are different, so that the sort has one result.\<close>

definition keys_differ :: "'f insn_desc_t list \<Rightarrow> bool" where
  "keys_differ ps \<longleftrightarrow> distinct (map (\<lambda>p. (desc_match p, desc_mask p)) ps)"

lemma insert_sorted:
  assumes "sorted_wrt desc_less ys" "(desc_match x, desc_mask x) \<notin> (\<lambda>p. (desc_match p, desc_mask p)) ` set ys"
  shows "sorted_wrt desc_less (desc_insert x ys)"
  using assms
proof (induction ys)
  case (Cons y ys)
  show ?case
  proof (cases "desc_less y x")
    case False
    then have xy: "desc_less x y" using less_total [of y x] Cons.prems(2) by fastforce
    then show ?thesis using False Cons.prems(1) less_trans [OF xy] by auto
  qed (use Cons in \<open>auto simp: set_insert\<close>)
qed simp

lemma sort_sorted: "keys_differ xs \<Longrightarrow> sorted_wrt desc_less (desc_sort xs)"
proof (induction xs)
  case (Cons x xs)
  then show ?case using set_desc_sort [of xs] by (auto simp: desc_sort_def keys_differ_def intro!: insert_sorted)
qed (simp add: desc_sort_def)

section \<open>The invariant of the decoder\<close>

abbreviation (input) no_insn :: "'f \<Rightarrow> 'f insn_desc_t" where
  "no_insn illegal \<equiv> \<lparr>desc_match = 0, desc_mask = 0, desc_rv32 = illegal, desc_rv64 = illegal\<rparr>"

text \<open>Descriptors of one match stand together, the greater mask first; the one that takes every word is last.\<close>

definition table_inv :: "'f \<Rightarrow> 'f insn_desc_t list \<Rightarrow> 'f insn_desc_t list \<Rightarrow> bool" where
  "table_inv illegal insns ps \<longleftrightarrow>
     set ps = insert (no_insn illegal) (set insns) \<and> ps \<noteq> [] \<and> last ps = no_insn illegal \<and>
     sorted_wrt (\<lambda>p q. desc_match p = desc_match q \<longrightarrow> desc_mask q < desc_mask p) ps \<and>
     distinct (remdups_adj (map desc_match ps))"

definition cache_inv :: "'f \<Rightarrow> 'f insn_desc_t list \<Rightarrow> 'f insn_desc_t list \<Rightarrow> bool" where
  "cache_inv illegal insns c \<longleftrightarrow> length c = OPCODE_CACHE_SIZE \<and>
     (\<forall>e \<in> set c. desc_match e \<noteq> 0 \<longrightarrow>
        (\<exists>p. most_specific (no_insn illegal # insns) (desc_match e) p \<and> e = p\<lparr>desc_match := desc_match e\<rparr>))"

definition decoder_inv :: "'f \<Rightarrow> 'f insn_desc_t list \<Rightarrow> 'f decoder_t \<Rightarrow> bool" where
  "decoder_inv illegal insns d \<longleftrightarrow> table_inv illegal insns (instructions d) \<and> cache_inv illegal insns (opcode_cache d)"

lemma sorted_groups: "sorted_wrt (\<lambda>x y. y \<le> (x :: 'a :: linorder)) xs \<Longrightarrow> distinct (remdups_adj xs)"
  by (induction xs rule: remdups_adj.induct) (auto simp: order.antisym)


lemma keys_from_table:
  assumes "table_ok insns"
  shows "keys_differ (insns @ [no_insn illegal])"
proof -
  have "keys_differ insns" if "clash_free insns" for insns :: "'f insn_desc_t list"
    using that by (induction insns) (auto simp: keys_differ_def list_all_iff clash_def overlap_def)
  then show ?thesis using assms by (auto simp: table_ok_def keys_differ_def list_all_iff pattern_ok_def)
qed

lemma register_instructions: "instructions (fold register_insn insns d) = instructions d @ insns"
  by (induction insns arbitrary: d) (simp_all add: register_insn_def)

lemma initial_inv:
  assumes "table_ok insns"
  shows "decoder_inv illegal insns (register_base_instructions illegal insns)"
proof -
  define ps where "ps = desc_sort (insns @ [no_insn illegal])"
  have sorted: "sorted_wrt desc_less ps" unfolding ps_def by (rule sort_sorted [OF keys_from_table [OF assms]])
  have set: "set ps = insert (no_insn illegal) (set insns)" by (simp add: ps_def set_desc_sort)
  have ne: "ps \<noteq> []" using set by auto
  have "last ps = no_insn illegal"
  proof (rule ccontr)
    assume "last ps \<noteq> no_insn illegal"
    then have "no_insn illegal \<in> set (butlast ps)" using set ne by (metis in_set_butlast_appendI insertI1 append_butlast_last_id set_ConsD in_set_conv_decomp UnE append_Nil2 empty_iff empty_set set_append)
    moreover have "sorted_wrt desc_less (butlast ps @ [last ps])" using sorted ne by simp
    ultimately have "desc_less (no_insn illegal) (last ps)" by (auto simp: sorted_wrt_append)
    then show False by (simp add: desc_less_def split: if_split_asm)
  qed
  moreover have "sorted_wrt (\<lambda>p q. desc_match p = desc_match q \<longrightarrow> desc_mask q < desc_mask p) ps"
    by (rule sorted_wrt_mono_rel [OF _ sorted]) (simp add: desc_less_def)
  moreover have "sorted_wrt (\<lambda>x y. y \<le> x) (map desc_match ps)"
    unfolding sorted_wrt_map by (rule sorted_wrt_mono_rel [OF _ sorted]) (auto simp: desc_less_def split: if_split_asm)
  ultimately have "table_inv illegal insns ps" using set ne sorted_groups by (simp add: table_inv_def)
  then show ?thesis
    by (simp add: decoder_inv_def register_base_instructions_def build_opcode_map_def register_insn_def register_instructions
        ps_def cache_inv_def)
qed

section \<open>The search\<close>

lemma linear_search_Some:
  "linear_search b ps = Some i \<Longrightarrow> i < length ps \<and> desc_matches b (ps ! i) \<and> (\<forall>j<i. \<not> desc_matches b (ps ! j))"
  by (induction ps arbitrary: i) (auto simp: less_Suc_eq_0_disj split: if_split_asm)

lemma linear_search_total: "\<exists>p \<in> set ps. desc_matches b p \<Longrightarrow> \<exists>i. linear_search b ps = Some i"
  by (induction ps) auto

lemma search_most_specific:
  assumes "table_ok insns" "table_inv illegal insns ps" "linear_search b ps = Some i"
  shows "most_specific (no_insn illegal # insns) b (ps ! i)"
proof -
  note i = linear_search_Some [OF assms(3)]
  have set: "set ps = insert (no_insn illegal) (set insns)" using assms(2) by (simp add: table_inv_def)
  have "desc_mask q \<le> desc_mask (ps ! i)" if "q \<in> set ps" "desc_matches b q" for q
  proof -
    obtain j where j: "j < length ps" "q = ps ! j" using \<open>q \<in> set ps\<close> by (auto simp: in_set_conv_nth)
    have "i \<le> j" using i that j by (meson not_less)
    show ?thesis
    proof (cases "j = i \<or> desc_mask q = 0")
      case False
      then have ij: "i < j" using \<open>i \<le> j\<close> by simp
      have q: "q \<in> set insns" using False that(1) set by auto
      have "desc_match (ps ! i) = desc_match q"
      proof (cases "ps ! i \<in> set insns")
        case True
        show ?thesis
        proof (rule ccontr)
          assume ne: "desc_match (ps ! i) \<noteq> desc_match q"
          then have "clash (ps ! i) q" using matches_overlap [of b "ps ! i" q] i that(2) by (auto simp: clash_def)
          then show False using clash_freeD [of insns "ps ! i" q] True q ne assms(1) by (auto simp: table_ok_def)
        qed
      next
        case no: False
        then have "ps ! i = no_insn illegal" using i set nth_mem [of i ps] by auto
        moreover have "sorted_wrt (\<lambda>p q. desc_match p = desc_match q \<longrightarrow> desc_mask q < desc_mask p) ps"
          "last ps = no_insn illegal" "ps \<noteq> []" using assms(2) by (simp_all add: table_inv_def)
        then have "desc_match (ps ! i) = desc_match (last ps) \<longrightarrow> desc_mask (last ps) < desc_mask (ps ! i)"
          using ij j(1) sorted_wrt_nth_less [of _ ps i "length ps - 1"] by (fastforce simp: last_conv_nth)
        ultimately show ?thesis using \<open>last ps = no_insn illegal\<close> by simp
      qed
      then show ?thesis
        using assms(2) ij j sorted_wrt_nth_less [of "\<lambda>p q. desc_match p = desc_match q \<longrightarrow> desc_mask q < desc_mask p" ps i j]
        by (auto simp: table_inv_def)
    qed (use j in auto)
  qed
  then show ?thesis using i set nth_mem [of i ps] by (auto simp: most_specific_def)
qed

lemma most_specific_unique:
  assumes "table_ok insns" "most_specific (no_insn illegal # insns) b p" "most_specific (no_insn illegal # insns) b q"
  shows "p = q"
proof (rule ccontr)
  assume ne: "p \<noteq> q"
  have masks: "desc_mask p = desc_mask q" using assms(2,3) by (auto simp: most_specific_def intro: order.antisym)
  have "desc_mask r \<noteq> 0" if "r \<in> set insns" for r using assms(1) that by (auto simp: table_ok_def list_all_iff pattern_ok_def)
  then have "p \<in> set insns" "q \<in> set insns" using assms(2,3) ne masks by (auto simp: most_specific_def)
  moreover have "clash p q" using matches_overlap [of b p q] assms(2,3) masks by (auto simp: most_specific_def clash_def)
  ultimately show False using clash_freeD ne assms(1) by (auto simp: table_ok_def)
qed

text \<open>Moving a hit to the front keeps the groups and their order.\<close>

lemma move_inv:
  assumes "table_inv illegal insns ps" "i < length ps"
  shows "table_inv illegal insns (move_to_front i ps)"
proof (cases "desc_mask (ps ! i) \<noteq> 0 \<and> 0 < i \<and> desc_match (ps ! i) \<noteq> desc_match (ps ! (i - 1)) \<and>
    desc_match (ps ! i) \<noteq> desc_match (ps ! (i + 1))")
  case True
  define as p bs where "as = take i ps" and "p = ps ! i" and "bs = drop (i + 1) ps"
  have ps: "ps = as @ p # bs" using assms(2) by (simp add: as_def p_def bs_def id_take_nth_drop)
  have "p \<noteq> last ps" using assms(1) True by (auto simp: table_inv_def p_def)
  then have bs: "bs \<noteq> []" using ps by auto
  have as: "as \<noteq> []" using True assms(2) by (auto simp: as_def)
  have nb: "desc_match p \<noteq> desc_match (last as)" "desc_match p \<noteq> desc_match (hd bs)"
    using True as bs assms(2) by (auto simp: as_def bs_def p_def last_conv_nth hd_drop_conv_nth)
  have "remdups_adj (map desc_match ps) = remdups_adj (map desc_match as) @ desc_match p # remdups_adj (map desc_match bs)"
    using as bs nb by (cases bs) (simp_all add: ps remdups_adj_append' remdups_adj_Cons' last_map hd_map)
  then have dist: "distinct (remdups_adj (map desc_match as) @ desc_match p # remdups_adj (map desc_match bs))"
    using assms(1) by (simp add: table_inv_def)
  then have "desc_match p \<notin> desc_match ` set as" "desc_match p \<notin> desc_match ` set bs" by auto
  moreover have "remdups_adj (map desc_match (p # as @ bs)) = desc_match p # remdups_adj (map desc_match as) @ remdups_adj (map desc_match bs)"
  proof -
    have "last (map desc_match as) \<noteq> hd (map desc_match bs)"
    proof
      assume eq: "last (map desc_match as) = hd (map desc_match bs)"
      have "last (map desc_match as) \<in> set (remdups_adj (map desc_match as))" using as by (simp add: last_map)
      moreover have "hd (map desc_match bs) \<in> set (remdups_adj (map desc_match bs))" using bs by (simp add: hd_map)
      ultimately show False using dist eq by auto
    qed
    then have "remdups_adj (map desc_match (as @ bs)) = remdups_adj (map desc_match as) @ remdups_adj (map desc_match bs)"
      by (simp add: remdups_adj_append')
    moreover have "desc_match p \<noteq> hd (map desc_match (as @ bs))" using dist as by (cases as) auto
    ultimately show ?thesis using as by (cases as) (simp_all add: remdups_adj_Cons')
  qed
  ultimately have "table_inv illegal insns (p # as @ bs)"
    using assms(1) bs dist unfolding table_inv_def ps by (auto simp: sorted_wrt_append)
  then show ?thesis using True unfolding move_to_front_def Let_def by (simp add: as_def p_def bs_def)
qed (use assms in \<open>auto simp: move_to_front_def Let_def\<close>)

section \<open>Decoding is history-free\<close>

lemma decode_step:
  assumes "table_ok insns" "decoder_inv illegal insns d"
  obtains f d' where "decode_bits xlen b d = Some (f, d')" "decoder_inv illegal insns d'"
    "b \<noteq> 0 \<Longrightarrow> \<exists>p. most_specific (no_insn illegal # insns) b p \<and> f = desc_func xlen p"
proof -
  define idx where "idx = unat b mod OPCODE_CACHE_SIZE"
  have inv: "table_inv illegal insns (instructions d)" "cache_inv illegal insns (opcode_cache d)"
    using assms(2) by (simp_all add: decoder_inv_def)
  then have idx: "idx < length (opcode_cache d)" by (simp add: cache_inv_def idx_def)
  show thesis
  proof (cases "b = desc_match (opcode_cache d ! idx)")
    case True
    define e where "e = opcode_cache d ! idx"
    have "decode_bits xlen b d = Some (desc_func xlen e, d)" using True by (simp add: decode_bits_def Let_def idx_def e_def)
    moreover have "\<exists>p. most_specific (no_insn illegal # insns) b p \<and> desc_func xlen e = desc_func xlen p" if nz: "b \<noteq> 0"
    proof -
      obtain p where "most_specific (no_insn illegal # insns) b p" "e = p\<lparr>desc_match := b\<rparr>"
        using inv(2) nth_mem [OF idx] True nz unfolding cache_inv_def e_def by blast
      then show ?thesis by (auto simp: desc_func_def)
    qed
    ultimately show thesis using that [of "desc_func xlen e" d] assms(2) by simp
  next
    case False
    have "no_insn illegal \<in> set (instructions d)" "desc_matches b (no_insn illegal)"
      using inv(1) by (simp_all add: table_inv_def desc_matches_def)
    then obtain i where i: "linear_search b (instructions d) = Some i" using linear_search_total by blast
    define p where "p = instructions d ! i"
    have p: "most_specific (no_insn illegal # insns) b p" unfolding p_def by (rule search_most_specific [OF assms(1) inv(1) i])
    define d' where "d' = d\<lparr>instructions := move_to_front i (instructions d), opcode_cache := (opcode_cache d)[idx := p\<lparr>desc_match := b\<rparr>]\<rparr>"
    have "decode_bits xlen b d = Some (desc_func xlen p, d')"
      using False by (simp add: decode_bits_def Let_def idx_def [symmetric] i p_def d'_def)
    moreover have "table_inv illegal insns (move_to_front i (instructions d))"
      using move_inv [OF inv(1)] linear_search_Some [OF i] by simp
    moreover have "cache_inv illegal insns ((opcode_cache d)[idx := p\<lparr>desc_match := b\<rparr>])"
    proof -
      have "\<exists>q. most_specific (no_insn illegal # insns) (desc_match e) q \<and> e = q\<lparr>desc_match := desc_match e\<rparr>"
        if "e \<in> set ((opcode_cache d)[idx := p\<lparr>desc_match := b\<rparr>])" "desc_match e \<noteq> 0" for e
      proof (cases "e = p\<lparr>desc_match := b\<rparr>")
        case new: True
        then show ?thesis using p by (intro exI [of _ p]) simp
      next
        case old: False
        then have "e \<in> set (opcode_cache d)" using that(1) set_update_subset_insert by fastforce
        then show ?thesis using inv(2) that(2) by (auto simp: cache_inv_def)
      qed
      then show ?thesis using inv(2) by (simp add: cache_inv_def)
    qed
    ultimately show thesis using p by (intro that [of "desc_func xlen p" d']) (auto simp: decoder_inv_def d'_def)
  qed
qed

lemma decode_all_inv:
  assumes "table_ok insns" "decoder_inv illegal insns d"
  shows "\<exists>d'. decode_all ws d = Some d' \<and> decoder_inv illegal insns d'"
  using assms(2)
proof (induction ws arbitrary: d)
  case (Cons w ws)
  obtain xlen b where w: "w = (xlen, b)" by (cases w)
  obtain f d' where "decode_bits xlen b d = Some (f, d')" "decoder_inv illegal insns d'"
    by (rule decode_step [OF assms(1) Cons.prems])
  then show ?case using Cons.IH by (simp add: w)
qed simp

lemma decode_history_free:
  assumes "table_ok insns" "b \<noteq> 0"
  shows "\<exists>d f d'. decode_all ws (register_base_instructions illegal insns) = Some d \<and> decode_bits xlen b d = Some (f, d') \<and>
    ((\<exists>p. most_specific insns b p \<and> f = desc_func xlen p) \<or> (\<forall>p \<in> set insns. \<not> desc_matches b p) \<and> f = illegal)"
proof -
  obtain d where d: "decode_all ws (register_base_instructions illegal insns) = Some d" "decoder_inv illegal insns d"
    using decode_all_inv [OF assms(1) initial_inv [OF assms(1)]] by blast
  obtain f d' where f: "decode_bits xlen b d = Some (f, d')" "decoder_inv illegal insns d'"
    "b \<noteq> 0 \<Longrightarrow> \<exists>p. most_specific (no_insn illegal # insns) b p \<and> f = desc_func xlen p"
    using decode_step [OF assms(1) d(2), of xlen b] by metis
  then obtain p where p: "most_specific (no_insn illegal # insns) b p" "f = desc_func xlen p" using assms(2) by blast
  have "most_specific insns b p" if "p \<in> set insns" using p(1) that by (simp add: most_specific_def)
  moreover have "f = illegal \<and> (\<forall>q \<in> set insns. \<not> desc_matches b q)" if "p \<notin> set insns"
  proof -
    have "p = no_insn illegal" using p(1) that by (auto simp: most_specific_def)
    moreover have "desc_mask q \<noteq> 0" if "q \<in> set insns" for q using assms(1) that by (auto simp: table_ok_def list_all_iff pattern_ok_def)
    ultimately show ?thesis using p by (auto simp: most_specific_def desc_func_def)
  qed
  ultimately show ?thesis using d(1) f(1) p(2) by blast
qed

end
