(* ===== verification/RV_OpcodeTable.thy ===== *)
theory RV_OpcodeTable
  imports RV_Opcode
begin

text \<open>
  The scalar instruction list: for every instruction the simulator registers (\<^verbatim>\<open>riscv.mk.in\<close>), its match and mask
  (\<^verbatim>\<open>encoding.h\<close>) and the name of its handlers.  The list is the one of a build without 128-bit integers, which leaves
  the vector instructions out.
\<close>

section \<open>The list\<close>

type_synonym insn_entry = "int \<times> int \<times> string"

definition riscv_insn_ext_a :: "insn_entry list" where
  "riscv_insn_ext_a = [
     (0x302F, 0xF800707F, ''amoadd_d''), (0x202F, 0xF800707F, ''amoadd_w''), (0x6000302F, 0xF800707F, ''amoand_d''),
     (0x6000202F, 0xF800707F, ''amoand_w''), (0xA000302F, 0xF800707F, ''amomax_d''), (0xE000302F, 0xF800707F, ''amomaxu_d''),
     (0xE000202F, 0xF800707F, ''amomaxu_w''), (0xA000202F, 0xF800707F, ''amomax_w''), (0x8000302F, 0xF800707F, ''amomin_d''),
     (0xC000302F, 0xF800707F, ''amominu_d''), (0xC000202F, 0xF800707F, ''amominu_w''), (0x8000202F, 0xF800707F, ''amomin_w''),
     (0x4000302F, 0xF800707F, ''amoor_d''), (0x4000202F, 0xF800707F, ''amoor_w''), (0x800302F, 0xF800707F, ''amoswap_d''),
     (0x800202F, 0xF800707F, ''amoswap_w''), (0x2000302F, 0xF800707F, ''amoxor_d''), (0x2000202F, 0xF800707F, ''amoxor_w''),
     (0x1000302F, 0xF9F0707F, ''lr_d''), (0x1000202F, 0xF9F0707F, ''lr_w''), (0x1800302F, 0xF800707F, ''sc_d''),
     (0x1800202F, 0xF800707F, ''sc_w'')]"

definition riscv_insn_ext_c :: "insn_entry list" where
  "riscv_insn_ext_c = [
     (0x9002, 0xF003, ''c_add''), (0x1, 0xE003, ''c_addi''), (0x0, 0xE003, ''c_addi4spn''),
     (0x9C21, 0xFC63, ''c_addw''), (0x8C61, 0xFC63, ''c_and''), (0x8801, 0xEC03, ''c_andi''),
     (0xC001, 0xE003, ''c_beqz''), (0xE001, 0xE003, ''c_bnez''), (0x9002, 0xFFFF, ''c_ebreak''),
     (0x2000, 0xE003, ''c_fld''), (0x2002, 0xE003, ''c_fldsp''), (0x6000, 0xE003, ''c_flw''),
     (0x6002, 0xE003, ''c_flwsp''), (0xA000, 0xE003, ''c_fsd''), (0xA002, 0xE003, ''c_fsdsp''),
     (0xE000, 0xE003, ''c_fsw''), (0xE002, 0xE003, ''c_fswsp''), (0xA001, 0xE003, ''c_j''),
     (0x2001, 0xE003, ''c_jal''), (0x9002, 0xF07F, ''c_jalr''), (0x8002, 0xF07F, ''c_jr''),
     (0x4001, 0xE003, ''c_li''), (0x6001, 0xE003, ''c_lui''), (0x4000, 0xE003, ''c_lw''),
     (0x4002, 0xE003, ''c_lwsp''), (0x8002, 0xF003, ''c_mv''), (0x8C41, 0xFC63, ''c_or''),
     (0x2, 0xE003, ''c_slli''), (0x8401, 0xEC03, ''c_srai''), (0x8001, 0xEC03, ''c_srli''),
     (0x8C01, 0xFC63, ''c_sub''), (0x9C01, 0xFC63, ''c_subw''), (0xC000, 0xE003, ''c_sw''),
     (0xC002, 0xE003, ''c_swsp''), (0x8C21, 0xFC63, ''c_xor'')]"

definition riscv_insn_ext_i :: "insn_entry list" where
  "riscv_insn_ext_i = [
     (0x33, 0xFE00707F, ''add''), (0x13, 0x707F, ''addi''), (0x1B, 0x707F, ''addiw''),
     (0x3B, 0xFE00707F, ''addw''), (0x7033, 0xFE00707F, ''and''), (0x7013, 0x707F, ''andi''),
     (0x17, 0x7F, ''auipc''), (0x63, 0x707F, ''beq''), (0x5063, 0x707F, ''bge''),
     (0x7063, 0x707F, ''bgeu''), (0x4063, 0x707F, ''blt''), (0x6063, 0x707F, ''bltu''),
     (0x1063, 0x707F, ''bne''), (0x6F, 0x7F, ''jal''), (0x67, 0x707F, ''jalr''),
     (0x3, 0x707F, ''lb''), (0x4003, 0x707F, ''lbu''), (0x3003, 0x707F, ''ld''),
     (0x1003, 0x707F, ''lh''), (0x5003, 0x707F, ''lhu''), (0x37, 0x7F, ''lui''),
     (0x2003, 0x707F, ''lw''), (0x6003, 0x707F, ''lwu''), (0x6033, 0xFE00707F, ''or''),
     (0x6013, 0x707F, ''ori''), (0x23, 0x707F, ''sb''), (0x3023, 0x707F, ''sd''),
     (0x1023, 0x707F, ''sh''), (0x1033, 0xFE00707F, ''sll''), (0x1013, 0xFC00707F, ''slli''),
     (0x101B, 0xFE00707F, ''slliw''), (0x103B, 0xFE00707F, ''sllw''), (0x2033, 0xFE00707F, ''slt''),
     (0x2013, 0x707F, ''slti''), (0x3013, 0x707F, ''sltiu''), (0x3033, 0xFE00707F, ''sltu''),
     (0x40005033, 0xFE00707F, ''sra''), (0x40005013, 0xFC00707F, ''srai''), (0x4000501B, 0xFE00707F, ''sraiw''),
     (0x4000503B, 0xFE00707F, ''sraw''), (0x5033, 0xFE00707F, ''srl''), (0x5013, 0xFC00707F, ''srli''),
     (0x501B, 0xFE00707F, ''srliw''), (0x503B, 0xFE00707F, ''srlw''), (0x40000033, 0xFE00707F, ''sub''),
     (0x4000003B, 0xFE00707F, ''subw''), (0x2023, 0x707F, ''sw''), (0x4033, 0xFE00707F, ''xor''),
     (0x4013, 0x707F, ''xori''), (0xF, 0x707F, ''fence''), (0x100F, 0x707F, ''fence_i'')]"

definition riscv_insn_ext_m :: "insn_entry list" where
  "riscv_insn_ext_m = [
     (0x2004033, 0xFE00707F, ''div''), (0x2005033, 0xFE00707F, ''divu''), (0x200503B, 0xFE00707F, ''divuw''),
     (0x200403B, 0xFE00707F, ''divw''), (0x2000033, 0xFE00707F, ''mul''), (0x2001033, 0xFE00707F, ''mulh''),
     (0x2002033, 0xFE00707F, ''mulhsu''), (0x2003033, 0xFE00707F, ''mulhu''), (0x200003B, 0xFE00707F, ''mulw''),
     (0x2006033, 0xFE00707F, ''rem''), (0x2007033, 0xFE00707F, ''remu''), (0x200703B, 0xFE00707F, ''remuw''),
     (0x200603B, 0xFE00707F, ''remw'')]"

definition riscv_insn_ext_f :: "insn_entry list" where
  "riscv_insn_ext_f = [
     (0x53, 0xFE00007F, ''fadd_s''), (0xE0001053, 0xFFF0707F, ''fclass_s''), (0xC0200053, 0xFFF0007F, ''fcvt_l_s''),
     (0xC0300053, 0xFFF0007F, ''fcvt_lu_s''), (0xD0200053, 0xFFF0007F, ''fcvt_s_l''), (0xD0300053, 0xFFF0007F, ''fcvt_s_lu''),
     (0xD0000053, 0xFFF0007F, ''fcvt_s_w''), (0xD0100053, 0xFFF0007F, ''fcvt_s_wu''), (0xC0000053, 0xFFF0007F, ''fcvt_w_s''),
     (0xC0100053, 0xFFF0007F, ''fcvt_wu_s''), (0x18000053, 0xFE00007F, ''fdiv_s''), (0xA0002053, 0xFE00707F, ''feq_s''),
     (0xA0000053, 0xFE00707F, ''fle_s''), (0xA0001053, 0xFE00707F, ''flt_s''), (0x2007, 0x707F, ''flw''),
     (0x43, 0x600007F, ''fmadd_s''), (0x28001053, 0xFE00707F, ''fmax_s''), (0x28000053, 0xFE00707F, ''fmin_s''),
     (0x47, 0x600007F, ''fmsub_s''), (0x10000053, 0xFE00007F, ''fmul_s''), (0xF0000053, 0xFFF0707F, ''fmv_w_x''),
     (0xE0000053, 0xFFF0707F, ''fmv_x_w''), (0x4F, 0x600007F, ''fnmadd_s''), (0x4B, 0x600007F, ''fnmsub_s''),
     (0x20000053, 0xFE00707F, ''fsgnj_s''), (0x20001053, 0xFE00707F, ''fsgnjn_s''), (0x20002053, 0xFE00707F, ''fsgnjx_s''),
     (0x58000053, 0xFFF0007F, ''fsqrt_s''), (0x8000053, 0xFE00007F, ''fsub_s''), (0x2027, 0x707F, ''fsw'')]"

definition riscv_insn_ext_d :: "insn_entry list" where
  "riscv_insn_ext_d = [
     (0x2000053, 0xFE00007F, ''fadd_d''), (0xE2001053, 0xFFF0707F, ''fclass_d''), (0xD2200053, 0xFFF0007F, ''fcvt_d_l''),
     (0xD2300053, 0xFFF0007F, ''fcvt_d_lu''), (0x42300053, 0xFFF0007F, ''fcvt_d_q''), (0x42000053, 0xFFF0007F, ''fcvt_d_s''),
     (0xD2000053, 0xFFF0007F, ''fcvt_d_w''), (0xD2100053, 0xFFF0007F, ''fcvt_d_wu''), (0xC2200053, 0xFFF0007F, ''fcvt_l_d''),
     (0xC2300053, 0xFFF0007F, ''fcvt_lu_d''), (0x40100053, 0xFFF0007F, ''fcvt_s_d''), (0xC2000053, 0xFFF0007F, ''fcvt_w_d''),
     (0xC2100053, 0xFFF0007F, ''fcvt_wu_d''), (0x1A000053, 0xFE00007F, ''fdiv_d''), (0xA2002053, 0xFE00707F, ''feq_d''),
     (0x3007, 0x707F, ''fld''), (0xA2000053, 0xFE00707F, ''fle_d''), (0xA2001053, 0xFE00707F, ''flt_d''),
     (0x2000043, 0x600007F, ''fmadd_d''), (0x2A001053, 0xFE00707F, ''fmax_d''), (0x2A000053, 0xFE00707F, ''fmin_d''),
     (0x2000047, 0x600007F, ''fmsub_d''), (0x12000053, 0xFE00007F, ''fmul_d''), (0xF2000053, 0xFFF0707F, ''fmv_d_x''),
     (0xE2000053, 0xFFF0707F, ''fmv_x_d''), (0x200004F, 0x600007F, ''fnmadd_d''), (0x200004B, 0x600007F, ''fnmsub_d''),
     (0x3027, 0x707F, ''fsd''), (0x22000053, 0xFE00707F, ''fsgnj_d''), (0x22001053, 0xFE00707F, ''fsgnjn_d''),
     (0x22002053, 0xFE00707F, ''fsgnjx_d''), (0x5A000053, 0xFFF0007F, ''fsqrt_d''), (0xA000053, 0xFE00007F, ''fsub_d'')]"

definition riscv_insn_ext_zfh :: "insn_entry list" where
  "riscv_insn_ext_zfh = [
     (0x4000053, 0xFE00007F, ''fadd_h''), (0xE4001053, 0xFFF0707F, ''fclass_h''), (0xC4200053, 0xFFF0007F, ''fcvt_l_h''),
     (0xC4300053, 0xFFF0007F, ''fcvt_lu_h''), (0x42200053, 0xFFF0007F, ''fcvt_d_h''), (0x44100053, 0xFFF0007F, ''fcvt_h_d''),
     (0xD4200053, 0xFFF0007F, ''fcvt_h_l''), (0xD4300053, 0xFFF0007F, ''fcvt_h_lu''), (0x44300053, 0xFFF0007F, ''fcvt_h_q''),
     (0x44000053, 0xFFF0007F, ''fcvt_h_s''), (0xD4000053, 0xFFF0007F, ''fcvt_h_w''), (0xD4100053, 0xFFF0007F, ''fcvt_h_wu''),
     (0x46200053, 0xFFF0007F, ''fcvt_q_h''), (0x40200053, 0xFFF0007F, ''fcvt_s_h''), (0xC4000053, 0xFFF0007F, ''fcvt_w_h''),
     (0xC4100053, 0xFFF0007F, ''fcvt_wu_h''), (0x1C000053, 0xFE00007F, ''fdiv_h''), (0xA4002053, 0xFE00707F, ''feq_h''),
     (0xA4000053, 0xFE00707F, ''fle_h''), (0x1007, 0x707F, ''flh''), (0xA4001053, 0xFE00707F, ''flt_h''),
     (0x4000043, 0x600007F, ''fmadd_h''), (0x2C001053, 0xFE00707F, ''fmax_h''), (0x2C000053, 0xFE00707F, ''fmin_h''),
     (0x4000047, 0x600007F, ''fmsub_h''), (0x14000053, 0xFE00007F, ''fmul_h''), (0xF4000053, 0xFFF0707F, ''fmv_h_x''),
     (0xE4000053, 0xFFF0707F, ''fmv_x_h''), (0x400004F, 0x600007F, ''fnmadd_h''), (0x400004B, 0x600007F, ''fnmsub_h''),
     (0x24000053, 0xFE00707F, ''fsgnj_h''), (0x24001053, 0xFE00707F, ''fsgnjn_h''), (0x24002053, 0xFE00707F, ''fsgnjx_h''),
     (0x1027, 0x707F, ''fsh''), (0x5C000053, 0xFFF0007F, ''fsqrt_h''), (0xC000053, 0xFE00007F, ''fsub_h'')]"

definition riscv_insn_ext_q :: "insn_entry list" where
  "riscv_insn_ext_q = [
     (0x6000053, 0xFE00007F, ''fadd_q''), (0xE6001053, 0xFFF0707F, ''fclass_q''), (0xC6200053, 0xFFF0007F, ''fcvt_l_q''),
     (0xC6300053, 0xFFF0007F, ''fcvt_lu_q''), (0x46100053, 0xFFF0007F, ''fcvt_q_d''), (0xD6200053, 0xFFF0007F, ''fcvt_q_l''),
     (0xD6300053, 0xFFF0007F, ''fcvt_q_lu''), (0x46000053, 0xFFF0007F, ''fcvt_q_s''), (0xD6000053, 0xFFF0007F, ''fcvt_q_w''),
     (0xD6100053, 0xFFF0007F, ''fcvt_q_wu''), (0x40300053, 0xFFF0007F, ''fcvt_s_q''), (0xC6000053, 0xFFF0007F, ''fcvt_w_q''),
     (0xC6100053, 0xFFF0007F, ''fcvt_wu_q''), (0x1E000053, 0xFE00007F, ''fdiv_q''), (0xA6002053, 0xFE00707F, ''feq_q''),
     (0xA6000053, 0xFE00707F, ''fle_q''), (0x4007, 0x707F, ''flq''), (0xA6001053, 0xFE00707F, ''flt_q''),
     (0x6000043, 0x600007F, ''fmadd_q''), (0x2E001053, 0xFE00707F, ''fmax_q''), (0x2E000053, 0xFE00707F, ''fmin_q''),
     (0x6000047, 0x600007F, ''fmsub_q''), (0x16000053, 0xFE00007F, ''fmul_q''), (0x600004F, 0x600007F, ''fnmadd_q''),
     (0x600004B, 0x600007F, ''fnmsub_q''), (0x26000053, 0xFE00707F, ''fsgnj_q''), (0x26001053, 0xFE00707F, ''fsgnjn_q''),
     (0x26002053, 0xFE00707F, ''fsgnjx_q''), (0x4027, 0x707F, ''fsq''), (0x5E000053, 0xFFF0007F, ''fsqrt_q''),
     (0xE000053, 0xFE00007F, ''fsub_q'')]"

definition riscv_insn_ext_h :: "insn_entry list" where
  "riscv_insn_ext_h = [
     (0x62000073, 0xFE007FFF, ''hfence_gvma''), (0x22000073, 0xFE007FFF, ''hfence_vvma''), (0x60004073, 0xFFF0707F, ''hlv_b''),
     (0x60104073, 0xFFF0707F, ''hlv_bu''), (0x64004073, 0xFFF0707F, ''hlv_h''), (0x64104073, 0xFFF0707F, ''hlv_hu''),
     (0x64304073, 0xFFF0707F, ''hlvx_hu''), (0x68004073, 0xFFF0707F, ''hlv_w''), (0x68104073, 0xFFF0707F, ''hlv_wu''),
     (0x68304073, 0xFFF0707F, ''hlvx_wu''), (0x6C004073, 0xFFF0707F, ''hlv_d''), (0x62004073, 0xFE007FFF, ''hsv_b''),
     (0x66004073, 0xFE007FFF, ''hsv_h''), (0x6A004073, 0xFE007FFF, ''hsv_w''), (0x6E004073, 0xFE007FFF, ''hsv_d'')]"

definition riscv_insn_priv :: "insn_entry list" where
  "riscv_insn_priv = [
     (0x3073, 0x707F, ''csrrc''), (0x7073, 0x707F, ''csrrci''), (0x2073, 0x707F, ''csrrs''),
     (0x6073, 0x707F, ''csrrsi''), (0x1073, 0x707F, ''csrrw''), (0x5073, 0x707F, ''csrrwi''),
     (0x7B200073, 0xFFFFFFFF, ''dret''), (0x100073, 0xFFFFFFFF, ''ebreak''), (0x73, 0xFFFFFFFF, ''ecall''),
     (0x30200073, 0xFFFFFFFF, ''mret''), (0x12000073, 0xFE007FFF, ''sfence_vma''), (0x10200073, 0xFFFFFFFF, ''sret''),
     (0x10500073, 0xFFFFFFFF, ''wfi'')]"

definition riscv_insn_list :: "insn_entry list" where
  "riscv_insn_list = riscv_insn_ext_a @ riscv_insn_ext_c @ riscv_insn_ext_i @ riscv_insn_ext_m @ riscv_insn_ext_f @
     riscv_insn_ext_d @ riscv_insn_ext_zfh @ riscv_insn_ext_q @ riscv_insn_ext_h @ riscv_insn_priv"

text \<open>The handlers of an instruction at the two widths.\<close>

datatype handler = illegal_instruction | rv32 string | rv64 string

definition REGISTER_INSN :: "insn_entry \<Rightarrow> handler insn_desc_t" where
  "REGISTER_INSN e = (case e of (mt, mk, name) \<Rightarrow> \<lparr>desc_match = word_of_int mt, desc_mask = word_of_int mk, desc_rv32 = rv32 name, desc_rv64 = rv64 name\<rparr>)"

definition base_instructions :: "handler insn_desc_t list" where
  "base_instructions = map REGISTER_INSN riscv_insn_list"

section \<open>The list is well-formed\<close>

text \<open>The check, on the numbers of the list.\<close>

definition number_ok :: "int \<times> int \<Rightarrow> bool" where
  "number_ok p \<longleftrightarrow> 0 \<le> fst p \<and> fst p < 2 ^ 32 \<and> 0 < snd p \<and> snd p < 2 ^ 32 \<and> fst p AND snd p = fst p"

definition number_clash :: "int \<times> int \<Rightarrow> int \<times> int \<Rightarrow> bool" where
  "number_clash p q \<longleftrightarrow> (fst p XOR fst q) AND snd p AND snd q = 0 \<and> (fst p \<noteq> fst q \<or> snd p = snd q)"

fun numbers_apart :: "(int \<times> int) list \<Rightarrow> bool" where
  "numbers_apart [] = True"
| "numbers_apart (p # ps) = (list_all (\<lambda>q. \<not> number_clash p q) ps \<and> numbers_apart ps)"

text \<open>Patterns that fix a bit differently do not overlap, so that a list may be split at a bit all of its patterns fix.\<close>

fun apart_by :: "nat list \<Rightarrow> (int \<times> int) list \<Rightarrow> bool" where
  "apart_by [] ps = numbers_apart ps"
| "apart_by (k # ks) ps =
     (if list_all (\<lambda>p. bit (snd p) k) ps
      then apart_by ks (filter (\<lambda>p. bit (fst p) k) ps) \<and> apart_by ks (filter (\<lambda>p. \<not> bit (fst p) k) ps)
      else apart_by ks ps)"

lemma numbers_split:
  assumes "\<And>p q. p \<in> set ps \<Longrightarrow> q \<in> set ps \<Longrightarrow> P p \<noteq> P q \<Longrightarrow> \<not> number_clash p q"
  shows "numbers_apart (filter P ps) \<Longrightarrow> numbers_apart (filter (\<lambda>p. \<not> P p) ps) \<Longrightarrow> numbers_apart ps"
  using assms
proof (induction ps)
  case (Cons p ps)
  have apart: "numbers_apart ps" using Cons by (cases "P p") simp_all
  have "\<not> number_clash p q" if "q \<in> set ps" for q
  proof (cases "P p = P q")
    case True
    then show ?thesis using Cons.prems(1,2) that by (cases "P p") (simp_all add: list_all_iff del: split_paired_All)
  next
    case False
    then show ?thesis using Cons.prems(3) [of p q] that by simp
  qed
  then show ?case using apart by (simp add: list_all_iff)
qed simp

lemma split_at_bit:
  assumes "bit (snd p) k" "bit (snd q) k" "bit (fst p) k \<noteq> bit (fst q) k"
  shows "\<not> number_clash p q"
proof
  assume "number_clash p q"
  then have "\<not> bit ((fst p XOR fst q) AND snd p AND snd q) k" by (simp only: number_clash_def bit_0_eq bot_fun_def bot_bool_def) simp
  then show False using assms by (simp add: bit_and_iff bit_xor_iff)
qed

lemma apart_by_sound: "apart_by ks ps \<Longrightarrow> numbers_apart ps"
proof (induction ks arbitrary: ps)
  case (Cons k ks)
  show ?case
  proof (cases "list_all (\<lambda>p. bit (snd p) k) ps")
    case True
    show ?thesis
    proof (rule numbers_split [of ps "\<lambda>p. bit (fst p) k"])
      show "\<not> number_clash p q" if "p \<in> set ps" "q \<in> set ps" "bit (fst p) k \<noteq> bit (fst q) k" for p q
        using True that by (intro split_at_bit [of p k q]) (simp_all add: list_all_iff)
    qed (use Cons True in simp_all)
  next
    case False
    then have "apart_by ks ps" using Cons.prems by simp
    then show ?thesis by (rule Cons.IH)
  qed
qed simp

definition numbers :: "insn_entry \<Rightarrow> int \<times> int" where
  "numbers e = (case e of (mt, mk, name) \<Rightarrow> (mt, mk))"

lemma register_numbers:
  assumes "number_ok (numbers e)"
  shows "uint (desc_match (REGISTER_INSN e)) = fst (numbers e)" "uint (desc_mask (REGISTER_INSN e)) = snd (numbers e)"
  using assms by (cases e; simp add: number_ok_def numbers_def REGISTER_INSN_def uint_word_of_int)+

lemma clash_numbers:
  assumes "number_ok (numbers p)" "number_ok (numbers q)" "clash (REGISTER_INSN p) (REGISTER_INSN q)"
  shows "number_clash (numbers p) (numbers q)"
proof -
  note n = register_numbers [OF assms(1)] register_numbers [OF assms(2)]
  have o: "(desc_match (REGISTER_INSN p) XOR desc_match (REGISTER_INSN q)) AND desc_mask (REGISTER_INSN p) AND desc_mask (REGISTER_INSN q) = 0"
    using assms(3) by (simp add: clash_def overlap_def)
  have "uint ((desc_match (REGISTER_INSN p) XOR desc_match (REGISTER_INSN q)) AND desc_mask (REGISTER_INSN p) AND desc_mask (REGISTER_INSN q)) = 0"
    unfolding o by simp
  then have "(fst (numbers p) XOR fst (numbers q)) AND snd (numbers p) AND snd (numbers q) = 0"
    unfolding unsigned_and_eq unsigned_xor_eq n .
  then show ?thesis using assms(3) by (auto simp: number_clash_def clash_def word_uint_eq_iff n)
qed

lemma numbers_table:
  assumes "list_all number_ok (map numbers es)" "numbers_apart (map numbers es)"
  shows "table_ok (map REGISTER_INSN es)"
proof -
  have "pattern_ok (REGISTER_INSN e)" if "number_ok (numbers e)" for e
  proof -
    note n = register_numbers [OF that]
    have "uint (desc_match (REGISTER_INSN e) AND desc_mask (REGISTER_INSN e)) = uint (desc_match (REGISTER_INSN e))"
      unfolding unsigned_and_eq n using that by (simp add: number_ok_def)
    moreover have "uint (desc_mask (REGISTER_INSN e)) \<noteq> 0" using n(2) that by (simp add: number_ok_def)
    ultimately show ?thesis by (simp add: pattern_ok_def word_uint_eq_iff)
  qed
  moreover have "clash_free (map REGISTER_INSN es)"
    using assms
  proof (induction es)
    case (Cons e es)
    have "\<not> clash (REGISTER_INSN e) (REGISTER_INSN q)" if "q \<in> set es" for q
      using clash_numbers [of e q] Cons.prems that by (auto simp: list_all_iff)
    then show ?case using Cons by (simp add: list_all_iff)
  qed simp
  ultimately show ?thesis using assms(1) by (simp add: table_ok_def list_all_iff)
qed

lemma list_numbers: "list_all number_ok (map numbers riscv_insn_list)"
  by code_simp

lemma list_apart: "apart_by [0, 1, 2, 3, 4, 5, 6, 13, 14, 12, 15, 25, 26, 27, 28, 29, 30, 31, 20, 21] (map numbers riscv_insn_list)"
  by code_simp

lemma base_table_ok: "table_ok base_instructions"
  unfolding base_instructions_def by (rule numbers_table [OF list_numbers apart_by_sound [OF list_apart]])

section \<open>Decoding the registered instructions\<close>

text \<open>
  C40.  Decoding does not depend on what was decoded before.  The decoder starts with the registered scalar
  instructions.  Every sequence of decoded words succeeds, and after it an instruction of two, four or six bytes
  other than the zero word decodes to the handler, at the width of the hart, of the pattern it has, the one with
  the greatest mask if it has several, and to the handler of illegal instructions if it has none: the opcode
  cache and the moves to the front of the table do not show.
\<close>

theorem decoding_is_history_free:
  assumes "insn_bits insn = Some b" "b \<noteq> 0"
  shows "\<exists>d f d'. decode_all ws (register_base_instructions illegal_instruction base_instructions) = Some d \<and>
    decode_insn xlen insn d = Some (f, d') \<and>
    ((\<exists>p. most_specific base_instructions b p \<and> f = desc_func xlen p) \<or>
     (\<forall>p \<in> set base_instructions. \<not> desc_matches b p) \<and> f = illegal_instruction)"
  using decode_history_free [OF base_table_ok assms(2), of ws illegal_instruction xlen] assms(1) by (simp add: decode_insn_def)

theorem decoding_is_history_free_witness:
  "\<exists>d f d'. decode_all [(64, 0x13), (32, 0x9002), (64, 0x13)] (register_base_instructions illegal_instruction base_instructions) = Some d \<and>
    decode_insn 64 0x00A58593 d = Some (f, d') \<and>
    ((\<exists>p. most_specific base_instructions 0x00A58593 p \<and> f = desc_func 64 p) \<or>
     (\<forall>p \<in> set base_instructions. \<not> desc_matches 0x00A58593 p) \<and> f = illegal_instruction)"
proof (rule decoding_is_history_free)
  show "insn_bits 0x00A58593 = Some 0x00A58593" by code_simp
qed simp

end
