(* ===== verification/Spec2Isabelle.thy ===== *)
theory Spec2Isabelle
  imports SF_RoundTrip RV_MulDiv RV_Compressed RV_Memory RV_OpcodeTable
begin

text \<open>
  \<^bold>\<open>The program.\<close>  DifuzzRTL generates programs, runs them on an RTL design of a RISC-V core and on an instruction-set
  simulator, and reports differences.  What counts as right is therefore what the simulator computes: Spike, under
  \<^verbatim>\<open>src/Fuzzer/ISASim/riscv-isa-sim\<close>, changed in places to match the Rocket core.  This development models the parts of
  it that give instructions their meaning: the C library SoftFloat (\<^verbatim>\<open>softfloat/\<close>) for floating-point arithmetic, and
  from \<^verbatim>\<open>riscv/\<close> the instruction words and their decoder, the instruction bodies (\<^verbatim>\<open>insns/*.h\<close>), the control
  registers, traps and interrupts, physical memory protection, and the memory management unit with its bus.

  \<^bold>\<open>How the parts interact.\<close>  A word is decoded to a handler; the handler is the text of a file of \<^verbatim>\<open>insns/\<close>, written with
  the macros of \<^verbatim>\<open>decode.h\<close> over the hart's state; floating-point handlers set SoftFloat's rounding mode, call it, and
  move its exception flags to the hart; memory handlers call the memory management unit, which translates the
  address by a page walk, checks the protection registers, and caches the outcome; a handler that throws makes the
  hart take a trap, whose delegation and return use the control registers.

  \<^bold>\<open>SoftFloat.\<close>
  \<^item> \<open>C_Prelude\<close>: the C integer types and generic lemmas.  \<open>IEEE_Round\<close>: the specification, rounding a real number to a
    format with its exceptions.  \<open>Round_Generic\<close>: rounding by increments and shifts, for any width, as locales.
  \<^item> \<open>SF_State\<close>, \<open>SF_Primitives\<close>, \<open>SF_Format\<close>: the global state (\<^verbatim>\<open>softfloat_state.c\<close>) as the record \<open>sf_state\<close> that every
    operation takes and returns, the shifts and counts of \<^verbatim>\<open>primitives.h\<close>, bit fields and NaN rules
    (\<^verbatim>\<open>internals.h\<close>, \<^verbatim>\<open>specialize.h\<close>).
  \<^item> \<open>SF_RoundPack\<close>, \<open>SF_Norm\<close>, \<open>SF_Interface\<close>: round-and-pack, normalisation, and the locale \<open>sf_format\<close> of what they promise,
    interpreted on the three formats.
  \<^item> \<open>SF_Mul\<close>, \<open>SF_AddSub\<close>, \<open>SF_Compare\<close>, \<open>SF_FromInt\<close>, \<open>SF_RoundInt\<close>, \<open>SF_ToInt\<close>, \<open>SF_ToIntTrunc\<close>: the operations, each correctly
    rounded with exactly the exceptions of IEEE 754 and the NaN conventions of RISC-V, on every branch and in every
    mode; \<open>SF_Frame\<close>, \<open>SF_RoundTrip\<close>: what they leave of the state, and conversions composed.

  \<^bold>\<open>Instructions.\<close>
  \<^item> \<open>RV_Decode\<close>: the accessors of \<^verbatim>\<open>insn_t\<close>, the assembly of a fetched word, and the encoders of the debug module
    (\<^verbatim>\<open>opcodes.h\<close>), with their round trips.  \<open>RV_Opcode\<close>, \<open>RV_OpcodeTable\<close>: \<^verbatim>\<open>decode_insn\<close> with its opcode cache and its
    move-to-front table, on the registered scalar instructions; neither changes what a word decodes to.
  \<^item> \<open>RV_State\<close>: the register files, status fields and macros; an instruction body is a function of the width, the word,
    its addresses and the state, to a trap or the next address and state.  \<open>RV_FP\<close>, \<open>RV_FP_Spec\<close>, \<open>RV_FP_Safety\<close>: the scalar
    floating-point bodies, their refinement of the IEEE results, and when they are illegal.
  \<^item> \<open>RV_Arith\<close>, \<open>RV_Int\<close>, \<open>RV_Int_Safety\<close>, \<open>RV_MulDiv\<close>, \<open>RV_Compressed\<close>: \<^verbatim>\<open>arith.h\<close> and the integer, multiplication and
    compressed bodies at both widths, against exact integers and against the instructions they abbreviate.

  \<^bold>\<open>Privileged architecture and memory.\<close>
  \<^item> \<open>RV_Hart\<close>, \<open>RV_Priv\<close>: the state of a hart (\<^verbatim>\<open>state_t\<close>), \<^verbatim>\<open>set_csr\<close> and \<^verbatim>\<open>get_csr\<close> register by register, traps,
    interrupts, reset, and the privileged instructions; a call of \<^verbatim>\<open>abort\<close> is a result of its own.  \<open>RV_Csr\<close>: locked
    protection entries stay, and writes that affect translation empty the translation cache.  \<open>RV_Trap\<close>: the invariant
    of the privileged state over the inductive relation \<open>priv_step\<close>, which allows any order of traps, interrupts,
    register writes and privileged instructions and so more than the loop of \<^verbatim>\<open>processor_t::step\<close>; no state reached
    from reset leads to an abort, and a trap and its return resume the program.
  \<^item> \<open>RV_Pmp\<close>: \<^verbatim>\<open>pmp_ok\<close> and \<^verbatim>\<open>pmp_homogeneous\<close> against the rule over address regions.
  \<^item> \<open>RV_Mmu\<close>: \<^verbatim>\<open>mmu.cc\<close>, \<^verbatim>\<open>mmu.h\<close>, \<^verbatim>\<open>devices.cc\<close> and the address map of \<^verbatim>\<open>sim.cc\<close>, over a record \<open>machine_t\<close> of the hart, host
    memory, bus, devices and a pending trigger.  \<open>RV_Translate\<close>: the walk is the lookup in the page table.  \<open>RV_Tlb\<close>: the
    translation cache is transparent.  \<open>RV_LoadStore\<close>: the memory instructions.  \<open>RV_Memory\<close>: stores are read back, atomic
    operations update memory, reservations last until they are yielded, over the locale \<open>byte_memory\<close> interpreted on
    host memory.

  \<^bold>\<open>Bounds and termination.\<close>  There is no fuel: loops over levels of a page table, protection entries, triggers, bytes and
  table entries are recursion over lists of the length the code iterates over, and the decoder's search is shown not
  to run past the table.  Machine integers have the width of the code; where C++ leaves a shift undefined the model
  says so or gives the behaviour of the target, and the finding is recorded.

  \<^bold>\<open>Configuration.\<close>  The host is little-endian with the GNU C library's integer types.  Misaligned accesses, hardware
  update of accessed and dirty bits, the commit log and the histogram are compiled out, as in the default build; no
  memory tracer is registered; the width in use is the maximal width.  The decoder's list is that of a build
  without 128-bit integers.

  \<^bold>\<open>Conditions of the memory theorems.\<close>  The theorems of \<open>RV_Tlb\<close> and \<open>RV_Memory\<close> are about machines with \<open>mach_ok\<close>: no hypervisor
  extension, no armed debug trigger, the field MPRV of \<^verbatim>\<open>mstatus\<close> clear, memories on page boundaries.  These are not
  conveniences: with a load trigger the result of a load depends on the cache, and under MPRV fetches and loads of
  one page share a cache entry that has two translations.  Those of \<open>RV_Memory\<close> assume that addresses are not
  translated, since a store may change the page table and the code flushes only on a fence; and those of \<open>RV_Trap\<close> a
  hart without the hypervisor extension, since with it a guest value of MPP leads to an abort.

  \<^bold>\<open>Not modelled.\<close>  SoftFloat's division, square root, fused multiply-add, remainder, float-to-float conversions and
  binary16 addition, and the 128-bit format; the vector unit; the instruction cache, the execution loop of
  \<^verbatim>\<open>execute.cc\<close> and the scheduling of harts in \<^verbatim>\<open>sim.cc\<close>, whose end of a time slice yields a reservation; devices other
  than memories, which are a parameter; the disassembler, the debugger, the host interface and the device tree
  library, which are input and output or third-party code; the fuzzer and the coverage pass, which are in Python and
  Scala.
\<close>

end
